(* ===== verification/Omega_Prelude.thy ===== *)
theory Omega_Prelude
  imports Main "HOL-Library.Word"
begin

text \<open>
  Shared vocabulary of the development: names for the machine types the firmware uses, the
  collections of rewrite rules the component theories feed, the arithmetic of 32-bit signed
  counters, and facts on lists and strings that several components need.
\<close>

unbundle bit_operations_syntax

section \<open>Machine types\<close>

type_synonym u8 = "8 word"
type_synonym u16 = "16 word"
type_synonym u32 = "32 word"
type_synonym i8 = "8 word"
type_synonym bytes = "u8 list"

text \<open>Instants and durations of \<open>std::chrono\<close>: whole nanoseconds and whole milliseconds.\<close>

type_synonym nanos = int
type_synonym millis = int

named_theorems wire_simps \<open>lengths and projections of byte encodings\<close>
named_theorems ctl_simps \<open>unfolding rules of the control loop\<close>
named_theorems store_simps \<open>what each store operation does to each field\<close>

section \<open>Signed 32-bit counters\<close>

text \<open>
  The firmware counts in \<open>int\<close>. Overflow is undefined in C++; the model writes the
  two's-complement result out, so that a statement about a counter that never wraps has to be
  proved.
\<close>

definition int_max :: int where "int_max = 2147483647"

definition s32_succ :: "int \<Rightarrow> int" where
  "s32_succ n = (if n = int_max then - int_max - 1 else n + 1)"

lemma s32_succ_small: "n < int_max \<Longrightarrow> s32_succ n = n + 1"
  by (simp add: s32_succ_def)

section \<open>Durations\<close>

text \<open>Division truncating towards zero, as C++ divides.\<close>

definition tdiv :: "int \<Rightarrow> int \<Rightarrow> int" where
  "tdiv a b = sgn a * sgn b * (\<bar>a\<bar> div \<bar>b\<bar>)"

text \<open>\<open>duration_cast<milliseconds>\<close> of a nanosecond count.\<close>

definition to_millis :: "nanos \<Rightarrow> millis" where
  "to_millis d = tdiv d 1000000"

definition of_millis :: "millis \<Rightarrow> nanos" where
  "of_millis d = d * 1000000"

lemma tdiv_nonneg: "0 \<le> a \<Longrightarrow> 0 < b \<Longrightarrow> tdiv a b = a div b"
  by (cases "a = 0") (simp_all add: tdiv_def)

lemma to_millis_ge:
  assumes "0 < w"
  shows "w \<le> to_millis d \<longleftrightarrow> of_millis w \<le> d"
proof (cases "0 \<le> d")
  case True
  then show ?thesis
    using assms by (simp add: to_millis_def of_millis_def tdiv_nonneg) linarith
next
  case False
  then have "to_millis d \<le> 0"
    by (simp add: to_millis_def tdiv_def)
  with False assms show ?thesis
    by (simp add: of_millis_def)
qed

section \<open>Strings\<close>

text \<open>\<open>find\<close> of a character: the text before its first occurrence and the text after it.\<close>

fun split_at :: "char \<Rightarrow> string \<Rightarrow> (string \<times> string) option" where
  "split_at c [] = None"
| "split_at c (x # xs) =
     (if x = c then Some ([], xs)
      else map_option (\<lambda>(a, b). (x # a, b)) (split_at c xs))"

lemma split_at_append:
  "c \<notin> set a \<Longrightarrow> split_at c (a @ c # b) = Some (a, b)"
  by (induction a) auto

lemma split_at_none: "split_at c s = None \<longleftrightarrow> c \<notin> set s"
  by (induction s) auto

lemma split_at_some: "split_at c s = Some (a, b) \<Longrightarrow> s = a @ c # b \<and> c \<notin> set a"
  by (induction s arbitrary: a) (auto split: if_splits)

text \<open>\<open>std::getline\<close> until the end of the stream: a last line without a newline counts,
  an empty one does not.\<close>

definition newline :: char where "newline = CHR 0x0A"

fun getlines_from :: "string \<Rightarrow> string \<Rightarrow> string list" where
  "getlines_from acc [] = (if acc = [] then [] else [rev acc])"
| "getlines_from acc (x # xs) =
     (if x = newline then rev acc # getlines_from [] xs else getlines_from (x # acc) xs)"

definition getlines :: "string \<Rightarrow> string list" where
  "getlines = getlines_from []"

lemma getlines_from_line:
  "newline \<notin> set l \<Longrightarrow>
   getlines_from acc (l @ newline # rest) = (rev acc @ l) # getlines_from [] rest"
  by (induction l arbitrary: acc) auto

definition unlines :: "string list \<Rightarrow> string" where
  "unlines ls = concat (map (\<lambda>l. l @ [newline]) ls)"

lemma unlines_simps [simp]:
  "unlines [] = []"
  "unlines (l # ls) = l @ newline # unlines ls"
  by (simp_all add: unlines_def)

lemma getlines_unlines:
  "\<forall>l \<in> set ls. newline \<notin> set l \<Longrightarrow> getlines (unlines ls) = ls"
  by (induction ls) (auto simp: getlines_def getlines_from_line)

text \<open>Decimal digits of a natural number, most significant first.\<close>

definition digit_char :: "nat \<Rightarrow> char" where
  "digit_char d = char_of (48 + d)"

definition is_digit :: "char \<Rightarrow> bool" where
  "is_digit c \<longleftrightarrow> 48 \<le> (of_char c :: nat) \<and> (of_char c :: nat) \<le> 57"

definition digit_val :: "char \<Rightarrow> nat" where
  "digit_val c = of_char c - 48"

fun nat_digits :: "nat \<Rightarrow> string" where
  "nat_digits n = (if n < 10 then [digit_char n] else nat_digits (n div 10) @ [digit_char (n mod 10)])"

declare nat_digits.simps [simp del]

lemma of_char_digit: "d < 10 \<Longrightarrow> (of_char (digit_char d) :: nat) = 48 + d"
  by (simp add: digit_char_def)

lemma digit_char_digit: "d < 10 \<Longrightarrow> is_digit (digit_char d)"
  by (simp add: is_digit_def of_char_digit)

lemma digit_val_char: "d < 10 \<Longrightarrow> digit_val (digit_char d) = d"
  by (simp add: digit_val_def of_char_digit)

lemma nat_digits_nonempty: "nat_digits n \<noteq> []"
  by (subst nat_digits.simps) simp

lemma nat_digits_digits: "c \<in> set (nat_digits n) \<Longrightarrow> is_digit c"
proof (induction n arbitrary: c rule: nat_digits.induct)
  case (1 n)
  then show ?case
    by (subst (asm) nat_digits.simps) (auto simp: digit_char_digit split: if_splits)
qed

definition digits_val :: "string \<Rightarrow> nat" where
  "digits_val s = foldl (\<lambda>v c. v * 10 + digit_val c) 0 s"

lemma digits_val_nat_digits: "digits_val (nat_digits n) = n"
proof (induction n rule: nat_digits.induct)
  case (1 n)
  show ?case
  proof (cases "n < 10")
    case True
    then show ?thesis
      by (subst nat_digits.simps) (simp add: digits_val_def digit_val_char)
  next
    case False
    with 1 have "digits_val (nat_digits (n div 10)) = n div 10" by simp
    with False show ?thesis
      by (subst nat_digits.simps) (simp add: digits_val_def digit_val_char)
  qed
qed

lemma unat_of_char_byte: "unat (of_char c :: u8) = of_char c"
proof -
  have "(of_char c :: u8) = of_nat (of_char c)" by (simp add: of_nat_of_char)
  then show ?thesis by (simp add: unat_of_nat)
qed

end
