(* ===== verification/Float32.thy ===== *)
theory Float32
  imports Complex_Main Omega_Prelude
begin

text \<open>
  The C++ \<open>float\<close> of the firmware: IEEE 754 binary32, as its 32-bit pattern. Magnitudes are
  read off the low 31 bits, whose order is the order of the values, as a whole number of
  units of \<open>2^-149\<close> (the smallest subnormal); arithmetic is exact on rationals followed by
  round-to-nearest-even. Each operation evaluates on concrete patterns. Evaluation is without
  excess precision and without contraction into fused operations; \<open>hypot\<close>
  and \<open>atan2\<close>, whose accuracy no standard fixes, are parameters of the code that uses them.
\<close>

section \<open>Patterns and magnitudes\<close>

type_synonym f32 = "32 word"

definition fidx :: "f32 \<Rightarrow> nat" where
  "fidx x = unat x mod 2147483648"

definition fsgn :: "f32 \<Rightarrow> bool" where
  "fsgn x \<longleftrightarrow> 2147483648 \<le> unat x"

definition fmk :: "bool \<Rightarrow> nat \<Rightarrow> f32" where
  "fmk s n = word_of_nat (if s then n + 2147483648 else n)"

definition inf_idx :: nat where "inf_idx = 2139095040"

definition qnan :: f32 where "qnan = 0x7FC00000"

definition fnan :: "f32 \<Rightarrow> bool" where "fnan x \<longleftrightarrow> inf_idx < fidx x"
definition finf :: "f32 \<Rightarrow> bool" where "finf x \<longleftrightarrow> fidx x = inf_idx"
definition ffin :: "f32 \<Rightarrow> bool" where "ffin x \<longleftrightarrow> fidx x < inf_idx"
definition fzero :: "f32 \<Rightarrow> bool" where "fzero x \<longleftrightarrow> fidx x = 0"

text \<open>The magnitude of index \<open>n\<close> in units of \<open>2^-149\<close>. The formula is the same for the index of
  infinity, where it gives \<open>2^128\<close>.\<close>

definition fmag :: "nat \<Rightarrow> nat" where
  "fmag n = (if n < 8388608 then n
             else (8388608 + n mod 8388608) * 2 ^ (n div 8388608 - 1))"

definition sval :: "f32 \<Rightarrow> int" where
  "sval x = (if fsgn x then - int (fmag (fidx x)) else int (fmag (fidx x)))"

lemma fidx_bound: "fidx x < 2147483648"
  by (simp add: fidx_def)

lemma fidx_fmk [simp]: "n < 2147483648 \<Longrightarrow> fidx (fmk s n) = n"
  by (simp add: fidx_def fmk_def unat_of_nat)

lemma fsgn_fmk [simp]: "n < 2147483648 \<Longrightarrow> fsgn (fmk s n) = s"
  by (simp add: fsgn_def fmk_def unat_of_nat)

lemma fmk_fsgn_fidx [simp]: "fmk (fsgn x) (fidx x) = x"
proof -
  have "unat x < 4294967296"
    using unsigned_less [of x] by simp
  then have "(if fsgn x then fidx x + 2147483648 else fidx x) = unat x"
    by (simp add: fidx_def fsgn_def le_mod_geq)
  then show ?thesis
    by (simp add: fmk_def)
qed

lemma fmag_step: "fmag n < fmag (Suc n)"
proof (cases "Suc n < 8388608")
  case True
  then show ?thesis by (simp add: fmag_def)
next
  case False
  show ?thesis
  proof (cases "Suc n = 8388608")
    case True
    then show ?thesis by (simp add: fmag_def)
  next
    case ne: False
    with False have n: "8388608 \<le> n" by simp
    define e where "e = n div 8388608"
    have e: "1 \<le> e" using n by (simp add: e_def div_greater_zero_iff Suc_le_eq)
    show ?thesis
    proof (cases "Suc (n mod 8388608) = 8388608")
      case True
      then have "Suc n div 8388608 = Suc e" "Suc n mod 8388608 = 0"
        by (simp_all add: e_def div_Suc mod_Suc)
      moreover obtain k where "e = Suc k" using e by (cases e) auto
      ultimately show ?thesis
        using n True by (simp add: fmag_def e_def)
    next
      case no: False
      then have "Suc n div 8388608 = e" "Suc n mod 8388608 = Suc (n mod 8388608)"
        by (simp_all add: e_def div_Suc mod_Suc)
      then show ?thesis
        using n by (simp add: fmag_def e_def)
    qed
  qed
qed

lemma fmag_strict_mono: "strict_mono fmag"
  by (simp add: strict_mono_Suc_iff fmag_step)

lemma fmag_less_iff [simp]: "fmag m < fmag n \<longleftrightarrow> m < n"
  by (rule strict_mono_less [OF fmag_strict_mono])

lemma fmag_le_iff [simp]: "fmag m \<le> fmag n \<longleftrightarrow> m \<le> n"
  by (rule strict_mono_less_eq [OF fmag_strict_mono])

lemma fmag_eq_iff [simp]: "fmag m = fmag n \<longleftrightarrow> m = n"
  by (rule strict_mono_eq [OF fmag_strict_mono])

lemma fmag_0 [simp]: "fmag 0 = 0"
  by (simp add: fmag_def)

text \<open>Every power of two up to \<open>2^128\<close> (\<open>2^277\<close> units) is a magnitude.\<close>

lemma fmag_pow2:
  assumes "j \<le> 277"
  shows "\<exists>n \<le> inf_idx. fmag n = 2 ^ j"
proof (cases "j < 23")
  case True
  then have "(2::nat) ^ j < 2 ^ 23" by (rule power_strict_increasing) simp
  then have "fmag (2 ^ j) = 2 ^ j" and "(2::nat) ^ j \<le> inf_idx"
    by (simp_all add: fmag_def inf_idx_def)
  then show ?thesis by blast
next
  case False
  define n where "n = (j - 22) * 8388608"
  have "fmag n = 8388608 * 2 ^ (j - 23)"
    using False by (simp add: fmag_def n_def)
  also have "\<dots> = 2 ^ (23 + (j - 23))"
    by (simp only: power_add) simp
  also have "\<dots> = 2 ^ j" using False by simp
  finally have "fmag n = 2 ^ j" .
  moreover have "n \<le> 255 * 8388608"
    unfolding n_def using assms by (intro mult_le_mono1) simp
  ultimately show ?thesis
    by (auto simp: inf_idx_def)
qed

section \<open>Rounding\<close>

text \<open>The largest index below \<open>base + 2^k\<close> whose magnitude satisfies a downward-closed test,
  found bit by bit.\<close>

fun bisect :: "(nat \<Rightarrow> bool) \<Rightarrow> nat \<Rightarrow> nat \<Rightarrow> nat" where
  "bisect p 0 base = base"
| "bisect p (Suc k) base =
     (if p (fmag (base + 2 ^ k)) then bisect p k (base + 2 ^ k) else bisect p k base)"

lemma bisect_spec:
  assumes "p (fmag base)" and "n < base + 2 ^ k"
    and "\<And>a b. a \<le> b \<Longrightarrow> p b \<Longrightarrow> p a"
    and "base \<le> n" and "p (fmag n)" and "\<not> p (fmag (Suc n))"
  shows "bisect p k base = n"
  using assms
proof (induction k arbitrary: base)
  case 0
  then show ?case by simp
next
  case (Suc k)
  show ?case
  proof (cases "p (fmag (base + 2 ^ k))")
    case True
    have "base + 2 ^ k \<le> n"
    proof (rule ccontr)
      assume "\<not> base + 2 ^ k \<le> n"
      then have "fmag (Suc n) \<le> fmag (base + 2 ^ k)" by simp
      with True Suc.prems(3,6) show False by blast
    qed
    with True Suc.prems Suc.IH [of "base + 2 ^ k"] show ?thesis by simp
  next
    case False
    have "n < base + 2 ^ k"
    proof (rule ccontr)
      assume "\<not> n < base + 2 ^ k"
      then have "fmag (base + 2 ^ k) \<le> fmag n" by simp
      with False Suc.prems(3,5) show False by blast
    qed
    with False Suc.prems Suc.IH [of base] show ?thesis by simp
  qed
qed

text \<open>Round a non-negative rational number of units to the nearest index, ties to the even one.\<close>

definition ffloor :: "rat \<Rightarrow> nat" where
  "ffloor q = bisect (\<lambda>m. rat_of_nat m \<le> q) 31 0"

definition fround :: "rat \<Rightarrow> nat" where
  "fround q = (let n = ffloor q in
     if inf_idx \<le> n then inf_idx
     else let mid = rat_of_nat (fmag n + fmag (Suc n)) / 2 in
       if q < mid then n else if mid < q then Suc n
       else if even n then n else Suc n)"

lemma fmag_inf [simp]: "fmag inf_idx = 2 ^ 277"
  by (simp add: fmag_def inf_idx_def)

lemma ffloor_unique:
  assumes "rat_of_nat (fmag n) \<le> q" and "q < rat_of_nat (fmag (Suc n))" and "n < 2147483648"
  shows "ffloor q = n"
  unfolding ffloor_def
proof (rule bisect_spec)
  have "(0::rat) \<le> rat_of_nat (fmag n)" by simp
  with assms(1) show "rat_of_nat (fmag 0) \<le> q" by simp
qed (use assms in auto)

lemma nat_bracket:
  assumes "(0::rat) \<le> q"
  shows "\<exists>n. rat_of_nat (fmag n) \<le> q \<and> q < rat_of_nat (fmag (Suc n))"
proof -
  obtain N where N: "q < rat_of_nat N"
    using reals_Archimedean2 [of q] by blast
  have "N \<le> fmag N"
    by (rule strict_mono_imp_increasing [OF fmag_strict_mono])
  with N have ex: "\<exists>n. q < rat_of_nat (fmag n)"
    by (meson of_nat_le_iff order_less_le_trans)
  define k where "k = (LEAST n. q < rat_of_nat (fmag n))"
  have k: "q < rat_of_nat (fmag k)"
    unfolding k_def by (rule LeastI_ex [OF ex])
  with assms have "k \<noteq> 0" by (intro notI) simp
  then obtain j where j: "k = Suc j" by (cases k) auto
  have "\<not> q < rat_of_nat (fmag j)"
    using not_less_Least [of j "\<lambda>n. q < rat_of_nat (fmag n)"] j by (simp add: k_def)
  with k j show ?thesis by (auto simp: not_less)
qed


lemma ffloor_bracket:
  assumes "0 \<le> q" and "q < rat_of_nat (fmag 2147483648)"
  shows "rat_of_nat (fmag (ffloor q)) \<le> q \<and> q < rat_of_nat (fmag (Suc (ffloor q)))"
proof -
  obtain n where n: "rat_of_nat (fmag n) \<le> q" "q < rat_of_nat (fmag (Suc n))"
    using nat_bracket [OF assms(1)] by blast
  from n(1) assms(2) have "rat_of_nat (fmag n) < rat_of_nat (fmag 2147483648)"
    by (rule order_le_less_trans)
  then have "n < 2147483648"
    by (simp only: of_nat_less_iff fmag_less_iff)
  with n show ?thesis by (simp add: ffloor_unique)
qed

lemma bisect_ge: "base \<le> bisect p k base"
  by (induction k arbitrary: base) (auto intro: order_trans [OF le_add1])

lemma bisect_test:
  "p (fmag base) \<Longrightarrow> p (fmag (bisect p k base))"
  by (induction k arbitrary: base) auto

lemma bisect_lt: "bisect p k base < base + 2 ^ k"
proof (induction k arbitrary: base)
  case 0
  then show ?case by simp
next
  case (Suc k)
  from Suc [of base] Suc [of "base + 2 ^ k"] show ?case by simp
qed

lemma bisect_mono:
  assumes "\<And>m. p m \<Longrightarrow> p' m"
  shows "bisect p k base \<le> bisect p' k base"
proof (induction k arbitrary: base)
  case 0
  then show ?case by simp
next
  case (Suc k)
  have "bisect p k base \<le> bisect p' k (base + 2 ^ k)"
    using bisect_lt [of p k base] bisect_ge [of "base + 2 ^ k" p' k] by linarith
  with Suc assms show ?case by auto
qed

lemma ffloor_mono: "q \<le> q' \<Longrightarrow> ffloor q \<le> ffloor q'"
  unfolding ffloor_def by (rule bisect_mono) (erule order_trans)

lemma fround_bound: "fround q \<le> inf_idx"
  by (simp add: fround_def Let_def inf_idx_def)

lemma fround_between: "min (ffloor q) inf_idx \<le> fround q \<and> fround q \<le> Suc (ffloor q)"
  by (simp add: fround_def Let_def)

lemma fround_mono:
  assumes "q \<le> q'"
  shows "fround q \<le> fround q'"
proof -
  have le: "ffloor q \<le> ffloor q'" by (rule ffloor_mono [OF assms])
  show ?thesis
  proof (cases "ffloor q = ffloor q'")
    case True
    with assms show ?thesis
      by (auto simp: fround_def Let_def)
  next
    case False
    with le have "Suc (ffloor q) \<le> ffloor q'" by simp
    with fround_between [of q] fround_between [of q'] fround_bound [of q] show ?thesis
      by linarith
  qed
qed

lemma fround_exact:
  assumes "n \<le> inf_idx"
  shows "fround (rat_of_nat (fmag n)) = n"
proof -
  have "fmag n < fmag (Suc n)" by simp
  then have lt: "rat_of_nat (fmag n) < rat_of_nat (fmag (Suc n))"
    by (simp only: of_nat_less_iff)
  moreover have "n < 2147483648" using assms by (simp add: inf_idx_def)
  ultimately have "ffloor (rat_of_nat (fmag n)) = n"
    by (intro ffloor_unique) simp_all
  with assms lt show ?thesis
    by (auto simp: fround_def Let_def)
qed

section \<open>Signed rounding\<close>

text \<open>The pattern nearest to a rational number of units; \<open>z\<close> is the sign of an exact zero.\<close>

definition fof :: "bool \<Rightarrow> rat \<Rightarrow> f32" where
  "fof z q = (if q < 0 then fmk True (fround (- q))
              else if 0 < q then fmk False (fround q) else fmk z 0)"

text \<open>The value it has, as a whole number of units.\<close>

definition rr :: "rat \<Rightarrow> int" where
  "rr q = (if q < 0 then - int (fmag (fround (- q))) else int (fmag (fround q)))"

lemma fround_0 [simp]: "fround 0 = 0"
  using fround_exact [of 0] by (simp add: inf_idx_def)

lemma fround_lt: "fround q < 2147483648"
  using fround_bound [of q] by (simp add: inf_idx_def)

lemma sval_fof [simp]: "sval (fof z q) = rr q"
  by (simp add: sval_def fof_def rr_def fround_lt)

lemma fidx_fof: "fidx (fof z q) = fround \<bar>q\<bar>"
  by (simp add: fof_def fround_lt)

lemma fof_not_nan [simp]: "\<not> fnan (fof z q)"
  using fround_bound by (simp add: fnan_def fidx_fof not_less)

lemma rr_0 [simp]: "rr 0 = 0"
  by (simp add: rr_def)

lemma rr_minus: "rr (- q) = - rr q"
  by (simp add: rr_def)

lemma rr_mono: "q \<le> q' \<Longrightarrow> rr q \<le> rr q'"
proof -
  assume le: "q \<le> q'"
  have "fround q \<le> fround q'" by (rule fround_mono [OF le])
  moreover have "fround (- q') \<le> fround (- q)" by (rule fround_mono) (use le in simp)
  ultimately show ?thesis using le by (auto simp: rr_def)
qed

lemma rr_nonneg: "0 \<le> q \<Longrightarrow> 0 \<le> rr q"
  using rr_mono [of 0 q] by simp

lemma rr_nonpos: "q \<le> 0 \<Longrightarrow> rr q \<le> 0"
  using rr_mono [of q 0] by simp

lemma rr_sval:
  assumes "\<not> fnan x"
  shows "rr (rat_of_int (sval x)) = sval x"
proof -
  have "fidx x \<le> inf_idx" using assms by (simp add: fnan_def)
  note ex = fround_exact [OF this]
  show ?thesis
  proof (cases "fmag (fidx x) = 0")
    case True
    then show ?thesis by (simp add: sval_def)
  next
    case False
    then show ?thesis using ex by (simp add: sval_def rr_def)
  qed
qed

text \<open>Powers of two are exact, so rounding at most doubles a value of a unit or more.\<close>

lemma rr_pow2: "j \<le> 277 \<Longrightarrow> rr (2 ^ j) = 2 ^ j"
proof -
  assume "j \<le> 277"
  then obtain n where "n \<le> inf_idx" "fmag n = 2 ^ j" using fmag_pow2 by blast
  with fround_exact [of n] show ?thesis by (simp add: rr_def)
qed

lemma rr_le_max: "rr q \<le> 2 ^ 277"
proof -
  have "fmag (fround q) \<le> fmag inf_idx"
    unfolding fmag_le_iff by (rule fround_bound)
  then have "int (fmag (fround q)) \<le> 2 ^ 277" by simp
  then show ?thesis by (simp add: rr_def)
qed

lemma pow2_bracket:
  assumes "(1::rat) \<le> q"
  shows "\<exists>j. 2 ^ j \<le> q \<and> q < 2 ^ Suc j"
proof -
  define k where "k = (LEAST k. q < 2 ^ k)"
  obtain N :: nat where "q < rat_of_nat N" using reals_Archimedean2 by blast
  also have "rat_of_nat N < 2 ^ N" using of_nat_less_two_power [of N] by simp
  finally have ex: "\<exists>k. q < (2::rat) ^ k" by blast
  have k: "q < 2 ^ k" unfolding k_def by (rule LeastI_ex [OF ex])
  with assms have "k \<noteq> 0" by (intro notI) simp
  then obtain j where j: "k = Suc j" by (cases k) auto
  then have "\<not> q < 2 ^ j"
    using not_less_Least [of j "\<lambda>k. q < (2::rat) ^ k"] by (simp add: k_def)
  with k j show ?thesis by (auto simp: not_less)
qed

lemma rr_double:
  assumes "1 \<le> q"
  shows "rat_of_int (rr q) \<le> 2 * q"
proof -
  obtain j where j: "2 ^ j \<le> q" "q < 2 ^ Suc j" using pow2_bracket [OF assms] by blast
  show ?thesis
  proof (cases "Suc j \<le> 277")
    case True
    have "rr q \<le> rr (2 ^ Suc j)" by (rule rr_mono) (use j in simp)
    also have "\<dots> = 2 ^ Suc j" by (rule rr_pow2 [OF True])
    finally have "rat_of_int (rr q) \<le> rat_of_int (2 ^ Suc j)" by (simp only: of_int_le_iff)
    with j show ?thesis by simp
  next
    case False
    then have "(2::rat) ^ 277 \<le> 2 ^ j" by (intro power_increasing) auto
    moreover have "rat_of_int (rr q) \<le> rat_of_int (2 ^ 277)"
      by (simp only: of_int_le_iff rr_le_max)
    ultimately show ?thesis using j assms by simp
  qed
qed

lemma rr_le_1: "q \<le> 1 \<Longrightarrow> rr q \<le> 1"
  using rr_mono [of q 1] rr_pow2 [of 0] by simp


section \<open>Operations\<close>

text \<open>One in units of \<open>2^-149\<close>.\<close>

definition one_units :: int where "one_units = 2 ^ 149"

definition flt :: "f32 \<Rightarrow> f32 \<Rightarrow> bool" where
  "flt x y \<longleftrightarrow> \<not> fnan x \<and> \<not> fnan y \<and> sval x < sval y"

definition fle :: "f32 \<Rightarrow> f32 \<Rightarrow> bool" where
  "fle x y \<longleftrightarrow> \<not> fnan x \<and> \<not> fnan y \<and> sval x \<le> sval y"

definition feq :: "f32 \<Rightarrow> f32 \<Rightarrow> bool" where
  "feq x y \<longleftrightarrow> \<not> fnan x \<and> \<not> fnan y \<and> sval x = sval y"

definition fneg :: "f32 \<Rightarrow> f32" where
  "fneg x = fmk (\<not> fsgn x) (fidx x)"

definition fabs :: "f32 \<Rightarrow> f32" where
  "fabs x = fmk False (fidx x)"

definition fadd :: "f32 \<Rightarrow> f32 \<Rightarrow> f32" where
  "fadd x y =
     (if fnan x \<or> fnan y then qnan
      else if finf x then (if finf y \<and> fsgn x \<noteq> fsgn y then qnan else x)
      else if finf y then y
      else fof (fsgn x \<and> fsgn y) (rat_of_int (sval x + sval y)))"

definition fsub :: "f32 \<Rightarrow> f32 \<Rightarrow> f32" where
  "fsub x y = fadd x (fneg y)"

definition fmul :: "f32 \<Rightarrow> f32 \<Rightarrow> f32" where
  "fmul x y =
     (if fnan x \<or> fnan y then qnan
      else if finf x \<or> finf y then
        (if fzero x \<or> fzero y then qnan else fmk (fsgn x \<noteq> fsgn y) inf_idx)
      else fof (fsgn x \<noteq> fsgn y) (rat_of_int (sval x * sval y) / rat_of_int one_units))"

definition fdiv :: "f32 \<Rightarrow> f32 \<Rightarrow> f32" where
  "fdiv x y =
     (if fnan x \<or> fnan y then qnan
      else if finf x then (if finf y then qnan else fmk (fsgn x \<noteq> fsgn y) inf_idx)
      else if finf y then fmk (fsgn x \<noteq> fsgn y) 0
      else if fzero y then (if fzero x then qnan else fmk (fsgn x \<noteq> fsgn y) inf_idx)
      else fof (fsgn x \<noteq> fsgn y) (rat_of_int (sval x * one_units) / rat_of_int (sval y)))"

definition fsqrt :: "f32 \<Rightarrow> f32" where
  "fsqrt x =
     (if fnan x then qnan
      else if fzero x then x
      else if fsgn x then qnan
      else if finf x then x
      else let sq = fmag (fidx x) * 2 ^ 149;
               n = bisect (\<lambda>m. m * m \<le> sq) 31 0;
               mid2 = fmag n + fmag (Suc n) in
        fmk False (if 4 * sq < mid2 * mid2 then n
                   else if mid2 * mid2 < 4 * sq then Suc n
                   else if even n then n else Suc n))"

text \<open>\<open>std::min\<close>, \<open>std::max\<close> and \<open>std::clamp\<close>, which compare with \<open>operator<\<close>: a NaN in the
  first place is returned.\<close>

definition fmin :: "f32 \<Rightarrow> f32 \<Rightarrow> f32" where
  "fmin a b = (if flt b a then b else a)"

definition fmax :: "f32 \<Rightarrow> f32 \<Rightarrow> f32" where
  "fmax a b = (if flt a b then b else a)"

definition fclamp :: "f32 \<Rightarrow> f32 \<Rightarrow> f32 \<Rightarrow> f32" where
  "fclamp v lo hi = (if flt v lo then lo else if flt hi v then hi else v)"

text \<open>Conversion from an integer, and to an integer by truncation: no result where C++ leaves the
  conversion undefined (NaN, infinity, or a value the target type cannot hold).\<close>

definition f32_of_int :: "int \<Rightarrow> f32" where
  "f32_of_int n = fof False (rat_of_int (n * one_units))"

definition f32_to_int :: "int \<Rightarrow> int \<Rightarrow> f32 \<Rightarrow> int option" where
  "f32_to_int lo hi x =
     (if \<not> ffin x then None
      else let n = tdiv (sval x) one_units in if lo \<le> n \<and> n \<le> hi then Some n else None)"

text \<open>\<open>v == std::floor(v)\<close> for a finite \<open>v\<close>.\<close>

definition f_integral :: "f32 \<Rightarrow> bool" where
  "f_integral x \<longleftrightarrow> sval x mod one_units = 0"

section \<open>The literals of the source\<close>

text \<open>A decimal literal is the nearest float; \<open>f32_lit\<close> is that rule, and the lemma below checks
  every pattern used.\<close>

definition f32_lit :: "rat \<Rightarrow> f32" where
  "f32_lit q = fof False (q * rat_of_int one_units)"

definition f_0 :: f32 where "f_0 = 0"
definition f_1 :: f32 where "f_1 = 0x3F800000"
definition f_2 :: f32 where "f_2 = 0x40000000"
definition f_0_02 :: f32 where "f_0_02 = 0x3CA3D70A"
definition f_0_05 :: f32 where "f_0_05 = 0x3D4CCCCD"
definition f_0_1 :: f32 where "f_0_1 = 0x3DCCCCCD"
definition f_0_5 :: f32 where "f_0_5 = 0x3F000000"
definition f_0_8 :: f32 where "f_0_8 = 0x3F4CCCCD"
definition f_0_99 :: f32 where "f_0_99 = 0x3F7D70A4"
definition f_1_5 :: f32 where "f_1_5 = 0x3FC00000"
definition f_3 :: f32 where "f_3 = 0x40400000"
definition f_15 :: f32 where "f_15 = 0x41700000"
definition f_1e_3 :: f32 where "f_1e_3 = 0x3A83126F"
definition f_max :: f32 where "f_max = 0x7F7FFFFF"
definition f_lowest :: f32 where "f_lowest = 0xFF7FFFFF"

text \<open>Evaluation of concrete patterns by the simplifier.\<close>

lemma bisect_numeral [simp]:
  "bisect p (numeral v) base =
     (if p (fmag (base + 2 ^ pred_numeral v))
      then bisect p (pred_numeral v) (base + 2 ^ pred_numeral v)
      else bisect p (pred_numeral v) base)"
  by (simp add: numeral_eq_Suc)

lemma fmag_numeral [simp]:
  "fmag (numeral v) =
     (if (numeral v :: nat) < 8388608 then numeral v
      else (8388608 + numeral v mod 8388608) * 2 ^ (numeral v div 8388608 - 1))"
  by (simp add: fmag_def)

lemmas f32_literal_defs =
  f_0_def f_1_def f_2_def f_0_02_def f_0_05_def f_0_1_def f_0_5_def f_0_8_def f_0_99_def
  f_1_5_def f_3_def f_15_def f_1e_3_def f_max_def f_lowest_def

lemmas f32_round_eval =
  f32_lit_def fof_def fround_def ffloor_def one_units_def inf_idx_def fmk_def

lemmas f32_class_eval =
  fidx_def fsgn_def fnan_def finf_def ffin_def fzero_def sval_def inf_idx_def

lemmas f32_cmp_eval = f32_class_eval flt_def fle_def feq_def

lemmas f32_eval =
  f32_round_eval f32_cmp_eval fadd_def fsub_def fmul_def fdiv_def fsqrt_def fneg_def fabs_def
  fmin_def fmax_def fclamp_def f32_of_int_def f32_to_int_def qnan_def tdiv_def

lemma f32_literals:
  "f32_lit 0 = f_0" "f32_lit 1 = f_1" "f32_lit 2 = f_2"
  "f32_lit (2 / 100) = f_0_02" "f32_lit (5 / 100) = f_0_05" "f32_lit (1 / 10) = f_0_1"
  "f32_lit (1 / 2) = f_0_5" "f32_lit (8 / 10) = f_0_8" "f32_lit (99 / 100) = f_0_99"
  "f32_lit (3 / 2) = f_1_5" "f32_lit 3 = f_3" "f32_lit 15 = f_15"
  "f32_lit (1 / 1000) = f_1e_3"
  by (simp_all add: f32_round_eval f32_literal_defs)

lemma f_1_5_over_0_5: "fdiv f_1_5 f_0_5 = f_3"
  by (simp add: f32_eval f32_literal_defs)

section \<open>Facts about comparisons and clamping\<close>

lemma flt_imp_fle: "flt x y \<Longrightarrow> fle x y"
  by (simp add: flt_def fle_def)

lemma fle_trans: "fle x y \<Longrightarrow> fle y z \<Longrightarrow> fle x z"
  by (simp add: fle_def)

lemma fle_refl: "\<not> fnan x \<Longrightarrow> fle x x"
  by (simp add: fle_def)

lemma not_flt: "\<not> fnan x \<Longrightarrow> \<not> fnan y \<Longrightarrow> \<not> flt x y \<longleftrightarrow> fle y x"
  by (auto simp: flt_def fle_def)

lemma ffin_not_nan: "ffin x \<Longrightarrow> \<not> fnan x"
  by (simp add: ffin_def fnan_def)

lemma fclamp_bounds:
  assumes "fle lo hi" and "\<not> fnan v"
  shows "fle lo (fclamp v lo hi) \<and> fle (fclamp v lo hi) hi"
  using assms by (auto simp: fclamp_def flt_def fle_def)

lemma fclamp_nan: "fnan v \<Longrightarrow> fclamp v lo hi = v"
  by (simp add: fclamp_def flt_def)

lemma fmin_not_nan: "\<not> fnan a \<Longrightarrow> \<not> fnan b \<Longrightarrow> \<not> fnan (fmin a b)"
  by (simp add: fmin_def)

lemma fmin_le:
  "\<not> fnan a \<Longrightarrow> \<not> fnan b \<Longrightarrow> fle (fmin a b) a \<and> fle (fmin a b) b"
  by (auto simp: fmin_def flt_def fle_def)

lemma fmax_ge:
  "\<not> fnan a \<Longrightarrow> \<not> fnan b \<Longrightarrow> fle a (fmax a b) \<and> fle b (fmax a b)"
  by (auto simp: fmax_def flt_def fle_def)

lemma fle_between_fin: "fle a x \<Longrightarrow> fle x b \<Longrightarrow> ffin a \<Longrightarrow> ffin b \<Longrightarrow> ffin x"
proof -
  assume h: "fle a x" "fle x b" "ffin a" "ffin b"
  have "\<bar>sval a\<bar> < 2 ^ 277" "\<bar>sval b\<bar> < 2 ^ 277"
    using h(3,4) fmag_less_iff [of "fidx a" inf_idx] fmag_less_iff [of "fidx b" inf_idx]
    by (simp_all add: ffin_def sval_def del: fmag_less_iff)
  with h(1,2) have "\<bar>sval x\<bar> < 2 ^ 277" by (auto simp: fle_def)
  then have "fmag (fidx x) < fmag inf_idx" by (simp add: sval_def split: if_splits)
  then show ?thesis by (simp only: fmag_less_iff ffin_def)
qed

section \<open>Facts about the operations\<close>

lemma fidx_fneg [simp]: "fidx (fneg x) = fidx x"
  by (simp add: fneg_def fidx_bound)

lemma fsgn_fneg [simp]: "fsgn (fneg x) \<longleftrightarrow> \<not> fsgn x"
  by (simp add: fneg_def fidx_bound)

lemma sval_fneg [simp]: "sval (fneg x) = - sval x"
  by (simp add: sval_def)

lemma fclass_fneg [simp]:
  "fnan (fneg x) = fnan x" "finf (fneg x) = finf x" "ffin (fneg x) = ffin x"
  by (simp_all add: fnan_def finf_def ffin_def)

lemma fclass_fabs [simp]:
  "fnan (fabs x) = fnan x" "finf (fabs x) = finf x" "ffin (fabs x) = ffin x"
  by (simp_all add: fnan_def finf_def ffin_def fabs_def fidx_bound)

lemma sval_fabs [simp]: "sval (fabs x) = \<bar>sval x\<bar>"
  by (simp add: sval_def fabs_def fidx_bound)

lemma ffin_iff: "ffin x \<longleftrightarrow> \<not> fnan x \<and> \<not> finf x"
  by (auto simp: ffin_def fnan_def finf_def)

lemma fadd_fin:
  "ffin x \<Longrightarrow> ffin y \<Longrightarrow> fadd x y = fof (fsgn x \<and> fsgn y) (rat_of_int (sval x + sval y))"
  by (simp add: fadd_def ffin_iff)

lemma fsub_fin:
  "ffin x \<Longrightarrow> ffin y \<Longrightarrow> fsub x y = fof (fsgn x \<and> \<not> fsgn y) (rat_of_int (sval x - sval y))"
  by (simp add: fsub_def fadd_fin)

lemma fmul_fin:
  "ffin x \<Longrightarrow> ffin y \<Longrightarrow>
   fmul x y = fof (fsgn x \<noteq> fsgn y) (rat_of_int (sval x * sval y) / rat_of_int one_units)"
  by (simp add: fmul_def ffin_iff)

lemma ffin_fof: "\<bar>q\<bar> < 2 ^ 276 \<Longrightarrow> ffin (fof z q)"
proof -
  assume "\<bar>q\<bar> < 2 ^ 276"
  then have "rr \<bar>q\<bar> \<le> rr (2 ^ 276)" by (intro rr_mono) simp
  also have "\<dots> = 2 ^ 276" by (rule rr_pow2) simp
  finally have "fmag (fround \<bar>q\<bar>) < fmag inf_idx" by (simp add: rr_def)
  then have "fround \<bar>q\<bar> < inf_idx" by (simp only: fmag_less_iff)
  then show ?thesis by (simp add: ffin_def fidx_fof)
qed


section \<open>Exact values and relative error\<close>

lemma fmag_scaled:
  assumes "m < 16777216" and "k \<le> 253"
  shows "\<exists>n \<le> inf_idx. fmag n = m * 2 ^ k"
  using assms
proof (induction k arbitrary: m)
  case 0
  show ?case
  proof (cases "m < 8388608")
    case True
    then have "fmag m = m" by (simp add: fmag_def)
    with True show ?thesis by (intro exI [of _ m]) (simp add: inf_idx_def)
  next
    case False
    with 0 have "m div 8388608 = 1" "m mod 8388608 = m - 8388608"
      by (simp_all add: le_div_geq le_mod_geq)
    with False 0 have "fmag m = m" by (simp add: fmag_def)
    with 0 show ?thesis by (intro exI [of _ m]) (simp add: inf_idx_def)
  qed
next
  case (Suc k)
  show ?case
  proof (cases "m < 8388608")
    case True
    then obtain n where "n \<le> inf_idx" "fmag n = (2 * m) * 2 ^ k"
      using Suc.IH [of "2 * m"] Suc.prems(2) by auto
    then show ?thesis by (intro exI [of _ n]) simp
  next
    case False
    define n where "n = (k + 2) * 8388608 + (m - 8388608)"
    have "m - 8388608 < 8388608" using Suc.prems False by simp
    then have "n div 8388608 = k + 2" "n mod 8388608 = m - 8388608"
      unfolding n_def by (simp_all only: div_mult_self3 mod_mult_self3 div_less mod_less)
    moreover have "8388608 \<le> n" by (simp add: n_def)
    ultimately have "fmag n = m * 2 ^ Suc k"
      using False by (simp add: fmag_def)
    moreover have "(k + 2) * 8388608 \<le> 254 * 8388608"
      using Suc.prems by (intro mult_le_mono1) simp
    then have "n \<le> inf_idx"
      using \<open>m - 8388608 < 8388608\<close> by (simp add: n_def inf_idx_def)
    ultimately show ?thesis by blast
  qed
qed

lemma rr_scaled:
  assumes "m < 16777216" and "k \<le> 253"
  shows "rr (rat_of_nat m * 2 ^ k) = int m * 2 ^ k"
proof -
  obtain n where n: "n \<le> inf_idx" "fmag n = m * 2 ^ k"
    using fmag_scaled [OF assms] by blast
  then have "rr (rat_of_nat (fmag n)) = int (fmag n)"
    using fround_exact [of n] by (simp add: rr_def del: of_nat_mult of_nat_power)
  with n(2) show ?thesis by simp
qed

lemma rr_scaled_small:
  assumes "m < 16" and "k \<le> 273"
  shows "rr (rat_of_nat m * 2 ^ k) = int m * 2 ^ k"
proof (cases "k \<le> 253")
  case True
  with assms show ?thesis by (intro rr_scaled) simp_all
next
  case False
  then have k: "k = 20 + (k - 20)" by simp
  have "rr (rat_of_nat (m * 2 ^ 20) * 2 ^ (k - 20)) = int (m * 2 ^ 20) * 2 ^ (k - 20)"
    using assms by (intro rr_scaled) simp_all
  moreover have "rat_of_nat (m * 2 ^ 20) * 2 ^ (k - 20) = rat_of_nat m * 2 ^ k"
    by (subst (2) k) (simp only: power_add of_nat_mult of_nat_power of_nat_numeral mult.assoc)
  moreover have "int (m * 2 ^ 20) * 2 ^ (k - 20) = int m * 2 ^ k"
    by (subst (2) k) (simp only: power_add of_nat_mult of_nat_power of_nat_numeral mult.assoc)
  ultimately show ?thesis by (simp only:)
qed

lemma rr_int_exact:
  assumes "m < 16777216"
  shows "rr (rat_of_int (int m * one_units)) = int m * one_units"
  using rr_scaled [OF assms, of 149] by (simp add: one_units_def)

lemma sval_f32_of_int: "m < 16777216 \<Longrightarrow> sval (f32_of_int (int m)) = int m * one_units"
  by (simp add: f32_of_int_def rr_int_exact del: of_int_mult)

lemma ffin_f32_of_int: "m < 16777216 \<Longrightarrow> ffin (f32_of_int (int m))"
proof -
  assume "m < 16777216"
  then have "rat_of_nat m < 16777216" by simp
  then have "rat_of_nat m * 2 ^ 149 < 16777216 * 2 ^ 149"
    by (rule mult_strict_right_mono) simp
  also have "\<dots> < (2::rat) ^ 276" by simp
  finally show ?thesis
    unfolding f32_of_int_def by (intro ffin_fof) (simp add: one_units_def)
qed

text \<open>A value of eight units or more loses at most a ninth to rounding (far less, in fact).\<close>

lemma rr_lower:
  assumes "8 \<le> q" and "q < 2 ^ 277"
  shows "8 * q \<le> 9 * rat_of_int (rr q)"
proof -
  obtain j where j: "2 ^ j \<le> q" "q < 2 ^ Suc j"
    using pow2_bracket [of q] assms(1) by auto
  have "3 \<le> j"
  proof (rule ccontr)
    assume "\<not> 3 \<le> j"
    then have "(2::rat) ^ Suc j \<le> 2 ^ 3" by (intro power_increasing) auto
    with j assms show False by simp
  qed
  then obtain d where d: "j = d + 3" using le_iff_add by (metis add.commute)
  have "j \<le> 276"
  proof (rule ccontr)
    assume "\<not> j \<le> 276"
    then have "(2::rat) ^ 277 \<le> 2 ^ j" by (intro power_increasing) auto
    with j assms show False by simp
  qed
  define u :: rat where "u = 2 ^ d"
  have u: "0 < u" by (simp add: u_def)
  have j': "8 * u \<le> q" "q < 16 * u" using j d by (simp_all add: u_def power_add)
  define i where "i = nat \<lfloor>q / u\<rfloor>"
  have fl: "of_int \<lfloor>q / u\<rfloor> \<le> q / u" "q / u < of_int \<lfloor>q / u\<rfloor> + 1" by linarith+
  have "8 \<le> q / u" "q / u < 16" using j' u by (simp_all add: field_simps)
  then have "8 \<le> \<lfloor>q / u\<rfloor>" "\<lfloor>q / u\<rfloor> < 16" by linarith+
  then have i: "8 \<le> i" "i < 16" "of_int \<lfloor>q / u\<rfloor> = rat_of_nat i"
    unfolding i_def by linarith+
  then have iu: "rat_of_nat i * u \<le> q" "q < (rat_of_nat i + 1) * u"
    using fl u by (simp_all add: field_simps)
  have "rr (rat_of_nat i * u) = int i * 2 ^ d"
    unfolding u_def using i \<open>j \<le> 276\<close> d by (intro rr_scaled_small) auto
  with iu(1) have "int i * 2 ^ d \<le> rr q" by (metis rr_mono)
  then have "rat_of_int (int i * 2 ^ d) \<le> rat_of_int (rr q)" by (simp only: of_int_le_iff)
  then have "rat_of_nat i * u \<le> rat_of_int (rr q)" by (simp add: u_def)
  moreover have "8 * ((rat_of_nat i + 1) * u) \<le> 9 * (rat_of_nat i * u)"
    using i u by (simp add: algebra_simps)
  ultimately show ?thesis using iu(2) by linarith
qed

section \<open>Square roots\<close>

lemma fsqrt_ok:
  assumes "\<not> fnan x" and "0 \<le> sval x"
  shows "\<not> fnan (fsqrt x) \<and> 0 \<le> sval (fsqrt x)"
proof (cases "fzero x \<or> finf x \<or> fsgn x")
  case True
  with assms show ?thesis
    using fmag_eq_iff [of "fidx x" 0]
    by (auto simp: fsqrt_def fzero_def finf_def sval_def inf_idx_def simp del: fmag_eq_iff
        split: if_splits)
next
  case False
  define sq where "sq = fmag (fidx x) * 2 ^ 149"
  define n where "n = bisect (\<lambda>m. m * m \<le> sq) 31 0"
  have idx: "fidx x < inf_idx" using assms False by (simp add: fnan_def finf_def)
  have "fmag n * fmag n \<le> sq"
    unfolding n_def by (rule bisect_test) simp
  also have "sq < fmag inf_idx * 2 ^ 149" using idx by (simp add: sq_def del: fmag_inf)
  also have "\<dots> \<le> fmag inf_idx * fmag inf_idx" by simp
  finally have "fmag n < fmag inf_idx"
    by (metis mult_le_mono not_le)
  then have "Suc n \<le> inf_idx" by (simp only: fmag_less_iff Suc_le_eq)
  define r where "r = (if 4 * sq < (fmag n + fmag (Suc n)) * (fmag n + fmag (Suc n)) then n
    else if (fmag n + fmag (Suc n)) * (fmag n + fmag (Suc n)) < 4 * sq then Suc n
    else if even n then n else Suc n)"
  have "r \<le> Suc n" by (simp add: r_def)
  with \<open>Suc n \<le> inf_idx\<close> have r: "r \<le> inf_idx" by linarith
  have "fsqrt x = fmk False r"
    using assms False by (simp add: fsqrt_def Let_def r_def n_def sq_def)
  with r show ?thesis by (simp add: fnan_def sval_def inf_idx_def)
qed

end
