(* ===== verification/Calibration.thy ===== *)
theory Calibration
  imports Float32
begin

text \<open>
  \<open>OmegaCalibration\<close> (\<open>omega_calibration.hpp\<close>): the data of a calibration, the median filter,
  the center and range sweeps, the usability test and the deadzone rules. The sensor, the
  message sink and the sleep function of \<open>OmegaCalibration::Config\<close> are the fields of
  \<open>cal_io\<close>, acting on a world \<open>'w\<close>; \<open>atan2\<close> is a parameter of the range sweep. Log output is left
  out.
\<close>

section \<open>Data\<close>

record center_result =
  center_x :: f32
  center_y :: f32
  noise_radius :: f32
  center_deadzone :: f32
  manual_offset_x :: f32
  manual_offset_y :: f32

record range_result =
  min_x :: f32
  max_x :: f32
  min_y :: f32
  max_y :: f32
  usable_radius :: f32
  reliable_max_radius :: f32
  normalized_max_radius :: f32
  range_deadzone :: f32
  sector_max_radius :: "f32 list"

definition init_center :: center_result where
  "init_center = \<lparr>center_x = f_0, center_y = f_0, noise_radius = f_0, center_deadzone = f_0,
     manual_offset_x = f_0, manual_offset_y = f_0\<rparr>"

definition init_range :: range_result where
  "init_range = \<lparr>min_x = f_0, max_x = f_0, min_y = f_0, max_y = f_0, usable_radius = f_0,
     reliable_max_radius = f_0, normalized_max_radius = f_0, range_deadzone = f_0,
     sector_max_radius = []\<rparr>"

definition effective_center_x :: "center_result \<Rightarrow> f32" where
  "effective_center_x c = fadd (center_x c) (manual_offset_x c)"

definition effective_center_y :: "center_result \<Rightarrow> f32" where
  "effective_center_y c = fadd (center_y c) (manual_offset_y c)"

text \<open>\<open>enum class InputMode : uint8_t\<close>: a settings file can put any byte into it.\<close>

datatype input_mode = MOUSE | XAC | OTHER_MODE u8

record device_settings =
  manual_center_deadzone :: "f32 option"
  manual_range_deadzone :: "f32 option"
  nudge_distance_threshold :: f32
  nudge_exit_threshold :: f32
  nudge_hold_time :: millis
  nudge_enabled :: bool
  input_mode :: input_mode

definition init_settings :: device_settings where
  "init_settings = \<lparr>manual_center_deadzone = None, manual_range_deadzone = None,
     nudge_distance_threshold = f_0_5, nudge_exit_threshold = f_0_8, nudge_hold_time = 100,
     nudge_enabled = False, input_mode = MOUSE\<rparr>"

definition effective_center_deadzone :: "device_settings \<Rightarrow> center_result \<Rightarrow> f32" where
  "effective_center_deadzone s c =
     (case manual_center_deadzone s of Some v \<Rightarrow> v | None \<Rightarrow> center_deadzone c)"

definition effective_range_deadzone :: "device_settings \<Rightarrow> range_result \<Rightarrow> f32" where
  "effective_range_deadzone s r =
     (case manual_range_deadzone s of Some v \<Rightarrow> v | None \<Rightarrow> range_deadzone r)"

datatype cal_error =
    Read_failure | No_center_samples | No_center_noise_samples | No_range_samples
  | File_open_failed | File_write_failed | File_parse_failed | File_missing_field
  | Unsupported_schema | Calibration_unusable

text \<open>A run ends with a result, with an error the code reports, or in a conversion C++ leaves
  undefined.\<close>

datatype 'e abort = Reported 'e | Undefined_behaviour

section \<open>Tunables\<close>

definition CENTER_SAMPLES :: nat where "CENTER_SAMPLES = 200"
definition RANGE_SAMPLES :: nat where "RANGE_SAMPLES = 200"
definition RANGE_SECTORS :: nat where "RANGE_SECTORS = 32"
definition CENTER_PERCENTILE :: f32 where "CENTER_PERCENTILE = f_0_99"
definition CENTER_MARGIN :: f32 where "CENTER_MARGIN = f_1_5"
definition MAX_CENTER_DEADZONE :: f32 where "MAX_CENTER_DEADZONE = f_0_5"
definition RANGE_PERCENTILE :: f32 where "RANGE_PERCENTILE = f_0_1"
definition MAX_RANGE_DEADZONE :: f32 where "MAX_RANGE_DEADZONE = f_0_1"
definition MIN_COVERED_SECTORS :: nat where "MIN_COVERED_SECTORS = RANGE_SECTORS div 2"
definition MIN_USABLE_TO_NOISE_RATIO :: f32 where
  "MIN_USABLE_TO_NOISE_RATIO = fdiv CENTER_MARGIN MAX_CENTER_DEADZONE"
definition LOAD_RATIO_TOLERANCE :: f32 where "LOAD_RATIO_TOLERANCE = f_1e_3"
definition SETTLE_DELAY :: millis where "SETTLE_DELAY = 5000"
definition SAMPLE_DELAY :: millis where "SAMPLE_DELAY = 10"
definition f_pi :: f32 where "f_pi = 0x40490FDB"

section \<open>The median filter\<close>

record median3 =
  m_history :: "f32 list"
  m_index :: nat
  m_count :: nat

definition init_median3 :: median3 where
  "init_median3 = \<lparr>m_history = [f_0, f_0, f_0], m_index = 0, m_count = 0\<rparr>"

definition median_of :: "f32 \<Rightarrow> f32 \<Rightarrow> f32 \<Rightarrow> f32" where
  "median_of a b c = fmax (fmin a b) (fmin (fmax a b) c)"

definition median3_update :: "median3 \<Rightarrow> f32 \<Rightarrow> f32 \<times> median3" where
  "median3_update m value =
     (let h = (m_history m)[m_index m := value];
          m' = m\<lparr>m_history := h, m_index := (m_index m + 1) mod 3\<rparr> in
      if m_count m < 3 then (value, m'\<lparr>m_count := m_count m + 1\<rparr>)
      else (median_of (h ! 0) (h ! 1) (h ! 2), m'))"

definition median3_reset :: "median3 \<Rightarrow> median3" where
  "median3_reset m = m\<lparr>m_count := 0, m_index := 0\<rparr>"

section \<open>Sampling\<close>

record 'w cal_io =
  cal_read :: "'w \<Rightarrow> (f32 \<times> f32) option \<times> 'w"
  cal_message :: "string \<Rightarrow> 'w \<Rightarrow> 'w"
  cal_sleep :: "millis \<Rightarrow> 'w \<Rightarrow> 'w"

text \<open>The loop the three sampling phases share: read, skip a failed read, filter both axes,
  fold the sample in, pause.\<close>

fun sample_loop ::
  "'w cal_io \<Rightarrow> (f32 \<Rightarrow> f32 \<Rightarrow> 's \<Rightarrow> 's) \<Rightarrow> nat \<Rightarrow> median3 \<Rightarrow> median3 \<Rightarrow> 's \<Rightarrow> 'w \<Rightarrow> 's \<times> 'w" where
  "sample_loop io body 0 fx fy s w = (s, w)"
| "sample_loop io body (Suc n) fx fy s w =
     (case cal_read io w of
        (None, w') \<Rightarrow> sample_loop io body n fx fy s (cal_sleep io SAMPLE_DELAY w')
      | (Some (rx, ry), w') \<Rightarrow>
          let (x, fx') = median3_update fx rx; (y, fy') = median3_update fy ry in
          sample_loop io body n fx' fy' (body x y s) (cal_sleep io SAMPLE_DELAY w'))"

text \<open>\<open>std::sort\<close> on floats that hold no NaN.\<close>

fun finsert :: "f32 \<Rightarrow> f32 list \<Rightarrow> f32 list" where
  "finsert x [] = [x]"
| "finsert x (y # ys) = (if flt y x then y # finsert x ys else x # y # ys)"

definition fsort :: "f32 list \<Rightarrow> f32 list" where
  "fsort xs = foldr finsert xs []"

text \<open>\<open>static_cast<size_t>((n - 1) * p)\<close>; \<open>size_t\<close> is 32 bits wide on the target.\<close>

definition percentile_index :: "nat \<Rightarrow> f32 \<Rightarrow> int option" where
  "percentile_index n p = f32_to_int 0 4294967295 (fmul (f32_of_int (int n - 1)) p)"

section \<open>Center calibration\<close>

definition center_sum_body :: "f32 \<Rightarrow> f32 \<Rightarrow> f32 \<times> f32 \<times> nat \<Rightarrow> f32 \<times> f32 \<times> nat" where
  "center_sum_body x y s = (case s of (sx, sy, n) \<Rightarrow> (fadd sx x, fadd sy y, n + 1))"

definition radius_of :: "f32 \<Rightarrow> f32 \<Rightarrow> f32" where
  "radius_of dx dy = fsqrt (fadd (fmul dx dx) (fmul dy dy))"

definition center_noise_body :: "f32 \<Rightarrow> f32 \<Rightarrow> f32 \<Rightarrow> f32 \<Rightarrow> f32 list \<Rightarrow> f32 list" where
  "center_noise_body cx cy x y rs = rs @ [radius_of (fsub x cx) (fsub y cy)]"

definition center_calibration ::
  "'w cal_io \<Rightarrow> center_result \<Rightarrow> 'w \<Rightarrow> (cal_error abort + center_result) \<times> 'w" where
  "center_calibration io out w0 =
     (let w1 = cal_message io ''Do not touch or move it.''
                 (cal_message io ''Release the joystick completely.'' w0);
          w2 = cal_message io ''Measuring center...'' (cal_sleep io SETTLE_DELAY w1);
          ((sum_x, sum_y, valid), w3) =
            sample_loop io center_sum_body CENTER_SAMPLES init_median3 init_median3
              (f_0, f_0, 0) w2 in
      if valid = 0 then (Inl (Reported No_center_samples), w3)
      else
        let cx = fdiv sum_x (f32_of_int (int valid));
            cy = fdiv sum_y (f32_of_int (int valid));
            w4 = cal_message io ''shake it a bit but do not touch the end effector.''
                   (cal_message io ''Measuring center movement/noise...'' w3);
            w5 = cal_sleep io SETTLE_DELAY w4;
            (radii, w6) =
              sample_loop io (center_noise_body cx cy) CENTER_SAMPLES init_median3 init_median3
                [] w5 in
        if radii = [] then (Inl (Reported No_center_noise_samples), w6)
        else
          case percentile_index (length radii) CENTER_PERCENTILE of
            None \<Rightarrow> (Inl Undefined_behaviour, w6)
          | Some i \<Rightarrow>
              (Inr (out\<lparr>center_x := cx, center_y := cy, noise_radius := fsort radii ! nat i,
                        center_deadzone := f_0\<rparr>), w6))"

section \<open>Range calibration\<close>

definition check_usable :: "center_result \<Rightarrow> range_result \<Rightarrow> f32 \<Rightarrow> bool" where
  "check_usable c r tolerance =
     (let noise = noise_radius c; usable = usable_radius r in
      \<not> (\<not> ffin noise \<or> \<not> ffin usable \<or> flt noise f_0 \<or> fle usable f_0 \<or>
         flt usable (fmul (fmul MIN_USABLE_TO_NOISE_RATIO noise) (fsub f_1 tolerance))))"

record sweep =
  sw_min_x :: f32
  sw_max_x :: f32
  sw_min_y :: f32
  sw_max_y :: f32
  sw_sectors :: "f32 list"
  sw_valid :: nat

definition init_sweep :: sweep where
  "init_sweep = \<lparr>sw_min_x = f_max, sw_max_x = f_lowest, sw_min_y = f_max, sw_max_y = f_lowest,
     sw_sectors = replicate RANGE_SECTORS f_0, sw_valid = 0\<rparr>"

text \<open>The angular sector of a displacement: \<open>static_cast<int>(angle / (2 pi / 32))\<close>, clamped.\<close>

definition sector_of :: "(f32 \<Rightarrow> f32 \<Rightarrow> f32) \<Rightarrow> f32 \<Rightarrow> f32 \<Rightarrow> nat option" where
  "sector_of atan2 dx dy =
     (let a0 = atan2 dy dx;
          two_pi = fmul f_2 f_pi;
          angle = (if flt a0 f_0 then fadd a0 two_pi else a0) in
      map_option (\<lambda>i. nat (max 0 (min i (int RANGE_SECTORS - 1))))
        (f32_to_int (- int_max - 1) int_max
           (fdiv angle (fdiv two_pi (f32_of_int (int RANGE_SECTORS))))))"

definition sweep_body ::
  "(f32 \<Rightarrow> f32 \<Rightarrow> f32) \<Rightarrow> center_result \<Rightarrow> f32 \<Rightarrow> f32 \<Rightarrow> sweep option \<Rightarrow> sweep option" where
  "sweep_body atan2 c x y acc =
     (case acc of None \<Rightarrow> None
      | Some s \<Rightarrow>
          let dx = fsub x (center_x c); dy = fsub y (center_y c);
              radius = radius_of dx dy in
          case sector_of atan2 dx dy of None \<Rightarrow> None
          | Some k \<Rightarrow>
              Some (s\<lparr>sw_min_x := fmin (sw_min_x s) dx, sw_max_x := fmax (sw_max_x s) dx,
                      sw_min_y := fmin (sw_min_y s) dy, sw_max_y := fmax (sw_max_y s) dy,
                      sw_sectors := (sw_sectors s)[k := fmax (sw_sectors s ! k) radius],
                      sw_valid := sw_valid s + 1\<rparr>))"

text \<open>\<open>std::min({a, b, c, d})\<close>.\<close>

definition fmin4 :: "f32 \<Rightarrow> f32 \<Rightarrow> f32 \<Rightarrow> f32 \<Rightarrow> f32" where
  "fmin4 a b c d = fmin (fmin (fmin a b) c) d"

text \<open>What follows the sweep: usable radius, coverage, usability and the derived deadzone.\<close>

definition range_result_of ::
  "center_result \<Rightarrow> sweep \<Rightarrow> range_result \<Rightarrow> cal_error abort + range_result" where
  "range_result_of c s out =
     (if sw_valid s = 0 then Inl (Reported No_range_samples)
      else
        let usable = fmin4 (fabs (sw_max_x s)) (fabs (sw_min_x s)) (fabs (sw_max_y s))
                       (fabs (sw_min_y s));
            maxima = filter (\<lambda>r. flt f_0 r) (sw_sectors s) in
        if length maxima < MIN_COVERED_SECTORS then Inl (Reported No_range_samples)
        else if \<not> check_usable c (init_range\<lparr>usable_radius := usable\<rparr>) f_0
          then Inl (Reported Calibration_unusable)
        else
          case percentile_index (length maxima) RANGE_PERCENTILE of
            None \<Rightarrow> Inl Undefined_behaviour
          | Some i \<Rightarrow>
              let reliable = fsort maxima ! nat i;
                  norm0 = (if flt f_0 usable then fdiv reliable usable else f_0);
                  norm = fclamp norm0 f_0 f_1;
                  deadzone = fclamp (fsub f_1 norm) f_0 MAX_RANGE_DEADZONE in
              Inr (out\<lparr>min_x := sw_min_x s, max_x := sw_max_x s, min_y := sw_min_y s,
                       max_y := sw_max_y s, usable_radius := usable,
                       reliable_max_radius := reliable, normalized_max_radius := norm,
                       range_deadzone := deadzone, sector_max_radius := sw_sectors s\<rparr>))"

definition range_calibration ::
  "'w cal_io \<Rightarrow> (f32 \<Rightarrow> f32 \<Rightarrow> f32) \<Rightarrow> center_result \<Rightarrow> range_result \<Rightarrow> 'w
     \<Rightarrow> (cal_error abort + range_result) \<times> 'w" where
  "range_calibration io atan2 c out w0 =
     (let w1 = cal_message io ''Move the joystick slowly through a COMPLETE circle.'' w0;
          w2 = cal_message io ''Reach the physical maximum in every direction.'' w1;
          w3 = cal_message io ''Try to reach all edges of the joystick.'' w2;
          w4 = cal_message io ''START!'' (cal_sleep io SETTLE_DELAY (cal_sleep io SETTLE_DELAY w3));
          (acc, w5) = sample_loop io (sweep_body atan2 c) RANGE_SAMPLES init_median3 init_median3
                        (Some init_sweep) w4 in
      case acc of None \<Rightarrow> (Inl Undefined_behaviour, w5)
      | Some s \<Rightarrow> (range_result_of c s out, cal_message io ''STOP!'' w5))"

section \<open>Offsets, deadzone, the whole sequence\<close>

definition set_manual_offset :: "center_result \<Rightarrow> f32 \<Rightarrow> f32 \<Rightarrow> center_result" where
  "set_manual_offset c ox oy = c\<lparr>manual_offset_x := ox, manual_offset_y := oy\<rparr>"

definition adjust_manual_offset :: "center_result \<Rightarrow> f32 \<Rightarrow> f32 \<Rightarrow> center_result" where
  "adjust_manual_offset c dx dy =
     c\<lparr>manual_offset_x := fadd (manual_offset_x c) dx,
       manual_offset_y := fadd (manual_offset_y c) dy\<rparr>"

definition finalize_center_deadzone :: "center_result \<Rightarrow> range_result \<Rightarrow> center_result" where
  "finalize_center_deadzone c r =
     (let d = (if flt f_0 (usable_radius r)
               then fdiv (fmul (noise_radius c) CENTER_MARGIN) (usable_radius r) else f_0) in
      c\<lparr>center_deadzone := fclamp d f_0 MAX_CENTER_DEADZONE\<rparr>)"

definition calibrate ::
  "'w cal_io \<Rightarrow> (f32 \<Rightarrow> f32 \<Rightarrow> f32) \<Rightarrow> center_result \<Rightarrow> range_result \<Rightarrow> 'w
     \<Rightarrow> (cal_error abort option \<times> center_result \<times> range_result) \<times> 'w" where
  "calibrate io atan2 c r w0 =
     (case center_calibration io c w0 of
        (Inl e, w1) \<Rightarrow> ((Some e, c, r), w1)
      | (Inr c1, w1) \<Rightarrow>
          (case range_calibration io atan2 c1 r w1 of
             (Inl e, w2) \<Rightarrow> ((Some e, c1, r), w2)
           | (Inr r1, w2) \<Rightarrow> ((None, finalize_center_deadzone c1 r1, r1), w2)))"

text \<open>The joystick calibration \<open>apply_calibration\<close> and \<open>make_joystick_config\<close> pass on: center,
  minimum and maximum of each axis, and the two deadzones.\<close>

record axis_map =
  ax_center :: f32
  ax_minimum :: f32
  ax_maximum :: f32

record stick_map =
  sm_x :: axis_map
  sm_y :: axis_map
  sm_center_deadzone :: f32
  sm_range_deadzone :: f32

definition apply_calibration :: "center_result \<Rightarrow> range_result \<Rightarrow> stick_map" where
  "apply_calibration c r =
     \<lparr>sm_x = \<lparr>ax_center = effective_center_x c,
              ax_minimum = fadd (effective_center_x c) (min_x r),
              ax_maximum = fadd (effective_center_x c) (max_x r)\<rparr>,
      sm_y = \<lparr>ax_center = effective_center_y c,
              ax_minimum = fadd (effective_center_y c) (min_y r),
              ax_maximum = fadd (effective_center_y c) (max_y r)\<rparr>,
      sm_center_deadzone = center_deadzone c, sm_range_deadzone = range_deadzone r\<rparr>"

definition apply_calibration_with :: "center_result \<Rightarrow> range_result \<Rightarrow> device_settings \<Rightarrow> stick_map" where
  "apply_calibration_with c r s =
     (apply_calibration c r)\<lparr>sm_center_deadzone := effective_center_deadzone s c,
       sm_range_deadzone := effective_range_deadzone s r\<rparr>"

end
