(* ===== verification/Calibration_Facts.thy ===== *)
theory Calibration_Facts
  imports Calibration
begin

text \<open>
  What the calibration promises: the median filter drops a single spike, percentile reads stay in
  bounds, the usability test and the deadzone rules work together (the automatic center deadzone
  covers the measured noise), and no step ends in an undefined conversion on a bounded sensor.
\<close>

section \<open>Literals\<close>

lemma one_units_pos [simp]: "0 < one_units"
  by (simp add: one_units_def)

lemma one_units_neq_0 [simp]: "one_units \<noteq> 0"
  by (simp add: one_units_def)

lemma sval_literals:
  "sval f_0 = 0" "sval f_1 = one_units" "sval f_3 = 3 * one_units"
  "2 * sval f_1_5 = 3 * one_units" "2 * sval f_0_5 = one_units"
  "sval f_15 = 15 * one_units"
  by (simp_all add: f32_class_eval f32_literal_defs one_units_def)

lemma ffin_literals:
  "ffin f_0" "ffin f_1" "ffin f_2" "ffin f_3" "ffin f_1_5" "ffin f_0_5" "ffin f_0_1" "ffin f_15" "ffin f_0_99"
  "ffin f_0_02" "ffin f_0_05" "ffin f_0_8" "ffin f_1e_3"
  by (simp_all add: f32_class_eval f32_literal_defs)

section \<open>Filter, percentiles, deadzone\<close>

lemma median_of_cases: "median_of a b c \<in> {a, b, c}"
  by (simp add: median_of_def fmax_def fmin_def)

lemma median_of_two_inside:
  assumes "\<not> fnan a" "\<not> fnan b" "\<not> fnan c"
    and "fle lo a \<and> fle a hi \<and> fle lo b \<and> fle b hi \<or>
         fle lo a \<and> fle a hi \<and> fle lo c \<and> fle c hi \<or>
         fle lo b \<and> fle b hi \<and> fle lo c \<and> fle c hi"
  shows "fle lo (median_of a b c) \<and> fle (median_of a b c) hi"
  using assms by (auto simp: median_of_def fmax_def fmin_def flt_def fle_def)

lemma percentile_index_ok:
  assumes "1 \<le> n" "n \<le> 16777216" "ffin p" "fle f_0 p" "fle p f_1"
  shows "\<exists>i. percentile_index n p = Some i \<and> 0 \<le> i \<and> i < int n"
proof -
  define m where "m = n - 1"
  have n: "int n - 1 = int m" "m < 16777216" using assms by (simp_all add: m_def)
  have p: "0 \<le> sval p" "sval p \<le> one_units"
    using assms(4,5) by (simp_all add: fle_def sval_literals)
  have one: "0 < one_units" by (simp add: one_units_def)
  define v where "v = fmul (f32_of_int (int m)) p"
  have val: "sval v = rr (rat_of_int (int m * one_units * sval p) / rat_of_int one_units)"
    using fmul_fin [OF ffin_f32_of_int [OF n(2)] assms(3)] sval_f32_of_int [OF n(2)]
    by (simp add: v_def)
  have q: "rat_of_int (int m * one_units * sval p) / rat_of_int one_units = rat_of_int (int m * sval p)"
    using one by simp
  have "sval v = rr (rat_of_int (int m * sval p))" using val q by simp
  moreover have "rr (rat_of_int (int m * sval p)) \<le> rr (rat_of_int (int m * one_units))"
    by (intro rr_mono iffD2 [OF of_int_le_iff] mult_left_mono) (use p in simp_all)
  moreover have "0 \<le> rr (rat_of_int (int m * sval p))"
    by (rule rr_nonneg) (use p in simp)
  ultimately have v: "0 \<le> sval v" "sval v \<le> int m * one_units"
    using rr_int_exact [OF n(2)] by simp_all
  have "ffin v"
  proof (rule fle_between_fin)
    have "\<not> fnan v" using fmul_fin [OF ffin_f32_of_int [OF n(2)] assms(3)] by (simp add: v_def)
    then show "fle f_0 v" "fle v (f32_of_int (int m))"
      using v ffin_f32_of_int [OF n(2)] ffin_literals
      by (simp_all add: fle_def ffin_not_nan sval_literals sval_f32_of_int [OF n(2)])
  qed (use ffin_f32_of_int [OF n(2)] ffin_literals in simp_all)
  moreover have "tdiv (sval v) one_units \<le> int m"
    using zdiv_mono1 [OF v(2) one] v one by (simp add: tdiv_nonneg)
  moreover have "0 \<le> tdiv (sval v) one_units"
    using v one by (simp add: tdiv_nonneg pos_imp_zdiv_nonneg_iff)
  ultimately show ?thesis
    using n by (simp add: percentile_index_def f32_to_int_def v_def Let_def)
qed

lemma fmul_one: "ffin x \<Longrightarrow> \<not> fnan (fmul x f_1) \<and> sval (fmul x f_1) = sval x"
  using rr_sval [of x] by (simp add: fmul_fin ffin_literals sval_literals ffin_not_nan)

lemma fsub_1_0: "fsub f_1 f_0 = f_1"
  by (simp add: f32_eval f32_literal_defs)

lemma MIN_RATIO: "MIN_USABLE_TO_NOISE_RATIO = f_3"
  by (simp add: MIN_USABLE_TO_NOISE_RATIO_def CENTER_MARGIN_def MAX_CENTER_DEADZONE_def
      f_1_5_over_0_5)

text \<open>The rounded thrice-noise bound that the usability test compares against.\<close>

lemma check_usableD:
  assumes "check_usable c r f_0"
  shows "ffin (noise_radius c)" "ffin (usable_radius r)" "0 \<le> sval (noise_radius c)"
    "0 < sval (usable_radius r)"
    "rr (3 * rat_of_int (sval (noise_radius c))) \<le> sval (usable_radius r)"
proof -
  define n where "n = noise_radius c"
  define u where "u = usable_radius r"
  have h: "ffin n" "ffin u" "\<not> flt n f_0" "\<not> fle u f_0" "\<not> flt u (fmul (fmul f_3 n) f_1)"
    using assms by (simp_all add: check_usable_def n_def u_def MIN_RATIO fsub_1_0 Let_def)
  then show "ffin (noise_radius c)" "ffin (usable_radius r)" "0 \<le> sval (noise_radius c)"
    "0 < sval (usable_radius r)"
    by (simp_all add: n_def [symmetric] u_def [symmetric] flt_def fle_def ffin_not_nan
        ffin_literals sval_literals not_less not_le)
  have s: "\<not> fnan (fmul f_3 n)" "sval (fmul f_3 n) = rr (3 * rat_of_int (sval n))"
    using h(1) by (simp_all add: fmul_fin ffin_literals sval_literals)
  have "ffin (fmul f_3 n)"
  proof (rule ccontr)
    assume "\<not> ffin (fmul f_3 n)"
    with s(1) have inf: "finf (fmul f_3 n)" by (simp add: ffin_iff)
    have pos: "0 \<le> sval n" using h(1,3) by (simp add: flt_def ffin_not_nan ffin_literals sval_literals not_less)
    then have "0 \<le> sval (fmul f_3 n)" unfolding s(2) by (intro rr_nonneg) simp
    then have ns: "\<not> fsgn (fmul f_3 n)" using inf by (auto simp: sval_def finf_def split: if_splits)
    have "fmul (fmul f_3 n) f_1 = fmk False inf_idx"
      using s(1) inf ns ffin_literals(2) by (simp add: fmul_def ffin_iff fzero_def f32_literal_defs f32_class_eval)
    moreover have "sval (fmk False inf_idx) = 2 ^ 277" by (simp add: sval_def inf_idx_def)
    moreover have "sval u < 2 ^ 277"
      using h(2) fmag_less_iff [of "fidx u" inf_idx] by (simp add: ffin_def sval_def del: fmag_less_iff)
    moreover have "\<not> fnan (fmk False inf_idx)" by (simp add: fnan_def inf_idx_def)
    ultimately show False using h(2,5) by (simp add: flt_def ffin_not_nan)
  qed
  with fmul_one [OF this] h(2,5) s show "rr (3 * rat_of_int (sval (noise_radius c))) \<le> sval (usable_radius r)"
    by (simp add: flt_def ffin_not_nan n_def [symmetric] u_def [symmetric] not_less)
qed

lemma clamp_deadzone_bounds:
  "\<not> fnan d \<Longrightarrow> fle f_0 (fclamp d f_0 f_0_5) \<and> fle (fclamp d f_0 f_0_5) f_0_5"
  by (rule fclamp_bounds) (simp_all add: fle_def ffin_not_nan ffin_literals sval_literals f32_class_eval f32_literal_defs)

lemma fdiv_fin:
  "ffin x \<Longrightarrow> ffin y \<Longrightarrow> sval y \<noteq> 0 \<Longrightarrow>
   fdiv x y = fof (fsgn x \<noteq> fsgn y) (rat_of_int (sval x * one_units) / rat_of_int (sval y))"
  by (auto simp: fdiv_def ffin_iff fzero_def sval_def)

lemma cover_arith:
  fixes N U r d one :: rat
  assumes "0 < one" "0 < U" "0 \<le> N" "4 * N \<le> 3 * r" "8 * (r * one / U) \<le> 9 * d"
  shows "N * one \<le> d * U"
proof -
  have "8 * (r * one) \<le> 9 * (d * U)" using assms(2,5) by (simp add: field_simps)
  moreover have "4 * (N * one) \<le> 3 * (r * one)"
    using mult_right_mono [OF assms(4), of one] assms(1) by (simp add: algebra_simps)
  moreover have "0 \<le> N * one" using assms by simp
  ultimately show ?thesis by linarith
qed

lemma finalize_deadzone:
  assumes use: "check_usable c r f_0"
    and scale: "noise_radius c = f_0 \<or> one_units \<le> 1048576 * sval (noise_radius c)"
    and small: "sval (usable_radius r) \<le> 1048576 * one_units"
  shows "fle f_0 (center_deadzone (finalize_center_deadzone c r)) \<and>
    fle (center_deadzone (finalize_center_deadzone c r)) f_0_5 \<and>
    sval (noise_radius c) * one_units
      \<le> sval (center_deadzone (finalize_center_deadzone c r)) * sval (usable_radius r)"
proof -
  define n where "n = noise_radius c"
  define u where "u = usable_radius r"
  define N where "N = rat_of_int (sval n)"
  define U where "U = rat_of_int (sval u)"
  define one where "one = rat_of_int one_units"
  note d = check_usableD [OF use, folded n_def u_def]
  have U: "0 < U" and N: "0 \<le> N" and one: "0 < one" "one = 2 ^ 149"
    using d by (simp_all add: U_def N_def one_def one_units_def)
  have lt: "flt f_0 u" using d by (simp add: flt_def ffin_not_nan ffin_literals sval_literals)
  define r15 where "r15 = fmul n f_1_5"
  define d0 where "d0 = fdiv r15 u"
  have dz: "center_deadzone (finalize_center_deadzone c r) = fclamp d0 f_0 f_0_5"
    using lt by (simp add: finalize_center_deadzone_def d0_def r15_def n_def u_def
        CENTER_MARGIN_def MAX_CENTER_DEADZONE_def)
  have "sval f_1_5 = 3 * 2 ^ 148" by (simp add: f32_class_eval f32_literal_defs)
  then have s15: "\<not> fnan r15" "sval r15 = rr (3 * N / 2)"
    using d(1) by (simp_all add: r15_def fmul_fin ffin_literals N_def one_units_def)
  show ?thesis
  proof (cases "n = f_0")
    case True
    then have "N = 0" by (simp add: N_def sval_literals)
    then have "sval r15 = 0" using s15 by simp
    then have "ffin r15" using s15(1) by (auto simp: ffin_iff finf_def sval_def inf_idx_def split: if_splits)
    then have "\<not> fnan d0" using d by (simp add: d0_def fdiv_fin)
    with clamp_deadzone_bounds [OF this] True U show ?thesis
      by (simp add: dz n_def [symmetric] u_def [symmetric] sval_literals fle_def U_def)
  next
    case False
    with scale have big: "2 ^ 129 \<le> N"
      by (simp add: n_def [symmetric] N_def one_units_def)
    have "U \<le> 2 ^ 169"
      using small by (simp add: u_def [symmetric] U_def one_units_def)
    have "N \<le> 2 ^ 190"
    proof (rule ccontr)
      assume "\<not> N \<le> 2 ^ 190"
      then have "rr (2 ^ 190) \<le> rr (3 * N)" by (intro rr_mono) (use N in simp)
      then have "(2 :: int) ^ 190 \<le> sval u" using rr_pow2 [of 190] d(5) by (simp add: N_def)
      with small show False by (simp add: u_def [symmetric] one_units_def)
    qed
    have lo: "8 * (3 * N / 2) \<le> 9 * rat_of_int (sval r15)"
      unfolding s15 by (rule rr_lower) (use big \<open>N \<le> 2 ^ 190\<close> in simp_all)
    have hi: "rat_of_int (sval r15) \<le> 3 * N"
      unfolding s15 using rr_double [of "3 * N / 2"] big by simp
    have U3: "8 * (3 * N) \<le> 9 * U"
      using rr_lower [of "3 * N"] d(5) big \<open>N \<le> 2 ^ 190\<close>
      by (simp add: N_def U_def)
    define q where "q = rat_of_int (sval r15) * one / U"
    have qU: "q * U = rat_of_int (sval r15) * one" using U by (simp add: q_def)
    have "2 ^ 128 * one \<le> rat_of_int (sval r15) * one"
      using lo big one by (intro mult_right_mono) simp_all
    then have "8 * U \<le> q * U" using qU one(2) \<open>U \<le> 2 ^ 169\<close> by simp
    then have q8: "8 \<le> q" using U by simp
    have "rat_of_int (sval r15) * one \<le> (9 / 8 * U) * one"
      using hi U3 one by (intro mult_right_mono) simp_all
    then have "q * U \<le> (9 / 8 * one) * U" using qU by (simp add: mult_ac)
    then have q277: "q < 2 ^ 277" using U one(2) by simp
    have "ffin r15"
      unfolding r15_def fmul_fin [OF d(1) ffin_literals(5)]
      by (rule ffin_fof) (use N \<open>N \<le> 2 ^ 190\<close> \<open>sval f_1_5 = 3 * 2 ^ 148\<close> in \<open>simp add: N_def one_units_def\<close>)
    then have d0: "\<not> fnan d0" "sval d0 = rr q"
      using d U by (simp_all add: d0_def fdiv_fin q_def one_def U_def)
    have low: "8 * q \<le> 9 * rat_of_int (sval d0)"
      unfolding d0(2) by (rule rr_lower [OF q8 q277])
    have cover: "N * one \<le> rat_of_int (sval d0) * U"
      by (rule cover_arith [of one U N "rat_of_int (sval r15)"])
        (use one U N lo low in \<open>simp_all add: q_def\<close>)
    have half: "N * one \<le> rat_of_int (sval f_0_5) * U"
    proof -
      have h: "rat_of_int (sval f_0_5) = one / 2"
        by (simp add: one_def one_units_def f32_class_eval f32_literal_defs)
      have "N * one \<le> (U / 2) * one" using U3 N one by (intro mult_right_mono) simp_all
      also have "\<dots> = rat_of_int (sval f_0_5) * U" unfolding h by simp
      finally show ?thesis .
    qed
    have "N * one \<le> rat_of_int (sval (fclamp d0 f_0 f_0_5)) * U"
      using cover half d0(2) rr_nonneg [of q] q8
      by (simp add: fclamp_def flt_def sval_literals)
    then have "rat_of_int (sval n * one_units) \<le> rat_of_int (sval (fclamp d0 f_0 f_0_5) * sval u)"
      by (simp add: N_def one_def U_def)
    with clamp_deadzone_bounds [OF d0(1)] show ?thesis
      unfolding dz n_def [symmetric] u_def [symmetric] of_int_le_iff by simp
  qed
qed

section \<open>The sampling loop\<close>

definition filter_ok :: "(f32 \<Rightarrow> bool) \<Rightarrow> median3 \<Rightarrow> bool" where
  "filter_ok Q m \<longleftrightarrow> length (m_history m) = 3 \<and> m_index m < 3 \<and> (\<forall>h \<in> set (m_history m). Q h)"

lemma filter_ok_init: "Q f_0 \<Longrightarrow> filter_ok Q init_median3"
  by (simp add: filter_ok_def init_median3_def)

lemma length3_set: "length h = 3 \<Longrightarrow> set h = {h ! 0, h ! 1, h ! 2}"
  by (cases h; cases "tl h"; cases "tl (tl h)") (auto simp: nth_Cons')

lemma median3_update_ok:
  assumes "filter_ok Q m" and "Q v"
  shows "Q (fst (median3_update m v)) \<and> filter_ok Q (snd (median3_update m v))"
proof -
  define h where "h = (m_history m)[m_index m := v]"
  have len: "length h = 3" using assms by (simp add: h_def filter_ok_def)
  have Q: "\<forall>x \<in> set h. Q x"
    using assms set_update_subset_insert [of "m_history m" "m_index m" v]
    by (auto simp: h_def filter_ok_def)
  have "median_of (h ! 0) (h ! 1) (h ! 2) \<in> set h"
    using median_of_cases [of "h ! 0" "h ! 1" "h ! 2"] length3_set [OF len] by simp
  with Q len assms show ?thesis
    by (auto simp: median3_update_def filter_ok_def h_def [symmetric] Let_def)
qed

definition reads_ok :: "(f32 \<Rightarrow> bool) \<Rightarrow> 'w cal_io \<Rightarrow> bool" where
  "reads_ok Q io \<longleftrightarrow> (\<forall>w x y w'. cal_read io w = (Some (x, y), w') \<longrightarrow> Q x \<and> Q y)"

lemma sample_loop_inv:
  assumes reads: "reads_ok Q io"
    and body: "\<And>x y s. Q x \<Longrightarrow> Q y \<Longrightarrow> P s \<Longrightarrow> P (body x y s)"
    and init: "filter_ok Q fx" "filter_ok Q fy" "P s"
  shows "P (fst (sample_loop io body n fx fy s w))"
  using init
proof (induction n arbitrary: fx fy s w)
  case 0
  then show ?case by simp
next
  case (Suc n)
  obtain r w' where r: "cal_read io w = (r, w')" by (cases "cal_read io w")
  show ?case
  proof (cases r)
    case None
    with r Suc show ?thesis by simp
  next
    case (Some p)
    obtain rx ry where p: "p = (rx, ry)" by (cases p)
    have "Q rx" "Q ry" using reads r Some p by (auto simp: reads_ok_def)
    note fx = median3_update_ok [OF Suc.prems(1) this(1)]
      and fy = median3_update_ok [OF Suc.prems(2) this(2)]
    have "P (body (fst (median3_update fx rx)) (fst (median3_update fy ry)) s)"
      using fx fy Suc.prems(3) body by blast
    with Suc.IH fx fy r Some p show ?thesis by (simp add: case_prod_beta Let_def)
  qed
qed

lemma sample_loop_measure:
  fixes f :: "'s \<Rightarrow> nat"
  assumes "\<And>x y s. f (body x y s) \<le> Suc (f s)"
  shows "f (fst (sample_loop io body n fx fy s w)) \<le> f s + n"
proof (induction n arbitrary: fx fy s w)
  case 0
  then show ?case by simp
next
  case (Suc n)
  obtain r w' where r: "cal_read io w = (r, w')" by (cases "cal_read io w")
  show ?case
  proof (cases r)
    case None
    with r Suc [of fx fy s] show ?thesis by (simp add: le_SucI)
  next
    case (Some p)
    obtain rx ry where p: "p = (rx, ry)" by (cases p)
    obtain x fx' y fy' where u: "median3_update fx rx = (x, fx')" "median3_update fy ry = (y, fy')"
      by (metis surj_pair)
    have "f (fst (sample_loop io body n fx' fy' (body x y s) (cal_sleep io SAMPLE_DELAY w')))
        \<le> f (body x y s) + n" by (rule Suc)
    also have "\<dots> \<le> f s + Suc n" using assms [of x y s] by simp
    finally show ?thesis using r Some p u by simp
  qed
qed

section \<open>Center calibration\<close>

lemma length_finsert [simp]: "length (finsert x xs) = Suc (length xs)"
  by (induction xs) auto

lemma length_fsort [simp]: "length (fsort xs) = length xs"
  by (induction xs) (simp_all add: fsort_def)

lemma set_finsert: "set (finsert x xs) = insert x (set xs)"
  by (induction xs) auto

lemma set_fsort [simp]: "set (fsort xs) = set xs"
  by (induction xs) (simp_all add: fsort_def set_finsert)

lemma percentiles_ok:
  "1 \<le> n \<Longrightarrow> n \<le> 16777216 \<Longrightarrow>
   \<exists>i. percentile_index n CENTER_PERCENTILE = Some i \<and> 0 \<le> i \<and> i < int n"
  "1 \<le> n \<Longrightarrow> n \<le> 16777216 \<Longrightarrow>
   \<exists>i. percentile_index n RANGE_PERCENTILE = Some i \<and> 0 \<le> i \<and> i < int n"
  by (rule percentile_index_ok; simp add: CENTER_PERCENTILE_def RANGE_PERCENTILE_def ffin_literals;
      simp add: f32_cmp_eval f32_literal_defs)+

text \<open>The center of a sweep, the radii it measured, and the world after it.\<close>

lemma center_calibration_shape:
  assumes "center_calibration io out w = (res, w')"
  shows "res = Inl (Reported No_center_samples) \<or> res = Inl (Reported No_center_noise_samples) \<or>
    (\<exists>sx sy v w1 cx cy radii i.
       fst (sample_loop io center_sum_body CENTER_SAMPLES init_median3 init_median3
         (f_0, f_0, 0) w1) = (sx, sy, v) \<and> v \<noteq> 0 \<and>
       cx = fdiv sx (f32_of_int (int v)) \<and> cy = fdiv sy (f32_of_int (int v)) \<and>
       radii \<noteq> [] \<and> length radii \<le> CENTER_SAMPLES \<and> i < length radii \<and>
       res = Inr (out\<lparr>center_x := cx, center_y := cy, noise_radius := fsort radii ! i,
                      center_deadzone := f_0\<rparr>))"
proof -
  define w1 where "w1 = cal_message io ''Measuring center...'' (cal_sleep io SETTLE_DELAY
    (cal_message io ''Do not touch or move it.'' (cal_message io ''Release the joystick completely.'' w)))"
  obtain sx sy v w3 where l1: "sample_loop io center_sum_body CENTER_SAMPLES init_median3 init_median3
      (f_0, f_0, 0) w1 = ((sx, sy, v), w3)" by (metis surj_pair)
  define cx where "cx = fdiv sx (f32_of_int (int v))"
  define cy where "cy = fdiv sy (f32_of_int (int v))"
  define w5 where "w5 = cal_sleep io SETTLE_DELAY
    (cal_message io ''shake it a bit but do not touch the end effector.''
      (cal_message io ''Measuring center movement/noise...'' w3))"
  obtain radii w6 where l2: "sample_loop io (center_noise_body cx cy) CENTER_SAMPLES init_median3
      init_median3 [] w5 = (radii, w6)" by (metis surj_pair)
  have "length (fst (sample_loop io (center_noise_body cx cy) CENTER_SAMPLES init_median3
      init_median3 [] w5)) \<le> length ([] :: f32 list) + CENTER_SAMPLES"
    by (rule sample_loop_measure [where f = length]) (simp add: center_noise_body_def)
  then have len: "length radii \<le> CENTER_SAMPLES" by (simp add: l2)
  have eq: "center_calibration io out w =
    (if v = 0 then (Inl (Reported No_center_samples), w3)
     else if radii = [] then (Inl (Reported No_center_noise_samples), w6)
     else case percentile_index (length radii) CENTER_PERCENTILE of
            None \<Rightarrow> (Inl Undefined_behaviour, w6)
          | Some i \<Rightarrow> (Inr (out\<lparr>center_x := cx, center_y := cy, noise_radius := fsort radii ! nat i,
                        center_deadzone := f_0\<rparr>), w6))"
    unfolding center_calibration_def Let_def w1_def [symmetric] l1 case_prod_conv
      cx_def [symmetric] cy_def [symmetric] w5_def [symmetric] l2 by simp
  show ?thesis
  proof (cases "v = 0 \<or> radii = []")
    case True
    with eq assms show ?thesis by (auto split: if_splits)
  next
    case False
    moreover from False have "1 \<le> length radii" by (simp add: Suc_le_eq)
    ultimately obtain i where i: "percentile_index (length radii) CENTER_PERCENTILE = Some i"
      "0 \<le> i" "i < int (length radii)"
      using percentiles_ok(1) [of "length radii"] len by (auto simp: CENTER_SAMPLES_def)
    then have "nat i < length radii" by linarith
    moreover have "res = Inr (out\<lparr>center_x := cx, center_y := cy,
        noise_radius := fsort radii ! nat i, center_deadzone := f_0\<rparr>)"
      using eq assms False i by simp
    moreover have "fst (sample_loop io center_sum_body CENTER_SAMPLES init_median3 init_median3
      (f_0, f_0, 0) w1) = (sx, sy, v)" by (simp add: l1)
    ultimately show ?thesis using False len cx_def cy_def by blast
  qed
qed

section \<open>Range calibration\<close>

text \<open>What follows the sweep never divides by zero, never reads past the maxima, and never ends in
  an undefined conversion.\<close>

lemma deadzone_limits:
  assumes "\<not> fnan d"
  shows "fle f_0 (fclamp d f_0 f_0_1) \<and> fle (fclamp d f_0 f_0_1) f_0_1"
    and "fle f_0 (fclamp d f_0 f_1) \<and> fle (fclamp d f_0 f_1) f_1"
  by (rule fclamp_bounds [OF _ assms], simp add: f32_cmp_eval f32_literal_defs)+

lemma fsub_1_not_nan: "fle f_0 v \<Longrightarrow> fle v f_1 \<Longrightarrow> \<not> fnan (fsub f_1 v)"
  using fle_between_fin [of f_0 v f_1] by (simp add: fsub_fin ffin_literals)

lemma fdiv_not_nan:
  "\<not> fnan x \<Longrightarrow> ffin y \<Longrightarrow> sval y \<noteq> 0 \<Longrightarrow> \<not> fnan (fdiv x y)"
proof -
  assume h: "\<not> fnan x" "ffin y" "sval y \<noteq> 0"
  have inf: "\<not> fnan (fmk b inf_idx)" for b by (simp add: fnan_def inf_idx_def)
  have "sval y = 0" if "fzero y" using that by (simp add: fzero_def sval_def)
  with h(3) have "\<not> fzero y" by blast
  with h show ?thesis by (simp add: fdiv_def ffin_iff inf)
qed

lemma range_result_cases:
  assumes "length (sw_sectors s) = RANGE_SECTORS"
  shows "range_result_of c s out \<noteq> Inl Undefined_behaviour"
    and "range_result_of c s out = Inr r \<Longrightarrow>
      check_usable c r f_0 \<and> fle f_0 (range_deadzone r) \<and> fle (range_deadzone r) f_0_1 \<and>
      fle f_0 (normalized_max_radius r) \<and> fle (normalized_max_radius r) f_1 \<and>
      MIN_COVERED_SECTORS \<le> length (filter (\<lambda>v. flt f_0 v) (sector_max_radius r)) \<and>
      reliable_max_radius r \<in> set (filter (\<lambda>v. flt f_0 v) (sector_max_radius r)) \<and>
      usable_radius r = fmin4 (fabs (max_x r)) (fabs (min_x r)) (fabs (max_y r)) (fabs (min_y r)) \<and>
      length (sector_max_radius r) = RANGE_SECTORS"
proof -
  define usable where "usable = fmin4 (fabs (sw_max_x s)) (fabs (sw_min_x s)) (fabs (sw_max_y s))
                       (fabs (sw_min_y s))"
  define maxima where "maxima = filter (\<lambda>r. flt f_0 r) (sw_sectors s)"
  have idx: "\<exists>i. percentile_index (length maxima) RANGE_PERCENTILE = Some i \<and> 0 \<le> i \<and> i < int (length maxima)"
    if "MIN_COVERED_SECTORS \<le> length maxima"
  proof (rule percentiles_ok(2))
    show "1 \<le> length maxima" using that by (simp add: MIN_COVERED_SECTORS_def RANGE_SECTORS_def)
    have "length maxima \<le> RANGE_SECTORS"
      unfolding maxima_def using assms length_filter_le [of "\<lambda>r. flt f_0 r" "sw_sectors s"] by simp
    then show "length maxima \<le> 16777216" by (simp add: RANGE_SECTORS_def)
  qed
  show "range_result_of c s out \<noteq> Inl Undefined_behaviour"
    using idx by (auto simp: range_result_of_def Let_def usable_def [symmetric] maxima_def [symmetric]
        split: option.splits)
  assume ok: "range_result_of c s out = Inr r"
  have cov: "MIN_COVERED_SECTORS \<le> length maxima"
    and use: "check_usable c (init_range\<lparr>usable_radius := usable\<rparr>) f_0"
    using ok by (auto simp: range_result_of_def Let_def usable_def [symmetric] maxima_def [symmetric]
        split: if_splits)
  obtain i where i: "percentile_index (length maxima) RANGE_PERCENTILE = Some i" "0 \<le> i"
    "i < int (length maxima)" using idx [OF cov] by blast
  define rel where "rel = fsort maxima ! nat i"
  define norm where "norm = fclamp (if flt f_0 usable then fdiv rel usable else f_0) f_0 f_1"
  define dz where "dz = fclamp (fsub f_1 norm) f_0 MAX_RANGE_DEADZONE"
  have r: "r = out\<lparr>min_x := sw_min_x s, max_x := sw_max_x s, min_y := sw_min_y s,
      max_y := sw_max_y s, usable_radius := usable, reliable_max_radius := rel,
      normalized_max_radius := norm, range_deadzone := dz, sector_max_radius := sw_sectors s\<rparr>"
    using ok cov use i(1)
    by (auto simp: range_result_of_def Let_def usable_def [symmetric] maxima_def [symmetric]
        rel_def [symmetric] norm_def [symmetric] dz_def [symmetric] split: if_splits)
  have "nat i < length (fsort maxima)" using i by simp
  then have rel: "rel \<in> set maxima" unfolding rel_def using nth_mem set_fsort by metis
  then have "\<not> fnan rel" by (simp add: maxima_def flt_def)
  moreover have "ffin usable" "0 < sval usable"
    using check_usableD [OF use] by simp_all
  ultimately have "\<not> fnan (if flt f_0 usable then fdiv rel usable else f_0)"
    by (simp add: fdiv_not_nan ffin_not_nan ffin_literals)
  note n = deadzone_limits(2) [OF this, folded norm_def]
  have "\<not> fnan (fsub f_1 norm)" using n by (simp add: fsub_1_not_nan)
  note d = deadzone_limits(1) [OF this, folded MAX_RANGE_DEADZONE_def, folded dz_def]
  have "check_usable c r f_0" using use by (simp add: r check_usable_def)
  with n d rel cov assms show "check_usable c r f_0 \<and> fle f_0 (range_deadzone r) \<and> fle (range_deadzone r) f_0_1 \<and>
      fle f_0 (normalized_max_radius r) \<and> fle (normalized_max_radius r) f_1 \<and>
      MIN_COVERED_SECTORS \<le> length (filter (\<lambda>v. flt f_0 v) (sector_max_radius r)) \<and>
      reliable_max_radius r \<in> set (filter (\<lambda>v. flt f_0 v) (sector_max_radius r)) \<and>
      usable_radius r = fmin4 (fabs (max_x r)) (fabs (min_x r)) (fabs (max_y r)) (fabs (min_y r)) \<and>
      length (sector_max_radius r) = RANGE_SECTORS"
    by (simp add: r maxima_def usable_def MAX_RANGE_DEADZONE_def)
qed

lemma sweep_body_sectors:
  "sweep_body atn c x y acc = Some s' \<Longrightarrow> \<exists>s. acc = Some s \<and> length (sw_sectors s') = length (sw_sectors s)"
  by (auto simp: sweep_body_def Let_def split: option.splits)

lemma sweep_loop_sectors:
  "case fst (sample_loop io (sweep_body atn c) n fx fy acc w) of None \<Rightarrow> True
   | Some s \<Rightarrow> length (sw_sectors s) = RANGE_SECTORS"
  if "case acc of None \<Rightarrow> True | Some s \<Rightarrow> length (sw_sectors s) = RANGE_SECTORS"
    "length (m_history fx) = 3" "m_index fx < 3" "length (m_history fy) = 3" "m_index fy < 3"
proof (rule sample_loop_inv [where Q = "\<lambda>_. True"])
  show "reads_ok (\<lambda>_. True) io" by (simp add: reads_ok_def)
  fix x y and acc :: "sweep option"
  assume "case acc of None \<Rightarrow> True | Some s \<Rightarrow> length (sw_sectors s) = RANGE_SECTORS"
  then show "case sweep_body atn c x y acc of None \<Rightarrow> True | Some s \<Rightarrow> length (sw_sectors s) = RANGE_SECTORS"
    by (auto split: option.splits dest!: sweep_body_sectors)
qed (use that in \<open>simp_all add: filter_ok_def\<close>)

lemma range_calibration_success:
  assumes "range_calibration io atn c out w = (Inr r, w')"
  shows "\<exists>s. length (sw_sectors s) = RANGE_SECTORS \<and> range_result_of c s out = Inr r"
proof -
  define w4 where "w4 = cal_message io ''START!'' (cal_sleep io SETTLE_DELAY (cal_sleep io SETTLE_DELAY
    (cal_message io ''Try to reach all edges of the joystick.''
      (cal_message io ''Reach the physical maximum in every direction.''
        (cal_message io ''Move the joystick slowly through a COMPLETE circle.'' w)))))"
  obtain acc w5 where l: "sample_loop io (sweep_body atn c) RANGE_SAMPLES init_median3 init_median3
      (Some init_sweep) w4 = (acc, w5)" by (metis surj_pair)
  have "case acc of None \<Rightarrow> True | Some s \<Rightarrow> length (sw_sectors s) = RANGE_SECTORS"
    using sweep_loop_sectors [of "Some init_sweep" init_median3 init_median3 io atn c RANGE_SAMPLES w4]
    unfolding l fst_conv by (simp add: init_sweep_def init_median3_def)
  with assms show ?thesis
    unfolding range_calibration_def Let_def w4_def [symmetric] l case_prod_conv
    by (auto split: option.splits)
qed

section \<open>No undefined conversion on a bounded sensor\<close>

text \<open>What the standard documents of \<open>atan2f\<close>: a number between the floats next to \<open>-pi\<close> and \<open>pi\<close>.\<close>

definition atan2_range :: "(f32 \<Rightarrow> f32 \<Rightarrow> f32) \<Rightarrow> bool" where
  "atan2_range atn \<longleftrightarrow>
     (\<forall>y x. \<not> fnan y \<longrightarrow> \<not> fnan x \<longrightarrow> fle (fneg f_pi) (atn y x) \<and> fle (atn y x) f_pi)"

lemma sval_pi: "sval f_pi = 13176795 * 2 ^ 127" "ffin f_pi"
  by (simp_all add: f32_class_eval f_pi_def)

lemma two_pi: "fmul f_2 f_pi = 0x40C90FDB" 
  by (simp add: f32_eval f_2_def f_pi_def)

lemma sector_width: "fdiv 0x40C90FDB (f32_of_int (int RANGE_SECTORS)) = 0x3E490FDB"
proof -
  have "f32_of_int (int RANGE_SECTORS) = 0x42000000"
    by (simp add: f32_of_int_def RANGE_SECTORS_def f32_round_eval)
  moreover have "fdiv 0x40C90FDB 0x42000000 =
      fof False (rat_of_int (13176795 * 2 ^ 128 * one_units) / rat_of_int (2 ^ 154))"
    by (simp add: fdiv_def f32_class_eval)
  moreover have "rat_of_int (13176795 * 2 ^ 128 * one_units) / rat_of_int (2 ^ 154) = rat_of_nat (fmag 0x3E490FDB)"
    by (simp add: one_units_def)
  moreover have "fround (rat_of_nat (fmag 0x3E490FDB)) = 0x3E490FDB"
    by (rule fround_exact) (simp add: inf_idx_def)
  ultimately have q: "fdiv 0x40C90FDB 0x42000000 = fof False (rat_of_nat (fmag 0x3E490FDB))"
    by (simp only:)
  have "0 < fmag 0x3E490FDB" by simp
  with q \<open>fround (rat_of_nat (fmag 0x3E490FDB)) = 0x3E490FDB\<close>
  have "fdiv 0x40C90FDB 0x42000000 = fmk False 0x3E490FDB"
    by (simp add: fof_def del: fmag_numeral)
  with \<open>f32_of_int (int RANGE_SECTORS) = 0x42000000\<close> show ?thesis
    by (simp add: fmk_def)
qed

lemma rr_abs_le:
  assumes "\<bar>q\<bar> \<le> b" "rr b = B"
  shows "\<bar>rr q\<bar> \<le> B"
proof -
  have "rr q \<le> rr b" "rr (- b) \<le> rr q" by (rule rr_mono, use assms(1) in linarith)+
  then show ?thesis using assms(2) unfolding rr_minus by linarith
qed

lemma sector_of_ok:
  assumes "atan2_range atn" "\<not> fnan dx" "\<not> fnan dy"
  shows "\<exists>k < RANGE_SECTORS. sector_of atn dx dy = Some k"
proof -
  define a0 where "a0 = atn dy dx"
  have sp: "fle (fneg f_pi) a0" "fle a0 f_pi"
    using assms unfolding atan2_range_def a0_def by blast+
  then have a0: "\<not> fnan a0" "\<bar>sval a0\<bar> \<le> sval f_pi"
    by (auto simp: fle_def)
  have fa0: "ffin a0"
    by (rule fle_between_fin [OF sp]) (simp_all add: sval_pi)
  define tp :: f32 where "tp = 0x40C90FDB"
  have tp: "ffin tp" "sval tp = 13176795 * 2 ^ 128" by (simp_all add: f32_class_eval tp_def)
  define a where "a = (if flt a0 f_0 then fadd a0 tp else a0)"
  have "ffin a \<and> \<bar>sval a\<bar> \<le> 2 ^ 153"
  proof (cases "flt a0 f_0")
    case False
    then show ?thesis using fa0 a0(2) by (simp add: a_def sval_pi)
  next
    case True
    then have "sval a0 < 0" by (simp add: flt_def sval_literals)
    then have b: "\<bar>rat_of_int (sval a0 + sval tp)\<bar> \<le> 2 ^ 153"
      using a0(2) by (simp add: sval_pi tp)
    have v: "sval a = rr (rat_of_int (sval a0 + sval tp))" "a = fof (fsgn a0 \<and> fsgn tp) (rat_of_int (sval a0 + sval tp))"
      using True fa0 tp by (simp_all add: a_def fadd_fin)
    have "\<bar>sval a\<bar> \<le> 2 ^ 153" unfolding v(1) by (rule rr_abs_le [OF b rr_pow2]) simp
    moreover have "ffin a" unfolding v(2) by (rule ffin_fof, rule order_le_less_trans [OF b]) simp
    ultimately show ?thesis by simp
  qed
  then have a: "ffin a" "\<bar>sval a\<bar> \<le> 2 ^ 153" by simp_all
  define w :: f32 where "w = 0x3E490FDB"
  have w: "ffin w" "sval w = 13176795 * 2 ^ 123" by (simp_all add: f32_class_eval w_def)
  define qv where "qv = rat_of_int (sval a * one_units) / rat_of_int (sval w)"
  have d: "fdiv a w = fof (fsgn a \<noteq> fsgn w) qv" using a w by (simp add: fdiv_fin qv_def)
  have "\<bar>qv\<bar> \<le> 2 ^ 156"
    using a(2) by (simp add: qv_def w one_units_def abs_mult abs_divide divide_le_eq)
  then have f: "ffin (fdiv a w)" and "\<bar>rr qv\<bar> \<le> 2 ^ 156"
  proof -
    assume b: "\<bar>qv\<bar> \<le> 2 ^ 156"
    show "ffin (fdiv a w)" unfolding d by (rule ffin_fof, rule order_le_less_trans [OF b]) simp
    show "\<bar>rr qv\<bar> \<le> 2 ^ 156" by (rule rr_abs_le [OF b rr_pow2]) simp
  qed
  then have "\<bar>tdiv (sval (fdiv a w)) one_units\<bar> \<le> 128"
    unfolding d sval_fof by (simp add: tdiv_def abs_mult one_units_def) linarith
  then have "- int_max - 1 \<le> tdiv (sval (fdiv a w)) one_units"
    "tdiv (sval (fdiv a w)) one_units \<le> int_max"
    unfolding int_max_def by linarith+
  then obtain i where "f32_to_int (- int_max - 1) int_max (fdiv a w) = Some i"
    using f by (simp add: f32_to_int_def Let_def)
  then have "sector_of atn dx dy = Some (nat (max 0 (min i (int RANGE_SECTORS - 1))))"
    unfolding sector_of_def Let_def two_pi sector_width a0_def [symmetric] tp_def [symmetric]
      a_def [symmetric] by (simp add: tp_def sector_width w_def)
  then show ?thesis by (simp add: RANGE_SECTORS_def)
qed

lemma sweep_body_defined:
  assumes "atan2_range atn" "ffin (center_x c)" "ffin (center_y c)" "ffin x" "ffin y" "acc \<noteq> None"
  shows "sweep_body atn c x y acc \<noteq> None"
proof -
  have "\<not> fnan (fsub x (center_x c))" "\<not> fnan (fsub y (center_y c))"
    using assms by (simp_all add: fsub_fin)
  then obtain k where "sector_of atn (fsub x (center_x c)) (fsub y (center_y c)) = Some k"
    using sector_of_ok [OF assms(1)] by blast
  with assms(6) show ?thesis by (auto simp: sweep_body_def Let_def)
qed

lemma range_calibration_defined:
  assumes "atan2_range atn" "ffin (center_x c)" "ffin (center_y c)" "reads_ok ffin io"
  shows "fst (range_calibration io atn c out w) \<noteq> Inl Undefined_behaviour"
proof -
  define w4 where "w4 = cal_message io ''START!'' (cal_sleep io SETTLE_DELAY (cal_sleep io SETTLE_DELAY
    (cal_message io ''Try to reach all edges of the joystick.''
      (cal_message io ''Reach the physical maximum in every direction.''
        (cal_message io ''Move the joystick slowly through a COMPLETE circle.'' w)))))"
  obtain acc w5 where l: "sample_loop io (sweep_body atn c) RANGE_SAMPLES init_median3 init_median3
      (Some init_sweep) w4 = (acc, w5)" by (metis surj_pair)
  have "fst (sample_loop io (sweep_body atn c) RANGE_SAMPLES init_median3 init_median3
      (Some init_sweep) w4) \<noteq> None"
    by (rule sample_loop_inv [where Q = ffin and P = "\<lambda>acc. acc \<noteq> None"])
      (use assms in \<open>simp_all add: sweep_body_defined filter_ok_init ffin_literals del: not_None_eq\<close>)
  then obtain s where s: "acc = Some s" by (auto simp: l)
  have "length (sw_sectors s) = RANGE_SECTORS"
    using sweep_loop_sectors [of "Some init_sweep" init_median3 init_median3 io atn c RANGE_SAMPLES w4]
    unfolding l fst_conv s by (simp add: init_sweep_def init_median3_def)
  then show ?thesis
    unfolding range_calibration_def Let_def w4_def [symmetric] l case_prod_conv s
    using range_result_cases(1) by simp
qed

definition bounded_sample :: "f32 \<Rightarrow> bool" where
  "bounded_sample x \<longleftrightarrow> ffin x \<and> \<bar>sval x\<bar> \<le> 1024 * one_units"

definition sum_bound :: "nat \<Rightarrow> f32 \<Rightarrow> bool" where
  "sum_bound n s \<longleftrightarrow> ffin s \<and> \<bar>sval s\<bar> \<le> int n * (1024 * one_units)"

lemma sum_bound_add:
  assumes "sum_bound n s" "bounded_sample x" "n < 1000"
  shows "sum_bound (n + 1) (fadd s x)"
proof -
  have q: "\<bar>rat_of_int (sval s + sval x)\<bar> \<le> rat_of_nat (n + 1) * 2 ^ 159"
  proof -
    have "\<bar>sval s + sval x\<bar> \<le> int (n + 1) * 2 ^ 159"
      using assms(1,2) by (simp add: sum_bound_def bounded_sample_def one_units_def algebra_simps) linarith
    then have "rat_of_int \<bar>sval s + sval x\<bar> \<le> rat_of_int (int (n + 1) * 2 ^ 159)"
      by (simp only: of_int_le_iff)
    then show ?thesis by simp
  qed
  have "rr (rat_of_nat (n + 1) * 2 ^ 159) = int (n + 1) * 2 ^ 159"
    using assms(3) by (intro rr_scaled) simp_all
  from rr_abs_le [OF q this] have b: "\<bar>rr (rat_of_int (sval s + sval x))\<bar> \<le> int (n + 1) * 2 ^ 159" .
  have eq: "fadd s x = fof (fsgn s \<and> fsgn x) (rat_of_int (sval s + sval x))"
    using assms by (simp add: fadd_fin sum_bound_def bounded_sample_def)
  have "rat_of_nat (n + 1) * 2 ^ 159 \<le> 1000 * 2 ^ 159"
    using assms(3) by (intro mult_right_mono) simp_all
  also have "\<dots> < (2 :: rat) ^ 276" by simp
  finally have "ffin (fadd s x)" unfolding eq using q by (intro ffin_fof) linarith
  with b show ?thesis by (simp only: eq sval_fof sum_bound_def) (simp add: one_units_def)
qed

lemma mean_finite:
  assumes "sum_bound n s" "n \<noteq> 0" "n < 1000"
  shows "ffin (fdiv s (f32_of_int (int n)))"
proof -
  have n: "sval (f32_of_int (int n)) = int n * one_units" "ffin (f32_of_int (int n))"
    using assms(3) by (simp_all add: sval_f32_of_int ffin_f32_of_int)
  have eq: "fdiv s (f32_of_int (int n)) =
      fof (fsgn s \<noteq> fsgn (f32_of_int (int n))) (rat_of_int (sval s) / rat_of_nat n)"
    using assms n by (simp add: fdiv_fin sum_bound_def)
  have "\<bar>rat_of_int (sval s)\<bar> \<le> rat_of_nat n * 2 ^ 159"
  proof -
    have "rat_of_int \<bar>sval s\<bar> \<le> rat_of_int (int n * 2 ^ 159)"
      using assms(1) by (simp only: of_int_le_iff) (simp add: sum_bound_def one_units_def)
    then show ?thesis by simp
  qed
  then have "\<bar>rat_of_int (sval s) / rat_of_nat n\<bar> \<le> 2 ^ 159"
    using assms(2) by (simp add: abs_divide divide_le_eq mult_ac)
  then have "\<bar>rat_of_int (sval s) / rat_of_nat n\<bar> < 2 ^ 276"
    by (rule order_le_less_trans) simp
  then show ?thesis unfolding eq by (rule ffin_fof)
qed

lemma center_sums_bounded:
  assumes "reads_ok bounded_sample io"
    and "fst (sample_loop io center_sum_body CENTER_SAMPLES init_median3 init_median3 (f_0, f_0, 0) w)
      = (sx, sy, v)"
  shows "v \<le> CENTER_SAMPLES \<and> sum_bound v sx \<and> sum_bound v sy"
proof -
  have "snd (snd (fst (sample_loop io center_sum_body CENTER_SAMPLES init_median3 init_median3
      (f_0, f_0, 0) w))) \<le> snd (snd (f_0, f_0, 0 :: nat)) + CENTER_SAMPLES"
    by (rule sample_loop_measure) (auto simp: center_sum_body_def)
  then have v: "v \<le> CENTER_SAMPLES" by (simp add: assms(2))
  have "(\<lambda>(a, b, n). n < 1000 \<longrightarrow> sum_bound n a \<and> sum_bound n b)
      (fst (sample_loop io center_sum_body CENTER_SAMPLES init_median3 init_median3 (f_0, f_0, 0) w))"
  proof (rule sample_loop_inv [OF assms(1)])
    show "filter_ok bounded_sample init_median3" "filter_ok bounded_sample init_median3"
      by (rule filter_ok_init, simp add: bounded_sample_def ffin_literals sval_literals order_less_imp_le)+
  qed (auto simp: center_sum_body_def sum_bound_def [of 0] ffin_literals sval_literals
      dest: sum_bound_add [of _ _ _])
  then have "v < 1000 \<longrightarrow> sum_bound v sx \<and> sum_bound v sy"
    unfolding assms(2) by simp
  with v show ?thesis by (simp add: CENTER_SAMPLES_def)
qed

lemma center_calibration_defined:
  "fst (center_calibration io out w) \<noteq> Inl Undefined_behaviour"
  using center_calibration_shape [of io out w] by (cases "center_calibration io out w") auto

lemma center_calibration_finite:
  assumes "reads_ok bounded_sample io" and "center_calibration io out w = (Inr c, w')"
  shows "ffin (center_x c) \<and> ffin (center_y c)"
proof -
  obtain sx sy v w1 cx cy radii i where h:
    "fst (sample_loop io center_sum_body CENTER_SAMPLES init_median3 init_median3
       (f_0, f_0, 0) w1) = (sx, sy, v)" "v \<noteq> 0"
    "cx = fdiv sx (f32_of_int (int v))" "cy = fdiv sy (f32_of_int (int v))"
    "c = out\<lparr>center_x := cx, center_y := cy, noise_radius := fsort radii ! i, center_deadzone := f_0\<rparr>"
    using center_calibration_shape [OF assms(2)] by auto
  have "v \<le> CENTER_SAMPLES \<and> sum_bound v sx \<and> sum_bound v sy"
    by (rule center_sums_bounded [OF assms(1) h(1)])
  then show ?thesis using h by (simp add: mean_finite CENTER_SAMPLES_def)
qed

lemma center_calibration_frame:
  assumes "center_calibration io out w = (Inr c, w')"
  shows "center_deadzone c = f_0 \<and> manual_offset_x c = manual_offset_x out \<and>
    manual_offset_y c = manual_offset_y out"
  using center_calibration_shape [OF assms] by auto

lemma check_usable_cong:
  "noise_radius c = noise_radius c' \<Longrightarrow> usable_radius r = usable_radius r' \<Longrightarrow>
   check_usable c r t = check_usable c' r' t"
  by (simp add: check_usable_def)

lemma finalize_frame [simp]:
  "noise_radius (finalize_center_deadzone c r) = noise_radius c"
  "center_x (finalize_center_deadzone c r) = center_x c"
  "center_y (finalize_center_deadzone c r) = center_y c"
  "manual_offset_x (finalize_center_deadzone c r) = manual_offset_x c"
  "manual_offset_y (finalize_center_deadzone c r) = manual_offset_y c"
  by (simp_all add: finalize_center_deadzone_def Let_def)

lemma calibrate_success:
  assumes "calibrate io atn c r w = ((None, c', r'), w')"
  shows "\<exists>c1 w1 w2. center_calibration io c w = (Inr c1, w1) \<and>
    range_calibration io atn c1 r w1 = (Inr r', w2) \<and> c' = finalize_center_deadzone c1 r' \<and>
    check_usable c1 r' f_0"
proof -
  obtain c1 w1 r1 w2 where h: "center_calibration io c w = (Inr c1, w1)"
    "range_calibration io atn c1 r w1 = (Inr r1, w2)" "c' = finalize_center_deadzone c1 r1" "r' = r1"
    using assms by (auto simp: calibrate_def split: prod.splits sum.splits)
  then show ?thesis
    using range_calibration_success [OF h(2)] range_result_cases(2) by blast
qed

end
