(* ===== verification/Calibration_Safety.thy ===== *)
theory Calibration_Safety
  imports Calibration_Facts
begin

text \<open>
  What a recalibration guarantees: it always ends in a result the console can be told, a calibration
  it accepts is usable, its deadzone covers the resting noise, and a single bad reading is filtered
  out before anything is computed from it.
\<close>

text \<open>C7: A recalibration on a sensor whose readings are within full scale never reaches undefined behaviour, whatever
  the stick does: it succeeds or reports one of the calibration errors.\<close>

theorem calibration_always_answers:
  assumes "atan2_range atn" "reads_ok bounded_sample io"
  shows "fst (fst (calibrate io atn c r w)) \<noteq> Some Undefined_behaviour"
proof (cases "center_calibration io c w")
  case (Pair res w1)
  show ?thesis
  proof (cases res)
    case (Inl e)
    then show ?thesis using center_calibration_defined [of io c w] Pair by (simp add: calibrate_def)
  next
    case (Inr c1)
    have "reads_ok ffin io" using assms(2) by (auto simp: reads_ok_def bounded_sample_def)
    moreover have "ffin (center_x c1) \<and> ffin (center_y c1)"
      using center_calibration_finite [OF assms(2)] Pair Inr by simp
    ultimately have "fst (range_calibration io atn c1 r w1) \<noteq> Inl Undefined_behaviour"
      using range_calibration_defined [OF assms(1), of c1 io r w1] by simp
    then show ?thesis using Pair Inr
      by (cases "range_calibration io atn c1 r w1"; cases "fst (range_calibration io atn c1 r w1)")
        (auto simp: calibrate_def)
  qed
qed

definition still_stick :: "unit cal_io" where
  "still_stick = \<lparr>cal_read = (\<lambda>w. (Some (f_0, f_0), w)), cal_message = (\<lambda>t w. w), cal_sleep = (\<lambda>t w. w)\<rparr>"

theorem calibration_always_answers_witness:
  "fst (fst (calibrate still_stick (\<lambda>y x. f_0) init_center init_range ())) \<noteq> Some Undefined_behaviour"
proof (rule calibration_always_answers)
  show "atan2_range (\<lambda>y x. f_0)"
    using sval_pi by (simp add: atan2_range_def fle_def ffin_not_nan ffin_literals sval_literals)
  show "reads_ok bounded_sample still_stick"
    by (simp add: reads_ok_def still_stick_def bounded_sample_def ffin_literals sval_literals order_less_imp_le)
qed

text \<open>The clamp on the center deadzone is safe: for a usable calibration its argument is a number.\<close>

lemma finalized_deadzone_limits:
  assumes "check_usable c r f_0"
  shows "fle f_0 (center_deadzone (finalize_center_deadzone c r)) \<and>
    fle (center_deadzone (finalize_center_deadzone c r)) f_0_5"
proof -
  note d = check_usableD [OF assms]
  have "\<not> fnan (fmul (noise_radius c) CENTER_MARGIN)"
    using d(1) by (simp add: fmul_fin ffin_literals CENTER_MARGIN_def)
  then have "\<not> fnan (fdiv (fmul (noise_radius c) CENTER_MARGIN) (usable_radius r))"
    using d(2,4) by (intro fdiv_not_nan) simp_all
  moreover have "flt f_0 (usable_radius r)"
    using d by (simp add: flt_def ffin_not_nan ffin_literals sval_literals)
  ultimately show ?thesis
    using clamp_deadzone_bounds by (simp add: finalize_center_deadzone_def Let_def MAX_CENTER_DEADZONE_def)
qed

text \<open>C6: Whatever the sensor reads, the outcome of a recalibration is one of two: an error, or a calibration that
  passes the usability test, has its center deadzone between 0 and 0.5 and its range deadzone between 0 and 0.1,
  saw the stick in enough directions, and kept the manual trim.\<close>

theorem accepted_calibration_is_usable:
  "case calibrate io atn c r w of
     ((Some e, c', r'), w') \<Rightarrow> r' = r
   | ((None, c', r'), w') \<Rightarrow>
       check_usable c' r' f_0 \<and>
       manual_offset_x c' = manual_offset_x c \<and> manual_offset_y c' = manual_offset_y c \<and>
       fle f_0 (center_deadzone c') \<and> fle (center_deadzone c') f_0_5 \<and>
       fle f_0 (range_deadzone r') \<and> fle (range_deadzone r') f_0_1 \<and>
       fle f_0 (normalized_max_radius r') \<and> fle (normalized_max_radius r') f_1 \<and>
       MIN_COVERED_SECTORS \<le> length (filter (\<lambda>v. flt f_0 v) (sector_max_radius r')) \<and>
       reliable_max_radius r' \<in> set (sector_max_radius r')"
proof (cases "fst (fst (calibrate io atn c r w))")
  case (Some e)
  then show ?thesis by (auto simp: calibrate_def split: prod.splits sum.splits)
next
  case None
  obtain c' r' w' where eq: "calibrate io atn c r w = ((None, c', r'), w')"
    using None by (metis prod.collapse)
  from calibrate_success [OF eq] obtain c1 w1 w2 where
    h: "center_calibration io c w = (Inr c1, w1)" "range_calibration io atn c1 r w1 = (Inr r', w2)"
      "c' = finalize_center_deadzone c1 r'" "check_usable c1 r' f_0" by blast
  obtain s where "length (sw_sectors s) = RANGE_SECTORS" "range_result_of c1 s r = Inr r'"
    using range_calibration_success [OF h(2)] by blast
  from range_result_cases(2) [OF this] center_calibration_frame [OF h(1)] h(3,4) finalized_deadzone_limits [OF h(4)]
  show ?thesis by (auto simp: eq intro: check_usable_cong [THEN iffD1])
qed

text \<open>For a calibration that passes the usability test, the center deadzone is between 0 and 0.5 and, of the usable
  range, at least the resting noise: a stick at rest stays inside it.\<close>

theorem deadzone_covers_noise:
  assumes "check_usable c r f_0"
    "noise_radius c = f_0 \<or> one_units \<le> 1048576 * sval (noise_radius c)"
    "sval (usable_radius r) \<le> 1048576 * one_units"
  shows "fle f_0 (center_deadzone (finalize_center_deadzone c r)) \<and>
    fle (center_deadzone (finalize_center_deadzone c r)) f_0_5 \<and>
    sval (noise_radius c) * one_units
      \<le> sval (center_deadzone (finalize_center_deadzone c r)) * sval (usable_radius r)"
  by (rule finalize_deadzone [OF assms])

theorem deadzone_covers_noise_witness:
  "sval f_1 * one_units \<le> sval (center_deadzone (finalize_center_deadzone (init_center\<lparr>noise_radius := f_1\<rparr>)
     (init_range\<lparr>usable_radius := f_15\<rparr>))) * sval f_15"
proof -
  have pos: "0 < one_units" "\<not> one_units < 0" "\<not> one_units \<le> 0" by (simp_all add: one_units_def)
  have triple: "fmul (fmul f_3 f_1) f_1 = f_3"
    by (simp add: f32_eval f32_literal_defs)
  have "check_usable (init_center\<lparr>noise_radius := f_1\<rparr>) (init_range\<lparr>usable_radius := f_15\<rparr>) f_0"
    using triple fmul_one [of f_3]
    by (simp add: check_usable_def MIN_RATIO fsub_1_0 ffin_literals Let_def flt_def fle_def ffin_not_nan
        sval_literals pos(2,3))
  with pos(1) show ?thesis
    using deadzone_covers_noise [of "init_center\<lparr>noise_radius := f_1\<rparr>" "init_range\<lparr>usable_radius := f_15\<rparr>"]
    by (simp add: sval_literals)
qed

definition filter_all :: "median3 \<Rightarrow> f32 list \<Rightarrow> median3" where
  "filter_all m vs = fold (\<lambda>v m. snd (median3_update m v)) vs m"

lemma filter_after_three:
  assumes "length (m_history m) = 3" "m_index m < 3" "0 < m_count m"
  shows "fst (median3_update (filter_all m [x, y]) z)
    \<in> {median_of x y z, median_of z x y, median_of y z x}"
proof -
  obtain h0 h1 h2 where h: "m_history m = [h0, h1, h2]"
    using assms(1) by (auto simp: length_Suc_conv numeral_3_eq_3)
  have "m_index m = 0 \<or> m_index m = 1 \<or> m_index m = 2" using assms(2) by auto
  then show ?thesis
    by (elim disjE; cases "m_count m < 3"; cases "Suc (m_count m) < 3")
      (use assms(3) h in \<open>simp_all add: filter_all_def median3_update_def Let_def\<close>)
qed

text \<open>Once the sensor filter has taken a reading since its reset, it rejects a spike: of three further readings, if
  any two lie between \<open>lo\<close> and \<open>hi\<close>, the filtered value lies there too, whatever the third one was and
  in whichever order they came. (The first three readings after a reset pass through unfiltered.)\<close>

theorem spike_is_rejected:
  assumes "length (m_history m) = 3" "m_index m < 3" "0 < m_count m"
    "\<not> fnan s" "fle lo a" "fle a hi" "fle lo b" "fle b hi"
    "(x, y, z) \<in> {(s, a, b), (a, s, b), (a, b, s)}"
  shows "fle lo (fst (median3_update (filter_all m [x, y]) z)) \<and>
    fle (fst (median3_update (filter_all m [x, y]) z)) hi"
proof -
  let ?v = "fst (median3_update (filter_all m [x, y]) z)"
  have n: "\<not> fnan x \<and> \<not> fnan y \<and> \<not> fnan z" using assms(4-9) by (auto simp: fle_def)
  have two: "fle lo x \<and> fle x hi \<and> fle lo y \<and> fle y hi \<or> fle lo x \<and> fle x hi \<and> fle lo z \<and> fle z hi \<or>
      fle lo y \<and> fle y hi \<and> fle lo z \<and> fle z hi"
    using assms(5-9) by auto
  have "?v = median_of x y z \<or> ?v = median_of z x y \<or> ?v = median_of y z x"
    using filter_after_three [OF assms(1-3), of x y z] by blast
  then show ?thesis
  proof (elim disjE)
    assume "?v = median_of x y z"
    then show ?thesis using median_of_two_inside [of x y z lo hi] n two by simp
  next
    assume "?v = median_of z x y"
    moreover have "fle lo (median_of z x y) \<and> fle (median_of z x y) hi"
      by (rule median_of_two_inside) (use n two in blast)+
    ultimately show ?thesis by simp
  next
    assume "?v = median_of y z x"
    moreover have "fle lo (median_of y z x) \<and> fle (median_of y z x) hi"
      by (rule median_of_two_inside) (use n two in blast)+
    ultimately show ?thesis by simp
  qed
qed

theorem spike_is_rejected_witness:
  "fle f_0 (fst (median3_update (filter_all (snd (median3_update init_median3 f_0)) [f_1, f_15]) f_0)) \<and>
   fle (fst (median3_update (filter_all (snd (median3_update init_median3 f_0)) [f_1, f_15]) f_0)) f_1"
  by (rule spike_is_rejected [of _ f_15 _ f_1 _ f_0])
    (simp_all add: init_median3_def median3_update_def f32_cmp_eval f32_literal_defs)

end
