(* ===== verification/Monitors.thy ===== *)
theory Monitors
  imports Calibration_Facts
begin

text \<open>
  The two monitors of \<open>omega_calibration.hpp\<close> that run on every tick: \<open>DriftCompensator\<close>, which
  moves the stored center towards a resting stick, and \<open>SensorFaultMonitor\<close>, which decides when
  the reading can no longer be trusted.
\<close>

section \<open>Drift compensation\<close>

record drift_config =
  idle_magnitude_threshold :: f32
  idle_dwell :: millis
  blend_rate :: f32
  min_nudge_interval :: millis

definition default_drift_config :: drift_config where
  "default_drift_config = \<lparr>idle_magnitude_threshold = f_0_05, idle_dwell = 2000,
     blend_rate = f_0_02, min_nudge_interval = 500\<rparr>"

record drift =
  dr_config :: drift_config
  idle_since :: "nanos option"
  last_nudge :: "nanos option"

definition init_drift :: drift where
  "init_drift = \<lparr>dr_config = default_drift_config, idle_since = None, last_nudge = None\<rparr>"

definition blend :: "f32 \<Rightarrow> f32 \<Rightarrow> f32 \<Rightarrow> f32" where
  "blend rate raw center = fadd center (fmul (fsub raw center) rate)"

definition drift_update ::
  "drift \<Rightarrow> f32 \<Rightarrow> f32 \<Rightarrow> f32 \<Rightarrow> center_result \<Rightarrow> nanos \<Rightarrow> bool \<times> drift \<times> center_result" where
  "drift_update d raw_x raw_y mag c now =
     (let cfg = dr_config d in
      if flt (idle_magnitude_threshold cfg) mag then (False, d\<lparr>idle_since := None\<rparr>, c)
      else
        let since = (case idle_since d of None \<Rightarrow> now | Some t \<Rightarrow> t);
            d' = d\<lparr>idle_since := Some since\<rparr> in
        if now - since < of_millis (idle_dwell cfg) then (False, d', c)
        else if (case last_nudge d of None \<Rightarrow> False
                 | Some l \<Rightarrow> now - l < of_millis (min_nudge_interval cfg)) then (False, d', c)
        else (True, d'\<lparr>last_nudge := Some now\<rparr>,
              c\<lparr>center_x := blend (blend_rate cfg) raw_x (center_x c),
                center_y := blend (blend_rate cfg) raw_y (center_y c)\<rparr>))"

definition drift_reset :: "drift \<Rightarrow> drift" where
  "drift_reset d = d\<lparr>idle_since := None, last_nudge := None\<rparr>"

section \<open>Sensor faults\<close>

datatype sensor_fault = NO_FAULT | READ_FAILED | STUCK

record fault_config =
  trip_after_failed_reads :: int
  stuck_after_samples :: int
  stuck_after_stale_conversions :: int
  recover_after_good_reads :: int

definition default_fault_config :: fault_config where
  "default_fault_config = \<lparr>trip_after_failed_reads = 3, stuck_after_samples = 500,
     stuck_after_stale_conversions = 50, recover_after_good_reads = 10\<rparr>"

record fault_monitor =
  fm_config :: fault_config
  fm_fault :: sensor_fault
  fm_first_fault :: sensor_fault
  fm_fault_count :: u32
  failed_streak :: int
  good_streak :: int
  identical_streak :: int
  have_last :: bool
  last_x :: f32
  last_y :: f32
  stale_conversion_streak :: int
  have_last_conversion :: bool
  last_conversion :: u8

definition init_monitor :: "fault_config \<Rightarrow> fault_monitor" where
  "init_monitor cfg = \<lparr>fm_config = cfg, fm_fault = NO_FAULT, fm_first_fault = NO_FAULT,
     fm_fault_count = 0, failed_streak = 0, good_streak = 0, identical_streak = 0,
     have_last = False, last_x = f_0, last_y = f_0, stale_conversion_streak = 0,
     have_last_conversion = False, last_conversion = 0\<rparr>"

definition faulted :: "fault_monitor \<Rightarrow> bool" where
  "faulted m \<longleftrightarrow> fm_fault m \<noteq> NO_FAULT"

definition saturating_increment :: "int \<Rightarrow> int \<Rightarrow> int" where
  "saturating_increment streak limit =
     (if 0 < limit \<and> limit \<le> streak then limit else s32_succ streak)"

definition trip :: "sensor_fault \<Rightarrow> fault_monitor \<Rightarrow> fault_monitor" where
  "trip f m =
     (if fm_fault m = f then m
      else m\<lparr>fm_fault := f, fm_fault_count := fm_fault_count m + 1, good_streak := 0,
             fm_first_fault := (if fm_first_fault m = NO_FAULT then f else fm_first_fault m)\<rparr>)"

definition count_identical :: "f32 \<Rightarrow> f32 \<Rightarrow> fault_monitor \<Rightarrow> fault_monitor" where
  "count_identical x y m =
     m\<lparr>identical_streak :=
          (if have_last m \<and> feq x (last_x m) \<and> feq y (last_y m)
           then saturating_increment (identical_streak m) (stuck_after_samples (fm_config m))
           else 0),
       have_last := True, last_x := x, last_y := y\<rparr>"

definition count_conversions :: "u8 option \<Rightarrow> fault_monitor \<Rightarrow> fault_monitor" where
  "count_conversions conv m =
     (case conv of None \<Rightarrow> m
      | Some n \<Rightarrow>
          m\<lparr>stale_conversion_streak :=
               (if have_last_conversion m \<and> n = last_conversion m
                then saturating_increment (stale_conversion_streak m)
                       (stuck_after_stale_conversions (fm_config m))
                else 0),
            have_last_conversion := True, last_conversion := n\<rparr>)"

definition samples_stuck :: "fault_monitor \<Rightarrow> bool" where
  "samples_stuck m \<longleftrightarrow> 0 < stuck_after_samples (fm_config m) \<and>
     stuck_after_samples (fm_config m) \<le> identical_streak m"

definition conversions_stuck :: "fault_monitor \<Rightarrow> bool" where
  "conversions_stuck m \<longleftrightarrow> 0 < stuck_after_stale_conversions (fm_config m) \<and>
     stuck_after_stale_conversions (fm_config m) \<le> stale_conversion_streak m"

definition monitor_update ::
  "fault_monitor \<Rightarrow> bool \<Rightarrow> f32 \<Rightarrow> f32 \<Rightarrow> u8 option \<Rightarrow> bool \<times> fault_monitor" where
  "monitor_update m read_ok x y conv =
     (if \<not> read_ok then
        let m1 = m\<lparr>failed_streak := s32_succ (failed_streak m), good_streak := 0\<rparr>;
            m2 = (if trip_after_failed_reads (fm_config m) \<le> failed_streak m1
                  then trip READ_FAILED m1 else m1) in
        (faulted m2, m2)
      else
        let m1 = m\<lparr>failed_streak := 0, good_streak := s32_succ (good_streak m)\<rparr>;
            m2 = count_conversions conv (count_identical x y m1) in
        if samples_stuck m2 \<or> conversions_stuck m2 then
          (True, (trip STUCK m2)\<lparr>good_streak := 0\<rparr>)
        else
          let m3 = (if faulted m2 \<and> recover_after_good_reads (fm_config m) \<le> good_streak m2
                    then m2\<lparr>fm_fault := NO_FAULT\<rparr> else m2) in
          (faulted m3, m3))"

definition monitor_reset :: "fault_monitor \<Rightarrow> fault_monitor" where
  "monitor_reset m = init_monitor (fm_config m)"

definition fault_to_string :: "sensor_fault \<Rightarrow> string" where
  "fault_to_string f = (case f of READ_FAILED \<Rightarrow> ''read failed'' | STUCK \<Rightarrow> ''reading stuck''
     | NO_FAULT \<Rightarrow> ''none'')"

text \<open>\<open>enum class Fault : uint8_t\<close>.\<close>

definition fault_code :: "sensor_fault \<Rightarrow> u8" where
  "fault_code f = (case f of NO_FAULT \<Rightarrow> 0 | READ_FAILED \<Rightarrow> 1 | STUCK \<Rightarrow> 2)"

section \<open>The drift step stays between the old center and the reading\<close>

lemma rr_abs_bound:
  "\<bar>q\<bar> \<le> 2 ^ j \<Longrightarrow> j \<le> 277 \<Longrightarrow> \<bar>rr q\<bar> \<le> 2 ^ j"
  by (rule rr_abs_le [OF _ rr_pow2])

lemma fof_fin: "\<bar>q\<bar> \<le> 2 ^ 275 \<Longrightarrow> ffin (fof z q)"
  by (rule ffin_fof) (rule order_le_less_trans, assumption, simp)

lemma rat_abs_le: "\<bar>n\<bar> \<le> 2 ^ j \<Longrightarrow> \<bar>rat_of_int n\<bar> \<le> 2 ^ j"
proof -
  assume "\<bar>n\<bar> \<le> 2 ^ j"
  then have "rat_of_int \<bar>n\<bar> \<le> rat_of_int (2 ^ j)" by (simp only: of_int_le_iff)
  then show ?thesis by simp
qed

text \<open>The step as three roundings.\<close>

definition blend_units :: "int \<Rightarrow> int \<Rightarrow> int \<Rightarrow> int" where
  "blend_units rate raw c =
     rr (rat_of_int (c + rr (rat_of_int (rr (rat_of_int (raw - c)) * rate) / rat_of_int one_units)))"

lemma blend_value:
  assumes fin: "ffin raw" "ffin c" "ffin rate"
    and small: "\<bar>sval raw\<bar> \<le> 2 ^ 270" "\<bar>sval c\<bar> \<le> 2 ^ 270"
    and rate: "0 \<le> sval rate" "sval rate \<le> one_units"
  shows "ffin (blend rate raw c) \<and> sval (blend rate raw c) = blend_units (sval rate) (sval raw) (sval c)"
proof -
  define s where "s = fsub raw c"
  have s: "sval s = rr (rat_of_int (sval raw - sval c))"
    "s = fof (fsgn raw \<and> \<not> fsgn c) (rat_of_int (sval raw - sval c))"
    using fin by (simp_all add: s_def fsub_fin)
  have "\<bar>sval raw - sval c\<bar> \<le> 2 ^ 271"
    using small order_trans [OF abs_triangle_ineq4 [of "sval raw" "sval c"]] by simp
  note ds = rat_abs_le [OF this]
  have fs: "ffin s" unfolding s(2) by (rule fof_fin, rule order_trans [OF ds]) simp
  have sb: "\<bar>sval s\<bar> \<le> 2 ^ 271" unfolding s(1) by (rule rr_abs_bound [OF ds]) simp
  define q where "q = rat_of_int (sval s * sval rate) / rat_of_int one_units"
  have "\<bar>sval s * sval rate\<bar> \<le> 2 ^ 271 * one_units"
    unfolding abs_mult using sb rate by (intro mult_mono) simp_all
  then have "rat_of_int \<bar>sval s * sval rate\<bar> \<le> rat_of_int (2 ^ 271 * one_units)"
    by (simp only: of_int_le_iff)
  then have qb: "\<bar>q\<bar> \<le> 2 ^ 271"
    by (simp add: q_def abs_divide divide_le_eq abs_mult)
  define p where "p = fmul s rate"
  have p: "sval p = rr q" "p = fof (fsgn s \<noteq> fsgn rate) q"
    using fs fin by (simp_all add: p_def fmul_fin q_def)
  have fp: "ffin p" unfolding p(2) by (rule fof_fin, rule order_trans [OF qb]) simp
  have pb: "\<bar>sval p\<bar> \<le> 2 ^ 271" unfolding p(1) by (rule rr_abs_bound [OF qb]) simp
  have b: "blend rate raw c = fof (fsgn c \<and> fsgn p) (rat_of_int (sval c + sval p))"
    using fp fin by (simp add: blend_def s_def [symmetric] p_def [symmetric] fadd_fin)
  have "\<bar>sval c + sval p\<bar> \<le> 2 ^ 272"
    using pb small order_trans [OF abs_triangle_ineq [of "sval c" "sval p"]] by simp
  note cb = rat_abs_le [OF this]
  have "ffin (blend rate raw c)" unfolding b by (rule fof_fin, rule order_trans [OF cb]) simp
  moreover have "sval (blend rate raw c) = blend_units (sval rate) (sval raw) (sval c)"
    unfolding b sval_fof blend_units_def s(1) [symmetric] q_def [symmetric] p(1) [symmetric] ..
  ultimately show ?thesis by blast
qed

lemma blend_units_minus: "blend_units rate (- raw) (- c) = - blend_units rate raw c"
proof -
  have 1: "rr (rat_of_int (- raw - - c)) = - rr (rat_of_int (raw - c))"
    unfolding rr_minus [symmetric] by simp
  have 2: "rr (rat_of_int (- n) / k) = - rr (rat_of_int n / k)" for n k
    unfolding rr_minus [symmetric] by simp
  have 3: "rr (rat_of_int (- c + - n)) = - rr (rat_of_int (c + n))" for n
    unfolding rr_minus [symmetric] by simp
  show ?thesis
    unfolding blend_units_def 1 mult_minus_left 2 3 ..
qed

lemma blend_units_between:
  assumes rate: "0 \<le> rate" "4 * rate \<le> one_units" and le: "c \<le> raw"
    and exact: "rr (rat_of_int c) = c" "rr (rat_of_int raw) = raw"
  shows "c \<le> blend_units rate raw c \<and> blend_units rate raw c \<le> raw"
proof -
  define d where "d = raw - c"
  have d: "0 \<le> d" using le by (simp add: d_def)
  define s where "s = rr (rat_of_int d)"
  have s0: "0 \<le> s" unfolding s_def by (rule rr_nonneg) (use d in simp)
  have s2: "s \<le> 2 * d"
  proof (cases "d = 0")
    case True
    then show ?thesis by (simp add: s_def)
  next
    case False
    then have "rat_of_int (rr (rat_of_int d)) \<le> 2 * rat_of_int d" using d by (intro rr_double) simp
    then show ?thesis unfolding s_def by linarith
  qed
  define q where "q = rat_of_int (s * rate) / rat_of_int one_units"
  have q0: "0 \<le> q"
    unfolding q_def using s0 rate(1) by (intro divide_nonneg_nonneg) (simp_all add: order_less_imp_le)
  have "s * (4 * rate) \<le> (2 * d) * one_units"
    using s2 s0 rate d by (intro mult_mono) simp_all
  then have "rat_of_int (2 * (s * rate)) \<le> rat_of_int (d * one_units)"
    by (simp only: of_int_le_iff)
  then have q2: "2 * q \<le> rat_of_int d" by (simp add: q_def field_simps)
  have p0: "0 \<le> rr q" by (rule rr_nonneg [OF q0])
  have pd: "rr q \<le> d"
  proof (cases "1 \<le> q")
    case True
    then have "rat_of_int (rr q) \<le> 2 * q" by (rule rr_double)
    with q2 show ?thesis by linarith
  next
    case False
    then have "rr q \<le> 1" by (intro rr_le_1) simp
    moreover have "rr q = 0" if "d = 0" using q0 q2 that by simp
    ultimately show ?thesis using d by (cases "d = 0") simp_all
  qed
  have "rr (rat_of_int c) \<le> rr (rat_of_int (c + rr q))"
    "rr (rat_of_int (c + rr q)) \<le> rr (rat_of_int raw)"
    using p0 pd by (auto intro!: rr_mono simp: d_def)
  then show ?thesis
    unfolding exact blend_units_def d_def [symmetric] s_def [symmetric] q_def [symmetric] by blast
qed

lemma blend_between:
  assumes fin: "ffin raw" "ffin c" "ffin rate"
    and small: "\<bar>sval raw\<bar> \<le> 2 ^ 270" "\<bar>sval c\<bar> \<le> 2 ^ 270"
    and rate: "0 \<le> sval rate" "4 * sval rate \<le> one_units"
  shows "ffin (blend rate raw c) \<and>
    min (sval c) (sval raw) \<le> sval (blend rate raw c) \<and>
    sval (blend rate raw c) \<le> max (sval c) (sval raw)"
proof -
  have v: "ffin (blend rate raw c)"
    "sval (blend rate raw c) = blend_units (sval rate) (sval raw) (sval c)"
    using blend_value [OF fin small rate(1)] rate by simp_all
  have exact: "rr (rat_of_int (sval c)) = sval c" "rr (rat_of_int (sval raw)) = sval raw"
    using fin by (simp_all add: rr_sval ffin_not_nan)
  show ?thesis
  proof (cases "sval c \<le> sval raw")
    case True
    with blend_units_between [OF rate True exact] v show ?thesis by simp
  next
    case False
    then have "- sval c \<le> - sval raw" by simp
    moreover have "rr (rat_of_int (- sval c)) = - sval c" "rr (rat_of_int (- sval raw)) = - sval raw"
      using exact by (simp_all add: rr_minus)
    ultimately have "- sval c \<le> blend_units (sval rate) (- sval raw) (- sval c) \<and>
        blend_units (sval rate) (- sval raw) (- sval c) \<le> - sval raw"
      by (rule blend_units_between [OF rate])
    with False v show ?thesis by (simp add: blend_units_minus)
  qed
qed

end
