(* ===== verification/Monitor_Runs.thy ===== *)
theory Monitor_Runs
  imports Monitors
begin

text \<open>
  What the monitors of \<open>Monitors\<close> do over whole sequences of readings: when the fault monitor
  trips, how long it stays tripped, what it remembers, that its counters stay in range, and how
  far and how often drift compensation may move the center.
\<close>

section \<open>One reading\<close>

type_synonym reading = "bool \<times> f32 \<times> f32 \<times> u8 option"

definition monitor_feed :: "reading \<Rightarrow> fault_monitor \<Rightarrow> fault_monitor" where
  "monitor_feed u m = (case u of (ok, x, y, conv) \<Rightarrow> snd (monitor_update m ok x y conv))"

definition monitor_run :: "reading list \<Rightarrow> fault_monitor \<Rightarrow> fault_monitor" where
  "monitor_run us m = fold monitor_feed us m"

lemma monitor_run_simps [simp]:
  "monitor_run [] m = m"
  "monitor_run (u # us) m = monitor_run us (monitor_feed u m)"
  by (simp_all add: monitor_run_def)

lemma monitor_run_append: "monitor_run (us @ vs) m = monitor_run vs (monitor_run us m)"
  by (simp add: monitor_run_def)

lemma monitor_update_fst: "fst (monitor_update m ok x y conv) = faulted (snd (monitor_update m ok x y conv))"
  by (auto simp: monitor_update_def Let_def faulted_def trip_def)

lemma trip_simps [simp]:
  "fm_config (trip f m) = fm_config m"
  "fm_fault (trip f m) = f"
  "failed_streak (trip f m) = failed_streak m"
  "identical_streak (trip f m) = identical_streak m"
  "stale_conversion_streak (trip f m) = stale_conversion_streak m"
  "have_last (trip f m) = have_last m"
  "last_x (trip f m) = last_x m"
  "last_y (trip f m) = last_y m"
  by (simp_all add: trip_def)

lemma count_simps [simp]:
  "fm_config (count_identical x y m) = fm_config m"
  "fm_fault (count_identical x y m) = fm_fault m"
  "fm_first_fault (count_identical x y m) = fm_first_fault m"
  "fm_fault_count (count_identical x y m) = fm_fault_count m"
  "failed_streak (count_identical x y m) = failed_streak m"
  "good_streak (count_identical x y m) = good_streak m"
  "stale_conversion_streak (count_identical x y m) = stale_conversion_streak m"
  "have_last_conversion (count_identical x y m) = have_last_conversion m"
  "last_conversion (count_identical x y m) = last_conversion m"
  "have_last (count_identical x y m)" "last_x (count_identical x y m) = x"
  "last_y (count_identical x y m) = y"
  "fm_config (count_conversions conv m) = fm_config m"
  "fm_fault (count_conversions conv m) = fm_fault m"
  "fm_first_fault (count_conversions conv m) = fm_first_fault m"
  "fm_fault_count (count_conversions conv m) = fm_fault_count m"
  "failed_streak (count_conversions conv m) = failed_streak m"
  "good_streak (count_conversions conv m) = good_streak m"
  "identical_streak (count_conversions conv m) = identical_streak m"
  "have_last (count_conversions conv m) = have_last m"
  "last_x (count_conversions conv m) = last_x m"
  "last_y (count_conversions conv m) = last_y m"
  by (simp_all add: count_identical_def count_conversions_def split: option.splits)

lemma feed_config [simp]: "fm_config (monitor_feed u m) = fm_config m"
  by (cases u) (simp add: monitor_feed_def monitor_update_def Let_def)

lemma run_config [simp]: "fm_config (monitor_run us m) = fm_config m"
  by (induction us arbitrary: m) simp_all

section \<open>Counters\<close>

text \<open>The two streaks that grow on every tick of a frozen sensor stay at or below their limit.\<close>

definition streaks_bounded :: "fault_monitor \<Rightarrow> bool" where
  "streaks_bounded m \<longleftrightarrow>
     0 \<le> identical_streak m \<and> identical_streak m \<le> stuck_after_samples (fm_config m) \<and>
     0 \<le> stale_conversion_streak m \<and>
     stale_conversion_streak m \<le> stuck_after_stale_conversions (fm_config m)"

definition limits_ok :: "fault_config \<Rightarrow> bool" where
  "limits_ok c \<longleftrightarrow>
     0 < stuck_after_samples c \<and> stuck_after_samples c \<le> int_max \<and>
     0 < stuck_after_stale_conversions c \<and> stuck_after_stale_conversions c \<le> int_max \<and>
     0 < trip_after_failed_reads c \<and> trip_after_failed_reads c \<le> int_max \<and>
     0 < recover_after_good_reads c \<and> recover_after_good_reads c \<le> int_max"

lemma saturating_increment_le:
  "0 < l \<Longrightarrow> l \<le> int_max \<Longrightarrow> 0 \<le> n \<Longrightarrow> n \<le> l \<Longrightarrow>
   0 \<le> saturating_increment n l \<and> saturating_increment n l \<le> l"
  by (simp add: saturating_increment_def s32_succ_def)

lemma count_identical_le:
  "limits_ok (fm_config m) \<Longrightarrow> 0 \<le> identical_streak m \<Longrightarrow>
   identical_streak m \<le> stuck_after_samples (fm_config m) \<Longrightarrow>
   0 \<le> identical_streak (count_identical x y m) \<and>
   identical_streak (count_identical x y m) \<le> stuck_after_samples (fm_config m)"
  by (simp add: count_identical_def limits_ok_def saturating_increment_le)

lemma count_conversions_le:
  "limits_ok (fm_config m) \<Longrightarrow> 0 \<le> stale_conversion_streak m \<Longrightarrow>
   stale_conversion_streak m \<le> stuck_after_stale_conversions (fm_config m) \<Longrightarrow>
   0 \<le> stale_conversion_streak (count_conversions conv m) \<and>
   stale_conversion_streak (count_conversions conv m) \<le> stuck_after_stale_conversions (fm_config m)"
  by (simp add: count_conversions_def limits_ok_def saturating_increment_le split: option.splits)

lemma counted_streaks [simp]:
  "identical_streak (count_identical x y (m\<lparr>failed_streak := a, good_streak := g\<rparr>)) =
   identical_streak (count_identical x y m)"
  "stale_conversion_streak (count_conversions conv
     (count_identical x y (m\<lparr>failed_streak := a, good_streak := g\<rparr>))) =
   stale_conversion_streak (count_conversions conv m)"
  by (simp_all add: count_identical_def count_conversions_def split: option.splits)

lemma feed_streaks:
  "limits_ok (fm_config m) \<Longrightarrow> streaks_bounded m \<Longrightarrow> streaks_bounded (monitor_feed u m)"
  by (cases u) (simp add: monitor_feed_def monitor_update_def Let_def streaks_bounded_def
      count_identical_le count_conversions_le)

lemma run_streaks:
  "limits_ok (fm_config m) \<Longrightarrow> streaks_bounded m \<Longrightarrow> streaks_bounded (monitor_run us m)"
  by (induction us arbitrary: m) (simp_all add: feed_streaks)

section \<open>Remaining faulted\<close>

lemma s32_succ_less: "0 \<le> n \<Longrightarrow> n + 1 < r \<Longrightarrow> r \<le> int_max \<Longrightarrow> s32_succ n = n + 1"
  by (simp add: s32_succ_def)

lemma feed_stays_faulted:
  assumes "faulted m" "0 \<le> good_streak m" "good_streak m + 1 < recover_after_good_reads (fm_config m)"
    "recover_after_good_reads (fm_config m) \<le> int_max"
  shows "faulted (monitor_feed u m) \<and> 0 \<le> good_streak (monitor_feed u m) \<and>
    good_streak (monitor_feed u m) \<le> good_streak m + 1"
  using assms s32_succ_less [OF assms(2,3,4)]
  by (cases u) (auto simp: monitor_feed_def monitor_update_def Let_def faulted_def trip_def
      split: sensor_fault.splits)

lemma run_stays_faulted:
  assumes "faulted m" "0 \<le> good_streak m"
    "good_streak m + int (length us) < recover_after_good_reads (fm_config m)"
    "recover_after_good_reads (fm_config m) \<le> int_max"
  shows "faulted (monitor_run us m)"
  using assms
proof (induction us arbitrary: m)
  case (Cons u us)
  have "good_streak m + 1 < recover_after_good_reads (fm_config m)" if "us \<noteq> []"
    using Cons.prems(3) that by (cases us) simp_all
  then have "faulted (monitor_feed u m) \<and> 0 \<le> good_streak (monitor_feed u m) \<and>
      good_streak (monitor_feed u m) \<le> good_streak m + 1"
    using Cons.prems by (intro feed_stays_faulted) simp_all
  with Cons.prems show ?case by (simp add: Cons.IH)
qed simp

lemma bad_feed_resets:
  "\<not> fst u \<Longrightarrow> good_streak (monitor_feed u m) = 0"
  by (cases u) (simp add: monitor_feed_def monitor_update_def Let_def trip_def)

section \<open>Tripping\<close>

lemma failed_feed:
  "\<not> fst u \<Longrightarrow> failed_streak (monitor_feed u m) = s32_succ (failed_streak m) \<and>
   (faulted m \<longrightarrow> faulted (monitor_feed u m)) \<and>
   (trip_after_failed_reads (fm_config m) \<le> s32_succ (failed_streak m) \<longrightarrow>
      fm_fault (monitor_feed u m) = READ_FAILED)"
  by (cases u) (auto simp: monitor_feed_def monitor_update_def Let_def faulted_def)

lemma failed_run:
  assumes "\<forall>u \<in> set us. \<not> fst u" "0 \<le> failed_streak m" "failed_streak m + int (length us) < int_max"
  shows "failed_streak (monitor_run us m) = failed_streak m + int (length us)"
  using assms
proof (induction us arbitrary: m)
  case (Cons u us)
  then have "failed_streak (monitor_feed u m) = failed_streak m + 1"
    using failed_feed [of u m] s32_succ_small [of "failed_streak m"] by simp
  with Cons show ?case by simp
qed simp

lemma good_feed_failed: "fst u \<Longrightarrow> failed_streak (monitor_feed u m) = 0"
  by (cases u) (simp add: monitor_feed_def monitor_update_def Let_def)

text \<open>A reading is fresh for a monitor when it is good, differs from the last one and does not
  repeat the last conversion number.\<close>

definition fresh :: "reading \<Rightarrow> fault_monitor \<Rightarrow> bool" where
  "fresh u m \<longleftrightarrow> (case u of (ok, x, y, conv) \<Rightarrow> ok \<and>
     \<not> (have_last m \<and> feq x (last_x m) \<and> feq y (last_y m)) \<and>
     (case conv of None \<Rightarrow> stale_conversion_streak m < stuck_after_stale_conversions (fm_config m)
      | Some n \<Rightarrow> \<not> (have_last_conversion m \<and> n = last_conversion m)))"

lemma fresh_not_stuck:
  assumes "limits_ok (fm_config m)" "fresh (ok, x, y, conv) m"
    "m1 = m\<lparr>failed_streak := 0, good_streak := g\<rparr>"
  shows "\<not> samples_stuck (count_conversions conv (count_identical x y m1)) \<and>
    \<not> conversions_stuck (count_conversions conv (count_identical x y m1))"
  using assms(1,2) unfolding assms(3)
  by (auto simp: samples_stuck_def conversions_stuck_def count_identical_def count_conversions_def
      fresh_def limits_ok_def split: option.splits)

lemma fresh_feed:
  assumes "limits_ok (fm_config m)" "fresh u m"
  shows "good_streak (monitor_feed u m) = s32_succ (good_streak m) \<and>
    fm_fault (monitor_feed u m) =
      (if recover_after_good_reads (fm_config m) \<le> s32_succ (good_streak m) then NO_FAULT
       else fm_fault m)"
proof -
  obtain ok x y conv where u: "u = (ok, x, y, conv)" by (cases u)
  have ok using assms(2) by (simp add: u fresh_def)
  with fresh_not_stuck [OF assms(1) assms(2) [unfolded u] refl, of "s32_succ (good_streak m)"]
  show ?thesis
    by (auto simp: u monitor_feed_def monitor_update_def Let_def faulted_def)
qed

fun all_fresh :: "reading list \<Rightarrow> fault_monitor \<Rightarrow> bool" where
  "all_fresh [] m \<longleftrightarrow> True"
| "all_fresh (u # us) m \<longleftrightarrow> fresh u m \<and> all_fresh us (monitor_feed u m)"

lemma fresh_run:
  assumes "limits_ok (fm_config m)" "all_fresh us m" "0 \<le> good_streak m"
    "good_streak m + int (length us) < int_max"
  shows "good_streak (monitor_run us m) = good_streak m + int (length us) \<and>
    (fm_fault m = NO_FAULT \<longrightarrow> fm_fault (monitor_run us m) = NO_FAULT) \<and>
    (us \<noteq> [] \<and> recover_after_good_reads (fm_config m) \<le> good_streak m + int (length us) \<longrightarrow>
       fm_fault (monitor_run us m) = NO_FAULT)"
  using assms
proof (induction us arbitrary: m)
  case (Cons u us)
  then have f: "good_streak (monitor_feed u m) = good_streak m + 1"
    "fm_fault (monitor_feed u m) =
       (if recover_after_good_reads (fm_config m) \<le> good_streak m + 1 then NO_FAULT else fm_fault m)"
    using fresh_feed [of m u] s32_succ_small [of "good_streak m"] by simp_all
  have ih: "good_streak (monitor_run us (monitor_feed u m)) =
        good_streak (monitor_feed u m) + int (length us) \<and>
      (fm_fault (monitor_feed u m) = NO_FAULT \<longrightarrow>
         fm_fault (monitor_run us (monitor_feed u m)) = NO_FAULT) \<and>
      (us \<noteq> [] \<and> recover_after_good_reads (fm_config (monitor_feed u m)) \<le>
           good_streak (monitor_feed u m) + int (length us) \<longrightarrow>
         fm_fault (monitor_run us (monitor_feed u m)) = NO_FAULT)"
    using Cons.prems f(1) by (intro Cons.IH) simp_all
  show ?case
    by (cases "us = []") (use ih f in \<open>auto split: if_splits\<close>)
qed simp

text \<open>The same good reading again and again.\<close>

lemma identical_feed:
  assumes "have_last m" "last_x m = x" "last_y m = y" "feq x x" "feq y y"
  shows "have_last (monitor_feed (True, x, y, conv) m) \<and>
    last_x (monitor_feed (True, x, y, conv) m) = x \<and> last_y (monitor_feed (True, x, y, conv) m) = y \<and>
    identical_streak (monitor_feed (True, x, y, conv) m) =
      saturating_increment (identical_streak m) (stuck_after_samples (fm_config m))"
  using assms
  by (auto simp: monitor_feed_def monitor_update_def Let_def) (simp_all add: count_identical_def)

lemma stuck_feed:
  assumes "0 < stuck_after_samples (fm_config m)"
    "stuck_after_samples (fm_config m) \<le> identical_streak (monitor_feed (True, x, y, conv) m)"
  shows "fm_fault (monitor_feed (True, x, y, conv) m) = STUCK"
  using assms
  by (auto simp: monitor_feed_def monitor_update_def Let_def samples_stuck_def split: if_splits)

lemma identical_run:
  assumes "\<forall>u \<in> set us. \<exists>conv. u = (True, x, y, conv)" "feq x x" "feq y y"
    "have_last m" "last_x m = x" "last_y m = y" "0 \<le> identical_streak m"
    "0 < stuck_after_samples (fm_config m)" "stuck_after_samples (fm_config m) \<le> int_max"
    "stuck_after_samples (fm_config m) \<le> identical_streak m + int (length us)" "us \<noteq> []"
  shows "fm_fault (monitor_run us m) = STUCK"
  using assms
proof (induction us arbitrary: m)
  case (Cons u us)
  then obtain conv where u: "u = (True, x, y, conv)" by auto
  define m' where "m' = monitor_feed u m"
  have m': "have_last m'" "last_x m' = x" "last_y m' = y"
    "identical_streak m' = saturating_increment (identical_streak m) (stuck_after_samples (fm_config m))"
    "fm_config m' = fm_config m"
    using identical_feed [of m x y conv] Cons.prems by (simp_all add: m'_def u)
  have ge: "0 \<le> identical_streak m'"
    "min (stuck_after_samples (fm_config m)) (identical_streak m + 1) \<le> identical_streak m'"
    using Cons.prems by (auto simp: m'(4) saturating_increment_def s32_succ_def)
  show ?case
  proof (cases "us = []")
    case True
    with ge Cons.prems have "stuck_after_samples (fm_config m) \<le> identical_streak m'" by simp
    with True Cons.prems show ?thesis by (simp add: u m'_def stuck_feed)
  next
    case False
    have "fm_fault (monitor_run us m') = STUCK"
    proof (rule Cons.IH)
      show "\<forall>u \<in> set us. \<exists>conv. u = (True, x, y, conv)" using Cons.prems by simp
      show "stuck_after_samples (fm_config m') \<le> identical_streak m' + int (length us)"
        using ge Cons.prems m'(5) by simp
    qed (use m' ge False Cons.prems in simp_all)
    then show ?thesis by (simp add: m'_def)
  qed
qed simp

section \<open>Drift over a run of ticks\<close>

text \<open>One tick of drift compensation: the raw reading, the mapped magnitude and the time.\<close>

type_synonym drift_tick = "f32 \<times> f32 \<times> f32 \<times> nanos"

fun drift_run :: "drift_tick list \<Rightarrow> drift \<Rightarrow> center_result \<Rightarrow> nanos list \<times> drift \<times> center_result" where
  "drift_run [] d c = ([], d, c)"
| "drift_run ((rx, ry, mag, t) # ts) d c =
     (case drift_update d rx ry mag c t of
        (moved, d1, c1) \<Rightarrow>
          (case drift_run ts d1 c1 of (ns, d2, c2) \<Rightarrow> (if moved then t # ns else ns, d2, c2)))"

lemma drift_update_frame:
  "drift_update d rx ry mag c t = (moved, d', c') \<Longrightarrow>
   dr_config d' = dr_config d \<and> noise_radius c' = noise_radius c \<and>
   center_deadzone c' = center_deadzone c \<and> manual_offset_x c' = manual_offset_x c \<and>
   manual_offset_y c' = manual_offset_y c \<and> (\<not> moved \<longrightarrow> c' = c) \<and>
   (moved \<longrightarrow> last_nudge d' = Some t) \<and> (\<not> moved \<longrightarrow> last_nudge d' = last_nudge d) \<and>
   (moved \<longrightarrow> (case last_nudge d of None \<Rightarrow> True
                | Some l \<Rightarrow> of_millis (min_nudge_interval (dr_config d)) \<le> t - l))"
  by (auto simp: drift_update_def Let_def split: if_splits option.splits)

lemma drift_run_gaps:
  assumes "drift_run ts d c = (ns, d', c')"
  shows "(case last_nudge d of None \<Rightarrow> True
          | Some l \<Rightarrow> (case ns of [] \<Rightarrow> True
                      | n # _ \<Rightarrow> of_millis (min_nudge_interval (dr_config d)) \<le> n - l)) \<and>
    (\<forall>k. Suc k < length ns \<longrightarrow>
       of_millis (min_nudge_interval (dr_config d)) \<le> ns ! Suc k - ns ! k)"
  using assms
proof (induction ts arbitrary: d c ns d' c')
  case (Cons tk ts)
  obtain rx ry mag t where tk: "tk = (rx, ry, mag, t)" by (cases tk)
  obtain moved d1 c1 where u: "drift_update d rx ry mag c t = (moved, d1, c1)"
    by (cases "drift_update d rx ry mag c t") auto
  obtain ns1 d2 c2 where r: "drift_run ts d1 c1 = (ns1, d2, c2)"
    by (cases "drift_run ts d1 c1") auto
  note f = drift_update_frame [OF u]
  then have cfg: "dr_config d1 = dr_config d" by simp
  note ih = Cons.IH [OF r, unfolded cfg]
  show ?case
  proof (cases moved)
    case False
    with Cons.prems tk u r have ns: "ns = ns1" by simp
    show ?thesis unfolding ns using False f ih by auto
  next
    case True
    with Cons.prems tk u r have ns: "ns = t # ns1" by simp
    have first: "of_millis (min_nudge_interval (dr_config d)) \<le> n - t" if "ns1 = n # ns2" for n ns2
      using ih f True that by simp
    have "of_millis (min_nudge_interval (dr_config d)) \<le> ns ! Suc k - ns ! k"
      if "Suc k < length ns" for k
      using that first ih f unfolding ns by (cases k; cases ns1) auto
    with f True ns show ?thesis by (auto split: option.splits)
  qed
qed (simp split: option.split)

lemma drift_update_steps:
  assumes "drift_update d rx ry mag c t = (moved, d', c')"
  shows "c' = (if moved then c\<lparr>center_x := blend (blend_rate (dr_config d)) rx (center_x c),
                             center_y := blend (blend_rate (dr_config d)) ry (center_y c)\<rparr> else c)"
  using assms by (auto simp: drift_update_def Let_def split: if_splits)

lemma drift_update_when:
  assumes "drift_update d rx ry mag c t = (True, d', c')"
  shows "\<not> flt (idle_magnitude_threshold (dr_config d)) mag"
    and "idle_since d = Some s \<Longrightarrow> of_millis (idle_dwell (dr_config d)) \<le> t - s"
  using assms by (auto simp: drift_update_def Let_def split: if_splits)

lemma not_flt_0_05_0: "flt f_0_05 f_0 = False"
  by (simp add: f32_cmp_eval f32_literal_defs)

lemma sval_0_02: "0 \<le> sval f_0_02 \<and> 4 * sval f_0_02 \<le> one_units"
  by (simp add: f32_class_eval f32_literal_defs one_units_def)

section \<open>Properties\<close>

text \<open>C18: When every one of at least \<open>trip_after_failed_reads\<close> consecutive reads fails, the
  monitor is in the fault \<open>READ_FAILED\<close>, whatever it saw before.\<close>

theorem failed_reads_trip:
  assumes "\<forall>u \<in> set us. \<not> fst u" "us \<noteq> []" "0 \<le> failed_streak m"
    "trip_after_failed_reads (fm_config m) \<le> int (length us)"
    "failed_streak m + int (length us) \<le> int_max"
  shows "fm_fault (monitor_run us m) = READ_FAILED"
proof -
  obtain vs u where us: "us = vs @ [u]" using assms(2) by (cases us rule: rev_cases) auto
  have n: "failed_streak (monitor_run vs m) = failed_streak m + int (length vs)"
    using assms by (intro failed_run) (simp_all add: us)
  then have "s32_succ (failed_streak (monitor_run vs m)) = failed_streak m + int (length us)"
    using assms(5) by (simp add: us s32_succ_small)
  then show ?thesis
    using assms failed_feed [of u "monitor_run vs m"]
    by (simp add: us monitor_run_append)
qed

theorem failed_reads_trip_witness:
  "fm_fault (monitor_run (replicate 3 (False, f_0, f_0, None)) (init_monitor default_fault_config))
     = READ_FAILED"
  by (rule failed_reads_trip) (simp_all add: init_monitor_def default_fault_config_def int_max_def)

text \<open>A fault does not flap: after a failed read that leaves the monitor faulted, it stays
  faulted through any sequence of fewer than \<open>recover_after_good_reads\<close> further reads, good or
  not.\<close>

theorem fault_does_not_flap:
  assumes "\<not> fst u" "faulted (monitor_feed u m)"
    "int (length us) < recover_after_good_reads (fm_config m)"
    "recover_after_good_reads (fm_config m) \<le> int_max"
  shows "faulted (monitor_run (u # us) m)"
  using assms bad_feed_resets [OF assms(1), of m] by (simp add: run_stays_faulted)

theorem fault_does_not_flap_witness:
  "faulted (monitor_run ((False, f_0, f_0, None) # replicate 9 (True, f_1, f_0, None))
     ((init_monitor default_fault_config)\<lparr>failed_streak := 2\<rparr>))"
  by (rule fault_does_not_flap)
    (simp_all add: init_monitor_def default_fault_config_def int_max_def monitor_feed_def
      monitor_update_def s32_succ_def trip_def faulted_def)

text \<open>Recovery: \<open>recover_after_good_reads\<close> consecutive reads that succeed, differ from their
  predecessor and carry a new conversion number clear any fault, and they never raise one.\<close>

theorem fresh_reads_recover:
  assumes "limits_ok (fm_config m)" "all_fresh us m" "0 \<le> good_streak m"
    "good_streak m + int (length us) < int_max"
    "faulted m \<longrightarrow> recover_after_good_reads (fm_config m) \<le> int (length us)"
  shows "\<not> faulted (monitor_run us m)"
proof (cases "us = []")
  case True
  with assms(1,5) show ?thesis by (auto simp: limits_ok_def)
next
  case False
  with fresh_run [OF assms(1-4)] assms(3,5) show ?thesis by (auto simp: faulted_def)
qed

theorem fresh_reads_recover_witness:
  "\<not> faulted (monitor_run [(True, f_1, f_0, Some 1), (True, f_0, f_0, Some 2)]
     ((init_monitor (default_fault_config\<lparr>recover_after_good_reads := 2\<rparr>))\<lparr>fm_fault := STUCK\<rparr>))"
  by (rule fresh_reads_recover)
    (simp_all add: init_monitor_def default_fault_config_def int_max_def limits_ok_def fresh_def
      monitor_feed_def monitor_update_def s32_succ_def count_identical_def count_conversions_def
      samples_stuck_def conversions_stuck_def faulted_def feq_def f_0_def f_1_def fnan_def
      fidx_def inf_idx_def fmag_def sval_def fsgn_def)

text \<open>C19: A frozen sensor is noticed: \<open>stuck_after_samples\<close> successful reads in a row that repeat
  the last reading bit for bit put the monitor in the fault \<open>STUCK\<close>.\<close>

theorem frozen_sensor_trips:
  assumes "\<forall>u \<in> set us. \<exists>conv. u = (True, x, y, conv)" "feq x x" "feq y y"
    "have_last m" "last_x m = x" "last_y m = y" "streaks_bounded m" "limits_ok (fm_config m)"
    "stuck_after_samples (fm_config m) \<le> int (length us)"
  shows "fm_fault (monitor_run us m) = STUCK"
  using assms by (intro identical_run [where x = x and y = y]) (auto simp: streaks_bounded_def limits_ok_def)

theorem frozen_sensor_trips_witness:
  "fm_fault (monitor_run (replicate 500 (True, f_0, f_0, None))
     ((init_monitor default_fault_config)\<lparr>have_last := True\<rparr>)) = STUCK"
  by (rule frozen_sensor_trips [where x = f_0 and y = f_0])
    (simp_all add: init_monitor_def default_fault_config_def int_max_def limits_ok_def
      streaks_bounded_def feq_def f_0_def fnan_def fidx_def inf_idx_def sval_def fmag_def fsgn_def)

text \<open>The two streaks a frozen sensor drives never pass their limits, however long it stays
  frozen, so they cannot overflow.\<close>

theorem streaks_never_overflow:
  assumes "limits_ok c"
  shows "streaks_bounded (monitor_run us (init_monitor c))"
  using assms by (intro run_streaks) (simp_all add: init_monitor_def streaks_bounded_def limits_ok_def)

theorem streaks_never_overflow_witness:
  "streaks_bounded (monitor_run (replicate 1000 (True, f_0, f_0, Some 0))
     (init_monitor default_fault_config))"
  by (rule streaks_never_overflow) (simp add: default_fault_config_def int_max_def limits_ok_def)

text \<open>\<open>failed_streak\<close> has no such bound: at the largest \<open>int\<close> one more failed read overflows
  it, and the two's-complement result is negative.\<close>

theorem failed_streak_overflows:
  "failed_streak (monitor_feed (False, x, y, conv) (m\<lparr>failed_streak := int_max\<rparr>)) < 0"
  using failed_feed [of "(False, x, y, conv)" "m\<lparr>failed_streak := int_max\<rparr>"]
  by (simp add: s32_succ_def int_max_def)

text \<open>Drift compensation moves the center at most once per \<open>min_nudge_interval\<close>, over any
  sequence of ticks.\<close>

theorem drift_rate_limited:
  assumes "drift_run ts d c = (ns, d', c')" "Suc k < length ns"
  shows "of_millis (min_nudge_interval (dr_config d)) \<le> ns ! Suc k - ns ! k"
  using drift_run_gaps [OF assms(1)] assms(2) by blast

theorem drift_rate_limited_witness:
  "\<exists>d' c'. drift_run [(f_0, f_0, f_0, 0), (f_0, f_0, f_0, 500000000)]
        (init_drift\<lparr>idle_since := Some (- 2000000000)\<rparr>) init_center = ([0, 500000000], d', c') \<and>
     of_millis 500 \<le> [0, 500000000] ! Suc 0 - ([0, 500000000] :: int list) ! 0"
proof -
  obtain d' c' where r: "drift_run [(f_0, f_0, f_0, 0), (f_0, f_0, f_0, 500000000)]
        (init_drift\<lparr>idle_since := Some (- 2000000000)\<rparr>) init_center = ([0, 500000000], d', c')"
    by (simp add: init_drift_def default_drift_config_def drift_update_def of_millis_def
        not_flt_0_05_0)
  show ?thesis
    using drift_rate_limited [OF r, of 0] r by (simp add: init_drift_def default_drift_config_def)
qed

text \<open>A drift step never overshoots: each axis of the new center lies between the old center
  and the reading, and every other field of the calibration is kept.\<close>

theorem drift_never_overshoots:
  assumes upd: "drift_update d rx ry mag c t = (moved, d', c')"
    and fin: "ffin rx" "ffin ry" "ffin (center_x c)" "ffin (center_y c)"
      "ffin (blend_rate (dr_config d))"
    and small: "\<bar>sval rx\<bar> \<le> 2 ^ 270" "\<bar>sval ry\<bar> \<le> 2 ^ 270"
      "\<bar>sval (center_x c)\<bar> \<le> 2 ^ 270" "\<bar>sval (center_y c)\<bar> \<le> 2 ^ 270"
    and rate: "0 \<le> sval (blend_rate (dr_config d))" "4 * sval (blend_rate (dr_config d)) \<le> one_units"
  shows "ffin (center_x c') \<and> ffin (center_y c') \<and>
    min (sval (center_x c)) (sval rx) \<le> sval (center_x c') \<and>
    sval (center_x c') \<le> max (sval (center_x c)) (sval rx) \<and>
    min (sval (center_y c)) (sval ry) \<le> sval (center_y c') \<and>
    sval (center_y c') \<le> max (sval (center_y c)) (sval ry) \<and>
    noise_radius c' = noise_radius c \<and> manual_offset_x c' = manual_offset_x c \<and>
    manual_offset_y c' = manual_offset_y c"
  using drift_update_steps [OF upd] fin
    blend_between [OF fin(1,3,5) small(1,3) rate] blend_between [OF fin(2,4,5) small(2,4) rate]
  by simp

theorem drift_never_overshoots_witness:
  "\<exists>d' c'. drift_update (init_drift\<lparr>idle_since := Some (- 2000000000)\<rparr>) f_1 f_0 f_0 init_center 0
      = (True, d', c') \<and> 0 \<le> sval (center_x c') \<and> sval (center_x c') \<le> one_units"
proof -
  obtain d' c' where r: "drift_update (init_drift\<lparr>idle_since := Some (- 2000000000)\<rparr>) f_1 f_0 f_0
      init_center 0 = (True, d', c')"
    by (simp add: init_drift_def default_drift_config_def drift_update_def of_millis_def
        not_flt_0_05_0)
  have "0 \<le> sval (center_x c') \<and> sval (center_x c') \<le> one_units"
    using drift_never_overshoots [OF r] sval_0_02
    by (simp add: init_drift_def default_drift_config_def init_center_def ffin_literals
        sval_literals one_units_def)
  with r show ?thesis by blast
qed

end
