(* ===== verification/Float_Text.thy ===== *)
theory Float_Text
  imports Float32
begin

text \<open>
  The two conversions of the C++ library the settings files go through: \<open>operator<<\<close> on a
  \<open>float\<close> (format \<open>%g\<close>, six significant digits) and \<open>strtof\<close>. Both are written out on rationals,
  and the second is shown to read back what the first writes.
\<close>

section \<open>Writing\<close>

definition pow10 :: "int \<Rightarrow> rat" where
  "pow10 e = (if 0 \<le> e then 10 ^ nat e else 1 / 10 ^ nat (- e))"

text \<open>The magnitude of a finite float.\<close>

definition magnitude :: "f32 \<Rightarrow> rat" where
  "magnitude x = rat_of_int \<bar>sval x\<bar> / rat_of_int one_units"

text \<open>The decimal exponent: the largest \<open>e\<close> with \<open>10^e \<le> q\<close>.\<close>

definition dec_exp :: "rat \<Rightarrow> int" where
  "dec_exp q = (case find (\<lambda>e. pow10 e \<le> q) (rev [- 46 .. 38]) of None \<Rightarrow> - 46 | Some e \<Rightarrow> e)"

definition round_half_even :: "rat \<Rightarrow> int" where
  "round_half_even q =
     (let n = \<lfloor>q\<rfloor>; r = q - rat_of_int n in
      if r < 1 / 2 then n else if 1 / 2 < r then n + 1 else if even n then n else n + 1)"

text \<open>Six significant digits and the exponent of the first.\<close>

definition six_digits :: "rat \<Rightarrow> nat \<times> int" where
  "six_digits q =
     (let e = dec_exp q; d = nat (round_half_even (q * pow10 (5 - e))) in
      if d = 1000000 then (100000, e + 1) else (d, e))"

definition strip_zeros :: "string \<Rightarrow> string" where
  "strip_zeros s = rev (dropWhile (\<lambda>c. c = digit_char 0) (rev s))"

definition zero_pad :: "nat \<Rightarrow> string \<Rightarrow> string" where
  "zero_pad k s = replicate (k - length s) (digit_char 0) @ s"

text \<open>\<open>d / 10^k\<close> with trailing zeros dropped, and the point too when nothing follows it.\<close>

definition decimal_text :: "nat \<Rightarrow> nat \<Rightarrow> string" where
  "decimal_text d k =
     (let f = strip_zeros (if k = 0 then [] else zero_pad k (nat_digits (d mod 10 ^ k))) in
      nat_digits (d div 10 ^ k) @ (if f = [] then [] else CHR ''.'' # f))"

definition exponent_text :: "int \<Rightarrow> string" where
  "exponent_text e = CHR ''e'' # (if e < 0 then CHR ''-'' else CHR ''+'') # zero_pad 2 (nat_digits (nat \<bar>e\<bar>))"

definition magnitude_text :: "rat \<Rightarrow> string" where
  "magnitude_text q =
     (if q = 0 then nat_digits 0
      else case six_digits q of (d, e) \<Rightarrow>
        if - 4 \<le> e \<and> e < 6 then decimal_text d (nat (5 - e))
        else decimal_text d 5 @ exponent_text e)"

definition float_text :: "f32 \<Rightarrow> string" where
  "float_text x =
     (if fnan x then ''nan''
      else (if fsgn x then ''-'' else []) @ (if finf x then ''inf'' else magnitude_text (magnitude x)))"

section \<open>Reading\<close>

definition is_space :: "char \<Rightarrow> bool" where
  "is_space c \<longleftrightarrow> c \<in> {CHR '' '', CHR 0x09, CHR 0x0A, CHR 0x0B, CHR 0x0C, CHR 0x0D}"

definition is_hex :: "char \<Rightarrow> bool" where
  "is_hex c \<longleftrightarrow> is_digit c \<or> 65 \<le> (of_char c :: nat) \<and> of_char c \<le> (70 :: nat)
     \<or> 97 \<le> (of_char c :: nat) \<and> of_char c \<le> (102 :: nat)"

definition hex_val :: "char \<Rightarrow> nat" where
  "hex_val c = (if is_digit c then digit_val c
     else if of_char c \<le> (70 :: nat) then of_char c - 55 else of_char c - 87)"

definition lower :: "char \<Rightarrow> char" where
  "lower c = (if 65 \<le> (of_char c :: nat) \<and> of_char c \<le> (90 :: nat) then char_of (of_char c + 32 :: nat) else c)"

definition has_prefix :: "string \<Rightarrow> string \<Rightarrow> bool" where
  "has_prefix p s \<longleftrightarrow> map lower (take (length p) s) = p"

text \<open>Digits in base \<open>b\<close>, optionally with a point, then an optional exponent of base \<open>eb\<close> after
  the letter \<open>el\<close>. At least one digit is needed; an exponent without digits is not consumed.\<close>

definition base_val :: "nat \<Rightarrow> (char \<Rightarrow> nat) \<Rightarrow> string \<Rightarrow> nat" where
  "base_val b dv s = foldl (\<lambda>v c. v * b + dv c) 0 s"

definition read_exponent :: "char \<Rightarrow> string \<Rightarrow> int" where
  "read_exponent el s =
     (case s of [] \<Rightarrow> 0
      | c # t \<Rightarrow>
          if lower c \<noteq> el then 0
          else
            let (neg, u) = (case t of [] \<Rightarrow> (False, [])
                            | d # v \<Rightarrow> if d = CHR ''-'' then (True, v)
                                       else if d = CHR ''+'' then (False, v) else (False, t));
                ds = takeWhile is_digit u in
            if neg then - int (digits_val ds) else int (digits_val ds))"

definition rat_power :: "nat \<Rightarrow> int \<Rightarrow> rat" where
  "rat_power b e = (if 0 \<le> e then of_nat b ^ nat e else 1 / of_nat b ^ nat (- e))"

definition read_magnitude_in ::
  "nat \<Rightarrow> (char \<Rightarrow> bool) \<Rightarrow> (char \<Rightarrow> nat) \<Rightarrow> nat \<Rightarrow> char \<Rightarrow> string \<Rightarrow> rat option" where
  "read_magnitude_in b isd dv eb el s =
     (let ip = takeWhile isd s; r1 = dropWhile isd s;
          point = (r1 \<noteq> [] \<and> hd r1 = CHR ''.'');
          fp = (if point then takeWhile isd (tl r1) else []);
          r2 = (if point then dropWhile isd (tl r1) else r1) in
      if ip = [] \<and> fp = [] then None
      else Some (rat_of_nat (base_val b dv (ip @ fp)) / of_nat b ^ length fp
                   * rat_power eb (read_exponent el r2)))"

definition float_of :: "bool \<Rightarrow> rat \<Rightarrow> f32" where
  "float_of neg q = fof neg ((if neg then - q else q) * rat_of_int one_units)"

text \<open>\<open>None\<close> when no conversion could be performed (\<open>parse_end == str\<close>).\<close>

definition strtof :: "string \<Rightarrow> f32 option" where
  "strtof s0 =
     (let s1 = dropWhile is_space s0;
          neg = (s1 \<noteq> [] \<and> hd s1 = CHR ''-'');
          s = (if s1 \<noteq> [] \<and> (hd s1 = CHR ''-'' \<or> hd s1 = CHR ''+'') then tl s1 else s1) in
      if has_prefix ''inf'' s then Some (fmk neg inf_idx)
      else if has_prefix ''nan'' s then Some qnan
      else if has_prefix ''0x'' s \<and>
              read_magnitude_in 16 is_hex hex_val 2 (CHR ''p'') (drop 2 s) \<noteq> None
      then map_option (float_of neg) (read_magnitude_in 16 is_hex hex_val 2 (CHR ''p'') (drop 2 s))
      else map_option (float_of neg) (read_magnitude_in 10 is_digit digit_val 10 (CHR ''e'') s))"

section \<open>Digits\<close>

lemma base_val_10: "base_val 10 digit_val s = digits_val s"
  by (simp add: base_val_def digits_val_def)

lemma digits_foldl: "foldl (\<lambda>v c. v * 10 + digit_val c) a s = a * 10 ^ length s + digits_val s"
proof (induction s arbitrary: a)
  case (Cons c s)
  have "digits_val (c # s) = digit_val c * 10 ^ length s + digits_val s"
    using Cons.IH [of "digit_val c"] by (simp add: digits_val_def)
  with Cons.IH [of "a * 10 + digit_val c"] show ?case by (simp add: algebra_simps)
qed (simp add: digits_val_def)

lemma digits_val_append: "digits_val (a @ b) = digits_val a * 10 ^ length b + digits_val b"
  using digits_foldl [of "digits_val a" b] by (simp add: digits_val_def)

lemma digits_val_zeros: "digits_val (replicate n (digit_char 0)) = 0"
proof (induction n)
  case (Suc n)
  have "digits_val [digit_char 0] = 0" by (simp add: digits_val_def digit_val_char)
  with Suc digits_val_append [of "[digit_char 0]" "replicate n (digit_char 0)"] show ?case by simp
qed (simp add: digits_val_def)

lemma strip_zeros_split: "\<exists>n. s = strip_zeros s @ replicate n (digit_char 0)"
proof -
  define t where "t = takeWhile (\<lambda>c. c = digit_char 0) (rev s)"
  have "\<forall>c \<in> set t. c = digit_char 0"
    unfolding t_def by (blast dest: set_takeWhileD)
  from replicate_length_same [OF this] have "rev t = replicate (length t) (digit_char 0)"
    using rev_replicate [of "length t" "digit_char 0"] by simp
  moreover have "s = strip_zeros s @ rev t"
    unfolding strip_zeros_def t_def rev_append [symmetric] by simp
  ultimately show ?thesis by (intro exI [of _ "length t"]) simp
qed

lemma strip_zeros_set: "set (strip_zeros s) \<subseteq> set s"
  unfolding strip_zeros_def using set_dropWhileD by fastforce

lemma strip_zeros_val:
  "rat_of_nat (digits_val (a @ strip_zeros s)) / 10 ^ length (strip_zeros s)
   = rat_of_nat (digits_val (a @ s)) / 10 ^ length s"
proof -
  obtain n where n: "s = strip_zeros s @ replicate n (digit_char 0)" using strip_zeros_split by blast
  define u where "u = strip_zeros s"
  have s: "s = u @ replicate n (digit_char 0)" using n by (simp add: u_def)
  have "digits_val (a @ s) = digits_val (a @ u) * 10 ^ n"
    unfolding s append_assoc [symmetric]
    by (simp only: digits_val_append [of "a @ u"] digits_val_zeros length_replicate)
  moreover have "length s = length u + n" by (simp add: s)
  ultimately show ?thesis unfolding u_def [symmetric] by (simp add: power_add)
qed

lemma nat_digits_length: "n < 10 ^ k \<Longrightarrow> 0 < k \<Longrightarrow> length (nat_digits n) \<le> k"
proof (induction k arbitrary: n)
  case (Suc k)
  show ?case
  proof (cases "n < 10")
    case True
    then show ?thesis by (subst nat_digits.simps) simp
  next
    case False
    then have k: "0 < k" using Suc.prems(1) by (cases k) auto
    have "n div 10 < 10 ^ k" using Suc.prems(1) by (simp add: less_mult_imp_div_less)
    from Suc.IH [OF this k] False show ?thesis by (subst nat_digits.simps) simp
  qed
qed simp

lemma zero_pad_length: "length s \<le> k \<Longrightarrow> length (zero_pad k s) = k"
  by (simp add: zero_pad_def)

lemma zero_pad_val: "digits_val (a @ zero_pad k s) = digits_val a * 10 ^ (k - length s + length s) + digits_val s"
  unfolding zero_pad_def append_assoc [symmetric] digits_val_append [of _ s]
  by (simp add: digits_val_append [of a] digits_val_zeros power_add)

lemma zero_pad_digits: "\<forall>c \<in> set s. is_digit c \<Longrightarrow> \<forall>c \<in> set (zero_pad k s). is_digit c"
  by (auto simp: zero_pad_def digit_char_digit)

lemma not_digit_chars:
  "\<not> is_digit (CHR ''.'')" "\<not> is_digit (CHR ''e'')" "\<not> is_digit (CHR ''-'')" "\<not> is_digit (CHR ''+'')"
  "\<not> is_digit newline" "\<not> is_digit (CHR '' '')" "\<not> is_digit (CHR ''='')" "\<not> is_digit (CHR '','')"
  by (simp_all add: is_digit_def newline_def)

section \<open>Reading back what was written\<close>

text \<open>The decimal a magnitude is written as.\<close>

definition decimal :: "rat \<Rightarrow> rat" where
  "decimal q = (if q = 0 then 0 else case six_digits q of (d, e) \<Rightarrow> rat_of_nat d * pow10 (e - 5))"

definition text_char :: "char \<Rightarrow> bool" where
  "text_char c \<longleftrightarrow> is_digit c \<or> c \<in> {CHR ''.'', CHR ''e'', CHR ''+'', CHR ''-''}"

lemma text_char_lower: "text_char c \<Longrightarrow> lower c \<notin> {CHR ''x'', CHR ''i'', CHR ''n''}"
proof -
  assume c: "text_char c"
  have "\<not> is_digit (CHR ''x'')" "\<not> is_digit (CHR ''i'')" "\<not> is_digit (CHR ''n'')"
    by (simp_all add: is_digit_def)
  moreover have "lower c = c" if "is_digit c" using that by (simp add: lower_def is_digit_def)
  moreover have "lower (CHR ''.'') = CHR ''.''" "lower (CHR ''e'') = CHR ''e''"
    "lower (CHR ''+'') = CHR ''+''" "lower (CHR ''-'') = CHR ''-''"
    by (simp_all add: lower_def)
  ultimately show ?thesis using c by (auto simp: text_char_def)
qed

lemma has_prefix_no:
  assumes "\<forall>c \<in> set s. text_char c" "p \<noteq> []" "\<exists>c \<in> set p. c \<in> {CHR ''x'', CHR ''i'', CHR ''n''}"
  shows "\<not> has_prefix p s"
proof
  assume h: "has_prefix p s"
  then have "set p = lower ` set (take (length p) s)"
    unfolding has_prefix_def by (metis set_map)
  also have "\<dots> \<subseteq> lower ` set s" by (intro image_mono set_take_subset)
  finally have sub: "set p \<subseteq> lower ` set s" .
  obtain c where c: "c \<in> set p" "c \<in> {CHR ''x'', CHR ''i'', CHR ''n''}" using assms(3) by blast
  from c(1) sub obtain d where d: "d \<in> set s" "c = lower d" by blast
  have "text_char d" using assms(1) d(1) by blast
  from text_char_lower [OF this] c(2) d(2) show False by simp
qed

lemma fraction_digits: "\<forall>c \<in> set (strip_zeros (if k = 0 then [] else zero_pad k (nat_digits n))). is_digit c"
  using strip_zeros_set [of "zero_pad k (nat_digits n)"] zero_pad_digits [of "nat_digits n" k]
    nat_digits_digits [of _ n]
  by (auto simp: strip_zeros_def)

lemma decimal_text_chars: "\<forall>c \<in> set (decimal_text d k). text_char c"
  using fraction_digits [of k "d mod 10 ^ k"] nat_digits_digits [of _ "d div 10 ^ k"]
  by (auto simp: decimal_text_def Let_def text_char_def)

lemma exponent_text_chars: "\<forall>c \<in> set (exponent_text e). text_char c"
  using zero_pad_digits [of "nat_digits (nat \<bar>e\<bar>)" 2] nat_digits_digits [of _ "nat \<bar>e\<bar>"]
  by (auto simp: exponent_text_def text_char_def)

lemma magnitude_text_chars: "\<forall>c \<in> set (magnitude_text q). text_char c"
proof -
  obtain d e where "six_digits q = (d, e)" by fastforce
  moreover have "\<forall>c \<in> set (nat_digits 0). text_char c"
    using nat_digits_digits by (auto simp: text_char_def)
  moreover have "\<forall>c \<in> set (decimal_text d 5 @ exponent_text e). text_char c"
    using decimal_text_chars [of d 5] exponent_text_chars [of e] by auto
  ultimately show ?thesis
    using decimal_text_chars [of d "nat (5 - e)"] by (simp add: magnitude_text_def)
qed

lemma hd_nat_digits: "\<exists>c cs. nat_digits n = c # cs \<and> is_digit c"
  using nat_digits_nonempty [of n] nat_digits_digits [of _ n] by (cases "nat_digits n") auto

lemma hd_magnitude_text: "\<exists>c cs. magnitude_text q = c # cs \<and> is_digit c"
proof (cases "q = 0")
  case True
  then show ?thesis using hd_nat_digits [of 0] by (auto simp: magnitude_text_def)
next
  case False
  obtain d e where s: "six_digits q = (d, e)" by fastforce
  have "\<exists>c cs. decimal_text d k = c # cs \<and> is_digit c" for k
    using hd_nat_digits [of "d div 10 ^ k"] by (auto simp: decimal_text_def Let_def)
  then obtain c1 s1 c2 s2 where "decimal_text d 5 = c1 # s1" "is_digit c1"
    "decimal_text d (nat (5 - e)) = c2 # s2" "is_digit c2" by blast
  with False s show ?thesis by (simp add: magnitude_text_def)
qed

lemma takeWhile_digits:
  assumes "\<forall>c \<in> set a. is_digit c" "r = [] \<or> \<not> is_digit (hd r)"
  shows "takeWhile is_digit (a @ r) = a" "dropWhile is_digit (a @ r) = r"
  using assms by (induction a) (cases r; simp)+

lemma read_decimal_text:
  assumes "r = [] \<or> hd r = CHR ''e''"
  shows "read_magnitude_in 10 is_digit digit_val 10 (CHR ''e'') (decimal_text d k @ r) =
    Some (rat_of_nat d / 10 ^ k * rat_power 10 (read_exponent (CHR ''e'') r))"
proof -
  define ip where "ip = nat_digits (d div 10 ^ k)"
  define g where "g = (if k = 0 then [] else zero_pad k (nat_digits (d mod 10 ^ k)))"
  define f where "f = strip_zeros g"
  have ip: "\<forall>c \<in> set ip. is_digit c" "ip \<noteq> []"
    using nat_digits_digits nat_digits_nonempty by (auto simp: ip_def)
  have f: "\<forall>c \<in> set f. is_digit c" unfolding f_def g_def by (rule fraction_digits)
  have r: "r = [] \<or> \<not> is_digit (hd r)" "\<not> (r \<noteq> [] \<and> hd r = CHR ''.'')"
    using assms not_digit_chars by auto
  have t: "decimal_text d k = ip @ (if f = [] then [] else CHR ''.'' # f)"
    by (simp add: decimal_text_def ip_def f_def g_def Let_def)
  have len: "length g = k"
  proof (cases "k = 0")
    case False
    then show ?thesis
      unfolding g_def using nat_digits_length [of "d mod 10 ^ k" k] by (simp add: zero_pad_length)
  qed (simp add: g_def)
  have "digits_val (ip @ g) = d"
  proof (cases "k = 0")
    case False
    then have "length (nat_digits (d mod 10 ^ k)) \<le> k" by (intro nat_digits_length) simp_all
    then show ?thesis
      using False by (simp add: g_def ip_def zero_pad_val digits_val_nat_digits) (rule div_mult_mod_eq)
  qed (simp add: g_def ip_def digits_val_nat_digits)
  then have v: "rat_of_nat (digits_val (ip @ f)) / 10 ^ length f = rat_of_nat d / 10 ^ k"
    using strip_zeros_val [of ip g] len by (simp add: f_def)
  note v' = arg_cong [OF v, of "\<lambda>z. z * rat_power 10 (read_exponent (CHR ''e'') r)"]
  show ?thesis
  proof (cases "f = []")
    case True
    then show ?thesis
      using takeWhile_digits [OF ip(1) r(1)] ip(2) r(2) v
      by (auto simp: read_magnitude_in_def t Let_def base_val_10)
  next
    case False
    have a: "takeWhile is_digit (ip @ CHR ''.'' # f @ r) = ip"
      "dropWhile is_digit (ip @ CHR ''.'' # f @ r) = CHR ''.'' # f @ r"
      by (rule takeWhile_digits [OF ip(1)], simp add: not_digit_chars)+
    show ?thesis
      using takeWhile_digits [OF f r(1)] a False v'
      by (simp add: read_magnitude_in_def t Let_def base_val_10)
  qed
qed

lemma read_exponent_text: "read_exponent (CHR ''e'') (exponent_text e) = e"
proof -
  define n where "n = nat_digits (nat \<bar>e\<bar>)"
  have n: "\<forall>c \<in> set (zero_pad 2 n). is_digit c"
    unfolding n_def by (rule zero_pad_digits) (simp add: nat_digits_digits)
  have "digits_val (zero_pad 2 n) = nat \<bar>e\<bar>"
    using zero_pad_val [of "[]" 2 n] by (simp add: n_def digits_val_nat_digits) (simp add: digits_val_def)
  moreover have "takeWhile is_digit (zero_pad 2 n) = zero_pad 2 n"
    by (rule takeWhile_eq_all_conv [THEN iffD2, OF n])
  moreover have "lower (CHR ''e'') = CHR ''e''" by (simp add: lower_def)
  ultimately show ?thesis
    by (simp add: read_exponent_def exponent_text_def n_def [symmetric] del: takeWhile_eq_all_conv)
qed

lemma rat_power_10: "rat_power 10 e = pow10 e"
  by (simp add: rat_power_def pow10_def)

lemma pow10_add: "pow10 (a + b) = pow10 a * pow10 b"
proof -
  have h: "(10 :: rat) ^ nat (a + b) = 10 ^ nat a * 10 ^ nat b" if "0 \<le> a" "0 \<le> b" for a b
    using that by (simp add: nat_add_distrib power_add)
  have m: "pow10 a = 10 ^ nat a / 10 ^ nat (- a)" for a by (simp add: pow10_def)
  have "nat (a + b) + nat (- a) + nat (- b) = nat a + nat b + nat (- (a + b))" by simp
  then have "(10 :: rat) ^ nat (a + b) * 10 ^ nat (- a) * 10 ^ nat (- b) =
      10 ^ nat a * 10 ^ nat b * 10 ^ nat (- (a + b))"
    by (simp only: power_add [symmetric])
  then show ?thesis by (simp add: m field_simps)
qed

lemma pow10_pos [simp]: "0 < pow10 e"
  by (simp add: pow10_def)

lemma read_magnitude_text:
  "read_magnitude_in 10 is_digit digit_val 10 (CHR ''e'') (magnitude_text q) = Some (decimal q)"
proof (cases "q = 0")
  case True
  have "decimal_text 0 0 = nat_digits 0" by (simp add: decimal_text_def strip_zeros_def)
  with read_decimal_text [of "[]" 0 0] True show ?thesis
    by (simp add: magnitude_text_def decimal_def)
next
  case False
  obtain d e where s: "six_digits q = (d, e)" by fastforce
  have k: "rat_of_nat d / 10 ^ k = rat_of_nat d * pow10 (- int k)" for k
    by (simp add: pow10_def)
  have r0: "rat_power 10 (read_exponent (CHR ''e'') []) = 1"
    by (simp add: read_exponent_def rat_power_def)
  show ?thesis
  proof (cases "- 4 \<le> e \<and> e < 6")
    case True
    then have e: "- int (nat (5 - e)) = e - 5" by simp
    have "magnitude_text q = decimal_text d (nat (5 - e))"
      using True False s by (simp add: magnitude_text_def)
    moreover have "rat_of_nat d / 10 ^ nat (5 - e) = decimal q"
      unfolding k e using False s by (simp add: decimal_def)
    ultimately show ?thesis
      using read_decimal_text [of "[]" d "nat (5 - e)"] r0 by simp
  next
    case sci: False
    have "rat_of_nat d / 10 ^ 5 * pow10 e = rat_of_nat d * pow10 (e - 5)"
      using pow10_add [of "- 5" e] by (simp add: pow10_def [of "- 5"])
    also have "\<dots> = decimal q" using False s by (simp add: decimal_def)
    finally have v: "rat_of_nat d / 10 ^ 5 * pow10 e = decimal q" .
    have "magnitude_text q = decimal_text d 5 @ exponent_text e"
      using sci False s by (auto simp: magnitude_text_def)
    moreover have "exponent_text e = [] \<or> hd (exponent_text e) = CHR ''e''"
      by (simp add: exponent_text_def)
    ultimately show ?thesis
      using read_decimal_text [of "exponent_text e" d 5] v
      by (simp only: read_exponent_text rat_power_10 HOL.simp_thms)
  qed
qed

text \<open>Reading what was written gives the float nearest to the six-digit decimal, with the sign
  kept; infinities come back as they were and a NaN as a NaN.\<close>

lemma strtof_float_text:
  "strtof (float_text x) =
     Some (if fnan x then qnan else if finf x then fmk (fsgn x) inf_idx
           else float_of (fsgn x) (decimal (magnitude x)))"
proof -
  have d: "\<not> is_space c" if "is_digit c" for c
    using that by (auto simp: is_space_def is_digit_def)
  have sp: "\<not> is_space (CHR ''n'')" "\<not> is_space (CHR ''i'')" "\<not> is_space (CHR ''-'')"
    by (simp_all add: is_space_def)
  consider "fnan x" | "\<not> fnan x" "finf x" | "\<not> fnan x" "\<not> finf x" by blast
  then show ?thesis
  proof cases
    case 1
    then show ?thesis by (simp add: strtof_def float_text_def sp has_prefix_def lower_def)
  next
    case 2
    then show ?thesis
      by (cases "fsgn x") (simp_all add: strtof_def float_text_def sp has_prefix_def lower_def)
  next
    case 3
    define m where "m = magnitude_text (magnitude x)"
    obtain c cs where m: "m = c # cs" "is_digit c" using hd_magnitude_text unfolding m_def by blast
    have p: "\<not> has_prefix ''inf'' m" "\<not> has_prefix ''nan'' m" "\<not> has_prefix ''0x'' m"
      unfolding m_def by (rule has_prefix_no [OF magnitude_text_chars], simp, simp)+
    have c: "c \<noteq> CHR ''-''" "c \<noteq> CHR ''+''" using m(2) not_digit_chars by auto
    have r: "read_magnitude_in 10 is_digit digit_val 10 (CHR ''e'') m = Some (decimal (magnitude x))"
      unfolding m_def by (rule read_magnitude_text)
    show ?thesis
    proof (cases "fsgn x")
      case True
      with 3 have "float_text x = CHR ''-'' # m" by (simp add: float_text_def m_def)
      with 3 True p r sp show ?thesis by (simp add: strtof_def Let_def)
    next
      case False
      with 3 have "float_text x = m" by (simp add: float_text_def m_def)
      moreover have "dropWhile is_space m = m" using m d by simp
      ultimately show ?thesis using 3 False p r c m by (simp add: strtof_def Let_def)
    qed
  qed
qed

lemma float_text_chars:
  "c \<in> set (float_text x) \<Longrightarrow> c \<noteq> newline \<and> c \<noteq> CHR ''=''"
  using magnitude_text_chars [of "magnitude x"] not_digit_chars
  by (auto simp: float_text_def text_char_def newline_def split: if_splits)

section \<open>How far the decimal is from the value\<close>

lemma pow10_mono: "a \<le> b \<Longrightarrow> pow10 a \<le> pow10 b"
proof -
  assume "a \<le> b"
  then have "pow10 b = pow10 a * 10 ^ nat (b - a)"
    using pow10_add [of a "b - a"] by (simp add: pow10_def [of "b - a"])
  then show ?thesis by simp
qed

lemma rev_upto_nth: "j < nat (b - a + 1) \<Longrightarrow> rev [a .. b] ! j = b - int j"
  by (simp add: rev_nth nth_upto)

lemma dec_exp_bracket:
  assumes "pow10 (- 46) \<le> q" "q < pow10 39"
  shows "pow10 (dec_exp q) \<le> q \<and> q < pow10 (dec_exp q + 1) \<and> - 46 \<le> dec_exp q \<and> dec_exp q \<le> 38"
proof -
  define lo :: int where "lo = - 46"
  define xs where "xs = rev [lo .. 38]"
  have len: "length xs = 85" by (simp add: xs_def lo_def)
  have nth: "xs ! j = 38 - int j" if "j < 85" for j
    unfolding xs_def by (rule rev_upto_nth) (use that in \<open>simp add: lo_def\<close>)
  have "lo \<in> set xs" by (simp add: xs_def lo_def)
  then have "find (\<lambda>e. pow10 e \<le> q) xs \<noteq> None"
    using assms(1) unfolding find_None_iff lo_def by blast
  then obtain e where f: "find (\<lambda>e. pow10 e \<le> q) xs = Some e" by blast
  then obtain i where i: "i < 85" "pow10 e \<le> q" "e = xs ! i" "\<forall>j < i. \<not> pow10 (xs ! j) \<le> q"
    by (auto simp: find_Some_iff len)
  have e: "e = 38 - int i" using i nth by simp
  have "q < pow10 (e + 1)"
  proof (cases i)
    case 0
    then show ?thesis using e assms(2) by simp
  next
    case (Suc j)
    then have "\<not> pow10 (xs ! j) \<le> q" using i(4) by simp
    moreover have "xs ! j = e + 1" using nth [of j] i(1) Suc e by simp
    ultimately show ?thesis by simp
  qed
  moreover have "dec_exp q = e"
    unfolding dec_exp_def lo_def [symmetric] xs_def [symmetric] f by simp
  ultimately show ?thesis using i(1,2) e by simp
qed

lemma round_half_even_near: "\<bar>rat_of_int (round_half_even q) - q\<bar> \<le> 1 / 2"
proof -
  have f: "rat_of_int \<lfloor>q\<rfloor> \<le> q" "q < rat_of_int \<lfloor>q\<rfloor> + 1" by linarith+
  then show ?thesis
    by (simp add: round_half_even_def Let_def)
qed

lemma round_half_even_int: "round_half_even (rat_of_int n) = n"
  by (simp add: round_half_even_def)

lemma decimal_near:
  assumes "pow10 (- 46) \<le> q" "q < pow10 39"
  shows "\<bar>decimal q - q\<bar> \<le> pow10 (dec_exp q - 5) / 2"
proof -
  define e where "e = dec_exp q"
  have b: "pow10 e \<le> q" "q < pow10 (e + 1)" using dec_exp_bracket [OF assms] by (simp_all add: e_def)
  define z where "z = q * pow10 (5 - e)"
  have u: "pow10 (5 - e) * pow10 (e - 5) = 1" by (simp add: pow10_add [symmetric]) (simp add: pow10_def)
  have zq: "z * pow10 (e - 5) = q" using u by (simp add: z_def mult.assoc)
  have q0: "0 < q" using b(1) pow10_pos [of e] by linarith
  then have z0: "0 \<le> z" by (simp add: z_def less_imp_le)
  define r where "r = round_half_even z"
  have near: "\<bar>rat_of_int r - z\<bar> \<le> 1 / 2" unfolding r_def by (rule round_half_even_near)
  then have r0: "0 \<le> r" using z0 by linarith
  have "rat_of_int r * pow10 (e - 5) - q = (rat_of_int r - z) * pow10 (e - 5)"
    unfolding left_diff_distrib zq ..
  then have "\<bar>rat_of_int r * pow10 (e - 5) - q\<bar> = \<bar>rat_of_int r - z\<bar> * pow10 (e - 5)"
    using abs_of_pos [OF pow10_pos [of "e - 5"]] by (simp only: abs_mult)
  also have "\<dots> \<le> 1 / 2 * pow10 (e - 5)" using near by (intro mult_right_mono) (simp_all add: less_imp_le)
  finally have n: "\<bar>rat_of_int r * pow10 (e - 5) - q\<bar> \<le> pow10 (e - 5) / 2" by simp
  have "decimal q = rat_of_int r * pow10 (e - 5)"
  proof (cases "nat r = 1000000")
    case True
    then have "r = 1000000" by simp
    moreover have "pow10 (e + 1 - 5) = 10 * pow10 (e - 5)"
      using pow10_add [of 1 "e - 5"] by (simp add: pow10_def [of 1])
    ultimately show ?thesis
      using q0 by (simp add: decimal_def six_digits_def Let_def e_def [symmetric] z_def [symmetric]
          r_def [symmetric])
  next
    case False
    then show ?thesis
      using q0 r0 by (simp add: decimal_def six_digits_def Let_def e_def [symmetric] z_def [symmetric]
          r_def [symmetric])
  qed
  with n show ?thesis by (simp add: e_def)
qed

lemma decimal_int:
  assumes "n < 1000000"
  shows "decimal (rat_of_nat n) = rat_of_nat n"
proof (cases "n = 0")
  case False
  define q where "q = rat_of_nat n"
  have q: "1 \<le> q" "q < 1000000" using False assms by (simp_all add: q_def)
  have "pow10 (- 46) \<le> pow10 0" "pow10 6 \<le> pow10 39" by (rule pow10_mono, simp)+
  then have rng: "pow10 (- 46) \<le> q" "q < pow10 39"
    using q by (simp_all add: pow10_def [of 0] pow10_def [of 6])
  define e where "e = dec_exp q"
  have b: "pow10 e \<le> q" "q < pow10 (e + 1)" using dec_exp_bracket [OF rng] by (simp_all add: e_def)
  have "0 \<le> e"
  proof (rule ccontr)
    assume "\<not> 0 \<le> e"
    then have "pow10 (e + 1) \<le> pow10 0" by (intro pow10_mono) simp
    with b(2) q(1) show False by (simp add: pow10_def [of 0])
  qed
  have "e \<le> 5"
  proof (rule ccontr)
    assume "\<not> e \<le> 5"
    then have "pow10 6 \<le> pow10 e" by (intro pow10_mono) simp
    with b(1) q(2) show False by (simp add: pow10_def [of 6])
  qed
  have p: "pow10 (5 - e) = 10 ^ nat (5 - e)" using \<open>e \<le> 5\<close> by (simp add: pow10_def)
  define d where "d = n * 10 ^ nat (5 - e)"
  have z: "q * pow10 (5 - e) = rat_of_int (int d)" by (simp add: q_def p d_def)
  have "rat_of_nat d < 1000000"
  proof -
    have "q * pow10 (5 - e) < pow10 (e + 1) * pow10 (5 - e)" using b(2) by simp
    also have "\<dots> = 1000000" by (simp add: pow10_add [symmetric]) (simp add: pow10_def)
    finally show ?thesis by (simp add: z)
  qed
  then have d: "d \<noteq> 1000000" by auto
  have "decimal q = rat_of_nat d * pow10 (e - 5)"
    using q d by (simp add: decimal_def six_digits_def Let_def e_def [symmetric] z round_half_even_int
        del: of_int_of_nat_eq)
  also have "\<dots> = q * (pow10 (5 - e) * pow10 (e - 5))" using z by simp
  also have "pow10 (5 - e) * pow10 (e - 5) = 1"
    by (simp add: pow10_add [symmetric]) (simp add: pow10_def)
  finally show ?thesis by (simp add: q_def)
qed (simp add: decimal_def)

lemma magnitude_range:
  assumes "ffin x" "magnitude x \<noteq> 0"
  shows "pow10 (- 46) \<le> magnitude x \<and> magnitude x < pow10 39"
proof -
  have "fmag (fidx x) < fmag inf_idx" using assms(1) unfolding fmag_less_iff by (simp add: ffin_def)
  then have "int (fmag (fidx x)) < int (2 ^ 277)" unfolding fmag_inf of_nat_less_iff .
  then have "int (fmag (fidx x)) < 2 ^ 277" by simp
  then have "\<bar>sval x\<bar> < 2 ^ 277" by (simp add: sval_def)
  moreover have "1 \<le> \<bar>sval x\<bar>" using assms(2) by (cases "sval x = 0") (simp_all add: magnitude_def)
  ultimately have "rat_of_int 1 \<le> rat_of_int \<bar>sval x\<bar>" "rat_of_int \<bar>sval x\<bar> < rat_of_int (2 ^ 277)"
    by (simp_all only: of_int_le_iff of_int_less_iff)
  then have "1 / 2 ^ 149 \<le> magnitude x" "magnitude x < 2 ^ 277 / 2 ^ 149"
    by (simp_all add: magnitude_def one_units_def divide_le_cancel divide_less_cancel)
  moreover have "pow10 (- 46) \<le> 1 / 2 ^ 149" "2 ^ 277 / 2 ^ 149 \<le> pow10 39"
    by (simp_all add: pow10_def)
  ultimately show ?thesis by linarith
qed

lemma magnitude_of_int: "n < 16777216 \<Longrightarrow> magnitude (f32_of_int (int n)) = rat_of_nat n"
  by (simp add: magnitude_def sval_f32_of_int one_units_def)

lemma fsgn_of_int: "\<not> fsgn (f32_of_int (int n))"
proof -
  have "\<not> rat_of_int (int n * one_units) < 0" by (simp add: one_units_def)
  then show ?thesis
    unfolding f32_of_int_def fof_def by (simp add: fround_lt)
qed

lemma float_text_int:
  assumes "n < 1000000"
  shows "strtof (float_text (f32_of_int (int n))) = Some (f32_of_int (int n))"
proof -
  have f: "ffin (f32_of_int (int n))" using assms by (intro ffin_f32_of_int) simp
  then have "\<not> fnan (f32_of_int (int n))" "\<not> finf (f32_of_int (int n))"
    by (simp_all add: ffin_def fnan_def finf_def)
  moreover have "float_of False (rat_of_nat n) = f32_of_int (int n)"
    by (simp add: float_of_def f32_of_int_def)
  ultimately show ?thesis
    using assms by (simp add: strtof_float_text magnitude_of_int fsgn_of_int decimal_int)
qed

section \<open>Properties\<close>

text \<open>Writing a float and reading it back: the value read is the float nearest to a decimal
  that is within one part in 200000 of the float written, with the same sign.\<close>

theorem text_keeps_six_digits:
  assumes "ffin x"
  shows "\<exists>d. strtof (float_text x) = Some (float_of (fsgn x) d) \<and>
    \<bar>d - magnitude x\<bar> \<le> magnitude x / 200000"
proof (intro exI conjI)
  show "strtof (float_text x) = Some (float_of (fsgn x) (decimal (magnitude x)))"
    using assms by (simp add: strtof_float_text ffin_def fnan_def finf_def)
  show "\<bar>decimal (magnitude x) - magnitude x\<bar> \<le> magnitude x / 200000"
  proof (cases "magnitude x = 0")
    case False
    note r = magnitude_range [OF assms False]
    define e where "e = dec_exp (magnitude x)"
    have "pow10 e \<le> magnitude x" using dec_exp_bracket r by (simp add: e_def)
    moreover have "pow10 (e - 5) / 2 = pow10 e / 200000"
      using pow10_add [of e "- 5"] by (simp add: pow10_def [of "- 5"])
    ultimately show ?thesis using decimal_near r by (force simp: e_def [symmetric])
  qed (simp add: decimal_def)
qed

theorem text_keeps_six_digits_witness:
  "\<exists>d. strtof (float_text f_0_02) = Some (float_of (fsgn f_0_02) d) \<and>
     \<bar>d - magnitude f_0_02\<bar> \<le> magnitude f_0_02 / 200000"
proof (rule text_keeps_six_digits)
  show "ffin f_0_02" by (simp add: f32_class_eval f32_literal_defs)
qed

text \<open>Whole numbers below a million survive the text exactly.\<close>

theorem text_keeps_integers:
  assumes "n < 1000000"
  shows "strtof (float_text (f32_of_int (int n))) = Some (f32_of_int (int n))"
  using assms by (rule float_text_int)

theorem text_keeps_integers_witness:
  "strtof (float_text (f32_of_int (int 1500))) = Some (f32_of_int (int 1500))"
  by (rule text_keeps_integers) simp

end
