(* ===== verification/Persistence.thy ===== *)
theory Persistence
  imports Calibration_Facts Float_Text
begin

text \<open>
  The two settings files of \<open>omega_calibration.hpp\<close>: what \<open>save\<close> writes, what \<open>load\<close> makes of
  a text, the schema check, and \<open>clear\<close>. A file system is a map from paths to contents; the
  outcome of each attempt to open, write or remove a file is a parameter.
\<close>

section \<open>Files\<close>

type_synonym files = "string \<Rightarrow> string option"

text \<open>How writing a file goes: all of it, not opened, or opened (and truncated) with only some of
  the text reaching it.\<close>

datatype write_outcome = Written | Not_opened | Broken string

definition write_file :: "write_outcome \<Rightarrow> string \<Rightarrow> string \<Rightarrow> files \<Rightarrow> cal_error option \<times> files" where
  "write_file wo path text fs =
     (case wo of Written \<Rightarrow> (None, fs(path \<mapsto> text))
      | Not_opened \<Rightarrow> (Some File_open_failed, fs)
      | Broken part \<Rightarrow> (Some File_write_failed, fs(path \<mapsto> part)))"

section \<open>Lines of the form key=value\<close>

definition kv_line :: "string \<times> string \<Rightarrow> string" where
  "kv_line = (\<lambda>(k, t). k @ ''='' @ t)"

fun parse_lines :: "string list \<Rightarrow> (string \<Rightarrow> f32 option) \<Rightarrow> cal_error + (string \<Rightarrow> f32 option)" where
  "parse_lines [] m = Inr m"
| "parse_lines (l # ls) m =
     (case split_at (CHR ''='') l of
        None \<Rightarrow> parse_lines ls m
      | Some (k, v) \<Rightarrow>
          (case strtof v of None \<Rightarrow> Inl File_parse_failed | Some x \<Rightarrow> parse_lines ls (m(k \<mapsto> x))))"

text \<open>\<open>None\<close> stands for a file that cannot be opened.\<close>

definition parse_file :: "string option \<Rightarrow> cal_error + (string \<Rightarrow> f32 option)" where
  "parse_file content =
     (case content of None \<Rightarrow> Inl File_open_failed
      | Some text \<Rightarrow> parse_lines (getlines text) Map.empty)"

definition SCHEMA_VERSION :: nat where "SCHEMA_VERSION = 1"

definition check_schema :: "(string \<Rightarrow> f32 option) \<Rightarrow> cal_error option" where
  "check_schema vals =
     (case vals ''schema'' of None \<Rightarrow> None
      | Some v \<Rightarrow>
          if \<not> ffin v \<or> flt v f_1 \<or> \<not> f_integral v then Some File_parse_failed
          else if flt (f32_of_int (int SCHEMA_VERSION)) v then Some Unsupported_schema
          else None)"

definition value_or :: "(string \<Rightarrow> f32 option) \<Rightarrow> string \<Rightarrow> f32 \<Rightarrow> f32" where
  "value_or vals k d = (case vals k of None \<Rightarrow> d | Some v \<Rightarrow> v)"

section \<open>Device settings\<close>

definition mode_of_code :: "u8 \<Rightarrow> input_mode" where
  "mode_of_code n = (if n = 0 then MOUSE else if n = 1 then XAC else OTHER_MODE n)"

definition code_of_mode :: "input_mode \<Rightarrow> u8" where
  "code_of_mode m = (case m of MOUSE \<Rightarrow> 0 | XAC \<Rightarrow> 1 | OTHER_MODE n \<Rightarrow> n)"

definition settings_entries :: "device_settings \<Rightarrow> (string \<times> string) list" where
  "settings_entries s =
     [(''schema'', nat_digits SCHEMA_VERSION)]
     @ (case manual_center_deadzone s of None \<Rightarrow> []
        | Some v \<Rightarrow> [(''manual_center_deadzone'', float_text v)])
     @ (case manual_range_deadzone s of None \<Rightarrow> []
        | Some v \<Rightarrow> [(''manual_range_deadzone'', float_text v)])
     @ [(''nudge_distance_threshold'', float_text (nudge_distance_threshold s)),
        (''nudge_exit_threshold'', float_text (nudge_exit_threshold s)),
        (''nudge_hold_time_ms'', float_text (f32_of_int (nudge_hold_time s))),
        (''nudge_enabled'', if nudge_enabled s then ''1'' else ''0''),
        (''input_mode'', float_text (f32_of_int (int (unat (code_of_mode (input_mode s))))))]"

definition settings_text :: "device_settings \<Rightarrow> string" where
  "settings_text s = unlines (map kv_line (settings_entries s))"

definition save_settings ::
  "write_outcome \<Rightarrow> device_settings \<Rightarrow> string \<Rightarrow> files \<Rightarrow> cal_error option \<times> files" where
  "save_settings wo s path fs = write_file wo path (settings_text s) fs"

text \<open>\<open>static_cast<long long>\<close> and \<open>static_cast<uint8_t>\<close> of a value out of range are undefined.\<close>

definition hold_time_of :: "f32 option \<Rightarrow> millis option" where
  "hold_time_of v = (case v of None \<Rightarrow> Some 100
     | Some x \<Rightarrow> f32_to_int (- (2 ^ 63)) (2 ^ 63 - 1) x)"

definition mode_of_value :: "f32 option \<Rightarrow> input_mode option" where
  "mode_of_value v = (case v of None \<Rightarrow> Some MOUSE
     | Some x \<Rightarrow> map_option (\<lambda>n. mode_of_code (word_of_int n)) (f32_to_int 0 255 x))"

definition settings_of_values ::
  "(string \<Rightarrow> f32 option) \<Rightarrow> cal_error abort + device_settings" where
  "settings_of_values vals =
     (case (hold_time_of (vals ''nudge_hold_time_ms''), mode_of_value (vals ''input_mode'')) of
        (Some hold, Some mode) \<Rightarrow>
          Inr \<lparr>manual_center_deadzone = vals ''manual_center_deadzone'',
               manual_range_deadzone = vals ''manual_range_deadzone'',
               nudge_distance_threshold = value_or vals ''nudge_distance_threshold'' f_0_5,
               nudge_exit_threshold = value_or vals ''nudge_exit_threshold'' f_0_8,
               nudge_hold_time = hold,
               nudge_enabled = (case vals ''nudge_enabled'' of None \<Rightarrow> True | Some v \<Rightarrow> \<not> feq v f_0),
               input_mode = mode\<rparr>
      | _ \<Rightarrow> Inl Undefined_behaviour)"

definition load_settings :: "string option \<Rightarrow> cal_error abort + device_settings" where
  "load_settings content =
     (case parse_file content of Inl e \<Rightarrow> Inl (Reported e)
      | Inr vals \<Rightarrow>
          (case check_schema vals of Some e \<Rightarrow> Inl (Reported e)
           | None \<Rightarrow> settings_of_values vals))"

section \<open>Calibration\<close>

definition calibration_entries :: "center_result \<Rightarrow> range_result \<Rightarrow> (string \<times> string) list" where
  "calibration_entries c r =
     [(''schema'', nat_digits SCHEMA_VERSION),
      (''center_x'', float_text (center_x c)), (''center_y'', float_text (center_y c)),
      (''center_noise_radius'', float_text (noise_radius c)),
      (''center_deadzone'', float_text (center_deadzone c)),
      (''center_manual_offset_x'', float_text (manual_offset_x c)),
      (''center_manual_offset_y'', float_text (manual_offset_y c)),
      (''range_min_x'', float_text (min_x r)), (''range_max_x'', float_text (max_x r)),
      (''range_min_y'', float_text (min_y r)), (''range_max_y'', float_text (max_y r)),
      (''range_usable_radius'', float_text (usable_radius r)),
      (''range_reliable_max_radius'', float_text (reliable_max_radius r)),
      (''range_normalized_max_radius'', float_text (normalized_max_radius r)),
      (''range_deadzone'', float_text (range_deadzone r))]"

definition calibration_text :: "center_result \<Rightarrow> range_result \<Rightarrow> string" where
  "calibration_text c r = unlines (map kv_line (calibration_entries c r))"

definition save_calibration_file ::
  "write_outcome \<Rightarrow> center_result \<Rightarrow> range_result \<Rightarrow> string \<Rightarrow> files \<Rightarrow> cal_error option \<times> files" where
  "save_calibration_file wo c r path fs = write_file wo path (calibration_text c r) fs"

definition required_keys :: "string list" where
  "required_keys = [''center_x'', ''center_y'', ''center_deadzone'', ''range_min_x'',
     ''range_max_x'', ''range_min_y'', ''range_max_y'', ''range_deadzone'']"

text \<open>The result: no error or the error, and what \<open>center\<close> and \<open>range\<close> hold afterwards.\<close>

definition calibration_of_values ::
  "(string \<Rightarrow> f32 option) \<Rightarrow> center_result \<times> range_result" where
  "calibration_of_values vals =
     (let v = value_or vals;
          lx = v ''range_min_x'' f_0; hx = v ''range_max_x'' f_0;
          ly = v ''range_min_y'' f_0; hy = v ''range_max_y'' f_0 in
      (\<lparr>center_x = v ''center_x'' f_0, center_y = v ''center_y'' f_0,
        noise_radius = v ''center_noise_radius'' f_0, center_deadzone = v ''center_deadzone'' f_0,
        manual_offset_x = v ''center_manual_offset_x'' f_0,
        manual_offset_y = v ''center_manual_offset_y'' f_0\<rparr>,
       \<lparr>min_x = lx, max_x = hx, min_y = ly, max_y = hy,
        usable_radius = v ''range_usable_radius'' (fmin4 (fabs lx) (fabs hx) (fabs ly) (fabs hy)),
        reliable_max_radius = v ''range_reliable_max_radius'' f_0,
        normalized_max_radius = v ''range_normalized_max_radius'' f_0,
        range_deadzone = v ''range_deadzone'' f_0, sector_max_radius = []\<rparr>))"

definition load_calibration ::
  "string option \<Rightarrow> center_result \<Rightarrow> range_result \<Rightarrow> cal_error option \<times> center_result \<times> range_result" where
  "load_calibration content c r =
     (case parse_file content of Inl e \<Rightarrow> (Some e, c, r)
      | Inr vals \<Rightarrow>
          (case check_schema vals of Some e \<Rightarrow> (Some e, c, r)
           | None \<Rightarrow>
               if list_ex (\<lambda>k. vals k = None) required_keys then (Some File_missing_field, c, r)
               else
                 (case calibration_of_values vals of (c', r') \<Rightarrow>
                    (if check_usable c' r' LOAD_RATIO_TOLERANCE then None
                     else Some Calibration_unusable, c', r'))))"

text \<open>\<open>clear\<close>: \<open>removed\<close> is what \<open>FileSystem::remove\<close> reports, \<open>Inl\<close> an error code that may be
  absent.\<close>

definition clear_calibration ::
  "(cal_error option + unit) \<Rightarrow> string \<Rightarrow> files \<Rightarrow> cal_error option \<times> files" where
  "clear_calibration removed path fs =
     (if fs path = None then (None, fs)
      else case removed of
        Inr _ \<Rightarrow> (None, fs(path := None))
      | Inl (Some e) \<Rightarrow> (Some e, fs)
      | Inl None \<Rightarrow> (Some File_write_failed, fs))"

section \<open>Parsing what was printed\<close>

lemma parse_kv:
  assumes "\<forall>(k, t) \<in> set es. CHR ''='' \<notin> set k \<and> strtof t \<noteq> None"
  shows "parse_lines (map kv_line es) m = Inr (m ++ map_of (rev (map (\<lambda>(k, t). (k, the (strtof t))) es)))"
  using assms
proof (induction es arbitrary: m)
  case (Cons e es)
  obtain k t where e: "e = (k, t)" by (cases e)
  then obtain x where x: "strtof t = Some x" using Cons.prems by auto
  have "split_at (CHR ''='') (kv_line e) = Some (k, t)"
    using Cons.prems by (simp add: e kv_line_def split_at_append)
  with Cons x e show ?case by (simp add: map_add_assoc [symmetric])
qed simp

lemma parse_written:
  assumes "\<forall>(k, t) \<in> set es. CHR ''='' \<notin> set k \<and> newline \<notin> set k \<and> newline \<notin> set t \<and> strtof t \<noteq> None"
  shows "parse_file (Some (unlines (map kv_line es)))
    = Inr (map_of (rev (map (\<lambda>(k, t). (k, the (strtof t))) es)))"
proof -
  have "\<forall>l \<in> set (map kv_line es). newline \<notin> set l"
    using assms by (auto simp: kv_line_def newline_def)
  then have "getlines (unlines (map kv_line es)) = map kv_line es" by (rule getlines_unlines)
  moreover have "parse_lines (map kv_line es) Map.empty =
      Inr (Map.empty ++ map_of (rev (map (\<lambda>(k, t). (k, the (strtof t))) es)))"
    by (rule parse_kv) (use assms in blast)
  ultimately show ?thesis by (simp add: parse_file_def)
qed

text \<open>A float after one trip through the text.\<close>

definition requantize :: "f32 \<Rightarrow> f32" where
  "requantize x = the (strtof (float_text x))"

lemma strtof_text: "strtof (float_text x) = Some (requantize x)"
  by (simp add: requantize_def strtof_float_text)

lemma float_text_no_newline: "newline \<notin> set (float_text x)"
  using float_text_chars by blast

lemma nat_digits_1: "nat_digits SCHEMA_VERSION = ''1''"
proof -
  have "char_of (49 :: nat) = CHR ''1''" by code_simp
  then show ?thesis by (simp add: nat_digits.simps SCHEMA_VERSION_def digit_char_def)
qed

lemma strtof_digit: "strtof ''1'' = Some f_1" "strtof ''0'' = Some f_0"
proof -
  have "fof False (rat_of_int one_units) = f_1" "fof False 0 = f_0"
    by (simp_all add: f32_round_eval f32_literal_defs)
  then show "strtof ''1'' = Some f_1" "strtof ''0'' = Some f_0"
    by (simp_all add: strtof_def has_prefix_def lower_def is_space_def read_magnitude_in_def is_digit_def
        base_val_def digit_val_def read_exponent_def rat_power_def float_of_def Let_def)
qed

text \<open>What a settings record becomes after one trip through its file.\<close>

definition requantize_settings :: "device_settings \<Rightarrow> device_settings" where
  "requantize_settings s =
     s\<lparr>manual_center_deadzone := map_option requantize (manual_center_deadzone s),
       manual_range_deadzone := map_option requantize (manual_range_deadzone s),
       nudge_distance_threshold := requantize (nudge_distance_threshold s),
       nudge_exit_threshold := requantize (nudge_exit_threshold s)\<rparr>"

definition requantize_calibration ::
  "center_result \<Rightarrow> range_result \<Rightarrow> center_result \<times> range_result" where
  "requantize_calibration c r =
     (\<lparr>center_x = requantize (center_x c), center_y = requantize (center_y c),
       noise_radius = requantize (noise_radius c), center_deadzone = requantize (center_deadzone c),
       manual_offset_x = requantize (manual_offset_x c),
       manual_offset_y = requantize (manual_offset_y c)\<rparr>,
      \<lparr>min_x = requantize (min_x r), max_x = requantize (max_x r), min_y = requantize (min_y r),
       max_y = requantize (max_y r), usable_radius = requantize (usable_radius r),
       reliable_max_radius = requantize (reliable_max_radius r),
       normalized_max_radius = requantize (normalized_max_radius r),
       range_deadzone = requantize (range_deadzone r), sector_max_radius = []\<rparr>)"

lemma settings_values:
  "\<exists>vals. parse_file (Some (settings_text s)) = Inr vals \<and>
     vals ''schema'' = Some f_1 \<and>
     vals ''manual_center_deadzone'' = map_option requantize (manual_center_deadzone s) \<and>
     vals ''manual_range_deadzone'' = map_option requantize (manual_range_deadzone s) \<and>
     vals ''nudge_distance_threshold'' = Some (requantize (nudge_distance_threshold s)) \<and>
     vals ''nudge_exit_threshold'' = Some (requantize (nudge_exit_threshold s)) \<and>
     vals ''nudge_hold_time_ms'' = Some (requantize (f32_of_int (nudge_hold_time s))) \<and>
     vals ''nudge_enabled'' = Some (if nudge_enabled s then f_1 else f_0) \<and>
     vals ''input_mode'' = Some (requantize (f32_of_int (int (unat (code_of_mode (input_mode s))))))"
proof -
  have "\<forall>(k, t) \<in> set (settings_entries s).
      CHR ''='' \<notin> set k \<and> newline \<notin> set k \<and> newline \<notin> set t \<and> strtof t \<noteq> None"
    unfolding settings_entries_def
    by (cases "manual_center_deadzone s"; cases "manual_range_deadzone s")
      (simp_all add: nat_digits_1 strtof_digit strtof_text float_text_no_newline newline_def [symmetric],
       simp_all add: newline_def)
  note p = parse_written [OF this]
  show ?thesis
    unfolding settings_text_def p
    by (cases "manual_center_deadzone s"; cases "manual_range_deadzone s")
      (simp_all add: settings_entries_def nat_digits_1 strtof_digit strtof_text)
qed

lemma calibration_values:
  "\<exists>vals. parse_file (Some (calibration_text c r)) = Inr vals \<and>
     vals ''schema'' = Some f_1 \<and> \<not> list_ex (\<lambda>k. vals k = None) required_keys \<and>
     calibration_of_values vals = requantize_calibration c r"
proof -
  have "\<forall>(k, t) \<in> set (calibration_entries c r).
      CHR ''='' \<notin> set k \<and> newline \<notin> set k \<and> newline \<notin> set t \<and> strtof t \<noteq> None"
    unfolding calibration_entries_def
    by (simp add: nat_digits_1 strtof_digit strtof_text float_text_no_newline newline_def [symmetric])
      (simp add: newline_def)
  note p = parse_written [OF this]
  show ?thesis
    unfolding calibration_text_def p
    by (simp add: calibration_entries_def nat_digits_1 strtof_digit strtof_text required_keys_def
        calibration_of_values_def requantize_calibration_def value_or_def Let_def)
qed

lemma schema_1: "vals ''schema'' = Some f_1 \<Longrightarrow> check_schema vals = None"
proof -
  have "f32_of_int (int SCHEMA_VERSION) = f_1"
    by (simp add: SCHEMA_VERSION_def f32_of_int_def f32_round_eval f32_literal_defs)
  moreover have "f_integral f_1" by (simp add: f_integral_def sval_literals)
  ultimately show "vals ''schema'' = Some f_1 \<Longrightarrow> check_schema vals = None"
    by (simp add: check_schema_def ffin_literals flt_def)
qed

lemma requantize_int: "n < 1000000 \<Longrightarrow> requantize (f32_of_int (int n)) = f32_of_int (int n)"
  by (simp add: requantize_def float_text_int)

lemma hold_time_int:
  assumes "0 \<le> n" "n < 1000000"
  shows "hold_time_of (Some (requantize (f32_of_int n))) = Some n"
proof -
  obtain m where m: "n = int m" "m < 1000000" using assms by (metis nat_less_iff nat_int zero_le_imp_eq_int of_nat_less_iff of_nat_numeral)
  then have "ffin (f32_of_int n)" "sval (f32_of_int n) = int m * one_units"
    by (simp_all add: ffin_f32_of_int sval_f32_of_int)
  with m show ?thesis
    by (simp add: hold_time_of_def requantize_int f32_to_int_def tdiv_nonneg one_units_def)
qed

lemma mode_value:
  assumes "m = MOUSE \<or> m = XAC"
  shows "mode_of_value (Some (requantize (f32_of_int (int (unat (code_of_mode m)))))) = Some m"
proof -
  define n where "n = unat (code_of_mode m)"
  have n: "n = (if m = MOUSE then 0 else 1)" using assms by (auto simp: n_def code_of_mode_def)
  then have "ffin (f32_of_int (int n))" "sval (f32_of_int (int n)) = int n * one_units"
    "requantize (f32_of_int (int n)) = f32_of_int (int n)"
    by (simp_all add: ffin_f32_of_int sval_f32_of_int requantize_int)
  with n assms show ?thesis
    unfolding n_def [symmetric]
    by (auto simp: mode_of_value_def f32_to_int_def tdiv_nonneg one_units_def mode_of_code_def
        tdiv_def)
qed

section \<open>Properties\<close>

text \<open>Settings round trip: what \<open>save\<close> writes, \<open>load\<close> reads back without error; the hold time,
  the switch, the mode and which overrides are set come back unchanged, and each float as its
  six-digit value.\<close>

theorem settings_round_trip:
  assumes "0 \<le> nudge_hold_time s" "nudge_hold_time s < 1000000"
    "input_mode s = MOUSE \<or> input_mode s = XAC"
    "save_settings wo s path fs = (None, fs')"
  shows "load_settings (fs' path) = Inr (requantize_settings s)"
proof -
  have f: "fs' path = Some (settings_text s)"
    using assms(4) by (auto simp: save_settings_def write_file_def split: write_outcome.splits)
  obtain vals where v: "parse_file (Some (settings_text s)) = Inr vals"
     "vals ''schema'' = Some f_1"
     "vals ''manual_center_deadzone'' = map_option requantize (manual_center_deadzone s)"
     "vals ''manual_range_deadzone'' = map_option requantize (manual_range_deadzone s)"
     "vals ''nudge_distance_threshold'' = Some (requantize (nudge_distance_threshold s))"
     "vals ''nudge_exit_threshold'' = Some (requantize (nudge_exit_threshold s))"
     "vals ''nudge_hold_time_ms'' = Some (requantize (f32_of_int (nudge_hold_time s)))"
     "vals ''nudge_enabled'' = Some (if nudge_enabled s then f_1 else f_0)"
     "vals ''input_mode'' = Some (requantize (f32_of_int (int (unat (code_of_mode (input_mode s))))))"
    using settings_values by blast
  have e: "feq f_0 f_0" "\<not> feq f_1 f_0" by (simp_all add: f32_cmp_eval f32_literal_defs)
  have h: "hold_time_of (vals ''nudge_hold_time_ms'') = Some (nudge_hold_time s)"
    unfolding v(7) using assms(1,2) by (rule hold_time_int)
  have m: "mode_of_value (vals ''input_mode'') = Some (input_mode s)"
    unfolding v(9) using assms(3) by (rule mode_value)
  show ?thesis
    unfolding f load_settings_def v(1) sum.case schema_1 [of vals, OF v(2)] option.case settings_of_values_def
      h m prod.case
    by (simp add: v(3-6,8) e value_or_def requantize_settings_def)
qed

theorem settings_round_trip_witness:
  "load_settings (snd (save_settings Written init_settings ''s'' Map.empty) ''s'')
     = Inr (requantize_settings init_settings)"
  by (rule settings_round_trip [of init_settings Written "''s''" Map.empty])
    (simp_all add: init_settings_def save_settings_def write_file_def del: fun_upd_apply)

text \<open>C29: Calibration round trip: a saved calibration parses, has every field, and \<open>load\<close> gives back
  its six-digit vals; it is refused only when those fail the usability test, and then the vals
  are handed over all the same.\<close>

theorem calibration_round_trip:
  assumes "save_calibration_file wo c r path fs = (None, fs')"
  shows "load_calibration (fs' path) c0 r0 =
    ((if check_usable (fst (requantize_calibration c r)) (snd (requantize_calibration c r))
           LOAD_RATIO_TOLERANCE then None else Some Calibration_unusable),
     fst (requantize_calibration c r), snd (requantize_calibration c r))"
proof -
  have f: "fs' path = Some (calibration_text c r)"
    using assms by (auto simp: save_calibration_file_def write_file_def split: write_outcome.splits)
  obtain vals where v: "parse_file (Some (calibration_text c r)) = Inr vals"
     "vals ''schema'' = Some f_1" "\<not> list_ex (\<lambda>k. vals k = None) required_keys"
     "calibration_of_values vals = requantize_calibration c r"
    using calibration_values by blast
  show ?thesis
    unfolding f load_calibration_def v(1) sum.case schema_1 [of vals, OF v(2)] option.case v(4)
    using v(3) by (simp split: prod.split)
qed

theorem calibration_round_trip_witness:
  "fst (load_calibration (snd (save_calibration_file Written init_center init_range ''c'' Map.empty) ''c'')
     init_center init_range) \<in> {None, Some Calibration_unusable}"
  by (subst calibration_round_trip [of Written init_center init_range "''c''" Map.empty])
    (simp_all add: save_calibration_file_def write_file_def)

text \<open>A file \<open>load\<close> refuses before the usability test leaves the caller's calibration as it
  was.\<close>

theorem refused_file_keeps_calibration:
  assumes "load_calibration content c r = (Some e, c', r')" "e \<noteq> Calibration_unusable"
  shows "c' = c \<and> r' = r"
  using assms
  by (auto simp: load_calibration_def split: sum.splits option.splits if_splits prod.splits)

theorem refused_file_keeps_calibration_witness:
  "snd (load_calibration (Some ''center_x=oops'') init_center init_range) = (init_center, init_range)"
proof -
  have "fst (load_calibration (Some ''center_x=oops'') init_center init_range) = Some File_parse_failed"
    by (simp add: load_calibration_def parse_file_def getlines_def newline_def strtof_def has_prefix_def
        lower_def is_space_def read_magnitude_in_def is_digit_def Let_def)
  then show ?thesis
    using refused_file_keeps_calibration [of "Some ''center_x=oops''" init_center init_range]
    by (cases "load_calibration (Some ''center_x=oops'') init_center init_range") auto
qed

lemma hold_time_nan: "strtof ''nan'' = Some qnan \<and> hold_time_of (Some qnan) = None"
  by (simp add: strtof_def is_space_def has_prefix_def lower_def hold_time_of_def f32_to_int_def
      qnan_def f32_class_eval)

text \<open>A settings file can make \<open>load\<close> execute an undefined conversion: a hold time that is not
  a number passes the parser and the schema check and is then cast to an integer.\<close>

theorem settings_file_undefined:
  "load_settings (Some ''nudge_hold_time_ms=nan'') = Inl Undefined_behaviour"
proof -
  have "getlines ''nudge_hold_time_ms=nan'' = [''nudge_hold_time_ms=nan'']"
    by (simp add: getlines_def newline_def)
  then have p: "parse_file (Some ''nudge_hold_time_ms=nan'') = Inr [''nudge_hold_time_ms'' \<mapsto> qnan]"
    by (simp add: parse_file_def hold_time_nan)
  show ?thesis
    unfolding load_settings_def p
    by (simp add: check_schema_def settings_of_values_def hold_time_nan)
qed

end
