(* ===== verification/Store.thy ===== *)
theory Store
  imports Persistence
begin

text \<open>
  \<open>components/omega_calibration/include/omega_store.hpp\<close>: the live calibration and settings shared by
  the polling loop and the console services. Every operation runs under the store's mutex and is one
  step here; the callbacks it fires are returned as events, which the callers carry out.
\<close>

section \<open>Error codes of the calibration\<close>

definition cal_error_value :: "cal_error \<Rightarrow> int" where
  "cal_error_value e = (case e of Read_failure \<Rightarrow> 1 | No_center_samples \<Rightarrow> 2
     | No_center_noise_samples \<Rightarrow> 3 | No_range_samples \<Rightarrow> 4 | File_open_failed \<Rightarrow> 5
     | File_write_failed \<Rightarrow> 6 | File_parse_failed \<Rightarrow> 7 | File_missing_field \<Rightarrow> 8
     | Unsupported_schema \<Rightarrow> 9 | Calibration_unusable \<Rightarrow> 10)"

definition cal_error_message :: "cal_error \<Rightarrow> string" where
  "cal_error_message e = (case e of Read_failure \<Rightarrow> ''sensor read failed''
     | No_center_samples \<Rightarrow> ''no valid center samples''
     | No_center_noise_samples \<Rightarrow> ''no valid center-noise samples''
     | No_range_samples \<Rightarrow> ''insufficient angular coverage during range calibration''
     | File_open_failed \<Rightarrow> ''failed to open file''
     | File_write_failed \<Rightarrow> ''failed to write file''
     | File_parse_failed \<Rightarrow> ''failed to parse file''
     | File_missing_field \<Rightarrow> ''file is missing a required field''
     | Unsupported_schema \<Rightarrow> ''file was written by newer firmware (unsupported schema)''
     | Calibration_unusable \<Rightarrow> ''calibration unusable: the swept range is too small for the resting noise (was the stick moved to its edges?)'')"

section \<open>The store\<close>

record store =
  st_center :: center_result
  st_range :: range_result
  st_settings :: device_settings

datatype store_event = Calibration_changed | Mode_changed input_mode

definition override_allowed :: "f32 \<Rightarrow> f32 \<Rightarrow> bool" where
  "override_allowed mx v \<longleftrightarrow> ffin v \<and> fle f_0 v \<and> fle v mx"

definition drop_out_of_range_override :: "f32 option \<Rightarrow> f32 \<Rightarrow> f32 option" where
  "drop_out_of_range_override v mx =
     (case v of None \<Rightarrow> None | Some x \<Rightarrow> if override_allowed mx x then Some x else None)"

text \<open>The constructor, from the contents of the two files.\<close>

definition open_store :: "string option \<Rightarrow> string option \<Rightarrow> cal_error abort + store" where
  "open_store cal_file settings_file =
     (case load_calibration cal_file init_center init_range of (e, c, r) \<Rightarrow>
        (case (case load_settings settings_file of
                 Inr s \<Rightarrow> Some s | Inl (Reported e') \<Rightarrow> Some init_settings
               | Inl Undefined_behaviour \<Rightarrow> None) of
           None \<Rightarrow> Inl Undefined_behaviour
         | Some s \<Rightarrow>
             Inr \<lparr>st_center = c, st_range = r,
                  st_settings = s\<lparr>
                    manual_center_deadzone :=
                      drop_out_of_range_override (manual_center_deadzone s) MAX_CENTER_DEADZONE,
                    manual_range_deadzone :=
                      drop_out_of_range_override (manual_range_deadzone s) MAX_RANGE_DEADZONE\<rparr>\<rparr>))"

definition set_calibration :: "center_result \<Rightarrow> range_result \<Rightarrow> store \<Rightarrow> store_event list \<times> store" where
  "set_calibration c r st = ([Calibration_changed], st\<lparr>st_center := c, st_range := r\<rparr>)"

definition set_measured_calibration ::
  "center_result \<Rightarrow> range_result \<Rightarrow> store \<Rightarrow> store_event list \<times> store" where
  "set_measured_calibration c r st =
     ([Calibration_changed],
      st\<lparr>st_center := Calibration.set_manual_offset c (manual_offset_x (st_center st))
                        (manual_offset_y (st_center st)),
         st_range := r\<rparr>)"

definition set_live_offset :: "f32 \<Rightarrow> f32 \<Rightarrow> store \<Rightarrow> store_event list \<times> store" where
  "set_live_offset x y st =
     ([Calibration_changed], st\<lparr>st_center := Calibration.set_manual_offset (st_center st) x y\<rparr>)"

definition set_deadzone_override ::
  "f32 option \<Rightarrow> f32 option \<Rightarrow> store \<Rightarrow> store_event list \<times> store" where
  "set_deadzone_override c r st =
     ([Calibration_changed],
      st\<lparr>st_settings := (st_settings st)\<lparr>manual_center_deadzone := c, manual_range_deadzone := r\<rparr>\<rparr>)"

definition set_nudge_settings :: "f32 \<Rightarrow> f32 \<Rightarrow> millis \<Rightarrow> store \<Rightarrow> store_event list \<times> store" where
  "set_nudge_settings enter leave time st =
     ([], st\<lparr>st_settings := (st_settings st)\<lparr>nudge_distance_threshold := enter,
             nudge_exit_threshold := leave, nudge_hold_time := time\<rparr>\<rparr>)"

definition set_nudge_enabled :: "bool \<Rightarrow> store \<Rightarrow> store_event list \<times> store" where
  "set_nudge_enabled on st = ([], st\<lparr>st_settings := (st_settings st)\<lparr>nudge_enabled := on\<rparr>\<rparr>)"

definition set_input_mode :: "input_mode \<Rightarrow> store \<Rightarrow> store_event list \<times> store" where
  "set_input_mode m st =
     (if input_mode (st_settings st) = m then ([], st)
      else ([Mode_changed m], st\<lparr>st_settings := (st_settings st)\<lparr>input_mode := m\<rparr>\<rparr>))"

text \<open>\<open>save_to_flash\<close>: the calibration file first; when it fails the settings file is not touched.\<close>

definition save_store ::
  "write_outcome \<Rightarrow> write_outcome \<Rightarrow> string \<Rightarrow> string \<Rightarrow> store \<Rightarrow> files \<Rightarrow> cal_error option \<times> files" where
  "save_store wc ws cal_path settings_path st fs =
     (case save_calibration_file wc (st_center st) (st_range st) cal_path fs of
        (Some e, fs1) \<Rightarrow> (Some e, fs1)
      | (None, fs1) \<Rightarrow> save_settings ws (st_settings st) settings_path fs1)"

section \<open>The contract\<close>

text \<open>Deadzone overrides in force are inside the limits calibration clamps its own results to.\<close>

definition store_ok :: "store \<Rightarrow> bool" where
  "store_ok st \<longleftrightarrow>
     pred_option (override_allowed MAX_CENTER_DEADZONE) (manual_center_deadzone (st_settings st)) \<and>
     pred_option (override_allowed MAX_RANGE_DEADZONE) (manual_range_deadzone (st_settings st))"



lemmas [store_simps] = set_calibration_def set_measured_calibration_def set_live_offset_def
  set_deadzone_override_def set_nudge_settings_def set_nudge_enabled_def set_input_mode_def

lemma dropped_override: "pred_option (override_allowed mx) (drop_out_of_range_override v mx)"
  by (auto simp: drop_out_of_range_override_def split: option.split)

lemma open_store_ok: "open_store cal settings = Inr st \<Longrightarrow> store_ok st"
  by (auto simp: open_store_def store_ok_def dropped_override
      split: prod.splits sum.splits abort.splits option.splits)

lemma store_ops_ok:
  "store_ok st \<Longrightarrow> store_ok (snd (set_calibration c r st))"
  "store_ok st \<Longrightarrow> store_ok (snd (set_measured_calibration c r st))"
  "store_ok st \<Longrightarrow> store_ok (snd (set_live_offset x y st))"
  "store_ok st \<Longrightarrow> store_ok (snd (set_nudge_settings x y t st))"
  "store_ok st \<Longrightarrow> store_ok (snd (set_nudge_enabled b st))"
  "store_ok st \<Longrightarrow> store_ok (snd (set_input_mode m st))"
  by (simp_all add: store_ok_def store_simps)

lemma set_deadzone_override_ok:
  "pred_option (override_allowed MAX_CENTER_DEADZONE) c \<Longrightarrow>
   pred_option (override_allowed MAX_RANGE_DEADZONE) r \<Longrightarrow> store_ok (snd (set_deadzone_override c r st))"
  by (simp add: store_ok_def store_simps)

text \<open>A measured calibration never moves the console's trim.\<close>

lemma measured_keeps_trim:
  "manual_offset_x (st_center (snd (set_measured_calibration c r st))) = manual_offset_x (st_center st)"
  "manual_offset_y (st_center (snd (set_measured_calibration c r st))) = manual_offset_y (st_center st)"
  by (simp_all add: store_simps Calibration.set_manual_offset_def)

lemma measured_frame:
  "st' = snd (set_measured_calibration c r st) \<Longrightarrow> st_settings st' = st_settings st \<and>
   manual_offset_x (st_center st') = manual_offset_x (st_center st) \<and>
   manual_offset_y (st_center st') = manual_offset_y (st_center st)"
  by (simp add: store_simps Calibration.set_manual_offset_def)

text \<open>A calibration that failed to save leaves the settings file alone.\<close>

lemma failed_calibration_save:
  assumes "save_calibration_file wc (st_center st) (st_range st) p fs = (Some e, fs1)"
  shows "save_store wc ws p p' st fs = (Some e, fs1)"
  using assms by (simp add: save_store_def)

end
