(* ===== verification/Ota_Slots.thy ===== *)
theory Ota_Slots
  imports Omega_Prelude
begin

text \<open>
  Firmware slots and the OTA engine. \<open>ota_ops\<close> is the interface the calibration service and the
  health check use (\<open>espp::Ota\<close> and the ESP-IDF partition calls), \<open>ota_engine\<close> the contract they
  rely on. The implementation in the repository is the simulator's: the two-slot flash of
  \<open>sim/stubs/sim_flash.hpp\<close> and the engine of \<open>sim/stubs/ota.hpp\<close>; both are modelled here and
  interpret the contract.
\<close>

section \<open>Errors and app descriptors\<close>

datatype errc =
    Function_not_supported | Invalid_argument | Operation_not_permitted | Operation_in_progress
  | No_such_device | Io_error | Device_or_resource_busy | Bad_message

text \<open>\<open>esp_app_desc_t\<close>: 256 bytes; the fields used are at fixed offsets.\<close>

type_synonym app_desc = bytes

definition le32 :: "bytes \<Rightarrow> u32" where
  "le32 d = ucast (d ! 0) OR push_bit 8 (ucast (d ! 1)) OR push_bit 16 (ucast (d ! 2))
     OR push_bit 24 (ucast (d ! 3))"

definition put32 :: "u32 \<Rightarrow> bytes" where
  "put32 v = [ucast v, ucast (drop_bit 8 v), ucast (drop_bit 16 v), ucast (drop_bit 24 v)]"

lemma le32_put32 [wire_simps]: "le32 (put32 v @ rest) = v"
proof (rule bit_word_eqI)
  fix n assume "n < LENGTH(32)"
  then consider "n < 8" | "8 \<le> n" "n < 16" | "16 \<le> n" "n < 24" | "24 \<le> n" "n < 32" by fastforce
  then show "bit (le32 (put32 v @ rest)) n = bit v n"
    by cases (auto simp: le32_def put32_def bit_simps)
qed

lemma length_put32 [wire_simps, simp]: "length (put32 v) = 4"
  by (simp add: put32_def)

definition kAppDescMagic :: u32 where "kAppDescMagic = 0xABCD5432"
definition kAppDescOffset :: nat where "kAppDescOffset = 32"

definition string_bytes :: "string \<Rightarrow> bytes" where
  "string_bytes s = map (\<lambda>c. of_char c) s"

text \<open>\<open>copy_str\<close>: at most \<open>cap - 1\<close> bytes, the rest zero.\<close>

definition copy_str :: "nat \<Rightarrow> string \<Rightarrow> bytes" where
  "copy_str cap s = (let t = take (cap - 1) (string_bytes s) in t @ replicate (cap - length t) 0)"

definition make_desc :: "string \<Rightarrow> string \<Rightarrow> app_desc" where
  "make_desc version project =
     put32 kAppDescMagic @ replicate 12 0 @ copy_str 32 version @ copy_str 32 project
     @ copy_str 16 ''00:00:00'' @ copy_str 16 ''Jan  1 2026'' @ copy_str 32 ''sim''
     @ replicate 112 0"

definition terminate_strings :: "app_desc \<Rightarrow> app_desc" where
  "terminate_strings d = d[47 := 0, 79 := 0, 95 := 0, 111 := 0, 143 := 0]"

definition parse_image_desc :: "bytes \<Rightarrow> app_desc option" where
  "parse_image_desc img =
     (if length img < kAppDescOffset + 256 \<or> img ! 0 \<noteq> 0xE9 then None
      else let d = take 256 (drop kAppDescOffset img) in
        if le32 d \<noteq> kAppDescMagic then None else Some (terminate_strings d))"

definition make_image :: "string \<Rightarrow> string \<Rightarrow> nat \<Rightarrow> bytes" where
  "make_image version project n =
     (let total = max n (kAppDescOffset + 256 + 16) in
      [0xE9, 1] @ replicate 30 0 @ make_desc version project @
      map (\<lambda>i. word_of_nat (i * 31)) [kAppDescOffset + 256 ..< total])"

section \<open>Descriptors as text\<close>

definition hex_digit :: "u8 \<Rightarrow> char" where
  "hex_digit n = char_of (if n < 10 then 48 + unat n else 87 + unat n)"

definition desc_to_hex :: "app_desc \<Rightarrow> string" where
  "desc_to_hex d = concat (map (\<lambda>b. [hex_digit (drop_bit 4 b), hex_digit (b AND 0x0F)]) d)"

definition nibble :: "char \<Rightarrow> u8 option" where
  "nibble c = (let n = (of_char c :: nat) in
     if 48 \<le> n \<and> n \<le> 57 then Some (word_of_nat (n - 48))
     else if 97 \<le> n \<and> n \<le> 102 then Some (word_of_nat (n - 97 + 10))
     else if 65 \<le> n \<and> n \<le> 70 then Some (word_of_nat (n - 65 + 10)) else None)"

fun bytes_from_hex :: "string \<Rightarrow> bytes option" where
  "bytes_from_hex [] = Some []"
| "bytes_from_hex [c] = Some []"
| "bytes_from_hex (c # e # cs) =
     (case (nibble c, nibble e) of
        (Some hi, Some lo) \<Rightarrow> map_option (\<lambda>bs. (push_bit 4 hi OR lo) # bs) (bytes_from_hex cs)
      | _ \<Rightarrow> None)"

definition desc_from_hex :: "string \<Rightarrow> app_desc option" where
  "desc_from_hex hex =
     (if length hex \<noteq> 512 then None
      else case bytes_from_hex hex of None \<Rightarrow> None
        | Some d \<Rightarrow> if le32 d \<noteq> kAppDescMagic then None else Some (terminate_strings d))"

section \<open>Two slots\<close>

datatype img_state = IMG_NEW | IMG_PENDING_VERIFY | IMG_VALID | IMG_INVALID | IMG_ABORTED | IMG_UNDEFINED

datatype next_image =
    NI_OK | FAIL_SELF_TEST | CRASH_LOOP | SLOW_SENSOR_START | SLOW_SENSOR_FAIL | CRASH_WHEN_CONFIRMED

definition next_image_name :: "next_image \<Rightarrow> string" where
  "next_image_name b = (case b of FAIL_SELF_TEST \<Rightarrow> ''fail_self_test'' | CRASH_LOOP \<Rightarrow> ''crash_loop''
     | SLOW_SENSOR_START \<Rightarrow> ''slow_sensor_start'' | SLOW_SENSOR_FAIL \<Rightarrow> ''slow_sensor_fail''
     | CRASH_WHEN_CONFIRMED \<Rightarrow> ''crash_when_confirmed'' | NI_OK \<Rightarrow> ''ok'')"

definition parse_next_image :: "string \<Rightarrow> next_image option" where
  "parse_next_image s = find (\<lambda>b. s = next_image_name b)
     [NI_OK, FAIL_SELF_TEST, CRASH_LOOP, SLOW_SENSOR_START, SLOW_SENSOR_FAIL, CRASH_WHEN_CONFIRMED]"

record slot =
  sl_label :: string
  has_image :: bool
  native :: bool
  partial :: bool
  sl_desc :: app_desc
  sl_state :: img_state
  behavior :: next_image

definition empty_slot :: "string \<Rightarrow> slot" where
  "empty_slot label = \<lparr>sl_label = label, has_image = False, native = False, partial = False,
     sl_desc = replicate 256 0, sl_state = IMG_UNDEFINED, behavior = NI_OK\<rparr>"

record flash =
  slots :: "nat \<Rightarrow> slot"
  running :: nat
  boot_slot :: nat
  fl_next_image :: next_image
  native_version :: string
  restart_reason :: string

definition other_of :: "flash \<Rightarrow> nat" where
  "other_of f = 1 - running f"

definition format_flash :: "string \<Rightarrow> flash" where
  "format_flash version =
     \<lparr>slots = (\<lambda>i. if i = 0
          then (empty_slot ''ota_0'')\<lparr>has_image := True, native := True,
                 sl_desc := make_desc version ''omega_stick'', sl_state := IMG_VALID\<rparr>
          else empty_slot ''ota_1''),
      running = 0, boot_slot = 0, fl_next_image = NI_OK, native_version = version,
      restart_reason = []\<rparr>"

definition complete :: "slot \<Rightarrow> bool" where
  "complete s \<longleftrightarrow> has_image s \<and> \<not> partial s"

definition set_state :: "nat \<Rightarrow> img_state \<Rightarrow> flash \<Rightarrow> flash" where
  "set_state i st f = f\<lparr>slots := (slots f)(i := (slots f i)\<lparr>sl_state := st\<rparr>)\<rparr>"

text \<open>The bootloader; the flag says whether it rolled an unconfirmed image back.\<close>

definition abort_pending :: "flash \<Rightarrow> flash" where
  "abort_pending f = f\<lparr>slots := (\<lambda>i. if i < 2 \<and> sl_state (slots f i) = IMG_PENDING_VERIFY
     then (slots f i)\<lparr>sl_state := IMG_ABORTED\<rparr> else slots f i)\<rparr>"

definition boot :: "flash \<Rightarrow> bool \<times> flash" where
  "boot f =
     (let was_pending = (sl_state (slots f (boot_slot f)) = IMG_PENDING_VERIFY);
          f1 = abort_pending f;
          rolled = (was_pending \<and> complete (slots f1 (1 - boot_slot f1)));
          f2 = (if rolled then f1\<lparr>boot_slot := 1 - boot_slot f1\<rparr> else f1);
          b = boot_slot f2;
          f3 = (if sl_state (slots f2 b) = IMG_NEW then set_state b IMG_PENDING_VERIFY f2 else f2) in
      (rolled, f3\<lparr>running := b\<rparr>))"

definition describe :: "nat \<Rightarrow> flash \<Rightarrow> app_desc option" where
  "describe i f = (if has_image (slots f i) then Some (sl_desc (slots f i)) else None)"

definition state_of :: "nat \<Rightarrow> flash \<Rightarrow> img_state option" where
  "state_of i f = (if \<not> has_image (slots f i) \<or> sl_state (slots f i) = IMG_UNDEFINED then None
     else Some (sl_state (slots f i)))"

text \<open>\<open>esp_ota_set_boot_partition\<close>: \<open>None\<close> is \<open>ESP_OK\<close>, otherwise the name of the error.\<close>

definition set_boot :: "nat \<Rightarrow> flash \<Rightarrow> string option \<times> flash" where
  "set_boot i f =
     (if \<not> has_image (slots f i) then (Some ''ESP_ERR_NOT_FOUND'', f)
      else if partial (slots f i) then (Some ''ESP_ERR_OTA_VALIDATE_FAILED'', f)
      else
        let f1 = (set_state i IMG_NEW f)\<lparr>boot_slot := i\<rparr> in
        (None, if i \<noteq> running f1 then f1\<lparr>restart_reason := ''revert''\<rparr> else f1))"

definition pending_verify :: "flash \<Rightarrow> bool" where
  "pending_verify f \<longleftrightarrow> sl_state (slots f (running f)) = IMG_PENDING_VERIFY"

definition mark_valid :: "flash \<Rightarrow> flash" where
  "mark_valid f = set_state (running f) IMG_VALID f"

definition verify :: "nat \<Rightarrow> flash \<Rightarrow> bool" where
  "verify i f = complete (slots f i)"

definition mark_invalid_and_rollback :: "flash \<Rightarrow> bool \<times> flash" where
  "mark_invalid_and_rollback f =
     (let i = other_of f; s = slots f i in
      if \<not> has_image s \<or> partial s \<or> sl_state s \<notin> {IMG_NEW, IMG_PENDING_VERIFY, IMG_VALID}
      then (False, f)
      else (True, (set_state (running f) IMG_INVALID f)\<lparr>boot_slot := i, restart_reason := ''rollback''\<rparr>))"

definition begin_upload :: "flash \<Rightarrow> flash" where
  "begin_upload f =
     (let i = other_of f;
          s = (slots f i)\<lparr>has_image := False, native := False, partial := False,
                sl_desc := replicate 256 0, sl_state := IMG_UNDEFINED, behavior := NI_OK\<rparr>;
          f1 = f\<lparr>slots := (slots f)(i := s)\<rparr> in
      if boot_slot f1 = i then f1\<lparr>boot_slot := running f1\<rparr> else f1)"

definition upload_descriptor :: "app_desc \<Rightarrow> flash \<Rightarrow> flash" where
  "upload_descriptor d f =
     (let i = other_of f in
      f\<lparr>slots := (slots f)(i := (slots f i)\<lparr>has_image := True, partial := True, sl_desc := d\<rparr>)\<rparr>)"

definition commit_image :: "app_desc \<Rightarrow> flash \<Rightarrow> flash" where
  "commit_image d f =
     (let i = other_of f;
          s = (slots f i)\<lparr>has_image := True, native := False, partial := False, sl_desc := d,
                sl_state := IMG_NEW, behavior := fl_next_image f\<rparr> in
      f\<lparr>slots := (slots f)(i := s), fl_next_image := NI_OK, boot_slot := i,
        restart_reason := ''update''\<rparr>)"

definition take_restart_reason :: "flash \<Rightarrow> string \<times> flash" where
  "take_restart_reason f =
     (if restart_reason f = [] then ''restart'' else restart_reason f, f\<lparr>restart_reason := []\<rparr>)"

section \<open>The engine\<close>

record sim_ota =
  so_flash :: flash
  so_active :: bool
  so_image_size :: nat
  so_image :: bytes
  so_desc_seen :: bool

definition init_ota :: "flash \<Rightarrow> sim_ota" where
  "init_ota f = \<lparr>so_flash = f, so_active = False, so_image_size = 0, so_image = [],
     so_desc_seen = False\<rparr>"

definition ota_begin :: "nat \<Rightarrow> sim_ota \<Rightarrow> errc option \<times> sim_ota" where
  "ota_begin n q =
     (if so_active q then (Some Device_or_resource_busy, q)
      else if pending_verify (so_flash q) then (Some Io_error, q)
      else (None, q\<lparr>so_flash := begin_upload (so_flash q), so_active := True,
                    so_image_size := n, so_image := [], so_desc_seen := False\<rparr>))"

definition ota_write :: "bytes \<Rightarrow> sim_ota \<Rightarrow> errc option \<times> sim_ota" where
  "ota_write d q =
     (if \<not> so_active q then (Some Operation_not_permitted, q)
      else
        let q1 = q\<lparr>so_image := so_image q @ d\<rparr> in
        (None,
         if so_desc_seen q1 then q1
         else case parse_image_desc (so_image q1) of None \<Rightarrow> q1
           | Some desc \<Rightarrow> q1\<lparr>so_desc_seen := True,
                             so_flash := upload_descriptor desc (so_flash q1)\<rparr>))"

definition ota_finish :: "sim_ota \<Rightarrow> errc option \<times> sim_ota" where
  "ota_finish q =
     (if \<not> so_active q then (Some Operation_not_permitted, q)
      else
        let q1 = q\<lparr>so_active := False\<rparr> in
        case parse_image_desc (so_image q1) of None \<Rightarrow> (Some Bad_message, q1)
        | Some desc \<Rightarrow> (None, q1\<lparr>so_flash := commit_image desc (so_flash q1), so_image := []\<rparr>))"

definition ota_abort :: "sim_ota \<Rightarrow> sim_ota" where
  "ota_abort q = q\<lparr>so_active := False, so_image := []\<rparr>"

definition ota_mark_valid :: "sim_ota \<Rightarrow> errc option \<times> sim_ota" where
  "ota_mark_valid q = (None, q\<lparr>so_flash := mark_valid (so_flash q)\<rparr>)"

text \<open>\<open>mark_app_invalid_and_rollback\<close> returns only on failure; \<open>None\<close> means the device restarts.\<close>

definition ota_rollback :: "sim_ota \<Rightarrow> errc option \<times> sim_ota" where
  "ota_rollback q =
     (case mark_invalid_and_rollback (so_flash q) of (ok, f) \<Rightarrow>
        if \<not> ok then (Some No_such_device, q\<lparr>so_flash := f\<rparr>)
        else (None, q\<lparr>so_flash := snd (take_restart_reason f)\<rparr>))"

section \<open>The interface and its contract\<close>

text \<open>What a client sees of the other slot: its label, its descriptor when it holds an image, its
  otadata state when it has one, and whether the image verifies.\<close>

record slot_view =
  sv_label :: string
  sv_desc :: "app_desc option"
  sv_state :: "img_state option"
  sv_verifies :: bool

record 'o ota_ops =
  op_begin :: "nat \<Rightarrow> 'o \<Rightarrow> errc option \<times> 'o"
  op_write :: "bytes \<Rightarrow> 'o \<Rightarrow> errc option \<times> 'o"
  op_finish :: "'o \<Rightarrow> errc option \<times> 'o"
  op_abort :: "'o \<Rightarrow> 'o"
  op_active :: "'o \<Rightarrow> bool"
  op_written :: "'o \<Rightarrow> nat"
  op_pending :: "'o \<Rightarrow> bool"
  op_mark_valid :: "'o \<Rightarrow> errc option \<times> 'o"
  op_rollback :: "'o \<Rightarrow> errc option \<times> 'o"
  op_running_label :: "'o \<Rightarrow> string"
  op_boot_label :: "'o \<Rightarrow> string"
  op_own_desc :: "'o \<Rightarrow> app_desc"
  op_other :: "'o \<Rightarrow> slot_view option"
  op_boot_other :: "'o \<Rightarrow> string option \<times> 'o"

definition sim_ops :: "sim_ota ota_ops" where
  "sim_ops = \<lparr>op_begin = ota_begin, op_write = ota_write, op_finish = ota_finish,
     op_abort = ota_abort, op_active = so_active, op_written = (\<lambda>q. length (so_image q)),
     op_pending = (\<lambda>q. pending_verify (so_flash q)), op_mark_valid = ota_mark_valid,
     op_rollback = ota_rollback,
     op_running_label = (\<lambda>q. sl_label (slots (so_flash q) (running (so_flash q)))),
     op_boot_label = (\<lambda>q. sl_label (slots (so_flash q) (boot_slot (so_flash q)))),
     op_own_desc = (\<lambda>q. sl_desc (slots (so_flash q) (running (so_flash q)))),
     op_other = (\<lambda>q. let f = so_flash q; i = other_of f in
        Some \<lparr>sv_label = sl_label (slots f i), sv_desc = describe i f, sv_state = state_of i f,
              sv_verifies = verify i f\<rparr>),
     op_boot_other = (\<lambda>q. case set_boot (other_of (so_flash q)) (so_flash q) of (e, f) \<Rightarrow>
        (e, q\<lparr>so_flash := f\<rparr>))\<rparr>"

locale ota_engine =
  fixes ops :: "'o ota_ops"
  assumes begin_done: "op_begin ops n q = (None, q') \<Longrightarrow> op_active ops q' \<and> op_written ops q' = 0 \<and> \<not> op_active ops q"
    and begin_failed: "op_begin ops n q = (Some e, q') \<Longrightarrow> op_active ops q' = op_active ops q"
    and begin_pending: "op_pending ops q \<Longrightarrow> fst (op_begin ops n q) \<noteq> None"
    and write_done: "op_write ops d q = (None, q') \<Longrightarrow>
      op_active ops q' \<and> op_written ops q' = op_written ops q + length d"
    and write_failed: "op_write ops d q = (Some e, q') \<Longrightarrow> \<not> op_active ops q'"
    and finish_ends: "op_finish ops q = (r, q') \<Longrightarrow> \<not> op_active ops q'"
    and abort_ends: "\<not> op_active ops (op_abort ops q)"
    and valid_keeps: "op_mark_valid ops q = (r, q') \<Longrightarrow> op_active ops q' = op_active ops q"
    and rollback_keeps: "op_rollback ops q = (r, q') \<Longrightarrow> op_active ops q' = op_active ops q"
    and boot_other_keeps: "op_boot_other ops q = (m, q') \<Longrightarrow> op_active ops q' = op_active ops q"

interpretation sim: ota_engine sim_ops
  by unfold_locales
    (auto simp: sim_ops_def ota_begin_def ota_write_def ota_finish_def ota_abort_def ota_mark_valid_def
      ota_rollback_def Let_def split: if_splits option.splits prod.splits)

section \<open>Facts about the slots\<close>

definition flash_ok :: "flash \<Rightarrow> bool" where
  "flash_ok f \<longleftrightarrow> running f < 2 \<and> boot_slot f < 2 \<and> has_image (slots f (running f)) \<and>
     \<not> partial (slots f (running f)) \<and> complete (slots f (boot_slot f))"

lemma other_slot [simp]: "running f < 2 \<Longrightarrow> 1 - other_of f = running f"
  unfolding other_of_def by arith

lemma other_neq: "running f < 2 \<Longrightarrow> other_of f < 2 \<and> other_of f \<noteq> running f"
  unfolding other_of_def by arith

lemma less_2: "i < 2 \<longleftrightarrow> i = 0 \<or> i = (1 :: nat)"
  by auto

lemma set_state_simps [simp]:
  "running (set_state i st f) = running f" "boot_slot (set_state i st f) = boot_slot f"
  "has_image (slots (set_state i st f) j) = has_image (slots f j)"
  "partial (slots (set_state i st f) j) = partial (slots f j)"
  "sl_state (slots (set_state i st f) j) = (if j = i then st else sl_state (slots f j))"
  "complete (slots (set_state i st f) j) = complete (slots f j)"
  by (simp_all add: set_state_def complete_def)

lemma abort_pending_simps [simp]:
  "running (abort_pending f) = running f" "boot_slot (abort_pending f) = boot_slot f"
  "complete (slots (abort_pending f) j) = complete (slots f j)"
  "has_image (slots (abort_pending f) j) = has_image (slots f j)"
  "partial (slots (abort_pending f) j) = partial (slots f j)"
  by (simp_all add: abort_pending_def complete_def)

text \<open>Every operation keeps the running image in place and the boot slot bootable.\<close>

lemma boot_ok: "flash_ok f \<Longrightarrow> flash_ok (snd (boot f)) \<and> running (snd (boot f)) = boot_slot (snd (boot f))"
  by (auto simp: boot_def Let_def flash_ok_def complete_def)

lemma set_boot_ok: "flash_ok f \<Longrightarrow> i < 2 \<Longrightarrow> flash_ok (snd (set_boot i f))"
  by (auto simp: set_boot_def flash_ok_def complete_def Let_def)

lemma mark_valid_ok: "flash_ok f \<Longrightarrow> flash_ok (mark_valid f)"
  by (simp add: mark_valid_def flash_ok_def)

lemma rollback_ok: "flash_ok f \<Longrightarrow> flash_ok (snd (mark_invalid_and_rollback f))"
  using other_neq [of f]
  by (auto simp: mark_invalid_and_rollback_def Let_def flash_ok_def complete_def)

lemma begin_upload_ok: "flash_ok f \<Longrightarrow> flash_ok (begin_upload f)"
  using other_neq [of f]
  by (auto simp: begin_upload_def Let_def flash_ok_def complete_def)

lemma commit_ok: "flash_ok f \<Longrightarrow> flash_ok (commit_image d f)"
  using other_neq [of f]
  by (auto simp: commit_image_def Let_def flash_ok_def complete_def)

section \<open>The engine over time\<close>

text \<open>What can happen to a device: every engine call, a switch to the other slot, and a restart
  (which drops the session and runs the bootloader).\<close>

inductive ota_step :: "sim_ota \<Rightarrow> sim_ota \<Rightarrow> bool" where
  Begin: "ota_step q (snd (ota_begin n q))"
| Data: "ota_step q (snd (ota_write d q))"
| Finish: "ota_step q (snd (ota_finish q))"
| Abort: "ota_step q (ota_abort q)"
| Confirm: "ota_step q (snd (ota_mark_valid q))"
| Reject: "ota_step q (snd (ota_rollback q))"
| Switch: "ota_step q (snd (op_boot_other sim_ops q))"
| Restart: "ota_step q (init_ota (snd (boot (so_flash q))))"

inductive_cases ota_stepE: "ota_step q q'"

text \<open>While a session is open the slot it writes can neither boot nor be switched to.\<close>

definition ota_ok :: "sim_ota \<Rightarrow> bool" where
  "ota_ok q \<longleftrightarrow> flash_ok (so_flash q) \<and>
     (so_active q \<longrightarrow> boot_slot (so_flash q) = running (so_flash q) \<and>
        \<not> complete (slots (so_flash q) (other_of (so_flash q))))"

lemma upload_descriptor_ok:
  "flash_ok f \<Longrightarrow> boot_slot f = running f \<Longrightarrow>
   flash_ok (upload_descriptor d f) \<and> boot_slot (upload_descriptor d f) = running f \<and>
   running (upload_descriptor d f) = running f \<and> other_of (upload_descriptor d f) = other_of f \<and>
   \<not> complete (slots (upload_descriptor d f) (other_of f))"
  using other_neq [of f]
  by (auto simp: upload_descriptor_def Let_def flash_ok_def complete_def other_of_def)

lemma begin_upload_other:
  "flash_ok f \<Longrightarrow> boot_slot (begin_upload f) = running (begin_upload f) \<and>
   \<not> complete (slots (begin_upload f) (other_of (begin_upload f)))"
  using other_neq [of f]
  by (auto simp: begin_upload_def Let_def flash_ok_def complete_def other_of_def less_2)

lemma set_boot_session:
  "\<not> complete (slots f i) \<Longrightarrow> snd (set_boot i f) = f"
  by (simp add: set_boot_def complete_def)

lemma mark_valid_session:
  "boot_slot (mark_valid f) = boot_slot f \<and> running (mark_valid f) = running f \<and>
   other_of (mark_valid f) = other_of f \<and> complete (slots (mark_valid f) i) = complete (slots f i)"
  by (simp add: mark_valid_def other_of_def)

lemma rollback_session:
  "\<not> complete (slots f (other_of f)) \<Longrightarrow> mark_invalid_and_rollback f = (False, f)"
  by (simp add: mark_invalid_and_rollback_def complete_def Let_def)

lemma restart_reason_frame [simp]:
  "flash_ok (f\<lparr>restart_reason := r\<rparr>) = flash_ok f" "other_of (f\<lparr>restart_reason := r\<rparr>) = other_of f"
  by (simp_all add: flash_ok_def other_of_def)

lemma ota_ok_step: "ota_step q q' \<Longrightarrow> ota_ok q \<Longrightarrow> ota_ok q'"
proof (induction rule: ota_step.induct)
  case (Begin q n)
  then show ?case
    by (auto simp: ota_begin_def ota_ok_def begin_upload_ok begin_upload_other)
next
  case (Data q d)
  then show ?case
    using upload_descriptor_ok [of "so_flash q"]
    by (auto simp: ota_write_def ota_ok_def Let_def split: option.splits)
next
  case (Finish q)
  then show ?case
    by (auto simp: ota_finish_def ota_ok_def Let_def commit_ok split: option.splits)
next
  case (Abort q)
  then show ?case by (simp add: ota_abort_def ota_ok_def)
next
  case (Confirm q)
  then show ?case
    by (auto simp: ota_mark_valid_def ota_ok_def mark_valid_ok mark_valid_session)
next
  case (Reject q)
  then show ?case
    using rollback_ok [of "so_flash q"] rollback_session [of "so_flash q"]
    by (auto simp: ota_rollback_def ota_ok_def take_restart_reason_def split: prod.splits)
next
  case (Switch q)
  then show ?case
    using set_boot_ok [of "so_flash q" "other_of (so_flash q)"] other_neq [of "so_flash q"]
      set_boot_session [of "so_flash q" "other_of (so_flash q)"]
    by (auto simp: sim_ops_def ota_ok_def flash_ok_def split: prod.splits)
next
  case (Restart q)
  then show ?case using boot_ok [of "so_flash q"] by (simp add: ota_ok_def init_ota_def)
qed

lemma ota_ok_reachable: "ota_step\<^sup>*\<^sup>* q q' \<Longrightarrow> ota_ok q \<Longrightarrow> ota_ok q'"
  by (induction rule: rtranclp_induct) (auto intro: ota_ok_step)

lemma format_ok: "ota_ok (init_ota (format_flash v))"
  by (simp add: ota_ok_def init_ota_def format_flash_def flash_ok_def empty_slot_def complete_def)

text \<open>A committed image: the next boot runs it unconfirmed.\<close>

lemma boot_committed:
  assumes "flash_ok f"
  shows "running (snd (boot (commit_image d f))) = other_of f \<and>
    pending_verify (snd (boot (commit_image d f))) \<and>
    boot_slot (snd (boot (commit_image d f))) = other_of f \<and>
    complete (slots (snd (boot (commit_image d f))) (running f))"
  using assms other_neq [of f]
  by (auto simp: boot_def commit_image_def Let_def pending_verify_def set_state_def abort_pending_def
      flash_ok_def complete_def)

lemma boot_unconfirmed:
  assumes "running f < 2" "boot_slot f = running f" "pending_verify f"
    "complete (slots f (other_of f))"
  shows "fst (boot f) \<and> running (snd (boot f)) = other_of f \<and>
    sl_state (slots (snd (boot f)) (running f)) = IMG_ABORTED"
  using assms other_neq [of f]
  by (auto simp: boot_def Let_def pending_verify_def set_state_def abort_pending_def complete_def
      other_of_def)

lemma boot_confirmed:
  assumes "boot_slot f = running f"
  shows "\<not> fst (boot (mark_valid f)) \<and> running (snd (boot (mark_valid f))) = running f"
  using assms by (simp add: boot_def Let_def mark_valid_def)

section \<open>Descriptor text\<close>

lemma nibble_hex: "n < 16 \<Longrightarrow> nibble (hex_digit n) = Some n"
  by (auto simp: nibble_def hex_digit_def Let_def word_less_nat_alt of_char_of unsigned_of_nat split: if_splits)

lemma nibbles_join: "push_bit 4 (drop_bit 4 b) OR (b AND 0x0F) = (b :: u8)"
proof (rule bit_word_eqI)
  fix n assume "n < LENGTH(8)"
  have "(0x0F :: u8) = mask 4" by (simp add: mask_eq_exp_minus_1)
  then have "b AND 0x0F = b AND mask 4" by metis
  then show "bit (push_bit 4 (drop_bit 4 b) OR (b AND 0x0F)) n = bit b n"
    using \<open>n < LENGTH(8)\<close> by (cases "n < 4") (auto simp only: bit_simps, auto)
qed

lemma low_nibble: "b AND 0x0F < (16 :: u8)" 
  using word_and_le1 [of b "0x0F"] by (simp add: word_le_nat_alt word_less_nat_alt)

lemma high_nibble: "drop_bit 4 b < (16 :: u8)"
proof -
  have "unat b < 256" using unsigned_less [of b] by simp
  then have "unat (drop_bit 4 b) < 16" by (simp add: drop_bit_eq_div unat_div)
  then show ?thesis by (simp add: word_less_nat_alt)
qed

lemma bytes_from_to_hex: "bytes_from_hex (desc_to_hex d) = Some d"
  by (induction d)
    (simp_all add: desc_to_hex_def nibble_hex low_nibble high_nibble nibbles_join)

lemma desc_to_hex_length: "length (desc_to_hex d) = 2 * length d"
  by (induction d) (simp_all add: desc_to_hex_def)

lemma copy_str_length: "0 < c \<Longrightarrow> length (copy_str c s) = c"
  by (simp add: copy_str_def Let_def min_def)

lemma copy_str_last: "0 < c \<Longrightarrow> copy_str c s ! (c - 1) = 0"
  by (auto simp: copy_str_def Let_def nth_append nth_replicate min_def)

lemma list_update_same: "xs ! i = x \<Longrightarrow> xs[i := x] = xs"
  by auto

lemma make_desc_length: "length (make_desc v p) = 256"
  by (simp add: make_desc_def copy_str_length)

lemma make_desc_terminated: "terminate_strings (make_desc v p) = make_desc v p"
proof -
  have "make_desc v p ! 47 = 0" "make_desc v p ! 79 = 0" "make_desc v p ! 95 = 0"
    "make_desc v p ! 111 = 0" "make_desc v p ! 143 = 0"
    using copy_str_last [of 32 v] copy_str_last [of 32 p] copy_str_last [of 16 "''00:00:00''"]
      copy_str_last [of 16 "''Jan  1 2026''"] copy_str_last [of 32 "''sim''"]
    by (simp_all add: make_desc_def nth_append copy_str_length)
  then show ?thesis by (simp add: terminate_strings_def list_update_same)
qed

lemma make_desc_magic: "le32 (make_desc v p) = kAppDescMagic"
  by (simp add: make_desc_def wire_simps)

text \<open>The simulator's own images are accepted, with the descriptor they were made with.\<close>

lemma parse_make_image: "parse_image_desc (make_image v p n) = Some (make_desc v p)"
proof -
  obtain rest where rest: "make_image v p n = [0xE9, 1] @ replicate 30 0 @ make_desc v p @ rest"
    "16 \<le> length rest"
    by (force simp: make_image_def Let_def kAppDescOffset_def)
  have "length (make_image v p n) \<ge> 288" "make_image v p n ! 0 = 0xE9"
    using rest by (simp_all add: make_desc_length)
  moreover have "take 256 (drop 32 (make_image v p n)) = make_desc v p"
    using rest by (simp add: make_desc_length)
  ultimately show ?thesis
    by (simp add: parse_image_desc_def kAppDescOffset_def make_desc_magic make_desc_terminated)
qed

section \<open>Properties\<close>

text \<open>C11: Whatever sequence of engine calls, slot switches and restarts a freshly formatted board goes
  through, the running slot and the slot the bootloader will boot hold complete images.\<close>

theorem always_bootable:
  assumes "ota_step\<^sup>*\<^sup>* (init_ota (format_flash v)) q"
  shows "complete (slots (so_flash q) (running (so_flash q))) \<and>
    complete (slots (so_flash q) (boot_slot (so_flash q)))"
  using ota_ok_reachable [OF assms format_ok] by (simp add: ota_ok_def flash_ok_def complete_def)

theorem always_bootable_witness:
  "complete (slots (so_flash (snd (ota_begin 9 (init_ota (format_flash ''1'')))))
     (boot_slot (so_flash (snd (ota_begin 9 (init_ota (format_flash ''1'')))))))"
  using always_bootable [OF r_into_rtranclp, OF ota_step.Begin] by blast

text \<open>C12: An update is on probation. After \<open>finish\<close> succeeds the next boot runs the new image
  unconfirmed; a second boot without a confirmation rolls back to the image that installed it and
  marks the new one aborted, while after \<open>mark_valid\<close> the new image keeps running.\<close>

theorem unconfirmed_image_rolls_back:
  assumes ok: "ota_ok q" and fin: "ota_finish q = (None, q1)"
    and f1: "f1 = snd (boot (so_flash q1))"
  shows "running f1 = other_of (so_flash q) \<and> pending_verify f1 \<and>
    fst (boot f1) \<and> running (snd (boot f1)) = running (so_flash q) \<and>
    sl_state (slots (snd (boot f1)) (running f1)) = IMG_ABORTED \<and>
    \<not> fst (boot (mark_valid f1)) \<and> running (snd (boot (mark_valid f1))) = running f1"
proof -
  let ?f = "so_flash q"
  obtain d where d: "so_flash q1 = commit_image d ?f"
    using fin by (auto simp: ota_finish_def Let_def split: if_splits option.splits)
  have good: "flash_ok ?f" using ok by (simp add: ota_ok_def)
  note b = boot_committed [OF good, of d, folded d, folded f1]
  have f1_ok: "flash_ok f1" using boot_ok [OF commit_ok [OF good, of d]] d f1 by simp
  have other: "other_of f1 = running ?f"
    using b good other_slot [of ?f] by (simp add: other_of_def flash_ok_def)
  show ?thesis
    using b other boot_unconfirmed [of f1] boot_confirmed [of f1] f1_ok by (simp add: flash_ok_def)
qed

definition uploaded :: sim_ota where
  "uploaded = snd (ota_write (make_image ''2'' ''omega_stick'' 0)
     (snd (ota_begin 304 (init_ota (format_flash ''1'')))))"

lemma uploaded_ok: "ota_ok uploaded"
  unfolding uploaded_def by (intro ota_ok_step [OF ota_step.Data] ota_ok_step [OF ota_step.Begin] format_ok)

lemma uploaded_fields:
  "so_active uploaded" "so_image uploaded = make_image ''2'' ''omega_stick'' 0"
  "running (so_flash uploaded) = 0"
  by (simp_all add: uploaded_def ota_write_def ota_begin_def init_ota_def format_flash_def
      pending_verify_def begin_upload_def upload_descriptor_def parse_make_image Let_def other_of_def)

theorem unconfirmed_image_rolls_back_witness:
  "\<exists>q1. ota_finish uploaded = (None, q1) \<and> running (snd (boot (so_flash q1))) = 1"
proof -
  obtain q1 where q1: "ota_finish uploaded = (None, q1)"
    by (simp add: ota_finish_def uploaded_fields parse_make_image Let_def)
  then show ?thesis
    using unconfirmed_image_rolls_back [OF uploaded_ok q1 refl]
    by (simp add: other_of_def uploaded_fields)
qed

text \<open>A descriptor survives its text: reading back what \<open>desc_to_hex\<close> wrote for a descriptor with
  the right magic gives the same descriptor with its strings terminated.\<close>

theorem descriptor_text_round_trip:
  assumes "length d = 256" "le32 d = kAppDescMagic"
  shows "desc_from_hex (desc_to_hex d) = Some (terminate_strings d)"
  using assms by (simp add: desc_from_hex_def desc_to_hex_length bytes_from_to_hex)

theorem descriptor_text_round_trip_witness:
  "desc_from_hex (desc_to_hex (make_desc ''1'' ''omega_stick'')) = Some (make_desc ''1'' ''omega_stick'')"
  using descriptor_text_round_trip [OF make_desc_length make_desc_magic]
  by (simp add: make_desc_terminated)

end
