(* ===== verification/Health_Check.thy ===== *)
theory Health_Check
  imports Ota_Slots
begin

text \<open>
  \<open>components/omega_calibration/include/firmware_health_check.hpp\<close>: the rollback deadline of an
  unconfirmed image, the crash-loop handover and its marker. The OTA engine is the interface
  \<open>ota_ops\<close>; time is a parameter of \<open>health_tick\<close>. A call that restarts the device is a result that
  says so.
\<close>

section \<open>The handover marker\<close>

definition ROLLBACK_DEADLINE :: nanos where "ROLLBACK_DEADLINE = 120000000000"
definition CHECK_INTERVAL :: nanos where "CHECK_INTERVAL = 1000000000"
definition CRASH_LOOP_RESETS :: nat where "CRASH_LOOP_RESETS = 3"
definition ROLLBACK_HOLD :: nanos where "ROLLBACK_HOLD = 100000000"

datatype health_action = NO_ACTION | HOLD_OUTPUT | ROLL_BACK

definition HANDOVER_REQUESTED :: u32 where "HANDOVER_REQUESTED = 0x4F484F31"
definition HANDOVER_DONE :: u32 where "HANDOVER_DONE = 0x4F484F32"

record handover_marker =
  booted_by_handover :: bool
  handed_over_since_power_on :: bool

definition take_handover_marker :: "u32 \<Rightarrow> bool \<Rightarrow> handover_marker \<times> u32" where
  "take_handover_marker marker power_on =
     (let by = (\<not> power_on \<and> marker = HANDOVER_REQUESTED);
          since = (\<not> power_on \<and> (by \<or> marker = HANDOVER_DONE)) in
      (\<lparr>booted_by_handover = by, handed_over_since_power_on = since\<rparr>,
       if since then HANDOVER_DONE else 0))"

section \<open>Accepting, rejecting and switching images\<close>

definition accept_after_handover :: "'o ota_ops \<Rightarrow> bool \<Rightarrow> 'o \<Rightarrow> bool \<times> 'o" where
  "accept_after_handover ops by q =
     (if \<not> by \<or> \<not> op_pending ops q then (False, q)
      else case op_mark_valid ops q of
        (None, q') \<Rightarrow> (True, q')
      | (Some e, q') \<Rightarrow> (False, q'))"

text \<open>\<open>reject_if_pending\<close> and \<open>rollback_now\<close>: the flag says that the device restarts.\<close>

definition roll_back :: "'o ota_ops \<Rightarrow> 'o \<Rightarrow> bool \<times> 'o" where
  "roll_back ops q = (case op_rollback ops q of (e, q') \<Rightarrow> (e = None, q'))"

definition reject_if_pending :: "'o ota_ops \<Rightarrow> 'o \<Rightarrow> bool \<times> 'o" where
  "reject_if_pending ops q = (if \<not> op_pending ops q then (False, q) else roll_back ops q)"

definition rollback_now :: "'o ota_ops \<Rightarrow> 'o \<Rightarrow> bool \<times> 'o" where
  "rollback_now ops q = (if \<not> op_pending ops q then (False, q) else roll_back ops q)"

record boot_record =
  br_slot :: string
  br_crash :: bool

fun crashes_while_running :: "boot_record list \<Rightarrow> string \<Rightarrow> bool list" where
  "crashes_while_running (a # b # boots) s =
     (if br_slot a = s then [br_crash b] else []) @ crashes_while_running (b # boots) s"
| "crashes_while_running [a] s = []"
| "crashes_while_running [] s = []"

definition revert_if_crash_looping :: "'o ota_ops \<Rightarrow> bool list \<Rightarrow> nat \<Rightarrow> 'o \<Rightarrow> bool \<times> 'o" where
  "revert_if_crash_looping ops crashes threshold q =
     (let count = length crashes in
      if threshold = 0 \<or> count < threshold then (False, q)
      else if \<not> list_all id (drop (count - threshold) crashes) then (False, q)
      else if op_pending ops q then (False, q)
      else case op_other ops q of
        None \<Rightarrow> (False, q)
      | Some view \<Rightarrow>
          if sv_desc view = None then (False, q)
          else if sv_state view = Some IMG_INVALID \<or> sv_state view = Some IMG_ABORTED then (False, q)
          else case op_boot_other ops q of
            (Some e, q') \<Rightarrow> (False, q')
          | (None, q') \<Rightarrow> (True, q'))"

section \<open>The deadline\<close>

record health =
  h_pending :: bool
  h_holding :: bool
  hold_start :: nanos
  h_start :: nanos
  last_check :: nanos

definition init_health :: "bool \<Rightarrow> nanos \<Rightarrow> health" where
  "init_health pending now = \<lparr>h_pending = pending, h_holding = False, hold_start = 0,
     h_start = now, last_check = now\<rparr>"

text \<open>\<open>pending\<close> is what \<open>is_pending_verify()\<close> answers when the tick asks.\<close>

definition health_tick :: "bool \<Rightarrow> nanos \<Rightarrow> health \<Rightarrow> health_action \<times> health" where
  "health_tick pending now h =
     (if h_holding h then
        if now - hold_start h < ROLLBACK_HOLD then (NO_ACTION, h)
        else (ROLL_BACK, h\<lparr>h_holding := False\<rparr>)
      else if \<not> h_pending h then (NO_ACTION, h)
      else if now - last_check h < CHECK_INTERVAL then (NO_ACTION, h)
      else
        let h1 = h\<lparr>last_check := now\<rparr> in
        if \<not> pending then (NO_ACTION, h1\<lparr>h_pending := False\<rparr>)
        else if ROLLBACK_DEADLINE \<le> now - h_start h1
        then (HOLD_OUTPUT, h1\<lparr>h_pending := False, h_holding := True, hold_start := now\<rparr>)
        else (NO_ACTION, h1))"

section \<open>Runs of ticks\<close>

text \<open>The polling loop calls \<open>tick\<close> once per iteration: a run over the times of the calls and what
  the engine answered at each.\<close>

type_synonym poll = "nanos \<times> bool"

fun health_run :: "poll list \<Rightarrow> health \<Rightarrow> (nanos \<times> health_action) list \<times> health" where
  "health_run [] h = ([], h)"
| "health_run ((now, pending) # ps) h =
     (case health_tick pending now h of (a, h1) \<Rightarrow>
        case health_run ps h1 of (as, h2) \<Rightarrow> ((now, a) # as, h2))"

abbreviation actions :: "(nanos \<times> health_action) list \<Rightarrow> (nanos \<times> health_action) list" where
  "actions as \<equiv> filter (\<lambda>x. snd x \<noteq> NO_ACTION) as"

lemma health_run_append:
  "health_run (ps @ rs) h =
     (case health_run ps h of (as, h1) \<Rightarrow> case health_run rs h1 of (bs, h2) \<Rightarrow> (as @ bs, h2))"
  by (induction ps arbitrary: h) (auto split: prod.splits)

lemma idle_run:
  "\<not> h_holding h \<Longrightarrow> \<not> h_pending h \<Longrightarrow> actions (fst (health_run ps h)) = [] \<and> snd (health_run ps h) = h"
  by (induction ps) (auto simp: health_tick_def split: prod.splits)

lemma holding_run:
  "h_holding h \<Longrightarrow> \<not> h_pending h \<Longrightarrow>
   actions (fst (health_run ps h)) = [] \<and> snd (health_run ps h) = h \<or>
   (\<exists>t. actions (fst (health_run ps h)) = [(t, ROLL_BACK)] \<and> hold_start h + ROLLBACK_HOLD \<le> t)"
proof (induction ps)
  case (Cons p ps)
  obtain now pend where p: "p = (now, pend)" by force
  show ?case
  proof (cases "now - hold_start h < ROLLBACK_HOLD")
    case True
    then have "health_tick pend now h = (NO_ACTION, h)" using Cons.prems by (simp add: health_tick_def)
    then show ?thesis using Cons p by (auto split: prod.splits)
  next
    case False
    then have "health_tick pend now h = (ROLL_BACK, h\<lparr>h_holding := False\<rparr>)"
      using Cons.prems by (simp add: health_tick_def)
    then show ?thesis using idle_run [of "h\<lparr>h_holding := False\<rparr>" ps] Cons.prems False p
      by (auto split: prod.splits)
  qed
qed simp

text \<open>The shape of every run: nothing, a hold, or a hold and then a rollback.\<close>

inductive orderly :: "nanos \<Rightarrow> (nanos \<times> health_action) list \<Rightarrow> bool" where
  Quiet: "orderly start []"
| Held: "start + ROLLBACK_DEADLINE \<le> t \<Longrightarrow> orderly start [(t, HOLD_OUTPUT)]"
| Rolled: "start + ROLLBACK_DEADLINE \<le> t \<Longrightarrow> t + ROLLBACK_HOLD \<le> u \<Longrightarrow>
    orderly start [(t, HOLD_OUTPUT), (u, ROLL_BACK)]"

code_pred orderly .

lemma pending_run:
  "\<not> h_holding h \<Longrightarrow> orderly (h_start h) (actions (fst (health_run ps h)))"
proof (induction ps arbitrary: h)
  case Nil
  then show ?case by (simp add: orderly.Quiet)
next
  case (Cons p ps)
  obtain now pend where p: "p = (now, pend)" by force
  show ?case
  proof (cases "fst (health_tick pend now h) = NO_ACTION")
    case True
    then have "\<not> h_holding (snd (health_tick pend now h))" "h_start (snd (health_tick pend now h)) = h_start h"
      using Cons.prems by (auto simp: health_tick_def Let_def split: if_splits)
    then show ?thesis using Cons.IH [of "snd (health_tick pend now h)"] True p
      by (auto split: prod.splits)
  next
    case False
    let ?h = "snd (health_tick pend now h)"
    have h: "fst (health_tick pend now h) = HOLD_OUTPUT" "h_start h + ROLLBACK_DEADLINE \<le> now"
      "h_holding ?h" "\<not> h_pending ?h" "hold_start ?h = now"
      using False Cons.prems by (auto simp: health_tick_def Let_def split: if_splits)
    then show ?thesis using holding_run [of ?h ps] p
      by (auto split: prod.splits intro: orderly.intros)
  qed
qed

lemma tick_holds_pending: "fst (health_tick pend now h) = HOLD_OUTPUT \<Longrightarrow> pend"
  by (auto simp: health_tick_def Let_def split: if_splits)

lemma hold_needs_pending:
  "(t, HOLD_OUTPUT) \<in> set (fst (health_run ps h)) \<Longrightarrow> (t, True) \<in> set ps"
proof (induction ps arbitrary: h)
  case (Cons p ps)
  obtain now pend where p: "p = (now, pend)" by force
  show ?case
    using Cons.IH [of "snd (health_tick pend now h)"] Cons.prems tick_holds_pending [of pend now h] p
    by (auto split: prod.splits)
qed simp

text \<open>While the image stays unconfirmed: waiting for the deadline, or holding.\<close>

definition waiting :: "nanos \<Rightarrow> health \<Rightarrow> bool" where
  "waiting t h \<longleftrightarrow>
     (if h_holding h then hold_start h \<le> t
      else h_pending h \<and> last_check h < h_start h + ROLLBACK_DEADLINE)"

fun polled_from :: "nanos \<Rightarrow> poll list \<Rightarrow> bool" where
  "polled_from t [] \<longleftrightarrow> True"
| "polled_from t ((now, pend) # ps) \<longleftrightarrow> t \<le> now \<and> pend \<and> polled_from now ps"

lemma waiting_tick:
  assumes "waiting t h" "t \<le> now"
  shows "fst (health_tick True now h) = ROLL_BACK \<or>
    waiting now (snd (health_tick True now h)) \<and> h_start (snd (health_tick True now h)) = h_start h \<and>
    (h_start h + ROLLBACK_DEADLINE + CHECK_INTERVAL \<le> now \<or> h_holding h \<longrightarrow>
       h_holding (snd (health_tick True now h)))"
  using assms by (auto simp: health_tick_def waiting_def Let_def ROLLBACK_DEADLINE_def CHECK_INTERVAL_def)

lemma held_tick:
  "h_holding h \<Longrightarrow> hold_start h + ROLLBACK_HOLD \<le> now \<Longrightarrow> fst (health_tick p now h) = ROLL_BACK"
  by (simp add: health_tick_def)

fun poll_end :: "nanos \<Rightarrow> poll list \<Rightarrow> nanos" where
  "poll_end t [] = t"
| "poll_end t (p # ps) = poll_end (fst p) ps"

lemma polled_append: "polled_from t (ps @ rs) \<longleftrightarrow> polled_from t ps \<and> polled_from (poll_end t ps) rs"
  by (induction t ps rule: polled_from.induct) auto

abbreviation rolled_back :: "(nanos \<times> health_action) list \<Rightarrow> bool" where
  "rolled_back as \<equiv> ROLL_BACK \<in> snd ` set as"

lemma holding_tick:
  "h_holding h \<Longrightarrow> fst (health_tick p now h) = ROLL_BACK \<or> snd (health_tick p now h) = h"
  by (simp add: health_tick_def)

text \<open>Until it rolls back, a run of an unconfirmed image keeps waiting, and a hold stays.\<close>

lemma waiting_run:
  "waiting t h \<Longrightarrow> polled_from t ps \<Longrightarrow> rolled_back (fst (health_run ps h)) \<or>
   waiting (poll_end t ps) (snd (health_run ps h)) \<and> h_start (snd (health_run ps h)) = h_start h \<and>
   (h_holding h \<longrightarrow> snd (health_run ps h) = h)"
proof (induction ps arbitrary: t h)
  case (Cons p ps)
  obtain now where p: "p = (now, True)" "t \<le> now" "polled_from now ps"
    using Cons.prems by (cases p) auto
  let ?t = "health_tick True now h"
  show ?case
  proof (cases "fst ?t = ROLL_BACK")
    case True
    then show ?thesis by (auto simp: p split: prod.splits)
  next
    case False
    with waiting_tick [OF Cons.prems(1) p(2)]
    have w: "waiting now (snd ?t)" "h_start (snd ?t) = h_start h" by auto
    then show ?thesis using Cons.IH [OF w(1) p(3)] holding_tick [of h True now] False p
      by (auto split: prod.splits)
  qed
qed simp

section \<open>Switching images on the simulator's engine\<close>

lemma set_boot_changes:
  "set_boot i f = (None, f') \<Longrightarrow> i \<noteq> running f \<Longrightarrow>
   f' = (set_state i IMG_NEW f)\<lparr>boot_slot := i, restart_reason := ''revert''\<rparr>"
  by (auto simp: set_boot_def Let_def split: if_splits)

text \<open>A switch asked for by the crash-loop check points the bootloader at the other, complete slot.\<close>

lemma revert_switches:
  assumes "revert_if_crash_looping sim_ops cs k q = (True, q')" "ota_ok q"
  shows "boot_slot (so_flash q') = other_of (so_flash q) \<and> running (so_flash q') = running (so_flash q) \<and>
    sl_state (slots (so_flash q') (other_of (so_flash q))) = IMG_NEW \<and> ota_ok q' \<and>
    sl_state (slots (so_flash q') (running (so_flash q))) \<noteq> IMG_PENDING_VERIFY"
proof -
  let ?f = "so_flash q"
  have q': "set_boot (other_of ?f) ?f = (None, so_flash q')" "\<not> pending_verify ?f"
    "q' = snd (op_boot_other sim_ops q)"
    using assms(1)
    by (auto simp: revert_if_crash_looping_def sim_ops_def Let_def split: if_splits prod.splits option.splits)
  have "ota_ok q'" using ota_ok_step [OF ota_step.Switch assms(2)] q'(3) by simp
  moreover have o: "other_of ?f \<noteq> running ?f"
    using assms(2) other_neq [of ?f] by (simp add: ota_ok_def flash_ok_def)
  ultimately show ?thesis
    using q'(2) set_boot_changes [OF q'(1) o] by (simp add: pending_verify_def set_state_def)
qed

lemma boot_new_slot:
  assumes "flash_ok f" "sl_state (slots f (boot_slot f)) = IMG_NEW"
  shows "\<not> fst (boot f) \<and> running (snd (boot f)) = boot_slot f \<and> pending_verify (snd (boot f)) \<and>
    boot_slot (snd (boot f)) = boot_slot f"
  using assms by (auto simp: boot_def Let_def pending_verify_def abort_pending_def flash_ok_def set_state_def)

section \<open>Properties\<close>

text \<open>C9: Over any sequence of polls, at any times, the health check asks for nothing, or for the hold
  once, or for the hold once and then the rollback once: the hold no earlier than the deadline, the
  rollback at least \<open>ROLLBACK_HOLD\<close> after it. It asks for the hold only at a poll where the engine
  still said that the image is unconfirmed.\<close>

theorem deadline_is_orderly:
  "orderly start (actions (fst (health_run ps (init_health pending start)))) \<and>
   {t. (t, HOLD_OUTPUT) \<in> set (fst (health_run ps (init_health pending start)))} \<subseteq> {t. (t, True) \<in> set ps}"
  using pending_run [of "init_health pending start" ps] hold_needs_pending
  by (auto simp: init_health_def)

text \<open>If the loop polls once after the deadline plus one check interval and once more at least
  \<open>ROLLBACK_HOLD\<close> later, a rollback of an unconfirmed image was asked for, whatever other polls there were.\<close>

lemma rollback_is_asked_for:
  assumes polls: "polled_from start (ps @ [(t, True)] @ rs @ [(u, True)])"
    and t: "start + ROLLBACK_DEADLINE + CHECK_INTERVAL \<le> t" and u: "t + ROLLBACK_HOLD \<le> u"
  shows "rolled_back (fst (health_run (ps @ [(t, True)] @ rs @ [(u, True)]) (init_health True start)))"
proof -
  let ?h0 = "init_health True start"
  let ?h1 = "snd (health_run ps ?h0)"
  let ?h2 = "snd (health_tick True t ?h1)"
  let ?h3 = "snd (health_run rs ?h2)"
  have w0: "waiting start ?h0" by (simp add: waiting_def init_health_def ROLLBACK_DEADLINE_def)
  have split: "health_run (ps @ [(t, True)] @ rs @ [(u, True)]) ?h0 =
    (fst (health_run ps ?h0) @ (t, fst (health_tick True t ?h1)) # fst (health_run rs ?h2) @
       [(u, fst (health_tick True u ?h3))], snd (health_tick True u ?h3))"
    by (simp add: health_run_append split: prod.splits)
  have order: "polled_from start ps" "poll_end start ps \<le> t" "polled_from t rs"
    using polls by (simp_all add: polled_append)
  show ?thesis
  proof (rule ccontr)
    assume "\<not> ?thesis"
    then have no: "\<not> rolled_back (fst (health_run ps ?h0))" "fst (health_tick True t ?h1) \<noteq> ROLL_BACK"
      "\<not> rolled_back (fst (health_run rs ?h2))" "fst (health_tick True u ?h3) \<noteq> ROLL_BACK"
      unfolding split by auto
    have w1: "waiting (poll_end start ps) ?h1" "h_start ?h1 = start"
      using waiting_run [OF w0 order(1)] no(1) by (auto simp: init_health_def)
    have w2: "waiting t ?h2" "h_holding ?h2"
      using waiting_tick [OF w1(1) order(2)] no(2) t w1(2) by auto
    have "?h3 = ?h2" using waiting_run [OF w2(1) order(3)] no(3) w2(2) by auto
    moreover have "hold_start ?h2 \<le> t" using w2 by (simp add: waiting_def)
    ultimately show False using held_tick [of ?h3 u True] no(4) u w2(2) by simp
  qed
qed

text \<open>The crash-loop check switches only away from an image that the last \<open>threshold\<close> resets charge
  with a crash and that is confirmed, and never to an empty or rejected slot; the next boot runs the
  other image, and once \<open>accept_after_handover\<close> has confirmed it, it keeps running.\<close>

lemma revert_then_accept:
  assumes ok: "ota_ok q" and sw: "revert_if_crash_looping sim_ops cs k q = (True, q1)"
    and q2: "q2 = init_ota (snd (boot (so_flash q1)))"
    and acc: "accept_after_handover sim_ops True q2 = (c, q3)"
  shows "0 < k \<and> k \<le> length cs \<and> list_all id (drop (length cs - k) cs) \<and>
    \<not> pending_verify (so_flash q) \<and> complete (slots (so_flash q) (other_of (so_flash q))) \<and>
    sl_state (slots (so_flash q) (other_of (so_flash q))) \<notin> {IMG_INVALID, IMG_ABORTED} \<and>
    running (so_flash q2) = other_of (so_flash q) \<and> c \<and>
    running (snd (boot (so_flash q3))) = other_of (so_flash q)"
proof -
  let ?f = "so_flash q"
  have g: "0 < k" "k \<le> length cs" "list_all id (drop (length cs - k) cs)" "\<not> pending_verify ?f"
    "has_image (slots ?f (other_of ?f))" "\<not> partial (slots ?f (other_of ?f))"
    "sl_state (slots ?f (other_of ?f)) \<notin> {IMG_INVALID, IMG_ABORTED}"
    using sw
    by (auto simp: revert_if_crash_looping_def sim_ops_def Let_def describe_def state_of_def
        set_boot_def split: if_splits prod.splits option.splits)
  note s = revert_switches [OF sw ok]
  have b: "running (so_flash q2) = other_of ?f" "pending_verify (so_flash q2)"
    "boot_slot (so_flash q2) = running (so_flash q2)"
    using boot_new_slot [of "so_flash q1"] s by (simp_all add: q2 init_ota_def ota_ok_def)
  then have "c" "so_flash q3 = mark_valid (so_flash q2)"
    using acc by (auto simp: accept_after_handover_def sim_ops_def ota_mark_valid_def)
  then show ?thesis using g b boot_confirmed [OF b(3)] by (simp add: complete_def)
qed

definition crashing :: sim_ota where
  "crashing = init_ota ((format_flash ''1'')\<lparr>slots := (slots (format_flash ''1''))
     (1 := (empty_slot ''ota_1'')\<lparr>has_image := True, sl_state := IMG_VALID\<rparr>)\<rparr>)"

end
