(* ===== verification/Service.thy ===== *)
theory Service
  imports Store Health_Check
begin

text \<open>
  \<open>components/omega_calibration/include/calibration_service.hpp\<close>: the console's request handler. One
  definition per message; each takes the wiring (the service's \<open>Config\<close>), the state of this service
  and the world it shares with other services and the polling loop, and gives the reply frame and
  both afterwards. The frame codec (\<open>espp::stream_frame\<close>) and the error texts of the platform are
  parameters.
\<close>

section \<open>Parameters\<close>

text \<open>\<open>std::error_code\<close>: its value, whether its category is the generic one, the generic condition it
  maps to if any, and its message.\<close>

record error_code =
  ec_value :: int
  ec_generic :: bool
  ec_condition :: "int option"
  ec_message :: string

record codec =
  put_u32 :: "u32 \<Rightarrow> bytes"
  get_u32 :: "bytes \<Rightarrow> u32"
  build_frame :: "bool \<Rightarrow> u8 \<Rightarrow> u8 \<Rightarrow> bytes \<Rightarrow> bytes"
  kMaxPayloadSize :: nat
  errc_code :: "errc \<Rightarrow> error_code"

section \<open>Messages\<close>

datatype msg =
    GetState | SetManualOffset | SetDeadzoneOverride | SetNudgeSettings | SetInputMode | SaveToFlash
  | StartCalibration | Restart_device | OtaBegin | OtaData | OtaFinish | OtaAbort | GetFwInfo | MarkValid
  | Revert | GetDiagnostics | SetNudgeEnabled
  | State_reply | CalibrationResult | FwInfo | Diagnostics | Ok_reply | Error_reply

definition msg_code :: "msg \<Rightarrow> u8" where
  "msg_code m = (case m of GetState \<Rightarrow> 0x50 | SetManualOffset \<Rightarrow> 0x51 | SetDeadzoneOverride \<Rightarrow> 0x52
     | SetNudgeSettings \<Rightarrow> 0x53 | SetInputMode \<Rightarrow> 0x54 | SaveToFlash \<Rightarrow> 0x55
     | StartCalibration \<Rightarrow> 0x56 | Restart_device \<Rightarrow> 0x57 | OtaBegin \<Rightarrow> 0x58 | OtaData \<Rightarrow> 0x59
     | OtaFinish \<Rightarrow> 0x5A | OtaAbort \<Rightarrow> 0x5B | GetFwInfo \<Rightarrow> 0x5C | MarkValid \<Rightarrow> 0x5D | Revert \<Rightarrow> 0x5E
     | GetDiagnostics \<Rightarrow> 0x5F | SetNudgeEnabled \<Rightarrow> 0x60 | State_reply \<Rightarrow> 0xD0
     | CalibrationResult \<Rightarrow> 0xD1 | FwInfo \<Rightarrow> 0xD2 | Diagnostics \<Rightarrow> 0xD3 | Ok_reply \<Rightarrow> 0xDF
     | Error_reply \<Rightarrow> 0xFE)"

definition requests :: "msg list" where
  "requests = [GetState, SetManualOffset, SetDeadzoneOverride, SetNudgeSettings, SetInputMode,
     SaveToFlash, StartCalibration, Restart_device, OtaBegin, OtaData, OtaFinish, OtaAbort, GetFwInfo,
     MarkValid, Revert, GetDiagnostics, SetNudgeEnabled]"

definition request_of :: "u8 \<Rightarrow> msg option" where
  "request_of t = find (\<lambda>m. msg_code m = t) requests"

definition kModule :: u8 where "kModule = 5"
definition REPLY_FLUSH_DELAY :: millis where "REPLY_FLUSH_DELAY = 750"
definition OTA_IDLE_TIMEOUT :: nanos where "OTA_IDLE_TIMEOUT = 30000000000"
definition kStatePayloadSize :: nat where "kStatePayloadSize = 80"

record reset_info =
  ri_boot :: u32
  ri_reason :: u8
  ri_abnormal :: bool
  ri_name :: string

record diagnostics =
  dg_fault :: u8
  dg_first_fault :: u8
  dg_fault_count :: u32
  dg_boot_count :: u32
  dg_resets :: "reset_info list"
  dg_calibration_state :: u8

definition CALIBRATION_USABLE :: u8 where "CALIBRATION_USABLE = 0"
definition CALIBRATION_NEEDED :: u8 where "CALIBRATION_NEEDED = 1"

section \<open>State and wiring\<close>

datatype deferred = Apply_mode input_mode | Reboot_ota | Reboot_device

record service =
  ota_owner :: bool
  ota_last_activity :: nanos
  sv_holding :: bool
  after_reply :: "deferred option"

definition init_service :: service where
  "init_service = \<lparr>ota_owner = False, ota_last_activity = 0, sv_holding = False, after_reply = None\<rparr>"

record ('o, 'x) world =
  wd_store :: store
  wd_ota :: 'o
  wd_env :: 'x

text \<open>\<open>Config\<close>: what the application wires in. \<open>w_fired\<close> carries out the store's callbacks, \<open>w_saved\<close>
  is \<open>OmegaStore::save_to_flash\<close> on the device's files, \<open>w_reboot\<close> schedules a deferred reboot.\<close>

record ('o, 'x) wiring =
  w_module :: u8
  w_ota :: "'o ota_ops option"
  w_send :: "(bytes \<Rightarrow> ('o, 'x) world \<Rightarrow> bool \<times> ('o, 'x) world) option"
  w_start_calibration :: "(('o, 'x) world \<Rightarrow> error_code option \<times> ('o, 'x) world) option"
  w_restart :: bool
  w_diagnostics :: "(('o, 'x) world \<Rightarrow> diagnostics) option"
  w_output_hold :: "(bool \<Rightarrow> ('o, 'x) world \<Rightarrow> ('o, 'x) world) option"
  w_fired :: "store_event list \<Rightarrow> ('o, 'x) world \<Rightarrow> ('o, 'x) world"
  w_saved :: "('o, 'x) world \<Rightarrow> error_code option \<times> ('o, 'x) world"
  w_reboot :: "deferred \<Rightarrow> ('o, 'x) world \<Rightarrow> ('o, 'x) world"

type_synonym ('o, 'x) sw = "service \<times> ('o, 'x) world"

section \<open>Encoding\<close>

definition put_f32 :: "f32 \<Rightarrow> bytes" where
  "put_f32 v = [ucast v, ucast (drop_bit 8 v), ucast (drop_bit 16 v), ucast (drop_bit 24 v)]"

definition get_f32 :: "bytes \<Rightarrow> nat \<Rightarrow> f32" where
  "get_f32 d n = ucast (d ! n) OR push_bit 8 (ucast (d ! (n + 1))) OR push_bit 16 (ucast (d ! (n + 2)))
     OR push_bit 24 (ucast (d ! (n + 3)))"

definition flag :: "bool \<Rightarrow> u8" where
  "flag b = (if b then 1 else 0)"

definition build :: "codec \<Rightarrow> msg \<Rightarrow> bytes \<Rightarrow> u8 \<Rightarrow> bytes" where
  "build C m p md = build_frame C (msg_code m AND 0x80 \<noteq> 0) md (msg_code m) p"

definition build_ok :: "codec \<Rightarrow> ('o, 'x) wiring \<Rightarrow> u32 \<Rightarrow> bytes" where
  "build_ok C W v = build C Ok_reply (put_u32 C v) (w_module W)"

text \<open>The message is cut to the payload limit, never inside a UTF-8 sequence.\<close>

fun utf8_cut :: "bytes \<Rightarrow> nat \<Rightarrow> nat" where
  "utf8_cut m 0 = 0"
| "utf8_cut m (Suc n) =
     (if Suc n < length m \<and> (m ! Suc n) AND 0xC0 = 0x80 then utf8_cut m n else Suc n)"

definition cut_message :: "nat \<Rightarrow> bytes \<Rightarrow> bytes" where
  "cut_message room m = take (utf8_cut m (min (length m) room)) m"

definition error_number :: "codec \<Rightarrow> error_code \<Rightarrow> int" where
  "error_number C ec =
     (if ec_generic ec then ec_value ec
      else case ec_condition ec of Some v \<Rightarrow> v | None \<Rightarrow> ec_value (errc_code C Io_error))"

definition error_payload :: "codec \<Rightarrow> error_code \<Rightarrow> string \<Rightarrow> bytes" where
  "error_payload C ec ctxt =
     (let p = put_u32 C (word_of_int (error_number C ec)) in
      p @ cut_message (kMaxPayloadSize C - length p) (string_bytes (ctxt @ '': '' @ ec_message ec)))"

definition build_error :: "codec \<Rightarrow> ('o, 'x) wiring \<Rightarrow> error_code \<Rightarrow> string \<Rightarrow> bytes" where
  "build_error C W ec ctxt = build C Error_reply (error_payload C ec ctxt) (w_module W)"

abbreviation build_errc :: "codec \<Rightarrow> ('o, 'x) wiring \<Rightarrow> errc \<Rightarrow> string \<Rightarrow> bytes" where
  "build_errc C W e ctxt \<equiv> build_error C W (errc_code C e) ctxt"

definition build_state_payload :: "codec \<Rightarrow> store \<Rightarrow> bytes" where
  "build_state_payload C st =
     (let c = st_center st; r = st_range st; s = st_settings st;
          opt = (\<lambda>v. flag (v \<noteq> None) # put_f32 (case v of Some x \<Rightarrow> x | None \<Rightarrow> f_0)) in
      put_f32 (center_x c) @ put_f32 (center_y c) @ put_f32 (noise_radius c)
      @ put_f32 (center_deadzone c) @ put_f32 (manual_offset_x c) @ put_f32 (manual_offset_y c)
      @ put_f32 (min_x r) @ put_f32 (max_x r) @ put_f32 (min_y r) @ put_f32 (max_y r)
      @ put_f32 (usable_radius r) @ put_f32 (reliable_max_radius r)
      @ put_f32 (normalized_max_radius r) @ put_f32 (range_deadzone r)
      @ opt (manual_center_deadzone s) @ opt (manual_range_deadzone s)
      @ put_f32 (nudge_distance_threshold s) @ put_f32 (nudge_exit_threshold s)
      @ put_u32 C (word_of_int (nudge_hold_time s))
      @ [code_of_mode (input_mode s), flag (nudge_enabled s)])"

definition name_bytes :: "reset_info \<Rightarrow> bytes" where
  "name_bytes r = take 255 (string_bytes (ri_name r))"

definition reset_bytes :: "codec \<Rightarrow> reset_info \<Rightarrow> bytes" where
  "reset_bytes C r = put_u32 C (ri_boot r) @
     [ri_reason r, flag (ri_abnormal r), word_of_nat (length (name_bytes r))] @ name_bytes r"

text \<open>How many of the newest resets (the list is newest first) fit.\<close>

fun fitting :: "nat \<Rightarrow> nat \<Rightarrow> nat \<Rightarrow> reset_info list \<Rightarrow> nat" where
  "fitting room used n [] = n"
| "fitting room used n (r # rs) =
     (let entry = 4 + 1 + 1 + 1 + length (name_bytes r) in
      if room < used + entry \<or> 255 < n + 1 then n else fitting room (used + entry) (n + 1) rs)"

definition build_diagnostics_payload :: "codec \<Rightarrow> diagnostics \<Rightarrow> bytes" where
  "build_diagnostics_payload C d =
     (let h = [dg_fault d, dg_first_fault d] @ put_u32 C (dg_fault_count d) @ put_u32 C (dg_boot_count d);
          n = fitting (kMaxPayloadSize C) (length h + 1 + 1) 0 (rev (dg_resets d));
          kept = drop (length (dg_resets d) - n) (dg_resets d) in
      h @ [word_of_nat (length kept)] @ concat (map (reset_bytes C) kept) @ [dg_calibration_state d])"

section \<open>The output hold\<close>

text \<open>Only edges reach \<open>Config::output_hold\<close>.\<close>

definition hold_output :: "('o, 'x) wiring \<Rightarrow> bool \<Rightarrow> ('o, 'x) sw \<Rightarrow> ('o, 'x) sw" where
  "hold_output W hold sw =
     (let (s, w) = sw in
      if hold = sv_holding s then (s, w)
      else (s\<lparr>sv_holding := hold\<rparr>,
            case w_output_hold W of None \<Rightarrow> w | Some f \<Rightarrow> f hold w))"

definition owner :: "bool \<Rightarrow> ('o, 'x) sw \<Rightarrow> ('o, 'x) sw" where
  "owner b sw = (case sw of (s, w) \<Rightarrow> (s\<lparr>ota_owner := b\<rparr>, w))"

definition deferring :: "deferred \<Rightarrow> ('o, 'x) sw \<Rightarrow> ('o, 'x) sw" where
  "deferring a sw = (case sw of (s, w) \<Rightarrow> (s\<lparr>after_reply := Some a\<rparr>, w))"

text \<open>An engine call on the shared engine, and one that reports an error code.\<close>

definition on_ota :: "('o \<Rightarrow> 'o) \<Rightarrow> ('o, 'x) sw \<Rightarrow> ('o, 'x) sw" where
  "on_ota f sw = (case sw of (s, w) \<Rightarrow> (s, w\<lparr>wd_ota := f (wd_ota w)\<rparr>))"

definition try_ota :: "('o \<Rightarrow> 'e option \<times> 'o) \<Rightarrow> ('o, 'x) sw \<Rightarrow> 'e option \<times> ('o, 'x) sw" where
  "try_ota f sw = (case sw of (s, w) \<Rightarrow>
     case f (wd_ota w) of (e, q) \<Rightarrow> (e, s, w\<lparr>wd_ota := q\<rparr>))"

definition active :: "'o ota_ops \<Rightarrow> ('o, 'x) sw \<Rightarrow> bool" where
  "active ops sw = op_active ops (wd_ota (snd sw))"

definition NO_OTA :: string where "NO_OTA = ''OTA not wired on this build''"

section \<open>Firmware updates\<close>

text \<open>What \<open>OTA_BEGIN\<close> does once its checks have passed: take over a stale session of this link, hold
  the output, begin; a failed begin releases the hold unless it was up already.\<close>

definition begin_session ::
  "'o ota_ops \<Rightarrow> ('o, 'x) wiring \<Rightarrow> nanos \<Rightarrow> nat \<Rightarrow> ('o, 'x) sw \<Rightarrow> errc option \<times> ('o, 'x) sw" where
  "begin_session ops W now n sw =
     (let took_over = (ota_owner (fst sw) \<and> active ops sw);
          sw1 = (if took_over then owner False (on_ota (op_abort ops) sw) else sw);
          was_holding = sv_holding (fst sw1) in
      case try_ota (op_begin ops n) (hold_output W True sw1) of
        (Some e, sw2) \<Rightarrow> (Some e, if \<not> was_holding \<or> took_over then hold_output W False sw2 else sw2)
      | (None, s, w) \<Rightarrow> (None, s\<lparr>ota_owner := True, ota_last_activity := now\<rparr>, w))"

definition ota_begin_msg ::
  "codec \<Rightarrow> ('o, 'x) wiring \<Rightarrow> nanos \<Rightarrow> bytes \<Rightarrow> ('o, 'x) sw \<Rightarrow> bytes \<times> ('o, 'x) sw" where
  "ota_begin_msg C W now payload sw =
     (case w_ota W of None \<Rightarrow> (build_errc C W Function_not_supported NO_OTA, sw)
      | Some ops \<Rightarrow>
          if length payload \<noteq> 4 then
            (build_errc C W Invalid_argument ''OTA_BEGIN needs u32 image size'', sw)
          else if op_pending ops (wd_ota (snd sw)) then
            (build_errc C W Operation_not_permitted
              ''OTA_BEGIN refused: the running image is not confirmed yet; confirm it (MARK_VALID) or wait for the rollback'', sw)
          else
            (case begin_session ops W now (unat (get_u32 C payload)) sw of
               (Some e, sw1) \<Rightarrow> (build_errc C W e ''OTA_BEGIN failed'', sw1)
             | (None, sw1) \<Rightarrow> (build_ok C W 0, sw1)))"

definition ota_data_msg ::
  "codec \<Rightarrow> ('o, 'x) wiring \<Rightarrow> nanos \<Rightarrow> bytes \<Rightarrow> ('o, 'x) sw \<Rightarrow> bytes \<times> ('o, 'x) sw" where
  "ota_data_msg C W now payload sw =
     (case w_ota W of
        None \<Rightarrow> (build_errc C W Operation_not_permitted ''no OTA session started here'', sw)
      | Some ops \<Rightarrow>
          if \<not> ota_owner (fst sw) then
            (build_errc C W Operation_not_permitted ''no OTA session started here'', sw)
          else if length payload \<le> 4 then
            (build_errc C W Invalid_argument ''OTA_DATA needs u32 offset + data'', sw)
          else if unat (get_u32 C payload) \<noteq> op_written ops (wd_ota (snd sw)) then
            (build_errc C W Invalid_argument ''OTA_DATA offset mismatch'', sw)
          else
            case try_ota (op_write ops (drop 4 payload)) sw of
              (Some e, sw1) \<Rightarrow>
                (build_errc C W e ''OTA_DATA write failed'', hold_output W False (owner False sw1))
            | (None, s, w) \<Rightarrow>
                (build_ok C W (word_of_nat (op_written ops (wd_ota w))),
                 s\<lparr>ota_last_activity := now\<rparr>, w))"

definition ota_finish_msg :: "codec \<Rightarrow> ('o, 'x) wiring \<Rightarrow> ('o, 'x) sw \<Rightarrow> bytes \<times> ('o, 'x) sw" where
  "ota_finish_msg C W sw =
     (case w_ota W of
        None \<Rightarrow> (build_errc C W Operation_not_permitted ''no OTA session started here'', sw)
      | Some ops \<Rightarrow>
          if \<not> ota_owner (fst sw) then
            (build_errc C W Operation_not_permitted ''no OTA session started here'', sw)
          else
            case try_ota (op_finish ops) sw of
              (Some e, sw1) \<Rightarrow>
                (build_errc C W e ''OTA_FINISH (validate/activate) failed'',
                 hold_output W False (owner False sw1))
            | (None, sw1) \<Rightarrow>
                (build_ok C W 0, deferring Reboot_ota (hold_output W True (owner False sw1))))"

text \<open>Ends an upload this service began; what \<open>OTA_ABORT\<close>, \<open>abort_update\<close> and the idle expiry share.\<close>

definition end_upload :: "'o ota_ops \<Rightarrow> ('o, 'x) wiring \<Rightarrow> ('o, 'x) sw \<Rightarrow> ('o, 'x) sw" where
  "end_upload ops W sw = hold_output W False (owner False (on_ota (op_abort ops) sw))"

definition abort_update :: "('o, 'x) wiring \<Rightarrow> ('o, 'x) sw \<Rightarrow> ('o, 'x) sw" where
  "abort_update W sw =
     (case w_ota W of None \<Rightarrow> sw
      | Some ops \<Rightarrow> if ota_owner (fst sw) then end_upload ops W sw else sw)"

definition ota_abort_msg :: "codec \<Rightarrow> ('o, 'x) wiring \<Rightarrow> ('o, 'x) sw \<Rightarrow> bytes \<times> ('o, 'x) sw" where
  "ota_abort_msg C W sw = (build_ok C W 0, abort_update W sw)"

text \<open>\<open>busy\<close>: another thread holds the service's mutex.\<close>

definition expire_stale_update ::
  "('o, 'x) wiring \<Rightarrow> nanos \<Rightarrow> nanos \<Rightarrow> bool \<Rightarrow> ('o, 'x) sw \<Rightarrow> bool \<times> ('o, 'x) sw" where
  "expire_stale_update W max_idle now busy sw =
     (case w_ota W of None \<Rightarrow> (False, sw)
      | Some ops \<Rightarrow>
          if busy \<or> \<not> ota_owner (fst sw) then (False, sw)
          else if \<not> active ops sw then (False, hold_output W False (owner False sw))
          else if now - ota_last_activity (fst sw) < max_idle then (False, sw)
          else (True, end_upload ops W sw))"

definition revert_msg ::
  "codec \<Rightarrow> ('o, 'x) wiring \<Rightarrow> bytes \<Rightarrow> ('o, 'x) sw \<Rightarrow> bytes \<times> ('o, 'x) sw" where
  "revert_msg C W payload sw =
     (case w_ota W of None \<Rightarrow> (build_errc C W Function_not_supported NO_OTA, sw)
      | Some ops \<Rightarrow>
          if payload \<noteq> [] then (build_errc C W Invalid_argument ''REVERT takes no payload'', sw)
          else
            let sw1 = (if ota_owner (fst sw) \<and> active ops sw then end_upload ops W sw else sw) in
            if active ops sw1 then
              (build_errc C W Operation_in_progress
                ''REVERT refused: a firmware upload is in progress'', sw1)
            else if (case op_other ops (wd_ota (snd sw1)) of None \<Rightarrow> True | Some v \<Rightarrow> sv_desc v = None) then
              (build_errc C W No_such_device
                ''REVERT refused: the other slot holds no app image'', sw1)
            else
              case try_ota (op_boot_other ops) sw1 of
                (Some name, sw2) \<Rightarrow>
                  (build_errc C W Io_error (''REVERT: esp_ota_set_boot_partition failed: '' @ name), sw2)
              | (None, sw2) \<Rightarrow> (build_ok C W 0, deferring Reboot_ota (hold_output W True sw2)))"

definition mark_valid_msg :: "codec \<Rightarrow> ('o, 'x) wiring \<Rightarrow> ('o, 'x) sw \<Rightarrow> bytes \<times> ('o, 'x) sw" where
  "mark_valid_msg C W sw =
     (case w_ota W of None \<Rightarrow> (build_errc C W Function_not_supported NO_OTA, sw)
      | Some ops \<Rightarrow>
          case try_ota (op_mark_valid ops) sw of
            (Some e, sw1) \<Rightarrow> (build_errc C W e ''MARK_VALID failed'', sw1)
          | (None, sw1) \<Rightarrow> (build_ok C W 0, sw1))"

definition ota_state_name :: "img_state \<Rightarrow> string" where
  "ota_state_name st = (case st of IMG_NEW \<Rightarrow> ''new'' | IMG_PENDING_VERIFY \<Rightarrow> ''pending_verify''
     | IMG_VALID \<Rightarrow> ''valid'' | IMG_INVALID \<Rightarrow> ''invalid'' | IMG_ABORTED \<Rightarrow> ''aborted''
     | IMG_UNDEFINED \<Rightarrow> ''undefined'')"

text \<open>A C string inside a descriptor, from its offset to the first zero byte.\<close>

definition desc_string :: "app_desc \<Rightarrow> nat \<Rightarrow> bytes" where
  "desc_string d off = takeWhile (\<lambda>b. b \<noteq> 0) (drop off d)"

definition sized_string :: "bytes \<Rightarrow> bytes" where
  "sized_string t = (let n = min (length t) 255 in word_of_nat n # take n t)"

text \<open>Label, version, date, time and state of the other slot.\<close>

definition previous_slot :: "'o ota_ops \<Rightarrow> 'o \<Rightarrow> bytes list" where
  "previous_slot ops q =
     (case op_other ops q of
        None \<Rightarrow> [[], [], [], [], string_bytes ''empty'']
      | Some v \<Rightarrow>
          (case sv_desc v of
             None \<Rightarrow> [string_bytes (sv_label v), [], [], [], string_bytes ''empty'']
           | Some d \<Rightarrow>
               [string_bytes (sv_label v), desc_string d 16, desc_string d 96, desc_string d 80,
                string_bytes
                  (if op_active ops q \<or> \<not> sv_verifies v then ''partial''
                   else case sv_state v of None \<Rightarrow> ''undefined'' | Some st \<Rightarrow> ota_state_name st)]))"

definition fw_info_payload :: "'o ota_ops \<Rightarrow> 'o \<Rightarrow> bytes" where
  "fw_info_payload ops q =
     (let d = op_own_desc ops q;
          sha = string_bytes (desc_to_hex (take 4 (drop 144 d))) in
      [flag (op_pending ops q), flag (op_active ops q)] @
      concat (map sized_string
        ([desc_string d 48, desc_string d 16, desc_string d 96, desc_string d 80, desc_string d 112,
          string_bytes (op_running_label ops q), sha, string_bytes (op_boot_label ops q)]
         @ previous_slot ops q)))"

definition fw_info_msg :: "codec \<Rightarrow> ('o, 'x) wiring \<Rightarrow> ('o, 'x) sw \<Rightarrow> bytes \<times> ('o, 'x) sw" where
  "fw_info_msg C W sw =
     (case w_ota W of None \<Rightarrow> (build_errc C W Function_not_supported NO_OTA, sw)
      | Some ops \<Rightarrow> (build C FwInfo (fw_info_payload ops (wd_ota (snd sw))) (w_module W), sw))"

section \<open>Live settings\<close>

definition on_store :: "('o, 'x) wiring \<Rightarrow> (store \<Rightarrow> store_event list \<times> store) \<Rightarrow> ('o, 'x) sw \<Rightarrow> ('o, 'x) sw" where
  "on_store W f sw = (case sw of (s, w) \<Rightarrow>
     case f (wd_store w) of (es, st) \<Rightarrow> (s, w_fired W es (w\<lparr>wd_store := st\<rparr>)))"

definition manual_offset_msg ::
  "codec \<Rightarrow> ('o, 'x) wiring \<Rightarrow> bytes \<Rightarrow> ('o, 'x) sw \<Rightarrow> bytes \<times> ('o, 'x) sw" where
  "manual_offset_msg C W payload sw =
     (if length payload \<noteq> 8 then
        (build_errc C W Invalid_argument ''SET_MANUAL_OFFSET needs f32 offset_x + f32 offset_y'', sw)
      else
        let x = get_f32 payload 0; y = get_f32 payload 4 in
        if \<not> ffin x \<or> \<not> ffin y then
          (build_errc C W Invalid_argument ''manual offset must be finite'', sw)
        else (build_ok C W 0, on_store W (set_live_offset x y) sw))"

definition deadzone_msg ::
  "codec \<Rightarrow> ('o, 'x) wiring \<Rightarrow> bytes \<Rightarrow> ('o, 'x) sw \<Rightarrow> bytes \<times> ('o, 'x) sw" where
  "deadzone_msg C W payload sw =
     (if length payload \<noteq> 9 then
        (build_errc C W Invalid_argument ''SET_DEADZONE_OVERRIDE needs u8 flags + f32 + f32'', sw)
      else
        let has_center = (payload ! 0 AND 0x01 \<noteq> 0); has_range = (payload ! 0 AND 0x02 \<noteq> 0);
            c = get_f32 payload 1; r = get_f32 payload 5 in
        if has_center \<and> \<not> override_allowed MAX_CENTER_DEADZONE c then
          (build_errc C W Invalid_argument ''center deadzone override must be between 0 and 0.5'', sw)
        else if has_range \<and> \<not> override_allowed MAX_RANGE_DEADZONE r then
          (build_errc C W Invalid_argument ''range deadzone override must be between 0 and 0.1'', sw)
        else
          (build_ok C W 0,
           on_store W (set_deadzone_override (if has_center then Some c else None)
                         (if has_range then Some r else None)) sw))"

definition nudge_settings_msg ::
  "codec \<Rightarrow> ('o, 'x) wiring \<Rightarrow> bytes \<Rightarrow> ('o, 'x) sw \<Rightarrow> bytes \<times> ('o, 'x) sw" where
  "nudge_settings_msg C W payload sw =
     (if length payload \<noteq> 12 then
        (build_errc C W Invalid_argument ''SET_NUDGE_SETTINGS needs f32 enter + f32 exit + u32 time_ms'', sw)
      else
        let enter = get_f32 payload 0; leave = get_f32 payload 4;
            time = int (unat (get_u32 C (drop 8 payload))) in
        if \<not> flt f_0 enter \<or> flt f_1 enter then
          (build_errc C W Invalid_argument ''nudge enter threshold must be in (0, 1]'', sw)
        else if \<not> fle f_0 leave \<or> flt f_1 leave then
          (build_errc C W Invalid_argument ''nudge exit threshold must be in [0, 1]'', sw)
        else (build_ok C W 0, on_store W (set_nudge_settings enter leave time) sw))"

definition nudge_enabled_msg ::
  "codec \<Rightarrow> ('o, 'x) wiring \<Rightarrow> bytes \<Rightarrow> ('o, 'x) sw \<Rightarrow> bytes \<times> ('o, 'x) sw" where
  "nudge_enabled_msg C W payload sw =
     (if length payload \<noteq> 1 \<or> 1 < payload ! 0 then
        (build_errc C W Invalid_argument ''SET_NUDGE_ENABLED needs u8 enabled (0 or 1)'', sw)
      else (build_ok C W 0, on_store W (set_nudge_enabled (payload ! 0 = 1)) sw))"

definition input_mode_msg ::
  "codec \<Rightarrow> ('o, 'x) wiring \<Rightarrow> bytes \<Rightarrow> ('o, 'x) sw \<Rightarrow> bytes \<times> ('o, 'x) sw" where
  "input_mode_msg C W payload sw =
     (if length payload \<noteq> 1 \<or> 1 < payload ! 0 then
        (build_errc C W Invalid_argument ''SET_INPUT_MODE needs u8 mode (0 or 1)'', sw)
      else
        let mode = mode_of_code (payload ! 0) in
        if input_mode (st_settings (wd_store (snd sw))) = mode then (build_ok C W 0, sw)
        else (build_ok C W 1, deferring (Apply_mode mode) (hold_output W True sw)))"

section \<open>The other messages\<close>

definition save_msg :: "codec \<Rightarrow> ('o, 'x) wiring \<Rightarrow> ('o, 'x) sw \<Rightarrow> bytes \<times> ('o, 'x) sw" where
  "save_msg C W sw =
     (case sw of (s, w) \<Rightarrow>
        case w_saved W w of
          (Some ec, w1) \<Rightarrow> (build_error C W ec ''SAVE_TO_FLASH failed'', s, w1)
        | (None, w1) \<Rightarrow> (build_ok C W 0, s, w1))"

definition start_calibration_msg ::
  "codec \<Rightarrow> ('o, 'x) wiring \<Rightarrow> bytes \<Rightarrow> ('o, 'x) sw \<Rightarrow> bytes \<times> ('o, 'x) sw" where
  "start_calibration_msg C W payload sw =
     (if payload \<noteq> [] then
        (build_errc C W Invalid_argument ''START_CALIBRATION takes no payload'', sw)
      else
        case w_start_calibration W of
          None \<Rightarrow> (build_errc C W Function_not_supported ''START_CALIBRATION not wired on this build'', sw)
        | Some f \<Rightarrow>
            (case sw of (s, w) \<Rightarrow>
               case f w of
                 (Some ec, w1) \<Rightarrow> (build_error C W ec ''START_CALIBRATION could not be started'', s, w1)
               | (None, w1) \<Rightarrow> (build_ok C W 0, s, w1)))"

definition restart_msg ::
  "codec \<Rightarrow> ('o, 'x) wiring \<Rightarrow> bytes \<Rightarrow> ('o, 'x) sw \<Rightarrow> bytes \<times> ('o, 'x) sw" where
  "restart_msg C W payload sw =
     (if payload \<noteq> [] then (build_errc C W Invalid_argument ''RESTART takes no payload'', sw)
      else if \<not> w_restart W then
        (build_errc C W Function_not_supported ''RESTART not wired on this build'', sw)
      else (build_ok C W 0, deferring Reboot_device (hold_output W True sw)))"

definition diagnostics_msg :: "codec \<Rightarrow> ('o, 'x) wiring \<Rightarrow> ('o, 'x) sw \<Rightarrow> bytes \<times> ('o, 'x) sw" where
  "diagnostics_msg C W sw =
     (case w_diagnostics W of
        None \<Rightarrow> (build_errc C W Function_not_supported
                  ''GET_DIAGNOSTICS: this device does not publish diagnostics'', sw)
      | Some f \<Rightarrow> (build C Diagnostics (build_diagnostics_payload C (f (snd sw))) (w_module W), sw))"

section \<open>Dispatch\<close>

text \<open>\<open>handle_frame_locked\<close>: the reply is empty exactly when the frame is not handled.\<close>

definition handle_request ::
  "codec \<Rightarrow> ('o, 'x) wiring \<Rightarrow> nanos \<Rightarrow> msg \<Rightarrow> bytes \<Rightarrow> ('o, 'x) sw \<Rightarrow> bytes \<times> ('o, 'x) sw" where
  "handle_request C W now m payload sw =
     (case m of
        GetDiagnostics \<Rightarrow> diagnostics_msg C W sw
      | GetState \<Rightarrow> (build C State_reply (build_state_payload C (wd_store (snd sw))) (w_module W), sw)
      | OtaBegin \<Rightarrow> ota_begin_msg C W now payload sw
      | OtaData \<Rightarrow> ota_data_msg C W now payload sw
      | OtaFinish \<Rightarrow> ota_finish_msg C W sw
      | OtaAbort \<Rightarrow> ota_abort_msg C W sw
      | GetFwInfo \<Rightarrow> fw_info_msg C W sw
      | Revert \<Rightarrow> revert_msg C W payload sw
      | MarkValid \<Rightarrow> mark_valid_msg C W sw
      | Restart_device \<Rightarrow> restart_msg C W payload sw
      | SetManualOffset \<Rightarrow> manual_offset_msg C W payload sw
      | SetDeadzoneOverride \<Rightarrow> deadzone_msg C W payload sw
      | SetNudgeSettings \<Rightarrow> nudge_settings_msg C W payload sw
      | SetNudgeEnabled \<Rightarrow> nudge_enabled_msg C W payload sw
      | SetInputMode \<Rightarrow> input_mode_msg C W payload sw
      | SaveToFlash \<Rightarrow> save_msg C W sw
      | StartCalibration \<Rightarrow> start_calibration_msg C W payload sw
      | _ \<Rightarrow> ([], sw))"

definition handle_frame_locked ::
  "codec \<Rightarrow> ('o, 'x) wiring \<Rightarrow> nanos \<Rightarrow> u8 \<Rightarrow> bytes \<Rightarrow> ('o, 'x) sw \<Rightarrow> (bool \<times> bytes) \<times> ('o, 'x) sw" where
  "handle_frame_locked C W now type payload sw =
     (case request_of type of None \<Rightarrow> ((False, []), sw)
      | Some m \<Rightarrow> (case handle_request C W now m payload sw of (reply, sw1) \<Rightarrow> ((True, reply), sw1)))"

definition send :: "('o, 'x) wiring \<Rightarrow> bytes \<Rightarrow> ('o, 'x) world \<Rightarrow> bool \<times> ('o, 'x) world" where
  "send W frame w =
     (if frame = [] then (True, w)
      else case w_send W of None \<Rightarrow> (False, w) | Some f \<Rightarrow> f frame w)"

definition run_action :: "('o, 'x) wiring \<Rightarrow> deferred \<Rightarrow> ('o, 'x) sw \<Rightarrow> ('o, 'x) sw" where
  "run_action W a sw =
     (case a of Apply_mode m \<Rightarrow> on_store W (set_input_mode m) sw
      | _ \<Rightarrow> (fst sw, w_reboot W a (snd sw)))"

definition run_after_reply :: "('o, 'x) wiring \<Rightarrow> bool \<Rightarrow> ('o, 'x) sw \<Rightarrow> ('o, 'x) sw" where
  "run_after_reply W queued sw =
     (case sw of (s, w) \<Rightarrow>
        let sw1 = (s\<lparr>after_reply := None\<rparr>, w) in
        case after_reply s of
          None \<Rightarrow> sw1
        | Some a \<Rightarrow>
            if queued then run_action W a sw1
            else if ota_owner s \<and> (case w_ota W of None \<Rightarrow> False | Some ops \<Rightarrow> active ops sw1) then sw1
            else hold_output W False sw1)"

definition handle_frame ::
  "codec \<Rightarrow> ('o, 'x) wiring \<Rightarrow> nanos \<Rightarrow> u8 \<Rightarrow> bytes \<Rightarrow> ('o, 'x) sw \<Rightarrow> bool \<times> ('o, 'x) sw" where
  "handle_frame C W now type payload sw =
     (case handle_frame_locked C W now type payload sw of
        ((handled, reply), s, w) \<Rightarrow>
          case send W reply w of (queued, w1) \<Rightarrow> (handled, run_after_reply W queued (s, w1)))"

record frame =
  fr_module :: u8
  fr_reply :: bool
  fr_type :: u8
  fr_payload :: bytes

text \<open>\<open>handle\<close>, the dispatcher's entry point, and the loop of \<open>feed\<close> over the frames the parser
  completed.\<close>

definition handle_routed ::
  "codec \<Rightarrow> ('o, 'x) wiring \<Rightarrow> nanos \<Rightarrow> frame \<Rightarrow> ('o, 'x) sw \<Rightarrow> ('o, 'x) sw" where
  "handle_routed C W now f sw =
     (if fr_module f \<noteq> w_module W \<or> fr_reply f then sw
      else snd (handle_frame C W now (fr_type f) (fr_payload f) sw))"

fun feed_frames :: "codec \<Rightarrow> ('o, 'x) wiring \<Rightarrow> nanos \<Rightarrow> frame list \<Rightarrow> ('o, 'x) sw \<Rightarrow> ('o, 'x) sw" where
  "feed_frames C W now [] sw = sw"
| "feed_frames C W now (f # fs) sw = feed_frames C W now fs (handle_routed C W now f sw)"

definition calibration_result_payload :: "codec \<Rightarrow> error_code option \<Rightarrow> bytes" where
  "calibration_result_payload C failure =
     (case failure of None \<Rightarrow> [1]
      | Some ec \<Rightarrow>
          let p = 0 # put_u32 C (word_of_int (ec_value ec)) in
          p @ cut_message (kMaxPayloadSize C - length p) (string_bytes (ec_message ec)))"

definition notify_calibration_result ::
  "codec \<Rightarrow> ('o, 'x) wiring \<Rightarrow> error_code option \<Rightarrow> ('o, 'x) world \<Rightarrow> ('o, 'x) world" where
  "notify_calibration_result C W failure w =
     snd (send W (build C CalibrationResult (calibration_result_payload C failure) (w_module W)) w)"

end
