(* ===== verification/Service_Facts.thy ===== *)
theory Service_Facts
  imports Service
begin

text \<open>
  Lemmas of the console service. \<open>wired_service\<close> is the contract the service has with its
  application: an OTA engine that meets \<open>ota_engine\<close>, and callbacks that leave the engine and the
  upload state alone. Its lemmas are the ownership of the upload session and the output hold.
\<close>

section \<open>Helper operations\<close>

lemma hold_output_simps [simp]:
  "ota_owner (fst (hold_output W b sw)) = ota_owner (fst sw)"
  "sv_holding (fst (hold_output W b sw)) = b"
  "after_reply (fst (hold_output W b sw)) = after_reply (fst sw)"
  by (auto simp: hold_output_def Let_def split: prod.splits)

lemma owner_simps [simp]:
  "ota_owner (fst (owner b sw)) = b" "sv_holding (fst (owner b sw)) = sv_holding (fst sw)"
  "after_reply (fst (owner b sw)) = after_reply (fst sw)" "snd (owner b sw) = snd sw"
  by (simp_all add: owner_def split: prod.splits)

lemma deferring_simps [simp]:
  "ota_owner (fst (deferring a sw)) = ota_owner (fst sw)"
  "sv_holding (fst (deferring a sw)) = sv_holding (fst sw)"
  "after_reply (fst (deferring a sw)) = Some a" "snd (deferring a sw) = snd sw"
  by (simp_all add: deferring_def split: prod.splits)

lemma on_ota_simps [simp]:
  "fst (on_ota f sw) = fst sw" "wd_ota (snd (on_ota f sw)) = f (wd_ota (snd sw))"
  "wd_store (snd (on_ota f sw)) = wd_store (snd sw)" "wd_env (snd (on_ota f sw)) = wd_env (snd sw)"
  by (simp_all add: on_ota_def split: prod.splits)

lemma try_ota_cases:
  assumes "try_ota f sw = (e, sw')"
  obtains q where "f (wd_ota (snd sw)) = (e, q)" "fst sw' = fst sw" "wd_ota (snd sw') = q"
    "wd_store (snd sw') = wd_store (snd sw)" "wd_env (snd sw') = wd_env (snd sw)"
  using assms by (cases sw) (auto simp: try_ota_def split: prod.splits)

lemma on_store_fst [simp]: "fst (on_store W f sw) = fst sw"
  by (simp add: on_store_def split: prod.splits)

section \<open>The contract with the application\<close>

locale wired_service = ota_engine ops
  for ops :: "'o ota_ops" +
  fixes W :: "('o, 'x) wiring"
  assumes wired: "w_ota W = Some ops"
    and send_keeps: "w_send W = Some f \<Longrightarrow> f fr w = (b, w') \<Longrightarrow> wd_ota w' = wd_ota w"
    and start_keeps: "w_start_calibration W = Some g \<Longrightarrow> g w = (ec, w') \<Longrightarrow> wd_ota w' = wd_ota w"
    and hold_keeps: "w_output_hold W = Some h \<Longrightarrow> wd_ota (h b w) = wd_ota w"
    and fired_keeps: "wd_ota (w_fired W es w) = wd_ota w"
    and saved_keeps: "w_saved W w = (ec, w') \<Longrightarrow> wd_ota w' = wd_ota w"
    and reboot_keeps: "wd_ota (w_reboot W d w) = wd_ota w"
begin

lemma hold_ota [simp]: "wd_ota (snd (hold_output W b sw)) = wd_ota (snd sw)"
  by (auto simp: hold_output_def Let_def hold_keeps split: prod.splits option.splits)

lemma on_store_ota [simp]: "wd_ota (snd (on_store W f sw)) = wd_ota (snd sw)"
  by (simp add: on_store_def fired_keeps split: prod.splits)

lemma send_ota: "send W fr w = (b, w') \<Longrightarrow> wd_ota w' = wd_ota w"
  by (auto simp: send_def send_keeps split: if_splits option.splits)

lemma active_cong: "wd_ota (snd sw) = wd_ota (snd sw') \<Longrightarrow> active ops sw = active ops sw'"
  by (simp add: active_def)

text \<open>Session ownership, seen from one service: \<open>others\<close> says whether another service owns the
  session. The session is open exactly when someone owns it, no two own it, and an owner holds the
  output.\<close>

definition owns_right :: "bool \<Rightarrow> ('o, 'x) sw \<Rightarrow> bool" where
  "owns_right others sw \<longleftrightarrow>
     (active ops sw \<longleftrightarrow> ota_owner (fst sw) \<or> others) \<and> \<not> (ota_owner (fst sw) \<and> others) \<and>
     (ota_owner (fst sw) \<longrightarrow> sv_holding (fst sw))"

lemma end_upload_right:
  "owns_right others sw \<Longrightarrow> ota_owner (fst sw) \<Longrightarrow>
   owns_right others (end_upload ops W sw) \<and> \<not> ota_owner (fst (end_upload ops W sw)) \<and>
   \<not> active ops (end_upload ops W sw)"
  by (simp add: owns_right_def end_upload_def active_def abort_ends)

lemma begin_session_right:
  assumes "begin_session ops W now n sw = (e, sw')" "owns_right others sw"
  shows "owns_right others sw'"
proof -
  define took where "took = (ota_owner (fst sw) \<and> active ops sw)"
  define sw1 where "sw1 = (if took then owner False (on_ota (op_abort ops) sw) else sw)"
  obtain e3 sw3 where t: "try_ota (op_begin ops n) (hold_output W True sw1) = (e3, sw3)"
    by (cases "try_ota (op_begin ops n) (hold_output W True sw1)") blast
  then obtain q where q: "op_begin ops n (wd_ota (snd sw1)) = (e3, q)"
    "fst sw3 = fst (hold_output W True sw1)" "wd_ota (snd sw3) = q"
    by (auto elim: try_ota_cases)
  show ?thesis
  proof (cases e3)
    case None
    then have sw': "sw' = ((fst sw3)\<lparr>ota_owner := True, ota_last_activity := now\<rparr>, snd sw3)"
      using assms(1) t unfolding begin_session_def Let_def took_def [symmetric] sw1_def [symmetric]
      by (auto split: prod.splits)
    from None begin_done [of n "wd_ota (snd sw1)" q] q
    have "\<not> op_active ops (wd_ota (snd sw1))" "op_active ops q" by auto
    then show ?thesis using q sw' assms(2)
      by (auto simp: owns_right_def active_def sw1_def took_def abort_ends split: if_splits)
  next
    case (Some x)
    then have sw': "sw' = (if \<not> sv_holding (fst sw1) \<or> took then hold_output W False sw3 else sw3)"
      using assms(1) t unfolding begin_session_def Let_def took_def [symmetric] sw1_def [symmetric]
      by (auto split: prod.splits)
    from Some begin_failed [of n "wd_ota (snd sw1)" x q] q
    have "op_active ops q = op_active ops (wd_ota (snd sw1))" by simp
    then show ?thesis using q sw' assms(2)
      by (auto simp: owns_right_def active_def sw1_def took_def abort_ends split: if_splits)
  qed
qed

lemma begin_right:
  assumes "ota_begin_msg C W now p sw = (r, sw')" "owns_right others sw"
  shows "owns_right others sw'"
  using assms begin_session_right
  by (auto simp: ota_begin_msg_def wired split: if_splits prod.splits option.splits)

lemma data_right:
  assumes "ota_data_msg C W now p sw = (r, sw')" "owns_right others sw"
  shows "owns_right others sw'"
  using assms
  by (auto simp: ota_data_msg_def wired owns_right_def active_def write_failed
      dest: write_done write_failed elim!: try_ota_cases split: if_splits prod.splits option.splits)

lemma finish_right:
  assumes "ota_finish_msg C W sw = (r, sw')" "owns_right others sw"
  shows "owns_right others sw'"
  using assms
  by (auto simp: ota_finish_msg_def wired owns_right_def active_def
      dest: finish_ends elim!: try_ota_cases split: if_splits prod.splits option.splits)

lemma abort_right: "owns_right others sw \<Longrightarrow> owns_right others (abort_update W sw)"
  by (simp add: abort_update_def wired end_upload_right)

lemma expire_right:
  "owns_right others sw \<Longrightarrow> owns_right others (snd (expire_stale_update W mx now busy sw))"
  by (auto simp: expire_stale_update_def wired end_upload_right) (auto simp: owns_right_def active_def)

lemma revert_right:
  assumes "revert_msg C W p sw = (r, sw')" "owns_right others sw"
  shows "owns_right others sw'"
proof -
  define sw1 where "sw1 = (if ota_owner (fst sw) \<and> active ops sw then end_upload ops W sw else sw)"
  have r1: "owns_right others sw1" using end_upload_right assms(2) by (simp add: sw1_def)
  show ?thesis
  proof (cases "p = [] \<and> \<not> active ops sw1")
    case False
    then show ?thesis using assms r1
      unfolding revert_msg_def wired option.case Let_def sw1_def [symmetric]
      by (auto split: if_splits)
  next
    case True
    then show ?thesis using assms(1) r1
      unfolding revert_msg_def wired option.case Let_def sw1_def [symmetric]
      by (auto simp: owns_right_def active_def dest: boot_other_keeps
          elim!: try_ota_cases split: if_splits prod.splits option.splits)
  qed
qed

lemma mark_valid_right:
  assumes "mark_valid_msg C W sw = (r, sw')" "owns_right others sw"
  shows "owns_right others sw'"
  using assms
  by (auto simp: mark_valid_msg_def wired owns_right_def active_def
      dest: valid_keeps elim!: try_ota_cases split: prod.splits option.splits)

lemma request_right:
  assumes "handle_request C W now m p sw = (r, sw')" "owns_right others sw"
  shows "owns_right others sw'"
proof -
  have st: "owns_right others (on_store W f sw)" for f
    using assms(2) by (simp add: owns_right_def active_def)
  have hold: "owns_right others (deferring a (hold_output W True sw))" for a
    using assms(2) by (auto simp: owns_right_def active_def)
  have keep: "owns_right others (s, w)" if "s = fst sw" "wd_ota w = wd_ota (snd sw)" for s w
    using assms(2) that by (simp add: owns_right_def active_def)
  show ?thesis
  proof (cases m)
    case SaveToFlash
    then show ?thesis using assms
      by (auto simp: handle_request_def save_msg_def dest: saved_keeps intro!: keep
          split: prod.splits option.splits)
  next
    case StartCalibration
    then show ?thesis using assms
      by (auto simp: handle_request_def start_calibration_msg_def dest: start_keeps intro!: keep
          split: if_splits prod.splits option.splits)
  next
    case OtaAbort
    then show ?thesis using assms abort_right [of others sw]
      by (simp add: handle_request_def ota_abort_msg_def)
  qed (use assms st hold begin_right data_right finish_right revert_right mark_valid_right in
      \<open>auto simp: handle_request_def fw_info_msg_def wired manual_offset_msg_def
        deadzone_msg_def nudge_settings_msg_def nudge_enabled_msg_def input_mode_msg_def
        restart_msg_def diagnostics_msg_def Let_def split: if_splits option.splits\<close>)
qed

lemma after_reply_right:
  assumes "owns_right others sw"
  shows "owns_right others (run_after_reply W queued sw)"
proof -
  obtain s w where sw: "sw = (s, w)" by (cases sw)
  have c: "owns_right others (s\<lparr>after_reply := None\<rparr>, w)"
    using assms by (simp add: sw owns_right_def active_def)
  show ?thesis
  proof (cases "after_reply s")
    case None
    then show ?thesis using c by (simp add: sw run_after_reply_def)
  next
    case (Some a)
    have "owns_right others (run_action W a (s\<lparr>after_reply := None\<rparr>, w))"
      using c by (cases a) (simp_all add: run_action_def owns_right_def active_def reboot_keeps)
    moreover have "owns_right others (hold_output W False (s\<lparr>after_reply := None\<rparr>, w))"
      if "\<not> (ota_owner s \<and> active ops (s\<lparr>after_reply := None\<rparr>, w))"
      using c that by (auto simp: owns_right_def active_def)
    ultimately show ?thesis using c Some
      by (auto simp: sw run_after_reply_def wired Let_def)
  qed
qed

lemma frame_right:
  assumes "owns_right others sw"
  shows "owns_right others (snd (handle_frame C W now t p sw))"
proof -
  obtain handled reply s w where l: "handle_frame_locked C W now t p sw = ((handled, reply), s, w)"
    by (metis prod.collapse)
  obtain q w1 where sd: "send W reply w = (q, w1)" by fastforce
  have "owns_right others (s, w)"
    using l assms request_right
    by (auto simp: handle_frame_locked_def split: option.splits prod.splits)
  then have "owns_right others (s, w1)" using send_ota [OF sd] by (simp add: owns_right_def active_def)
  then show ?thesis using after_reply_right l sd by (simp add: handle_frame_def)
qed

lemma routed_right: "owns_right others sw \<Longrightarrow> owns_right others (handle_routed C W now f sw)"
  by (simp add: handle_routed_def frame_right)

end

section \<open>Counting the holds\<close>

text \<open>The application counts holds: \<open>slack\<close> is the count without this service's own hold. No message
  changes it, so several services can share one counter.\<close>

locale hold_counter = wired_service ops W
  for ops :: "'o ota_ops" and W :: "('o, 'x) wiring" +
  fixes holds :: "('o, 'x) world \<Rightarrow> int"
  assumes counts: "w_output_hold W = Some h \<Longrightarrow> holds (h b w) = holds w + (if b then 1 else - 1)"
    and counted: "w_output_hold W \<noteq> None"
    and ota_holds: "holds (w\<lparr>wd_ota := q\<rparr>) = holds w"
    and store_holds: "holds (w\<lparr>wd_store := st\<rparr>) = holds w"
    and send_holds: "w_send W = Some f \<Longrightarrow> f fr w = (b, w') \<Longrightarrow> holds w' = holds w"
    and start_holds: "w_start_calibration W = Some g \<Longrightarrow> g w = (ec, w') \<Longrightarrow> holds w' = holds w"
    and fired_holds: "holds (w_fired W es w) = holds w"
    and saved_holds: "w_saved W w = (ec, w') \<Longrightarrow> holds w' = holds w"
    and reboot_holds: "holds (w_reboot W d w) = holds w"
begin

definition slack :: "('o, 'x) sw \<Rightarrow> int" where
  "slack sw = holds (snd sw) - (if sv_holding (fst sw) then 1 else 0)"

lemma slack_simps [simp]:
  "slack (hold_output W b sw) = slack sw" "slack (owner b sw) = slack sw"
  "slack (deferring a sw) = slack sw" "slack (on_ota f sw) = slack sw"
  "slack (on_store W g sw) = slack sw" "slack (s\<lparr>after_reply := x\<rparr>, w) = slack (s, w)"
  "slack (s\<lparr>ota_last_activity := t\<rparr>, w) = slack (s, w)"
  "slack (s\<lparr>ota_owner := b1\<rparr>, w) = slack (s, w)"
  using counted
  by (auto simp: slack_def hold_output_def owner_def deferring_def on_ota_def on_store_def Let_def
      counts ota_holds store_holds fired_holds split: prod.splits option.splits)

lemma try_ota_slack: "try_ota f sw = (e, sw') \<Longrightarrow> slack sw' = slack sw"
  by (auto simp: try_ota_def slack_def ota_holds split: prod.splits)

lemma end_upload_slack [simp]: "slack (end_upload x W sw) = slack sw"
  by (simp add: end_upload_def)

lemma begin_session_slack: "begin_session x W now n sw = (e, sw') \<Longrightarrow> slack sw' = slack sw"
  by (auto simp: begin_session_def Let_def dest!: try_ota_slack split: prod.splits option.splits if_splits)

lemma abort_slack [simp]: "slack (abort_update W sw) = slack sw"
  by (simp add: abort_update_def wired)

lemma expire_slack: "slack (snd (expire_stale_update W mx now busy sw)) = slack sw"
  by (simp add: expire_stale_update_def wired)

lemma request_slack:
  assumes "handle_request C W now m p sw = (r, sw')"
  shows "slack sw' = slack sw"
proof (cases m)
  case SaveToFlash
  then show ?thesis using assms
    by (auto simp: handle_request_def save_msg_def slack_def dest: saved_holds
        split: prod.splits option.splits)
next
  case StartCalibration
  then show ?thesis using assms
    by (auto simp: handle_request_def start_calibration_msg_def slack_def dest: start_holds
        split: if_splits prod.splits option.splits)
next
  case Revert
  then show ?thesis using assms
    by (auto simp: handle_request_def revert_msg_def wired Let_def dest!: try_ota_slack
        split: if_splits prod.splits option.splits)
qed (use assms in \<open>auto simp: handle_request_def ota_begin_msg_def ota_data_msg_def ota_finish_msg_def
      ota_abort_msg_def mark_valid_msg_def fw_info_msg_def wired manual_offset_msg_def deadzone_msg_def
      nudge_settings_msg_def nudge_enabled_msg_def input_mode_msg_def restart_msg_def diagnostics_msg_def
      Let_def dest!: try_ota_slack begin_session_slack split: if_splits prod.splits option.splits\<close>)

lemma after_reply_slack: "slack (run_after_reply W queued sw) = slack sw"
proof (cases sw)
  case (Pair s w)
  have "slack (run_action W a x) = slack x" for a x
    by (cases a; cases x) (auto simp: run_action_def slack_def reboot_holds on_store_def store_holds
        fired_holds split: prod.splits)
  then show ?thesis by (auto simp: Pair run_after_reply_def Let_def split: option.splits)
qed

lemma frame_slack: "slack (snd (handle_frame C W now t p sw)) = slack sw"
proof -
  obtain handled reply s w where l: "handle_frame_locked C W now t p sw = ((handled, reply), s, w)"
    by (metis prod.collapse)
  obtain q w1 where sd: "send W reply w = (q, w1)" by fastforce
  have "slack (s, w) = slack sw"
    using l request_slack
    by (cases "request_of t") (auto simp: handle_frame_locked_def split: prod.splits)
  moreover have "holds w1 = holds w"
    using sd by (auto simp: send_def dest: send_holds split: if_splits option.splits)
  ultimately have "slack (s, w1) = slack sw" by (simp add: slack_def)
  then show ?thesis using l sd after_reply_slack by (simp add: handle_frame_def)
qed

lemma routed_slack: "slack (handle_routed C W now f sw) = slack sw"
  by (simp add: handle_routed_def frame_slack)

end

section \<open>What the callbacks leave alone, a message leaves alone\<close>

locale keeping_requests =
  fixes W :: "('o, 'x) wiring" and f :: "('o, 'x) world \<Rightarrow> 'a"
  assumes ota_same: "f (w\<lparr>wd_ota := q\<rparr>) = f w"
    and store_same: "f (w\<lparr>wd_store := st\<rparr>) = f w"
    and hold_same: "w_output_hold W = Some h \<Longrightarrow> f (h b w) = f w"
    and send_same: "w_send W = Some g \<Longrightarrow> g fr w = (b, w') \<Longrightarrow> f w' = f w"
    and start_same: "w_start_calibration W = Some g2 \<Longrightarrow> g2 w = (ec, w') \<Longrightarrow> f w' = f w"
    and fired_same: "f (w_fired W es w) = f w"
    and saved_same: "w_saved W w = (ec, w') \<Longrightarrow> f w' = f w"
begin

lemma parts_same [simp]:
  "f (snd (hold_output W b sw)) = f (snd sw)" "f (snd (on_ota g sw)) = f (snd sw)"
  "f (snd (on_store W h sw)) = f (snd sw)"
  by (auto simp: hold_output_def on_ota_def on_store_def Let_def hold_same ota_same store_same fired_same
      split: prod.splits option.splits)

lemma try_ota_same: "try_ota g sw = (e, sw') \<Longrightarrow> f (snd sw') = f (snd sw)"
  by (auto simp: try_ota_def ota_same split: prod.splits)

lemma begin_session_same: "begin_session x W now n sw = (e, sw') \<Longrightarrow> f (snd sw') = f (snd sw)"
  by (auto simp: begin_session_def Let_def dest!: try_ota_same split: prod.splits option.splits if_splits)

lemma abort_same [simp]: "f (snd (abort_update W sw)) = f (snd sw)"
  by (simp add: abort_update_def end_upload_def split: option.split)

lemma expire_same: "f (snd (snd (expire_stale_update W mx now busy sw))) = f (snd sw)"
  by (simp add: expire_stale_update_def end_upload_def split: option.split)

lemma request_same:
  assumes "handle_request C W now m p sw = (r, sw')"
  shows "f (snd sw') = f (snd sw)"
proof (cases m)
  case SaveToFlash
  then show ?thesis using assms
    by (auto simp: handle_request_def save_msg_def dest: saved_same split: prod.splits option.splits)
next
  case StartCalibration
  then show ?thesis using assms
    by (auto simp: handle_request_def start_calibration_msg_def dest: start_same
        split: if_splits prod.splits option.splits)
next
  case Revert
  then show ?thesis using assms
    by (auto simp: handle_request_def revert_msg_def end_upload_def Let_def dest!: try_ota_same
        split: if_splits prod.splits option.splits)
qed (use assms in \<open>auto simp: handle_request_def ota_begin_msg_def ota_data_msg_def ota_finish_msg_def
      ota_abort_msg_def mark_valid_msg_def fw_info_msg_def manual_offset_msg_def deadzone_msg_def
      nudge_settings_msg_def nudge_enabled_msg_def input_mode_msg_def restart_msg_def diagnostics_msg_def
      Let_def dest!: try_ota_same begin_session_same split: if_splits prod.splits option.splits\<close>)

lemma locked_same:
  assumes "handle_frame_locked C W now t p sw = ((handled, reply), sw1)"
  shows "f (snd sw1) = f (snd sw)"
  using assms request_same [where sw = sw]
  by (auto simp: handle_frame_locked_def split: prod.splits option.splits)

lemma sent_same: "send W fr w = (q, w1) \<Longrightarrow> f w1 = f w"
  by (auto simp: send_def dest: send_same split: if_splits option.splits)

text \<open>A deferred action whose reply was not queued is dropped.\<close>

lemma dropped_same: "f (snd (run_after_reply W False sw)) = f (snd sw)"
  by (cases sw) (auto simp: run_after_reply_def Let_def split: option.splits)

end

locale keeping_service = keeping_requests +
  assumes reboot_same: "f (w_reboot W d w) = f w"
begin

lemma after_reply_same: "f (snd (run_after_reply W queued sw)) = f (snd sw)"
proof (cases sw)
  case (Pair s w)
  have "f (snd (run_action W a x)) = f (snd x)" for a x
    by (cases a) (auto simp: run_action_def reboot_same)
  then show ?thesis by (auto simp: Pair run_after_reply_def Let_def split: option.splits)
qed

lemma routed_same: "f (snd (handle_routed C W now fr sw)) = f (snd sw)"
proof -
  obtain handled reply s w where l: "handle_frame_locked C W now (fr_type fr) (fr_payload fr) sw = ((handled, reply), s, w)"
    by (metis prod.collapse)
  obtain q w1 where sd: "send W reply w = (q, w1)" by fastforce
  show ?thesis
    using locked_same [OF l] sent_same [OF sd] l sd after_reply_same
    by (simp add: handle_routed_def handle_frame_def)
qed

end

section \<open>Deadzone limits\<close>

text \<open>An application whose callbacks leave the store alone: no message puts an override outside its
  limits into the store.\<close>

locale store_service =
  fixes W :: "('o, 'x) wiring"
  assumes fired_store: "wd_store (w_fired W es w) = wd_store w"
    and hold_store: "w_output_hold W = Some h \<Longrightarrow> wd_store (h b w) = wd_store w"
    and saved_store: "w_saved W w = (ec, w') \<Longrightarrow> wd_store w' = wd_store w"
    and send_store: "w_send W = Some f \<Longrightarrow> f fr w = (b, w') \<Longrightarrow> wd_store w' = wd_store w"
    and start_store: "w_start_calibration W = Some g \<Longrightarrow> g w = (ec, w') \<Longrightarrow> wd_store w' = wd_store w"
    and reboot_store: "wd_store (w_reboot W a w) = wd_store w"
begin

lemma store_simps_sw [simp]:
  "wd_store (snd (hold_output W b sw)) = wd_store (snd sw)"
  "wd_store (snd (on_store W f sw)) = snd (f (wd_store (snd sw)))"
  by (auto simp: hold_output_def on_store_def Let_def hold_store fired_store split: prod.splits option.splits)

lemma end_upload_store [simp]: "wd_store (snd (end_upload x W sw)) = wd_store (snd sw)"
  by (simp add: end_upload_def)

lemma abort_update_store [simp]: "wd_store (snd (abort_update W sw)) = wd_store (snd sw)"
  by (simp add: abort_update_def split: option.splits)

lemma begin_session_store: "begin_session x W now n sw = (e, sw') \<Longrightarrow> wd_store (snd sw') = wd_store (snd sw)"
  by (auto simp: begin_session_def Let_def elim!: try_ota_cases split: prod.splits option.splits if_splits)

lemma expire_store: "wd_store (snd (snd (expire_stale_update W mx now busy sw))) = wd_store (snd sw)"
  by (simp add: expire_stale_update_def split: option.splits)

text \<open>The messages that may change the store; every other one leaves it as it is.\<close>

definition edits_store :: "msg \<Rightarrow> bool" where
  "edits_store m \<longleftrightarrow> m \<in> {SetManualOffset, SetDeadzoneOverride, SetNudgeSettings, SetNudgeEnabled}"

lemma request_store:
  assumes "handle_request C W now m p sw = (r, sw')" "\<not> edits_store m"
  shows "wd_store (snd sw') = wd_store (snd sw)"
proof (cases m)
  case SaveToFlash
  then show ?thesis using assms
    by (auto simp: handle_request_def save_msg_def dest: saved_store split: prod.splits option.splits)
next
  case StartCalibration
  then show ?thesis using assms
    by (auto simp: handle_request_def start_calibration_msg_def dest: start_store
        split: if_splits prod.splits option.splits)
next
  case Revert
  then show ?thesis using assms
    by (auto simp: handle_request_def revert_msg_def Let_def elim!: try_ota_cases
        split: if_splits prod.splits option.splits)
qed (use assms in \<open>auto simp: edits_store_def handle_request_def ota_begin_msg_def ota_data_msg_def
      ota_finish_msg_def ota_abort_msg_def mark_valid_msg_def fw_info_msg_def input_mode_msg_def restart_msg_def
      diagnostics_msg_def Let_def elim!: try_ota_cases dest!: begin_session_store
      split: if_splits prod.splits option.splits\<close>)

text \<open>What every edit the console can make keeps, a frame keeps.\<close>

definition edits_keep :: "(store \<Rightarrow> bool) \<Rightarrow> bool" where
  "edits_keep Q \<longleftrightarrow> (\<forall>st. Q st \<longrightarrow>
     (\<forall>x y. Q (snd (set_live_offset x y st))) \<and>
     (\<forall>c r. pred_option (override_allowed MAX_CENTER_DEADZONE) c \<longrightarrow>
        pred_option (override_allowed MAX_RANGE_DEADZONE) r \<longrightarrow> Q (snd (set_deadzone_override c r st))) \<and>
     (\<forall>x y t. Q (snd (set_nudge_settings x y t st))) \<and> (\<forall>b. Q (snd (set_nudge_enabled b st))) \<and>
     (\<forall>m. Q (snd (set_input_mode m st))))"

lemma request_edits:
  assumes "handle_request C W now m p sw = (r, sw')" "edits_keep Q" "Q (wd_store (snd sw))"
  shows "Q (wd_store (snd sw'))"
proof (cases "edits_store m")
  case True
  then show ?thesis using assms
    by (auto simp: edits_store_def edits_keep_def handle_request_def manual_offset_msg_def deadzone_msg_def
        nudge_settings_msg_def nudge_enabled_msg_def Let_def split: if_splits)
qed (use assms request_store in simp)

lemma after_reply_edits:
  assumes "edits_keep Q" "Q (wd_store (snd sw))"
  shows "Q (wd_store (snd (run_after_reply W queued sw)))"
proof (cases sw)
  case (Pair s w)
  have "Q (wd_store (snd (run_action W a x)))" if "Q (wd_store (snd x))" for a x
    using that assms(1) by (cases a) (simp_all add: run_action_def reboot_store edits_keep_def)
  then show ?thesis using assms(2) by (auto simp: Pair run_after_reply_def Let_def split: option.splits)
qed

lemma routed_edits:
  assumes "edits_keep Q" "Q (wd_store (snd sw))"
  shows "Q (wd_store (snd (handle_routed C W now f sw)))"
proof -
  obtain handled reply s w where l: "handle_frame_locked C W now (fr_type f) (fr_payload f) sw = ((handled, reply), s, w)"
    by (metis prod.collapse)
  obtain q w1 where sd: "send W reply w = (q, w1)" by fastforce
  have "Q (wd_store w)"
    using l assms request_edits [where p = "fr_payload f" and sw = sw]
    by (auto simp: handle_frame_locked_def split: prod.splits option.splits)
  moreover have "wd_store w1 = wd_store w"
    using sd by (auto simp: send_def dest: send_store split: if_splits option.splits)
  ultimately have "Q (wd_store (snd (s, w1)))" by simp
  from after_reply_edits [OF assms(1) this] show ?thesis
    using l sd assms(2) by (simp add: handle_routed_def handle_frame_def)
qed

end

end
