(* ===== verification/Control.thy ===== *)
theory Control
  imports Monitor_Runs
begin

text \<open>
  The control core (\<open>omega_control.hpp\<close>): nudge clicks, the mouse and XAC steps and ticks, and
  the recalibration hand-off. \<open>Ports\<close> is the record \<open>ports\<close> of operations on a world \<open>'w\<close>;
  \<open>std::hypot\<close> is the parameter \<open>hyp\<close>. A step that converts an out-of-range float to \<open>int\<close> is
  undefined in C++ and has the value \<open>None\<close>.
\<close>

section \<open>Tunables\<close>

definition MOUSE_SENSOR_FAULT_CONFIG :: fault_config where
  "MOUSE_SENSOR_FAULT_CONFIG = default_fault_config\<lparr>trip_after_failed_reads := 3,
     stuck_after_samples := 500, recover_after_good_reads := 10\<rparr>"

definition XAC_SENSOR_FAULT_CONFIG :: fault_config where
  "XAC_SENSOR_FAULT_CONFIG = default_fault_config\<lparr>trip_after_failed_reads := 6,
     stuck_after_samples := 1000, stuck_after_stale_conversions := 100,
     recover_after_good_reads := 20\<rparr>"

definition SENSOR_NOT_OBSERVED :: u8 where "SENSOR_NOT_OBSERVED = 3"
definition SENSITIVITY :: f32 where "SENSITIVITY = f_15"
definition INVERT_NUDGE_Y :: bool where "INVERT_NUDGE_Y = False"
definition SCROLL_POLL_DIVIDER :: int where "SCROLL_POLL_DIVIDER = 5"
definition SCROLL_STEP :: i8 where "SCROLL_STEP = 1"
definition SAVE_EVERY_N_NUDGES :: int where "SAVE_EVERY_N_NUDGES = 20"

section \<open>Data\<close>

datatype nudge_direction = NONE | LEFT | RIGHT | FORWARD | BACK

definition classify_nudge :: "f32 \<Rightarrow> f32 \<Rightarrow> nudge_direction" where
  "classify_nudge x y =
     (let ey = (if INVERT_NUDGE_Y then fneg y else y) in
      if fle (fabs ey) (fabs x) then (if fle f_0 x then RIGHT else LEFT)
      else (if flt ey f_0 then FORWARD else BACK))"

record stick_sample =
  st_x :: f32
  st_y :: f32
  raw_x :: f32
  raw_y :: f32
  read_ok :: bool
  conversion_count :: "u8 option"

definition init_sample :: stick_sample where
  "init_sample = \<lparr>st_x = f_0, st_y = f_0, raw_x = f_0, raw_y = f_0, read_ok = True,
     conversion_count = None\<rparr>"

record step_input =
  stick :: stick_sample
  step_now :: nanos
  recalibration_requested :: bool
  output_hold :: bool
  needs_calibration :: bool
  step_settings :: device_settings

definition holds_output :: "step_input \<Rightarrow> bool" where
  "holds_output i \<longleftrightarrow>
     output_hold i \<or> (needs_calibration i \<and> \<not> recalibration_requested i)"

record mouse_report =
  buttons :: u8
  dx :: i8
  dy :: i8
  wheel :: i8

definition neutral_mouse :: mouse_report where
  "neutral_mouse = \<lparr>buttons = 0, dx = 0, dy = 0, wheel = 0\<rparr>"

record xac_report =
  xac_x :: f32
  xac_y :: f32

definition neutral_xac :: xac_report where
  "neutral_xac = \<lparr>xac_x = f_0, xac_y = f_0\<rparr>"

record step_output =
  send_report :: bool
  out_mouse :: mouse_report
  out_xac :: xac_report
  run_recalibration :: bool
  drift_applied :: bool
  save_calibration :: bool

definition init_output :: step_output where
  "init_output = \<lparr>send_report = False, out_mouse = neutral_mouse, out_xac = neutral_xac,
     run_recalibration = False, drift_applied = False, save_calibration = False\<rparr>"

record common_state =
  cm_center :: center_result
  cm_range :: range_result
  cm_drift :: drift
  drift_nudge_count :: int
  cm_sensor :: fault_monitor
  sensor_was_faulted :: bool
  good_reads :: int
  observe_after_good_reads :: int
  sensor_observed :: bool

definition init_common :: "fault_config \<Rightarrow> common_state" where
  "init_common cfg = \<lparr>cm_center = init_center, cm_range = init_range, cm_drift = init_drift,
     drift_nudge_count = 0, cm_sensor = init_monitor cfg, sensor_was_faulted = False,
     good_reads = 0, observe_after_good_reads = recover_after_good_reads cfg,
     sensor_observed = False\<rparr>"

record mouse_state =
  ms_common :: common_state
  ms_nudge :: nudge_direction
  scroll_poll_count :: int
  window_start :: nanos
  prev_x :: f32
  prev_y :: f32
  initialised :: bool

definition init_mouse_state :: mouse_state where
  "init_mouse_state = \<lparr>ms_common = init_common MOUSE_SENSOR_FAULT_CONFIG, ms_nudge = NONE,
     scroll_poll_count = 0, window_start = 0, prev_x = f_0, prev_y = f_0, initialised = False\<rparr>"

record xac_state =
  xs_common :: common_state

definition init_xac_state :: xac_state where
  "init_xac_state = \<lparr>xs_common = init_common XAC_SENSOR_FAULT_CONFIG\<rparr>"

section \<open>Pure steps\<close>

text \<open>\<open>static_cast<int>\<close>, then the clamp to \<open>[-127, 127]\<close>.\<close>

definition to_delta :: "f32 \<Rightarrow> i8 option" where
  "to_delta v =
     map_option (\<lambda>i. if 127 < i then 127 else if i < - 127 then - 127 else word_of_int i)
       (f32_to_int (- int_max - 1) int_max v)"

definition drift_step ::
  "common_state \<Rightarrow> step_input \<Rightarrow> f32 \<Rightarrow> step_output \<Rightarrow> common_state \<times> step_output" where
  "drift_step cm i mag out =
     (let (moved, d, c) = drift_update (cm_drift cm) (raw_x (stick i)) (raw_y (stick i)) mag
                            (cm_center cm) (step_now i);
          cm1 = cm\<lparr>cm_drift := d, cm_center := c\<rparr> in
      if \<not> moved then (cm1, out)
      else
        let n = s32_succ (drift_nudge_count cm1);
            out1 = out\<lparr>drift_applied := True\<rparr> in
        (cm1\<lparr>drift_nudge_count := n\<rparr>,
         if n mod SAVE_EVERY_N_NUDGES = 0 then out1\<lparr>save_calibration := True\<rparr> else out1))"

definition recalibration_output :: step_output where
  "recalibration_output = init_output\<lparr>send_report := True, run_recalibration := True\<rparr>"

text \<open>The parts of \<open>mouse_step\<close>, in its order: first use, nudge clicks switched off, the
  measurement window, the report.\<close>

definition first_use :: "step_input \<Rightarrow> mouse_state \<Rightarrow> mouse_state" where
  "first_use i s =
     (if initialised s then s
      else s\<lparr>window_start := step_now i, prev_x := st_x (stick i), prev_y := st_y (stick i),
             initialised := True\<rparr>)"

definition nudge_switch :: "step_input \<Rightarrow> mouse_state \<Rightarrow> mouse_state" where
  "nudge_switch i s =
     (if nudge_enabled (step_settings i) then s
      else
        let s1 = (if ms_nudge s \<noteq> NONE then s\<lparr>ms_nudge := NONE, scroll_poll_count := 0\<rparr> else s) in
        s1\<lparr>prev_x := st_x (stick i), prev_y := st_y (stick i), window_start := step_now i\<rparr>)"

definition nudge_window ::
  "(f32 \<Rightarrow> f32 \<Rightarrow> f32) \<Rightarrow> millis \<Rightarrow> f32 \<Rightarrow> step_input \<Rightarrow> mouse_state \<Rightarrow> mouse_state" where
  "nudge_window hyp duration cur_mag i s =
     (let cfg = step_settings i in
      if nudge_hold_time cfg \<le> duration then
        let prev_mag = hyp (prev_x s) (prev_y s);
            delta = fsub cur_mag prev_mag;
            s1 = (if ms_nudge s = NONE then
                    if nudge_enabled cfg \<and> fle (nudge_distance_threshold cfg) delta
                    then s\<lparr>ms_nudge := classify_nudge (st_x (stick i)) (st_y (stick i)),
                           scroll_poll_count := 0\<rparr>
                    else s
                  else if fle cur_mag (nudge_exit_threshold cfg) then s\<lparr>ms_nudge := NONE\<rparr>
                  else s) in
        s1\<lparr>prev_x := st_x (stick i), prev_y := st_y (stick i), window_start := step_now i\<rparr>
      else s)"

definition nudge_buttons :: "nudge_direction \<Rightarrow> u8" where
  "nudge_buttons n = ((if n = FORWARD then 1 else 0) OR (if n = RIGHT then 2 else 0))"

definition mouse_output :: "step_input \<Rightarrow> mouse_state \<Rightarrow> (mouse_state \<times> mouse_report) option" where
  "mouse_output i s =
     (let r = neutral_mouse\<lparr>buttons := nudge_buttons (ms_nudge s)\<rparr>;
          n = s32_succ (scroll_poll_count s);
          tick = n mod SCROLL_POLL_DIVIDER = 0 in
      case ms_nudge s of
        NONE \<Rightarrow>
          (case to_delta (fmul (st_x (stick i)) SENSITIVITY) of None \<Rightarrow> None
           | Some mx \<Rightarrow>
               (case to_delta (fmul (st_y (stick i)) SENSITIVITY) of None \<Rightarrow> None
                | Some my \<Rightarrow> Some (s, r\<lparr>dx := mx, dy := my\<rparr>)))
      | LEFT \<Rightarrow> Some (s\<lparr>scroll_poll_count := n\<rparr>, if tick then r\<lparr>wheel := SCROLL_STEP\<rparr> else r)
      | BACK \<Rightarrow> Some (s\<lparr>scroll_poll_count := n\<rparr>, if tick then r\<lparr>wheel := - SCROLL_STEP\<rparr> else r)
      | FORWARD \<Rightarrow> Some (s, r)
      | RIGHT \<Rightarrow> Some (s, r))"

definition mouse_step ::
  "(f32 \<Rightarrow> f32 \<Rightarrow> f32) \<Rightarrow> mouse_state \<Rightarrow> step_input \<Rightarrow> (mouse_state \<times> step_output) option" where
  "mouse_step hyp s0 i =
     (if recalibration_requested i then
        Some (s0\<lparr>ms_nudge := NONE, scroll_poll_count := 0\<rparr>, recalibration_output)
      else
        let s1 = first_use i s0;
            duration = to_millis (step_now i - window_start s1);
            cur_mag = hyp (st_x (stick i)) (st_y (stick i));
            s2 = nudge_window hyp duration cur_mag i (nudge_switch i s1) in
        case mouse_output i s2 of None \<Rightarrow> None
        | Some (s3, r) \<Rightarrow>
            let (cm, out) = drift_step (ms_common s3) i cur_mag
                              (init_output\<lparr>send_report := True, out_mouse := r\<rparr>) in
            Some (s3\<lparr>ms_common := cm\<rparr>, out))"

definition xac_step ::
  "(f32 \<Rightarrow> f32 \<Rightarrow> f32) \<Rightarrow> xac_state \<Rightarrow> step_input \<Rightarrow> xac_state \<times> step_output" where
  "xac_step hyp s i =
     (if recalibration_requested i then (s, recalibration_output)
      else
        let r = \<lparr>xac_x = st_x (stick i), xac_y = st_y (stick i)\<rparr>;
            (cm, out) = drift_step (xs_common s) i (hyp (st_x (stick i)) (st_y (stick i)))
                          (init_output\<lparr>send_report := True, out_xac := r\<rparr>) in
        (s\<lparr>xs_common := cm\<rparr>, out))"

text \<open>\<open>on_recalibration_done\<close>: what it does to the common state, and to the mouse state when
  its pointer is not null.\<close>

definition recalibrated_common ::
  "common_state \<Rightarrow> bool \<Rightarrow> center_result \<Rightarrow> range_result \<Rightarrow> common_state" where
  "recalibrated_common cm ok c r =
     (let cm1 = (if ok then cm\<lparr>cm_center := c, cm_range := r\<rparr> else cm) in
      cm1\<lparr>cm_drift := drift_reset (cm_drift cm1)\<rparr>)"

definition recalibrated_mouse ::
  "mouse_state \<Rightarrow> stick_sample \<Rightarrow> nanos \<Rightarrow> bool \<Rightarrow> center_result \<Rightarrow> range_result \<Rightarrow> mouse_state" where
  "recalibrated_mouse s post t ok c r =
     s\<lparr>ms_common := recalibrated_common (ms_common s) ok c r, ms_nudge := NONE,
       scroll_poll_count := 0, window_start := t, prev_x := st_x post, prev_y := st_y post,
       initialised := True\<rparr>"

section \<open>Ports and ticks\<close>

record 'w ports =
  send_mouse :: "mouse_report \<Rightarrow> 'w \<Rightarrow> 'w"
  send_xac :: "xac_report \<Rightarrow> 'w \<Rightarrow> 'w"
  run_sweep :: "center_result \<Rightarrow> range_result \<Rightarrow> 'w
                  \<Rightarrow> ((bool \<times> center_result \<times> range_result) \<times> 'w) option"
  save_to_flash :: "'w \<Rightarrow> 'w"
  apply_drift :: "center_result \<Rightarrow> range_result \<Rightarrow> 'w \<Rightarrow> center_result \<times> 'w"
  read_stick :: "'w \<Rightarrow> stick_sample \<times> 'w"
  ports_now :: "'w \<Rightarrow> nanos \<times> 'w"
  sensor_fault_changed :: "bool \<Rightarrow> sensor_fault \<Rightarrow> u32 \<Rightarrow> 'w \<Rightarrow> 'w"
  sensor_observed_healthy :: "'w \<Rightarrow> 'w"

record fault_edge =
  edge_faulted :: bool
  edge_tripped :: bool
  edge_recovered :: bool

definition sensor_fault_update ::
  "'w ports \<Rightarrow> common_state \<Rightarrow> step_input \<Rightarrow> 'w \<Rightarrow> fault_edge \<times> common_state \<times> 'w" where
  "sensor_fault_update P cm i w =
     (let st = stick i;
          (f, m) = monitor_update (cm_sensor cm) (read_ok st) (raw_x st) (raw_y st)
                     (conversion_count st);
          cm1 = cm\<lparr>cm_sensor := m\<rparr>;
          changed = (f \<noteq> sensor_was_faulted cm1);
          cm2 = (if changed then cm1\<lparr>sensor_was_faulted := f\<rparr> else cm1);
          w1 = (if changed then sensor_fault_changed P f (fm_fault m) (fm_fault_count m) w else w);
          cm3 = cm2\<lparr>good_reads := (if read_ok st then s32_succ (good_reads cm2) else 0)\<rparr>;
          seen = (\<not> sensor_observed cm3 \<and> \<not> f \<and>
                  observe_after_good_reads cm3 \<le> good_reads cm3) in
      (\<lparr>edge_faulted = f, edge_tripped = changed \<and> f, edge_recovered = changed \<and> \<not> f\<rparr>,
       if seen then cm3\<lparr>sensor_observed := True\<rparr> else cm3,
       if seen then sensor_observed_healthy P w1 else w1))"

text \<open>What follows a step in both ticks when no sweep runs.\<close>

definition push_drift ::
  "'w ports \<Rightarrow> step_output \<Rightarrow> common_state \<Rightarrow> 'w \<Rightarrow> common_state \<times> 'w" where
  "push_drift P out cm w =
     (let (cm1, w1) = (if drift_applied out
                       then case apply_drift P (cm_center cm) (cm_range cm) w of
                              (c, w') \<Rightarrow> (cm\<lparr>cm_center := c\<rparr>, w')
                       else (cm, w)) in
      (cm1, if save_calibration out then save_to_flash P w1 else w1))"

definition rebase :: "step_input \<Rightarrow> mouse_state \<Rightarrow> mouse_state" where
  "rebase i s = s\<lparr>window_start := step_now i, prev_x := st_x (stick i), prev_y := st_y (stick i),
     initialised := True\<rparr>"

definition release_nudge :: "mouse_state \<Rightarrow> mouse_state" where
  "release_nudge s = s\<lparr>ms_nudge := NONE, scroll_poll_count := 0\<rparr>"

definition mouse_tick ::
  "(f32 \<Rightarrow> f32 \<Rightarrow> f32) \<Rightarrow> 'w ports \<Rightarrow> mouse_state \<Rightarrow> step_input \<Rightarrow> 'w \<Rightarrow> (mouse_state \<times> 'w) option" where
  "mouse_tick hyp P s i w =
     (let (edge, cm, w1) = sensor_fault_update P (ms_common s) i w;
          s1 = s\<lparr>ms_common := cm\<rparr> in
      if holds_output i then
        Some (rebase i (release_nudge s1), send_mouse P neutral_mouse w1)
      else
        let s2 = (if edge_tripped edge then release_nudge s1 else s1);
            s3 = (if edge_recovered edge then rebase i s2 else s2) in
        if edge_faulted edge \<and> \<not> recalibration_requested i then
          Some (s3, send_mouse P neutral_mouse w1)
        else
          case mouse_step hyp s3 i of None \<Rightarrow> None
          | Some (s4, out) \<Rightarrow>
              let w2 = (if send_report out then send_mouse P (out_mouse out) w1 else w1) in
              if run_recalibration out then
                (case run_sweep P (cm_center (ms_common s4)) (cm_range (ms_common s4)) w2 of
                   None \<Rightarrow> None
                 | Some ((ok, c, r), w3) \<Rightarrow>
                     let (post, w4) = read_stick P w3; (t, w5) = ports_now P w4 in
                     Some (recalibrated_mouse s4 post t ok c r, send_mouse P neutral_mouse w5))
              else
                let (cm', w3) = push_drift P out (ms_common s4) w2 in
                Some (s4\<lparr>ms_common := cm'\<rparr>, w3))"

definition xac_tick ::
  "(f32 \<Rightarrow> f32 \<Rightarrow> f32) \<Rightarrow> 'w ports \<Rightarrow> xac_state \<Rightarrow> step_input \<Rightarrow> 'w \<Rightarrow> (xac_state \<times> 'w) option" where
  "xac_tick hyp P s i w =
     (let (edge, cm, w1) = sensor_fault_update P (xs_common s) i w;
          s1 = s\<lparr>xs_common := cm\<rparr> in
      if holds_output i then Some (s1, send_xac P neutral_xac w1)
      else if edge_faulted edge \<and> \<not> recalibration_requested i then
        Some (s1, send_xac P neutral_xac w1)
      else
        let (s2, out) = xac_step hyp s1 i;
            w2 = (if send_report out then send_xac P (out_xac out) w1 else w1) in
        if run_recalibration out then
          (case run_sweep P (cm_center (xs_common s2)) (cm_range (xs_common s2)) w2 of
             None \<Rightarrow> None
           | Some ((ok, c, r), w3) \<Rightarrow>
               let (post, w4) = read_stick P w3; (t, w5) = ports_now P w4 in
               Some (s2\<lparr>xs_common := recalibrated_common (xs_common s2) ok c r\<rparr>,
                     send_xac P neutral_xac w5))
        else
          let (cm', w3) = push_drift P out (xs_common s2) w2 in
          Some (s2\<lparr>xs_common := cm'\<rparr>, w3))"

section \<open>Recalibration hand-off\<close>

datatype gate = Idle | Requested | Running

text \<open>Each operation is one atomic access; \<open>False\<close> from \<open>gate_request\<close> is
  \<open>device_or_resource_busy\<close>.\<close>

definition gate_request :: "gate \<Rightarrow> bool \<times> gate" where
  "gate_request g = (if g = Idle then (True, Requested) else (False, g))"

definition gate_take :: "gate \<Rightarrow> bool \<times> gate" where
  "gate_take g = (if g = Requested then (True, Running) else (False, g))"

definition gate_finish :: "gate \<Rightarrow> gate" where
  "gate_finish g = Idle"

end
