(* ===== verification/Control_Facts.thy ===== *)
theory Control_Facts
  imports Control
begin

text \<open>
  What the steps and ticks of \<open>Control\<close> do: the reports they send, the nudge state machine, the
  bookkeeping of faults, and the two contracts a client may assume of \<open>Ports\<close> (reports are the
  only thing recorded as reports; the store and the loop's copy of the calibration stay in
  step), stated as locales. \<open>Device\<close> interprets both on the firmware's own ports.
\<close>

section \<open>Pure steps\<close>

lemma f32_to_int_bound:
  assumes "f32_to_int lo hi v = Some i"
  shows "i = tdiv (sval v) one_units \<and> lo \<le> i \<and> i \<le> hi"
  using assms by (auto simp: f32_to_int_def Let_def split: if_splits)

lemma sint_word_small: "- 128 \<le> i \<Longrightarrow> i < 128 \<Longrightarrow> sint (word_of_int i :: i8) = i"
  by (simp add: sint_sbintrunc' signed_take_bit_int_eq_self)

lemma to_delta_range:
  assumes "to_delta v = Some d"
  shows "- 127 \<le> sint d \<and> sint d \<le> 127"
  using assms by (auto simp: to_delta_def sint_word_small split: if_splits)

lemma tdiv_abs_le: "0 < b \<Longrightarrow> \<bar>a\<bar> \<le> n * b \<Longrightarrow> \<bar>tdiv a b\<bar> \<le> n"
proof -
  assume b: "0 < b" and a: "\<bar>a\<bar> \<le> n * b"
  have "\<bar>a\<bar> div b \<le> (n * b) div b" using a b by (intro zdiv_mono1) simp_all
  moreover have "\<bar>tdiv a b\<bar> \<le> \<bar>a\<bar> div b"
    using b by (auto simp: tdiv_def abs_mult abs_sgn_eq pos_imp_zdiv_nonneg_iff)
  ultimately show ?thesis using b by simp
qed

lemma scaled_stick:
  assumes "ffin x" "\<bar>sval x\<bar> \<le> one_units"
  shows "\<exists>d. to_delta (fmul x SENSITIVITY) = Some d \<and> \<bar>sint d\<bar> \<le> 15"
proof -
  have one: "0 < one_units" by (simp add: one_units_def)
  define q where "q = rat_of_int (sval x * (15 * one_units)) / rat_of_int one_units"
  have q: "q = rat_of_int (15 * sval x)" using one by (simp add: q_def)
  have qb: "\<bar>q\<bar> \<le> rat_of_int (15 * one_units)"
    unfolding q using assms(2) by (simp add: of_int_abs [symmetric] abs_mult del: of_int_abs)
  have e: "rr (rat_of_int (15 * one_units)) = 15 * one_units"
    using rr_sval [of f_15] by (simp add: sval_literals ffin_literals ffin_not_nan)
  have r: "\<bar>rr q\<bar> \<le> 15 * one_units" using qb e by (rule rr_abs_le)
  define p where "p = fmul x SENSITIVITY"
  have p: "p = fof (fsgn x \<noteq> fsgn f_15) q" "sval p = rr q"
    using assms by (simp_all add: p_def SENSITIVITY_def fmul_fin ffin_literals sval_literals q_def)
  have "\<bar>q\<bar> \<le> 2 ^ 275" by (rule order_trans [OF qb]) (simp add: one_units_def)
  then have fp: "ffin p" unfolding p(1) by (rule fof_fin)
  define i where "i = tdiv (sval p) one_units"
  have i: "\<bar>i\<bar> \<le> 15" unfolding i_def p(2) using one r by (rule tdiv_abs_le)
  have "f32_to_int (- int_max - 1) int_max p = Some i"
    using fp i unfolding f32_to_int_def i_def [symmetric] int_max_def by simp linarith
  then have "to_delta p = Some (word_of_int i)"
    using i by (auto simp: to_delta_def)
  moreover have "sint (word_of_int i :: i8) = i" using i by (intro sint_word_small) simp_all
  ultimately show ?thesis using i by (auto simp: p_def)
qed

lemma drift_step_frame:
  assumes "drift_step cm i mag out = (cm', out')"
  shows "send_report out' = send_report out \<and> out_mouse out' = out_mouse out \<and>
    out_xac out' = out_xac out \<and> run_recalibration out' = run_recalibration out \<and>
    cm_range cm' = cm_range cm \<and> cm_sensor cm' = cm_sensor cm \<and>
    sensor_was_faulted cm' = sensor_was_faulted cm \<and>
    (drift_applied out' \<or> cm_center cm' = cm_center cm)"
  using assms drift_update_frame
  by (auto simp: drift_step_def Let_def split: if_splits prod.splits)

lemma first_use_nudge [simp]:
  "ms_nudge (first_use i s) = ms_nudge s" "ms_common (first_use i s) = ms_common s"
  "scroll_poll_count (first_use i s) = scroll_poll_count s"
  "initialised (first_use i s)"
  by (simp_all add: first_use_def)

lemma nudge_switch_simps [simp]:
  "ms_common (nudge_switch i s) = ms_common s"
  "nudge_enabled (step_settings i) \<Longrightarrow> nudge_switch i s = s"
  "\<not> nudge_enabled (step_settings i) \<Longrightarrow> ms_nudge (nudge_switch i s) = NONE"
  "\<not> nudge_enabled (step_settings i) \<Longrightarrow> prev_x (nudge_switch i s) = st_x (stick i)"
  "\<not> nudge_enabled (step_settings i) \<Longrightarrow> prev_y (nudge_switch i s) = st_y (stick i)"
  by (simp_all add: nudge_switch_def Let_def)

lemma nudge_window_common [simp]: "ms_common (nudge_window hyp t m i s) = ms_common s"
  by (simp add: nudge_window_def Let_def)

lemma nudge_window_off:
  "\<not> nudge_enabled (step_settings i) \<Longrightarrow> ms_nudge s = NONE \<Longrightarrow>
   ms_nudge (nudge_window hyp t m i s) = NONE"
  by (simp add: nudge_window_def Let_def)

lemma nudge_window_prev:
  assumes "prev_x s = st_x (stick i)" "prev_y s = st_y (stick i)"
  shows "prev_x (nudge_window hyp t m i s) = st_x (stick i) \<and>
    prev_y (nudge_window hyp t m i s) = st_y (stick i)"
  using assms by (simp add: nudge_window_def Let_def)

lemma mouse_output_frame:
  assumes "mouse_output i s = Some (s', r)"
  shows "ms_nudge s' = ms_nudge s \<and> ms_common s' = ms_common s \<and> prev_x s' = prev_x s \<and>
    prev_y s' = prev_y s \<and> initialised s' = initialised s \<and> window_start s' = window_start s \<and>
    buttons r = nudge_buttons (ms_nudge s)"
  using assms by (auto simp: mouse_output_def Let_def split: nudge_direction.splits option.splits)

lemma mouse_step_parts:
  assumes "mouse_step hyp s i = Some (s', out)" "\<not> recalibration_requested i"
  obtains s2 s3 r where
    "s2 = nudge_window hyp (to_millis (step_now i - window_start (first_use i s)))
            (hyp (st_x (stick i)) (st_y (stick i))) i (nudge_switch i (first_use i s))"
    "mouse_output i s2 = Some (s3, r)" "out_mouse out = r" "send_report out"
    "\<not> run_recalibration out" "ms_nudge s' = ms_nudge s2" "prev_x s' = prev_x s2"
    "prev_y s' = prev_y s2" "initialised s'"
    "scroll_poll_count s' = scroll_poll_count s3"
proof -
  define s2 where "s2 = nudge_window hyp (to_millis (step_now i - window_start (first_use i s)))
            (hyp (st_x (stick i)) (st_y (stick i))) i (nudge_switch i (first_use i s))"
  obtain s3 r where m: "mouse_output i s2 = Some (s3, r)"
    using assms by (auto simp: mouse_step_def Let_def s2_def split: option.splits)
  obtain cm o2 where d: "drift_step (ms_common s3) i (hyp (st_x (stick i)) (st_y (stick i)))
      (init_output\<lparr>send_report := True, out_mouse := r\<rparr>) = (cm, o2)" by (cases "drift_step (ms_common s3) i (hyp (st_x (stick i)) (st_y (stick i)))
      (init_output\<lparr>send_report := True, out_mouse := r\<rparr>)") auto
  have e: "s' = s3\<lparr>ms_common := cm\<rparr>" "out = o2"
    using assms m d by (simp_all add: mouse_step_def Let_def s2_def)
  have init: "initialised s2"
    by (simp add: s2_def nudge_window_def nudge_switch_def first_use_def Let_def)
  show ?thesis
    using mouse_output_frame [OF m] drift_step_frame [OF d] init
    by (intro that [OF s2_def m]) (simp_all add: e init_output_def)
qed

section \<open>Sensor bookkeeping\<close>

lemma sensor_update_frame:
  assumes "sensor_fault_update P cm i w = (e, cm', w')"
  shows "cm_center cm' = cm_center cm" "cm_range cm' = cm_range cm" "cm_drift cm' = cm_drift cm"
    "cm_sensor cm' = snd (monitor_update (cm_sensor cm) (read_ok (stick i)) (raw_x (stick i))
       (raw_y (stick i)) (conversion_count (stick i)))"
    "edge_faulted e = faulted (cm_sensor cm')" "sensor_was_faulted cm' = faulted (cm_sensor cm')"
    "edge_tripped e \<longleftrightarrow> edge_faulted e \<and> \<not> sensor_was_faulted cm"
    "edge_recovered e \<longleftrightarrow> \<not> edge_faulted e \<and> sensor_was_faulted cm"
    "sensor_observed cm \<Longrightarrow> sensor_observed cm'"
proof -
  obtain f m where u: "monitor_update (cm_sensor cm) (read_ok (stick i)) (raw_x (stick i))
       (raw_y (stick i)) (conversion_count (stick i)) = (f, m)" by fastforce
  have f: "f = faulted m"
    using u by (auto simp: monitor_update_def Let_def faulted_def trip_def split: if_splits)
  show "cm_center cm' = cm_center cm" "cm_range cm' = cm_range cm" "cm_drift cm' = cm_drift cm"
    "cm_sensor cm' = snd (monitor_update (cm_sensor cm) (read_ok (stick i)) (raw_x (stick i))
       (raw_y (stick i)) (conversion_count (stick i)))"
    "edge_faulted e = faulted (cm_sensor cm')" "sensor_was_faulted cm' = faulted (cm_sensor cm')"
    "edge_tripped e \<longleftrightarrow> edge_faulted e \<and> \<not> sensor_was_faulted cm"
    "edge_recovered e \<longleftrightarrow> \<not> edge_faulted e \<and> sensor_was_faulted cm"
    "sensor_observed cm \<Longrightarrow> sensor_observed cm'"
    using assms by (auto simp: sensor_fault_update_def Let_def u f split: if_splits)
qed

section \<open>The three ways a tick goes\<close>

lemma mouse_step_common:
  assumes "mouse_step hyp s i = Some (s', out)" "\<not> recalibration_requested i"
  shows "cm_range (ms_common s') = cm_range (ms_common s) \<and>
    cm_sensor (ms_common s') = cm_sensor (ms_common s) \<and>
    sensor_was_faulted (ms_common s') = sensor_was_faulted (ms_common s) \<and>
    (drift_applied out \<or> cm_center (ms_common s') = cm_center (ms_common s))"
proof -
  define s2 where "s2 = nudge_window hyp (to_millis (step_now i - window_start (first_use i s)))
            (hyp (st_x (stick i)) (st_y (stick i))) i (nudge_switch i (first_use i s))"
  obtain s3 r where m: "mouse_output i s2 = Some (s3, r)"
    using assms by (auto simp: mouse_step_def Let_def s2_def split: option.splits)
  obtain cm o2 where d: "drift_step (ms_common s3) i (hyp (st_x (stick i)) (st_y (stick i)))
      (init_output\<lparr>send_report := True, out_mouse := r\<rparr>) = (cm, o2)" by fastforce
  have "s' = s3\<lparr>ms_common := cm\<rparr>" "out = o2" "ms_common s2 = ms_common s"
    using assms m d by (simp_all add: mouse_step_def Let_def s2_def)
  with mouse_output_frame [OF m] drift_step_frame [OF d] show ?thesis by simp
qed

text \<open>The state a tick hands to the step, after the fault edges.\<close>

definition after_edge :: "step_input \<Rightarrow> fault_edge \<Rightarrow> mouse_state \<Rightarrow> mouse_state" where
  "after_edge i e s =
     (let s2 = (if edge_tripped e then release_nudge s else s) in
      if edge_recovered e then rebase i s2 else s2)"

lemma after_edge_common [simp]: "ms_common (after_edge i e s) = ms_common s"
  by (simp add: after_edge_def rebase_def release_nudge_def)

lemma mouse_tick_cases:
  assumes "mouse_tick hyp P s i w = Some (s', w')"
    "sensor_fault_update P (ms_common s) i w = (e, cm, w1)"
  obtains (quiet) "holds_output i \<or> (edge_faulted e \<and> \<not> recalibration_requested i)"
      "s' = (if holds_output i then rebase i (release_nudge (s\<lparr>ms_common := cm\<rparr>))
             else after_edge i e (s\<lparr>ms_common := cm\<rparr>))"
      "w' = send_mouse P neutral_mouse w1"
  | (sweep) s4 ok c r w3 post w4 t w5 where "\<not> holds_output i" "recalibration_requested i"
      "s4 = release_nudge (after_edge i e (s\<lparr>ms_common := cm\<rparr>))"
      "run_sweep P (cm_center cm) (cm_range cm) (send_mouse P neutral_mouse w1) = Some ((ok, c, r), w3)"
      "read_stick P w3 = (post, w4)" "ports_now P w4 = (t, w5)"
      "s' = recalibrated_mouse s4 post t ok c r" "w' = send_mouse P neutral_mouse w5"
  | (step) s4 out cm' where "\<not> holds_output i" "\<not> recalibration_requested i" "\<not> edge_faulted e"
      "mouse_step hyp (after_edge i e (s\<lparr>ms_common := cm\<rparr>)) i = Some (s4, out)"
      "push_drift P out (ms_common s4) (send_mouse P (out_mouse out) w1) = (cm', w')"
      "s' = s4\<lparr>ms_common := cm'\<rparr>"
proof (cases "holds_output i \<or> (edge_faulted e \<and> \<not> recalibration_requested i)")
  case True
  then show ?thesis
    using assms by (intro quiet) (auto simp: mouse_tick_def Let_def after_edge_def split: if_splits)
next
  case False
  then obtain s4 out where st: "mouse_step hyp (after_edge i e (s\<lparr>ms_common := cm\<rparr>)) i = Some (s4, out)"
    using assms by (auto simp: mouse_tick_def Let_def after_edge_def split: option.splits)
  show ?thesis
  proof (cases "recalibration_requested i")
    case True
    then have s4: "s4 = release_nudge (after_edge i e (s\<lparr>ms_common := cm\<rparr>))"
      and o: "out = recalibration_output"
      using st by (simp_all add: mouse_step_def release_nudge_def)
    have "ms_common s4 = cm" by (simp add: s4 release_nudge_def)
    then obtain ok c r w3 where
      sw: "run_sweep P (cm_center cm) (cm_range cm) (send_mouse P neutral_mouse w1) = Some ((ok, c, r), w3)"
      using assms False st by (auto simp: mouse_tick_def Let_def after_edge_def o
          recalibration_output_def init_output_def split: option.splits)
    obtain post w4 where rd: "read_stick P w3 = (post, w4)" by fastforce
    obtain t w5 where nw: "ports_now P w4 = (t, w5)" by fastforce
    from assms False st sw rd nw \<open>ms_common s4 = cm\<close> show ?thesis
      by (intro sweep [OF _ True s4 sw rd nw]) (auto simp: mouse_tick_def Let_def after_edge_def o
          recalibration_output_def init_output_def)
  next
    case nr: False
    have o: "send_report out" "\<not> run_recalibration out" using mouse_step_parts [OF st nr] by metis+
    obtain cm' w2 where "push_drift P out (ms_common s4) (send_mouse P (out_mouse out) w1) = (cm', w2)"
      by fastforce
    with assms False st o nr show ?thesis
      by (intro step [OF _ nr _ st]) (auto simp: mouse_tick_def Let_def after_edge_def)
  qed
qed

lemma xac_tick_cases:
  assumes "xac_tick hyp P s i w = Some (s', w')"
    "sensor_fault_update P (xs_common s) i w = (e, cm, w1)"
  obtains (quiet) "holds_output i \<or> (edge_faulted e \<and> \<not> recalibration_requested i)"
      "s' = s\<lparr>xs_common := cm\<rparr>" "w' = send_xac P neutral_xac w1"
  | (sweep) ok c r w3 post w4 t w5 where "\<not> holds_output i" "recalibration_requested i"
      "run_sweep P (cm_center cm) (cm_range cm) (send_xac P neutral_xac w1) = Some ((ok, c, r), w3)"
      "read_stick P w3 = (post, w4)" "ports_now P w4 = (t, w5)"
      "s' = s\<lparr>xs_common := recalibrated_common cm ok c r\<rparr>" "w' = send_xac P neutral_xac w5"
  | (step) s4 out cm' where "\<not> holds_output i" "\<not> recalibration_requested i" "\<not> edge_faulted e"
      "xac_step hyp (s\<lparr>xs_common := cm\<rparr>) i = (s4, out)"
      "out_xac out = \<lparr>xac_x = st_x (stick i), xac_y = st_y (stick i)\<rparr>"
      "push_drift P out (xs_common s4) (send_xac P (out_xac out) w1) = (cm', w')"
      "s' = s4\<lparr>xs_common := cm'\<rparr>"
      "cm_range (xs_common s4) = cm_range cm"
      "drift_applied out \<or> cm_center (xs_common s4) = cm_center cm"
proof (cases "holds_output i \<or> (edge_faulted e \<and> \<not> recalibration_requested i)")
  case True
  then show ?thesis using assms by (intro quiet) (auto simp: xac_tick_def Let_def split: if_splits)
next
  case False
  show ?thesis
  proof (cases "recalibration_requested i")
    case True
    then have x: "xac_step hyp (s\<lparr>xs_common := cm\<rparr>) i = (s\<lparr>xs_common := cm\<rparr>, recalibration_output)"
      by (simp add: xac_step_def)
    then obtain ok c r w3 where
      sw: "run_sweep P (cm_center cm) (cm_range cm) (send_xac P neutral_xac w1) = Some ((ok, c, r), w3)"
      using assms False by (auto simp: xac_tick_def Let_def
          recalibration_output_def init_output_def split: option.splits)
    obtain post w4 where rd: "read_stick P w3 = (post, w4)" by fastforce
    obtain t w5 where nw: "ports_now P w4 = (t, w5)" by fastforce
    from assms False x sw rd nw show ?thesis
      by (intro sweep [OF _ True sw rd nw]) (auto simp: xac_tick_def Let_def
          recalibration_output_def init_output_def)
  next
    case nr: False
    obtain cm2 out where d: "drift_step cm i (hyp (st_x (stick i)) (st_y (stick i)))
       (init_output\<lparr>send_report := True, out_xac := \<lparr>xac_x = st_x (stick i), xac_y = st_y (stick i)\<rparr>\<rparr>)
       = (cm2, out)" by fastforce
    then have x: "xac_step hyp (s\<lparr>xs_common := cm\<rparr>) i = (s\<lparr>xs_common := cm2\<rparr>, out)"
      using nr by (simp add: xac_step_def Let_def)
    note fr = drift_step_frame [OF d]
    obtain cm' w2 where "push_drift P out cm2 (send_xac P (out_xac out) w1) = (cm', w2)"
      by fastforce
    with assms False x fr nr show ?thesis
      by (intro step [OF _ nr _ x]) (auto simp: xac_tick_def Let_def init_output_def)
  qed
qed

section \<open>What the ports leave alone, a tick leaves alone\<close>

locale keeping_ports =
  fixes P :: "'w ports" and f :: "'w \<Rightarrow> 'a"
  assumes send_keeps: "f (send_mouse P m w) = f w" "f (send_xac P x w) = f w"
    and sweep_keeps: "run_sweep P c r w = Some (res, w') \<Longrightarrow> f w' = f w"
    and save_keeps: "f (save_to_flash P w) = f w"
    and apply_keeps: "apply_drift P c r w = (c', w') \<Longrightarrow> f w' = f w"
    and read_keeps: "read_stick P w = (st, w') \<Longrightarrow> f w' = f w"
    and now_keeps: "ports_now P w = (t, w') \<Longrightarrow> f w' = f w"
    and status_keeps: "f (sensor_fault_changed P b k n w) = f w" "f (sensor_observed_healthy P w) = f w"
begin

lemma sensor_update_keeps: "sensor_fault_update P cm i w = (e, cm', w') \<Longrightarrow> f w' = f w"
  by (auto simp: sensor_fault_update_def Let_def status_keeps split: prod.splits if_splits)

lemma push_drift_keeps: "push_drift P out cm w = (cm', w') \<Longrightarrow> f w' = f w"
  by (auto simp: push_drift_def Let_def save_keeps dest!: apply_keeps split: prod.splits if_splits)

lemma mouse_tick_keeps:
  assumes "mouse_tick hyp P s i w = Some (s', w')"
  shows "f w' = f w"
proof -
  obtain e cm w1 where u: "sensor_fault_update P (ms_common s) i w = (e, cm, w1)"
    by (cases "sensor_fault_update P (ms_common s) i w") auto
  from assms u show ?thesis
    by (cases rule: mouse_tick_cases)
      (use sensor_update_keeps [OF u] in
        \<open>auto simp: send_keeps dest!: sweep_keeps read_keeps now_keeps push_drift_keeps\<close>)
qed

lemma xac_tick_keeps:
  assumes "xac_tick hyp P s i w = Some (s', w')"
  shows "f w' = f w"
proof -
  obtain e cm w1 where u: "sensor_fault_update P (xs_common s) i w = (e, cm, w1)"
    by (cases "sensor_fault_update P (xs_common s) i w") auto
  from assms u show ?thesis
    by (cases rule: xac_tick_cases)
      (use sensor_update_keeps [OF u] in
        \<open>auto simp: send_keeps dest!: sweep_keeps read_keeps now_keeps push_drift_keeps\<close>)
qed

end

section \<open>Ports that record the reports sent\<close>

locale recording_ports =
  fixes P :: "'w ports"
    and mouse_log :: "'w \<Rightarrow> 'm list" and xac_log :: "'w \<Rightarrow> 'x list"
    and enc_mouse :: "mouse_report \<Rightarrow> 'm" and enc_xac :: "xac_report \<Rightarrow> 'x"
  assumes send_mouse_log: "mouse_log (send_mouse P m w) = mouse_log w @ [enc_mouse m]"
      "xac_log (send_mouse P m w) = xac_log w"
    and send_xac_log: "xac_log (send_xac P x w) = xac_log w @ [enc_xac x]"
      "mouse_log (send_xac P x w) = mouse_log w"
    and sweep_log: "run_sweep P c r w = Some (res, w') \<Longrightarrow>
      mouse_log w' = mouse_log w \<and> xac_log w' = xac_log w"
    and save_log: "mouse_log (save_to_flash P w) = mouse_log w" "xac_log (save_to_flash P w) = xac_log w"
    and apply_log: "apply_drift P c r w = (c', w') \<Longrightarrow>
      mouse_log w' = mouse_log w \<and> xac_log w' = xac_log w"
    and read_log: "read_stick P w = (st, w') \<Longrightarrow>
      mouse_log w' = mouse_log w \<and> xac_log w' = xac_log w"
    and now_log: "ports_now P w = (t, w') \<Longrightarrow> mouse_log w' = mouse_log w \<and> xac_log w' = xac_log w"
    and changed_log: "mouse_log (sensor_fault_changed P b f n w) = mouse_log w"
      "xac_log (sensor_fault_changed P b f n w) = xac_log w"
    and healthy_log: "mouse_log (sensor_observed_healthy P w) = mouse_log w"
      "xac_log (sensor_observed_healthy P w) = xac_log w"
begin

lemmas port_logs = send_mouse_log send_xac_log save_log changed_log healthy_log

lemma sensor_update_log:
  "sensor_fault_update P cm i w = (e, cm', w') \<Longrightarrow>
   mouse_log w' = mouse_log w \<and> xac_log w' = xac_log w"
  by (auto simp: sensor_fault_update_def Let_def port_logs split: prod.splits if_splits)

lemma push_drift_log:
  "push_drift P out cm w = (cm', w') \<Longrightarrow> mouse_log w' = mouse_log w \<and> xac_log w' = xac_log w"
  by (auto simp: push_drift_def Let_def port_logs dest!: apply_log split: prod.splits if_splits)

text \<open>A mouse tick sends one report, or two neutral ones around a sweep; it sends nothing to the
  XAC endpoint. An XAC tick is the mirror image.\<close>

lemma mouse_tick_reports:
  assumes "mouse_tick hyp P s i w = Some (s', w')"
  shows "xac_log w' = xac_log w \<and>
    (if holds_output i then mouse_log w' = mouse_log w @ [enc_mouse neutral_mouse]
     else if recalibration_requested i
     then mouse_log w' = mouse_log w @ [enc_mouse neutral_mouse, enc_mouse neutral_mouse]
     else if faulted (cm_sensor (ms_common s'))
     then mouse_log w' = mouse_log w @ [enc_mouse neutral_mouse]
     else \<exists>r. mouse_log w' = mouse_log w @ [enc_mouse r])"
proof -
  obtain e cm w1 where u: "sensor_fault_update P (ms_common s) i w = (e, cm, w1)"
    by (cases "sensor_fault_update P (ms_common s) i w") auto
  note l = sensor_update_log [OF u] and f = sensor_update_frame [OF u]
  from assms u show ?thesis
  proof (cases rule: mouse_tick_cases)
    case quiet
    then show ?thesis using l by (auto simp: port_logs holds_output_def)
  next
    case (sweep s4 ok c r w3 post w4 t w5)
    then show ?thesis
      using l sweep_log [OF sweep(4)] read_log [OF sweep(5)] now_log [OF sweep(6)]
      by (simp add: port_logs)
  next
    case (step s4 out cm')
    have "cm_sensor cm' = cm_sensor (ms_common s4)"
      using step(5) by (auto simp: push_drift_def Let_def split: prod.splits if_splits)
    then have "\<not> faulted (cm_sensor (ms_common s'))"
      using mouse_step_common [OF step(4,2)] f step by simp
    then show ?thesis using push_drift_log [OF step(5)] l step by (auto simp: port_logs)
  qed
qed

lemma xac_tick_reports:
  assumes "xac_tick hyp P s i w = Some (s', w')"
  shows "mouse_log w' = mouse_log w \<and>
    (if holds_output i then xac_log w' = xac_log w @ [enc_xac neutral_xac]
     else if recalibration_requested i
     then xac_log w' = xac_log w @ [enc_xac neutral_xac, enc_xac neutral_xac]
     else xac_log w' = xac_log w @ [enc_xac neutral_xac] \<or>
       xac_log w' = xac_log w @ [enc_xac \<lparr>xac_x = st_x (stick i), xac_y = st_y (stick i)\<rparr>])"
proof -
  obtain e cm w1 where u: "sensor_fault_update P (xs_common s) i w = (e, cm, w1)"
    by (cases "sensor_fault_update P (xs_common s) i w") auto
  note l = sensor_update_log [OF u]
  from assms u show ?thesis
  proof (cases rule: xac_tick_cases)
    case quiet
    then show ?thesis using l by (auto simp: port_logs holds_output_def)
  next
    case (sweep ok c r w3 post w4 t w5)
    then show ?thesis
      using l sweep_log [OF sweep(3)] read_log [OF sweep(4)] now_log [OF sweep(5)]
      by (simp add: port_logs)
  next
    case (step s4 out cm')
    then show ?thesis using push_drift_log [OF step(6)] l by (simp add: port_logs)
  qed
qed

end

section \<open>Ports backed by a store\<close>

text \<open>What the sensor measured of a center: everything but the manual offset, which belongs to
  the console.\<close>

definition measured :: "center_result \<Rightarrow> center_result" where
  "measured c = c\<lparr>manual_offset_x := f_0, manual_offset_y := f_0\<rparr>"

locale store_ports =
  fixes P :: "'w ports" and st_center :: "'w \<Rightarrow> center_result" and st_range :: "'w \<Rightarrow> range_result"
  assumes apply_store: "apply_drift P c r w = (c', w') \<Longrightarrow> c' = st_center w' \<and> r = st_range w'"
    and sweep_done: "run_sweep P c r w = Some ((True, c', r'), w') \<Longrightarrow>
      c' = st_center w' \<and> r' = st_range w'"
    and sweep_failed: "run_sweep P c r w = Some ((False, c', r'), w') \<Longrightarrow>
      st_center w' = st_center w \<and> st_range w' = st_range w"
    and send_store: "st_center (send_mouse P m w) = st_center w" "st_range (send_mouse P m w) = st_range w"
      "st_center (send_xac P x w) = st_center w" "st_range (send_xac P x w) = st_range w"
    and save_store: "st_center (save_to_flash P w) = st_center w" "st_range (save_to_flash P w) = st_range w"
    and read_store: "read_stick P w = (st, w') \<Longrightarrow> st_center w' = st_center w \<and> st_range w' = st_range w"
    and now_store: "ports_now P w = (t, w') \<Longrightarrow> st_center w' = st_center w \<and> st_range w' = st_range w"
    and changed_store: "st_center (sensor_fault_changed P b f n w) = st_center w"
      "st_range (sensor_fault_changed P b f n w) = st_range w"
    and healthy_store: "st_center (sensor_observed_healthy P w) = st_center w"
      "st_range (sensor_observed_healthy P w) = st_range w"
begin

lemmas port_store = send_store save_store changed_store healthy_store

definition in_step :: "common_state \<Rightarrow> 'w \<Rightarrow> bool" where
  "in_step cm w \<longleftrightarrow> measured (cm_center cm) = measured (st_center w) \<and> cm_range cm = st_range w"

lemma sensor_update_store:
  "sensor_fault_update P cm i w = (e, cm', w') \<Longrightarrow>
   st_center w' = st_center w \<and> st_range w' = st_range w"
  by (auto simp: sensor_fault_update_def Let_def port_store split: prod.splits if_splits)

lemma push_drift_in_step:
  assumes "push_drift P out cm w = (cm', w')" "cm_range cm = st_range w"
    "drift_applied out \<or> in_step cm w"
  shows "in_step cm' w'"
proof (cases "drift_applied out")
  case False
  with assms show ?thesis
    by (auto simp: push_drift_def Let_def in_step_def port_store split: if_splits)
next
  case True
  obtain c w1 where a: "apply_drift P (cm_center cm) (cm_range cm) w = (c, w1)" by fastforce
  then have "cm' = cm\<lparr>cm_center := c\<rparr>" "w' = (if save_calibration out then save_to_flash P w1 else w1)"
    using assms(1) True by (simp_all add: push_drift_def Let_def)
  with apply_store [OF a] assms(2) show ?thesis by (simp add: in_step_def port_store)
qed

lemma recalibrated_in_step:
  assumes "run_sweep P (cm_center cm) (cm_range cm) w = Some ((ok, c, r), w')" "in_step cm w"
  shows "in_step (recalibrated_common cm ok c r) w'"
  using assms sweep_done [of "cm_center cm" "cm_range cm" w c r w']
    sweep_failed [of "cm_center cm" "cm_range cm" w c r w']
  by (cases ok) (simp_all add: recalibrated_common_def Let_def in_step_def)

lemma mouse_tick_in_step:
  assumes "mouse_tick hyp P s i w = Some (s', w')" "in_step (ms_common s) w"
  shows "in_step (ms_common s') w'"
proof -
  obtain e cm w1 where u: "sensor_fault_update P (ms_common s) i w = (e, cm, w1)"
    by (cases "sensor_fault_update P (ms_common s) i w") auto
  have k: "in_step cm (send_mouse P m w1)" for m
    using sensor_update_store [OF u] sensor_update_frame [OF u] assms(2)
    by (simp add: in_step_def port_store)
  from assms(1) u show ?thesis
  proof (cases rule: mouse_tick_cases)
    case quiet
    then show ?thesis using k by (simp add: rebase_def release_nudge_def)
  next
    case (sweep s4 ok c r w3 post w4 t w5)
    from recalibrated_in_step [OF sweep(4) k] sweep read_store [OF sweep(5)] now_store [OF sweep(6)]
    show ?thesis
      by (simp add: recalibrated_mouse_def release_nudge_def in_step_def port_store)
  next
    case (step s4 out cm')
    from mouse_step_common [OF step(4,2)] k [of "out_mouse out"]
    have "in_step cm' w'"
      by (intro push_drift_in_step [OF step(5)]) (auto simp: in_step_def)
    with step show ?thesis by simp
  qed
qed

lemma xac_tick_in_step:
  assumes "xac_tick hyp P s i w = Some (s', w')" "in_step (xs_common s) w"
  shows "in_step (xs_common s') w'"
proof -
  obtain e cm w1 where u: "sensor_fault_update P (xs_common s) i w = (e, cm, w1)"
    by (cases "sensor_fault_update P (xs_common s) i w") auto
  have k: "in_step cm (send_xac P m w1)" for m
    using sensor_update_store [OF u] sensor_update_frame [OF u] assms(2)
    by (simp add: in_step_def port_store)
  from assms(1) u show ?thesis
  proof (cases rule: xac_tick_cases)
    case quiet
    then show ?thesis using k by simp
  next
    case (sweep ok c r w3 post w4 t w5)
    from recalibrated_in_step [OF sweep(3) k] sweep read_store [OF sweep(4)] now_store [OF sweep(5)]
    show ?thesis by (simp add: in_step_def port_store)
  next
    case (step s4 out cm')
    then have "in_step cm' w'"
      using k [of "out_xac out"] by (intro push_drift_in_step [OF step(6)]) (auto simp: in_step_def)
    with step show ?thesis by simp
  qed
qed

end

section \<open>The recalibration gate between tasks\<close>

text \<open>Any number of console tasks request; the polling loop takes once per iteration and, when it
  took, finishes after the tick. Each step is one atomic access. The two counters are
  bookkeeping: requests accepted and sweeps finished.\<close>

record gate_system =
  gs_gate :: gate
  gs_sweeping :: bool
  gs_accepted :: nat
  gs_swept :: nat

definition init_gate_system :: gate_system where
  "init_gate_system = \<lparr>gs_gate = Idle, gs_sweeping = False, gs_accepted = 0, gs_swept = 0\<rparr>"

inductive gate_step :: "gate_system \<Rightarrow> gate_system \<Rightarrow> bool" where
  request: "gate_request (gs_gate s) = (ok, g) \<Longrightarrow>
    gate_step s (s\<lparr>gs_gate := g, gs_accepted := gs_accepted s + (if ok then 1 else 0)\<rparr>)"
| take_gate: "\<not> gs_sweeping s \<Longrightarrow> gate_take (gs_gate s) = (ok, g) \<Longrightarrow>
    gate_step s (s\<lparr>gs_gate := g, gs_sweeping := ok\<rparr>)"
| finish: "gs_sweeping s \<Longrightarrow>
    gate_step s (s\<lparr>gs_gate := gate_finish (gs_gate s), gs_sweeping := False,
                 gs_swept := gs_swept s + 1\<rparr>)"

inductive_cases gate_stepE: "gate_step s s'"

definition gate_inv :: "gate_system \<Rightarrow> bool" where
  "gate_inv s \<longleftrightarrow> (gs_sweeping s \<longleftrightarrow> gs_gate s = Running) \<and>
     gs_accepted s = gs_swept s + (if gs_gate s = Idle then 0 else 1)"

lemma gate_inv_step: "gate_step s s' \<Longrightarrow> gate_inv s \<Longrightarrow> gate_inv s'"
  by (elim gate_stepE)
    (auto simp: gate_inv_def gate_request_def gate_take_def gate_finish_def split: if_splits)

lemma gate_inv_reachable: "gate_step\<^sup>*\<^sup>* init_gate_system s \<Longrightarrow> gate_inv s"
proof (induction rule: rtranclp_induct)
  case base
  show ?case by (simp add: gate_inv_def init_gate_system_def)
next
  case (step y z)
  then show ?case by (blast intro: gate_inv_step)
qed

lemma mouse_step_total:
  assumes "ffin (st_x (stick i))" "ffin (st_y (stick i))"
    "\<bar>sval (st_x (stick i))\<bar> \<le> one_units" "\<bar>sval (st_y (stick i))\<bar> \<le> one_units"
  shows "\<exists>s' out. mouse_step hyp s i = Some (s', out) \<and> send_report out \<and>
    \<bar>sint (dx (out_mouse out))\<bar> \<le> 15 \<and> \<bar>sint (dy (out_mouse out))\<bar> \<le> 15"
proof (cases "recalibration_requested i")
  case True
  then show ?thesis
    by (simp add: mouse_step_def recalibration_output_def init_output_def neutral_mouse_def)
next
  case False
  define s2 where "s2 = nudge_window hyp (to_millis (step_now i - window_start (first_use i s)))
            (hyp (st_x (stick i)) (st_y (stick i))) i (nudge_switch i (first_use i s))"
  obtain mx my where d: "to_delta (fmul (st_x (stick i)) SENSITIVITY) = Some mx" "\<bar>sint mx\<bar> \<le> 15"
    "to_delta (fmul (st_y (stick i)) SENSITIVITY) = Some my" "\<bar>sint my\<bar> \<le> 15"
    using scaled_stick [OF assms(1,3)] scaled_stick [OF assms(2,4)] by blast
  obtain s3 r where m: "mouse_output i s2 = Some (s3, r)" "\<bar>sint (dx r)\<bar> \<le> 15" "\<bar>sint (dy r)\<bar> \<le> 15"
    using d by (cases "ms_nudge s2") (auto simp: mouse_output_def Let_def neutral_mouse_def)
  obtain cm out where ds: "drift_step (ms_common s3) i (hyp (st_x (stick i)) (st_y (stick i)))
      (init_output\<lparr>send_report := True, out_mouse := r\<rparr>) = (cm, out)" by fastforce
  have "mouse_step hyp s i = Some (s3\<lparr>ms_common := cm\<rparr>, out)"
    using False m ds by (simp add: mouse_step_def Let_def s2_def)
  with drift_step_frame [OF ds] m show ?thesis by (simp add: init_output_def)
qed

section \<open>Properties\<close>

text \<open>The gate, under any interleaving of requests with the loop: every accepted request is
  swept exactly once, at most one is outstanding, and a request that arrives while one is pending
  or running is refused.\<close>

theorem gate_one_sweep_per_request:
  assumes "gate_step\<^sup>*\<^sup>* init_gate_system s"
  shows "gs_swept s \<le> gs_accepted s \<and> gs_accepted s \<le> gs_swept s + 1 \<and>
    (gs_accepted s = gs_swept s \<longleftrightarrow> gs_gate s = Idle) \<and>
    (gs_sweeping s \<longrightarrow> fst (gate_request (gs_gate s)) = False) \<and>
    (fst (gate_request (gs_gate s)) \<longleftrightarrow> gs_accepted s = gs_swept s)"
  using gate_inv_reachable [OF assms] by (auto simp: gate_inv_def gate_request_def)

theorem gate_one_sweep_per_request_witness:
  "gs_accepted (init_gate_system\<lparr>gs_gate := Requested, gs_accepted := 1\<rparr>) \<le>
   gs_swept (init_gate_system\<lparr>gs_gate := Requested, gs_accepted := 1\<rparr>) + 1"
proof -
  have "gate_step init_gate_system (init_gate_system\<lparr>gs_gate := Requested, gs_accepted := 1\<rparr>)"
    using request [of init_gate_system True Requested]
    by (simp add: init_gate_system_def gate_request_def)
  then have "gate_step\<^sup>*\<^sup>* init_gate_system (init_gate_system\<lparr>gs_gate := Requested, gs_accepted := 1\<rparr>)"
    by (rule r_into_rtranclp)
  from gate_one_sweep_per_request [OF this] show ?thesis by blast
qed

text \<open>A stick inside the unit square never drives the mouse step into an undefined
  conversion, and the cursor moves at most 15 counts on each axis.\<close>

theorem mouse_step_defined:
  assumes "ffin (st_x (stick i))" "ffin (st_y (stick i))"
    "\<bar>sval (st_x (stick i))\<bar> \<le> one_units" "\<bar>sval (st_y (stick i))\<bar> \<le> one_units"
  shows "\<exists>s' out. mouse_step hyp s i = Some (s', out) \<and> send_report out \<and>
    \<bar>sint (dx (out_mouse out))\<bar> \<le> 15 \<and> \<bar>sint (dy (out_mouse out))\<bar> \<le> 15"
  using assms by (rule mouse_step_total)

theorem mouse_step_defined_witness:
  "\<exists>s' out. mouse_step (\<lambda>x y. fmax (fabs x) (fabs y)) init_mouse_state
      \<lparr>stick = init_sample\<lparr>st_x := f_1\<rparr>, step_now = 0, recalibration_requested = False,
        output_hold = False, needs_calibration = False, step_settings = init_settings\<rparr> = Some (s', out)"
  using mouse_step_defined [of "\<lparr>stick = init_sample\<lparr>st_x := f_1\<rparr>, step_now = 0,
      recalibration_requested = False, output_hold = False, needs_calibration = False,
      step_settings = init_settings\<rparr>"]
  by (fastforce simp: init_sample_def ffin_literals sval_literals one_units_def)

lemma mouse_step_report:
  assumes "mouse_step hyp s i = Some (s', out)"
  shows "buttons (out_mouse out) \<in> {0, 1, 2} \<and>
    (buttons (out_mouse out) \<noteq> 0 \<longrightarrow> dx (out_mouse out) = 0 \<and> dy (out_mouse out) = 0 \<and>
       wheel (out_mouse out) = 0) \<and>
    (wheel (out_mouse out) \<noteq> 0 \<longrightarrow> dx (out_mouse out) = 0 \<and> dy (out_mouse out) = 0) \<and>
    \<bar>sint (dx (out_mouse out))\<bar> \<le> 127 \<and> \<bar>sint (dy (out_mouse out))\<bar> \<le> 127 \<and>
    wheel (out_mouse out) \<in> {0, 1, -1}"
proof (cases "recalibration_requested i")
  case True
  with assms show ?thesis
    by (auto simp: mouse_step_def recalibration_output_def init_output_def neutral_mouse_def)
next
  case False
  from assms False obtain s2 s3 r where m: "mouse_output i s2 = Some (s3, r)" "out_mouse out = r"
    by (rule mouse_step_parts) blast
  show ?thesis
    unfolding m(2) using m(1)
    by (cases "ms_nudge s2")
      (auto simp: mouse_output_def Let_def neutral_mouse_def nudge_buttons_def SCROLL_STEP_def
        abs_le_iff dest: to_delta_range split: option.splits if_splits)
qed

text \<open>C17: What a mouse report may carry: no report presses both buttons, a report with a button
  pressed or the wheel turned moves nothing, and movement stays within the range of the HID
  report.\<close>

theorem mouse_report_exclusive:
  assumes "mouse_step hyp s i = Some (s', out)"
  shows "buttons (out_mouse out) \<in> {0, 1, 2} \<and>
    (buttons (out_mouse out) \<noteq> 0 \<longrightarrow> dx (out_mouse out) = 0 \<and> dy (out_mouse out) = 0 \<and>
       wheel (out_mouse out) = 0) \<and>
    (wheel (out_mouse out) \<noteq> 0 \<longrightarrow> dx (out_mouse out) = 0 \<and> dy (out_mouse out) = 0) \<and>
    \<bar>sint (dx (out_mouse out))\<bar> \<le> 127 \<and> \<bar>sint (dy (out_mouse out))\<bar> \<le> 127 \<and>
    wheel (out_mouse out) \<in> {0, 1, -1}"
  by (rule mouse_step_report [OF assms])

theorem mouse_report_exclusive_witness:
  "\<exists>s' out. mouse_step (\<lambda>x y. x) init_mouse_state
      \<lparr>stick = init_sample, step_now = 0, recalibration_requested = True,
        output_hold = False, needs_calibration = False, step_settings = init_settings\<rparr> = Some (s', out)
      \<and> buttons (out_mouse out) \<in> {0, 1, 2}"
proof -
  obtain s' out where r: "mouse_step (\<lambda>x y. x) init_mouse_state
      \<lparr>stick = init_sample, step_now = 0, recalibration_requested = True,
        output_hold = False, needs_calibration = False, step_settings = init_settings\<rparr> = Some (s', out)"
    by (simp add: mouse_step_def)
  from mouse_report_exclusive [OF r] r show ?thesis by blast
qed

text \<open>The nudge state machine. A nudge starts only from no nudge, with clicks enabled, at the
  end of a measurement window in which the magnitude grew by the enter threshold, and then in the
  direction of the stick; it ends only on a recalibration, when clicks are off, or at the end of a
  window with the stick inside the exit threshold. One direction never turns into another.\<close>

theorem nudge_transitions:
  assumes "mouse_step hyp s i = Some (s', out)" "ms_nudge s' \<noteq> ms_nudge s"
  shows "(ms_nudge s = NONE \<and> \<not> recalibration_requested i \<and> nudge_enabled (step_settings i) \<and>
      nudge_hold_time (step_settings i)
        \<le> to_millis (step_now i - window_start (first_use i s)) \<and>
      fle (nudge_distance_threshold (step_settings i))
        (fsub (hyp (st_x (stick i)) (st_y (stick i)))
           (hyp (prev_x (first_use i s)) (prev_y (first_use i s)))) \<and>
      ms_nudge s' = classify_nudge (st_x (stick i)) (st_y (stick i)))
    \<or> (ms_nudge s \<noteq> NONE \<and> ms_nudge s' = NONE \<and>
      (recalibration_requested i \<or> \<not> nudge_enabled (step_settings i) \<or>
       nudge_hold_time (step_settings i)
         \<le> to_millis (step_now i - window_start (first_use i s)) \<and>
       fle (hyp (st_x (stick i)) (st_y (stick i))) (nudge_exit_threshold (step_settings i))))"
proof (cases "recalibration_requested i")
  case True
  with assms show ?thesis by (auto simp: mouse_step_def)
next
  case False
  from assms(1) False obtain s2 where
    s2: "s2 = nudge_window hyp (to_millis (step_now i - window_start (first_use i s)))
            (hyp (st_x (stick i)) (st_y (stick i))) i (nudge_switch i (first_use i s))"
      "ms_nudge s' = ms_nudge s2"
    by (rule mouse_step_parts) blast
  show ?thesis
  proof (cases "nudge_enabled (step_settings i)")
    case True
    with assms(2) False show ?thesis
      unfolding s2 by (auto simp: nudge_window_def Let_def split: if_splits)
  next
    case off: False
    then have "ms_nudge s2 = NONE" unfolding s2 by (simp add: nudge_window_off)
    with assms(2) off s2 show ?thesis by simp
  qed
qed

theorem nudge_transitions_witness:
  "\<exists>s' out. mouse_step (\<lambda>x y. x) (init_mouse_state\<lparr>ms_nudge := LEFT\<rparr>)
      \<lparr>stick = init_sample, step_now = 0, recalibration_requested = True,
        output_hold = False, needs_calibration = False, step_settings = init_settings\<rparr>
      = Some (s', out) \<and> ms_nudge s' = NONE"
proof -
  obtain s' out where r: "mouse_step (\<lambda>x y. x) (init_mouse_state\<lparr>ms_nudge := LEFT\<rparr>)
      \<lparr>stick = init_sample, step_now = 0, recalibration_requested = True,
        output_hold = False, needs_calibration = False, step_settings = init_settings\<rparr>
      = Some (s', out)" "ms_nudge s' \<noteq> ms_nudge (init_mouse_state\<lparr>ms_nudge := LEFT\<rparr>)"
    by (simp add: mouse_step_def)
  from nudge_transitions [OF r] r show ?thesis by auto
qed

lemma fsub_self: "ffin m \<Longrightarrow> sval (fsub m m) = 0 \<and> \<not> fnan (fsub m m)"
proof -
  assume m: "ffin m"
  have z: "rr 0 = 0" using rr_sval [of f_0] by (simp add: sval_literals ffin_literals ffin_not_nan)
  have "ffin (fof (fsgn m \<and> \<not> fsgn m) (rat_of_int 0))" by (rule fof_fin) simp
  with m z show ?thesis by (simp add: fsub_fin ffin_not_nan)
qed

text \<open>A push made while nudge clicks are off never becomes a click: if they are switched on
  while the stick is still where it was on the last tick with them off, the next tick presses
  nothing, whatever the previous state and times.\<close>

theorem push_while_off_never_clicks:
  assumes off: "mouse_step hyp s i = Some (s1, out1)" "\<not> recalibration_requested i"
      "\<not> nudge_enabled (step_settings i)"
    and on: "mouse_step hyp s1 j = Some (s2, out2)" "\<not> recalibration_requested j"
    and same: "st_x (stick j) = st_x (stick i)" "st_y (stick j) = st_y (stick i)"
    and fin: "ffin (hyp (st_x (stick i)) (st_y (stick i)))"
    and thr: "flt f_0 (nudge_distance_threshold (step_settings j))"
  shows "ms_nudge s1 = NONE \<and> buttons (out_mouse out1) = 0 \<and> ms_nudge s2 = NONE \<and>
    buttons (out_mouse out2) = 0"
proof -
  from off(1,2) obtain t2 t3 where
    t2: "t2 = nudge_window hyp (to_millis (step_now i - window_start (first_use i s)))
            (hyp (st_x (stick i)) (st_y (stick i))) i (nudge_switch i (first_use i s))"
    and a: "mouse_output i t2 = Some (t3, out_mouse out1)" "ms_nudge s1 = ms_nudge t2"
      "prev_x s1 = prev_x t2" "prev_y s1 = prev_y t2" "initialised s1"
    by (rule mouse_step_parts) blast
  have n1: "ms_nudge s1 = NONE" "prev_x s1 = st_x (stick i)" "prev_y s1 = st_y (stick i)"
    unfolding a t2 using off(3) by (simp_all add: nudge_window_off nudge_window_prev)
  have "ms_nudge s2 = NONE"
  proof (rule ccontr)
    assume "ms_nudge s2 \<noteq> NONE"
    then have "fle (nudge_distance_threshold (step_settings j))
        (fsub (hyp (st_x (stick j)) (st_y (stick j))) (hyp (prev_x s1) (prev_y s1)))"
      using nudge_transitions [OF on(1)] n1 a(5) by (auto simp: first_use_def)
    then show False
      using fsub_self [OF fin] thr by (simp add: n1 same fle_def flt_def sval_literals)
  qed
  moreover have "buttons (out_mouse out1) = 0"
    using mouse_output_frame [OF a(1)] a(2) n1 by (simp add: nudge_buttons_def)
  moreover have "buttons (out_mouse out2) = 0"
  proof -
    from on obtain u2 u3 where "mouse_output j u2 = Some (u3, out_mouse out2)" "ms_nudge s2 = ms_nudge u2"
      by (rule mouse_step_parts) blast
    with mouse_output_frame [OF this(1)] \<open>ms_nudge s2 = NONE\<close> show ?thesis
      by (simp add: nudge_buttons_def)
  qed
  ultimately show ?thesis using n1 by blast
qed

definition witness_input :: "bool \<Rightarrow> step_input" where
  "witness_input on = \<lparr>stick = init_sample\<lparr>st_x := f_1\<rparr>, step_now = 0,
     recalibration_requested = False, output_hold = False, needs_calibration = False,
     step_settings = init_settings\<lparr>nudge_enabled := on\<rparr>\<rparr>"

lemma witness_input_simps [simp]:
  "stick (witness_input on) = init_sample\<lparr>st_x := f_1\<rparr>" "\<not> recalibration_requested (witness_input on)"
  "nudge_enabled (step_settings (witness_input on)) = on"
  "nudge_distance_threshold (step_settings (witness_input on)) = f_0_5"
  by (simp_all add: witness_input_def init_settings_def)

lemma witness_step: "\<exists>s' out. mouse_step hyp s (witness_input on) = Some (s', out)"
proof -
  have "ffin (st_x (stick (witness_input on)))" "ffin (st_y (stick (witness_input on)))"
    "\<bar>sval (st_x (stick (witness_input on)))\<bar> \<le> one_units"
    "\<bar>sval (st_y (stick (witness_input on)))\<bar> \<le> one_units"
    by (simp_all add: init_sample_def ffin_literals sval_literals one_units_def)
  from mouse_step_total [OF this] show ?thesis by blast
qed

theorem push_while_off_never_clicks_witness:
  "\<exists>s1 o1 s2 o2. mouse_step (\<lambda>x y. x) init_mouse_state (witness_input False) = Some (s1, o1) \<and>
     mouse_step (\<lambda>x y. x) s1 (witness_input True) = Some (s2, o2) \<and> ms_nudge s2 = NONE"
proof -
  obtain s1 o1 where a: "mouse_step (\<lambda>x y. x) init_mouse_state (witness_input False) = Some (s1, o1)"
    using witness_step by blast
  obtain s2 o2 where b: "mouse_step (\<lambda>x y. x) s1 (witness_input True) = Some (s2, o2)"
    using witness_step by blast
  have "flt f_0 f_0_5" by (simp add: f32_cmp_eval f32_literal_defs)
  then have "ms_nudge s2 = NONE"
    using push_while_off_never_clicks [OF a _ _ b] by (simp add: init_sample_def ffin_literals)
  with a b show ?thesis by blast
qed

fun mouse_outputs :: "step_input list \<Rightarrow> mouse_state \<Rightarrow> mouse_report list" where
  "mouse_outputs [] s = []"
| "mouse_outputs (i # is) s =
     (case mouse_output i s of None \<Rightarrow> [] | Some (s', r) \<Rightarrow> r # mouse_outputs is s')"

lemma scroll_outputs:
  assumes "ms_nudge s = LEFT \<or> ms_nudge s = BACK" "0 \<le> scroll_poll_count s"
    "scroll_poll_count s + int (length is) < int_max" "k < length is"
  shows "wheel (mouse_outputs is s ! k) =
    (if (scroll_poll_count s + int k + 1) mod 5 = 0 then (if ms_nudge s = LEFT then 1 else - 1) else 0)
    \<and> length (mouse_outputs is s) = length is"
  using assms
proof (induction "is" arbitrary: s k)
  case (Cons i "is")
  define s' where "s' = s\<lparr>scroll_poll_count := scroll_poll_count s + 1\<rparr>"
  define r where "r = neutral_mouse\<lparr>buttons := nudge_buttons (ms_nudge s),
    wheel := (if (scroll_poll_count s + 1) mod 5 = 0
              then (if ms_nudge s = LEFT then 1 else - 1) else 0)\<rparr>"
  have n: "s32_succ (scroll_poll_count s) = scroll_poll_count s + 1"
    using Cons.prems by (intro s32_succ_small) simp
  have o: "mouse_output i s = Some (s', r)"
    using Cons.prems(1) by (auto simp: mouse_output_def Let_def n s'_def r_def SCROLL_POLL_DIVIDER_def
        SCROLL_STEP_def neutral_mouse_def)
  have len: "length (mouse_outputs is s') = length is"
    using Cons.IH [of s' 0] Cons.prems by (cases "is") (simp_all add: s'_def)
  show ?case
  proof (cases k)
    case 0
    then show ?thesis using o len by (simp add: r_def)
  next
    case (Suc k')
    have "wheel (mouse_outputs is s' ! k') =
      (if (scroll_poll_count s' + int k' + 1) mod 5 = 0
       then (if ms_nudge s' = LEFT then 1 else - 1) else 0)"
      using Cons.IH [of s' k'] Cons.prems Suc by (simp add: s'_def)
    then show ?thesis using o len Suc by (simp add: s'_def add.assoc add.commute)
  qed
qed simp

text \<open>A held scroll nudge turns the wheel one step on every fifth poll and on no other: up to
  the left, down to the back.\<close>

theorem scroll_every_fifth_poll:
  assumes "ms_nudge s = LEFT \<or> ms_nudge s = BACK" "scroll_poll_count s = 0"
    "int (length is) < int_max" "k < length is"
  shows "wheel (mouse_outputs is s ! k) =
    (if (k + 1) mod 5 = 0 then (if ms_nudge s = LEFT then 1 else - 1) else 0)"
proof -
  have "(int k + 1) mod 5 = 0 \<longleftrightarrow> (k + 1) mod 5 = 0" by presburger
  with scroll_outputs [of s "is" k] assms show ?thesis by simp
qed

theorem scroll_every_fifth_poll_witness:
  "wheel (mouse_outputs (replicate 7 (witness_input True)) (init_mouse_state\<lparr>ms_nudge := BACK\<rparr>) ! 4) = - 1"
  using scroll_every_fifth_poll [of "init_mouse_state\<lparr>ms_nudge := BACK\<rparr>" "replicate 7 (witness_input True)" 4]
  by (simp add: init_mouse_state_def int_max_def)

end
