(* ===== verification/Hid_Reports.thy ===== *)
theory Hid_Reports
  imports Control_Facts
begin

text \<open>
  The HID input reports, \<open>components/hid-rp-mouse/include/hid-rp-mouse.hpp\<close> and
  \<open>components/xac/include/xac.hpp\<close>, as far as their own code goes: the fields a report carries. The
  button set (\<open>hid::report_bitset\<close>) is the list of its bits. The gamepad axes belong to the hid-rp
  library: the calls made are kept. Descriptors and serialised reports are in Hid_Descriptors.
\<close>

section \<open>Mouse report\<close>

record mouse_hid =
  mh_buttons :: "bool list"
  mh_x :: i8
  mh_y :: i8
  mh_wheel :: i8

definition new_mouse_hid :: "nat \<Rightarrow> mouse_hid" where
  "new_mouse_hid n = \<lparr>mh_buttons = replicate n False, mh_x = 0, mh_y = 0, mh_wheel = 0\<rparr>"

definition clamp_delta :: "int \<Rightarrow> i8" where
  "clamp_delta v = (if 127 < v then 127 else if v < - 127 then - 127 else word_of_int v)"

definition reset_movement :: "mouse_hid \<Rightarrow> mouse_hid" where
  "reset_movement r = r\<lparr>mh_x := 0, mh_y := 0, mh_wheel := 0\<rparr>"

definition mouse_hid_reset :: "mouse_hid \<Rightarrow> mouse_hid" where
  "mouse_hid_reset r = reset_movement (r\<lparr>mh_buttons := map (\<lambda>_. False) (mh_buttons r)\<rparr>)"

definition valid_button :: "int \<Rightarrow> mouse_hid \<Rightarrow> bool" where
  "valid_button i r \<longleftrightarrow> 1 \<le> i \<and> i \<le> int (length (mh_buttons r))"

definition set_button :: "int \<Rightarrow> bool \<Rightarrow> mouse_hid \<Rightarrow> bool \<times> mouse_hid" where
  "set_button i v r =
     (if \<not> valid_button i r then (False, r)
      else (True, r\<lparr>mh_buttons := (mh_buttons r)[nat i - 1 := v]\<rparr>))"

definition get_button :: "int \<Rightarrow> mouse_hid \<Rightarrow> bool" where
  "get_button i r = (valid_button i r \<and> mh_buttons r ! (nat i - 1))"

definition set_movement :: "int \<Rightarrow> int \<Rightarrow> mouse_hid \<Rightarrow> mouse_hid" where
  "set_movement x y r = r\<lparr>mh_x := clamp_delta x, mh_y := clamp_delta y\<rparr>"

definition set_wheel :: "int \<Rightarrow> mouse_hid \<Rightarrow> mouse_hid" where
  "set_wheel v r = r\<lparr>mh_wheel := clamp_delta v\<rparr>"

text \<open>\<open>ResolutionMultiplierReport\<close>.\<close>

definition vertical_scroll_multiplier :: "u8 \<Rightarrow> u8 \<Rightarrow> u8" where
  "vertical_scroll_multiplier mx res = (if res AND 0x01 \<noteq> 0 then mx else 1)"

definition horizontal_scroll_multiplier :: "u8 \<Rightarrow> u8 \<Rightarrow> u8" where
  "horizontal_scroll_multiplier mx res = (if res AND 0x04 \<noteq> 0 then mx else 1)"

definition high_resolution :: "u8 \<Rightarrow> bool" where
  "high_resolution res \<longleftrightarrow> res \<noteq> 0"

text \<open>\<open>EspPorts::send_mouse\<close>: a three-button report with a wheel.\<close>

definition mouse_hid_of :: "mouse_report \<Rightarrow> mouse_hid" where
  "mouse_hid_of m =
     (let r0 = mouse_hid_reset (new_mouse_hid 3);
          r1 = snd (set_button 1 (buttons m AND 0x01 \<noteq> 0) r0);
          r2 = snd (set_button 2 (buttons m AND 0x02 \<noteq> 0) r1) in
      set_wheel (sint (wheel m)) (set_movement (sint (dx m)) (sint (dy m)) r2))"

section \<open>XAC report\<close>

definition f_minus_1 :: f32 where "f_minus_1 = 0xBF800000"

definition clamp_axis :: "f32 \<Rightarrow> f32" where
  "clamp_axis v = fclamp v f_minus_1 f_1"

text \<open>The axis values \<open>set_joystick\<close> hands to \<open>GamepadInputReport::set_joystick_axis\<close>, in order.\<close>

definition set_joystick :: "f32 \<Rightarrow> f32 \<Rightarrow> (nat \<times> f32) list" where
  "set_joystick x y =
     (let cx = clamp_axis x; cy = clamp_axis y in [(0, cx), (1, cy), (2, cx), (3, cy)])"

definition xac_hid_of :: "xac_report \<Rightarrow> (nat \<times> f32) list" where
  "xac_hid_of r = set_joystick (xac_x r) (xac_y r)"

section \<open>Lemmas\<close>

lemma clamp_delta_range: "- 127 \<le> sint (clamp_delta v) \<and> sint (clamp_delta v) \<le> 127"
  by (auto simp: clamp_delta_def sint_word_small)

lemma clamp_delta_id: "- 127 \<le> v \<Longrightarrow> v \<le> 127 \<Longrightarrow> sint (clamp_delta v) = v"
  by (simp add: clamp_delta_def sint_word_small)

lemma set_get_button:
  "set_button i v r = (True, r') \<Longrightarrow> get_button i r' = v \<and>
   (\<forall>j. j \<noteq> i \<longrightarrow> get_button j r' = get_button j r)"
  by (auto simp: set_button_def get_button_def valid_button_def nth_list_update split: if_splits)

lemma clamp_axis_unit:
  assumes "\<not> fnan v"
  shows "fle f_minus_1 (clamp_axis v) \<and> fle (clamp_axis v) f_1"
proof -
  have u: "sval f_minus_1 = - one_units" "sval f_1 = one_units" "\<not> fnan f_minus_1" "\<not> fnan f_1"
    by (simp_all add: f_minus_1_def f_1_def f32_eval)
  then show ?thesis using assms by (auto simp: clamp_axis_def fclamp_def flt_def fle_def one_units_def)
qed

text \<open>The step engine truncates and clamps exactly as the report would.\<close>

lemma to_delta_clamps: "to_delta v = map_option clamp_delta (f32_to_int (- int_max - 1) int_max v)"
  unfolding to_delta_def by (rule arg_cong [where f = "\<lambda>g. map_option g _"]) (simp add: clamp_delta_def fun_eq_iff)

lemma neutral_hid:
  "mouse_hid_of neutral_mouse = new_mouse_hid 3"
  by (simp add: mouse_hid_of_def neutral_mouse_def mouse_hid_reset_def reset_movement_def
      new_mouse_hid_def set_button_def valid_button_def set_movement_def set_wheel_def clamp_delta_def
      Let_def numeral_3_eq_3)

end
