(* ===== verification/Hid_Descriptors.thy ===== *)
theory Hid_Descriptors
  imports Hid_Reports
begin

text \<open>
  The report descriptors and the serialised reports of \<open>components/hid-rp-mouse/include/hid-rp-mouse.hpp\<close>
  and \<open>components/xac/include/xac.hpp\<close>. A descriptor is the list of items the code puts together
  (\<open>hid_item\<close>, one constructor for each function of the hid-rp library the code calls); the host reads it
  as the HID class definition says (\<open>walk\<close>), and \<open>read_report\<close> reads a report by the fields found. What
  the library's padding items leave in the global state, the bytes of its button set and its gamepad
  report are parameters.
\<close>

section \<open>Items\<close>

datatype usage_page = Generic_desktop | Button_page

datatype usage =
    U_mouse | U_pointer | U_gamepad | U_x | U_y | U_wheel | U_resolution_multiplier | U_ac_pan | U_button nat

datatype collection_kind = Coll_application | Coll_physical | Coll_logical

datatype hid_item =
    Usage_page usage_page
  | Usage usage
  | Usage_limits nat nat
  | Logical_limits int int
  | Physical_limits int int
  | Report_id nat
  | Report_count nat
  | Report_size nat
  | Push_globals
  | Pop_globals
  | Input_absolute_variable
  | Input_relative_variable
  | Input_byte_padding nat
  | Feature_absolute_variable
  | Feature_byte_padding nat
  | Collection collection_kind "hid_item list"

definition conditional_report_id :: "nat \<Rightarrow> hid_item list" where
  "conditional_report_id i = (if i = 0 then [] else [Report_id i])"

section \<open>The descriptors of the mouse\<close>

definition mouse_fragment :: "nat \<Rightarrow> nat \<Rightarrow> bool \<Rightarrow> hid_item list" where
  "mouse_fragment i n with_wheel =
     conditional_report_id i @
     [Usage_page Button_page, Usage_limits 1 n, Logical_limits 0 1, Report_count n, Report_size 1,
      Input_absolute_variable, Input_byte_padding n,
      Usage_page Generic_desktop, Usage U_x, Usage U_y, Logical_limits (- 127) 127, Report_count 2,
      Report_size 8, Input_relative_variable] @
     (if with_wheel
      then [Usage U_wheel, Logical_limits (- 127) 127, Report_count 1, Report_size 8, Input_relative_variable]
      else [])"

definition mouse_app_report_descriptor :: "nat \<Rightarrow> nat \<Rightarrow> bool \<Rightarrow> hid_item list" where
  "mouse_app_report_descriptor i n with_wheel =
     [Usage_page Generic_desktop, Usage U_mouse,
      Collection Coll_application
        [Usage U_pointer, Collection Coll_physical (mouse_fragment i n with_wheel)]]"

definition resolution_multiplier_bit_size :: nat where "resolution_multiplier_bit_size = 2"

definition resolution_multiplier :: "nat \<Rightarrow> hid_item list" where
  "resolution_multiplier mx =
     [Push_globals, Usage U_resolution_multiplier, Logical_limits 0 1, Physical_limits 1 (int mx), Report_count 1,
      Report_size resolution_multiplier_bit_size, Feature_absolute_variable, Pop_globals]"

definition high_resolution_scrolling :: "nat \<Rightarrow> nat \<Rightarrow> hid_item list" where
  "high_resolution_scrolling max_scroll mx =
     (let scroll_bytes = (if 127 < max_scroll then 2 else 1) in
      [Collection Coll_logical
         ([Usage U_wheel, Logical_limits (- int max_scroll) (int max_scroll), Report_count 1,
           Report_size (scroll_bytes * 8), Input_relative_variable] @ resolution_multiplier mx),
       Collection Coll_logical ([Usage U_ac_pan, Input_relative_variable] @ resolution_multiplier mx),
       Feature_byte_padding (resolution_multiplier_bit_size * 2)])"

section \<open>The host's reading of a descriptor\<close>

text \<open>A control of a report: its usage, width, logical and physical limits; padding has a width only.\<close>

datatype hid_field = Data usage nat "int \<times> int" "int \<times> int" | Constant nat

record hid_globals =
  hg_id :: nat
  hg_count :: nat
  hg_size :: nat
  hg_logical :: "int \<times> int"
  hg_physical :: "int \<times> int"

record walk =
  wk_globals :: hid_globals
  wk_stack :: "hid_globals list"
  wk_usages :: "usage list"
  wk_input :: "(nat \<times> hid_field) list"
  wk_feature :: "(nat \<times> hid_field) list"

definition init_walk :: walk where
  "init_walk = \<lparr>wk_globals = \<lparr>hg_id = 0, hg_count = 0, hg_size = 0, hg_logical = (0, 0), hg_physical = (0, 0)\<rparr>,
     wk_stack = [], wk_usages = [], wk_input = [], wk_feature = []\<rparr>"

text \<open>A main item takes \<open>hg_count\<close> usages in order, the last one for any that are left; a control without a
  usage makes the descriptor malformed.\<close>

definition controls :: "hid_globals \<Rightarrow> usage list \<Rightarrow> (nat \<times> hid_field) list option" where
  "controls g us =
     (if us = [] then None
      else Some (map (\<lambda>k. (hg_id g, Data (us ! min k (length us - 1)) (hg_size g) (hg_logical g) (hg_physical g)))
                  [0 ..< hg_count g]))"

definition padding_bits :: "nat \<Rightarrow> nat" where "padding_bits n = (8 - n mod 8) mod 8"

definition padding :: "nat \<Rightarrow> nat \<Rightarrow> (nat \<times> hid_field) list" where
  "padding i n = (if padding_bits n = 0 then [] else [(i, Constant (padding_bits n))])"

text \<open>\<open>pad n g\<close>: the count, size and limits a padding item leaves behind; the report id it keeps.\<close>

abbreviation after_padding :: "(nat \<Rightarrow> hid_globals \<Rightarrow> hid_globals) \<Rightarrow> nat \<Rightarrow> walk \<Rightarrow> walk" where
  "after_padding pad n k \<equiv>
     k\<lparr>wk_globals := (pad n (wk_globals k))\<lparr>hg_id := hg_id (wk_globals k)\<rparr>, wk_usages := []\<rparr>"

fun walk_item :: "(nat \<Rightarrow> hid_globals \<Rightarrow> hid_globals) \<Rightarrow> hid_item \<Rightarrow> walk \<Rightarrow> walk option"
and walk_items :: "(nat \<Rightarrow> hid_globals \<Rightarrow> hid_globals) \<Rightarrow> hid_item list \<Rightarrow> walk \<Rightarrow> walk option" where
  "walk_item pad (Usage_page p) k = Some k"
| "walk_item pad (Usage u) k = Some (k\<lparr>wk_usages := wk_usages k @ [u]\<rparr>)"
| "walk_item pad (Usage_limits a b) k = Some (k\<lparr>wk_usages := wk_usages k @ map U_button [a ..< Suc b]\<rparr>)"
| "walk_item pad (Logical_limits a b) k = Some (k\<lparr>wk_globals := (wk_globals k)\<lparr>hg_logical := (a, b)\<rparr>\<rparr>)"
| "walk_item pad (Physical_limits a b) k = Some (k\<lparr>wk_globals := (wk_globals k)\<lparr>hg_physical := (a, b)\<rparr>\<rparr>)"
| "walk_item pad (Report_id i) k = Some (k\<lparr>wk_globals := (wk_globals k)\<lparr>hg_id := i\<rparr>\<rparr>)"
| "walk_item pad (Report_count n) k = Some (k\<lparr>wk_globals := (wk_globals k)\<lparr>hg_count := n\<rparr>\<rparr>)"
| "walk_item pad (Report_size n) k = Some (k\<lparr>wk_globals := (wk_globals k)\<lparr>hg_size := n\<rparr>\<rparr>)"
| "walk_item pad Push_globals k = Some (k\<lparr>wk_stack := wk_globals k # wk_stack k\<rparr>)"
| "walk_item pad Pop_globals k =
     (case wk_stack k of [] \<Rightarrow> None | g # gs \<Rightarrow> Some (k\<lparr>wk_globals := g, wk_stack := gs\<rparr>))"
| "walk_item pad Input_absolute_variable k =
     map_option (\<lambda>fs. k\<lparr>wk_usages := [], wk_input := wk_input k @ fs\<rparr>) (controls (wk_globals k) (wk_usages k))"
| "walk_item pad Input_relative_variable k =
     map_option (\<lambda>fs. k\<lparr>wk_usages := [], wk_input := wk_input k @ fs\<rparr>) (controls (wk_globals k) (wk_usages k))"
| "walk_item pad (Input_byte_padding n) k =
     Some (after_padding pad n (k\<lparr>wk_input := wk_input k @ padding (hg_id (wk_globals k)) n\<rparr>))"
| "walk_item pad Feature_absolute_variable k =
     map_option (\<lambda>fs. k\<lparr>wk_usages := [], wk_feature := wk_feature k @ fs\<rparr>) (controls (wk_globals k) (wk_usages k))"
| "walk_item pad (Feature_byte_padding n) k =
     Some (after_padding pad n (k\<lparr>wk_feature := wk_feature k @ padding (hg_id (wk_globals k)) n\<rparr>))"
| "walk_item pad (Collection c is) k = walk_items pad is (k\<lparr>wk_usages := []\<rparr>)"
| "walk_items pad [] k = Some k"
| "walk_items pad (i # is) k = (case walk_item pad i k of None \<Rightarrow> None | Some k1 \<Rightarrow> walk_items pad is k1)"

lemma walk_items_append [simp]:
  "walk_items pad (is @ js) k = (case walk_items pad is k of None \<Rightarrow> None | Some k1 \<Rightarrow> walk_items pad js k1)"
  by (induction "is" arbitrary: k) (auto split: option.split)

definition input_fields ::
  "(nat \<Rightarrow> hid_globals \<Rightarrow> hid_globals) \<Rightarrow> hid_item list \<Rightarrow> (nat \<times> hid_field) list option" where
  "input_fields pad is = map_option wk_input (walk_items pad is init_walk)"

section \<open>Reports\<close>

definition byte_bits :: "u8 \<Rightarrow> bool list" where
  "byte_bits b = map (bit b) [0 ..< 8]"

definition report_bits :: "bytes \<Rightarrow> bool list" where
  "report_bits bs = concat (map byte_bits bs)"

text \<open>\<open>hid::report_bitset\<close>: the first button in the lowest bit of the first byte, and as many bytes as it takes.\<close>

definition lowest_bit_first :: "(bool list \<Rightarrow> bytes) \<Rightarrow> bool" where
  "lowest_bit_first layout \<longleftrightarrow>
     (\<forall>bs. report_bits (layout bs) = bs @ replicate (padding_bits (length bs)) False)"

definition num_data_bytes :: "nat \<Rightarrow> bool \<Rightarrow> nat" where
  "num_data_bytes n with_wheel = (n + 7) div 8 + 2 + (if with_wheel then 1 else 0)"

definition mouse_get_report :: "(bool list \<Rightarrow> bytes) \<Rightarrow> bool \<Rightarrow> mouse_hid \<Rightarrow> bytes" where
  "mouse_get_report layout with_wheel r =
     take (num_data_bytes (length (mh_buttons r)) with_wheel) (layout (mh_buttons r) @ [mh_x r, mh_y r, mh_wheel r])"

text \<open>The host reads a control as a number, signed when its logical minimum is negative; a value outside
  the logical limits says nothing (\<open>None\<close>). A report that is too short or too long is not read.\<close>

definition field_value :: "int \<times> int \<Rightarrow> bool list \<Rightarrow> int option" where
  "field_value lims bs =
     (let u = horner_sum of_bool 2 bs;
          v = (if fst lims < 0 then signed_take_bit (length bs - 1) u else u) in
      if fst lims \<le> v \<and> v \<le> snd lims then Some v else None)"

fun read_fields :: "hid_field list \<Rightarrow> bool list \<Rightarrow> (usage \<times> int option) list option" where
  "read_fields [] bs = (if bs = [] then Some [] else None)"
| "read_fields (Constant n # fs) bs = (if length bs < n then None else read_fields fs (drop n bs))"
| "read_fields (Data u n lims phys # fs) bs =
     (if length bs < n then None
      else map_option (\<lambda>vs. (u, field_value lims (take n bs)) # vs) (read_fields fs (drop n bs)))"

definition read_report :: "(nat \<times> hid_field) list \<Rightarrow> bytes \<Rightarrow> (usage \<times> int option) list option" where
  "read_report fs bs = read_fields (map snd fs) (report_bits bs)"


section \<open>The mouse report as its descriptor says\<close>

lemma button_controls:
  "1 \<le> n \<Longrightarrow> hg_count g = n \<Longrightarrow> controls g (map U_button [Suc 0 ..< Suc n]) =
     Some (map (\<lambda>k. (hg_id g, Data (U_button (Suc k)) (hg_size g) (hg_logical g) (hg_physical g))) [0 ..< n])"
  by (auto simp: controls_def min_def simp del: upt_Suc)

lemma two_controls:
  "hg_count g = 2 \<Longrightarrow> controls g [u, v] =
     Some [(hg_id g, Data u (hg_size g) (hg_logical g) (hg_physical g)),
           (hg_id g, Data v (hg_size g) (hg_logical g) (hg_physical g))]"
  by (simp add: controls_def numeral_2_eq_2)

lemma one_control:
  "hg_count g = 1 \<Longrightarrow> controls g [u] = Some [(hg_id g, Data u (hg_size g) (hg_logical g) (hg_physical g))]"
  by (simp add: controls_def)

lemma mouse_fields:
  assumes "1 \<le> n"
  shows "\<exists>p. input_fields pad (mouse_app_report_descriptor i n with_wheel) =
    Some (map (\<lambda>k. (i, Data (U_button (Suc k)) 1 (0, 1) (0, 0))) [0 ..< n] @ padding i n @
      [(i, Data U_x 8 (- 127, 127) p), (i, Data U_y 8 (- 127, 127) p)] @
      (if with_wheel then [(i, Data U_wheel 8 (- 127, 127) p)] else []))"
proof -
  have "walk_items pad (conditional_report_id i) init_walk =
      Some (init_walk\<lparr>wk_globals := (wk_globals init_walk)\<lparr>hg_id := i\<rparr>\<rparr>)"
    by (simp add: conditional_report_id_def init_walk_def)
  then show ?thesis using assms
    by (auto simp: input_fields_def mouse_app_report_descriptor_def mouse_fragment_def button_controls two_controls one_control
        init_walk_def simp del: upt_Suc)
qed

section \<open>Reading it back\<close>

lemma report_bits_simps [simp]:
  "report_bits [] = []" "report_bits (b # bs) = byte_bits b @ report_bits bs" "length (byte_bits b) = 8"
  "report_bits (as @ bs) = report_bits as @ report_bits bs" "length (report_bits bs) = 8 * length bs"
  by (simp_all add: report_bits_def byte_bits_def, induction bs) (simp_all add: byte_bits_def)

lemma whole_bytes: "n + padding_bits n = 8 * ((n + 7) div 8)"
proof -
  obtain q m where n: "n = 8 * q + m" "m < 8" by (metis mod_less_divisor mult_div_mod_eq zero_less_numeral)
  show ?thesis
  proof (cases "m = 0")
    case False
    then have "(n + 7) div 8 = Suc q" "n mod 8 = m" using n by (simp_all add: div_nat_eqI)
    then show ?thesis using n False by (simp add: padding_bits_def)
  qed (simp add: n padding_bits_def div_nat_eqI)
qed

lemma layout_length:
  assumes "lowest_bit_first layout"
  shows "length (layout bs) = (length bs + 7) div 8"
proof -
  have "report_bits (layout bs) = bs @ replicate (padding_bits (length bs)) False"
    using assms by (simp add: lowest_bit_first_def)
  then have "length (report_bits (layout bs)) = length bs + padding_bits (length bs)" by simp
  then have "8 * length (layout bs) = length bs + padding_bits (length bs)" by simp
  then show ?thesis by (simp add: whole_bytes)
qed

lemma mouse_report_bits:
  assumes "lowest_bit_first layout"
  shows "report_bits (mouse_get_report layout with_wheel r) =
    mh_buttons r @ replicate (padding_bits (length (mh_buttons r))) False @ byte_bits (mh_x r) @ byte_bits (mh_y r) @
    (if with_wheel then byte_bits (mh_wheel r) else [])"
  using assms layout_length [OF assms, of "mh_buttons r"]
  by (simp add: mouse_get_report_def num_data_bytes_def lowest_bit_first_def)

lemma signed_byte: "field_value (- 127, 127) (byte_bits b) = (if - 127 \<le> sint b then Some (sint b) else None)"
proof -
  have "horner_sum of_bool 2 (byte_bits b) = (horner_sum of_bool 2 (map (bit (uint b)) [0 ..< 8]) :: int)"
    by (simp add: byte_bits_def bit_uint_iff upt_rec)
  also have "\<dots> = take_bit 8 (uint b)" by (rule horner_sum_bit_eq_take_bit)
  also have "\<dots> = uint b" using unsigned_less [of b, where 'a = int] by (simp add: take_bit_int_eq_self)
  finally have "signed_take_bit 7 (horner_sum of_bool 2 (byte_bits b)) = sint b" by (simp add: sint_uint)
  moreover have "sint b \<le> 127" using sint_lt [of b] by simp
  ultimately show ?thesis by (simp add: field_value_def Let_def)
qed

lemma read_buttons:
  "read_fields (map (\<lambda>k. Data (U_button (Suc k)) 1 (0, 1) p) [a ..< a + length bs] @ fs) (bs @ rest) =
   map_option (\<lambda>vs. map (\<lambda>(k, b). (U_button (Suc k), Some (of_bool b))) (zip [a ..< a + length bs] bs) @ vs)
     (read_fields fs rest)"
proof (induction bs arbitrary: a)
  case Nil
  then show ?case by (simp add: option.map_ident)
next
  case (Cons b bs)
  have u: "[a ..< a + length (b # bs)] = a # [Suc a ..< Suc a + length bs]"
    by (simp add: upt_conv_Cons del: upt_Suc)
  have v: "field_value (0, 1) [b] = Some (of_bool b)" by (simp add: field_value_def Let_def)
  show ?case unfolding u using Cons [of "Suc a"]
    by (simp add: v option.map_comp comp_def del: upt_Suc)
qed

lemma read_padding:
  "read_fields (map snd (padding i n) @ fs) (replicate (padding_bits n) False @ rest) = read_fields fs rest"
  by (simp add: padding_def)

lemma read_byte:
  "read_fields (Data u 8 lims p # fs) (byte_bits b @ rest) =
   map_option (\<lambda>vs. (u, field_value lims (byte_bits b)) # vs) (read_fields fs rest)"
  "read_fields [Data u 8 lims p] (byte_bits b) = Some [(u, field_value lims (byte_bits b))]"
  by simp_all

text \<open>What \<open>set_movement\<close> and \<open>set_wheel\<close> put into a report.\<close>

definition clamped :: "int \<Rightarrow> int" where "clamped v = max (- 127) (min v 127)"

lemma sint_clamp_delta: "sint (clamp_delta v) = clamped v"
  by (auto simp: clamp_delta_def clamped_def sint_word_small)

text \<open>C24: The host reads every mouse report back by the descriptor the device gave it: the buttons as they
  are set and movement and wheel clamped to -127 to 127, whatever the number of buttons, the report id and the wheel.\<close>

theorem mouse_report_is_read_back:
  assumes "lowest_bit_first layout" "1 \<le> length (mh_buttons r)"
  shows "\<exists>fs. input_fields pad (mouse_app_report_descriptor i (length (mh_buttons r)) with_wheel) = Some fs \<and>
    (\<forall>f \<in> set fs. fst f = i) \<and>
    read_report fs (mouse_get_report layout with_wheel (set_wheel v (set_movement x y r))) =
      Some (map (\<lambda>(k, b). (U_button (Suc k), Some (of_bool b))) (zip [0 ..< length (mh_buttons r)] (mh_buttons r)) @
        [(U_x, Some (clamped x)), (U_y, Some (clamped y))] @ (if with_wheel then [(U_wheel, Some (clamped v))] else []))"
proof -
  let ?n = "length (mh_buttons r)" and ?r = "set_wheel v (set_movement x y r)"
  have r: "mh_buttons ?r = mh_buttons r" "mh_x ?r = clamp_delta x" "mh_y ?r = clamp_delta y" "mh_wheel ?r = clamp_delta v"
    by (simp_all add: set_wheel_def set_movement_def)
  obtain p where p: "input_fields pad (mouse_app_report_descriptor i ?n with_wheel) =
    Some (map (\<lambda>k. (i, Data (U_button (Suc k)) 1 (0, 1) (0, 0))) [0 ..< ?n] @ padding i ?n @
      [(i, Data U_x 8 (- 127, 127) p), (i, Data U_y 8 (- 127, 127) p)] @
      (if with_wheel then [(i, Data U_wheel 8 (- 127, 127) p)] else []))" (is "_ = Some ?fs")
    using mouse_fields [OF assms(2)] by blast
  have b: "field_value (- 127, 127) (byte_bits (clamp_delta z)) = Some (clamped z)" for z
    using clamp_delta_range [of z] by (simp add: signed_byte sint_clamp_delta)
  have "read_report ?fs (mouse_get_report layout with_wheel ?r) =
      Some (map (\<lambda>(k, b). (U_button (Suc k), Some (of_bool b))) (zip [0 ..< ?n] (mh_buttons r)) @
        [(U_x, Some (clamped x)), (U_y, Some (clamped y))] @ (if with_wheel then [(U_wheel, Some (clamped v))] else []))"
    using read_buttons [of "(0, 0)" 0 "mh_buttons r"]
    by (simp add: read_report_def mouse_report_bits [OF assms(1)] r comp_def read_padding read_byte b
        del: read_fields.simps(2,3))
  moreover have "\<forall>f \<in> set ?fs. fst f = i" by (auto simp: padding_def)
  ultimately show ?thesis using p by blast
qed

text \<open>A button set packed eight to a byte is such a layout.\<close>

fun pack_bits :: "bool list \<Rightarrow> bytes" where
  "pack_bits [] = []"
| "pack_bits (b # bs) = horner_sum of_bool 2 (take 8 (b # bs)) # pack_bits (drop 8 (b # bs))"

lemma byte_bits_pack: "byte_bits (horner_sum of_bool 2 (take 8 bs)) = take 8 bs @ replicate (8 - length bs) False"
  by (rule nth_equalityI) (auto simp: byte_bits_def bit_horner_sum_bit_iff nth_append)

lemma pack_bits_layout: "lowest_bit_first pack_bits"
  unfolding lowest_bit_first_def
proof
  fix bs show "report_bits (pack_bits bs) = bs @ replicate (padding_bits (length bs)) False"
  proof (induction bs rule: pack_bits.induct)
    case (2 b bs)
    show ?case
    proof (cases "length (b # bs) < 8")
      case True
      then have "padding_bits (length (b # bs)) = 8 - length (b # bs)" by (simp add: padding_bits_def)
      with True show ?thesis using byte_bits_pack [of "b # bs"] by simp
    next
      case False
      then have "padding_bits (length (drop 8 (b # bs))) = padding_bits (length (b # bs))"
        by (simp add: padding_bits_def le_mod_geq)
      with False 2 show ?thesis using byte_bits_pack [of "b # bs"] by (simp flip: append_assoc)
    qed
  qed (simp add: padding_bits_def)
qed

theorem mouse_report_is_read_back_witness:
  "\<exists>fs. input_fields (\<lambda>n g. g) (mouse_app_report_descriptor 0 3 True) = Some fs \<and>
    read_report fs (mouse_get_report pack_bits True (set_wheel 1 (set_movement 300 (- 5)
      (snd (set_button 2 True (new_mouse_hid 3)))))) =
      Some [(U_button 1, Some 0), (U_button 2, Some 1), (U_button 3, Some 0), (U_x, Some 127), (U_y, Some (- 5)),
        (U_wheel, Some 1)]"
proof -
  define r where "r = snd (set_button 2 True (new_mouse_hid 3))"
  have b: "mh_buttons r = [False, True, False]"
    by (simp add: r_def set_button_def valid_button_def new_mouse_hid_def numeral_3_eq_3)
  have n: "1 \<le> length (mh_buttons r)" "length (mh_buttons r) = 3" "[0 ..< 3 :: nat] = [0, 1, 2]"
    by (simp_all add: b upt_rec)
  show ?thesis unfolding r_def [symmetric]
    using mouse_report_is_read_back [OF pack_bits_layout n(1), of "\<lambda>n g. g" 0 True 1 300 "- 5", unfolded n(2,3)]
    by (auto simp: clamped_def b numeral_2_eq_2 numeral_3_eq_3)
qed

section \<open>High-resolution scrolling\<close>

text \<open>The panning wheel repeats the limits and the size of the vertical one: the multiplier between them puts
  them back. The feature report is the two multipliers and the padding of one byte.\<close>

lemma scrolling_fields:
  assumes "wk_usages k = []"
  shows "\<exists>k'. walk_items pad (high_resolution_scrolling m mx) k = Some k' \<and>
    wk_input k' = wk_input k @
      map (\<lambda>u. (hg_id (wk_globals k), Data u (if 127 < m then 16 else 8) (- int m, int m) (hg_physical (wk_globals k))))
        [U_wheel, U_ac_pan] \<and>
    wk_feature k' = wk_feature k @
      [(hg_id (wk_globals k), Data U_resolution_multiplier 2 (0, 1) (1, int mx)),
       (hg_id (wk_globals k), Data U_resolution_multiplier 2 (0, 1) (1, int mx)),
       (hg_id (wk_globals k), Constant 4)]"
  using assms
  by (simp add: high_resolution_scrolling_def resolution_multiplier_def resolution_multiplier_bit_size_def Let_def
      one_control padding_def padding_bits_def)

text \<open>The physical value of a control, as the host scales it from the logical one.\<close>

definition physical_value :: "int \<times> int \<Rightarrow> int \<times> int \<Rightarrow> int \<Rightarrow> int" where
  "physical_value lims phys v = fst phys + (v - fst lims) * (snd phys - fst phys) div (snd lims - fst lims)"

lemma multiplier_bits:
  assumes "v \<le> 1" "h \<le> 1"
  shows "vertical_scroll_multiplier mx (word_of_nat (v + 4 * h)) = (if v = 1 then mx else 1)"
    "horizontal_scroll_multiplier mx (word_of_nat (v + 4 * h)) = (if h = 1 then mx else 1)"
    "high_resolution (word_of_nat (v + 4 * h)) \<longleftrightarrow> v = 1 \<or> h = 1"
proof -
  have "v = 0 \<or> v = 1" "h = 0 \<or> h = 1" using assms by auto
  then show "vertical_scroll_multiplier mx (word_of_nat (v + 4 * h)) = (if v = 1 then mx else 1)"
    "horizontal_scroll_multiplier mx (word_of_nat (v + 4 * h)) = (if h = 1 then mx else 1)"
    "high_resolution (word_of_nat (v + 4 * h)) \<longleftrightarrow> v = 1 \<or> h = 1"
    by (auto simp: vertical_scroll_multiplier_def horizontal_scroll_multiplier_def high_resolution_def)
qed

text \<open>What the host sets is what the report answers: the multipliers of a feature report are the physical values
  of its two controls.\<close>

lemma multipliers_are_the_physical_values:
  assumes "v \<le> 1" "h \<le> 1" "1 \<le> unat mx"
    "read_fields [Data u 2 (0, 1) (1, int (unat mx)), Data u 2 (0, 1) (1, int (unat mx)), Constant 4]
       (byte_bits (word_of_nat (v + 4 * h))) = Some vs"
  shows "map (\<lambda>(u, x). physical_value (0, 1) (1, int (unat mx)) (the x)) vs =
    map uint [vertical_scroll_multiplier mx (word_of_nat (v + 4 * h)),
              horizontal_scroll_multiplier mx (word_of_nat (v + 4 * h))]"
proof -
  have c: "v = 0 \<or> v = 1" "h = 0 \<or> h = 1" using assms by auto
  have b: "byte_bits (word_of_nat (v + 4 * h)) = [v = 1, False, h = 1, False, False, False, False, False]"
  proof -
    have "[0 ..< 8 :: nat] = [0, 1, 2, 3, 4, 5, 6, 7]" by (simp add: upt_rec)
    then show ?thesis using c by (elim disjE) (simp_all add: byte_bits_def bit_simps)
  qed
  have "vs = [(u, Some (int v)), (u, Some (int h))]"
    using assms(4) [unfolded b] c by (auto simp: field_value_def)
  then show ?thesis unfolding multiplier_bits [OF assms(1,2)] using c
    by (auto simp: physical_value_def)
qed

end
