(* ===== verification/Xac_Report.thy ===== *)
theory Xac_Report
  imports Hid_Descriptors
begin

text \<open>
  \<open>components/xac/include/xac.hpp\<close>: the report of the Xbox Adaptive Controller mode, a layer over
  \<open>GamepadInputReport\<close> of the hid-rp library. The library's class is the record \<open>gamepad\<close> of the
  operations the layer calls, on a report \<open>'g\<close>.
\<close>

record ('g, 'h) gamepad =
  gp_reset :: "'g \<Rightarrow> 'g"
  gp_axis :: "nat \<Rightarrow> f32 \<Rightarrow> 'g \<Rightarrow> 'g"
  gp_axis_raw :: "nat \<Rightarrow> u8 \<Rightarrow> 'g \<Rightarrow> 'g"
  gp_left_trigger :: "f32 \<Rightarrow> 'g \<Rightarrow> 'g"
  gp_right_trigger :: "f32 \<Rightarrow> 'g \<Rightarrow> 'g"
  gp_button :: "int \<Rightarrow> bool \<Rightarrow> 'g \<Rightarrow> 'g"
  gp_hat :: "'h \<Rightarrow> 'g \<Rightarrow> 'g"
  gp_hat_directions :: "bool \<Rightarrow> bool \<Rightarrow> bool \<Rightarrow> bool \<Rightarrow> 'g \<Rightarrow> 'g"
  gp_data :: "'g \<Rightarrow> bytes"
  gp_num_data_bytes :: nat
  gp_descriptor :: "hid_item list"

section \<open>The report\<close>

definition xac_reset :: "('g, 'h) gamepad \<Rightarrow> 'g \<Rightarrow> 'g" where
  "xac_reset G g = gp_right_trigger G f_0 (gp_left_trigger G f_0 (gp_reset G g))"

text \<open>The constructor, on a default-constructed base.\<close>

definition new_xac :: "('g, 'h) gamepad \<Rightarrow> 'g \<Rightarrow> 'g" where
  "new_xac G g = xac_reset G g"

definition xac_set_joystick :: "('g, 'h) gamepad \<Rightarrow> f32 \<Rightarrow> f32 \<Rightarrow> 'g \<Rightarrow> 'g" where
  "xac_set_joystick G x y g =
     (let cx = fclamp x f_minus_1 f_1; cy = fclamp y f_minus_1 f_1 in
      gp_axis G 3 cy (gp_axis G 2 cx (gp_axis G 1 cy (gp_axis G 0 cx g))))"

definition xac_set_joystick_raw :: "('g, 'h) gamepad \<Rightarrow> u8 \<Rightarrow> u8 \<Rightarrow> 'g \<Rightarrow> 'g" where
  "xac_set_joystick_raw G x y g = gp_axis_raw G 1 y (gp_axis_raw G 0 x g)"

definition xac_set_x :: "('g, 'h) gamepad \<Rightarrow> f32 \<Rightarrow> 'g \<Rightarrow> 'g" where
  "xac_set_x G x g = gp_axis G 0 (fclamp x f_minus_1 f_1) g"

definition xac_set_y :: "('g, 'h) gamepad \<Rightarrow> f32 \<Rightarrow> 'g \<Rightarrow> 'g" where
  "xac_set_y G y g = gp_axis G 1 (fclamp y f_minus_1 f_1) g"

definition xac_set_x_raw :: "('g, 'h) gamepad \<Rightarrow> u8 \<Rightarrow> 'g \<Rightarrow> 'g" where
  "xac_set_x_raw G x g = gp_axis_raw G 2 x g"

definition xac_set_y_raw :: "('g, 'h) gamepad \<Rightarrow> u8 \<Rightarrow> 'g \<Rightarrow> 'g" where
  "xac_set_y_raw G y g = gp_axis_raw G 3 y g"

definition xac_set_button :: "('g, 'h) gamepad \<Rightarrow> int \<Rightarrow> bool \<Rightarrow> 'g \<Rightarrow> 'g" where
  "xac_set_button G i pressed g = gp_button G i pressed g"

definition xac_set_hat :: "('g, 'h) gamepad \<Rightarrow> 'h \<Rightarrow> 'g \<Rightarrow> 'g" where
  "xac_set_hat G hat g = gp_hat G hat g"

definition xac_set_hat_directions :: "('g, 'h) gamepad \<Rightarrow> bool \<Rightarrow> bool \<Rightarrow> bool \<Rightarrow> bool \<Rightarrow> 'g \<Rightarrow> 'g" where
  "xac_set_hat_directions G up down left right g = gp_hat_directions G up down left right g"

definition xac_get_report :: "('g, 'h) gamepad \<Rightarrow> 'g \<Rightarrow> bytes" where
  "xac_get_report G g = take (gp_num_data_bytes G) (drop 1 (gp_data G g))"

definition xac_get_descriptor :: "('g, 'h) gamepad \<Rightarrow> hid_item list" where
  "xac_get_descriptor G =
     [Usage_page Generic_desktop, Usage U_gamepad, Collection Coll_application (gp_descriptor G)]"

section \<open>Lemmas\<close>

text \<open>The calls of \<open>set_joystick\<close> are those of the list \<open>Hid_Reports.set_joystick\<close>.\<close>

lemma xac_joystick_calls: "xac_set_joystick G x y g = fold (\<lambda>(i, v). gp_axis G i v) (set_joystick x y) g"
  by (simp add: xac_set_joystick_def set_joystick_def clamp_axis_def Let_def)

text \<open>Whatever the stick, each axis is handed a number from -1 to 1, unless the position is not a number.\<close>

lemma axes_handed_over:
  assumes "\<not> fnan x" "\<not> fnan y" "(i, v) \<in> set (set_joystick x y)"
  shows "fle f_minus_1 v \<and> fle v f_1"
  using assms clamp_axis_unit by (auto simp: set_joystick_def Let_def)

text \<open>How the library keeps its axes: \<open>ax g i\<close> is axis \<open>i\<close> of a report, \<open>conv\<close> the conversion of a position.\<close>

definition separate_axes :: "('g, 'h) gamepad \<Rightarrow> ('g \<Rightarrow> nat \<Rightarrow> u8) \<Rightarrow> (f32 \<Rightarrow> u8) \<Rightarrow> bool" where
  "separate_axes G ax conv \<longleftrightarrow>
     (\<forall>i v g. ax (gp_axis G i v g) = (ax g)(i := conv v)) \<and>
     (\<forall>i b g. ax (gp_axis_raw G i b g) = (ax g)(i := b))"

text \<open>Both joysticks of the report follow the stick.\<close>

lemma right_joystick_follows:
  assumes "separate_axes G ax conv"
  shows "ax (xac_set_joystick G x y g) 2 = ax (xac_set_joystick G x y g) 0"
    "ax (xac_set_joystick G x y g) 3 = ax (xac_set_joystick G x y g) 1"
  using assms by (simp_all add: separate_axes_def xac_set_joystick_def Let_def)

text \<open>The two versions of \<open>set_x\<close> and \<open>set_y\<close> move different axes.\<close>

lemma raw_setters_move_other_axes:
  assumes "separate_axes G ax conv"
  shows "ax (xac_set_x_raw G b g) = (ax g)(2 := b)" "ax (xac_set_x G v g) = (ax g)(0 := conv (clamp_axis v))"
    "ax (xac_set_y_raw G b g) = (ax g)(3 := b)" "ax (xac_set_y G v g) = (ax g)(1 := conv (clamp_axis v))"
  using assms
  by (simp_all add: separate_axes_def xac_set_x_raw_def xac_set_x_def xac_set_y_raw_def xac_set_y_def clamp_axis_def)

text \<open>The application collection adds no field: the report is the one the base describes.\<close>

lemma xac_fields: "input_fields pad (xac_get_descriptor G) = input_fields pad (gp_descriptor G)"
  by (simp add: input_fields_def xac_get_descriptor_def init_walk_def option.case_eq_if)

lemma xac_report_length:
  "length (gp_data G g) = gp_num_data_bytes G + 1 \<Longrightarrow> length (xac_get_report G g) = gp_num_data_bytes G"
  by (simp add: xac_get_report_def)

end
