(* ===== verification/Sensor_Driver.thy ===== *)
theory Sensor_Driver
  imports Calibration_Facts
begin

text \<open>
  The TMAG5273 driver (\<open>tmag5273.hpp\<close>): configuration fields read, modified and written back over
  a register bus, the seven-byte burst of a measurement, and the conversion to millitesla. The
  bus is \<open>espp::BasePeripheral\<close>: a record of two operations on a world \<open>'w\<close>, a read of \<open>n\<close>
  bytes that fails or returns them and a write of one byte that reports success.
\<close>

section \<open>Registers\<close>

definition DEVICE_CONFIG_1 :: u8 where "DEVICE_CONFIG_1 = 0x00"
definition DEVICE_CONFIG_2 :: u8 where "DEVICE_CONFIG_2 = 0x01"
definition SENSOR_CONFIG_1 :: u8 where "SENSOR_CONFIG_1 = 0x02"
definition SENSOR_CONFIG_2 :: u8 where "SENSOR_CONFIG_2 = 0x03"
definition DEVICE_ID :: u8 where "DEVICE_ID = 0x0D"
definition MANUFACTURER_ID_LSB :: u8 where "MANUFACTURER_ID_LSB = 0x0E"
definition T_MSB_RESULT :: u8 where "T_MSB_RESULT = 0x10"
definition X_MSB_RESULT :: u8 where "X_MSB_RESULT = 0x12"
definition Y_MSB_RESULT :: u8 where "Y_MSB_RESULT = 0x14"
definition Z_MSB_RESULT :: u8 where "Z_MSB_RESULT = 0x16"
definition CONV_STATUS :: u8 where "CONV_STATUS = 0x18"
definition ANGLE_RESULT_MSB :: u8 where "ANGLE_RESULT_MSB = 0x19"
definition MAGNITUDE_RESULT :: u8 where "MAGNITUDE_RESULT = 0x1B"
definition STATUS_RESULT_READY :: u8 where "STATUS_RESULT_READY = 0x01"

lemmas register_defs = DEVICE_CONFIG_1_def DEVICE_CONFIG_2_def SENSOR_CONFIG_1_def
  SENSOR_CONFIG_2_def DEVICE_ID_def MANUFACTURER_ID_LSB_def T_MSB_RESULT_def X_MSB_RESULT_def
  Y_MSB_RESULT_def Z_MSB_RESULT_def CONV_STATUS_def ANGLE_RESULT_MSB_def MAGNITUDE_RESULT_def

datatype operating_mode = STANDBY | SLEEP | CONTINUOUS | WAKE_SLEEP

datatype magnetic_channels =
    CH_OFF | CH_X | CH_Y | CH_XY | CH_Z | CH_ZX | CH_YZ | CH_XYZ | CH_XYX | CH_YXY | CH_YZY | CH_XZX

datatype magnetic_range = LOW | HIGH

datatype variant = V_AUTO | V_A1 | V_A2

datatype angle_conversion = ANGLE_OFF | ANGLE_XY | ANGLE_YZ | ANGLE_XZ

datatype conversion_average = AVG_1 | AVG_2 | AVG_4 | AVG_8 | AVG_16 | AVG_32

fun mode_code :: "operating_mode \<Rightarrow> u8" where
  "mode_code STANDBY = 0" | "mode_code SLEEP = 1" | "mode_code CONTINUOUS = 2"
| "mode_code WAKE_SLEEP = 3"

fun channels_code :: "magnetic_channels \<Rightarrow> u8" where
  "channels_code CH_OFF = 0" | "channels_code CH_X = 1" | "channels_code CH_Y = 2"
| "channels_code CH_XY = 3" | "channels_code CH_Z = 4" | "channels_code CH_ZX = 5"
| "channels_code CH_YZ = 6" | "channels_code CH_XYZ = 7" | "channels_code CH_XYX = 8"
| "channels_code CH_YXY = 9" | "channels_code CH_YZY = 10" | "channels_code CH_XZX = 11"

fun range_code :: "magnetic_range \<Rightarrow> u8" where
  "range_code LOW = 0" | "range_code HIGH = 1"

fun angle_code :: "angle_conversion \<Rightarrow> u8" where
  "angle_code ANGLE_OFF = 0" | "angle_code ANGLE_XY = 1" | "angle_code ANGLE_YZ = 2"
| "angle_code ANGLE_XZ = 3"

fun average_code :: "conversion_average \<Rightarrow> u8" where
  "average_code AVG_1 = 0" | "average_code AVG_2 = 1" | "average_code AVG_4 = 2"
| "average_code AVG_8 = 3" | "average_code AVG_16 = 4" | "average_code AVG_32 = 5"

section \<open>Bus and driver state\<close>

record 'w bus =
  bus_read :: "u8 \<Rightarrow> nat \<Rightarrow> 'w \<Rightarrow> bytes option \<times> 'w"
  bus_write :: "u8 \<Rightarrow> u8 \<Rightarrow> 'w \<Rightarrow> bool \<times> 'w"

record tmag =
  t_channels :: magnetic_channels
  t_xy_range :: magnetic_range
  t_z_range :: magnetic_range
  t_variant :: variant
  t_detect :: bool
  t_mode :: operating_mode
  t_average :: conversion_average
  t_low_noise :: bool
  t_angle :: angle_conversion

text \<open>The constructor's initialisation of the state from \<open>Config\<close>.\<close>

definition tmag_of_config ::
  "magnetic_channels \<Rightarrow> magnetic_range \<Rightarrow> magnetic_range \<Rightarrow> variant \<Rightarrow> operating_mode
     \<Rightarrow> conversion_average \<Rightarrow> bool \<Rightarrow> tmag" where
  "tmag_of_config ch xy z v m a quiet =
     \<lparr>t_channels = ch, t_xy_range = xy, t_z_range = z,
      t_variant = (if v = V_A1 then V_A1 else V_A2), t_detect = (v = V_AUTO),
      t_mode = m, t_average = a, t_low_noise = quiet, t_angle = ANGLE_OFF\<rparr>"

definition read_u8 :: "'w bus \<Rightarrow> u8 \<Rightarrow> 'w \<Rightarrow> u8 option \<times> 'w" where
  "read_u8 B r w = (case bus_read B r 1 w of (d, w') \<Rightarrow> (map_option hd d, w'))"

text \<open>The shape every setter shares: read the register, change the field, write it back, and
  remember the setting only when the write succeeded.\<close>

definition set_field ::
  "'w bus \<Rightarrow> u8 \<Rightarrow> (u8 \<Rightarrow> u8) \<Rightarrow> (tmag \<Rightarrow> tmag) \<Rightarrow> tmag \<Rightarrow> 'w \<Rightarrow> bool \<times> tmag \<times> 'w" where
  "set_field B r f upd t w =
     (case read_u8 B r w of
        (None, w1) \<Rightarrow> (False, t, w1)
      | (Some v, w1) \<Rightarrow>
          (case bus_write B r (f v) w1 of (ok, w2) \<Rightarrow> (ok, if ok then upd t else t, w2)))"

section \<open>Configuration fields\<close>

definition mode_bits :: "operating_mode \<Rightarrow> u8 \<Rightarrow> u8" where
  "mode_bits m reg = (reg AND 0xFC) OR (mode_code m AND 0x03)"

definition channel_bits :: "magnetic_channels \<Rightarrow> u8 \<Rightarrow> u8" where
  "channel_bits c reg = (reg AND 0x0F) OR push_bit 4 (channels_code c AND 0x0F)"

definition xy_range_bits :: "magnetic_range \<Rightarrow> u8 \<Rightarrow> u8" where
  "xy_range_bits r reg = (reg AND NOT (push_bit 1 1)) OR push_bit 1 (range_code r AND 0x01)"

definition z_range_bits :: "magnetic_range \<Rightarrow> u8 \<Rightarrow> u8" where
  "z_range_bits r reg = (reg AND NOT 1) OR (range_code r AND 0x01)"

definition average_bits :: "conversion_average \<Rightarrow> u8 \<Rightarrow> u8" where
  "average_bits a reg = (reg AND NOT (push_bit 4 0x07)) OR push_bit 4 (average_code a AND 0x07)"

definition low_noise_bits :: "bool \<Rightarrow> u8 \<Rightarrow> u8" where
  "low_noise_bits on reg = (if on then reg OR push_bit 4 1 else reg AND NOT (push_bit 4 1))"

definition angle_bits :: "angle_conversion \<Rightarrow> u8 \<Rightarrow> u8" where
  "angle_bits a reg = (reg AND NOT (push_bit 2 0x03)) OR push_bit 2 (angle_code a AND 0x03)"

definition set_operating_mode :: "'w bus \<Rightarrow> operating_mode \<Rightarrow> tmag \<Rightarrow> 'w \<Rightarrow> bool \<times> tmag \<times> 'w" where
  "set_operating_mode B m = set_field B DEVICE_CONFIG_2 (mode_bits m) (\<lambda>t. t\<lparr>t_mode := m\<rparr>)"

definition set_magnetic_channels ::
  "'w bus \<Rightarrow> magnetic_channels \<Rightarrow> tmag \<Rightarrow> 'w \<Rightarrow> bool \<times> tmag \<times> 'w" where
  "set_magnetic_channels B c =
     set_field B SENSOR_CONFIG_1 (channel_bits c) (\<lambda>t. t\<lparr>t_channels := c\<rparr>)"

definition set_xy_range :: "'w bus \<Rightarrow> magnetic_range \<Rightarrow> tmag \<Rightarrow> 'w \<Rightarrow> bool \<times> tmag \<times> 'w" where
  "set_xy_range B r = set_field B SENSOR_CONFIG_2 (xy_range_bits r) (\<lambda>t. t\<lparr>t_xy_range := r\<rparr>)"

definition set_z_range :: "'w bus \<Rightarrow> magnetic_range \<Rightarrow> tmag \<Rightarrow> 'w \<Rightarrow> bool \<times> tmag \<times> 'w" where
  "set_z_range B r = set_field B SENSOR_CONFIG_2 (z_range_bits r) (\<lambda>t. t\<lparr>t_z_range := r\<rparr>)"

definition set_conversion_average ::
  "'w bus \<Rightarrow> conversion_average \<Rightarrow> tmag \<Rightarrow> 'w \<Rightarrow> bool \<times> tmag \<times> 'w" where
  "set_conversion_average B a =
     set_field B DEVICE_CONFIG_1 (average_bits a) (\<lambda>t. t\<lparr>t_average := a\<rparr>)"

definition set_low_noise :: "'w bus \<Rightarrow> bool \<Rightarrow> tmag \<Rightarrow> 'w \<Rightarrow> bool \<times> tmag \<times> 'w" where
  "set_low_noise B on = set_field B DEVICE_CONFIG_2 (low_noise_bits on) (\<lambda>t. t\<lparr>t_low_noise := on\<rparr>)"

definition set_angle_conversion ::
  "'w bus \<Rightarrow> angle_conversion \<Rightarrow> tmag \<Rightarrow> 'w \<Rightarrow> bool \<times> tmag \<times> 'w" where
  "set_angle_conversion B a =
     set_field B SENSOR_CONFIG_2 (angle_bits a) (\<lambda>t. t\<lparr>t_angle := a\<rparr>)"

definition trigger_conversion :: "'w bus \<Rightarrow> tmag \<Rightarrow> 'w \<Rightarrow> bool \<times> tmag \<times> 'w" where
  "trigger_conversion B =
     set_field B DEVICE_CONFIG_1 (\<lambda>reg. (reg AND 0xFC) OR mode_code STANDBY) (\<lambda>t. t)"

text \<open>The getters; a failed read gives the value the code returns next to the error. Codes no
  enumerator names stay codes.\<close>

definition get_field :: "'w bus \<Rightarrow> u8 \<Rightarrow> (u8 \<Rightarrow> 'a) \<Rightarrow> 'a \<Rightarrow> 'w \<Rightarrow> bool \<times> 'a \<times> 'w" where
  "get_field B r f dflt w =
     (case read_u8 B r w of (None, w1) \<Rightarrow> (False, dflt, w1) | (Some v, w1) \<Rightarrow> (True, f v, w1))"

definition operating_mode_of :: "'w bus \<Rightarrow> 'w \<Rightarrow> bool \<times> u8 \<times> 'w" where
  "operating_mode_of B = get_field B DEVICE_CONFIG_2 (\<lambda>v. v AND 0x03) (mode_code STANDBY)"

definition magnetic_channels_of :: "'w bus \<Rightarrow> 'w \<Rightarrow> bool \<times> u8 \<times> 'w" where
  "magnetic_channels_of B =
     get_field B SENSOR_CONFIG_1 (\<lambda>v. drop_bit 4 v AND 0x0F) (channels_code CH_OFF)"

definition xy_range_of :: "'w bus \<Rightarrow> 'w \<Rightarrow> bool \<times> u8 \<times> 'w" where
  "xy_range_of B = get_field B SENSOR_CONFIG_2 (\<lambda>v. drop_bit 1 v AND 0x01) (range_code HIGH)"

definition z_range_of :: "'w bus \<Rightarrow> 'w \<Rightarrow> bool \<times> u8 \<times> 'w" where
  "z_range_of B = get_field B SENSOR_CONFIG_2 (\<lambda>v. v AND 0x01) (range_code HIGH)"

definition conversion_average_of :: "'w bus \<Rightarrow> 'w \<Rightarrow> bool \<times> u8 \<times> 'w" where
  "conversion_average_of B =
     get_field B DEVICE_CONFIG_1 (\<lambda>v. drop_bit 4 v AND 0x07) (average_code AVG_1)"

definition low_noise_of :: "'w bus \<Rightarrow> 'w \<Rightarrow> bool \<times> bool \<times> 'w" where
  "low_noise_of B = get_field B DEVICE_CONFIG_2 (\<lambda>v. v AND push_bit 4 1 \<noteq> 0) False"

definition angle_conversion_of :: "'w bus \<Rightarrow> 'w \<Rightarrow> bool \<times> u8 \<times> 'w" where
  "angle_conversion_of B =
     get_field B SENSOR_CONFIG_2 (\<lambda>v. drop_bit 2 v AND 0x03) (angle_code ANGLE_OFF)"

definition conversion_ready :: "'w bus \<Rightarrow> 'w \<Rightarrow> bool \<times> bool \<times> 'w" where
  "conversion_ready B = get_field B CONV_STATUS (\<lambda>v. v AND STATUS_RESULT_READY \<noteq> 0) False"

definition manufacturer_id :: "'w bus \<Rightarrow> 'w \<Rightarrow> bool \<times> u16 \<times> 'w" where
  "manufacturer_id B w =
     (case bus_read B MANUFACTURER_ID_LSB 2 w of
        (None, w1) \<Rightarrow> (False, 0, w1)
      | (Some d, w1) \<Rightarrow> (True, push_bit 8 (ucast (d ! 1)) OR ucast (d ! 0), w1))"

section \<open>Initialisation\<close>

definition is_connected :: "'w bus \<Rightarrow> 'w \<Rightarrow> bool \<times> 'w" where
  "is_connected B w =
     (case read_u8 B DEVICE_ID w of
        (None, w1) \<Rightarrow> (False, w1) | (Some i, w1) \<Rightarrow> (i \<noteq> 0x00 \<and> i \<noteq> 0xFF, w1))"

definition detect_variant :: "'w bus \<Rightarrow> tmag \<Rightarrow> 'w \<Rightarrow> tmag \<times> 'w" where
  "detect_variant B t w =
     (case read_u8 B DEVICE_ID w of
        (None, w1) \<Rightarrow> (t, w1)
      | (Some i, w1) \<Rightarrow>
          let version = i AND 0x03 in
          (if version = 0x01 then t\<lparr>t_variant := V_A1\<rparr>
           else if version = 0x02 then t\<lparr>t_variant := V_A2\<rparr> else t, w1))"

text \<open>A chain of setters that stops at the first failure.\<close>

fun set_all :: "(tmag \<Rightarrow> 'w \<Rightarrow> bool \<times> tmag \<times> 'w) list \<Rightarrow> tmag \<Rightarrow> 'w \<Rightarrow> bool \<times> tmag \<times> 'w" where
  "set_all [] t w = (True, t, w)"
| "set_all (f # fs) t w =
     (case f t w of (ok, t1, w1) \<Rightarrow> if ok then set_all fs t1 w1 else (False, t1, w1))"

definition initialize :: "'w bus \<Rightarrow> tmag \<Rightarrow> 'w \<Rightarrow> bool \<times> tmag \<times> 'w" where
  "initialize B t w =
     (case is_connected B w of (c, w1) \<Rightarrow>
        if \<not> c then (False, t, w1)
        else
          (case (if t_detect t then detect_variant B t w1 else (t, w1)) of (t1, w2) \<Rightarrow>
             set_all
               [set_magnetic_channels B (t_channels t), set_xy_range B (t_xy_range t),
                set_z_range B (t_z_range t), set_conversion_average B (t_average t),
                set_low_noise B (t_low_noise t), set_operating_mode B (t_mode t)] t1 w2))"

section \<open>Measurements\<close>

text \<open>\<open>static_cast<int16_t>((hi << 8) | lo)\<close>.\<close>

definition int16_of :: "u8 \<Rightarrow> u8 \<Rightarrow> int" where
  "int16_of hi lo = sint (push_bit 8 (ucast hi) OR ucast lo :: u16)"

definition full_scale_mT :: "variant \<Rightarrow> magnetic_range \<Rightarrow> f32" where
  "full_scale_mT v r =
     (if v = V_A1 then (if r = LOW then 0x42200000 else 0x42A00000)
      else (if r = LOW then 0x43050000 else 0x43850000))"

definition f_32768 :: f32 where "f_32768 = 0x47000000"

definition convert_raw_to_mT :: "tmag \<Rightarrow> int \<Rightarrow> magnetic_range \<Rightarrow> f32" where
  "convert_raw_to_mT t raw r = fmul (fdiv (f32_of_int raw) f_32768) (full_scale_mT (t_variant t) r)"

record raw_data =
  r_x :: int
  r_y :: int
  r_z :: int
  r_count :: u8

definition read_raw :: "'w bus \<Rightarrow> 'w \<Rightarrow> raw_data option \<times> 'w" where
  "read_raw B w =
     (case bus_read B X_MSB_RESULT 7 w of
        (None, w1) \<Rightarrow> (None, w1)
      | (Some d, w1) \<Rightarrow>
          (Some \<lparr>r_x = int16_of (d ! 0) (d ! 1), r_y = int16_of (d ! 2) (d ! 3),
                 r_z = int16_of (d ! 4) (d ! 5), r_count = drop_bit 5 (d ! 6) AND 0x07\<rparr>, w1))"

record magnetic_data =
  mag_x :: f32
  mag_y :: f32
  mag_z :: f32
  mag_count :: u8

text \<open>\<open>None\<close> stands for an error next to a default-constructed result.\<close>

definition read_magnetic :: "'w bus \<Rightarrow> tmag \<Rightarrow> 'w \<Rightarrow> magnetic_data option \<times> 'w" where
  "read_magnetic B t w =
     (case read_raw B w of (d, w1) \<Rightarrow>
        (map_option (\<lambda>r. \<lparr>mag_x = convert_raw_to_mT t (r_x r) (t_xy_range t),
                          mag_y = convert_raw_to_mT t (r_y r) (t_xy_range t),
                          mag_z = convert_raw_to_mT t (r_z r) (t_z_range t),
                          mag_count = r_count r\<rparr>) d, w1))"

definition read_axis :: "'w bus \<Rightarrow> u8 \<Rightarrow> (int \<Rightarrow> f32) \<Rightarrow> 'w \<Rightarrow> f32 option \<times> 'w" where
  "read_axis B r f w =
     (case bus_read B r 2 w of (d, w1) \<Rightarrow> (map_option (\<lambda>d. f (int16_of (d ! 0) (d ! 1))) d, w1))"

definition read_x :: "'w bus \<Rightarrow> tmag \<Rightarrow> 'w \<Rightarrow> f32 option \<times> 'w" where
  "read_x B t = read_axis B X_MSB_RESULT (\<lambda>v. convert_raw_to_mT t v (t_xy_range t))"

definition read_y :: "'w bus \<Rightarrow> tmag \<Rightarrow> 'w \<Rightarrow> f32 option \<times> 'w" where
  "read_y B t = read_axis B Y_MSB_RESULT (\<lambda>v. convert_raw_to_mT t v (t_xy_range t))"

definition read_z :: "'w bus \<Rightarrow> tmag \<Rightarrow> 'w \<Rightarrow> f32 option \<times> 'w" where
  "read_z B t = read_axis B Z_MSB_RESULT (\<lambda>v. convert_raw_to_mT t v (t_z_range t))"

definition read_temperature :: "'w bus \<Rightarrow> 'w \<Rightarrow> f32 option \<times> 'w" where
  "read_temperature B =
     read_axis B T_MSB_RESULT (\<lambda>v. fadd (fdiv (f32_of_int v) 0x43000000) 0x41C80000)"

definition read_angle :: "'w bus \<Rightarrow> 'w \<Rightarrow> f32 option \<times> 'w" where
  "read_angle B = read_axis B ANGLE_RESULT_MSB (\<lambda>v. fdiv (f32_of_int v) 0x41800000)"

definition read_magnitude :: "'w bus \<Rightarrow> 'w \<Rightarrow> u8 option \<times> 'w" where
  "read_magnitude B = read_u8 B MAGNITUDE_RESULT"

end
