(* ===== verification/Sensor_Facts.thy ===== *)
theory Sensor_Facts
  imports Sensor_Driver Monitors
begin

text \<open>
  The register contract a bus offers the driver, as a locale; what each setter does to the
  register file under it; and the range of a converted measurement. The fake bus of the
  simulator (\<open>sim/src/sensor.cpp\<close>) is modelled here and interprets the contract.
\<close>

section \<open>Fields of a byte\<close>

lemma u8_exhaust_bits:
  "(\<And>n. n < 8 \<Longrightarrow> bit (a :: u8) n = bit b n) \<Longrightarrow> a = b"
  by (rule bit_word_eqI) simp

lemma less_8: "n < 8 \<longleftrightarrow> n = 0 \<or> n = 1 \<or> n = 2 \<or> n = 3 \<or> n = 4 \<or> n = 5 \<or> n = 6 \<or> n = (7 :: nat)"
  by auto

lemma mode_bits_field:
  "mode_bits m v AND 0x03 = mode_code m" "mode_bits m v AND 0xFC = v AND 0xFC"
  by (cases m; rule u8_exhaust_bits; auto simp: mode_bits_def less_8 bit_simps)+

lemma channel_bits_field:
  "drop_bit 4 (channel_bits c v) AND 0x0F = channels_code c" "channel_bits c v AND 0x0F = v AND 0x0F"
  by (cases c; rule u8_exhaust_bits; auto simp: channel_bits_def less_8 bit_simps)+

lemma xy_range_bits_field:
  "drop_bit 1 (xy_range_bits r v) AND 0x01 = range_code r"
  "xy_range_bits r v AND 0xFD = v AND 0xFD"
  by (cases r; rule u8_exhaust_bits; auto simp: xy_range_bits_def less_8 bit_simps)+

lemma z_range_bits_field:
  "z_range_bits r v AND 0x01 = range_code r" "z_range_bits r v AND 0xFE = v AND 0xFE"
  "drop_bit 1 (z_range_bits r v) AND 0x01 = drop_bit 1 v AND 0x01"
  by (cases r; rule u8_exhaust_bits; auto simp: z_range_bits_def less_8 bit_simps)+

lemma average_bits_field:
  "drop_bit 4 (average_bits a v) AND 0x07 = average_code a" "average_bits a v AND 0x8F = v AND 0x8F"
  by (cases a; rule u8_exhaust_bits; auto simp: average_bits_def less_8 bit_simps)+

lemma low_noise_bits_field:
  "low_noise_bits on v AND 0xEF = v AND 0xEF" "(low_noise_bits on v AND push_bit 4 1 \<noteq> 0) = on"
proof -
  show "low_noise_bits on v AND 0xEF = v AND 0xEF"
    by (rule u8_exhaust_bits) (auto simp: low_noise_bits_def less_8 bit_simps)
  have b: "bit (low_noise_bits on v) 4 = on" by (auto simp: low_noise_bits_def bit_simps)
  have "low_noise_bits on v AND push_bit 4 1 = (if on then push_bit 4 1 else 0)"
    by (rule u8_exhaust_bits) (use b in \<open>auto simp: less_8 bit_simps\<close>)
  then show "(low_noise_bits on v AND push_bit 4 1 \<noteq> 0) = on" by simp
qed

lemma mode_keeps_low_noise:
  "(mode_bits m v AND push_bit 4 1 \<noteq> 0) = (v AND push_bit 4 1 \<noteq> 0)"
proof -
  have "mode_bits m v AND push_bit 4 1 = v AND push_bit 4 1"
    by (rule u8_exhaust_bits) (auto simp: mode_bits_def less_8 bit_simps)
  then show ?thesis by simp
qed

lemma angle_bits_field:
  "drop_bit 2 (angle_bits a v) AND 0x03 = angle_code a" "angle_bits a v AND 0xF3 = v AND 0xF3"
  by (cases a; rule u8_exhaust_bits; auto simp: angle_bits_def less_8 bit_simps)+

section \<open>The register contract\<close>

locale register_bus =
  fixes B :: "'w bus" and regs :: "'w \<Rightarrow> u8 \<Rightarrow> u8" and wf :: "'w \<Rightarrow> bool"
  assumes read_config: "wf w \<Longrightarrow> a < 0x10 \<Longrightarrow> bus_read B a 1 w = (d, w') \<Longrightarrow>
      wf w' \<and> regs w' = regs w \<and> (d = None \<or> d = Some [regs w a])"
    and write_config: "wf w \<Longrightarrow> bus_write B a v w = (ok, w') \<Longrightarrow>
      wf w' \<and> regs w' = (if ok then (regs w)(a := v) else regs w)"
begin

lemma read_u8_config:
  assumes "wf w" "a < 0x10" "read_u8 B a w = (d, w')"
  shows "wf w' \<and> regs w' = regs w \<and> (d = None \<or> d = Some (regs w a))"
proof -
  obtain d0 w0 where r: "bus_read B a 1 w = (d0, w0)" by fastforce
  with assms(3) have e: "d = map_option hd d0" "w' = w0" by (simp_all add: read_u8_def)
  from read_config [OF assms(1,2) r] show ?thesis unfolding e by auto
qed

lemma set_field_effect:
  assumes "wf w" "a < 0x10" "set_field B a f upd t w = (ok, t', w')"
  shows "wf w' \<and> regs w' = (if ok then (regs w)(a := f (regs w a)) else regs w) \<and>
    t' = (if ok then upd t else t)"
proof -
  obtain d w1 where r: "read_u8 B a w = (d, w1)" by fastforce
  note r' = read_u8_config [OF assms(1,2) r]
  show ?thesis
  proof (cases d)
    case None
    with assms(3) r r' show ?thesis by (simp add: set_field_def)
  next
    case (Some v)
    obtain ok2 w2 where wr: "bus_write B a (f v) w1 = (ok2, w2)" by fastforce
    have "wf w1" using r' by blast
    from write_config [OF this wr] r' Some assms(3) r wr show ?thesis
      by (auto simp: set_field_def)
  qed
qed

lemma get_field_effect:
  assumes "wf w" "a < 0x10" "get_field B a f dflt w = (ok, x, w')"
  shows "wf w' \<and> regs w' = regs w \<and> (ok \<longrightarrow> x = f (regs w a)) \<and> (\<not> ok \<longrightarrow> x = dflt)"
proof -
  obtain d w1 where r: "read_u8 B a w = (d, w1)" by fastforce
  from read_u8_config [OF assms(1,2) r] r assms(3) show ?thesis
    by (auto simp: get_field_def split: option.splits)
qed

lemma set_all_step:
  assumes "set_all (f # fs) t w = (True, t', w')"
  obtains t1 w1 where "f t w = (True, t1, w1)" "set_all fs t1 w1 = (True, t', w')"
  using assms by (auto split: prod.splits if_splits)

text \<open>What a successful \<open>initialize\<close> leaves in the four configuration registers, and nowhere
  else.\<close>

lemma initialize_effect:
  assumes "wf w" "initialize B t w = (True, t', w')"
  shows "wf w' \<and> regs w' = (regs w)
      (SENSOR_CONFIG_1 := channel_bits (t_channels t) (regs w SENSOR_CONFIG_1),
       SENSOR_CONFIG_2 := z_range_bits (t_z_range t)
          (xy_range_bits (t_xy_range t) (regs w SENSOR_CONFIG_2)),
       DEVICE_CONFIG_1 := average_bits (t_average t) (regs w DEVICE_CONFIG_1),
       DEVICE_CONFIG_2 := mode_bits (t_mode t)
          (low_noise_bits (t_low_noise t) (regs w DEVICE_CONFIG_2)))"
proof -
  obtain c w1 where c: "is_connected B w = (c, w1)" by fastforce
  obtain d0 w0 where r0: "read_u8 B DEVICE_ID w = (d0, w0)" by fastforce
  have "w1 = w0" using c r0 by (auto simp: is_connected_def split: option.splits)
  then have 1: "wf w1" "regs w1 = regs w"
    using read_u8_config [OF assms(1) _ r0] by (simp_all add: DEVICE_ID_def)
  obtain t1 w2 where d: "(if t_detect t then detect_variant B t w1 else (t, w1)) = (t1, w2)" by fastforce
  obtain d1 w3 where r1: "read_u8 B DEVICE_ID w1 = (d1, w3)" by fastforce
  have "w2 = w1 \<or> w2 = w3"
    using d r1 by (auto simp: detect_variant_def Let_def split: option.splits if_splits)
  then have 2: "wf w2" "regs w2 = regs w"
    using read_u8_config [OF 1(1) _ r1] 1 by (auto simp: DEVICE_ID_def)
  have "c" using assms(2) c by (auto simp: initialize_def split: if_splits)
  with assms(2) c d have "set_all
      [set_magnetic_channels B (t_channels t), set_xy_range B (t_xy_range t),
       set_z_range B (t_z_range t), set_conversion_average B (t_average t),
       set_low_noise B (t_low_noise t), set_operating_mode B (t_mode t)] t1 w2 = (True, t', w')"
    by (simp add: initialize_def)
  then obtain ta wa tb wb tc wc td wd te we where
    s: "set_magnetic_channels B (t_channels t) t1 w2 = (True, ta, wa)"
      "set_xy_range B (t_xy_range t) ta wa = (True, tb, wb)"
      "set_z_range B (t_z_range t) tb wb = (True, tc, wc)"
      "set_conversion_average B (t_average t) tc wc = (True, td, wd)"
      "set_low_noise B (t_low_noise t) td wd = (True, te, we)"
      "set_operating_mode B (t_mode t) te we = (True, t', w')"
    by (elim set_all_step) (simp split: if_splits prod.splits)
  note s' = s [unfolded set_magnetic_channels_def set_xy_range_def set_z_range_def
      set_conversion_average_def set_low_noise_def set_operating_mode_def]
  have a: "wf wa" "regs wa = (regs w)(SENSOR_CONFIG_1 :=
      channel_bits (t_channels t) (regs w SENSOR_CONFIG_1))"
    using set_field_effect [OF 2(1) _ s'(1)] 2 by (simp_all add: register_defs)
  have b: "wf wb" "regs wb = (regs wa)(SENSOR_CONFIG_2 :=
      xy_range_bits (t_xy_range t) (regs wa SENSOR_CONFIG_2))"
    using set_field_effect [OF a(1) _ s'(2)] by (simp_all add: register_defs)
  have c: "wf wc" "regs wc = (regs wb)(SENSOR_CONFIG_2 :=
      z_range_bits (t_z_range t) (regs wb SENSOR_CONFIG_2))"
    using set_field_effect [OF b(1) _ s'(3)] by (simp_all add: register_defs)
  have d: "wf wd" "regs wd = (regs wc)(DEVICE_CONFIG_1 :=
      average_bits (t_average t) (regs wc DEVICE_CONFIG_1))"
    using set_field_effect [OF c(1) _ s'(4)] by (simp_all add: register_defs)
  have e: "wf we" "regs we = (regs wd)(DEVICE_CONFIG_2 :=
      low_noise_bits (t_low_noise t) (regs wd DEVICE_CONFIG_2))"
    using set_field_effect [OF d(1) _ s'(5)] by (simp_all add: register_defs)
  have f: "wf w'" "regs w' = (regs we)(DEVICE_CONFIG_2 :=
      mode_bits (t_mode t) (regs we DEVICE_CONFIG_2))"
    using set_field_effect [OF e(1) _ s'(6)] by (simp_all add: register_defs)
  show ?thesis
    unfolding f(2) e(2) d(2) c(2) b(2) a(2) using f(1) by (simp add: register_defs fun_eq_iff)
qed

end

section \<open>The simulator's bus\<close>

datatype sim_fault = Ok | NoResponse | StuckCounter | WeakMagnet

definition fault_name :: "sim_fault \<Rightarrow> string" where
  "fault_name f = (case f of NoResponse \<Rightarrow> ''no_response'' | StuckCounter \<Rightarrow> ''stuck_counter''
     | WeakMagnet \<Rightarrow> ''weak_magnet'' | Ok \<Rightarrow> ''ok'')"

definition parse_fault :: "string \<Rightarrow> sim_fault option" where
  "parse_fault s = find (\<lambda>f. s = fault_name f) [Ok, NoResponse, StuckCounter, WeakMagnet]"

text \<open>\<open>FakeTmagBus\<close>. The field model works in \<open>double\<close>; \<open>counts\<close> stands for it: the three field
  components in rounded counts, before they are clamped to 16 bits.\<close>

record 'e fake_bus =
  fb_regs :: bytes
  fb_counter :: u8
  fb_fault :: sim_fault
  fb_env :: 'e

definition init_fake_bus :: "'e \<Rightarrow> 'e fake_bus" where
  "init_fake_bus e = \<lparr>fb_regs = (replicate 256 0)[unat DEVICE_ID := 0x02], fb_counter = 0,
     fb_fault = Ok, fb_env = e\<rparr>"

definition raw_count :: "int \<Rightarrow> u16" where
  "raw_count c = word_of_int (max (- 32768) (min c 32767))"

definition hi8 :: "u16 \<Rightarrow> u8" where "hi8 x = ucast (drop_bit 8 x)"
definition lo8 :: "u16 \<Rightarrow> u8" where "lo8 x = ucast x"

definition fake_convert :: "('e \<Rightarrow> (int \<times> int \<times> int) \<times> 'e) \<Rightarrow> 'e fake_bus \<Rightarrow> 'e fake_bus" where
  "fake_convert counts b =
     (if fb_fault b = StuckCounter then b
      else
        case counts (fb_env b) of ((cx, cy, cz), e) \<Rightarrow>
          let x = raw_count cx; y = raw_count cy; z = raw_count cz;
              n = (fb_counter b + 1) AND 0x07 in
          b\<lparr>fb_regs := (fb_regs b)[0x12 := hi8 x, 0x13 := lo8 x, 0x14 := hi8 y, 0x15 := lo8 y,
                                   0x16 := hi8 z, 0x17 := lo8 z,
                                   0x18 := push_bit 5 n OR STATUS_RESULT_READY],
             fb_counter := n, fb_env := e\<rparr>)"

definition fake_read ::
  "('e \<Rightarrow> (int \<times> int \<times> int) \<times> 'e) \<Rightarrow> u8 \<Rightarrow> nat \<Rightarrow> 'e fake_bus \<Rightarrow> bytes option \<times> 'e fake_bus" where
  "fake_read counts reg n b =
     (if fb_fault b = NoResponse \<or> unat reg + n > length (fb_regs b) then (None, b)
      else
        let b1 = (if reg \<le> X_MSB_RESULT \<and> unat reg + n > unat X_MSB_RESULT
                  then fake_convert counts b else b) in
        (Some (take n (drop (unat reg) (fb_regs b1))), b1))"

fun write_from :: "nat \<Rightarrow> bytes \<Rightarrow> bytes \<Rightarrow> bytes" where
  "write_from r [] regs = regs"
| "write_from r (v # vs) regs =
     write_from (r + 1) vs (if r < length regs then regs[r := v] else regs)"

definition fake_write :: "bytes \<Rightarrow> 'e fake_bus \<Rightarrow> bool \<times> 'e fake_bus" where
  "fake_write d b =
     (if fb_fault b = NoResponse \<or> length d < 2 then (False, b)
      else (True, b\<lparr>fb_regs := write_from (unat (hd d)) (tl d) (fb_regs b)\<rparr>))"

definition fake_tmag_bus :: "('e \<Rightarrow> (int \<times> int \<times> int) \<times> 'e) \<Rightarrow> 'e fake_bus bus" where
  "fake_tmag_bus counts =
     \<lparr>bus_read = fake_read counts, bus_write = (\<lambda>a v. fake_write [a, v])\<rparr>"

definition fake_regs :: "'e fake_bus \<Rightarrow> u8 \<Rightarrow> u8" where
  "fake_regs b a = fb_regs b ! unat a"

definition fake_ok :: "'e fake_bus \<Rightarrow> bool" where
  "fake_ok b \<longleftrightarrow> length (fb_regs b) = 256"

lemma unat_u8_less [simp]: "unat (a :: u8) < 256"
proof -
  have "unat a < 2 ^ LENGTH(8)" by (rule unsigned_less)
  then show ?thesis by simp
qed

interpretation fake: register_bus "fake_tmag_bus counts" fake_regs fake_ok
  for counts :: "'e \<Rightarrow> (int \<times> int \<times> int) \<times> 'e"
proof
  fix w w' :: "'e fake_bus" and a :: u8 and d
  assume w: "fake_ok w" and a: "a < 0x10" and r: "bus_read (fake_tmag_bus counts) a 1 w = (d, w')"
  have "unat a < 16" using a by (simp add: word_less_nat_alt)
  then have "\<not> unat a + 1 > unat X_MSB_RESULT" by (simp add: X_MSB_RESULT_def)
  with r w show "fake_ok w' \<and> fake_regs w' = fake_regs w \<and> (d = None \<or> d = Some [fake_regs w a])"
    by (auto simp: fake_tmag_bus_def fake_read_def fake_ok_def fake_regs_def Let_def
        take_Suc_conv_app_nth take_hd_drop hd_drop_conv_nth [symmetric] take_Suc
        drop_eq_Nil split: if_splits)
next
  fix w w' :: "'e fake_bus" and a v :: u8 and ok
  assume w: "fake_ok w" and r: "bus_write (fake_tmag_bus counts) a v w = (ok, w')"
  have "(fb_regs w)[unat a := v] ! unat b = (if b = a then v else fb_regs w ! unat b)" for b
    using w by (auto simp: fake_ok_def nth_list_update dest: unsigned_word_eqI)
  with w r show "fake_ok w' \<and> fake_regs w' = (if ok then (fake_regs w)(a := v) else fake_regs w)"
    by (auto simp: fake_tmag_bus_def fake_write_def fake_ok_def fake_regs_def fun_eq_iff
        split: if_splits)
qed

section \<open>Measurements\<close>

lemma int16_hi_lo: "int16_of (hi8 x) (lo8 x) = sint x"
proof -
  have "push_bit 8 (ucast (hi8 x)) OR ucast (lo8 x) = x"
    by (rule bit_word_eqI) (auto simp: hi8_def lo8_def bit_simps)
  then show ?thesis by (simp add: int16_of_def)
qed

lemma raw_count_sint: "sint (raw_count c) = max (- 32768) (min c 32767)"
  by (simp add: raw_count_def sint_sbintrunc' signed_take_bit_int_eq_self)

lemma int16_of_range: "- 32768 \<le> int16_of h l \<and> int16_of h l \<le> 32767"
  using sint_greater_eq [of "push_bit 8 (ucast h) OR ucast l :: u16"]
    sint_less [of "push_bit 8 (ucast h) OR ucast l :: u16"]
  by (simp add: int16_of_def)

lemma fmul_bounded:
  assumes "ffin x" "ffin y" "\<bar>sval x\<bar> \<le> one_units" "\<bar>sval y\<bar> \<le> 2 ^ 270"
  shows "ffin (fmul x y) \<and> \<bar>sval (fmul x y)\<bar> \<le> \<bar>sval y\<bar>"
proof -
  have one: "0 < one_units" by (simp add: one_units_def)
  define q where "q = rat_of_int (sval x * sval y) / rat_of_int one_units"
  have "\<bar>sval x * sval y\<bar> \<le> one_units * \<bar>sval y\<bar>"
    unfolding abs_mult by (rule mult_right_mono) (use assms(3) in simp_all)
  then have "rat_of_int \<bar>sval x * sval y\<bar> \<le> rat_of_int (one_units * \<bar>sval y\<bar>)"
    by (simp only: of_int_le_iff)
  then have q: "\<bar>q\<bar> \<le> rat_of_int \<bar>sval y\<bar>"
    by (simp add: q_def abs_divide divide_le_eq abs_mult one_units_def mult.commute)
  have ex: "rr (rat_of_int \<bar>sval y\<bar>) = \<bar>sval y\<bar>"
    using rr_sval [of y] rr_minus [of "rat_of_int (sval y)"] assms(2)
    by (cases "0 \<le> sval y") (simp_all add: ffin_not_nan)
  have m: "fmul x y = fof (fsgn x \<noteq> fsgn y) q" using assms by (simp add: fmul_fin q_def)
  have "rat_of_int \<bar>sval y\<bar> \<le> rat_of_int (2 ^ 270)" using assms(4) by (simp only: of_int_le_iff)
  also have "\<dots> \<le> 2 ^ 275" by simp
  finally have "ffin (fmul x y)" unfolding m using q by (intro fof_fin) (rule order_trans)
  then show ?thesis using rr_abs_le [OF q ex] by (simp add: m)
qed

lemma fraction_bounded:
  assumes "- 32768 \<le> n" "n \<le> 32767"
  shows "ffin (fdiv (f32_of_int n) f_32768) \<and> \<bar>sval (fdiv (f32_of_int n) f_32768)\<bar> \<le> one_units"
proof -
  define x where "x = f32_of_int n"
  have "\<bar>n * one_units\<bar> \<le> 2 ^ 164"
  proof -
    have "\<bar>n\<bar> * one_units \<le> 32768 * one_units"
      using assms by (intro mult_right_mono) (simp_all add: one_units_def)
    then show ?thesis by (simp add: abs_mult one_units_def)
  qed
  note nb = rat_abs_le [OF this]
  have x: "ffin x" "\<bar>sval x\<bar> \<le> 2 ^ 164"
    unfolding x_def f32_of_int_def sval_fof
    by (rule fof_fin, rule order_trans [OF nb], simp) (rule rr_abs_bound [OF nb], simp)
  have d: "ffin f_32768" "sval f_32768 = 2 ^ 164"
    by (simp_all add: f32_class_eval f_32768_def)
  define q where "q = rat_of_int (sval x * one_units) / rat_of_int (2 ^ 164)"
  have f: "fdiv x f_32768 = fof (fsgn x \<noteq> fsgn f_32768) q"
    using x d by (simp add: fdiv_fin q_def)
  have "\<bar>sval x * one_units\<bar> \<le> 2 ^ 164 * one_units"
    unfolding abs_mult using x(2) by (intro mult_mono) (simp_all add: one_units_def)
  then have "rat_of_int \<bar>sval x * one_units\<bar> \<le> rat_of_int (2 ^ 164 * one_units)"
    by (simp only: of_int_le_iff)
  then have q: "\<bar>q\<bar> \<le> 2 ^ 149"
    by (simp add: q_def abs_divide divide_le_eq abs_mult one_units_def)
  have "ffin (fdiv x f_32768)" unfolding f by (rule fof_fin, rule order_trans [OF q]) simp
  moreover have "\<bar>sval (fdiv x f_32768)\<bar> \<le> one_units"
    using rr_abs_bound [OF q] by (simp add: f one_units_def)
  ultimately show ?thesis by (simp add: x_def)
qed

lemma full_scale_values:
  "ffin (full_scale_mT v r) \<and> 0 < sval (full_scale_mT v r) \<and>
   sval (full_scale_mT v r) \<le> 266 * one_units"
  by (cases r) (simp_all add: full_scale_mT_def f32_class_eval one_units_def)

lemma convert_raw_bounded:
  assumes "- 32768 \<le> n" "n \<le> 32767"
  shows "ffin (convert_raw_to_mT t n r) \<and>
    \<bar>sval (convert_raw_to_mT t n r)\<bar> \<le> sval (full_scale_mT (t_variant t) r)"
proof -
  have s: "ffin (full_scale_mT (t_variant t) r)" "0 < sval (full_scale_mT (t_variant t) r)"
    "sval (full_scale_mT (t_variant t) r) \<le> 266 * one_units"
    using full_scale_values by blast+
  have "266 * one_units \<le> 2 ^ 270" by (simp add: one_units_def)
  with s have "\<bar>sval (full_scale_mT (t_variant t) r)\<bar> \<le> 2 ^ 270" by linarith
  with fmul_bounded [of "fdiv (f32_of_int n) f_32768" "full_scale_mT (t_variant t) r"]
    fraction_bounded [OF assms] s
  show ?thesis by (simp add: convert_raw_to_mT_def)
qed

lemma read_magnetic_bounded:
  assumes "read_magnetic B t w = (Some d, w')"
  shows "bounded_sample (mag_x d) \<and> bounded_sample (mag_y d) \<and> bounded_sample (mag_z d) \<and>
    \<bar>sval (mag_x d)\<bar> \<le> sval (full_scale_mT (t_variant t) (t_xy_range t)) \<and>
    \<bar>sval (mag_y d)\<bar> \<le> sval (full_scale_mT (t_variant t) (t_xy_range t)) \<and>
    \<bar>sval (mag_z d)\<bar> \<le> sval (full_scale_mT (t_variant t) (t_z_range t)) \<and> mag_count d < 8"
proof -
  obtain r where r: "read_raw B w = (Some r, w')" and
    d: "d = \<lparr>mag_x = convert_raw_to_mT t (r_x r) (t_xy_range t),
                          mag_y = convert_raw_to_mT t (r_y r) (t_xy_range t),
                          mag_z = convert_raw_to_mT t (r_z r) (t_z_range t),
                          mag_count = r_count r\<rparr>"
    using assms by (auto simp: read_magnetic_def split: prod.splits)
  obtain ds where ds: "r = \<lparr>r_x = int16_of (ds ! 0) (ds ! 1), r_y = int16_of (ds ! 2) (ds ! 3),
                 r_z = int16_of (ds ! 4) (ds ! 5), r_count = drop_bit 5 (ds ! 6) AND 0x07\<rparr>"
    using r by (auto simp: read_raw_def split: prod.splits option.splits)
  have "drop_bit 5 (ds ! 6) AND 0x07 < (8 :: u8)"
    using word_and_le1 [of "drop_bit 5 (ds ! 6)" "0x07"] order_le_less_trans [of _ "7 :: u8" 8] by simp
  moreover have "bounded_sample (convert_raw_to_mT t (int16_of a b) rg) \<and>
      \<bar>sval (convert_raw_to_mT t (int16_of a b) rg)\<bar> \<le> sval (full_scale_mT (t_variant t) rg)" for a b rg
  proof -
    have "266 * one_units \<le> 1024 * one_units" by (simp add: one_units_def)
    with convert_raw_bounded [of "int16_of a b" t rg] int16_of_range [of a b]
      full_scale_values [of "t_variant t" rg]
    show ?thesis unfolding bounded_sample_def by linarith
  qed
  ultimately show ?thesis by (simp add: d ds)
qed

text \<open>The result registers after a conversion.\<close>

lemma read_raw_fake:
  assumes "fake_ok b" "fb_fault b \<noteq> NoResponse" "fb_fault b \<noteq> StuckCounter"
    "counts (fb_env b) = ((cx, cy, cz), e)"
  shows "\<exists>b'. read_raw (fake_tmag_bus counts) b =
      (Some \<lparr>r_x = max (- 32768) (min cx 32767), r_y = max (- 32768) (min cy 32767),
             r_z = max (- 32768) (min cz 32767), r_count = (fb_counter b + 1) AND 0x07\<rparr>, b') \<and>
    fake_ok b' \<and> fb_env b' = e \<and> fb_counter b' = (fb_counter b + 1) AND 0x07 \<and>
    fb_fault b' = fb_fault b"
proof -
  define b' where "b' = fake_convert counts b"
  have l: "length (fb_regs b) = 256" using assms(1) by (simp add: fake_ok_def)
  define n where "n = (fb_counter b + 1) AND 0x07"
  have b': "fb_regs b' = (fb_regs b)[0x12 := hi8 (raw_count cx), 0x13 := lo8 (raw_count cx),
      0x14 := hi8 (raw_count cy), 0x15 := lo8 (raw_count cy), 0x16 := hi8 (raw_count cz),
      0x17 := lo8 (raw_count cz), 0x18 := push_bit 5 n OR STATUS_RESULT_READY]"
    "fb_counter b' = n" "fb_env b' = e" "fb_fault b' = fb_fault b"
    using assms by (simp_all add: b'_def fake_convert_def Let_def n_def)
  have l': "length (fb_regs b') = 256" by (simp add: b'(1) l)
  define ds where "ds = take 7 (drop 18 (fb_regs b'))"
  have ds: "ds ! k = fb_regs b' ! (18 + k)" if "k < 7" for k
    using that l' by (simp add: ds_def)
  have r: "bus_read (fake_tmag_bus counts) X_MSB_RESULT 7 b = (Some ds, b')"
    using assms l by (simp add: fake_tmag_bus_def fake_read_def X_MSB_RESULT_def Let_def
        b'_def [symmetric] ds_def)
  have c: "drop_bit 5 (push_bit 5 n OR STATUS_RESULT_READY) AND 0x07 = n"
    by (rule u8_exhaust_bits)
      (auto simp: n_def STATUS_RESULT_READY_def less_8 bit_simps)
  have "read_raw (fake_tmag_bus counts) b =
      (Some \<lparr>r_x = max (- 32768) (min cx 32767), r_y = max (- 32768) (min cy 32767),
             r_z = max (- 32768) (min cz 32767), r_count = n\<rparr>, b')"
    using l by (simp add: read_raw_def r ds b'(1) int16_hi_lo raw_count_sint c [simplified])
  then show ?thesis using b' l' by (auto simp: n_def fake_ok_def)
qed

lemma parse_fault_name: "parse_fault (fault_name f) = Some f"
  by (cases f) (simp_all add: parse_fault_def fault_name_def)

text \<open>\<open>AVG_32\<close> over a cleared register: bits 6 and 4.\<close>

lemma average_32_register: "average_bits AVG_32 0 = 0x50"
  by (simp add: average_bits_def)

lemma trigger_conversion_register:
  assumes "fake_ok b" "trigger_conversion (fake_tmag_bus counts) t b = (True, t', b')"
  shows "fake_regs b' DEVICE_CONFIG_2 = fake_regs b DEVICE_CONFIG_2 \<and>
    fake_regs b' DEVICE_CONFIG_1 = fake_regs b DEVICE_CONFIG_1 AND 0xFC"
  using fake.set_field_effect [OF assms(1) _ assms(2) [unfolded trigger_conversion_def]]
  by (simp add: register_defs)

text \<open>The firmware's own settings.\<close>

definition main_tmag :: tmag where
  "main_tmag = tmag_of_config CH_XYZ HIGH HIGH V_AUTO CONTINUOUS AVG_32 False"

definition answering :: "'e fake_bus \<Rightarrow> bool" where
  "answering b \<longleftrightarrow> fake_ok b \<and> fb_fault b \<noteq> NoResponse"

lemma fake_set_field_ok:
  assumes "answering b" "a < 0x10"
  shows "\<exists>t' b'. set_field (fake_tmag_bus counts) a f upd t b = (True, t', b') \<and> answering b' \<and>
    (\<forall>r \<noteq> a. fake_regs b' r = fake_regs b r)"
proof -
  have "unat a < 16" using assms(2) by (simp add: word_less_nat_alt)
  then have "fake_read counts a 1 b = (Some (take 1 (drop (unat a) (fb_regs b))), b)"
    using assms by (simp add: fake_read_def X_MSB_RESULT_def Let_def answering_def fake_ok_def)
  then obtain x where r: "read_u8 (fake_tmag_bus counts) a b = (Some x, b)"
    by (simp add: read_u8_def fake_tmag_bus_def)
  define v where "v = f x"
  define b2 where "b2 = b\<lparr>fb_regs := (fb_regs b)[unat a := v]\<rparr>"
  have "fake_write [a, v] b = (True, b2)"
    using assms by (simp add: fake_write_def answering_def fake_ok_def b2_def)
  then have "set_field (fake_tmag_bus counts) a f upd t b = (True, upd t, b2)"
    by (simp add: set_field_def r v_def [symmetric]) (simp add: fake_tmag_bus_def)
  moreover have "answering b2" using assms(1) by (simp add: answering_def fake_ok_def b2_def)
  moreover have "fake_regs b2 r = fake_regs b r" if "r \<noteq> a" for r
  proof -
    have "unat a \<noteq> unat r" using that by (auto dest: unsigned_word_eqI)
    then show ?thesis by (simp add: fake_regs_def b2_def)
  qed
  ultimately show ?thesis by blast
qed

definition config_setter ::
  "('e \<Rightarrow> (int \<times> int \<times> int) \<times> 'e) \<Rightarrow> (tmag \<Rightarrow> 'e fake_bus \<Rightarrow> bool \<times> tmag \<times> 'e fake_bus) \<Rightarrow> bool" where
  "config_setter counts f \<longleftrightarrow> (\<exists>a g upd. a < 0x10 \<and> f = set_field (fake_tmag_bus counts) a g upd)"

lemma config_setterI: "a < 0x10 \<Longrightarrow> config_setter counts (set_field (fake_tmag_bus counts) a g upd)"
  unfolding config_setter_def by blast

lemma fake_set_all_ok:
  assumes "answering b" "\<forall>f \<in> set fs. config_setter counts f"
  shows "\<exists>t' b'. set_all fs t b = (True, t', b')"
  using assms
proof (induction fs arbitrary: t b)
  case (Cons f fs)
  then obtain a g upd where "a < 0x10" "f = set_field (fake_tmag_bus counts) a g upd"
    by (auto simp: config_setter_def)
  with fake_set_field_ok [OF Cons.prems(1)] obtain t1 b1 where
    "f t b = (True, t1, b1)" "answering b1" by blast
  with Cons show ?case by simp
qed simp

lemma fake_read_id:
  "answering b \<Longrightarrow> read_u8 (fake_tmag_bus counts) DEVICE_ID b = (Some (fake_regs b DEVICE_ID), b)"
  by (simp add: read_u8_def fake_tmag_bus_def fake_read_def answering_def fake_ok_def fake_regs_def
      DEVICE_ID_def X_MSB_RESULT_def Let_def hd_drop_conv_nth hd_take)

lemma initialize_answers:
  assumes "answering b" "fake_regs b DEVICE_ID \<noteq> 0x00" "fake_regs b DEVICE_ID \<noteq> 0xFF"
  shows "\<exists>t' b'. initialize (fake_tmag_bus counts) t b = (True, t', b')"
proof -
  have c: "is_connected (fake_tmag_bus counts) b = (True, b)"
    using assms by (simp add: is_connected_def fake_read_id)
  have "\<exists>t1. (if t_detect t then detect_variant (fake_tmag_bus counts) t b else (t, b)) = (t1, b)"
    using assms(1) by (simp add: detect_variant_def fake_read_id Let_def)
  then obtain t1 where
    d: "(if t_detect t then detect_variant (fake_tmag_bus counts) t b else (t, b)) = (t1, b)" ..
  have "\<exists>t' b'. set_all
       [set_magnetic_channels (fake_tmag_bus counts) (t_channels t),
        set_xy_range (fake_tmag_bus counts) (t_xy_range t),
        set_z_range (fake_tmag_bus counts) (t_z_range t),
        set_conversion_average (fake_tmag_bus counts) (t_average t),
        set_low_noise (fake_tmag_bus counts) (t_low_noise t),
        set_operating_mode (fake_tmag_bus counts) (t_mode t)] t1 b = (True, t', b')"
    by (rule fake_set_all_ok [OF assms(1), of _ counts])
      (simp add: config_setterI set_magnetic_channels_def set_xy_range_def set_z_range_def
        set_conversion_average_def set_low_noise_def set_operating_mode_def register_defs)
  with c d show ?thesis by (simp add: initialize_def)
qed

lemma answering_init: "answering (init_fake_bus e)" "fake_ok (init_fake_bus e)"
  "fake_regs (init_fake_bus e) DEVICE_ID = 0x02"
  by (simp_all add: answering_def fake_ok_def init_fake_bus_def fake_regs_def DEVICE_ID_def)

section \<open>Properties\<close>

text \<open>A successful \<open>initialize\<close> leaves every requested setting in its register field and
  changes nothing else: no other bit of the four configuration registers and no other register.\<close>

theorem initialize_configures:
  assumes "fake_ok b" "initialize (fake_tmag_bus counts) t b = (True, t', b')"
  shows "drop_bit 4 (fake_regs b' SENSOR_CONFIG_1) AND 0x0F = channels_code (t_channels t) \<and>
    fake_regs b' SENSOR_CONFIG_1 AND 0x0F = fake_regs b SENSOR_CONFIG_1 AND 0x0F \<and>
    drop_bit 1 (fake_regs b' SENSOR_CONFIG_2) AND 0x01 = range_code (t_xy_range t) \<and>
    fake_regs b' SENSOR_CONFIG_2 AND 0x01 = range_code (t_z_range t) \<and>
    fake_regs b' SENSOR_CONFIG_2 AND 0xFC = fake_regs b SENSOR_CONFIG_2 AND 0xFC \<and>
    drop_bit 4 (fake_regs b' DEVICE_CONFIG_1) AND 0x07 = average_code (t_average t) \<and>
    fake_regs b' DEVICE_CONFIG_1 AND 0x8F = fake_regs b DEVICE_CONFIG_1 AND 0x8F \<and>
    (fake_regs b' DEVICE_CONFIG_2 AND push_bit 4 1 \<noteq> 0) = t_low_noise t \<and>
    fake_regs b' DEVICE_CONFIG_2 AND 0x03 = mode_code (t_mode t) \<and>
    fake_regs b' DEVICE_CONFIG_2 AND 0xEC = fake_regs b DEVICE_CONFIG_2 AND 0xEC \<and>
    (\<forall>a. a \<notin> {SENSOR_CONFIG_1, SENSOR_CONFIG_2, DEVICE_CONFIG_1, DEVICE_CONFIG_2} \<longrightarrow>
       fake_regs b' a = fake_regs b a)"
proof -
  note e = conjunct2 [OF fake.initialize_effect [OF assms]]
  have 1: "z_range_bits r (xy_range_bits q v) AND 0xFC = v AND 0xFC" for r q v
    by (cases r; cases q; rule u8_exhaust_bits)
      (auto simp: z_range_bits_def xy_range_bits_def less_8 bit_simps)
  have 2: "mode_bits m (low_noise_bits on v) AND 0xEC = v AND 0xEC" for m on v
    by (cases m; cases on; rule u8_exhaust_bits)
      (auto simp: mode_bits_def low_noise_bits_def less_8 bit_simps)
  show ?thesis
    unfolding e
    by (simp add: register_defs channel_bits_field [simplified] xy_range_bits_field [simplified]
        z_range_bits_field [simplified] average_bits_field [simplified]
        low_noise_bits_field [simplified] mode_bits_field [simplified]
        mode_keeps_low_noise [simplified] 1 2)
qed

theorem initialize_configures_witness:
  "\<exists>t' b'. initialize (fake_tmag_bus (\<lambda>e. ((0, 0, 0), e))) main_tmag (init_fake_bus ()) = (True, t', b') \<and>
     fake_regs b' DEVICE_CONFIG_2 AND 0x03 = mode_code CONTINUOUS"
proof -
  obtain t' b' where r: "initialize (fake_tmag_bus (\<lambda>e. ((0, 0, 0), e))) main_tmag (init_fake_bus ())
      = (True, t', b')"
    using initialize_answers [OF answering_init(1), of "()" "\<lambda>e. ((0, 0, 0), e)" main_tmag]
    by (auto simp: answering_init(3))
  from initialize_configures [OF answering_init(2) r] r show ?thesis
    by (simp add: main_tmag_def tmag_of_config_def)
qed

text \<open>C30: A conversion of the simulated sensor reaches the driver exactly: \<open>read_raw\<close> returns the
  three field components, saturated to 16 bits, and the conversion counter one further (mod 8).\<close>

theorem driver_reads_conversion:
  assumes "fake_ok b" "fb_fault b \<noteq> NoResponse" "fb_fault b \<noteq> StuckCounter"
    "counts (fb_env b) = ((cx, cy, cz), e)"
  shows "\<exists>b'. read_raw (fake_tmag_bus counts) b =
      (Some \<lparr>r_x = max (- 32768) (min cx 32767), r_y = max (- 32768) (min cy 32767),
             r_z = max (- 32768) (min cz 32767), r_count = (fb_counter b + 1) AND 0x07\<rparr>, b') \<and>
    fake_ok b' \<and> fb_env b' = e \<and> fb_counter b' = (fb_counter b + 1) AND 0x07 \<and>
    fb_fault b' = fb_fault b"
  using assms by (rule read_raw_fake)

theorem driver_reads_conversion_witness:
  "fst (read_raw (fake_tmag_bus (\<lambda>e. ((- 5, 40000, 7), e))) (init_fake_bus ())) =
     Some \<lparr>r_x = - 5, r_y = 32767, r_z = 7, r_count = 1\<rparr>"
  using driver_reads_conversion [of "init_fake_bus ()" "\<lambda>e. ((- 5, 40000, 7), e)" "- 5" 40000 7 "()"]
    answering_init(2) [of "()"]
  by (auto simp: init_fake_bus_def)

text \<open>Whatever bytes the bus returns, a successful measurement is finite, no larger than the
  full scale of the configured range and part, and carries a three-bit conversion count.\<close>

theorem measurement_within_full_scale:
  assumes "read_magnetic B t w = (Some d, w')"
  shows "bounded_sample (mag_x d) \<and> bounded_sample (mag_y d) \<and> bounded_sample (mag_z d) \<and>
    \<bar>sval (mag_x d)\<bar> \<le> sval (full_scale_mT (t_variant t) (t_xy_range t)) \<and>
    \<bar>sval (mag_y d)\<bar> \<le> sval (full_scale_mT (t_variant t) (t_xy_range t)) \<and>
    \<bar>sval (mag_z d)\<bar> \<le> sval (full_scale_mT (t_variant t) (t_z_range t)) \<and> mag_count d < 8"
  using assms by (rule read_magnetic_bounded)

theorem measurement_within_full_scale_witness:
  "\<exists>d b'. read_magnetic (fake_tmag_bus (\<lambda>e. ((- 5, 40000, 7), e))) main_tmag (init_fake_bus ())
     = (Some d, b') \<and> bounded_sample (mag_y d)"
proof -
  obtain d b' where r: "read_magnetic (fake_tmag_bus (\<lambda>e. ((- 5, 40000, 7), e))) main_tmag
      (init_fake_bus ()) = (Some d, b')"
    using read_raw_fake [of "init_fake_bus ()" "\<lambda>e. ((- 5, 40000, 7), e)" "- 5" 40000 7 "()"]
      answering_init(2) [of "()"]
    by (auto simp: read_magnetic_def init_fake_bus_def)
  from measurement_within_full_scale [OF r] r show ?thesis by blast
qed

end
