(* ===== verification/Reset_Log.thy ===== *)
theory Reset_Log
  imports Omega_Prelude
begin

text \<open>
  The reset-reason log (\<open>reset_log.hpp\<close>): its entries, what \<open>save\<close> writes and \<open>load\<close> reads,
  the two entry formats, and the file-system steps of a save, which a power cut may stop at any
  point. A file system is a map from paths to contents.
\<close>

section \<open>Data\<close>

record entry =
  e_boot :: u32
  e_reason :: int
  e_abnormal :: bool
  e_name :: string
  e_slot :: string

record reset_log =
  boot_count :: u32
  log_entries :: "entry list"
  max_entries :: nat

definition init_log :: "nat \<Rightarrow> reset_log" where
  "init_log n = \<lparr>boot_count = 0, log_entries = [], max_entries = n\<rparr>"

definition trim :: "reset_log \<Rightarrow> reset_log" where
  "trim l =
     (if max_entries l = 0 then l\<lparr>log_entries := []\<rparr>
      else if max_entries l < length (log_entries l)
      then l\<lparr>log_entries := drop (length (log_entries l) - max_entries l) (log_entries l)\<rparr>
      else l)"

definition record_reset :: "int \<Rightarrow> string \<Rightarrow> bool \<Rightarrow> string \<Rightarrow> reset_log \<Rightarrow> reset_log" where
  "record_reset reason name abnormal slot l =
     (let n = boot_count l + 1 in
      trim (l\<lparr>boot_count := n,
              log_entries := log_entries l @
                [\<lparr>e_boot = n, e_reason = reason, e_abnormal = abnormal, e_name = name,
                  e_slot = slot\<rparr>]\<rparr>))"

definition abnormal_count :: "reset_log \<Rightarrow> nat" where
  "abnormal_count l = length (filter e_abnormal (log_entries l))"

section \<open>Parsing\<close>

definition UINT32_MAX :: nat where "UINT32_MAX = 4294967295"

fun parse_digits :: "nat \<Rightarrow> string \<Rightarrow> nat option" where
  "parse_digits v [] = Some v"
| "parse_digits v (c # cs) =
     (if \<not> is_digit c then None
      else let v' = v * 10 + digit_val c in
        if UINT32_MAX < v' then None else parse_digits v' cs)"

definition parse_u32 :: "string \<Rightarrow> u32 option" where
  "parse_u32 s = (if s = [] then None else map_option word_of_nat (parse_digits 0 s))"

definition parse_int :: "string \<Rightarrow> int option" where
  "parse_int s =
     (let negative = (s \<noteq> [] \<and> hd s = CHR ''-'');
          t = (if negative then tl s else s) in
      case parse_u32 t of None \<Rightarrow> None
      | Some m \<Rightarrow>
          if int_max < uint m then None
          else Some (if negative then - uint m else uint m))"

text \<open>\<open>rfind(" (")\<close>: the text before the last such place and the text after it.\<close>

fun rfind_open :: "string \<Rightarrow> (string \<times> string) option" where
  "rfind_open [] = None"
| "rfind_open (c # cs) =
     (case rfind_open cs of Some (a, b) \<Rightarrow> Some (c # a, b)
      | None \<Rightarrow> if c = CHR '' '' \<and> cs \<noteq> [] \<and> hd cs = CHR ''('' then Some ([], tl cs) else None)"

definition legacy_name :: "string \<Rightarrow> string \<times> string" where
  "legacy_name name =
     (if 3 < length name \<and> last name = CHR '')'' then
        (case rfind_open name of None \<Rightarrow> (name, [])
         | Some (before, after) \<Rightarrow>
             let label = butlast after in
             if label \<noteq> [] \<and> set label \<inter> {CHR '' '', CHR '','', CHR ''('', CHR '')''} = {}
             then (before, label) else (name, []))
      else (name, []))"

definition parse_entry :: "bool \<Rightarrow> string \<Rightarrow> entry option" where
  "parse_entry has_slot value =
     (case split_at (CHR '','') value of None \<Rightarrow> None
      | Some (f1, r1) \<Rightarrow>
      (case split_at (CHR '','') r1 of None \<Rightarrow> None
       | Some (f2, r2) \<Rightarrow>
       (case split_at (CHR '','') r2 of None \<Rightarrow> None
        | Some (f3, r3) \<Rightarrow>
        (case (parse_u32 f1, parse_int f2, parse_u32 f3) of
           (Some b, Some r, Some a) \<Rightarrow>
             if has_slot then
               (case split_at (CHR '','') r3 of None \<Rightarrow> None
                | Some (slot, name) \<Rightarrow>
                    Some \<lparr>e_boot = b, e_reason = r, e_abnormal = (a \<noteq> 0), e_name = name,
                          e_slot = slot\<rparr>)
             else
               (case legacy_name r3 of (name, slot) \<Rightarrow>
                    Some \<lparr>e_boot = b, e_reason = r, e_abnormal = (a \<noteq> 0), e_name = name,
                          e_slot = slot\<rparr>)
         | _ \<Rightarrow> None))))"

definition carriage_return :: char where "carriage_return = CHR 0x0D"

definition chomp :: "string \<Rightarrow> string" where
  "chomp l = (if l \<noteq> [] \<and> last l = carriage_return then butlast l else l)"

definition add_entry :: "entry option \<Rightarrow> reset_log \<Rightarrow> reset_log" where
  "add_entry e l = (case e of None \<Rightarrow> l | Some e \<Rightarrow> l\<lparr>log_entries := log_entries l @ [e]\<rparr>)"

definition load_line :: "string \<Rightarrow> reset_log \<Rightarrow> reset_log" where
  "load_line line l =
     (case split_at (CHR ''='') (chomp line) of None \<Rightarrow> l
      | Some (key, value) \<Rightarrow>
          if key = ''boot_count'' then
            (case parse_u32 value of None \<Rightarrow> l | Some n \<Rightarrow> l\<lparr>boot_count := n\<rparr>)
          else if key = ''entry'' then add_entry (parse_entry False value) l
          else if key = ''entry2'' then add_entry (parse_entry True value) l
          else l)"

definition load_text :: "nat \<Rightarrow> string \<Rightarrow> reset_log" where
  "load_text n text = trim (fold load_line (getlines text) (init_log n))"

section \<open>Files\<close>

type_synonym files = "string \<Rightarrow> string option"

definition temp_path :: "string \<Rightarrow> string" where
  "temp_path path = path @ ''.tmp''"

text \<open>\<open>load\<close>: whether it succeeded, the log, the files. \<open>rename_ok\<close> and \<open>open_ok\<close> say how the
  two operations that may fail go.\<close>

definition load_log ::
  "bool \<Rightarrow> bool \<Rightarrow> string \<Rightarrow> nat \<Rightarrow> files \<Rightarrow> bool \<times> reset_log \<times> files" where
  "load_log rename_ok open_ok path n fs =
     (let temp = temp_path path;
          read = (\<lambda>fs. case fs path of None \<Rightarrow> (False, init_log n, fs)
                       | Some text \<Rightarrow>
                           if open_ok then (True, load_text n text, fs) else (False, init_log n, fs)) in
      if fs path = None then
        (case fs temp of None \<Rightarrow> (True, init_log n, fs)
         | Some text \<Rightarrow>
             if rename_ok then read (fs(path \<mapsto> text, temp := None)) else (False, init_log n, fs))
      else read fs)"

definition slot_text :: "string \<Rightarrow> string" where
  "slot_text s = filter (\<lambda>c. c \<notin> {CHR '','', newline, carriage_return}) s"

definition int_text :: "int \<Rightarrow> string" where
  "int_text n = (if n < 0 then CHR ''-'' # nat_digits (nat (- n)) else nat_digits (nat n))"

definition entry_line :: "entry \<Rightarrow> string" where
  "entry_line e = ''entry2='' @ nat_digits (unat (e_boot e)) @ '','' @ int_text (e_reason e) @ '','' @
     (if e_abnormal e then ''1'' else ''0'') @ '','' @ slot_text (e_slot e) @ '','' @ e_name e"

definition log_text :: "reset_log \<Rightarrow> string" where
  "log_text l = unlines ((''boot_count='' @ nat_digits (unat (boot_count l))) # map entry_line (log_entries l))"

text \<open>The file-system steps of a save. A step is atomic; writing the text is many steps, each
  leaving a longer prefix of it in the temporary file.\<close>

datatype fs_step = Put string string | Del string | Move string string

definition do_step :: "fs_step \<Rightarrow> files \<Rightarrow> files" where
  "do_step st fs =
     (case st of Put p t \<Rightarrow> fs(p \<mapsto> t) | Del p \<Rightarrow> fs(p := None)
      | Move p q \<Rightarrow> (case fs p of None \<Rightarrow> fs | Some t \<Rightarrow> fs(q \<mapsto> t, p := None)))"

definition write_steps :: "string \<Rightarrow> string \<Rightarrow> fs_step list" where
  "write_steps p text = map (\<lambda>n. Put p (take n text)) [0 ..< Suc (length text)]"

text \<open>\<open>refused\<close>: the file system does not rename over an existing file, so the old log is removed
  first.\<close>

definition save_steps :: "bool \<Rightarrow> string \<Rightarrow> reset_log \<Rightarrow> fs_step list" where
  "save_steps refused path l =
     write_steps (temp_path path) (log_text l) @
     (if refused then [Del path, Move (temp_path path) path] else [Move (temp_path path) path])"

definition run_steps :: "fs_step list \<Rightarrow> files \<Rightarrow> files" where
  "run_steps sts fs = fold do_step sts fs"

text \<open>A save that runs to its end: the temporary file cannot be opened, writing to it fails (it is
  removed), the renames fail, or all goes well.\<close>

datatype save_outcome = Temp_not_opened | Temp_broken | Renamed | Renamed_after_removal | Rename_failed bool

definition save_log :: "save_outcome \<Rightarrow> string \<Rightarrow> reset_log \<Rightarrow> files \<Rightarrow> bool \<times> files" where
  "save_log out path l fs =
     (let temp = temp_path path; written = fs(temp \<mapsto> log_text l) in
      case out of
        Temp_not_opened \<Rightarrow> (False, fs)
      | Temp_broken \<Rightarrow> (False, fs(temp := None))
      | Renamed \<Rightarrow> (True, run_steps (save_steps False path l) fs)
      | Renamed_after_removal \<Rightarrow> (True, run_steps (save_steps True path l) fs)
      | Rename_failed removed \<Rightarrow> (False, if removed then written(path := None) else written))"

text \<open>\<open>clear\<close>: each removal may fail; a missing file is no failure.\<close>

definition clear_log :: "bool \<Rightarrow> bool \<Rightarrow> string \<Rightarrow> files \<Rightarrow> bool \<times> files" where
  "clear_log ok1 ok2 path fs =
     (if \<not> ok1 then (False, fs)
      else if \<not> ok2 then (False, fs(path := None))
      else (True, fs(path := None, temp_path path := None)))"

section \<open>Trimming\<close>

lemma trim_length: "length (log_entries (trim l)) = min (max_entries l) (length (log_entries l))"
  by (simp add: trim_def)

lemma trim_frame [simp]: "boot_count (trim l) = boot_count l" "max_entries (trim l) = max_entries l"
  by (simp_all add: trim_def)

lemma trim_suffix: "\<exists>k. log_entries (trim l) = drop k (log_entries l)"
  by (auto simp: trim_def intro: exI [of _ 0] exI [of _ "length (log_entries l)"])

lemma trim_id: "length (log_entries l) \<le> max_entries l \<Longrightarrow> trim l = l"
  by (cases l) (auto simp: trim_def)

section \<open>Numbers\<close>

lemma foldl_digits_ge: "a \<le> foldl (\<lambda>v c. v * 10 + digit_val c) a t"
proof (induction t arbitrary: a)
  case (Cons c t)
  from Cons.IH [of "a * 10 + digit_val c"] show ?case by simp
qed simp

lemma parse_digits_val:
  assumes "\<forall>c \<in> set s. is_digit c" "foldl (\<lambda>v c. v * 10 + digit_val c) v s \<le> UINT32_MAX"
  shows "parse_digits v s = Some (foldl (\<lambda>v c. v * 10 + digit_val c) v s)"
  using assms
proof (induction s arbitrary: v)
  case (Cons c s)
  have "v * 10 + digit_val c \<le> UINT32_MAX"
    using Cons.prems(2) foldl_digits_ge [of "v * 10 + digit_val c" s] by simp
  with Cons show ?case by simp
qed simp

lemma parse_u32_digits:
  assumes "n \<le> UINT32_MAX"
  shows "parse_u32 (nat_digits n) = Some (word_of_nat n)"
proof -
  have "\<forall>c \<in> set (nat_digits n). is_digit c" using nat_digits_digits by blast
  moreover have "foldl (\<lambda>v c. v * 10 + digit_val c) 0 (nat_digits n) = n"
    using digits_val_nat_digits [of n] by (simp add: digits_val_def)
  ultimately show ?thesis
    using assms parse_digits_val [of "nat_digits n" 0] nat_digits_nonempty by (simp add: parse_u32_def)
qed

lemma unat_u32_le: "unat (w :: u32) \<le> UINT32_MAX"
proof -
  have "unat w < 2 ^ LENGTH(32)" by (rule unsigned_less)
  then show ?thesis by (simp add: UINT32_MAX_def)
qed

lemma parse_u32_unat: "parse_u32 (nat_digits (unat w)) = Some w"
  by (simp add: parse_u32_digits unat_u32_le)

lemma parse_int_text:
  assumes "- int_max \<le> n" "n \<le> int_max"
  shows "parse_int (int_text n) = Some n"
proof -
  have h: "parse_u32 (nat_digits k) = Some (word_of_nat k)" "uint (word_of_nat k :: u32) = int k"
    if "int k \<le> int_max" for k
    using that by (simp_all add: parse_u32_digits UINT32_MAX_def int_max_def uint_word_of_int
        take_bit_int_eq_self unsigned_of_nat take_bit_nat_eq_self)
  have m: "hd (nat_digits k) \<noteq> CHR ''-''" for k
    using nat_digits_digits [of "hd (nat_digits k)" k] nat_digits_nonempty [of k]
    by (auto simp: is_digit_def)
  show ?thesis
  proof (cases "n < 0")
    case True
    with assms h [of "nat (- n)"] show ?thesis by (simp add: int_text_def parse_int_def)
  next
    case False
    with assms h [of "nat n"] m show ?thesis by (simp add: int_text_def parse_int_def)
  qed
qed

section \<open>Entries\<close>

text \<open>An entry whose text survives: what \<open>record\<close> is given by the firmware.\<close>

definition plain_entry :: "entry \<Rightarrow> bool" where
  "plain_entry e \<longleftrightarrow> - int_max \<le> e_reason e \<and> e_reason e \<le> int_max \<and>
     newline \<notin> set (e_name e) \<and> carriage_return \<notin> set (e_name e) \<and>
     set (e_slot e) \<inter> {CHR '','', newline, carriage_return} = {}"

lemma digits_no:
  "c \<in> set (nat_digits n) \<Longrightarrow> c \<noteq> CHR '','' \<and> c \<noteq> newline \<and> c \<noteq> carriage_return \<and> c \<noteq> CHR ''=''"
  using nat_digits_digits [of c n]
  by (auto simp: is_digit_def newline_def carriage_return_def)

lemma int_text_no:
  "c \<in> set (int_text n) \<Longrightarrow> c \<noteq> CHR '','' \<and> c \<noteq> newline \<and> c \<noteq> carriage_return"
  using digits_no [of c] by (auto simp: int_text_def newline_def carriage_return_def split: if_splits)

lemma slot_text_plain: "plain_entry e \<Longrightarrow> slot_text (e_slot e) = e_slot e"
  unfolding slot_text_def plain_entry_def by (intro filter_True) auto

lemma parse_entry_line:
  assumes "plain_entry e"
  shows "parse_entry True (nat_digits (unat (e_boot e)) @ '','' @ int_text (e_reason e) @ '','' @
     (if e_abnormal e then ''1'' else ''0'') @ '','' @ slot_text (e_slot e) @ '','' @ e_name e) = Some e"
proof -
  have c: "CHR '','' \<notin> set (nat_digits n)" "CHR '','' \<notin> set (int_text m)" for n m
    using digits_no int_text_no by blast+
  have s: "CHR '','' \<notin> set (e_slot e)" using assms by (auto simp: plain_entry_def)
  have a: "parse_u32 ''1'' = Some 1" "parse_u32 ''0'' = Some 0"
    by (simp_all add: parse_u32_def is_digit_def digit_val_def UINT32_MAX_def)
  show ?thesis
    using assms parse_int_text [of "e_reason e"] a c s
    by (simp add: parse_entry_def split_at_append parse_u32_unat slot_text_plain plain_entry_def)
qed

lemma chomp_id: "carriage_return \<notin> set l \<Longrightarrow> chomp l = l"
proof -
  assume a: "carriage_return \<notin> set l"
  have "l \<noteq> [] \<longrightarrow> last l \<noteq> carriage_return" using a last_in_set [of l] by metis
  then show ?thesis by (auto simp: chomp_def)
qed

lemma entry_line_plain:
  assumes "plain_entry e"
  shows "newline \<notin> set (entry_line e) \<and> load_line (entry_line e) l = add_entry (Some e) l"
proof
  have no: "newline \<notin> set (entry_line e)" "carriage_return \<notin> set (entry_line e)"
    using assms digits_no int_text_no
    by (auto simp: entry_line_def plain_entry_def slot_text_def newline_def carriage_return_def)
  then show "newline \<notin> set (entry_line e)" by simp
  have ch: "chomp (entry_line e) = entry_line e" using no(2) by (rule chomp_id)
  have "split_at (CHR ''='') (entry_line e) = Some (''entry2'', nat_digits (unat (e_boot e)) @ '','' @
     int_text (e_reason e) @ '','' @ (if e_abnormal e then ''1'' else ''0'') @ '','' @
     slot_text (e_slot e) @ '','' @ e_name e)"
    by (simp add: entry_line_def)
  then show "load_line (entry_line e) l = add_entry (Some e) l"
    using parse_entry_line [OF assms] by (simp add: load_line_def ch)
qed

lemma load_entries:
  assumes "\<forall>e \<in> set es. plain_entry e"
  shows "fold load_line (map entry_line es) l = l\<lparr>log_entries := log_entries l @ es\<rparr>"
  using assms
proof (induction es arbitrary: l)
  case (Cons e es)
  then show ?case by (simp add: entry_line_plain add_entry_def)
qed simp

lemma load_saved_text:
  assumes "\<forall>e \<in> set (log_entries l). plain_entry e" "length (log_entries l) \<le> max_entries l"
  shows "load_text (max_entries l) (log_text l) = l"
proof -
  define b where "b = ''boot_count='' @ nat_digits (unat (boot_count l))"
  have no: "newline \<notin> set b" "carriage_return \<notin> set b"
    using digits_no by (auto simp: b_def newline_def carriage_return_def)
  have ch: "chomp b = b" using no(2) by (rule chomp_id)
  have sp: "split_at (CHR ''='') b = Some (''boot_count'', nat_digits (unat (boot_count l)))"
    by (simp add: b_def)
  have bl: "load_line b (init_log n) = (init_log n)\<lparr>boot_count := boot_count l\<rparr>" for n
    by (simp add: load_line_def ch sp parse_u32_unat)
  have "getlines (log_text l) = b # map entry_line (log_entries l)"
    unfolding log_text_def b_def [symmetric]
    by (rule getlines_unlines) (use no assms(1) entry_line_plain in auto)
  then have "load_text (max_entries l) (log_text l) =
      trim ((init_log (max_entries l))\<lparr>boot_count := boot_count l, log_entries := log_entries l\<rparr>)"
    using assms(1) bl by (simp add: load_text_def load_entries) (simp add: init_log_def)
  also have "(init_log (max_entries l))\<lparr>boot_count := boot_count l, log_entries := log_entries l\<rparr> = l"
    by (simp add: init_log_def)
  also have "trim l = l" using assms(2) by (rule trim_id)
  finally show ?thesis .
qed

section \<open>A save that is interrupted\<close>

lemma temp_path_neq [simp]: "temp_path p \<noteq> p" "p \<noteq> temp_path p"
  by (simp_all add: temp_path_def)

lemma run_write_steps:
  "run_steps (take k (write_steps p text)) fs q = (if q = p \<and> 0 < k then Some (take (k - 1) text) else fs q)"
proof (induction k)
  case 0
  then show ?case by (simp add: run_steps_def)
next
  case (Suc k)
  show ?case
  proof (cases "k < length (write_steps p text)")
    case True
    then have "k \<le> length text" by (simp add: write_steps_def)
    have "take (Suc k) (write_steps p text) = take k (write_steps p text) @ [Put p (take k text)]"
      using True by (simp add: take_Suc_conv_app_nth write_steps_def del: upt_Suc)
    then have "run_steps (take (Suc k) (write_steps p text)) fs =
        do_step (Put p (take k text)) (run_steps (take k (write_steps p text)) fs)"
      by (simp add: run_steps_def)
    with Suc show ?thesis by (simp add: do_step_def)
  next
    case False
    then have k: "length text < k" by (simp add: write_steps_def)
    with Suc False show ?thesis by simp
  qed
qed

lemma run_all_write_steps: "run_steps (write_steps p text) fs = fs(p \<mapsto> text)"
proof
  fix q
  show "run_steps (write_steps p text) fs q = (fs(p \<mapsto> text)) q"
    using run_write_steps [of "length (write_steps p text)" p "text" fs q]
    by (simp add: write_steps_def)
qed

lemma run_steps_append: "run_steps (a @ b) fs = run_steps b (run_steps a fs)"
  by (simp add: run_steps_def)

lemma run_steps_few:
  "run_steps [] fs = fs" "run_steps [a] fs = do_step a fs"
  "run_steps [a, b] fs = do_step b (do_step a fs)"
  by (simp_all add: run_steps_def)

text \<open>After any number of steps the log is the old one, or it is the new one, or it is gone and the
  complete new one waits in the temporary file.\<close>

lemma interrupted_save:
  assumes "fs path = Some old"
    and fs'_def: "fs' = run_steps (take k (save_steps refused path l)) fs"
  shows "fs' path = Some old \<or> fs' path = Some (log_text l) \<or>
    (fs' path = None \<and> fs' (temp_path path) = Some (log_text l))"
proof -
  define ws where "ws = write_steps (temp_path path) (log_text l)"
  define ms where "ms = (if refused then [Del path, Move (temp_path path) path]
    else [Move (temp_path path) path])"
  have t: "take k (save_steps refused path l) = take k ws @ take (k - length ws) ms"
    by (simp add: save_steps_def ws_def ms_def)
  show ?thesis
  proof (cases "k \<le> length ws")
    case True
    then have "fs' path = fs path"
      unfolding fs'_def t by (simp add: ws_def run_write_steps)
    with assms(1) show ?thesis by simp
  next
    case False
    define g where "g = fs(temp_path path \<mapsto> log_text l)"
    have e: "fs' = run_steps (take (k - length ws) ms) g"
      unfolding fs'_def t run_steps_append using False by (simp add: ws_def run_all_write_steps g_def)
    obtain j where j: "k - length ws = Suc j" using False by (cases "k - length ws") auto
    show ?thesis
      using assms(1) unfolding e j
      by (cases refused; cases j)
        (auto simp: ms_def run_steps_def do_step_def g_def)
  qed
qed

section \<open>Properties\<close>

text \<open>The log survives its file: a successful save followed by a load, under either way the
  rename can go, gives back the counter and every entry.\<close>

theorem log_round_trip:
  assumes "\<forall>e \<in> set (log_entries l). plain_entry e" "length (log_entries l) \<le> max_entries l"
    "save_log out path l fs = (True, fs')"
  shows "load_log True True path (max_entries l) fs' = (True, l, fs')"
proof -
  have "fs' path = Some (log_text l)"
    using assms(3)
    by (cases out) (auto simp: save_log_def Let_def save_steps_def run_steps_append
        run_all_write_steps run_steps_few do_step_def)
  then show ?thesis using load_saved_text [OF assms(1,2)] by (simp add: load_log_def)
qed

definition witness_log :: reset_log where
  "witness_log = record_reset 4 ''panic'' True ''ota_0'' (init_log 16)"

theorem log_round_trip_witness:
  "load_log True True ''r'' 16 (snd (save_log Renamed ''r'' witness_log Map.empty))
     = (True, witness_log, snd (save_log Renamed ''r'' witness_log Map.empty))"
proof -
  have "\<forall>e \<in> set (log_entries witness_log). plain_entry e" "length (log_entries witness_log) \<le> 16"
    "max_entries witness_log = 16"
    by (simp_all add: witness_log_def record_reset_def init_log_def trim_def plain_entry_def int_max_def
        newline_def carriage_return_def)
  then show ?thesis
    using log_round_trip [of witness_log Renamed "''r''" Map.empty]
    by (simp add: save_log_def Let_def)
qed

text \<open>C28: A power cut during a save never loses the log: if one was there, then after any number of
  steps of the save a load finds the old log or the complete new one.\<close>

theorem interrupted_save_keeps_a_log:
  assumes "fs path = Some old" "\<forall>e \<in> set (log_entries l). plain_entry e"
    "length (log_entries l) \<le> max_entries l"
  shows "\<exists>g. load_log True True path (max_entries l) (run_steps (take k (save_steps refused path l)) fs)
      = (True, load_text (max_entries l) old, g)
    \<or> load_log True True path (max_entries l) (run_steps (take k (save_steps refused path l)) fs)
      = (True, l, g)"
proof -
  have nt: "load_text (max_entries l) (log_text l) = l" using load_saved_text [OF assms(2,3)] .
  from interrupted_save [of fs path old _ k refused l, OF assms(1) refl] show ?thesis
    using nt by (auto simp: load_log_def Let_def)
qed

theorem interrupted_save_keeps_a_log_witness:
  "\<exists>g. load_log True True ''r'' 16 (run_steps (take 3 (save_steps False ''r'' witness_log)) [''r'' \<mapsto> []])
      = (True, load_text 16 [], g)
    \<or> load_log True True ''r'' 16 (run_steps (take 3 (save_steps False ''r'' witness_log)) [''r'' \<mapsto> []])
      = (True, witness_log, g)"
proof -
  have "\<forall>e \<in> set (log_entries witness_log). plain_entry e" "length (log_entries witness_log) \<le> 16"
    "max_entries witness_log = 16"
    by (simp_all add: witness_log_def record_reset_def init_log_def trim_def plain_entry_def int_max_def
        newline_def carriage_return_def)
  then show ?thesis
    using interrupted_save_keeps_a_log [of "[''r'' \<mapsto> []]" "''r''" "[]" witness_log 3 False] by simp
qed

text \<open>The text of the witness log, and what a reader makes of a prefix of it.\<close>

lemma witness_log_text:
  "log_text witness_log = ''boot_count=1'' @ newline # ''entry2=1,4,1,ota_0,panic'' @ [newline]"
proof -
  have d: "digit_char (Suc 0) = CHR ''1''" "digit_char 4 = CHR ''4''" by code_simp+
  show ?thesis
    by (simp add: log_text_def witness_log_def record_reset_def init_log_def trim_def entry_line_def
        int_text_def slot_text_def nat_digits.simps d newline_def carriage_return_def)
qed

lemma prefix_log:
  "load_text 16 (''boot_count=1'' @ newline # ''entry2=1,4,1,ota_0,pan'') =
   witness_log\<lparr>log_entries := [(hd (log_entries witness_log))\<lparr>e_name := ''pan''\<rparr>]\<rparr>"
proof -
  have g: "getlines (''boot_count=1'' @ newline # ''entry2=1,4,1,ota_0,pan'') =
      [''boot_count=1'', ''entry2=1,4,1,ota_0,pan'']"
    by (simp add: getlines_def newline_def)
  have p: "parse_u32 ''1'' = Some 1" "parse_int ''4'' = Some 4"
    by (simp_all add: parse_u32_def parse_int_def is_digit_def digit_val_def UINT32_MAX_def int_max_def)
  show ?thesis
    unfolding load_text_def g
    by (simp add: load_line_def chomp_def carriage_return_def p parse_entry_def init_log_def trim_def
        add_entry_def witness_log_def record_reset_def)
qed

text \<open>With no log yet (the first boot, or after \<open>clear\<close>) an interrupted save is not safe: the
  truncated temporary file is taken for a complete one and becomes the log.\<close>

theorem interrupted_first_save:
  "fst (snd (load_log True True ''r'' 16
        (run_steps (take 36 (save_steps False ''r'' witness_log)) Map.empty)))
      = witness_log\<lparr>log_entries := [(hd (log_entries witness_log))\<lparr>e_name := ''pan''\<rparr>]\<rparr>"
proof -
  define g where "g = run_steps (take 36 (save_steps False ''r'' witness_log)) Map.empty"
  have t: "take 35 (log_text witness_log) = ''boot_count=1'' @ newline # ''entry2=1,4,1,ota_0,pan''"
    unfolding witness_log_text by simp
  have "take 36 (save_steps False ''r'' witness_log) =
      take 36 (write_steps (temp_path ''r'') (log_text witness_log))"
    by (simp add: save_steps_def write_steps_def witness_log_text)
  then have "g q = (if q = temp_path ''r'' then Some (take 35 (log_text witness_log)) else None)" for q
    unfolding g_def by (simp add: run_write_steps)
  then show ?thesis
    unfolding g_def [symmetric] t by (simp add: load_log_def Let_def prefix_log [simplified])
qed

text \<open>The ring: after recording a reset the log holds at most \<open>max_entries\<close> entries, they are the
  newest ones of the old log in order, and the new reset, numbered one above the old counter, is
  the last.\<close>

theorem record_keeps_newest:
  assumes "0 < max_entries l"
  shows "length (log_entries (record_reset reason name abn slot l)) \<le> max_entries l \<and>
    boot_count (record_reset reason name abn slot l) = boot_count l + 1 \<and>
    (\<exists>k. log_entries (record_reset reason name abn slot l) = drop k (log_entries l) @
       [\<lparr>e_boot = boot_count l + 1, e_reason = reason, e_abnormal = abn, e_name = name,
         e_slot = slot\<rparr>])"
proof -
  define e where "e = \<lparr>e_boot = boot_count l + 1, e_reason = reason, e_abnormal = abn, e_name = name,
         e_slot = slot\<rparr>"
  define m where "m = l\<lparr>boot_count := boot_count l + 1, log_entries := log_entries l @ [e]\<rparr>"
  have r: "record_reset reason name abn slot l = trim m"
    by (simp add: record_reset_def Let_def m_def e_def)
  define k where "k = length (log_entries m) - max_entries m"
  have "k \<le> length (log_entries l)" using assms by (simp add: k_def m_def)
  have "log_entries (trim m) = drop k (log_entries m)"
    using assms by (simp add: trim_def k_def m_def)
  also have "\<dots> = drop k (log_entries l) @ [e]" using \<open>k \<le> _\<close> by (simp add: m_def)
  finally show ?thesis unfolding r using trim_length [of m] by (auto simp: m_def e_def)
qed

theorem record_keeps_newest_witness:
  "length (log_entries (record_reset 1 ''power-on'' False ''ota_0'' (init_log 16))) \<le> 16"
  using record_keeps_newest [of "init_log 16"] by (simp add: init_log_def)

end
