(* ===== verification/Device.thy ===== *)
theory Device
  imports Service_Facts Xac_Report Sensor_Facts Reset_Log
begin

text \<open>
  \<open>main/main.cpp\<close>: the wiring of the device. The world of the console services is instantiated with
  what the firmware keeps (\<open>dev\<close>), \<open>EspPorts\<close> are the control loop's ports on it, and one iteration of
  the polling loop, the boot sequence and the console links are the steps of the device. Third-party
  parts (joystick library, sensor bus, clock, USB, reset reasons) are the fields of \<open>board\<close>.
\<close>

section \<open>The sensor status the console reads\<close>

record sensor_status =
  ss_fault :: u8
  ss_first_fault :: u8
  ss_count :: u32

definition init_status :: sensor_status where
  "init_status = \<lparr>ss_fault = SENSOR_NOT_OBSERVED, ss_first_fault = 0, ss_count = 0\<rparr>"

definition publish :: "bool \<Rightarrow> sensor_fault \<Rightarrow> u32 \<Rightarrow> sensor_status \<Rightarrow> sensor_status" where
  "publish is_faulted kind n s =
     s\<lparr>ss_fault := (if is_faulted then fault_code kind else fault_code NO_FAULT),
       ss_first_fault := (if is_faulted \<and> ss_first_fault s = 0 then fault_code kind else ss_first_fault s),
       ss_count := n\<rparr>"

definition observed_healthy :: "sensor_status \<Rightarrow> sensor_status" where
  "observed_healthy s = (if ss_fault s = SENSOR_NOT_OBSERVED then s\<lparr>ss_fault := 0\<rparr> else s)"

section \<open>The device\<close>

datatype hid_report = Mouse_sent mouse_hid | Xac_sent "(nat \<times> f32) list"

record ('j, 'e) dev =
  dv_holds :: int
  dv_gate :: gate
  dv_needs_calibration :: bool
  dv_status :: sensor_status
  dv_log :: reset_log
  dv_files :: files
  dv_read_ok :: bool
  dv_conversions :: u8
  dv_tmag :: tmag
  dv_joystick :: 'j
  dv_live :: bool
  dv_hid :: "hid_report list"
  dv_reboots :: "deferred list"
  dv_restarted :: bool
  dv_ext :: 'e

text \<open>The joystick library: \<open>js_update\<close> is given what the read callback returned.\<close>

record ('o, 'j, 'e) board =
  b_ops :: "'o ota_ops"
  b_codec :: codec
  b_bus :: "'e bus"
  b_sleep :: "millis \<Rightarrow> 'e \<Rightarrow> 'e"
  b_now :: "'e \<Rightarrow> nanos \<times> 'e"
  b_write :: "string \<Rightarrow> 'e \<Rightarrow> write_outcome \<times> 'e"
  b_vendor :: "bytes \<Rightarrow> 'e \<Rightarrow> bool \<times> 'e"
  b_cdc :: "bytes \<Rightarrow> 'e \<Rightarrow> bool \<times> 'e"
  b_atan2 :: "f32 \<Rightarrow> f32 \<Rightarrow> f32"
  b_hypot :: "f32 \<Rightarrow> f32 \<Rightarrow> f32"
  b_calibration_path :: string
  b_settings_path :: string
  js_update :: "(f32 \<times> f32) option \<Rightarrow> 'j \<Rightarrow> 'j"
  js_position :: "'j \<Rightarrow> f32 \<times> f32"
  js_raw :: "'j \<Rightarrow> f32 \<times> f32"
  js_set_calibration :: "stick_map \<Rightarrow> 'j \<Rightarrow> 'j"

type_synonym ('o, 'j, 'e) device_world = "('o, ('j, 'e) dev) world"

definition on_dev :: "(('j, 'e) dev \<Rightarrow> ('j, 'e) dev) \<Rightarrow> ('o, 'j, 'e) device_world \<Rightarrow> ('o, 'j, 'e) device_world" where
  "on_dev f w = w\<lparr>wd_env := f (wd_env w)\<rparr>"

definition on_ext :: "('e \<Rightarrow> 'r \<times> 'e) \<Rightarrow> ('o, 'j, 'e) device_world \<Rightarrow> 'r \<times> ('o, 'j, 'e) device_world" where
  "on_ext f w = (case f (dv_ext (wd_env w)) of (r, e) \<Rightarrow> (r, on_dev (\<lambda>d. d\<lparr>dv_ext := e\<rparr>) w))"

text \<open>\<open>store.save_to_flash\<close> on the device's files; when the calibration write fails the settings file
  is not written.\<close>

definition cal_error_code :: "cal_error \<Rightarrow> error_code" where
  "cal_error_code e = \<lparr>ec_value = cal_error_value e, ec_generic = False, ec_condition = None,
     ec_message = cal_error_message e\<rparr>"

definition device_save ::
  "('o, 'j, 'e) board \<Rightarrow> ('o, 'j, 'e) device_world \<Rightarrow> error_code option \<times> ('o, 'j, 'e) device_world" where
  "device_save B w =
     (let (wc, w1) = on_ext (b_write B (b_calibration_path B)) w;
          (ws, w2) = (if wc = Written then on_ext (b_write B (b_settings_path B)) w1 else (Written, w1));
          (e, fs) = save_store wc ws (b_calibration_path B) (b_settings_path B) (wd_store w)
                      (dv_files (wd_env w)) in
      (map_option cal_error_code e, on_dev (\<lambda>d. d\<lparr>dv_files := fs\<rparr>) w2))"

text \<open>\<open>on_calibration_changed\<close> re-applies the calibration to the live joystick; \<open>on_mode_changed\<close> saves,
  waits for the reply to go out and restarts.\<close>

definition reapply :: "('o, 'j, 'e) board \<Rightarrow> ('o, 'j, 'e) device_world \<Rightarrow> ('o, 'j, 'e) device_world" where
  "reapply B w =
     (let st = wd_store w in
      on_dev (\<lambda>d. d\<lparr>dv_joystick := js_set_calibration B
        (apply_calibration_with (st_center st) (st_range st) (st_settings st)) (dv_joystick d)\<rparr>) w)"

definition fire_one ::
  "('o, 'j, 'e) board \<Rightarrow> store_event \<Rightarrow> ('o, 'j, 'e) device_world \<Rightarrow> ('o, 'j, 'e) device_world" where
  "fire_one B ev w =
     (case ev of
        Calibration_changed \<Rightarrow> if dv_live (wd_env w) then reapply B w else w
      | Mode_changed m \<Rightarrow>
          on_dev (\<lambda>d. d\<lparr>dv_restarted := True\<rparr>)
            (snd (on_ext (\<lambda>e. ((), b_sleep B REPLY_FLUSH_DELAY e)) (snd (device_save B w)))))"

definition fire ::
  "('o, 'j, 'e) board \<Rightarrow> store_event list \<Rightarrow> ('o, 'j, 'e) device_world \<Rightarrow> ('o, 'j, 'e) device_world" where
  "fire B es w = fold (fire_one B) es w"

definition update_store ::
  "('o, 'j, 'e) board \<Rightarrow> (store \<Rightarrow> store_event list \<times> store) \<Rightarrow> ('o, 'j, 'e) device_world
     \<Rightarrow> ('o, 'j, 'e) device_world" where
  "update_store B f w = (case f (wd_store w) of (es, st) \<Rightarrow> fire B es (w\<lparr>wd_store := st\<rparr>))"

section \<open>Reset reasons\<close>

datatype reset_reason =
    RST_POWERON | RST_EXT | RST_SW | RST_PANIC | RST_INT_WDT | RST_TASK_WDT | RST_WDT | RST_DEEPSLEEP
  | RST_BROWNOUT | RST_SDIO | RST_USB | RST_JTAG | RST_EFUSE | RST_PWR_GLITCH | RST_CPU_LOCKUP | RST_UNKNOWN

definition reset_reason_name :: "reset_reason \<Rightarrow> string" where
  "reset_reason_name r = (case r of RST_POWERON \<Rightarrow> ''power-on'' | RST_EXT \<Rightarrow> ''external pin''
     | RST_SW \<Rightarrow> ''software'' | RST_PANIC \<Rightarrow> ''panic'' | RST_INT_WDT \<Rightarrow> ''interrupt watchdog''
     | RST_TASK_WDT \<Rightarrow> ''task watchdog'' | RST_WDT \<Rightarrow> ''watchdog'' | RST_DEEPSLEEP \<Rightarrow> ''deep sleep''
     | RST_BROWNOUT \<Rightarrow> ''brownout'' | RST_SDIO \<Rightarrow> ''sdio'' | RST_USB \<Rightarrow> ''usb'' | RST_JTAG \<Rightarrow> ''jtag''
     | RST_EFUSE \<Rightarrow> ''efuse error'' | RST_PWR_GLITCH \<Rightarrow> ''power glitch''
     | RST_CPU_LOCKUP \<Rightarrow> ''cpu lockup'' | RST_UNKNOWN \<Rightarrow> ''unknown'')"

definition reset_reason_is_crash :: "reset_reason \<Rightarrow> bool" where
  "reset_reason_is_crash r \<longleftrightarrow>
     r \<in> {RST_PANIC, RST_INT_WDT, RST_TASK_WDT, RST_WDT, RST_CPU_LOCKUP}"

definition reset_reason_is_abnormal :: "reset_reason \<Rightarrow> bool" where
  "reset_reason_is_abnormal r \<longleftrightarrow>
     r \<in> {RST_PANIC, RST_INT_WDT, RST_TASK_WDT, RST_WDT, RST_BROWNOUT, RST_EFUSE, RST_PWR_GLITCH,
          RST_CPU_LOCKUP}"

definition reset_log_display_name :: "entry \<Rightarrow> string" where
  "reset_log_display_name e =
     (if e_slot e = [] then e_name e else e_name e @ '' ('' @ e_slot e @ '')'')"

text \<open>The USB serial number: the factory MAC in hexadecimal, or a fixed one when it cannot be read.\<close>

definition usb_serial_number :: "bytes option \<Rightarrow> string" where
  "usb_serial_number mac = (case mac of None \<Rightarrow> ''000000000001'' | Some m \<Rightarrow> desc_to_hex m)"

definition make_diagnostics :: "('j, 'e) dev \<Rightarrow> diagnostics" where
  "make_diagnostics d =
     \<lparr>dg_fault = ss_fault (dv_status d), dg_first_fault = ss_first_fault (dv_status d),
      dg_fault_count = ss_count (dv_status d), dg_boot_count = boot_count (dv_log d),
      dg_resets = map (\<lambda>e. \<lparr>ri_boot = e_boot e, ri_reason = word_of_int (max 0 (min (e_reason e) 255)),
                           ri_abnormal = e_abnormal e, ri_name = reset_log_display_name e\<rparr>)
                    (log_entries (dv_log d)),
      dg_calibration_state = (if dv_needs_calibration d then CALIBRATION_NEEDED else CALIBRATION_USABLE)\<rparr>"

section \<open>The wiring of the console links\<close>

definition count_hold :: "bool \<Rightarrow> ('o, 'j, 'e) device_world \<Rightarrow> ('o, 'j, 'e) device_world" where
  "count_hold b = on_dev (\<lambda>d. d\<lparr>dv_holds := dv_holds d + (if b then 1 else - 1)\<rparr>)"

definition start_calibration ::
  "('o, 'j, 'e) board \<Rightarrow> ('o, 'j, 'e) device_world \<Rightarrow> error_code option \<times> ('o, 'j, 'e) device_world" where
  "start_calibration B w =
     (case gate_request (dv_gate (wd_env w)) of (ok, g) \<Rightarrow>
        (if ok then None else Some (errc_code (b_codec B) Device_or_resource_busy),
         on_dev (\<lambda>d. d\<lparr>dv_gate := g\<rparr>) w))"

datatype link = Vendor | Cdc

definition device_wiring :: "('o, 'j, 'e) board \<Rightarrow> link \<Rightarrow> ('o, ('j, 'e) dev) wiring" where
  "device_wiring B l =
     \<lparr>w_module = kModule, w_ota = Some (b_ops B),
      w_send = Some (\<lambda>frame. on_ext ((case l of Vendor \<Rightarrow> b_vendor B | Cdc \<Rightarrow> b_cdc B) frame)),
      w_start_calibration = Some (start_calibration B), w_restart = True,
      w_diagnostics = Some (\<lambda>w. make_diagnostics (wd_env w)),
      w_output_hold = Some count_hold, w_fired = fire B, w_saved = device_save B,
      w_reboot = (\<lambda>a. on_dev (\<lambda>d. d\<lparr>dv_reboots := dv_reboots d @ [a]\<rparr>))\<rparr>"

end
