(* ===== verification/Device_Loop.thy ===== *)
theory Device_Loop
  imports Device
begin

text \<open>
  The rest of \<open>main/main.cpp\<close>: \<open>EspPorts\<close> on the device's world, one iteration of the polling loop,
  the boot sequence, and the interpretations that give the control loop's and the service's contracts
  on them.
\<close>

section \<open>EspPorts\<close>

text \<open>The joystick's read callback, and \<open>read_stick\<close>, which runs it through \<open>Joystick::update\<close>.\<close>

definition read_callback ::
  "('o, 'j, 'e) board \<Rightarrow> ('o, 'j, 'e) device_world \<Rightarrow> (f32 \<times> f32) option \<times> ('o, 'j, 'e) device_world" where
  "read_callback B w =
     (case on_ext (read_magnetic (b_bus B) (dv_tmag (wd_env w))) w of
        (None, w1) \<Rightarrow> (None, on_dev (\<lambda>d. d\<lparr>dv_read_ok := False, dv_conversions := 0\<rparr>) w1)
      | (Some m, w1) \<Rightarrow>
          (Some (mag_x m, mag_y m),
           on_dev (\<lambda>d. d\<lparr>dv_read_ok := True, dv_conversions := mag_count m\<rparr>) w1))"

definition esp_read_stick ::
  "('o, 'j, 'e) board \<Rightarrow> ('o, 'j, 'e) device_world \<Rightarrow> stick_sample \<times> ('o, 'j, 'e) device_world" where
  "esp_read_stick B w =
     (case read_callback B w of (v, w1) \<Rightarrow>
        let w2 = on_dev (\<lambda>d. d\<lparr>dv_joystick := js_update B v (dv_joystick d)\<rparr>) w1; d = wd_env w2 in
        (\<lparr>st_x = fst (js_position B (dv_joystick d)), st_y = snd (js_position B (dv_joystick d)),
          raw_x = fst (js_raw B (dv_joystick d)), raw_y = snd (js_raw B (dv_joystick d)),
          read_ok = dv_read_ok d, conversion_count = Some (dv_conversions d)\<rparr>, w2))"

text \<open>The sensor as \<open>run_sweep\<close> wires it to a fresh \<open>OmegaCalibration\<close>.\<close>

definition sweep_io :: "('o, 'j, 'e) board \<Rightarrow> ('o, 'j, 'e) device_world cal_io" where
  "sweep_io B = \<lparr>cal_read = (\<lambda>w. case on_ext (read_magnetic (b_bus B) (dv_tmag (wd_env w))) w of (m, w1) \<Rightarrow>
       (map_option (\<lambda>m. (mag_x m, mag_y m)) m, w1)),
     cal_message = (\<lambda>t w. w),
     cal_sleep = (\<lambda>t w. snd (on_ext (\<lambda>e. ((), b_sleep B t e)) w))\<rparr>"

definition measure_sweep ::
  "('o, 'j, 'e) board \<Rightarrow> ('o, 'j, 'e) device_world
     \<Rightarrow> (cal_error abort + center_result \<times> range_result) \<times> ('o, 'j, 'e) device_world" where
  "measure_sweep B w =
     (case center_calibration (sweep_io B) init_center w of
        (Inl e, w1) \<Rightarrow> (Inl e, w1)
      | (Inr c, w1) \<Rightarrow>
          (case range_calibration (sweep_io B) (b_atan2 B) c init_range w1 of
             (Inl e, w2) \<Rightarrow> (Inl e, w2)
           | (Inr r, w2) \<Rightarrow> (Inr (c, r), w2)))"

definition notify_both ::
  "('o, 'j, 'e) board \<Rightarrow> error_code option \<Rightarrow> ('o, 'j, 'e) device_world \<Rightarrow> ('o, 'j, 'e) device_world" where
  "notify_both B failure w =
     notify_calibration_result (b_codec B) (device_wiring B Cdc) failure
       (notify_calibration_result (b_codec B) (device_wiring B Vendor) failure w)"

definition finish_sweep ::
  "('o, 'j, 'e) board \<Rightarrow> center_result \<Rightarrow> range_result \<Rightarrow> ('o, 'j, 'e) device_world
     \<Rightarrow> center_result \<times> ('o, 'j, 'e) device_world" where
  "finish_sweep B c r w =
     (let w1 = update_store B (set_measured_calibration (finalize_center_deadzone c r) r) w;
          ctr = st_center (wd_store w1);
          w2 = snd (device_save B w1);
          w3 = on_dev (\<lambda>d. d\<lparr>dv_needs_calibration := False\<rparr>) w2 in
      (ctr, notify_both B None w3))"

definition esp_run_sweep ::
  "('o, 'j, 'e) board \<Rightarrow> center_result \<Rightarrow> range_result \<Rightarrow> ('o, 'j, 'e) device_world
     \<Rightarrow> ((bool \<times> center_result \<times> range_result) \<times> ('o, 'j, 'e) device_world) option" where
  "esp_run_sweep B ctr rng w =
     (case measure_sweep B w of
        (Inl Undefined_behaviour, w1) \<Rightarrow> None
      | (Inl (Reported e), w1) \<Rightarrow>
          Some ((False, ctr, rng), notify_both B (Some (cal_error_code e)) w1)
      | (Inr (c, r), w1) \<Rightarrow> (case finish_sweep B c r w1 of (c', w2) \<Rightarrow> Some ((True, c', r), w2)))"

definition esp_apply_drift ::
  "('o, 'j, 'e) board \<Rightarrow> center_result \<Rightarrow> range_result \<Rightarrow> ('o, 'j, 'e) device_world
     \<Rightarrow> center_result \<times> ('o, 'j, 'e) device_world" where
  "esp_apply_drift B c r w =
     (let w1 = update_store B (set_measured_calibration c r) w; st = wd_store w1 in
      (st_center st,
       on_dev (\<lambda>d. d\<lparr>dv_joystick := js_set_calibration B
         (apply_calibration_with (st_center st) r (st_settings st)) (dv_joystick d)\<rparr>) w1))"

definition send_hid :: "hid_report \<Rightarrow> ('o, 'j, 'e) device_world \<Rightarrow> ('o, 'j, 'e) device_world" where
  "send_hid r = on_dev (\<lambda>d. d\<lparr>dv_hid := dv_hid d @ [r]\<rparr>)"

definition esp_ports :: "('o, 'j, 'e) board \<Rightarrow> ('o, 'j, 'e) device_world ports" where
  "esp_ports B =
     \<lparr>send_mouse = (\<lambda>m. send_hid (Mouse_sent (mouse_hid_of m))),
      send_xac = (\<lambda>x. send_hid (Xac_sent (xac_hid_of x))),
      run_sweep = esp_run_sweep B,
      save_to_flash = (\<lambda>w. snd (device_save B w)),
      apply_drift = esp_apply_drift B,
      read_stick = esp_read_stick B,
      ports_now = on_ext (b_now B),
      sensor_fault_changed = (\<lambda>b f n. on_dev (\<lambda>d. d\<lparr>dv_status := publish b f n (dv_status d)\<rparr>)),
      sensor_observed_healthy = on_dev (\<lambda>d. d\<lparr>dv_status := observed_healthy (dv_status d)\<rparr>)\<rparr>"

section \<open>What the ports leave alone\<close>

lemma on_dev_simps [simp]:
  "wd_store (on_dev f w) = wd_store w" "wd_ota (on_dev f w) = wd_ota w" "wd_env (on_dev f w) = f (wd_env w)"
  by (simp_all add: on_dev_def)

lemma on_ext_frame:
  "on_ext f w = (r, w') \<Longrightarrow> wd_store w' = wd_store w \<and> wd_ota w' = wd_ota w \<and>
   dv_hid (wd_env w') = dv_hid (wd_env w) \<and> dv_holds (wd_env w') = dv_holds (wd_env w) \<and>
   dv_gate (wd_env w') = dv_gate (wd_env w) \<and> dv_needs_calibration (wd_env w') = dv_needs_calibration (wd_env w)"
  by (auto simp: on_ext_def split: prod.splits)

text \<open>\<open>quiet w w'\<close>: nothing reached the HID endpoint, and the engine, the holds and the gate are as
  they were.\<close>

definition quiet :: "('o, 'j, 'e) device_world \<Rightarrow> ('o, 'j, 'e) device_world \<Rightarrow> bool" where
  "quiet w w' \<longleftrightarrow> wd_ota w' = wd_ota w \<and> dv_hid (wd_env w') = dv_hid (wd_env w) \<and>
     dv_holds (wd_env w') = dv_holds (wd_env w) \<and> dv_gate (wd_env w') = dv_gate (wd_env w)"

lemma quiet_refl [simp]: "quiet w w"
  by (simp add: quiet_def)

lemma quiet_trans: "quiet w w' \<Longrightarrow> quiet w' w'' \<Longrightarrow> quiet w w''"
  by (simp add: quiet_def)

lemma on_ext_quiet: "on_ext f w = (r, w') \<Longrightarrow> quiet w w' \<and> wd_store w' = wd_store w"
  using on_ext_frame [of f w r w'] by (simp add: quiet_def)

lemma device_save_frame:
  "device_save B w = (e, w') \<Longrightarrow> quiet w w' \<and> wd_store w' = wd_store w \<and>
   dv_needs_calibration (wd_env w') = dv_needs_calibration (wd_env w)"
  by (auto simp: device_save_def Let_def quiet_def dest!: on_ext_frame split: prod.splits if_splits)

lemma fire_one_frame: "quiet w (fire_one B ev w) \<and> wd_store (fire_one B ev w) = wd_store w"
proof (cases ev)
  case (Mode_changed m)
  obtain e w1 where s: "device_save B w = (e, w1)" by fastforce
  obtain w2 where x: "on_ext (\<lambda>e. ((), b_sleep B REPLY_FLUSH_DELAY e)) w1 = ((), w2)"
    by (cases "on_ext (\<lambda>e. ((), b_sleep B REPLY_FLUSH_DELAY e)) w1") auto
  show ?thesis using Mode_changed device_save_frame [OF s] on_ext_frame [OF x]
    by (simp add: fire_one_def s x quiet_def)
qed (simp add: fire_one_def reapply_def Let_def quiet_def)

lemma fire_frame: "quiet w (fire B es w) \<and> wd_store (fire B es w) = wd_store w"
proof (induction es arbitrary: w)
  case (Cons ev es)
  show ?case using Cons [of "fire_one B ev w"] fire_one_frame [of w B ev] quiet_trans
    by (auto simp: fire_def)
qed (simp add: fire_def)

lemma fire_one_needs: "dv_needs_calibration (wd_env (fire_one B ev w)) = dv_needs_calibration (wd_env w)"
proof (cases ev)
  case (Mode_changed m)
  show ?thesis
    using device_save_frame [OF prod.collapse [symmetric], where B = B and w = w]
      on_ext_frame [OF prod.collapse [symmetric], where f = "\<lambda>e. ((), b_sleep B REPLY_FLUSH_DELAY e)"
        and w = "snd (device_save B w)"]
    by (simp add: Mode_changed fire_one_def)
qed (simp add: fire_one_def reapply_def Let_def)

lemma fire_needs: "dv_needs_calibration (wd_env (fire B es w)) = dv_needs_calibration (wd_env w)"
  by (induction es arbitrary: w) (simp_all add: fire_def fire_one_needs)

lemma update_store_frame:
  "quiet w (update_store B f w) \<and> wd_store (update_store B f w) = snd (f (wd_store w))"
  using fire_frame [of "w\<lparr>wd_store := snd (f (wd_store w))\<rparr>" B "fst (f (wd_store w))"]
  by (auto simp: update_store_def quiet_def split: prod.splits)

lemma device_send_frame:
  "send (device_wiring B l) fr w = (q, w') \<Longrightarrow> quiet w w' \<and> wd_store w' = wd_store w \<and>
   dv_needs_calibration (wd_env w') = dv_needs_calibration (wd_env w)"
  by (auto simp: send_def device_wiring_def quiet_def dest!: on_ext_frame split: if_splits)

lemma notify_frame:
  "quiet w (notify_both B f w) \<and> wd_store (notify_both B f w) = wd_store w \<and>
   dv_needs_calibration (wd_env (notify_both B f w)) = dv_needs_calibration (wd_env w)"
proof -
  have one: "quiet w (notify_calibration_result C (device_wiring B l) f w) \<and>
    wd_store (notify_calibration_result C (device_wiring B l) f w) = wd_store w \<and>
    dv_needs_calibration (wd_env (notify_calibration_result C (device_wiring B l) f w)) =
      dv_needs_calibration (wd_env w)" for C l w
    unfolding notify_calibration_result_def
    using device_send_frame [OF prod.collapse [symmetric]] by blast
  show ?thesis unfolding notify_both_def
    using one [where l = Vendor and w = w] one [where l = Cdc] quiet_trans by metis
qed

text \<open>A sweep only reads, waits and prints: any part of the world those keep, it keeps.\<close>

lemma sample_loop_keeps:
  assumes "\<And>w. f (snd (cal_read io w)) = f w" "\<And>t w. f (cal_sleep io t w) = f w"
  shows "f (snd (sample_loop io body n fx fy s w)) = f w"
  using assms
proof (induction n arbitrary: fx fy s w)
  case (Suc n)
  have "f (snd (cal_read io w)) = f w" by (rule Suc.prems(1))
  then show ?case using Suc.IH [OF Suc.prems] Suc.prems(2)
    by (auto simp: Let_def case_prod_beta split: prod.splits option.splits)
qed simp

lemma center_calibration_keeps:
  assumes "\<And>w. f (snd (cal_read io w)) = f w" "\<And>t w. f (cal_sleep io t w) = f w"
    "\<And>t w. f (cal_message io t w) = f w"
  shows "f (snd (center_calibration io c w)) = f w"
  by (auto simp add: center_calibration_def Let_def assms(2,3) case_prod_beta
      sample_loop_keeps [of f io, OF assms(1,2)] split: option.split)

lemma range_calibration_keeps:
  assumes "\<And>w. f (snd (cal_read io w)) = f w" "\<And>t w. f (cal_sleep io t w) = f w"
    "\<And>t w. f (cal_message io t w) = f w"
  shows "f (snd (range_calibration io at2 c r w)) = f w"
  by (auto simp add: range_calibration_def Let_def assms(2,3) case_prod_beta
      sample_loop_keeps [of f io, OF assms(1,2)] split: option.split)

lemma sweep_io_keeps:
  fixes f :: "('o, 'j, 'e) device_world \<Rightarrow> 'p"
  assumes "\<And>e w. f (on_dev (\<lambda>d. d\<lparr>dv_ext := e\<rparr>) w) = f w"
  shows "f (snd (cal_read (sweep_io B) w)) = f w" "f (cal_sleep (sweep_io B) t w) = f w"
    "f (cal_message (sweep_io B) m w) = f w"
  using assms by (simp_all add: sweep_io_def on_ext_def case_prod_beta)

lemma measure_sweep_keeps:
  fixes f :: "('o, 'j, 'e) device_world \<Rightarrow> 'p"
  assumes "\<And>e w. f (on_dev (\<lambda>d. d\<lparr>dv_ext := e\<rparr>) w) = f w"
  shows "f (snd (measure_sweep B w)) = f w"
  using center_calibration_keeps [of f "sweep_io B", OF sweep_io_keeps [OF assms]]
    range_calibration_keeps [of f "sweep_io B", OF sweep_io_keeps [OF assms]]
  by (auto simp: measure_sweep_def case_prod_beta split: sum.splits)

lemma measure_sweep_frame:
  "measure_sweep B w = (r, w') \<Longrightarrow> quiet w w' \<and> wd_store w' = wd_store w \<and>
   dv_needs_calibration (wd_env w') = dv_needs_calibration (wd_env w)"
  using measure_sweep_keeps [of wd_store B w] measure_sweep_keeps [of wd_ota B w]
    measure_sweep_keeps [of "\<lambda>w. dv_hid (wd_env w)" B w]
    measure_sweep_keeps [of "\<lambda>w. dv_holds (wd_env w)" B w]
    measure_sweep_keeps [of "\<lambda>w. dv_gate (wd_env w)" B w]
    measure_sweep_keeps [of "\<lambda>w. dv_needs_calibration (wd_env w)" B w]
  by (simp add: quiet_def)

lemma finish_sweep_frame:
  assumes "finish_sweep B c r w = (c', w')"
  shows "quiet w w' \<and> wd_store w' = snd (set_measured_calibration (finalize_center_deadzone c r) r (wd_store w)) \<and>
    c' = st_center (wd_store w') \<and> \<not> dv_needs_calibration (wd_env w')"
proof -
  define w1 where "w1 = update_store B (set_measured_calibration (finalize_center_deadzone c r) r) w"
  obtain e w2 where s: "device_save B w1 = (e, w2)" by fastforce
  define w3 where "w3 = on_dev (\<lambda>d. d\<lparr>dv_needs_calibration := False\<rparr>) w2"
  have w': "w' = notify_both B None w3" "c' = st_center (wd_store w1)"
    using assms by (simp_all add: finish_sweep_def Let_def w1_def [symmetric] s w3_def)
  have "quiet w2 w3" by (simp add: w3_def quiet_def)
  then have "quiet w w'"
    using w' device_save_frame [OF s] update_store_frame [where w = w] notify_frame [where w = w3] quiet_trans w1_def
    by metis
  then show ?thesis
    using w' device_save_frame [OF s] update_store_frame [where w = w and B = B] notify_frame [where w = w3 and B = B and f = None]
    by (simp add: w1_def w3_def)
qed

lemma esp_run_sweep_frame:
  assumes "esp_run_sweep B ctr rng w = Some ((ok, c, r), w')"
  shows "quiet w w' \<and>
    (if ok then c = st_center (wd_store w') \<and> r = st_range (wd_store w') \<and> \<not> dv_needs_calibration (wd_env w') \<and>
       (\<exists>m n. wd_store w' = snd (set_measured_calibration m n (wd_store w)))
     else wd_store w' = wd_store w \<and> c = ctr \<and> r = rng \<and>
       dv_needs_calibration (wd_env w') = dv_needs_calibration (wd_env w))"
proof -
  obtain res w1 where m: "measure_sweep B w = (res, w1)" by fastforce
  note f = measure_sweep_frame [OF m]
  show ?thesis
  proof (cases res)
    case (Inl a)
    then show ?thesis using assms m f notify_frame [where w = w1 and B = B] quiet_trans
      by (auto simp: esp_run_sweep_def split: abort.splits)
  next
    case (Inr cr)
    obtain c0 r0 where cr: "cr = (c0, r0)" by fastforce
    obtain c1 w2 where fs: "finish_sweep B c0 r0 w1 = (c1, w2)" by fastforce
    have e: "ok" "c = c1" "r = r0" "w' = w2"
      using assms m Inr cr fs by (auto simp: esp_run_sweep_def)
    show ?thesis using f finish_sweep_frame [OF fs] quiet_trans e
      by (auto simp: set_measured_calibration_def)
  qed
qed

lemma apply_drift_frame:
  assumes "esp_apply_drift B c r w = (c', w')"
  shows "quiet w w' \<and> c' = st_center (wd_store w') \<and> r = st_range (wd_store w') \<and>
    wd_store w' = snd (set_measured_calibration c r (wd_store w))"
  using assms update_store_frame [where w = w and B = B and f = "set_measured_calibration c r"]
  by (auto simp: esp_apply_drift_def Let_def quiet_def set_measured_calibration_def)

lemma read_stick_frame: "esp_read_stick B w = (st, w') \<Longrightarrow> quiet w w' \<and> wd_store w' = wd_store w"
  by (auto simp: esp_read_stick_def read_callback_def Let_def quiet_def dest!: on_ext_frame
      split: prod.splits option.splits)

section \<open>The contracts, interpreted\<close>

definition mouse_log :: "('o, 'j, 'e) device_world \<Rightarrow> mouse_hid list" where
  "mouse_log w = concat (map (\<lambda>r. case r of Mouse_sent m \<Rightarrow> [m] | _ \<Rightarrow> []) (dv_hid (wd_env w)))"

definition xac_log :: "('o, 'j, 'e) device_world \<Rightarrow> (nat \<times> f32) list list" where
  "xac_log w = concat (map (\<lambda>r. case r of Xac_sent x \<Rightarrow> [x] | _ \<Rightarrow> []) (dv_hid (wd_env w)))"

lemma quiet_logs: "quiet w w' \<Longrightarrow> mouse_log w' = mouse_log w \<and> xac_log w' = xac_log w"
  by (simp add: quiet_def mouse_log_def xac_log_def)

interpretation esp_log: recording_ports "esp_ports B" mouse_log xac_log mouse_hid_of xac_hid_of
  for B :: "('o, 'j, 'e) board"
  by unfold_locales
    (auto simp: esp_ports_def send_hid_def mouse_log_def xac_log_def
      dest!: esp_run_sweep_frame apply_drift_frame read_stick_frame on_ext_quiet
      dest: quiet_logs
      intro: quiet_logs [THEN conjunct1, unfolded mouse_log_def]
        quiet_logs [THEN conjunct2, unfolded xac_log_def]
        device_save_frame [OF prod.collapse [symmetric], THEN conjunct1])

interpretation esp_store: store_ports "esp_ports B" "\<lambda>w. st_center (wd_store w)" "\<lambda>w. st_range (wd_store w)"
  for B :: "('o, 'j, 'e) board"
  by unfold_locales
    (auto simp: esp_ports_def send_hid_def dest!: esp_run_sweep_frame apply_drift_frame read_stick_frame
      on_ext_quiet simp: device_save_frame [OF prod.collapse [symmetric]])

end
