(* ===== verification/Device_Runs.thy ===== *)
theory Device_Runs
  imports Device_Loop
begin

text \<open>
  The device over time: boot, the polling loop and the two console links as steps on one state, on the
  simulator's OTA engine. An iteration of the polling loop and the handling of a frame are one step
  each; console edits land between iterations.
\<close>

section \<open>Boot\<close>

text \<open>The reset log at boot. The board gives the code of the reset reason and what \<open>esp_reset_reason_t\<close>
  a code stands for.\<close>

definition RESET_LOG_ENTRIES :: nat where "RESET_LOG_ENTRIES = 16"

definition log_boot ::
  "(reset_reason \<Rightarrow> int) \<Rightarrow> bool \<Rightarrow> bool \<Rightarrow> save_outcome \<Rightarrow> string \<Rightarrow> reset_reason \<Rightarrow> string \<Rightarrow> files
     \<Rightarrow> reset_log \<times> files" where
  "log_boot code rename_ok open_ok saved path reason slot_label fs =
     (case load_log rename_ok open_ok path RESET_LOG_ENTRIES fs of (ok, l, fs1) \<Rightarrow>
        let l1 = record_reset (code reason) (reset_reason_name reason) (reset_reason_is_abnormal reason)
                   slot_label l in
        (l1, snd (save_log saved path l1 fs1)))"

definition boot_records :: "(int \<Rightarrow> reset_reason) \<Rightarrow> reset_log \<Rightarrow> boot_record list" where
  "boot_records reason_of l =
     map (\<lambda>e. \<lparr>br_slot = e_slot e, br_crash = reset_reason_is_crash (reason_of (e_reason e))\<rparr>) (log_entries l)"

text \<open>The crash-loop handover: whether the device restarts into the other slot, the engine and the
  marker afterwards.\<close>

definition boot_handover ::
  "'o ota_ops \<Rightarrow> boot_record list \<Rightarrow> string \<Rightarrow> bool \<Rightarrow> u32 \<Rightarrow> 'o \<Rightarrow> bool \<times> u32 \<times> 'o" where
  "boot_handover ops boots slot_label power_on marker q =
     (case take_handover_marker marker power_on of (m, marker1) \<Rightarrow>
        case (if handed_over_since_power_on m then (False, q)
              else revert_if_crash_looping ops (crashes_while_running boots slot_label) CRASH_LOOP_RESETS q) of
          (True, q1) \<Rightarrow> (True, HANDOVER_REQUESTED, q1)
        | (False, q1) \<Rightarrow> (False, marker1, snd (accept_after_handover ops (booted_by_handover m) q1)))"

text \<open>D26: what the store and the loop start from, and whether the output stays neutral.\<close>

definition boot_calibration :: "string option \<Rightarrow> store \<Rightarrow> bool \<times> store" where
  "boot_calibration content st =
     (case load_calibration content init_center init_range of
        (None, c, r) \<Rightarrow> (False, snd (set_calibration c r st))
      | (Some e, c, r) \<Rightarrow>
          (if e = Calibration_unusable then (True, snd (set_calibration c r st))
           else (True, snd (set_calibration (Calibration.set_manual_offset init_center f_0 f_0) init_range st))))"

section \<open>One iteration of the polling loop\<close>

definition run_health_check ::
  "'o ota_ops \<Rightarrow> nanos \<Rightarrow> health \<Rightarrow> ('o, 'j, 'e) device_world \<Rightarrow> bool \<times> health \<times> ('o, 'j, 'e) device_world" where
  "run_health_check ops now h w =
     (case health_tick (op_pending ops (wd_ota w)) now h of
        (HOLD_OUTPUT, h1) \<Rightarrow> (False, h1, on_dev (\<lambda>d. d\<lparr>dv_holds := dv_holds d + 1\<rparr>) w)
      | (ROLL_BACK, h1) \<Rightarrow>
          (case rollback_now ops (wd_ota w) of
             (True, q) \<Rightarrow> (True, h1, w\<lparr>wd_ota := q\<rparr>)
           | (False, q) \<Rightarrow> (False, h1, on_dev (\<lambda>d. d\<lparr>dv_holds := dv_holds d - 1\<rparr>) (w\<lparr>wd_ota := q\<rparr>)))
      | (NO_ACTION, h1) \<Rightarrow> (False, h1, w))"

record ('o, 'j, 'e) device =
  de_vendor :: service
  de_cdc :: service
  de_health :: health
  de_mouse :: mouse_state
  de_world :: "('o, 'j, 'e) device_world"

text \<open>The device in mouse mode when the polling loop starts: the store from the two files, no upload,
  no hold. \<open>d\<close> carries the reset log, the files, the joystick and the rest of the board. \<open>None\<close>: the
  settings file made the load undefined.\<close>

definition boot_device ::
  "('o, 'j, 'e) board \<Rightarrow> string option \<Rightarrow> string option \<Rightarrow> nanos \<Rightarrow> 'o \<Rightarrow> ('j, 'e) dev
     \<Rightarrow> ('o, 'j, 'e) device option" where
  "boot_device B cal_file settings_file now q d =
     (case open_store cal_file settings_file of
        Inl e \<Rightarrow> None
      | Inr st \<Rightarrow>
          (case boot_calibration cal_file st of (needs, st1) \<Rightarrow>
             Some \<lparr>de_vendor = init_service, de_cdc = init_service,
               de_health = init_health (op_pending (b_ops B) q) now,
               de_mouse = init_mouse_state\<lparr>ms_common :=
                 (ms_common init_mouse_state)\<lparr>cm_center := st_center st1, cm_range := st_range st1\<rparr>\<rparr>,
               de_world = \<lparr>wd_store = st1, wd_ota = q,
                 wd_env = d\<lparr>dv_holds := 0, dv_gate := Idle, dv_needs_calibration := needs,
                   dv_status := init_status, dv_read_ok := True, dv_conversions := 0, dv_live := True,
                   dv_hid := [], dv_reboots := [], dv_restarted := False\<rparr>\<rparr>\<rparr>))"

text \<open>The input of a tick, as the loop gathers it: the hold, the gate, the stick.\<close>

definition gather_input ::
  "('o, 'j, 'e) board \<Rightarrow> ('o, 'j, 'e) device_world \<Rightarrow> step_input \<times> ('o, 'j, 'e) device_world" where
  "gather_input B w =
     (let hold = (0 < dv_holds (wd_env w));
          (recal, g) = (if hold then (False, dv_gate (wd_env w)) else gate_take (dv_gate (wd_env w)));
          (sample, w1) = esp_read_stick B (on_dev (\<lambda>d. d\<lparr>dv_gate := g\<rparr>) w);
          (t, w2) = on_ext (b_now B) w1 in
      (\<lparr>stick = sample, step_now = t, recalibration_requested = recal, output_hold = hold,
        needs_calibration = dv_needs_calibration (wd_env w2), step_settings = st_settings (wd_store w2)\<rparr>, w2))"

definition finish_gate :: "bool \<Rightarrow> ('o, 'j, 'e) device_world \<Rightarrow> ('o, 'j, 'e) device_world" where
  "finish_gate recal w = (if recal then on_dev (\<lambda>d. d\<lparr>dv_gate := gate_finish (dv_gate d)\<rparr>) w else w)"

text \<open>What both loops do before their tick; \<open>None\<close> when the device restarts. \<open>t1\<close>, \<open>t2\<close>, \<open>t3\<close> are the
  clock readings of the health check and of the two services, \<open>busy1\<close> and \<open>busy2\<close> whether a service is
  handling a frame.\<close>

definition loop_head ::
  "('o, 'j, 'e) board \<Rightarrow> nanos \<Rightarrow> nanos \<Rightarrow> nanos \<Rightarrow> bool \<Rightarrow> bool \<Rightarrow> ('o, 'j, 'e) device
     \<Rightarrow> ('o, 'j, 'e) device option" where
  "loop_head B t1 t2 t3 busy1 busy2 d =
     (case run_health_check (b_ops B) t1 (de_health d) (de_world d) of
        (True, h, w) \<Rightarrow> None
      | (False, h, w) \<Rightarrow>
          (case expire_stale_update (device_wiring B Vendor) OTA_IDLE_TIMEOUT t2 busy1 (de_vendor d, w) of
             (_, v, w1) \<Rightarrow>
               (case expire_stale_update (device_wiring B Cdc) OTA_IDLE_TIMEOUT t3 busy2 (de_cdc d, w1) of
                  (_, c, w2) \<Rightarrow>
                    Some (d\<lparr>de_health := h, de_vendor := v, de_cdc := c, de_world := w2\<rparr>))))"

definition mouse_poll :: "('o, 'j, 'e) board \<Rightarrow> ('o, 'j, 'e) device \<Rightarrow> ('o, 'j, 'e) device option" where
  "mouse_poll B d =
     (case gather_input B (de_world d) of (i, w) \<Rightarrow>
        (case mouse_tick (b_hypot B) (esp_ports B) (de_mouse d) i w of
           None \<Rightarrow> None
         | Some (s, w1) \<Rightarrow>
             Some (d\<lparr>de_mouse := s, de_world := finish_gate (recalibration_requested i) w1\<rparr>)))"

definition xac_poll ::
  "('o, 'j, 'e) board \<Rightarrow> xac_state \<Rightarrow> ('o, 'j, 'e) device_world
     \<Rightarrow> (xac_state \<times> ('o, 'j, 'e) device_world) option" where
  "xac_poll B s w =
     (case gather_input B w of (i, w1) \<Rightarrow>
        map_option (\<lambda>(s', w2). (s', finish_gate (recalibration_requested i) w2))
          (xac_tick (b_hypot B) (esp_ports B) s i w1))"

text \<open>A frame that arrives on one of the two links.\<close>

definition link_frame ::
  "('o, 'j, 'e) board \<Rightarrow> link \<Rightarrow> nanos \<Rightarrow> frame \<Rightarrow> ('o, 'j, 'e) device \<Rightarrow> ('o, 'j, 'e) device" where
  "link_frame B l now f d =
     (case l of
        Vendor \<Rightarrow> (case handle_routed (b_codec B) (device_wiring B Vendor) now f (de_vendor d, de_world d) of
          (v, w) \<Rightarrow> d\<lparr>de_vendor := v, de_world := w\<rparr>)
      | Cdc \<Rightarrow> (case handle_routed (b_codec B) (device_wiring B Cdc) now f (de_cdc d, de_world d) of
          (c, w) \<Rightarrow> d\<lparr>de_cdc := c, de_world := w\<rparr>))"

inductive device_step :: "('o, 'j, 'e) board \<Rightarrow> ('o, 'j, 'e) device \<Rightarrow> ('o, 'j, 'e) device \<Rightarrow> bool"
  for B :: "('o, 'j, 'e) board" where
  Console: "device_step B d (link_frame B l now f d)"
| Head: "loop_head B t1 t2 t3 busy1 busy2 d = Some d' \<Longrightarrow> device_step B d d'"
| Poll: "mouse_poll B d = Some d' \<Longrightarrow> device_step B d d'"

inductive_cases device_stepE: "device_step B d d'"
inductive_simps device_step_iff: "device_step B d d'"

section \<open>The service's contract on the device\<close>

lemma device_wiring_simps [wire_simps]:
  "w_ota (device_wiring B l) = Some (b_ops B)" "w_output_hold (device_wiring B l) = Some count_hold"
  "w_fired (device_wiring B l) = fire B" "w_saved (device_wiring B l) = device_save B"
  "w_start_calibration (device_wiring B l) = Some (start_calibration B)"
  "w_module (device_wiring B l) = kModule" "w_restart (device_wiring B l)"
  by (simp_all add: device_wiring_def)

lemma start_calibration_frame:
  "start_calibration B w = (e, w') \<Longrightarrow> wd_store w' = wd_store w \<and> wd_ota w' = wd_ota w \<and>
   dv_holds (wd_env w') = dv_holds (wd_env w)"
  by (auto simp: start_calibration_def split: prod.splits)

interpretation sim_wired: wired_service sim_ops "device_wiring (B\<lparr>b_ops := sim_ops\<rparr>) l"
  for B :: "(sim_ota, 'j, 'e) board" and l :: link
proof (unfold_locales, goal_cases)
  case 1
  then show ?case by (simp add: wire_simps)
next
  case (2 f fr w b w')
  then show ?case by (auto simp: device_wiring_def dest: on_ext_frame)
next
  case (3 g w ec w')
  then show ?case by (auto simp: wire_simps dest: start_calibration_frame)
next
  case (4 h b w)
  then show ?case by (auto simp: wire_simps count_hold_def)
next
  case (5 es w)
  then show ?case using fire_frame [where w = w and es = es] by (auto simp: wire_simps quiet_def)
next
  case (6 w ec w')
  then show ?case by (auto simp: wire_simps quiet_def dest: device_save_frame)
next
  case (7 d w)
  then show ?case by (simp add: device_wiring_def)
qed

end
