(* ===== verification/Device_Invariants.thy ===== *)
theory Device_Invariants
  imports Device_Runs
begin

text \<open>
  Invariants of the device: who owns an upload, what the hold counter counts, what the store may
  contain and that the control loop and the store agree. Every step of \<open>device_step\<close> keeps them.
\<close>

section \<open>The contracts of the links on the device\<close>

interpretation sim_counted: hold_counter sim_ops "device_wiring (B\<lparr>b_ops := sim_ops\<rparr>) l"
    "\<lambda>w. dv_holds (wd_env w)"
  for B :: "(sim_ota, 'j, 'e) board" and l :: link
proof (unfold_locales, goal_cases)
  case (4 w q)
  then show ?case by simp
qed (auto simp: wire_simps count_hold_def device_wiring_def quiet_def
    dest!: on_ext_frame start_calibration_frame device_save_frame
    simp: fire_frame [THEN conjunct1, unfolded quiet_def])

interpretation link_store: store_service "device_wiring B l"
  for B :: "('o, 'j, 'e) board" and l :: link
  by unfold_locales
    (auto simp: wire_simps count_hold_def device_wiring_def fire_frame
      dest!: on_ext_frame start_calibration_frame device_save_frame)

text \<open>What no port of the loop touches: settings, engine, holds and the console's trim.\<close>

interpretation esp_keeps: keeping_ports "esp_ports B"
    "\<lambda>w. (st_settings (wd_store w), wd_ota w, dv_holds (wd_env w),
          manual_offset_x (st_center (wd_store w)), manual_offset_y (st_center (wd_store w)))"
  for B :: "('o, 'j, 'e) board"
proof (unfold_locales, goal_cases)
  case (3 c r w res w')
  obtain ok c1 r1 where "res = (ok, c1, r1)" by (cases res) auto
  then show ?case using esp_run_sweep_frame [of B c r w ok c1 r1 w'] 3
    by (auto simp: esp_ports_def quiet_def dest!: measured_frame split: if_splits)
next
  case (5 c r w c' w')
  have fr: "quiet w w'" "wd_store w' = snd (set_measured_calibration c r (wd_store w))"
    using apply_drift_frame [of B c r w c' w', OF 5 [simplified esp_ports_def ports.simps]] by blast+
  from fr(1) measured_frame [OF fr(2)] show ?case by (simp add: quiet_def)
qed (auto simp: esp_ports_def send_hid_def quiet_def
    dest!: read_stick_frame on_ext_frame
    simp: device_save_frame [OF prod.collapse [symmetric], unfolded quiet_def])

section \<open>One link\<close>

text \<open>\<open>link_ok others k cm (s, w)\<close>: seen from a link in state \<open>s\<close>, with \<open>others\<close> whether the other link owns
  the upload, \<open>k\<close> the holds that are not this link's, and \<open>cm\<close> what the control loop works with.\<close>

definition link_ok ::
  "bool \<Rightarrow> int \<Rightarrow> common_state \<Rightarrow> service \<times> (sim_ota, 'j, 'e) device_world \<Rightarrow> bool" where
  "link_ok others k cm sw \<longleftrightarrow>
     (op_active sim_ops (wd_ota (snd sw)) \<longleftrightarrow> ota_owner (fst sw) \<or> others) \<and>
     \<not> (ota_owner (fst sw) \<and> others) \<and> (ota_owner (fst sw) \<longrightarrow> sv_holding (fst sw)) \<and>
     dv_holds (wd_env (snd sw)) = k + of_bool (sv_holding (fst sw)) \<and>
     store_ok (wd_store (snd sw)) \<and>
     measured (st_center (wd_store (snd sw))) = measured (cm_center cm) \<and>
     st_range (wd_store (snd sw)) = cm_range cm"

definition loop_store :: "common_state \<Rightarrow> store \<Rightarrow> bool" where
  "loop_store cm st \<longleftrightarrow> store_ok st \<and> measured (st_center st) = measured (cm_center cm) \<and>
     st_range st = cm_range cm"

lemma loop_store_edits: "link_store.edits_keep (loop_store cm)"
  by (simp add: link_store.edits_keep_def loop_store_def store_ops_ok set_deadzone_override_ok)
    (simp add: store_simps measured_def Calibration.set_manual_offset_def)

lemma link_ok_parts:
  "link_ok others k cm sw \<longleftrightarrow> sim_wired.owns_right others sw \<and>
     sim_counted.slack sw = k \<and> loop_store cm (wd_store (snd sw))"
  by (auto simp: link_ok_def sim_wired.owns_right_def sim_counted.slack_def loop_store_def active_def)

lemma link_ok_steps:
  fixes B :: "(sim_ota, 'j, 'e) board" and sw :: "service \<times> (sim_ota, 'j, 'e) device_world"
  assumes "link_ok others k cm sw" "b_ops B = sim_ops"
  shows "link_ok others k cm (handle_routed C (device_wiring B l) now f sw)"
    and "link_ok others k cm (snd (expire_stale_update (device_wiring B l) mx now busy sw))"
proof -
  have "B = B\<lparr>b_ops := sim_ops\<rparr>" using assms(2) by (cases B) simp
  then obtain B' where B: "B = B'\<lparr>b_ops := sim_ops\<rparr>" by blast
  show "link_ok others k cm (handle_routed C (device_wiring B l) now f sw)"
    using assms(1) unfolding link_ok_parts B
    by (simp add: sim_wired.routed_right sim_counted.routed_slack link_store.routed_edits [OF loop_store_edits])
  show "link_ok others k cm (snd (expire_stale_update (device_wiring B l) mx now busy sw))"
    using assms(1) unfolding link_ok_parts B
    by (simp add: sim_wired.expire_right sim_counted.expire_slack link_store.expire_store)
qed

section \<open>The whole device\<close>

definition device_ok :: "(sim_ota, 'j, 'e) device \<Rightarrow> bool" where
  "device_ok d \<longleftrightarrow>
     link_ok (ota_owner (de_cdc d)) (of_bool (h_holding (de_health d)) + of_bool (sv_holding (de_cdc d)))
       (ms_common (de_mouse d)) (de_vendor d, de_world d) \<and>
     (ota_owner (de_cdc d) \<longrightarrow> sv_holding (de_cdc d))"

text \<open>The same from the other link.\<close>

lemma device_ok_cdc:
  "device_ok d \<longleftrightarrow>
     link_ok (ota_owner (de_vendor d)) (of_bool (h_holding (de_health d)) + of_bool (sv_holding (de_vendor d)))
       (ms_common (de_mouse d)) (de_cdc d, de_world d) \<and>
     (ota_owner (de_vendor d) \<longrightarrow> sv_holding (de_vendor d))"
  by (auto simp: device_ok_def link_ok_def)

lemma link_frame_ok:
  assumes "device_ok d" "b_ops B = sim_ops"
  shows "device_ok (link_frame B l now f d)"
proof (cases l)
  case Vendor
  obtain v w where r: "handle_routed (b_codec B) (device_wiring B Vendor) now f (de_vendor d, de_world d) = (v, w)"
    by fastforce
  have "link_ok (ota_owner (de_cdc d)) (of_bool (h_holding (de_health d)) + of_bool (sv_holding (de_cdc d)))
      (ms_common (de_mouse d)) (v, w)"
    using link_ok_steps(1) [OF _ assms(2)] assms(1) r unfolding device_ok_def by metis
  then show ?thesis using assms(1) by (simp add: Vendor link_frame_def r device_ok_def)
next
  case Cdc
  obtain c w where r: "handle_routed (b_codec B) (device_wiring B Cdc) now f (de_cdc d, de_world d) = (c, w)"
    by fastforce
  have "link_ok (ota_owner (de_vendor d)) (of_bool (h_holding (de_health d)) + of_bool (sv_holding (de_vendor d)))
      (ms_common (de_mouse d)) (c, w)"
    using link_ok_steps(1) [OF _ assms(2)] assms(1) r unfolding device_ok_cdc by metis
  then show ?thesis using assms(1) by (simp add: Cdc link_frame_def r device_ok_cdc)
qed

lemma health_tick_holding:
  assumes "health_tick p now h = (a, h')"
  shows "of_bool (h_holding h') = (of_bool (h_holding h) :: int) +
    (case a of HOLD_OUTPUT \<Rightarrow> 1 | ROLL_BACK \<Rightarrow> - 1 | NO_ACTION \<Rightarrow> 0)"
  using assms by (auto simp: health_tick_def Let_def split: if_splits)

lemma rollback_now_active: "rollback_now sim_ops q = (r, q') \<Longrightarrow> op_active sim_ops q' = op_active sim_ops q"
  by (auto simp: rollback_now_def roll_back_def dest: sim.rollback_keeps split: if_splits prod.splits)

lemma run_health_check_ok:
  assumes "device_ok d" "run_health_check sim_ops now (de_health d) (de_world d) = (False, h, w)"
  shows "device_ok (d\<lparr>de_health := h, de_world := w\<rparr>)"
proof -
  obtain a h1 where t: "health_tick (op_pending sim_ops (wd_ota (de_world d))) now (de_health d) = (a, h1)"
    by fastforce
  have "h = h1" "wd_store w = wd_store (de_world d)"
    "op_active sim_ops (wd_ota w) = op_active sim_ops (wd_ota (de_world d))"
    "dv_holds (wd_env w) - dv_holds (wd_env (de_world d)) = of_bool (h_holding h) - of_bool (h_holding (de_health d))"
    using assms(2) t health_tick_holding [OF t]
    by (auto simp: run_health_check_def dest: rollback_now_active split: health_action.splits prod.splits bool.splits)
  then show ?thesis using assms(1) by (simp add: device_ok_def link_ok_def)
qed

lemma loop_head_ok:
  assumes "device_ok d" "b_ops B = sim_ops" "loop_head B t1 t2 t3 busy1 busy2 d = Some d'"
  shows "device_ok d'"
proof -
  obtain h w where rh: "run_health_check sim_ops t1 (de_health d) (de_world d) = (False, h, w)"
    using assms(2,3) by (auto simp: loop_head_def split: prod.splits bool.splits)
  define d1 where "d1 = d\<lparr>de_health := h, de_world := w\<rparr>"
  have ok1: "device_ok d1" unfolding d1_def by (rule run_health_check_ok [OF assms(1) rh])
  obtain b v w1 where e1: "expire_stale_update (device_wiring B Vendor) OTA_IDLE_TIMEOUT t2 busy1 (de_vendor d1, de_world d1) = (b, v, w1)"
    using prod_cases3 by blast
  define d2 where "d2 = d1\<lparr>de_vendor := v, de_world := w1\<rparr>"
  have "link_ok (ota_owner (de_cdc d1)) (of_bool (h_holding (de_health d1)) + of_bool (sv_holding (de_cdc d1)))
      (ms_common (de_mouse d1)) (v, w1)"
    using link_ok_steps(2) [OF _ assms(2)] ok1 e1 unfolding device_ok_def by (metis snd_conv)
  then have ok2: "device_ok d2" using ok1 by (simp add: d2_def device_ok_def)
  obtain b2 c w2 where e2: "expire_stale_update (device_wiring B Cdc) OTA_IDLE_TIMEOUT t3 busy2 (de_cdc d2, de_world d2) = (b2, c, w2)"
    using prod_cases3 by blast
  have "link_ok (ota_owner (de_vendor d2)) (of_bool (h_holding (de_health d2)) + of_bool (sv_holding (de_vendor d2)))
      (ms_common (de_mouse d2)) (c, w2)"
    using link_ok_steps(2) [OF _ assms(2)] ok2 e2 unfolding device_ok_cdc by (metis snd_conv)
  then have "device_ok (d2\<lparr>de_cdc := c, de_world := w2\<rparr>)" using ok2 by (simp add: device_ok_cdc)
  moreover have "d' = d2\<lparr>de_cdc := c, de_world := w2\<rparr>"
    using assms(2,3) rh e1 e2 by (simp add: loop_head_def d1_def d2_def)
  ultimately show ?thesis by simp
qed

lemma gather_input_frame:
  assumes "gather_input B w = (i, w')"
  shows "wd_store w' = wd_store w" "wd_ota w' = wd_ota w" "dv_holds (wd_env w') = dv_holds (wd_env w)"
    "mouse_log w' = mouse_log w" "xac_log w' = xac_log w"
    "output_hold i \<longleftrightarrow> 0 < dv_holds (wd_env w)"
    "needs_calibration i = dv_needs_calibration (wd_env w')"
    "recalibration_requested i \<longrightarrow> \<not> output_hold i \<and> dv_gate (wd_env w) = Requested"
    "dv_hid (wd_env w') = dv_hid (wd_env w)"
proof -
  define hold where "hold = (0 < dv_holds (wd_env w))"
  obtain rq g where g: "(if hold then (False, dv_gate (wd_env w)) else gate_take (dv_gate (wd_env w))) = (rq, g)"
    by fastforce
  obtain sm w1 where r: "esp_read_stick B (on_dev (\<lambda>d. d\<lparr>dv_gate := g\<rparr>) w) = (sm, w1)" by fastforce
  obtain t w2 where n: "on_ext (b_now B) w1 = (t, w2)" by fastforce
  have e: "w' = w2" "output_hold i = hold" "recalibration_requested i = rq"
    "needs_calibration i = dv_needs_calibration (wd_env w2)"
    using assms g r n by (auto simp: gather_input_def Let_def hold_def)
  note f = read_stick_frame [OF r] on_ext_quiet [OF n]
  have same: "wd_store w' = wd_store w" "wd_ota w' = wd_ota w" "dv_holds (wd_env w') = dv_holds (wd_env w)"
    "dv_hid (wd_env w') = dv_hid (wd_env w)"
    using f by (simp_all add: e(1) quiet_def)
  then show "wd_store w' = wd_store w" "wd_ota w' = wd_ota w" "dv_holds (wd_env w') = dv_holds (wd_env w)"
    "mouse_log w' = mouse_log w" "xac_log w' = xac_log w"
    by (simp_all add: mouse_log_def xac_log_def)
  show "output_hold i \<longleftrightarrow> 0 < dv_holds (wd_env w)"
    "needs_calibration i = dv_needs_calibration (wd_env w')"
    by (simp_all add: e hold_def)
  show "recalibration_requested i \<longrightarrow> \<not> output_hold i \<and> dv_gate (wd_env w) = Requested"
    using g by (simp add: e gate_take_def split: if_splits)
  show "dv_hid (wd_env w') = dv_hid (wd_env w)" by (rule same)
qed

lemma finish_gate_simps [simp]:
  "wd_store (finish_gate b w) = wd_store w" "wd_ota (finish_gate b w) = wd_ota w"
  "dv_holds (wd_env (finish_gate b w)) = dv_holds (wd_env w)"
  "mouse_log (finish_gate b w) = mouse_log w" "xac_log (finish_gate b w) = xac_log w"
  "dv_needs_calibration (wd_env (finish_gate b w)) = dv_needs_calibration (wd_env w)"
  by (simp_all add: finish_gate_def mouse_log_def xac_log_def)

lemma mouse_poll_ok:
  assumes "device_ok d" "mouse_poll B d = Some d'"
  shows "device_ok d'"
proof -
  obtain i w where g: "gather_input B (de_world d) = (i, w)" by fastforce
  obtain s w1 where t: "mouse_tick (b_hypot B) (esp_ports B) (de_mouse d) i w = Some (s, w1)"
    and d': "d' = d\<lparr>de_mouse := s, de_world := finish_gate (recalibration_requested i) w1\<rparr>"
    using assms(2) g by (auto simp: mouse_poll_def split: option.splits)
  note k = esp_keeps.mouse_tick_keeps [OF t, simplified prod.inject] and gf = gather_input_frame [OF g]
  have "esp_store.in_step (ms_common (de_mouse d)) w"
    using assms(1) gf by (simp add: esp_store.in_step_def device_ok_def link_ok_def)
  from esp_store.mouse_tick_in_step [OF t this] show ?thesis
    using assms(1) k gf
    by (simp add: d' esp_store.in_step_def device_ok_def link_ok_def store_ok_def)
qed

lemma device_step_ok: "device_step B d d' \<Longrightarrow> b_ops B = sim_ops \<Longrightarrow> device_ok d \<Longrightarrow> device_ok d'"
  by (induction rule: device_step.induct) (blast intro: link_frame_ok loop_head_ok mouse_poll_ok)+

lemma device_steps_ok: "(device_step B)\<^sup>*\<^sup>* d d' \<Longrightarrow> b_ops B = sim_ops \<Longrightarrow> device_ok d \<Longrightarrow> device_ok d'"
  by (induction rule: rtranclp_induct) (auto intro: device_step_ok)

lemma boot_device_ok:
  assumes "boot_device B cal settings now q e = Some d" "\<not> op_active sim_ops q"
  shows "device_ok d"
proof -
  obtain st needs st1 where o: "open_store cal settings = Inr st" "boot_calibration cal st = (needs, st1)"
    using assms(1) by (auto simp: boot_device_def split: sum.splits prod.splits)
  have "st_settings st1 = st_settings st"
    using o(2) by (auto simp: boot_calibration_def store_simps split: prod.splits option.splits if_splits)
  then have "store_ok st1" using open_store_ok [OF o(1)] by (simp add: store_ok_def)
  then show ?thesis
    using assms o by (auto simp: boot_device_def device_ok_def link_ok_def init_service_def init_health_def)
qed

lemmas reachable_ok = device_steps_ok [OF _ _ boot_device_ok]

end
