(* ===== verification/Service_Payloads.thy ===== *)
theory Service_Payloads
  imports Service_Facts
begin

text \<open>
  The payloads of the console's replies: what they contain, that they fit into a frame, and that an
  edit the device accepted is what \<open>GET_STATE\<close> reports afterwards.
\<close>

section \<open>Floats and sizes\<close>

lemma length_put_f32 [simp, wire_simps]: "length (put_f32 v) = 4"
  by (simp add: put_f32_def)

lemma get_put_f32 [wire_simps]: "get_f32 (pre @ put_f32 v @ rest) (length pre) = v"
proof (rule bit_word_eqI)
  fix n assume "n < LENGTH(32)"
  then consider "n < 8" | "8 \<le> n" "n < 16" | "16 \<le> n" "n < 24" | "24 \<le> n" "n < 32" by fastforce
  then show "bit (get_f32 (pre @ put_f32 v @ rest) (length pre)) n = bit v n"
    by cases (auto simp: get_f32_def put_f32_def nth_append bit_simps)
qed

lemma get_f32_at: "length pre = k \<Longrightarrow> get_f32 (pre @ put_f32 v @ rest) k = v"
  using get_put_f32 by blast

lemma concat_reset_length:
  assumes "\<And>v. length (put_u32 C v) = 4"
  shows "length (concat (map (reset_bytes C) rs)) = sum_list (map (\<lambda>r. 7 + length (name_bytes r)) rs)"
  by (induction rs) (simp_all add: reset_bytes_def assms)

section \<open>Text cut at a character\<close>

lemma utf8_cut_le: "utf8_cut m n \<le> n"
  by (induction n) (simp_all add: le_Suc_eq)

lemma utf8_cut_boundary:
  assumes "n \<le> length m" "utf8_cut m n \<noteq> 0" "utf8_cut m n < length m"
  shows "(m ! utf8_cut m n) AND 0xC0 \<noteq> 0x80"
  using assms by (induction n) (auto split: if_splits)

text \<open>An error reply always fits into a frame: it carries the error number and a prefix of the message that does
  not end inside a UTF-8 sequence.\<close>

theorem error_reply_fits:
  assumes "\<And>v. length (put_u32 C v) = 4" "4 \<le> kMaxPayloadSize C"
    "full = string_bytes (ctxt @ '': '' @ ec_message ec)"
  shows "length (error_payload C ec ctxt) \<le> kMaxPayloadSize C \<and>
    (\<exists>n. error_payload C ec ctxt = put_u32 C (word_of_int (error_number C ec)) @ take n full \<and>
       n \<le> length full \<and> (n = 0 \<or> n = length full \<or> (full ! n) AND 0xC0 \<noteq> 0x80))"
proof -
  define room where "room = kMaxPayloadSize C - 4"
  define n where "n = utf8_cut full (min (length full) room)"
  have n: "n \<le> length full" "n \<le> room"
    using utf8_cut_le [of full "min (length full) room"] by (simp_all add: n_def)
  have "n = 0 \<or> n = length full \<or> (full ! n) AND 0xC0 \<noteq> 0x80"
    using utf8_cut_boundary [of "min (length full) room" full] n(1) by (auto simp: n_def)
  moreover have "error_payload C ec ctxt = put_u32 C (word_of_int (error_number C ec)) @ take n full"
    by (simp add: error_payload_def cut_message_def assms(1,3) n_def room_def Let_def)
  ultimately show ?thesis using n assms(1,2) by (auto simp: room_def)
qed

text \<open>A codec as the frame library documents it: little-endian words, payloads up to 256 bytes.\<close>

definition plain_codec :: codec where
  "plain_codec = \<lparr>put_u32 = put32, get_u32 = le32, build_frame = (\<lambda>r m t p. [m, t] @ p),
     kMaxPayloadSize = 256,
     errc_code = (\<lambda>e. \<lparr>ec_value = 5, ec_generic = True, ec_condition = None, ec_message = ''refused''\<rparr>)\<rparr>"

lemma plain_codec_sizes: "length (put_u32 plain_codec v) = 4" "kMaxPayloadSize plain_codec = 256"
  by (simp_all add: plain_codec_def)

theorem error_reply_fits_witness:
  "length (error_payload plain_codec (errc_code plain_codec Io_error) ''MARK_VALID failed'') \<le> 256"
  using error_reply_fits [OF plain_codec_sizes(1) _ refl, where ctxt = "''MARK_VALID failed''"
      and ec = "errc_code plain_codec Io_error"]
  by (simp add: plain_codec_sizes)

section \<open>Diagnostics\<close>

lemma fitting_spec:
  assumes "used \<le> room" "n \<le> 255"
  obtains k where "fitting room used n rs = n + k" "k \<le> length rs" "n + k \<le> 255"
    "used + sum_list (map (\<lambda>r. 7 + length (name_bytes r)) (take k rs)) \<le> room"
    "k < length rs \<Longrightarrow> n + k < 255 \<Longrightarrow>
     room < used + sum_list (map (\<lambda>r. 7 + length (name_bytes r)) (take (Suc k) rs))"
  using assms
proof (induction rs arbitrary: used n thesis)
  case Nil
  show ?case by (rule Nil.prems(1) [of 0]) (use Nil.prems in simp_all)
next
  case (Cons r rs)
  show ?case
  proof (cases "room < used + (7 + length (name_bytes r)) \<or> 255 < n + 1")
    case True
    show ?thesis
      by (rule Cons.prems(1) [of 0]) (use True Cons.prems in \<open>auto simp: Let_def\<close>)
  next
    case False
    then have f: "fitting room used n (r # rs) = fitting room (used + (7 + length (name_bytes r))) (n + 1) rs"
      by (simp add: Let_def)
    from False obtain k where k: "fitting room (used + (7 + length (name_bytes r))) (n + 1) rs = n + 1 + k"
      "k \<le> length rs" "n + 1 + k \<le> 255"
      "used + (7 + length (name_bytes r)) + sum_list (map (\<lambda>r. 7 + length (name_bytes r)) (take k rs)) \<le> room"
      "k < length rs \<Longrightarrow> n + 1 + k < 255 \<Longrightarrow>
       room < used + (7 + length (name_bytes r)) + sum_list (map (\<lambda>r. 7 + length (name_bytes r)) (take (Suc k) rs))"
      using Cons.IH [of "used + (7 + length (name_bytes r))" "n + 1"] by auto
    show ?thesis
      by (rule Cons.prems(1) [of "Suc k"]) (use f k in \<open>auto simp del: fitting.simps\<close>)
  qed
qed

text \<open>The diagnostics reply always fits into a frame. It lists the newest resets, oldest first, and leaves one out
  only when it would not fit or the count would pass 255.\<close>

theorem diagnostics_keep_the_newest:
  assumes "\<And>v. length (put_u32 C v) = 4" "12 \<le> kMaxPayloadSize C" "p = build_diagnostics_payload C d"
    "m = length (dg_resets d)"
  shows "length p \<le> kMaxPayloadSize C \<and>
    (\<exists>k \<le> m. p = [dg_fault d, dg_first_fault d] @ put_u32 C (dg_fault_count d) @ put_u32 C (dg_boot_count d) @
        [word_of_nat k] @ concat (map (reset_bytes C) (drop (m - k) (dg_resets d))) @ [dg_calibration_state d] \<and>
       k \<le> 255 \<and>
       (k < m \<and> k < 255 \<longrightarrow>
        kMaxPayloadSize C < length p + length (reset_bytes C (dg_resets d ! (m - Suc k)))))"
proof -
  let ?sz = "\<lambda>r. 7 + length (name_bytes r)"
  have h: "length ([dg_fault d, dg_first_fault d] @ put_u32 C (dg_fault_count d) @ put_u32 C (dg_boot_count d)) + 1 + 1 = 12"
    by (simp add: assms(1))
  obtain k where k: "fitting (kMaxPayloadSize C) 12 0 (rev (dg_resets d)) = k" "k \<le> m" "k \<le> 255"
    "12 + sum_list (map ?sz (take k (rev (dg_resets d)))) \<le> kMaxPayloadSize C"
    "k < m \<Longrightarrow> k < 255 \<Longrightarrow> kMaxPayloadSize C < 12 + sum_list (map ?sz (take (Suc k) (rev (dg_resets d))))"
    using fitting_spec [of 12 "kMaxPayloadSize C" 0 "rev (dg_resets d)"] assms(2,4) by auto
  have kept: "sum_list (map ?sz (take j (rev (dg_resets d)))) = sum_list (map ?sz (drop (m - j) (dg_resets d)))" for j
    by (simp add: take_rev assms(4) rev_map [symmetric])
  have p: "p = [dg_fault d, dg_first_fault d] @ put_u32 C (dg_fault_count d) @ put_u32 C (dg_boot_count d) @
      [word_of_nat k] @ concat (map (reset_bytes C) (drop (m - k) (dg_resets d))) @ [dg_calibration_state d]"
    using k(1,2) h by (simp add: assms(3,4) build_diagnostics_payload_def Let_def)
  have len: "length p = 12 + sum_list (map ?sz (drop (m - k) (dg_resets d)))"
    by (simp add: p assms(1) concat_reset_length)
  have "kMaxPayloadSize C < length p + length (reset_bytes C (dg_resets d ! (m - Suc k)))" if "k < m" "k < 255"
  proof -
    have "drop (m - Suc k) (dg_resets d) = dg_resets d ! (m - Suc k) # drop (m - k) (dg_resets d)"
      using that(1) assms(4) Cons_nth_drop_Suc [of "m - Suc k" "dg_resets d"] by (simp add: Suc_diff_Suc)
    then show ?thesis using k(5) [OF that] kept [of "Suc k"] len by (simp add: reset_bytes_def assms(1))
  qed
  then show ?thesis using p len k kept [of k] by auto
qed

theorem diagnostics_keep_the_newest_witness:
  "length (build_diagnostics_payload plain_codec \<lparr>dg_fault = 3, dg_first_fault = 0, dg_fault_count = 0,
     dg_boot_count = 2, dg_resets = [\<lparr>ri_boot = 1, ri_reason = 1, ri_abnormal = False, ri_name = ''power-on''\<rparr>,
       \<lparr>ri_boot = 2, ri_reason = 4, ri_abnormal = True, ri_name = ''panic''\<rparr>],
     dg_calibration_state = CALIBRATION_USABLE\<rparr>) \<le> 256"
  using diagnostics_keep_the_newest [OF plain_codec_sizes(1) _ refl refl] by (simp add: plain_codec_sizes)

section \<open>The state payload\<close>

lemma state_payload_layout:
  assumes "\<And>v. length (put_u32 C v) = 4"
  shows "length (build_state_payload C st) = kStatePayloadSize"
    "get_f32 (build_state_payload C st) 16 = manual_offset_x (st_center st)"
    "get_f32 (build_state_payload C st) 20 = manual_offset_y (st_center st)"
    "build_state_payload C st ! 56 = flag (manual_center_deadzone (st_settings st) \<noteq> None)"
    "get_f32 (build_state_payload C st) 57 = (case manual_center_deadzone (st_settings st) of None \<Rightarrow> f_0 | Some v \<Rightarrow> v)"
    "build_state_payload C st ! 61 = flag (manual_range_deadzone (st_settings st) \<noteq> None)"
    "get_f32 (build_state_payload C st) 62 = (case manual_range_deadzone (st_settings st) of None \<Rightarrow> f_0 | Some v \<Rightarrow> v)"
proof -
  let ?c = "st_center st" and ?r = "st_range st" and ?s = "st_settings st"
  define head where "head = put_f32 (center_x ?c) @ put_f32 (center_y ?c) @ put_f32 (noise_radius ?c)
    @ put_f32 (center_deadzone ?c)"
  define swept where "swept = put_f32 (min_x ?r) @ put_f32 (max_x ?r) @ put_f32 (min_y ?r) @ put_f32 (max_y ?r)
    @ put_f32 (usable_radius ?r) @ put_f32 (reliable_max_radius ?r) @ put_f32 (normalized_max_radius ?r)
    @ put_f32 (range_deadzone ?r)"
  define mid where "mid = head @ put_f32 (manual_offset_x ?c) @ put_f32 (manual_offset_y ?c) @ swept"
  define opt where "opt = (\<lambda>v :: f32 option. flag (v \<noteq> None) # put_f32 (case v of Some x \<Rightarrow> x | None \<Rightarrow> f_0))"
  define tail where "tail = put_f32 (nudge_distance_threshold ?s) @ put_f32 (nudge_exit_threshold ?s)
    @ put_u32 C (word_of_int (nudge_hold_time ?s)) @ [code_of_mode (input_mode ?s), flag (nudge_enabled ?s)]"
  have p: "build_state_payload C st = mid @ opt (manual_center_deadzone ?s) @ opt (manual_range_deadzone ?s) @ tail"
    by (simp add: build_state_payload_def Let_def mid_def head_def swept_def opt_def tail_def)
  have l: "length head = 16" "length swept = 32" "length mid = 56" "\<And>v. length (opt v) = 5" "length tail = 14"
    by (simp_all add: head_def swept_def mid_def opt_def tail_def assms)
  show "length (build_state_payload C st) = kStatePayloadSize" by (simp add: p l kStatePayloadSize_def)
  have "build_state_payload C st = head @ put_f32 (manual_offset_x ?c) @ (put_f32 (manual_offset_y ?c) @ swept @
      opt (manual_center_deadzone ?s) @ opt (manual_range_deadzone ?s) @ tail)"
    by (simp only: p mid_def append_assoc)
  then show "get_f32 (build_state_payload C st) 16 = manual_offset_x ?c"
    using get_f32_at [OF l(1)] by simp
  have e: "build_state_payload C st = (head @ put_f32 (manual_offset_x ?c)) @ put_f32 (manual_offset_y ?c) @
      (swept @ opt (manual_center_deadzone ?s) @ opt (manual_range_deadzone ?s) @ tail)"
    by (simp only: p mid_def append_assoc)
  have "length (head @ put_f32 (manual_offset_x ?c)) = 20" by (simp add: l)
  then show "get_f32 (build_state_payload C st) 20 = manual_offset_y ?c"
    unfolding e by (rule get_f32_at)
  define val where "val = (\<lambda>v :: f32 option. case v of None \<Rightarrow> f_0 | Some x \<Rightarrow> x)"
  let ?m = "manual_center_deadzone ?s" and ?n = "manual_range_deadzone ?s"
  have center: "build_state_payload C st = (mid @ [flag (?m \<noteq> None)]) @ put_f32 (val ?m) @ opt ?n @ tail"
    by (simp add: p opt_def val_def)
  have range: "build_state_payload C st = (mid @ opt ?m @ [flag (?n \<noteq> None)]) @ put_f32 (val ?n) @ tail"
    by (simp add: p opt_def val_def)
  show "build_state_payload C st ! 56 = flag (?m \<noteq> None)" unfolding center by (simp add: nth_append l(3))
  show "get_f32 (build_state_payload C st) 57 = (case ?m of None \<Rightarrow> f_0 | Some v \<Rightarrow> v)"
    unfolding center val_def by (rule get_f32_at) (simp add: l(3))
  show "build_state_payload C st ! 61 = flag (?n \<noteq> None)" unfolding range by (simp add: nth_append l(3,4))
  show "get_f32 (build_state_payload C st) 62 = (case ?n of None \<Rightarrow> f_0 | Some v \<Rightarrow> v)"
    unfolding range val_def by (rule get_f32_at) (simp add: l(3,4))
qed

end
