(* ===== verification/Device_Safety.thy ===== *)
theory Device_Safety
  imports Device_Invariants Service_Payloads
begin

text \<open>
  What the invariants of the device mean for its user: one upload at a time, neutral output while an
  upload runs or a calibration is missing, one crash-loop handover per power-on, limits on what the
  console can set, and agreement of the control loop with the store.
\<close>

section \<open>A board to try things on\<close>

definition demo_board :: "bool \<Rightarrow> (sim_ota, unit, unit) board" where
  "demo_board link_up = \<lparr>b_ops = sim_ops, b_codec = plain_codec,
     b_bus = \<lparr>bus_read = (\<lambda>a n w. (None, w)), bus_write = (\<lambda>a v w. (True, w))\<rparr>,
     b_sleep = (\<lambda>t e. e), b_now = (\<lambda>e. (0, e)), b_write = (\<lambda>p e. (Written, e)),
     b_vendor = (\<lambda>f e. (link_up, e)), b_cdc = (\<lambda>f e. (link_up, e)),
     b_atan2 = (\<lambda>y x. f_0), b_hypot = (\<lambda>x y. f_0), b_calibration_path = ''cal'',
     b_settings_path = ''set'', js_update = (\<lambda>v j. j), js_position = (\<lambda>j. (f_0, f_0)),
     js_raw = (\<lambda>j. (f_0, f_0)), js_set_calibration = (\<lambda>m j. j)\<rparr>"

definition demo_dev :: "(unit, unit) dev" where
  "demo_dev = \<lparr>dv_holds = 0, dv_gate = Idle, dv_needs_calibration = False, dv_status = init_status,
     dv_log = init_log 16, dv_files = (\<lambda>_. None), dv_read_ok = True, dv_conversions = 0, dv_tmag = main_tmag,
     dv_joystick = (), dv_live = True, dv_hid = [], dv_reboots = [], dv_restarted = False, dv_ext = ()\<rparr>"

definition demo_boot :: "(sim_ota, unit, unit) device" where
  "demo_boot = the (boot_device (demo_board True) None None 0 (init_ota (format_flash ''1'')) demo_dev)"

definition begin_frame :: frame where
  "begin_frame = \<lparr>fr_module = kModule, fr_reply = False, fr_type = msg_code OtaBegin,
     fr_payload = put32 4096\<rparr>"

lemma demo_boots:
  "boot_device (demo_board True) None None 0 (init_ota (format_flash ''1'')) demo_dev = Some demo_boot"
proof -
  have "boot_device (demo_board True) None None 0 (init_ota (format_flash ''1'')) demo_dev \<noteq> None"
    by code_simp
  then show ?thesis by (simp add: demo_boot_def)
qed

lemma demo_ops: "b_ops (demo_board up) = sim_ops"
  by (simp add: demo_board_def)

lemma demo_idle: "\<not> op_active sim_ops (init_ota (format_flash ''1''))"
  by (simp add: sim_ops_def init_ota_def)

lemma demo_uploading:
  "op_active sim_ops (wd_ota (de_world (link_frame (demo_board True) Vendor 0 begin_frame demo_boot)))"
  by code_simp

abbreviation demo_begun :: "(sim_ota, unit, unit) device" where
  "demo_begun \<equiv> link_frame (demo_board True) Vendor 0 begin_frame demo_boot"

lemma demo_reaches: "(device_step (demo_board True))\<^sup>*\<^sup>* demo_boot demo_begun"
  by (intro r_into_rtranclp device_step.Console)

lemma demo_held: "0 < dv_holds (wd_env (de_world demo_begun))"
  by code_simp

section \<open>Uploads\<close>

interpretation link_keeps: keeping_service "device_wiring B l"
    "\<lambda>w. (dv_hid (wd_env w), dv_needs_calibration (wd_env w))"
  for B :: "('o, 'j, 'e) board" and l :: link
  by unfold_locales
    (auto simp: wire_simps count_hold_def device_wiring_def quiet_def start_calibration_def
      fire_needs fire_frame [THEN conjunct1, unfolded quiet_def]
      dest!: on_ext_frame device_save_frame split: prod.splits)

text \<open>C3: Over any sequence of console frames and loop iterations after boot, an upload session is open exactly
  when one of the two links owns it, and never both do.\<close>

theorem one_uploader:
  fixes d :: "(sim_ota, 'j, 'e) device"
  assumes "boot_device B cal settings now q e = Some d0" "\<not> op_active sim_ops q"
    "b_ops B = sim_ops" "(device_step B)\<^sup>*\<^sup>* d0 d"
  shows "(op_active sim_ops (wd_ota (de_world d)) \<longleftrightarrow> ota_owner (de_vendor d) \<or> ota_owner (de_cdc d)) \<and>
    \<not> (ota_owner (de_vendor d) \<and> ota_owner (de_cdc d))"
  using reachable_ok [OF assms(4,3,1,2)] by (auto simp: device_ok_def link_ok_def)

theorem one_uploader_witness:
  "\<not> (ota_owner (de_vendor demo_begun) \<and>
      ota_owner (de_cdc demo_begun))"
  using one_uploader [OF demo_boots demo_idle demo_ops demo_reaches]
  by blast

lemma held_poll:
  assumes "0 < dv_holds (wd_env (de_world d))"
  shows "\<exists>d'. mouse_poll B d = Some d' \<and>
    mouse_log (de_world d') = mouse_log (de_world d) @ [new_mouse_hid 3] \<and>
    xac_log (de_world d') = xac_log (de_world d)"
proof -
  obtain i w where g: "gather_input B (de_world d) = (i, w)" by fastforce
  note gf = gather_input_frame [OF g]
  have h: "holds_output i" using gf(6) assms by (simp add: holds_output_def)
  then obtain s w1 where t: "mouse_tick (b_hypot B) (esp_ports B) (de_mouse d) i w = Some (s, w1)"
    by (cases "sensor_fault_update (esp_ports B) (ms_common (de_mouse d)) i w") (auto simp: mouse_tick_def Let_def)
  show ?thesis
    using t g h gf(4,5) esp_log.mouse_tick_reports [OF t]
    by (simp add: mouse_poll_def neutral_hid)
qed

text \<open>C1: While a firmware upload runs, an iteration of the polling loop always completes and sends one neutral
  mouse report and nothing else.\<close>

theorem uploads_hold_the_output:
  fixes d :: "(sim_ota, 'j, 'e) device"
  assumes "boot_device B cal settings now q e = Some d0" "\<not> op_active sim_ops q"
    "b_ops B = sim_ops" "(device_step B)\<^sup>*\<^sup>* d0 d" "op_active sim_ops (wd_ota (de_world d))"
  shows "\<exists>d'. mouse_poll B d = Some d' \<and>
    mouse_log (de_world d') = mouse_log (de_world d) @ [new_mouse_hid 3] \<and>
    xac_log (de_world d') = xac_log (de_world d)"
proof (rule held_poll)
  show "0 < dv_holds (wd_env (de_world d))"
    using reachable_ok [OF assms(4,3,1,2)] assms(5) by (auto simp: device_ok_def link_ok_def)
qed

theorem uploads_hold_the_output_witness:
  "\<exists>d'. mouse_poll (demo_board True) demo_begun = Some d'"
  using uploads_hold_the_output [OF demo_boots demo_idle demo_ops
      demo_reaches demo_uploading] by blast

section \<open>The store\<close>

text \<open>C20: Whatever the settings file held and whatever the console sends, the deadzone overrides in force stay
  within the limits, and the center and range the control loop works with are those of the store, up
  to the console's own trim.\<close>

theorem store_and_loop_agree:
  fixes d :: "(sim_ota, 'j, 'e) device"
  assumes "boot_device B cal settings now q e = Some d0" "\<not> op_active sim_ops q"
    "b_ops B = sim_ops" "(device_step B)\<^sup>*\<^sup>* d0 d"
  shows "store_ok (wd_store (de_world d)) \<and>
    measured (cm_center (ms_common (de_mouse d))) = measured (st_center (wd_store (de_world d))) \<and>
    cm_range (ms_common (de_mouse d)) = st_range (wd_store (de_world d))"
  using reachable_ok [OF assms(4,3,1,2)] by (simp add: device_ok_def link_ok_def)

theorem store_and_loop_agree_witness:
  "store_ok (wd_store (de_world demo_begun))"
  using store_and_loop_agree [OF demo_boots demo_idle demo_ops demo_reaches]
  by blast

text \<open>An iteration of the polling loop, with or without a sweep or a drift correction, leaves the console's
  settings, its manual trim, the update engine and the hold counter as they were.\<close>

theorem polling_keeps_console_settings:
  assumes "mouse_poll B d = Some d'"
  shows "st_settings (wd_store (de_world d')) = st_settings (wd_store (de_world d)) \<and>
    manual_offset_x (st_center (wd_store (de_world d'))) = manual_offset_x (st_center (wd_store (de_world d))) \<and>
    manual_offset_y (st_center (wd_store (de_world d'))) = manual_offset_y (st_center (wd_store (de_world d))) \<and>
    wd_ota (de_world d') = wd_ota (de_world d) \<and>
    dv_holds (wd_env (de_world d')) = dv_holds (wd_env (de_world d))"
proof -
  obtain i w where g: "gather_input B (de_world d) = (i, w)" by fastforce
  obtain s w1 where t: "mouse_tick (b_hypot B) (esp_ports B) (de_mouse d) i w = Some (s, w1)"
    and d': "d' = d\<lparr>de_mouse := s, de_world := finish_gate (recalibration_requested i) w1\<rparr>"
    using assms g by (auto simp: mouse_poll_def split: option.splits)
  show ?thesis
    using esp_keeps.mouse_tick_keeps [OF t, simplified prod.inject] gather_input_frame [OF g] d' by simp
qed

theorem polling_keeps_console_settings_witness:
  "\<exists>d'. mouse_poll (demo_board True) demo_begun = Some d' \<and>
     st_settings (wd_store (de_world d')) = st_settings (wd_store (de_world demo_begun))"
  using held_poll [OF demo_held] polling_keeps_console_settings by metis

section \<open>No calibration, no output\<close>

lemma boot_needs:
  "boot_device B cal settings now q e = Some d \<Longrightarrow>
   dv_needs_calibration (wd_env (de_world d)) \<longleftrightarrow> fst (load_calibration cal init_center init_range) \<noteq> None"
  by (auto simp: boot_device_def boot_calibration_def split: sum.splits prod.splits option.splits if_splits)

lemma gather_needs:
  assumes "gather_input B w = (i, w')"
  shows "dv_needs_calibration (wd_env w') = dv_needs_calibration (wd_env w)"
proof -
  have r: "dv_needs_calibration (wd_env (snd (esp_read_stick B v))) = dv_needs_calibration (wd_env v)" for v
    by (auto simp: esp_read_stick_def read_callback_def Let_def dest!: on_ext_frame
        split: prod.splits option.splits)
  have n: "dv_needs_calibration (wd_env (snd (on_ext (b_now B) v))) = dv_needs_calibration (wd_env v)" for v
    using on_ext_frame [OF prod.collapse [symmetric]] by blast
  have "w' = snd (gather_input B w)" using assms by simp
  then show ?thesis
    by (simp add: gather_input_def Let_def case_prod_beta r n)
qed

text \<open>\<open>swept B st st'\<close>: a sweep on this board measured a calibration that passes the usability test, and storing it,
  with its deadzone, turns the store \<open>st\<close> into \<open>st'\<close>.\<close>

definition swept :: "('o, 'j, 'e) board \<Rightarrow> store \<Rightarrow> store \<Rightarrow> bool" where
  "swept B st st' \<longleftrightarrow> (\<exists>w w1 c r. measure_sweep B w = (Inr (c, r), w1) \<and> check_usable c r f_0 \<and>
     st' = snd (set_measured_calibration (finalize_center_deadzone c r) r st))"

lemma measured_is_usable:
  assumes "measure_sweep B w = (Inr (c, r), w1)"
  shows "check_usable c r f_0"
proof -
  obtain w2 where "range_calibration (sweep_io B) (b_atan2 B) c init_range w2 = (Inr r, w1)"
    using assms by (auto simp: measure_sweep_def split: prod.splits sum.splits)
  from range_calibration_success [OF this] range_result_cases(2) show ?thesis by blast
qed

lemma run_sweep_needs:
  assumes "esp_run_sweep B ctr rng w = Some ((ok, c, r), w')"
  shows "wd_store w' = wd_store w \<and> dv_needs_calibration (wd_env w') = dv_needs_calibration (wd_env w) \<or>
    \<not> dv_needs_calibration (wd_env w') \<and> swept B (wd_store w) (wd_store w')"
proof -
  obtain res w1 where m: "measure_sweep B w = (res, w1)" by fastforce
  note f = measure_sweep_frame [OF m]
  show ?thesis
  proof (cases res)
    case (Inl a)
    then have "\<not> ok" using assms m by (auto simp: esp_run_sweep_def split: abort.splits)
    then show ?thesis using esp_run_sweep_frame [OF assms] by simp
  next
    case (Inr cr)
    obtain c0 r0 c1 w2 where cr: "cr = (c0, r0)" and fs: "finish_sweep B c0 r0 w1 = (c1, w2)" by fastforce
    have "w' = w2" using assms m Inr cr fs by (auto simp: esp_run_sweep_def)
    then have "\<not> dv_needs_calibration (wd_env w') \<and>
        wd_store w' = snd (set_measured_calibration (finalize_center_deadzone c0 r0) r0 (wd_store w))"
      using finish_sweep_frame [OF fs] f by simp
    then show ?thesis using m measured_is_usable unfolding swept_def Inr cr by blast
  qed
qed

lemma status_port_needs:
  assumes "sensor_fault_update (esp_ports B) cm i w = (e, cm', w')"
  shows "dv_needs_calibration (wd_env w') = dv_needs_calibration (wd_env w) \<and> wd_store w' = wd_store w"
  using assms by (auto simp: sensor_fault_update_def esp_ports_def Let_def split: prod.splits if_splits)

lemma push_drift_needs:
  assumes "push_drift (esp_ports B) out cm w = (cm', w')"
  shows "dv_needs_calibration (wd_env w') = dv_needs_calibration (wd_env w)"
proof -
  have u: "dv_needs_calibration (wd_env (update_store B f v)) = dv_needs_calibration (wd_env v)" for f v
    by (simp add: update_store_def fire_needs split: prod.splits)
  have a: "dv_needs_calibration (wd_env (snd (esp_apply_drift B c r v))) = dv_needs_calibration (wd_env v)" for c r v
    by (simp add: esp_apply_drift_def Let_def u)
  have d: "dv_needs_calibration (wd_env (snd (device_save B v))) = dv_needs_calibration (wd_env v)" for v
    using device_save_frame [OF prod.collapse [symmetric]] by blast
  show ?thesis using assms a d
    by (auto simp: push_drift_def esp_ports_def Let_def split: prod.splits if_splits) (metis snd_conv)+
qed

lemma mouse_tick_needs:
  assumes "mouse_tick hyp (esp_ports B) s i w = Some (s', w')"
  shows "dv_needs_calibration (wd_env w') = dv_needs_calibration (wd_env w) \<or>
    recalibration_requested i \<and> \<not> dv_needs_calibration (wd_env w') \<and> swept B (wd_store w) (wd_store w')"
proof -
  obtain e cm w1 where u: "sensor_fault_update (esp_ports B) (ms_common s) i w = (e, cm, w1)"
    by (cases "sensor_fault_update (esp_ports B) (ms_common s) i w") auto
  have send: "dv_needs_calibration (wd_env (send_mouse (esp_ports B) m v)) = dv_needs_calibration (wd_env v)"
    "wd_store (send_mouse (esp_ports B) m v) = wd_store v" for m v
    by (simp_all add: esp_ports_def send_hid_def)
  from assms u show ?thesis
  proof (cases rule: mouse_tick_cases)
    case quiet
    then show ?thesis using status_port_needs [OF u] by (simp add: send)
  next
    case (sweep s4 ok c r w3 post w4 t w5)
    have k: "dv_needs_calibration (wd_env w5) = dv_needs_calibration (wd_env w3) \<and> wd_store w5 = wd_store w3"
      using sweep(5,6) by (auto simp: esp_ports_def esp_read_stick_def read_callback_def Let_def dest!: on_ext_frame
          split: prod.splits option.splits)
    have "esp_run_sweep B (cm_center cm) (cm_range cm) (send_mouse (esp_ports B) neutral_mouse w1) = Some ((ok, c, r), w3)"
      using sweep(4) by (simp add: esp_ports_def)
    from run_sweep_needs [OF this] k sweep(2,8) status_port_needs [OF u] show ?thesis by (auto simp: send)
  next
    case (step s4 out cm')
    then show ?thesis using status_port_needs [OF u] push_drift_needs [OF step(5)] by (simp add: send)
  qed
qed

lemma mouse_poll_needs:
  assumes "mouse_poll B d = Some d'"
  shows "dv_needs_calibration (wd_env (de_world d')) = dv_needs_calibration (wd_env (de_world d)) \<or>
    \<not> dv_needs_calibration (wd_env (de_world d')) \<and> swept B (wd_store (de_world d)) (wd_store (de_world d'))"
proof -
  obtain i w where g: "gather_input B (de_world d) = (i, w)" by fastforce
  obtain s w1 where t: "mouse_tick (b_hypot B) (esp_ports B) (de_mouse d) i w = Some (s, w1)"
    and d': "d' = d\<lparr>de_mouse := s, de_world := finish_gate (recalibration_requested i) w1\<rparr>"
    using assms g by (auto simp: mouse_poll_def split: option.splits)
  show ?thesis
    using mouse_tick_needs [OF t] gather_needs [OF g] gather_input_frame(1) [OF g] by (auto simp: d')
qed

text \<open>An iteration without a calibration reports neutral, whatever comes of it.\<close>

lemma uncalibrated_poll:
  assumes "mouse_poll B d = Some d'" "dv_needs_calibration (wd_env (de_world d))"
  shows "(\<exists>n. mouse_log (de_world d') = mouse_log (de_world d) @ replicate n (new_mouse_hid 3)) \<and>
    xac_log (de_world d') = xac_log (de_world d)"
proof -
  obtain i w where g: "gather_input B (de_world d) = (i, w)" by fastforce
  obtain s w1 where t: "mouse_tick (b_hypot B) (esp_ports B) (de_mouse d) i w = Some (s, w1)"
    and d': "d' = d\<lparr>de_mouse := s, de_world := finish_gate (recalibration_requested i) w1\<rparr>"
    using assms g by (auto simp: mouse_poll_def split: option.splits)
  note gf = gather_input_frame [OF g] and rep = esp_log.mouse_tick_reports [OF t]
  have n: "\<not> holds_output i \<longrightarrow> recalibration_requested i"
    using gf(7) gather_needs [OF g] assms(2) by (simp add: holds_output_def)
  have "\<exists>n. mouse_log (de_world d') = mouse_log (de_world d) @ replicate n (new_mouse_hid 3)"
  proof (cases "holds_output i")
    case True
    then show ?thesis using rep gf(4) by (intro exI [of _ 1]) (simp add: d' neutral_hid)
  next
    case False
    then show ?thesis using rep gf(4) n by (intro exI [of _ 2]) (simp add: d' neutral_hid numeral_2_eq_2)
  qed
  then show ?thesis using rep gf(5) by (simp add: d')
qed

lemma run_health_check_logs:
  "run_health_check ops now h w = (r, h', w') \<Longrightarrow> dv_hid (wd_env w') = dv_hid (wd_env w) \<and>
   dv_needs_calibration (wd_env w') = dv_needs_calibration (wd_env w)"
  by (auto simp: run_health_check_def split: prod.splits health_action.splits bool.splits)

lemma link_frame_logs:
  "dv_hid (wd_env (de_world (link_frame B l now f d))) = dv_hid (wd_env (de_world d)) \<and>
   dv_needs_calibration (wd_env (de_world (link_frame B l now f d))) = dv_needs_calibration (wd_env (de_world d))"
  using link_keeps.routed_same [where B = B and l = l and C = "b_codec B" and now = now and fr = f
      and sw = "(case l of Vendor \<Rightarrow> de_vendor d | Cdc \<Rightarrow> de_cdc d, de_world d)"]
  by (auto simp: link_frame_def split: link.splits prod.splits)

lemma loop_head_logs:
  assumes "loop_head B t1 t2 t3 busy1 busy2 d = Some d'"
  shows "dv_hid (wd_env (de_world d')) = dv_hid (wd_env (de_world d)) \<and>
    dv_needs_calibration (wd_env (de_world d')) = dv_needs_calibration (wd_env (de_world d))"
  using assms link_keeps.expire_same [where B = B and mx = OTA_IDLE_TIMEOUT]
  by (auto simp: loop_head_def dest!: run_health_check_logs split: prod.splits bool.splits) (metis snd_conv)+

lemma step_needs:
  assumes "device_step B d d'"
  shows "dv_needs_calibration (wd_env (de_world d')) = dv_needs_calibration (wd_env (de_world d)) \<or>
    \<not> dv_needs_calibration (wd_env (de_world d')) \<and> mouse_poll B d = Some d' \<and>
    swept B (wd_store (de_world d)) (wd_store (de_world d'))"
  using assms
proof cases
  case (Console l now f)
  then show ?thesis using link_frame_logs by blast
next
  case (Head t1 t2 t3 busy1 busy2)
  then show ?thesis using loop_head_logs [OF Head] by blast
next
  case Poll
  then show ?thesis using mouse_poll_needs by blast
qed

lemma uncalibrated_step:
  assumes "device_step B d d'" "dv_needs_calibration (wd_env (de_world d))"
  shows "(\<exists>n. mouse_log (de_world d') = mouse_log (de_world d) @ replicate n (new_mouse_hid 3)) \<and>
    xac_log (de_world d') = xac_log (de_world d)"
  using assms(1)
proof cases
  case (Console l now f)
  then show ?thesis using link_frame_logs [of B l now f d]
    by (auto simp: mouse_log_def xac_log_def intro: exI [of _ 0])
next
  case (Head t1 t2 t3 busy1 busy2)
  then show ?thesis using loop_head_logs [OF Head]
    by (auto simp: mouse_log_def xac_log_def intro: exI [of _ 0])
next
  case Poll
  then show ?thesis by (rule uncalibrated_poll [OF _ assms(2)])
qed

text \<open>\<open>only_neutral w\<close>: since the boot the host has received neutral mouse reports and nothing else.\<close>

abbreviation only_neutral :: "('o, 'j, 'e) device_world \<Rightarrow> bool" where
  "only_neutral w \<equiv> (\<exists>n. mouse_log w = replicate n (new_mouse_hid 3)) \<and> xac_log w = []"

lemma uncalibrated_run:
  assumes "(device_step B)\<^sup>*\<^sup>* d0 d" "dv_needs_calibration (wd_env (de_world d0))" "only_neutral (de_world d0)"
  shows "if dv_needs_calibration (wd_env (de_world d)) then only_neutral (de_world d)
    else \<exists>d1 d2. (device_step B)\<^sup>*\<^sup>* d0 d1 \<and> mouse_poll B d1 = Some d2 \<and> (device_step B)\<^sup>*\<^sup>* d2 d \<and>
      only_neutral (de_world d2) \<and> swept B (wd_store (de_world d1)) (wd_store (de_world d2))"
  using assms
proof (induction rule: rtranclp_induct)
  case (step d d')
  show ?case
  proof (cases "dv_needs_calibration (wd_env (de_world d))")
    case True
    have n: "only_neutral (de_world d')"
      using uncalibrated_step [OF step(2) True] step True by (auto simp flip: replicate_add)
    show ?thesis
    proof (cases "dv_needs_calibration (wd_env (de_world d'))")
      case False
      then show ?thesis using step_needs [OF step(2)] True n step(1) by auto
    qed (simp add: n)
  next
    case False
    then show ?thesis using step_needs [OF step(2)] step
      by (auto intro: rtranclp.rtrancl_into_rtrancl)
  qed
qed simp

text \<open>C4: A device that boots without a usable calibration sends neutral reports only, whatever the console sends and
  however the stick moves, until an iteration of the loop runs a sweep that succeeds: that sweep measured a calibration
  which passes the usability test and which is the one in the store. A sweep that fails changes nothing in this.\<close>

theorem quiet_until_calibrated:
  assumes "boot_device B cal settings now q e = Some d0" "fst (load_calibration cal init_center init_range) \<noteq> None"
    "(device_step B)\<^sup>*\<^sup>* d0 d"
  shows "if dv_needs_calibration (wd_env (de_world d)) then only_neutral (de_world d)
    else \<exists>d1 d2. (device_step B)\<^sup>*\<^sup>* d0 d1 \<and> mouse_poll B d1 = Some d2 \<and> (device_step B)\<^sup>*\<^sup>* d2 d \<and>
      only_neutral (de_world d2) \<and> swept B (wd_store (de_world d1)) (wd_store (de_world d2))"
proof (rule uncalibrated_run [OF assms(3)])
  show "dv_needs_calibration (wd_env (de_world d0))" using boot_needs [OF assms(1)] assms(2) by simp
  have "dv_hid (wd_env (de_world d0)) = []"
    using assms(1) by (auto simp: boot_device_def split: sum.splits prod.splits)
  then show "only_neutral (de_world d0)" by (simp add: mouse_log_def xac_log_def)
qed

theorem quiet_until_calibrated_witness: "only_neutral (de_world demo_begun)"
proof -
  have "fst (load_calibration None init_center init_range) \<noteq> None" by code_simp
  moreover have "dv_needs_calibration (wd_env (de_world demo_begun))" by code_simp
  ultimately show ?thesis using quiet_until_calibrated [OF demo_boots _ demo_reaches] by simp
qed

section \<open>Refused edits\<close>

text \<open>C21: A settings message is all or nothing: either the device answers OK, or it answers with an error and neither
  the service nor anything it shares with the rest of the device has changed.\<close>

theorem refused_edit_changes_nothing:
  assumes "handle_request C W now m p sw = (reply, sw')"
    "m \<in> {SetManualOffset, SetDeadzoneOverride, SetNudgeSettings, SetNudgeEnabled, SetInputMode}"
  shows "(\<exists>v. reply = build_ok C W v) \<or> (sw' = sw \<and> (\<exists>t. reply = build_errc C W Invalid_argument t))"
  using assms
  by (auto simp: handle_request_def manual_offset_msg_def deadzone_msg_def nudge_settings_msg_def
      nudge_enabled_msg_def input_mode_msg_def Let_def split: if_splits)

abbreviation demo_sw :: "(sim_ota, (unit, unit) dev) sw" where
  "demo_sw \<equiv> (de_vendor demo_boot, de_world demo_boot)"

theorem refused_edit_changes_nothing_witness:
  "snd (handle_request plain_codec (device_wiring (demo_board True) Vendor) 0 SetNudgeEnabled [2] demo_sw) = demo_sw"
proof -
  obtain r sw' where h: "handle_request plain_codec (device_wiring (demo_board True) Vendor) 0 SetNudgeEnabled [2] demo_sw = (r, sw')"
    by (cases "handle_request plain_codec (device_wiring (demo_board True) Vendor) 0 SetNudgeEnabled [2] demo_sw") blast
  moreover have "\<forall>v. r \<noteq> build_ok plain_codec (device_wiring (demo_board True) Vendor) v"
    using h by (auto simp: handle_request_def nudge_enabled_msg_def build_ok_def build_error_def build_def
        plain_codec_def msg_code_def)
  ultimately show ?thesis using refused_edit_changes_nothing [OF h] by auto
qed

section \<open>Accepted edits\<close>

lemma flag_bits: "(w AND 1 \<noteq> 0) = bit w 0" "(w AND 2 \<noteq> 0) = bit w 1" for w :: u8
  using and_exp_eq_0_iff_not_bit [of w 0] and_exp_eq_0_iff_not_bit [of w 1] by simp_all

text \<open>C22: A message of deadzone overrides that passes the checks (each override present, by its bit of the flags byte, is
  within its limit) is accepted, and a \<open>GET_STATE\<close> that follows answers with a payload of 80 bytes in which each
  override is marked as present exactly when its bit was set, with the value that was sent, bit for bit, or zero.\<close>

theorem overrides_are_reported:
  assumes "\<And>v. length (put_u32 C v) = 4" "length msg = 9"
    "bit (msg ! 0) 0 \<Longrightarrow> override_allowed MAX_CENTER_DEADZONE (get_f32 msg 1)"
    "bit (msg ! 0) 1 \<Longrightarrow> override_allowed MAX_RANGE_DEADZONE (get_f32 msg 5)"
    "handle_request C (device_wiring B l) now SetDeadzoneOverride msg sw = (reply, sw')"
  shows "reply = build_ok C (device_wiring B l) 0 \<and>
    (\<exists>p. handle_request C (device_wiring B l) later GetState query sw' = (build C State_reply p kModule, sw') \<and>
      length p = kStatePayloadSize \<and>
      p ! 56 = flag (bit (msg ! 0) 0) \<and> get_f32 p 57 = (if bit (msg ! 0) 0 then get_f32 msg 1 else f_0) \<and>
      p ! 61 = flag (bit (msg ! 0) 1) \<and> get_f32 p 62 = (if bit (msg ! 0) 1 then get_f32 msg 5 else f_0))"
proof -
  define c where "c = (if bit (msg ! 0) 0 then Some (get_f32 msg 1) else None)"
  define r where "r = (if bit (msg ! 0) 1 then Some (get_f32 msg 5) else None)"
  have e: "reply = build_ok C (device_wiring B l) 0 \<and> sw' = on_store (device_wiring B l) (set_deadzone_override c r) sw"
    using assms(2-5) by (auto simp: handle_request_def deadzone_msg_def Let_def flag_bits c_def r_def)
  then have m: "manual_center_deadzone (st_settings (wd_store (snd sw'))) = c"
    "manual_range_deadzone (st_settings (wd_store (snd sw'))) = r"
    by (simp_all add: store_simps)
  have "handle_request C (device_wiring B l) later GetState query sw' =
      (build C State_reply (build_state_payload C (wd_store (snd sw'))) kModule, sw')"
    by (simp add: handle_request_def wire_simps)
  with e m state_payload_layout(1,4-7) [OF assms(1), of "wd_store (snd sw')"] show ?thesis
    by (auto simp: c_def r_def)
qed

theorem overrides_are_reported_witness:
  "\<exists>p. length p = 80 \<and> p ! 56 = 0 \<and> p ! 61 = 1 \<and> get_f32 p 62 = f_0_05"
proof -
  have a: "override_allowed MAX_RANGE_DEADZONE f_0_05"
    by (simp add: override_allowed_def MAX_RANGE_DEADZONE_def fle_def f32_class_eval f32_literal_defs)
  have g: "get_f32 (2 # put_f32 f_0_1 @ put_f32 f_0_05) 5 = f_0_05"
    using get_f32_at [of "2 # put_f32 f_0_1" 5 f_0_05 "[]"] by simp
  obtain r sw' where h: "handle_request plain_codec (device_wiring (demo_board True) Vendor) 0
      SetDeadzoneOverride (2 # put_f32 f_0_1 @ put_f32 f_0_05) demo_sw = (r, sw')"
    by (cases "handle_request plain_codec (device_wiring (demo_board True) Vendor) 0
      SetDeadzoneOverride (2 # put_f32 f_0_1 @ put_f32 f_0_05) demo_sw") blast
  have b: "\<not> bit (2 :: u8) 0" "bit (2 :: u8) 1" by (simp_all add: bit_simps)
  show ?thesis
    using overrides_are_reported [OF plain_codec_sizes(1) _ _ _ h, where later = 0 and query = "[]"] a b g
    by (auto simp: kStatePayloadSize_def flag_def)
qed

text \<open>A manual trim the device accepts is, bit for bit, what \<open>GET_STATE\<close> reports from then on.\<close>

theorem trim_is_reported:
  assumes "\<And>v. length (put_u32 C v) = 4" "ffin x" "ffin y"
    "handle_request C (device_wiring B l) now SetManualOffset (put_f32 x @ put_f32 y) sw = (reply, sw')"
    "p = build_state_payload C (wd_store (snd sw'))"
  shows "reply = build_ok C (device_wiring B l) 0 \<and> get_f32 p 16 = x \<and> get_f32 p 20 = y"
proof -
  have g: "get_f32 (put_f32 x @ put_f32 y) 0 = x" "get_f32 (put_f32 x @ put_f32 y) 4 = y"
    using get_f32_at [of "[]" 0 x "put_f32 y"] get_f32_at [of "put_f32 x" 4 y "[]"] by simp_all
  have e: "reply = build_ok C (device_wiring B l) 0"
    "sw' = on_store (device_wiring B l) (set_live_offset x y) sw"
    using assms(2-4) g by (auto simp: handle_request_def manual_offset_msg_def Let_def)
  then show ?thesis
    using state_payload_layout(2,3) [OF assms(1)] assms(5)
    by (simp add: store_simps Calibration.set_manual_offset_def)
qed

theorem trim_is_reported_witness: "\<exists>p. get_f32 p 16 = f_1 \<and> get_f32 p 20 = f_0"
proof -
  have a: "ffin f_1" "ffin f_0" by (simp_all add: f32_class_eval f32_literal_defs)
  obtain r sw' where h: "handle_request plain_codec (device_wiring (demo_board True) Vendor) 0
      SetManualOffset (put_f32 f_1 @ put_f32 f_0) demo_sw = (r, sw')"
    by (cases "handle_request plain_codec (device_wiring (demo_board True) Vendor) 0
      SetManualOffset (put_f32 f_1 @ put_f32 f_0) demo_sw") blast
  show ?thesis using trim_is_reported [OF plain_codec_sizes(1) a h refl] by blast
qed

section \<open>Reboots\<close>

text \<open>What a request and a dropped deferred action leave alone: the reboots scheduled so far.\<close>

lemma fire_one_reboots: "dv_reboots (wd_env (fire_one B ev w)) = dv_reboots (wd_env w)"
proof (cases ev)
  case (Mode_changed m)
  have x: "dv_reboots (wd_env (snd (on_ext g v))) = dv_reboots (wd_env v)" for g :: "'c \<Rightarrow> 'd \<times> 'c" and v :: "('a, 'b, 'c) device_world"
    by (simp add: on_ext_def split: prod.splits)
  have "dv_reboots (wd_env (snd (device_save B w))) = dv_reboots (wd_env w)"
    by (auto simp: device_save_def Let_def on_ext_def split: prod.splits)
  then show ?thesis by (simp add: Mode_changed fire_one_def on_ext_def split: prod.splits)
qed (simp add: fire_one_def reapply_def Let_def)

lemma fire_reboots: "dv_reboots (wd_env (fire B es w)) = dv_reboots (wd_env w)"
  by (induction es arbitrary: w) (simp_all add: fire_def fire_one_reboots)

interpretation link_reboots: keeping_requests "device_wiring B l" "\<lambda>w. dv_reboots (wd_env w)"
  for B :: "('o, 'j, 'e) board" and l :: link
  by unfold_locales
    (auto simp: wire_simps count_hold_def device_wiring_def start_calibration_def device_save_def on_ext_def
      fire_reboots Let_def split: prod.splits if_splits)


lemma replies_are_frames:
  assumes "\<And>r m t p. build_frame C r m t p \<noteq> []" "m \<in> set requests"
    "handle_request C W now m p sw = (reply, sw')"
  shows "reply \<noteq> []"
proof -
  have b: "build_ok C W v \<noteq> []" "build_error C W ec t \<noteq> []" "build C k q md \<noteq> []" for v ec t k q md
    by (simp_all add: build_ok_def build_error_def build_def assms(1))
  show ?thesis
  proof (cases m)
    case Revert
    then show ?thesis using assms(3) b
      by (auto simp: handle_request_def revert_msg_def Let_def split: option.splits prod.splits if_splits)
  qed (use assms(2,3) b in \<open>auto simp: requests_def handle_request_def ota_begin_msg_def ota_data_msg_def
      ota_finish_msg_def ota_abort_msg_def mark_valid_msg_def fw_info_msg_def manual_offset_msg_def deadzone_msg_def
      nudge_settings_msg_def nudge_enabled_msg_def input_mode_msg_def restart_msg_def diagnostics_msg_def
      save_msg_def start_calibration_msg_def Let_def split: option.splits prod.splits if_splits\<close>)
qed

lemma request_of_in: "request_of t = Some m \<Longrightarrow> m \<in> set requests"
  by (auto simp: request_of_def find_Some_iff)

text \<open>A frame whose reply the transport refuses schedules no reboot: the deferred action is dropped.\<close>

theorem no_reboot_without_a_reply:
  assumes "\<And>fr e. \<not> fst (b_vendor B fr e)" "\<And>r m t p. build_frame (b_codec B) r m t p \<noteq> []"
    "after_reply (de_vendor d) = None"
  shows "dv_reboots (wd_env (de_world (link_frame B Vendor now f d))) = dv_reboots (wd_env (de_world d))"
proof -
  let ?W = "device_wiring B Vendor" and ?sw = "(de_vendor d, de_world d)"
  obtain handled reply s w where l: "handle_frame_locked (b_codec B) ?W now (fr_type f) (fr_payload f) ?sw = ((handled, reply), s, w)"
    by (metis prod.collapse)
  obtain q w1 where sd: "send ?W reply w = (q, w1)" by fastforce
  have "dv_reboots (wd_env (snd (run_after_reply ?W q (s, w1)))) = dv_reboots (wd_env w1)"
  proof (cases "reply = []")
    case True
    then have "s = de_vendor d" using l replies_are_frames [OF assms(2) request_of_in, where W = ?W and sw = ?sw]
      by (auto simp: handle_frame_locked_def split: option.splits prod.splits)
    then show ?thesis using assms(3) by (simp add: run_after_reply_def)
  next
    case False
    then have "\<not> q" using sd assms(1)
      by (auto simp: send_def device_wiring_def on_ext_def split: prod.splits) (metis fst_conv)
    then show ?thesis using link_reboots.dropped_same [where B = B and l = Vendor and sw = "(s, w1)"] by simp
  qed
  moreover have "dv_reboots (wd_env w1) = dv_reboots (wd_env (de_world d))"
    using link_reboots.locked_same [OF l] link_reboots.sent_same [OF sd] by simp
  ultimately show ?thesis
    using l sd by (auto simp: link_frame_def handle_routed_def handle_frame_def split: prod.splits)
qed

definition restart_frame :: frame where
  "restart_frame = \<lparr>fr_module = kModule, fr_reply = False, fr_type = msg_code Restart_device, fr_payload = []\<rparr>"

theorem no_reboot_without_a_reply_witness:
  "dv_reboots (wd_env (de_world (link_frame (demo_board False) Vendor 0 restart_frame demo_boot))) = []"
proof -
  have "dv_reboots (wd_env (de_world demo_boot)) = []" "after_reply (de_vendor demo_boot) = None" by code_simp+
  then show ?thesis
    using no_reboot_without_a_reply [of "demo_board False" demo_boot 0 restart_frame]
    by (simp add: demo_board_def plain_codec_def)
qed

text \<open>A second deferred request whose reply is refused takes away the output hold of a reboot that is already
  scheduled: the reboot stays, the hold it relied on does not.\<close>

theorem dropped_reply_lifts_reboot_hold:
  assumes "\<And>fr e. \<not> fst (b_vendor B fr e)" "\<And>r m t p. build_frame (b_codec B) r m t p \<noteq> []"
    "sv_holding (de_vendor d)" "\<not> ota_owner (de_vendor d)" "d' = link_frame B Vendor now restart_frame d"
  shows "\<not> sv_holding (de_vendor d') \<and> dv_holds (wd_env (de_world d')) = dv_holds (wd_env (de_world d)) - 1 \<and>
    dv_reboots (wd_env (de_world d')) = dv_reboots (wd_env (de_world d))"
proof -
  let ?W = "device_wiring B Vendor" and ?s = "(de_vendor d)\<lparr>after_reply := Some Reboot_device\<rparr>"
  have "request_of (msg_code Restart_device) = Some Restart_device" by code_simp
  then have l: "handle_frame_locked (b_codec B) ?W now (msg_code Restart_device) [] (de_vendor d, de_world d) =
      ((True, build_ok (b_codec B) ?W 0), ?s, de_world d)"
    using assms(3) by (simp add: handle_frame_locked_def handle_request_def restart_msg_def wire_simps
        hold_output_def deferring_def)
  obtain q e where v: "b_vendor B (build_ok (b_codec B) ?W 0) (dv_ext (wd_env (de_world d))) = (q, e)" by fastforce
  then have "\<not> q" using assms(1) by (metis fst_conv)
  moreover have "build_ok (b_codec B) ?W 0 \<noteq> []" by (simp add: build_ok_def build_def assms(2))
  ultimately have sd: "send ?W (build_ok (b_codec B) ?W 0) (de_world d) =
      (False, on_dev (\<lambda>d. d\<lparr>dv_ext := e\<rparr>) (de_world d))"
    using v by (simp add: send_def on_ext_def) (simp add: device_wiring_def on_ext_def)
  have "run_after_reply ?W False (?s, on_dev (\<lambda>d. d\<lparr>dv_ext := e\<rparr>) (de_world d)) =
      ((de_vendor d)\<lparr>after_reply := None, sv_holding := False\<rparr>,
       count_hold False (on_dev (\<lambda>d. d\<lparr>dv_ext := e\<rparr>) (de_world d)))"
    using assms(3,4) by (simp add: run_after_reply_def hold_output_def wire_simps)
  moreover have "fr_module restart_frame = w_module ?W \<and> \<not> fr_reply restart_frame"
    by (simp add: restart_frame_def wire_simps)
  ultimately have "d' = d\<lparr>de_vendor := (de_vendor d)\<lparr>after_reply := None, sv_holding := False\<rparr>,
      de_world := count_hold False (on_dev (\<lambda>d. d\<lparr>dv_ext := e\<rparr>) (de_world d))\<rparr>"
    using l sd by (simp add: assms(5) link_frame_def handle_routed_def handle_frame_def) (simp add: restart_frame_def)
  then show ?thesis by (simp add: count_hold_def)
qed

text \<open>Two \<open>RESTART\<close> requests, the second of which finds no host to take its reply.\<close>

theorem dropped_reply_lifts_reboot_hold_witness:
  "\<exists>d d'. dv_reboots (wd_env (de_world d)) = [Reboot_device] \<and> sv_holding (de_vendor d) \<and>
     d' = link_frame (demo_board False) Vendor 0 restart_frame d \<and> \<not> sv_holding (de_vendor d')"
proof -
  let ?d = "link_frame (demo_board True) Vendor 0 restart_frame demo_boot"
  have "dv_reboots (wd_env (de_world ?d)) = [Reboot_device]" "sv_holding (de_vendor ?d)" "\<not> ota_owner (de_vendor ?d)"
    by code_simp+
  then show ?thesis
    using dropped_reply_lifts_reboot_hold [of "demo_board False" ?d _ 0, OF _ _ _ _ refl]
    by (fastforce simp: demo_board_def plain_codec_def)
qed

section \<open>The crash-loop handover over many boots\<close>

text \<open>A boot as the handover sees it: the resets logged, the running slot, whether it was a power-on, and the
  engine; \<open>marker\<close> is the word of RTC memory that survives every reset but a power-on.\<close>

type_synonym 'o start = "boot_record list \<times> string \<times> bool \<times> 'o"

fun boots_run :: "'o ota_ops \<Rightarrow> 'o start list \<Rightarrow> u32 \<Rightarrow> bool list" where
  "boots_run ops [] marker = []"
| "boots_run ops ((boots, slot, power_on, q) # bs) marker =
     (case boot_handover ops boots slot power_on marker q of
        (handed, m, q1) \<Rightarrow> handed # boots_run ops bs m)"

abbreviation power_on_start :: "'o start \<Rightarrow> bool" where
  "power_on_start b \<equiv> fst (snd (snd b))"

lemma handed_over_marker:
  assumes "boot_handover ops boots slot power_on m q = (h, m', q')"
  shows "(\<not> power_on \<and> (m = HANDOVER_REQUESTED \<or> m = HANDOVER_DONE) \<longrightarrow> \<not> h \<and> m' = HANDOVER_DONE) \<and>
    (h \<longrightarrow> m' = HANDOVER_REQUESTED)"
  using assms
  by (auto simp: boot_handover_def take_handover_marker_def Let_def split: prod.splits bool.splits if_splits)

lemma no_second_handover:
  assumes "m = HANDOVER_REQUESTED \<or> m = HANDOVER_DONE" "list_all (\<lambda>b. \<not> power_on_start b) bs"
  shows "True \<notin> set (boots_run ops bs m)"
  using assms
proof (induction ops bs m rule: boots_run.induct)
  case (2 ops boots slot p q bs m)
  obtain h m' q' where b: "boot_handover ops boots slot p m q = (h, m', q')" by (metis prod.collapse)
  then show ?case using handed_over_marker [OF b] 2 by auto
qed simp

text \<open>C13: However the device crashes, it hands over to the other slot at most once between two power-ons.\<close>

theorem one_handover_per_power_on:
  assumes "list_all (\<lambda>b. \<not> power_on_start b) (tl bs)"
  shows "length (filter (\<lambda>h. h) (boots_run ops bs m)) \<le> 1"
  using assms
proof (induction ops bs m rule: boots_run.induct)
  case (2 ops boots slot p q bs m)
  obtain h m' q' where b: "boot_handover ops boots slot p m q = (h, m', q')" by (metis prod.collapse)
  show ?case
  proof (cases h)
    case True
    then have "True \<notin> set (boots_run ops bs m')"
      using handed_over_marker [OF b] 2 by (intro no_second_handover) simp_all
    then have "filter (\<lambda>h. h) (boots_run ops bs m') = []" by (auto simp: filter_empty_conv)
    with True b show ?thesis by simp
  next
    case False
    have "list_all (\<lambda>b. \<not> power_on_start b) (tl bs)" using 2 by (cases bs) simp_all
    with 2(1) [OF b [symmetric]] False b show ?thesis by simp
  qed
qed simp

definition crashed_start :: "bool \<Rightarrow> sim_ota start" where
  "crashed_start power_on = (replicate 4 \<lparr>br_slot = ''ota_0'', br_crash = True\<rparr>, ''ota_0'', power_on, crashing)"

theorem one_handover_per_power_on_witness:
  "length (filter (\<lambda>h. h) (boots_run sim_ops [crashed_start True, crashed_start False, crashed_start False] 0)) \<le> 1 \<and>
   hd (boots_run sim_ops [crashed_start True, crashed_start False, crashed_start False] 0)"
proof -
  have "hd (boots_run sim_ops [crashed_start True, crashed_start False, crashed_start False] 0)" by code_simp
  then show ?thesis
    using one_handover_per_power_on [of "[crashed_start True, crashed_start False, crashed_start False]" sim_ops 0]
    by (simp add: crashed_start_def)
qed

text \<open>C10: A boot hands over only from a confirmed image that the last three resets charge with a crash, not twice in
  a row between two power-ons, and only to a slot with a complete image that is not marked invalid or aborted. The
  reset it asks for starts that image, whose own boot finds the marker, does not hand back, and confirms the image:
  the boot after that starts it again.\<close>

theorem handover_is_deliberate_and_sticks:
  assumes ok: "ota_ok q" and sw: "boot_handover sim_ops boots slot power_on marker q = (True, marker1, q1)"
    and q2: "q2 = init_ota (snd (boot (so_flash q1)))"
    and nxt: "boot_handover sim_ops boots2 slot2 False marker1 q2 = (again, marker2, q3)"
  shows "(let f = so_flash q; crashes = crashes_while_running boots slot in
      CRASH_LOOP_RESETS \<le> length crashes \<and> list_all id (drop (length crashes - CRASH_LOOP_RESETS) crashes) \<and>
      (power_on \<or> marker \<noteq> HANDOVER_REQUESTED \<and> marker \<noteq> HANDOVER_DONE) \<and>
      \<not> pending_verify f \<and> complete (slots f (other_of f)) \<and>
      sl_state (slots f (other_of f)) \<notin> {IMG_INVALID, IMG_ABORTED} \<and>
      running (so_flash q2) = other_of f \<and> \<not> again \<and>
      sl_state (slots (so_flash q3) (other_of f)) = IMG_VALID \<and> running (snd (boot (so_flash q3))) = other_of f)"
proof -
  have r: "revert_if_crash_looping sim_ops (crashes_while_running boots slot) CRASH_LOOP_RESETS q = (True, q1)"
    "marker1 = HANDOVER_REQUESTED" "power_on \<or> marker \<noteq> HANDOVER_REQUESTED \<and> marker \<noteq> HANDOVER_DONE"
    using sw by (auto simp: boot_handover_def take_handover_marker_def Let_def split: prod.splits bool.splits if_splits)
  have n: "\<not> again" "q3 = snd (accept_after_handover sim_ops True q2)"
    using nxt r(2) by (auto simp: boot_handover_def take_handover_marker_def Let_def)
  obtain c where a: "accept_after_handover sim_ops True q2 = (c, q3)" using n(2) by (cases "accept_after_handover sim_ops True q2") auto
  note h = revert_then_accept [OF ok r(1) q2 a]
  then have "so_flash q3 = mark_valid (so_flash q2)"
    using a by (auto simp: accept_after_handover_def sim_ops_def ota_mark_valid_def split: if_splits)
  then have "sl_state (slots (so_flash q3) (other_of (so_flash q))) = IMG_VALID"
    using h by (simp add: mark_valid_def set_state_def)
  with h n(1) r(3) show ?thesis by (simp add: Let_def)
qed

theorem handover_is_deliberate_and_sticks_witness:
  "\<exists>m q. boot_handover sim_ops (replicate 4 \<lparr>br_slot = ''ota_0'', br_crash = True\<rparr>) ''ota_0'' False 0 crashing = (True, m, q) \<and>
     running (snd (boot (so_flash q))) = 1"
proof -
  let ?b = "replicate 4 \<lparr>br_slot = ''ota_0'', br_crash = True\<rparr>"
  have ok: "ota_ok crashing"
    by (simp add: crashing_def ota_ok_def init_ota_def format_flash_def flash_ok_def empty_slot_def complete_def)
  have "fst (boot_handover sim_ops ?b ''ota_0'' False 0 crashing)" by code_simp
  then obtain m q where h: "boot_handover sim_ops ?b ''ota_0'' False 0 crashing = (True, m, q)"
    by (cases "boot_handover sim_ops ?b ''ota_0'' False 0 crashing") auto
  obtain a m2 q3 where n: "boot_handover sim_ops [] ''ota_1'' False m (init_ota (snd (boot (so_flash q)))) = (a, m2, q3)"
    by (metis prod.collapse)
  have "other_of (so_flash crashing) = 1" by (simp add: crashing_def init_ota_def format_flash_def other_of_def)
  then show ?thesis using handover_is_deliberate_and_sticks [OF ok h refl n] h by (auto simp: init_ota_def Let_def)
qed

end
