(* ===== verification/Device_Contract.thy ===== *)
theory Device_Contract
  imports Device_Safety
begin

text \<open>
  What the device promises, seen from outside: the upload session as a small abstract machine that
  every step of the device refines, and the shape of every report that reaches the HID endpoint.
\<close>

section \<open>Who owns the upload\<close>

definition upload_owner :: "('o, 'j, 'e) device \<Rightarrow> link option" where
  "upload_owner d = (if ota_owner (de_vendor d) then Some Vendor
     else if ota_owner (de_cdc d) then Some Cdc else None)"

text \<open>The abstract session: a frame on a link may open a session where there is none and end its own; the idle
  check of the loop may end any; nothing else changes it.\<close>

inductive upload_step :: "link option \<Rightarrow> link option \<Rightarrow> link option \<Rightarrow> bool" where
  Same: "upload_step ev s s"
| Begin: "upload_step (Some l) None (Some l)"
| End: "upload_step (Some l) (Some l) None"
| Expire: "upload_step None (Some l) None"

inductive_simps upload_step_frame: "upload_step (Some l) s s'"
inductive_simps upload_step_loop: "upload_step None s s'"

lemma expire_owner:
  "ota_owner (fst (snd (expire_stale_update W mx now busy sw))) \<Longrightarrow> ota_owner (fst sw)"
  by (auto simp: expire_stale_update_def end_upload_def hold_output_def owner_def
      split: option.splits if_splits prod.splits)

lemma link_frame_other:
  "de_cdc (link_frame B Vendor now f d) = de_cdc d" "de_vendor (link_frame B Cdc now f d) = de_vendor d"
  by (simp_all add: link_frame_def split: prod.splits)

lemma frame_refines:
  assumes "device_ok d" "b_ops B = sim_ops"
  shows "upload_step (Some l) (upload_owner d) (upload_owner (link_frame B l now f d))"
proof -
  have "\<not> (ota_owner (de_vendor d) \<and> ota_owner (de_cdc d))"
    "\<not> (ota_owner (de_vendor (link_frame B l now f d)) \<and> ota_owner (de_cdc (link_frame B l now f d)))"
    using assms(1) link_frame_ok [OF assms, of l now f] by (auto simp: device_ok_def link_ok_def)
  then show ?thesis
    using link_frame_other [of B now f d]
    by (cases l) (auto simp: upload_step_frame upload_owner_def)
qed

lemma head_refines:
  fixes B :: "('o, 'j, 'e) board"
  assumes "loop_head B t1 t2 t3 busy1 busy2 d = Some d'"
    "\<not> (ota_owner (de_vendor d) \<and> ota_owner (de_cdc d))"
  shows "upload_step None (upload_owner d) (upload_owner d')"
proof -
  have owner: "expire_stale_update W mx now busy (v, w) = (b, v', w') \<Longrightarrow> ota_owner v' \<Longrightarrow> ota_owner v"
    for W :: "('o, ('j, 'e) dev) wiring" and mx now busy v w b v' w'
    using expire_owner [of W mx now busy "(v, w)"] by simp
  have "(ota_owner (de_vendor d') \<longrightarrow> ota_owner (de_vendor d)) \<and> (ota_owner (de_cdc d') \<longrightarrow> ota_owner (de_cdc d))"
    using assms(1) by (auto simp: loop_head_def dest: owner split: prod.splits bool.splits)
  with assms(2) show ?thesis by (auto simp: upload_step_loop upload_owner_def)
qed

lemma poll_refines: "mouse_poll B d = Some d' \<Longrightarrow> upload_owner d' = upload_owner d"
  by (auto simp: mouse_poll_def upload_owner_def split: prod.splits option.splits)

text \<open>C2: Every step of the device is a step of the abstract session: a console frame can open a session only where
  there is none and end only its own link's, an iteration of the loop can only end one, and the
  engine has an upload open exactly when the session has an owner.\<close>

theorem device_refines_upload_session:
  fixes d :: "(sim_ota, 'j, 'e) device"
  assumes "boot_device B cal settings now q e = Some d0" "\<not> op_active sim_ops q"
    "b_ops B = sim_ops" "(device_step B)\<^sup>*\<^sup>* d0 d"
  shows "(\<forall>l now f. upload_step (Some l) (upload_owner d) (upload_owner (link_frame B l now f d))) \<and>
    (\<forall>t1 t2 t3 busy1 busy2 d'. loop_head B t1 t2 t3 busy1 busy2 d = Some d' \<longrightarrow>
       upload_step None (upload_owner d) (upload_owner d')) \<and>
    (\<forall>d'. mouse_poll B d = Some d' \<longrightarrow> upload_step None (upload_owner d) (upload_owner d')) \<and>
    (op_active sim_ops (wd_ota (de_world d)) \<longleftrightarrow> upload_owner d \<noteq> None)"
proof -
  have ok: "device_ok d" by (rule reachable_ok [OF assms(4,3,1,2)])
  then have one: "\<not> (ota_owner (de_vendor d) \<and> ota_owner (de_cdc d))"
    and act: "op_active sim_ops (wd_ota (de_world d)) \<longleftrightarrow> upload_owner d \<noteq> None"
    by (auto simp: device_ok_def link_ok_def upload_owner_def)
  show ?thesis
    using frame_refines [OF ok assms(3)] head_refines [OF _ one] poll_refines [of B d] act
    by (simp add: upload_step.Same)
qed

theorem device_refines_upload_session_witness:
  "upload_owner demo_begun = Some Vendor \<and>
   (\<forall>now f. upload_owner (link_frame (demo_board True) Cdc now f demo_begun) = Some Vendor)"
proof -
  have o: "upload_owner demo_begun = Some Vendor" by code_simp
  have "upload_step (Some Cdc) (upload_owner demo_begun)
      (upload_owner (link_frame (demo_board True) Cdc now f demo_begun))" for now f
    using device_refines_upload_session [OF demo_boots demo_idle demo_ops demo_reaches] by blast
  then show ?thesis by (simp add: o upload_step_frame)
qed

section \<open>Reports\<close>


lemmas mouse_hid_simps = mouse_hid_of_def mouse_hid_reset_def reset_movement_def new_mouse_hid_def
  set_button_def get_button_def valid_button_def set_movement_def set_wheel_def Let_def






text \<open>The report on the wire says exactly what the step engine decided: the clamping of the HID report changes
  nothing, and the two buttons it presses are the two low bits of the engine's button byte.\<close>

theorem report_carries_decision:
  assumes "mouse_step hyp s i = Some (s', out)"
  shows "mh_x (mouse_hid_of (out_mouse out)) = dx (out_mouse out) \<and>
    mh_y (mouse_hid_of (out_mouse out)) = dy (out_mouse out) \<and>
    mh_wheel (mouse_hid_of (out_mouse out)) = wheel (out_mouse out) \<and>
    (get_button 1 (mouse_hid_of (out_mouse out)) \<longleftrightarrow> buttons (out_mouse out) = 1) \<and>
    (get_button 2 (mouse_hid_of (out_mouse out)) \<longleftrightarrow> buttons (out_mouse out) = 2)"
proof -
  have same: "clamp_delta (sint v) = v" if "\<bar>sint v\<bar> \<le> 127" for v
    using that clamp_delta_id [of "sint v"] by (metis abs_le_iff minus_le_iff signed_word_eqI)
  have "\<bar>sint (wheel (out_mouse out))\<bar> \<le> 127" using mouse_step_report [OF assms] by auto
  then show ?thesis using mouse_step_report [OF assms] same
    by (auto simp: mouse_hid_simps numeral_3_eq_3)
qed

theorem report_carries_decision_witness:
  "\<exists>s' out. mouse_step (\<lambda>x y. x) init_mouse_state
      \<lparr>stick = init_sample, step_now = 0, recalibration_requested = True,
        output_hold = False, needs_calibration = False, step_settings = init_settings\<rparr> = Some (s', out)
      \<and> mh_x (mouse_hid_of (out_mouse out)) = dx (out_mouse out)"
proof -
  obtain s' out where r: "mouse_step (\<lambda>x y. x) init_mouse_state
      \<lparr>stick = init_sample, step_now = 0, recalibration_requested = True,
        output_hold = False, needs_calibration = False, step_settings = init_settings\<rparr> = Some (s', out)"
    by (simp add: mouse_step_def)
  from report_carries_decision [OF r] r show ?thesis by blast
qed

end
