(* ===== verification/Device_Rollback.thy ===== *)
theory Device_Rollback
  imports Device_Safety
begin

text \<open>
  The rollback of an update nobody confirms, on the whole device: the loop of \<open>main/main.cpp\<close> acts on what the health
  check asks for, and neither the console nor an upload can take away the image it goes back to.
\<close>

section \<open>What no frame can do to the engine\<close>

text \<open>A property of the engine that each of its operations keeps is kept by every frame and by the idle check.\<close>

locale engine_invariant = wired_service +
  fixes I :: "'a \<Rightarrow> bool"
  assumes begin_keeps: "I q \<Longrightarrow> op_begin ops n q = (e, q') \<Longrightarrow> I q'"
    and write_keeps: "I q \<Longrightarrow> op_write ops d q = (e, q') \<Longrightarrow> I q'"
    and finish_keeps: "I q \<Longrightarrow> op_finish ops q = (e, q') \<Longrightarrow> I q'"
    and abort_keeps: "I q \<Longrightarrow> I (op_abort ops q)"
    and valid_keeps: "I q \<Longrightarrow> op_mark_valid ops q = (e, q') \<Longrightarrow> I q'"
    and other_keeps: "I q \<Longrightarrow> op_boot_other ops q = (failure, q') \<Longrightarrow> I q'"
begin

lemma end_upload_inv: "I (wd_ota (snd sw)) \<Longrightarrow> I (wd_ota (snd (end_upload ops W sw)))"
  by (simp add: end_upload_def abort_keeps)

lemma abort_inv: "I (wd_ota (snd sw)) \<Longrightarrow> I (wd_ota (snd (abort_update W sw)))"
  by (simp add: abort_update_def wired end_upload_inv)

lemma expire_inv: "I (wd_ota (snd sw)) \<Longrightarrow> I (wd_ota (snd (snd (expire_stale_update W mx now busy sw))))"
  by (simp add: expire_stale_update_def wired end_upload_inv)

lemma begin_session_inv:
  assumes "begin_session ops W now n sw = (e, sw')" "I (wd_ota (snd sw))"
  shows "I (wd_ota (snd sw'))"
proof -
  define took where "took = (ota_owner (fst sw) \<and> active ops sw)"
  define sw1 where "sw1 = (if took then owner False (on_ota (op_abort ops) sw) else sw)"
  obtain e3 sw3 where t: "try_ota (op_begin ops n) (hold_output W True sw1) = (e3, sw3)"
    by (cases "try_ota (op_begin ops n) (hold_output W True sw1)") blast
  have "I (wd_ota (snd sw1))" using assms(2) by (simp add: sw1_def abort_keeps)
  then have "I (wd_ota (snd sw3))" using t begin_keeps by (auto elim: try_ota_cases)
  then show ?thesis using assms(1) t
    unfolding begin_session_def Let_def took_def [symmetric] sw1_def [symmetric]
    by (auto split: option.splits prod.splits if_splits)
qed

lemma revert_inv:
  assumes "revert_msg C W p sw = (r, sw')" "I (wd_ota (snd sw))"
  shows "I (wd_ota (snd sw'))"
proof -
  define sw1 where "sw1 = (if ota_owner (fst sw) \<and> active ops sw then end_upload ops W sw else sw)"
  have i: "I (wd_ota (snd sw1))" using end_upload_inv assms(2) by (simp add: sw1_def)
  show ?thesis
  proof (cases "p = [] \<and> \<not> active ops sw1")
    case False
    then show ?thesis using assms i
      unfolding revert_msg_def wired option.case Let_def sw1_def [symmetric] by (auto split: if_splits)
  next
    case True
    then show ?thesis using assms(1) i
      unfolding revert_msg_def wired option.case Let_def sw1_def [symmetric]
      by (auto dest: other_keeps elim!: try_ota_cases split: if_splits prod.splits option.splits)
  qed
qed

lemma request_inv:
  assumes "handle_request C W now m p sw = (r, sw')" "I (wd_ota (snd sw))"
  shows "I (wd_ota (snd sw'))"
proof (cases m)
  case SaveToFlash
  then show ?thesis using assms
    by (auto simp: handle_request_def save_msg_def dest: saved_keeps split: prod.splits option.splits)
next
  case StartCalibration
  then show ?thesis using assms
    by (auto simp: handle_request_def start_calibration_msg_def dest: start_keeps
        split: if_splits prod.splits option.splits)
next
  case Revert
  then show ?thesis using assms revert_inv by (simp add: handle_request_def)
next
  case OtaBegin
  then show ?thesis using assms begin_session_inv
    by (auto simp: handle_request_def ota_begin_msg_def wired split: if_splits prod.splits option.splits)
next
  case OtaAbort
  then show ?thesis using assms abort_inv [of sw] by (auto simp: handle_request_def ota_abort_msg_def)
qed (use assms in \<open>auto simp: handle_request_def ota_data_msg_def ota_finish_msg_def mark_valid_msg_def
      fw_info_msg_def manual_offset_msg_def deadzone_msg_def nudge_settings_msg_def nudge_enabled_msg_def
      input_mode_msg_def restart_msg_def diagnostics_msg_def wired Let_def
      dest: write_keeps finish_keeps valid_keeps elim!: try_ota_cases
      split: if_splits prod.splits option.splits\<close>)

lemma after_reply_inv: "I (wd_ota (snd sw)) \<Longrightarrow> I (wd_ota (snd (run_after_reply W queued sw)))"
proof (cases sw)
  case (Pair s w)
  have "wd_ota (snd (run_action W a x)) = wd_ota (snd x)" for a x
    by (cases a) (auto simp: run_action_def reboot_keeps)
  then show "I (wd_ota (snd sw)) \<Longrightarrow> ?thesis"
    by (auto simp: Pair run_after_reply_def Let_def split: option.splits)
qed

lemma routed_inv:
  assumes "I (wd_ota (snd sw))"
  shows "I (wd_ota (snd (handle_routed C W now fr sw)))"
proof -
  obtain handled reply s w where l: "handle_frame_locked C W now (fr_type fr) (fr_payload fr) sw = ((handled, reply), s, w)"
    by (metis prod.collapse)
  obtain q w1 where sd: "send W reply w = (q, w1)" by fastforce
  have "I (wd_ota w)"
    using l assms request_inv [where sw = sw and sw' = "(s, w)"]
    by (auto simp: handle_frame_locked_def split: option.splits prod.splits)
  then have "I (wd_ota w1)" using send_ota [OF sd] by simp
  then show ?thesis using assms l sd after_reply_inv [of "(s, w1)"]
    by (simp add: handle_routed_def handle_frame_def)
qed

end

section \<open>The image to go back to\<close>

text \<open>While the running image is unconfirmed no upload is open and the other slot, the one of the boot, keeps an image
  that a rollback accepts.\<close>

definition can_go_back :: "nat \<Rightarrow> sim_ota \<Rightarrow> bool" where
  "can_go_back i q \<longleftrightarrow> ota_ok q \<and> other_of (so_flash q) = i \<and>
     (pending_verify (so_flash q) \<longrightarrow> \<not> so_active q \<and> complete (slots (so_flash q) i) \<and>
        sl_state (slots (so_flash q) i) \<in> {IMG_NEW, IMG_VALID})"

lemma go_back_step: "can_go_back i q \<Longrightarrow> ota_step q q' \<Longrightarrow> ota_ok q'"
  using ota_ok_step by (simp add: can_go_back_def)

interpretation go_back: engine_invariant sim_ops "device_wiring (B\<lparr>b_ops := sim_ops\<rparr>) l" "can_go_back i"
  for B :: "(sim_ota, 'j, 'e) board" and l :: link and i :: nat
proof (unfold_locales, goal_cases)
  case (1 q n e q')
  then have "ota_ok q'" using go_back_step [OF _ ota_step.Begin [of q n], of i] by (simp add: sim_ops_def)
  with 1 show ?case using other_neq [of "so_flash q"]
    by (auto simp: can_go_back_def sim_ops_def ota_begin_def begin_upload_def Let_def pending_verify_def ota_ok_def
        flash_ok_def other_of_def split: if_splits)
next
  case (2 q d e q')
  then have "ota_ok q'" using go_back_step [OF _ ota_step.Data [of q d], of i] by (simp add: sim_ops_def)
  with 2 show ?case using other_neq [of "so_flash q"]
    by (auto simp: can_go_back_def sim_ops_def ota_write_def upload_descriptor_def Let_def pending_verify_def ota_ok_def
        flash_ok_def other_of_def split: if_splits option.splits)
next
  case (3 q e q')
  then have "ota_ok q'" using go_back_step [OF _ ota_step.Finish [of q], of i] by (simp add: sim_ops_def)
  with 3 show ?case using other_neq [of "so_flash q"]
    by (auto simp: can_go_back_def sim_ops_def ota_finish_def commit_image_def Let_def pending_verify_def ota_ok_def
        flash_ok_def other_of_def split: if_splits option.splits)
next
  case (4 q)
  then show ?case by (auto simp: can_go_back_def sim_ops_def ota_abort_def ota_ok_def)
next
  case (5 q e q')
  then have "ota_ok q'" using go_back_step [OF _ ota_step.Confirm [of q], of i] by (simp add: sim_ops_def)
  with 5 show ?case
    by (auto simp: can_go_back_def sim_ops_def ota_mark_valid_def mark_valid_def set_state_def pending_verify_def
        other_of_def)
next
  case (6 q e q')
  then have "ota_ok q'" using go_back_step [OF _ ota_step.Switch [of q], of i] by simp
  with 6 show ?case using other_neq [of "so_flash q"]
    by (auto simp: can_go_back_def sim_ops_def set_boot_def set_state_def pending_verify_def ota_ok_def flash_ok_def
        complete_def other_of_def Let_def split: if_splits)
qed

lemma frame_can_go_back:
  assumes "b_ops B = sim_ops" "can_go_back i (wd_ota (de_world d))"
  shows "can_go_back i (wd_ota (de_world (link_frame B l now f d)))"
proof -
  have b: "B\<lparr>b_ops := sim_ops\<rparr> = B" using assms(1) by simp
  show ?thesis
    using go_back.routed_inv [of i "(de_vendor d, de_world d)" "b_codec B" B Vendor now f]
      go_back.routed_inv [of i "(de_cdc d, de_world d)" "b_codec B" B Cdc now f] assms(2)
    by (auto simp: link_frame_def b split: link.splits prod.splits)
qed

lemma rollback_goes_back:
  assumes "can_go_back i q" "pending_verify (so_flash q)" "rollback_now sim_ops q = (r, q')"
  shows "r \<and> running (snd (boot (so_flash q'))) = i"
proof -
  have f: "flash_ok (so_flash q)" using assms(1) by (simp add: can_go_back_def ota_ok_def)
  have o: "other_of (so_flash q) = i" "i \<noteq> running (so_flash q)" "complete (slots (so_flash q) i)"
    "sl_state (slots (so_flash q) i) \<in> {IMG_NEW, IMG_VALID}"
    using assms(1,2) f other_neq [of "so_flash q"] by (auto simp: can_go_back_def flash_ok_def)
  show ?thesis using assms(2,3) o f
    by (auto simp: rollback_now_def roll_back_def sim_ops_def ota_rollback_def mark_invalid_and_rollback_def Let_def
        complete_def take_restart_reason_def set_state_def boot_def abort_pending_def split: prod.splits)
qed

section \<open>Runs in which nobody confirms\<close>

text \<open>\<open>unconfirmed_run B t0 d0 t d\<close>: from \<open>d0\<close>, whose health check was last polled at \<open>t0\<close>, the device reaches \<open>d\<close> by
  frames on the two links, ticks of the control loop and heads of it, the last of these at \<open>t\<close>, and after every frame
  the image is still unconfirmed.\<close>

inductive unconfirmed_run ::
  "(sim_ota, 'j, 'e) board \<Rightarrow> nanos \<Rightarrow> (sim_ota, 'j, 'e) device \<Rightarrow> nanos \<Rightarrow> (sim_ota, 'j, 'e) device \<Rightarrow> bool"
  for B :: "(sim_ota, 'j, 'e) board" and t0 :: nanos and d0 :: "(sim_ota, 'j, 'e) device" where
  Begun: "unconfirmed_run B t0 d0 t0 d0"
| Frame: "unconfirmed_run B t0 d0 t d \<Longrightarrow> d' = link_frame B l now f d \<Longrightarrow>
    pending_verify (so_flash (wd_ota (de_world d'))) \<Longrightarrow> unconfirmed_run B t0 d0 t d'"
| Tick: "unconfirmed_run B t0 d0 t d \<Longrightarrow> mouse_poll B d = Some d' \<Longrightarrow> unconfirmed_run B t0 d0 t d'"
| Passed: "unconfirmed_run B t0 d0 t d \<Longrightarrow> t \<le> t1 \<Longrightarrow> loop_head B t1 t2 t3 busy1 busy2 d = Some d' \<Longrightarrow>
    unconfirmed_run B t0 d0 t1 d'"

lemma expire_flash:
  assumes "b_ops B = sim_ops"
  shows "so_flash (wd_ota (snd (snd (expire_stale_update (device_wiring B l) mx now busy sw)))) = so_flash (wd_ota (snd sw))"
proof -
  have "wd_ota (snd (hold_output (device_wiring B l) b sw)) = wd_ota (snd sw)" for b and sw :: "(sim_ota, ('a, 'b) dev) sw"
    by (auto simp: hold_output_def wire_simps count_hold_def Let_def split: prod.splits)
  then show ?thesis
    by (simp add: expire_stale_update_def end_upload_def wire_simps assms) (simp add: sim_ops_def ota_abort_def)
qed

lemma head_passes:
  assumes "b_ops B = sim_ops" "can_go_back i (wd_ota (de_world d))" "pending_verify (so_flash (wd_ota (de_world d)))"
    "loop_head B t1 t2 t3 busy1 busy2 d = Some d'"
  shows "fst (health_tick True t1 (de_health d)) \<noteq> ROLL_BACK \<and> de_health d' = snd (health_tick True t1 (de_health d)) \<and>
    can_go_back i (wd_ota (de_world d')) \<and> pending_verify (so_flash (wd_ota (de_world d')))"
proof -
  obtain h w where rh: "run_health_check sim_ops t1 (de_health d) (de_world d) = (False, h, w)"
    using assms(1,4) by (auto simp: loop_head_def split: prod.splits bool.splits)
  have p: "op_pending sim_ops (wd_ota (de_world d))" using assms(3) by (simp add: sim_ops_def)
  have a: "fst (health_tick True t1 (de_health d)) \<noteq> ROLL_BACK" "h = snd (health_tick True t1 (de_health d))"
    "wd_ota w = wd_ota (de_world d)"
    using rh p rollback_goes_back [OF assms(2,3)]
    by (auto simp: run_health_check_def split: health_action.splits prod.splits bool.splits)
  obtain b v w1 where e1: "expire_stale_update (device_wiring B Vendor) OTA_IDLE_TIMEOUT t2 busy1 (de_vendor d, w) = (b, v, w1)"
    using prod_cases3 by blast
  obtain b2 c w2 where e2: "expire_stale_update (device_wiring B Cdc) OTA_IDLE_TIMEOUT t3 busy2 (de_cdc d, w1) = (b2, c, w2)"
    using prod_cases3 by blast
  have d': "de_health d' = h" "de_world d' = w2" using assms(1,4) rh e1 e2 by (auto simp: loop_head_def)
  have b: "B\<lparr>b_ops := sim_ops\<rparr> = B" using assms(1) by simp
  have "can_go_back i (wd_ota w1)"
    using go_back.expire_inv [of i "(de_vendor d, w)" B Vendor OTA_IDLE_TIMEOUT t2 busy1] assms(2) a(3) by (simp add: b e1)
  then have "can_go_back i (wd_ota w2)"
    using go_back.expire_inv [of i "(de_cdc d, w1)" B Cdc OTA_IDLE_TIMEOUT t3 busy2] by (simp add: b e2)
  moreover have "so_flash (wd_ota w2) = so_flash (wd_ota (de_world d))"
    using expire_flash [OF assms(1), of Vendor OTA_IDLE_TIMEOUT t2 busy1 "(de_vendor d, w)"]
      expire_flash [OF assms(1), of Cdc OTA_IDLE_TIMEOUT t3 busy2 "(de_cdc d, w1)"] a(3) by (simp add: e1 e2)
  ultimately show ?thesis using a d' assms(3) by simp
qed

text \<open>Such a run is a run of the health check on an unconfirmed image that has not rolled back yet.\<close>

lemma unconfirmed_polls:
  assumes "unconfirmed_run B t0 d0 t d" "b_ops B = sim_ops" "can_go_back i (wd_ota (de_world d0))"
    "pending_verify (so_flash (wd_ota (de_world d0)))"
  shows "can_go_back i (wd_ota (de_world d)) \<and> pending_verify (so_flash (wd_ota (de_world d))) \<and>
    (\<exists>ps. polled_from t0 ps \<and> poll_end t0 ps = t \<and> snd (health_run ps (de_health d0)) = de_health d \<and>
      \<not> rolled_back (fst (health_run ps (de_health d0))))"
  using assms(1)
proof induction
  case Begun
  then show ?case using assms(3,4) by (auto intro: exI [of _ "[]"])
next
  case (Frame t d d' l now f)
  have "de_health d' = de_health d" using Frame(2) by (simp add: link_frame_def split: link.splits prod.splits)
  then show ?case using Frame frame_can_go_back [OF assms(2)] by auto
next
  case (Tick t d d')
  have "de_health d' = de_health d" using Tick(2) by (auto simp: mouse_poll_def split: prod.splits option.splits)
  then show ?case using Tick polling_keeps_console_settings [OF Tick(2)] by auto
next
  case (Passed t d t1 t2 t3 busy1 busy2 d')
  then obtain ps where ps: "polled_from t0 ps" "poll_end t0 ps = t" "snd (health_run ps (de_health d0)) = de_health d"
    "\<not> rolled_back (fst (health_run ps (de_health d0)))" by blast
  have h: "fst (health_tick True t1 (de_health d)) \<noteq> ROLL_BACK" "de_health d' = snd (health_tick True t1 (de_health d))"
    "can_go_back i (wd_ota (de_world d'))" "pending_verify (so_flash (wd_ota (de_world d')))"
    using head_passes [OF assms(2) _ _ Passed(3)] Passed.IH by blast+
  have "poll_end t0 (ps @ [(t1, True)]) = t1" by (induction ps arbitrary: t0) auto
  moreover have "polled_from t0 (ps @ [(t1, True)])" using ps Passed(2) by (simp add: polled_append)
  moreover have "snd (health_run (ps @ [(t1, True)]) (de_health d0)) = de_health d' \<and>
      \<not> rolled_back (fst (health_run (ps @ [(t1, True)]) (de_health d0)))"
    using ps h by (auto simp: health_run_append split: prod.splits)
  ultimately show ?case using h by blast
qed

text \<open>C8: An update nobody confirms does not keep running. From a boot of an unconfirmed image whose other slot holds an
  image the bootloader accepts, whatever frames, uploads, sweeps and ticks there are, as long as no frame confirms the
  image: once a pass of the loop comes after the deadline plus one check interval, any pass that comes at least
  \<open>ROLLBACK_HOLD\<close> after it, if the device still runs by then, restarts the device, with its slots such that the bootloader starts the other image.\<close>

theorem unconfirmed_update_is_rolled_back:
  assumes "boot_device B cal settings start q e = Some d0" "b_ops B = sim_ops" "ota_ok q" "pending_verify (so_flash q)"
    "complete (slots (so_flash q) (other_of (so_flash q)))"
    "sl_state (slots (so_flash q) (other_of (so_flash q))) \<in> {IMG_NEW, IMG_VALID}"
    "unconfirmed_run B start d0 t1 d1" "t1 \<le> t" "start + ROLLBACK_DEADLINE + CHECK_INTERVAL \<le> t"
    "loop_head B t x1 y1 busy1 busy2 d1 = Some d2"
    "unconfirmed_run B t d2 u1 d3" "u1 \<le> u" "t + ROLLBACK_HOLD \<le> u"
  shows "loop_head B u x2 y2 busy3 busy4 d3 = None \<and>
    (\<exists>h w. run_health_check sim_ops u (de_health d3) (de_world d3) = (True, h, w) \<and>
       running (snd (boot (so_flash (wd_ota w)))) = other_of (so_flash q))"
proof -
  let ?i = "other_of (so_flash q)"
  have "wd_ota (de_world d0) = q \<and> de_health d0 = init_health (op_pending sim_ops q) start"
    using assms(1,2) by (auto simp: boot_device_def split: sum.splits prod.splits)
  then have b: "wd_ota (de_world d0) = q" "de_health d0 = init_health True start" using assms(4) by (simp_all add: sim_ops_def)
  have g0: "can_go_back ?i (wd_ota (de_world d0))" using assms(3-6) by (auto simp: can_go_back_def ota_ok_def b)
  obtain ps where ps: "polled_from start ps" "poll_end start ps = t1" "snd (health_run ps (init_health True start)) = de_health d1"
    "\<not> rolled_back (fst (health_run ps (init_health True start)))"
    and g1: "can_go_back ?i (wd_ota (de_world d1))" "pending_verify (so_flash (wd_ota (de_world d1)))"
    using unconfirmed_polls [OF assms(7,2) g0] assms(4) unfolding b by blast
  note hd = head_passes [OF assms(2) g1 assms(10)]
  obtain rs where rs: "polled_from t rs" "poll_end t rs = u1" "snd (health_run rs (de_health d2)) = de_health d3"
    "\<not> rolled_back (fst (health_run rs (de_health d2)))"
    and g3: "can_go_back ?i (wd_ota (de_world d3))" "pending_verify (so_flash (wd_ota (de_world d3)))"
    using unconfirmed_polls [OF assms(11,2)] hd by blast
  have "polled_from start (ps @ [(t, True)] @ rs @ [(u, True)])"
    using ps rs assms(8,12) by (simp add: polled_append)
  from rollback_is_asked_for [OF this assms(9,13)]
  have a: "fst (health_tick True u (de_health d3)) = ROLL_BACK"
    using ps rs hd by (auto simp: health_run_append split: prod.splits)
  obtain r q' where r: "rollback_now sim_ops (wd_ota (de_world d3)) = (r, q')" by fastforce
  note home = rollback_goes_back [OF g3 r]
  have p: "op_pending sim_ops (wd_ota (de_world d3))" using g3(2) by (simp add: sim_ops_def)
  obtain h where h: "health_tick True u (de_health d3) = (ROLL_BACK, h)" using a by (metis prod.collapse)
  have "run_health_check sim_ops u (de_health d3) (de_world d3) = (True, h, (de_world d3)\<lparr>wd_ota := q'\<rparr>)"
    using p h r home by (simp add: run_health_check_def)
  then show ?thesis using home assms(2) by (simp add: loop_head_def)
qed

definition unconfirmed_ota :: sim_ota where
  "unconfirmed_ota = init_ota ((format_flash ''1'')\<lparr>slots := (slots (format_flash ''1''))
     (0 := (empty_slot ''ota_0'')\<lparr>has_image := True, sl_state := IMG_PENDING_VERIFY\<rparr>,
      1 := (empty_slot ''ota_1'')\<lparr>has_image := True, sl_state := IMG_VALID\<rparr>)\<rparr>)"

definition demo_unconfirmed :: "(sim_ota, unit, unit) device" where
  "demo_unconfirmed = the (boot_device (demo_board True) None None 0 unconfirmed_ota demo_dev)"

definition demo_expiring :: "(sim_ota, unit, unit) device" where
  "demo_expiring = the (loop_head (demo_board True) 121000000000 0 0 False False demo_unconfirmed)"

theorem unconfirmed_update_is_rolled_back_witness:
  "loop_head (demo_board True) 121100000000 0 0 False False demo_expiring = None"
proof -
  have "boot_device (demo_board True) None None 0 unconfirmed_ota demo_dev \<noteq> None" by code_simp
  then have b: "boot_device (demo_board True) None None 0 unconfirmed_ota demo_dev = Some demo_unconfirmed"
    by (simp add: demo_unconfirmed_def)
  have "loop_head (demo_board True) 121000000000 0 0 False False demo_unconfirmed \<noteq> None" by code_simp
  then have h: "loop_head (demo_board True) 121000000000 0 0 False False demo_unconfirmed = Some demo_expiring"
    by (simp add: demo_expiring_def)
  have q: "ota_ok unconfirmed_ota" "pending_verify (so_flash unconfirmed_ota)"
    "complete (slots (so_flash unconfirmed_ota) (other_of (so_flash unconfirmed_ota)))"
    "sl_state (slots (so_flash unconfirmed_ota) (other_of (so_flash unconfirmed_ota))) \<in> {IMG_NEW, IMG_VALID}"
    by (simp_all add: unconfirmed_ota_def init_ota_def ota_ok_def flash_ok_def format_flash_def empty_slot_def
        complete_def other_of_def pending_verify_def)
  show ?thesis
    using unconfirmed_update_is_rolled_back [OF b demo_ops q unconfirmed_run.Begun _ _ h unconfirmed_run.Begun,
        of 121100000000] by (simp add: ROLLBACK_DEADLINE_def CHECK_INTERVAL_def ROLLBACK_HOLD_def)
qed

end
