(* ===== verification/Device_Boot.thy ===== *)
theory Device_Boot
  imports Device_Safety
begin

text \<open>
  \<open>main/main.cpp\<close>, \<open>run_omega_stick\<close> from its first line to its polling loop: the reset log, the
  crash-loop handover, the sensor, the store, USB, and the two ways in which a boot can end otherwise, a
  restart and a halt. The device it leaves is the one \<open>Device_Runs.boot_device\<close> starts from. A boot is
  one step here: what the console sends while the device waits for the USB host is handled after it.
\<close>

section \<open>USB\<close>

definition OMEGA_USB_VID :: u16 where "OMEGA_USB_VID = 0x1209"
definition OMEGA_USB_PID :: u16 where "OMEGA_USB_PID = 0x0d32"

record usb_config =
  uc_manufacturer :: string
  uc_product :: string
  uc_serial :: string
  uc_vid :: u16
  uc_pid :: u16
  uc_route_console :: bool
  uc_hid_name :: string
  uc_hid_descriptor :: "hid_item list"
  uc_poll_interval_ms :: nat
  uc_vendor_name :: string

text \<open>The library's gamepad descriptor and the MAC address the chip answers with are arguments.\<close>

definition mouse_usb :: "bytes option \<Rightarrow> usb_config" where
  "mouse_usb mac = \<lparr>uc_manufacturer = ''espp'', uc_product = ''omega-stick mouse'', uc_serial = usb_serial_number mac,
     uc_vid = OMEGA_USB_VID, uc_pid = OMEGA_USB_PID, uc_route_console = True, uc_hid_name = ''omega-stick HID'',
     uc_hid_descriptor = mouse_app_report_descriptor 0 3 True, uc_poll_interval_ms = 10,
     uc_vendor_name = ''omega-stick vendor''\<rparr>"

definition xac_usb :: "('g, 'h) gamepad \<Rightarrow> bytes option \<Rightarrow> usb_config" where
  "xac_usb G mac = \<lparr>uc_manufacturer = ''espp'', uc_product = ''omega-stick XAC'', uc_serial = usb_serial_number mac,
     uc_vid = OMEGA_USB_VID, uc_pid = OMEGA_USB_PID, uc_route_console = True, uc_hid_name = ''omega-stick XAC'',
     uc_hid_descriptor = xac_get_descriptor G, uc_poll_interval_ms = 10, uc_vendor_name = ''omega-stick vendor''\<rparr>"

section \<open>The parts of a boot\<close>

text \<open>What the board gives a boot beyond what the running device uses: the slot it runs from, the numbers of
  the reset reasons, the answers of the file system to the reset log, the MAC address, USB and a joystick for
  a configuration.\<close>

record ('j, 'e, 'g, 'h) bringup =
  up_slot :: "string option"
  up_reset_code :: "reset_reason \<Rightarrow> int"
  up_reset_of :: "int \<Rightarrow> reset_reason"
  up_log_path :: string
  up_rename_ok :: bool
  up_open_ok :: bool
  up_log_saved :: save_outcome
  up_flash_window_s :: nat
  up_mac :: "bytes option"
  up_gamepad :: "('g, 'h) gamepad"
  up_usb_init :: "usb_config \<Rightarrow> 'e \<Rightarrow> bool \<times> 'e"
  up_hid_ready :: "'e \<Rightarrow> bool \<times> 'e"
  up_joystick :: "stick_map \<Rightarrow> 'j"

text \<open>What a reset keeps, and the outside world.\<close>

record ('o, 'e) boot_state =
  bs_ota :: 'o
  bs_files :: files
  bs_marker :: u32
  bs_ext :: 'e

datatype ('o, 'j, 'e) boot_end =
    Restarts "('o, 'e) boot_state"
  | Stops "('o, 'e) boot_state"
  | Runs input_mode usb_config xac_state u32 "('o, 'j, 'e) device"
  | Undefined_boot

definition running_slot_label :: "string option \<Rightarrow> string" where
  "running_slot_label slot = (case slot of None \<Rightarrow> ''factory'' | Some l \<Rightarrow> l)"

text \<open>The end of a boot whose sensor or USB does not come up: a pending image is rejected, which restarts the
  device; any other stays where it is, asleep.\<close>

definition bring_up_failed :: "'o ota_ops \<Rightarrow> ('o, 'e) boot_state \<Rightarrow> ('o, 'j, 'e) boot_end" where
  "bring_up_failed ops s =
     (case reject_if_pending ops (bs_ota s) of
        (True, q) \<Rightarrow> Restarts (s\<lparr>bs_ota := q\<rparr>)
      | (False, q) \<Rightarrow> Stops (s\<lparr>bs_ota := q\<rparr>))"

text \<open>The wait for the host: at most \<open>n\<close> times 100 ms.\<close>

fun wait_for_host :: "('e \<Rightarrow> bool \<times> 'e) \<Rightarrow> (millis \<Rightarrow> 'e \<Rightarrow> 'e) \<Rightarrow> nat \<Rightarrow> 'e \<Rightarrow> 'e" where
  "wait_for_host ready sleep 0 e = e"
| "wait_for_host ready sleep (Suc n) e =
     (case ready e of (True, e1) \<Rightarrow> e1 | (False, e1) \<Rightarrow> wait_for_host ready sleep n (sleep 100 e1))"

text \<open>USB, and the host.\<close>

definition bring_up_usb ::
  "('o, 'j, 'e) board \<Rightarrow> ('j, 'e, 'g, 'h) bringup \<Rightarrow> usb_config \<Rightarrow> 'e \<Rightarrow> bool \<times> 'e" where
  "bring_up_usb B U usb e =
     (case up_usb_init U usb e of
        (False, e1) \<Rightarrow> (False, e1)
      | (True, e1) \<Rightarrow> (True, snd (up_hid_ready U (wait_for_host (up_hid_ready U) (b_sleep B) 100 e1))))"

text \<open>The joystick, a second of rest, the loop's state and the health check.\<close>

definition start_loop ::
  "('o, 'j, 'e) board \<Rightarrow> ('j, 'e, 'g, 'h) bringup \<Rightarrow> reset_log \<Rightarrow> tmag \<Rightarrow> store \<Rightarrow> usb_config
     \<Rightarrow> ('o, 'e) boot_state \<Rightarrow> ('o, 'j, 'e) boot_end" where
  "start_loop B U l t st usb s =
     (let stick = up_joystick U (apply_calibration_with (st_center st) (st_range st) (st_settings st));
          (now, e) = b_now B (b_sleep B 1000 (bs_ext s)) in
      case boot_device B (bs_files s (b_calibration_path B)) (bs_files s (b_settings_path B)) now (bs_ota s)
          \<lparr>dv_holds = 0, dv_gate = Idle, dv_needs_calibration = False, dv_status = init_status, dv_log = l,
           dv_files = bs_files s, dv_read_ok = True, dv_conversions = 0, dv_tmag = t, dv_joystick = stick,
           dv_live = True, dv_hid = [], dv_reboots = [], dv_restarted = False, dv_ext = e\<rparr> of
        None \<Rightarrow> Undefined_boot
      | Some d \<Rightarrow>
          Runs (input_mode (st_settings st)) usb
            (init_xac_state\<lparr>xs_common := (xs_common init_xac_state)\<lparr>cm_center := st_center st,
               cm_range := st_range st\<rparr>\<rparr>)
            (bs_marker s) d)"

text \<open>The store from the two files, and the saved mode, which decides what USB announces.\<close>

definition boot_console ::
  "('o, 'j, 'e) board \<Rightarrow> ('j, 'e, 'g, 'h) bringup \<Rightarrow> reset_log \<Rightarrow> tmag \<Rightarrow> ('o, 'e) boot_state
     \<Rightarrow> ('o, 'j, 'e) boot_end" where
  "boot_console B U l t s =
     (case open_store (bs_files s (b_calibration_path B)) (bs_files s (b_settings_path B)) of
        Inl _ \<Rightarrow> Undefined_boot
      | Inr st \<Rightarrow>
          let st1 = snd (boot_calibration (bs_files s (b_calibration_path B)) st);
              usb = (if input_mode (st_settings st1) = XAC then xac_usb (up_gamepad U) (up_mac U)
                     else mouse_usb (up_mac U)) in
          (case bring_up_usb B U usb (bs_ext s) of
             (False, e) \<Rightarrow> bring_up_failed (b_ops B) (s\<lparr>bs_ext := e\<rparr>)
           | (True, e) \<Rightarrow> start_loop B U l t st1 usb (s\<lparr>bs_ext := e\<rparr>)))"

text \<open>The driver's configuration and the sensor; a build may leave time to flash it over the serial port.\<close>

definition device_tmag :: tmag where
  "device_tmag = tmag_of_config CH_XYZ HIGH HIGH V_AUTO CONTINUOUS AVG_32 False"

definition boot_sensor ::
  "('o, 'j, 'e) board \<Rightarrow> ('j, 'e, 'g, 'h) bringup \<Rightarrow> reset_log \<Rightarrow> ('o, 'e) boot_state
     \<Rightarrow> ('o, 'j, 'e) boot_end" where
  "boot_sensor B U l s =
     (case initialize (b_bus B) device_tmag (bs_ext s) of
        (False, _, e) \<Rightarrow> bring_up_failed (b_ops B) (s\<lparr>bs_ext := e\<rparr>)
      | (True, t, e) \<Rightarrow>
          let e1 = (if 0 < up_flash_window_s U then b_sleep B (int (up_flash_window_s U) * 1000) e else e) in
          boot_console B U l t (s\<lparr>bs_ext := e1\<rparr>))"

definition device_boot ::
  "('o, 'j, 'e) board \<Rightarrow> ('j, 'e, 'g, 'h) bringup \<Rightarrow> reset_reason \<Rightarrow> ('o, 'e) boot_state
     \<Rightarrow> ('o, 'j, 'e) boot_end" where
  "device_boot B U reason s =
     (let slot = running_slot_label (up_slot U);
          (l, fs) = log_boot (up_reset_code U) (up_rename_ok U) (up_open_ok U) (up_log_saved U) (up_log_path U)
                      reason slot (bs_files s) in
      case boot_handover (b_ops B) (boot_records (up_reset_of U) l) slot (reason = RST_POWERON) (bs_marker s) (bs_ota s) of
        (True, m, q) \<Rightarrow> Restarts (s\<lparr>bs_files := fs, bs_marker := m, bs_ota := q, bs_ext := b_sleep B 100 (bs_ext s)\<rparr>)
      | (False, m, q) \<Rightarrow> boot_sensor B U l (s\<lparr>bs_files := fs, bs_marker := m, bs_ota := q\<rparr>))"

text \<open>A build without updates over USB has no engine and no handover: an image that an update installed accepts
  itself.\<close>

definition self_accept :: "'o ota_ops \<Rightarrow> string option \<Rightarrow> 'o \<Rightarrow> 'o" where
  "self_accept ops slot q = (if slot \<noteq> None \<and> op_pending ops q then snd (op_mark_valid ops q) else q)"

section \<open>Lemmas\<close>

lemma host_wait_is_bounded:
  assumes "\<And>e. f (snd (ready e)) \<le> (f e :: int)" "\<And>t e. 0 \<le> t \<Longrightarrow> f (sleep t e) \<le> f e + t"
  shows "f (wait_for_host ready sleep n e) \<le> f e + 100 * int n"
proof (induction n arbitrary: e)
  case (Suc n)
  obtain b e1 where r: "ready e = (b, e1)" by fastforce
  have "f e1 \<le> f e" using assms(1) [of e] r by simp
  moreover have "f (sleep 100 e1) \<le> f e1 + 100" using assms(2) by simp
  ultimately show ?case using r Suc [of "sleep 100 e1"] by (cases b) auto
qed simp

lemma booted_device:
  assumes "boot_device B cal settings now q d0 = Some d" "open_store cal settings = Inr st"
  shows "wd_store (de_world d) = snd (boot_calibration cal st)" "wd_ota (de_world d) = q"
    "de_health d = init_health (op_pending (b_ops B) q) now"
  using assms by (auto simp: boot_device_def split: prod.splits)

text \<open>A boot that reaches the loop leaves a device as \<open>boot_device\<close> starts it, in the saved mode, with the
  descriptor of that mode: what holds of every device that starts so holds of it.\<close>

lemma boot_runs:
  assumes "device_boot B U reason s = Runs mode usb x m d"
  shows "\<exists>cal settings now d0 q fs. boot_device B cal settings now q d0 = Some d \<and>
    snd (boot_handover (b_ops B) (boot_records (up_reset_of U)
      (fst (log_boot (up_reset_code U) (up_rename_ok U) (up_open_ok U) (up_log_saved U) (up_log_path U) reason
        (running_slot_label (up_slot U)) (bs_files s))))
      (running_slot_label (up_slot U)) (reason = RST_POWERON) (bs_marker s) (bs_ota s)) = (m, q) \<and>
    mode = input_mode (st_settings (wd_store (de_world d))) \<and>
    xs_common x = (xs_common init_xac_state)\<lparr>cm_center := st_center (wd_store (de_world d)),
      cm_range := st_range (wd_store (de_world d))\<rparr> \<and>
    uc_hid_descriptor usb = (if mode = XAC then xac_get_descriptor (up_gamepad U) else mouse_app_report_descriptor 0 3 True)"
proof -
  have c: "\<exists>cal settings now d0. boot_device B cal settings now (bs_ota s1) d0 = Some d \<and> m = bs_marker s1 \<and>
      mode = input_mode (st_settings (wd_store (de_world d))) \<and>
      xs_common x = (xs_common init_xac_state)\<lparr>cm_center := st_center (wd_store (de_world d)),
        cm_range := st_range (wd_store (de_world d))\<rparr> \<and>
      uc_hid_descriptor usb = (if mode = XAC then xac_get_descriptor (up_gamepad U) else mouse_app_report_descriptor 0 3 True)"
    if r: "boot_console B U l t s1 = Runs mode usb x m d" for l t s1
  proof -
    obtain st where st: "open_store (bs_files s1 (b_calibration_path B)) (bs_files s1 (b_settings_path B)) = Inr st"
      using r by (cases "open_store (bs_files s1 (b_calibration_path B)) (bs_files s1 (b_settings_path B))")
        (simp_all add: boot_console_def)
    show ?thesis using r st
      by (auto simp: boot_console_def start_loop_def Let_def bring_up_failed_def mouse_usb_def xac_usb_def case_prod_beta
          booted_device [OF _ st] split: bool.splits option.splits)
  qed
  show ?thesis using assms
    by (auto simp: device_boot_def boot_sensor_def bring_up_failed_def Let_def dest!: c
        split: prod.splits bool.splits)
      blast+
qed

text \<open>The engine through a boot: the handover alone decides, apart from the rejection of an image whose hardware does
  not come up.\<close>

lemma bring_up_failed_end:
  "bring_up_failed ops s = Restarts s' \<Longrightarrow> reject_if_pending ops (bs_ota s) = (True, bs_ota s')"
  "bring_up_failed ops s = Stops s' \<Longrightarrow> reject_if_pending ops (bs_ota s) = (False, bs_ota s')"
  "bring_up_failed ops s \<noteq> Runs mode usb x m d" "bring_up_failed ops s \<noteq> Undefined_boot"
  by (auto simp: bring_up_failed_def split: prod.splits bool.splits)

definition engine_end :: "'o ota_ops \<Rightarrow> 'o \<Rightarrow> ('o, 'j, 'e) boot_end \<Rightarrow> bool" where
  "engine_end ops q r = (case r of
     Restarts s' \<Rightarrow> reject_if_pending ops q = (True, bs_ota s')
   | Stops s' \<Rightarrow> reject_if_pending ops q = (False, bs_ota s')
   | Runs _ _ _ _ d \<Rightarrow> wd_ota (de_world d) = q \<and> (\<exists>now. de_health d = init_health (op_pending ops q) now)
   | Undefined_boot \<Rightarrow> True)"

lemma bring_up_engine: "bs_ota s = q \<Longrightarrow> engine_end ops q (bring_up_failed ops s)"
  by (auto simp: engine_end_def bring_up_failed_def split: prod.splits bool.splits)

lemma console_engine: "engine_end (b_ops B) (bs_ota s) (boot_console B U l t s)"
proof (cases "open_store (bs_files s (b_calibration_path B)) (bs_files s (b_settings_path B))")
  case (Inr st)
  show ?thesis
    by (auto simp: boot_console_def start_loop_def Inr Let_def case_prod_beta bring_up_engine split: bool.splits option.splits)
      (auto simp: engine_end_def booted_device [OF _ Inr])
qed (simp add: boot_console_def engine_end_def)

lemma sensor_engine: "engine_end (b_ops B) (bs_ota s) (boot_sensor B U l s)"
  using console_engine [of B "s\<lparr>bs_ext := e\<rparr>" U l t for e t]
  by (auto simp: boot_sensor_def Let_def bring_up_engine split: prod.splits bool.splits)

lemma rejected_image:
  assumes "flash_ok (so_flash q)" "pending_verify (so_flash q)"
    "sl_state (slots (so_flash q) (other_of (so_flash q))) \<noteq> IMG_PENDING_VERIFY"
  shows "reject_if_pending sim_ops q = (True, q') \<Longrightarrow> running (snd (boot (so_flash q'))) = other_of (so_flash q)"
    "reject_if_pending sim_ops q = (False, q') \<Longrightarrow> q' = q \<and>
      \<not> (complete (slots (so_flash q) (other_of (so_flash q))) \<and>
         sl_state (slots (so_flash q) (other_of (so_flash q))) \<in> {IMG_NEW, IMG_VALID})"
proof -
  let ?f = "so_flash q"
  have o: "other_of ?f \<noteq> running ?f" using assms(1) other_neq [of ?f] by (simp add: flash_ok_def)
  note defs = reject_if_pending_def roll_back_def sim_ops_def ota_rollback_def mark_invalid_and_rollback_def Let_def
  show "running (snd (boot (so_flash q'))) = other_of ?f" if "reject_if_pending sim_ops q = (True, q')"
    using that assms o
    by (auto simp: defs complete_def take_restart_reason_def set_state_def boot_def abort_pending_def
        split: prod.splits if_splits)
  show "q' = q \<and> \<not> (complete (slots ?f (other_of ?f)) \<and> sl_state (slots ?f (other_of ?f)) \<in> {IMG_NEW, IMG_VALID})"
    if "reject_if_pending sim_ops q = (False, q')"
    using that assms(2) by (auto simp: defs complete_def split: prod.splits if_splits)
qed

lemma boot_undefined:
  assumes "boot_sensor B U l s = Undefined_boot"
  shows "load_settings (bs_files s (b_settings_path B)) = Inl Undefined_behaviour"
proof (rule ccontr)
  assume "\<not> ?thesis"
  then have "\<exists>st. open_store (bs_files s (b_calibration_path B)) (bs_files s (b_settings_path B)) = Inr st"
    by (auto simp: open_store_def split: prod.splits sum.splits abort.splits)
  then obtain st where st: "open_store (bs_files s (b_calibration_path B)) (bs_files s (b_settings_path B)) = Inr st"
    by blast
  have c: "boot_console B U l t (s\<lparr>bs_ext := e\<rparr>) \<noteq> Undefined_boot" for t e
    using st
    by (auto simp: boot_console_def start_loop_def boot_device_def Let_def case_prod_beta bring_up_failed_end
        split: bool.splits option.splits)
  show False using assms c
    by (auto simp: boot_sensor_def bring_up_failed_end Let_def split: prod.splits bool.splits)
qed

section \<open>Properties\<close>

text \<open>C16: An update whose sensor or USB does not come up is not stranded. A boot of an unconfirmed image that is not
  itself the target of a handover ends in one of these ways: the polling loop starts with the engine as it was and the
  deadline running; the device restarts, and the bootloader starts the other image; it halts, but only where there is
  nothing to go back to, the other slot holding no complete image that is new or valid; or the settings file makes its
  own load undefined.\<close>

theorem unconfirmed_boot_is_not_stranded:
  assumes "b_ops B = sim_ops" "flash_ok (so_flash (bs_ota s))" "pending_verify (so_flash (bs_ota s))"
    "sl_state (slots (so_flash (bs_ota s)) (other_of (so_flash (bs_ota s)))) \<noteq> IMG_PENDING_VERIFY"
    "reason = RST_POWERON \<or> bs_marker s \<noteq> HANDOVER_REQUESTED"
  shows "case device_boot B U reason s of
      Runs mode usb x m d \<Rightarrow> wd_ota (de_world d) = bs_ota s \<and> h_pending (de_health d) \<and> \<not> h_holding (de_health d)
    | Restarts s' \<Rightarrow> running (snd (boot (so_flash (bs_ota s')))) = other_of (so_flash (bs_ota s))
    | Stops s' \<Rightarrow> bs_ota s' = bs_ota s \<and>
        (let other = slots (so_flash (bs_ota s)) (other_of (so_flash (bs_ota s))) in
         \<not> (complete other \<and> sl_state other \<in> {IMG_NEW, IMG_VALID}))
    | Undefined_boot \<Rightarrow>
        (let fs = snd (log_boot (up_reset_code U) (up_rename_ok U) (up_open_ok U) (up_log_saved U)
           (up_log_path U) reason (running_slot_label (up_slot U)) (bs_files s)) in
         load_settings (fs (b_settings_path B)) = Inl Undefined_behaviour)"
proof -
  have p: "op_pending sim_ops (bs_ota s)" using assms(3) by (simp add: sim_ops_def)
  have h: "\<exists>m'. boot_handover (b_ops B) boots slot (reason = RST_POWERON) (bs_marker s) (bs_ota s) = (False, m', bs_ota s)"
    for boots slot
    using assms(1,5) p
    by (auto simp: boot_handover_def take_handover_marker_def revert_if_crash_looping_def accept_after_handover_def Let_def)
  obtain l fs where l: "log_boot (up_reset_code U) (up_rename_ok U) (up_open_ok U) (up_log_saved U) (up_log_path U) reason
      (running_slot_label (up_slot U)) (bs_files s) = (l, fs)" by fastforce
  obtain m where m: "boot_handover (b_ops B) (boot_records (up_reset_of U) l) (running_slot_label (up_slot U))
      (reason = RST_POWERON) (bs_marker s) (bs_ota s) = (False, m, bs_ota s)" using h by blast
  define s1 where "s1 = s\<lparr>bs_files := fs, bs_marker := m, bs_ota := bs_ota s\<rparr>"
  have b: "device_boot B U reason s = boot_sensor B U l s1" by (simp add: device_boot_def l m s1_def)
  show ?thesis
    using sensor_engine [of B s1 U l] p rejected_image [OF assms(2-4)] boot_undefined [of B U l s1]
    unfolding b assms(1) l
    by (auto simp: s1_def engine_end_def init_health_def Let_def split: boot_end.splits)
qed

definition demo_bringup :: "(unit, unit, unit, unit) bringup" where
  "demo_bringup = \<lparr>up_slot = Some ''ota_0'', up_reset_code = (\<lambda>r. if r = RST_PANIC then 4 else 1),
     up_reset_of = (\<lambda>c. if c = 4 then RST_PANIC else RST_POWERON), up_log_path = ''log'', up_rename_ok = True,
     up_open_ok = True, up_log_saved = Temp_not_opened, up_flash_window_s = 0, up_mac = None,
     up_gamepad = \<lparr>gp_reset = id, gp_axis = (\<lambda>i v g. g), gp_axis_raw = (\<lambda>i v g. g), gp_left_trigger = (\<lambda>v g. g),
       gp_right_trigger = (\<lambda>v g. g), gp_button = (\<lambda>i b g. g), gp_hat = (\<lambda>h g. g),
       gp_hat_directions = (\<lambda>a b c d g. g), gp_data = (\<lambda>g. []), gp_num_data_bytes = 0, gp_descriptor = []\<rparr>,
     up_usb_init = (\<lambda>c e. (True, e)), up_hid_ready = (\<lambda>e. (True, e)), up_joystick = (\<lambda>m. ())\<rparr>"

definition demo_update :: "(sim_ota, unit) boot_state" where
  "demo_update = \<lparr>bs_ota = init_ota ((format_flash ''1'')\<lparr>slots := (slots (format_flash ''1''))
       (0 := (empty_slot ''ota_0'')\<lparr>has_image := True, sl_state := IMG_PENDING_VERIFY\<rparr>,
        1 := (empty_slot ''ota_1'')\<lparr>has_image := True, sl_state := IMG_VALID\<rparr>)\<rparr>),
     bs_files = (\<lambda>p. None), bs_marker = 0, bs_ext = ()\<rparr>"

text \<open>The sensor of this board does not answer.\<close>

theorem unconfirmed_boot_is_not_stranded_witness:
  "\<exists>s'. device_boot (demo_board True) demo_bringup RST_PANIC demo_update = Restarts s' \<and>
     running (snd (boot (so_flash (bs_ota s')))) = 1"
proof -
  let ?r = "device_boot (demo_board True) demo_bringup RST_PANIC demo_update"
  have s: "flash_ok (so_flash (bs_ota demo_update))" "pending_verify (so_flash (bs_ota demo_update))"
    "sl_state (slots (so_flash (bs_ota demo_update)) (other_of (so_flash (bs_ota demo_update)))) \<noteq> IMG_PENDING_VERIFY"
    "RST_PANIC = RST_POWERON \<or> bs_marker demo_update \<noteq> HANDOVER_REQUESTED" "other_of (so_flash (bs_ota demo_update)) = 1"
    "complete (slots (so_flash (bs_ota demo_update)) 1)" "sl_state (slots (so_flash (bs_ota demo_update)) 1) = IMG_VALID"
    by (simp_all add: demo_update_def init_ota_def format_flash_def flash_ok_def empty_slot_def complete_def other_of_def
        pending_verify_def HANDOVER_REQUESTED_def)
  have "initialize (b_bus (demo_board True)) device_tmag e = (False, device_tmag, e)" for e
    by (simp add: demo_board_def initialize_def is_connected_def read_u8_def)
  then have "\<not> (\<exists>mode usb x m d. ?r = Runs mode usb x m d) \<and> ?r \<noteq> Undefined_boot"
    by (auto simp: device_boot_def boot_sensor_def bring_up_failed_end Let_def split: prod.splits bool.splits)
  with unconfirmed_boot_is_not_stranded [OF demo_ops [of True] s(1-4), where U = demo_bringup] s(5-7) show ?thesis
    by (cases ?r) (auto simp: Let_def)
qed

text \<open>A confirmed image whose hardware does not come up stays, and its slots with it: it restarts for a handover only.\<close>

lemma failed_revert_keeps: "revert_if_crash_looping sim_ops cs k q = (False, q') \<Longrightarrow> q' = q"
  by (auto simp: revert_if_crash_looping_def sim_ops_def set_boot_def Let_def split: if_splits option.splits)

lemma confirmed_boot_keeps_slots:
  assumes "b_ops B = sim_ops" "\<not> pending_verify (so_flash (bs_ota s))"
  shows "case device_boot B U reason s of
      Restarts s' \<Rightarrow> bs_marker s' = HANDOVER_REQUESTED
    | Stops s' \<Rightarrow> bs_ota s' = bs_ota s
    | Runs mode usb x m d \<Rightarrow> wd_ota (de_world d) = bs_ota s
    | Undefined_boot \<Rightarrow> True"
proof -
  have p: "\<not> op_pending sim_ops (bs_ota s)" using assms(2) by (simp add: sim_ops_def)
  obtain l fs where l: "log_boot (up_reset_code U) (up_rename_ok U) (up_open_ok U) (up_log_saved U) (up_log_path U) reason
      (running_slot_label (up_slot U)) (bs_files s) = (l, fs)" by fastforce
  obtain b m q where m: "boot_handover sim_ops (boot_records (up_reset_of U) l) (running_slot_label (up_slot U))
      (reason = RST_POWERON) (bs_marker s) (bs_ota s) = (b, m, q)" by (metis prod.collapse)
  have k: "(b \<longrightarrow> m = HANDOVER_REQUESTED) \<and> (\<not> b \<longrightarrow> q = bs_ota s)"
    using m p by (auto simp: boot_handover_def accept_after_handover_def dest!: failed_revert_keeps
        split: prod.splits bool.splits if_splits)
  define s1 where "s1 = s\<lparr>bs_files := fs, bs_marker := m, bs_ota := q\<rparr>"
  have r: "device_boot B U reason s =
      (if b then Restarts (s1\<lparr>bs_ext := b_sleep B 100 (bs_ext s)\<rparr>) else boot_sensor B U l s1)"
    by (simp add: device_boot_def l m s1_def assms(1) split: bool.split)
  show ?thesis
    using sensor_engine [of B s1 U l] k p unfolding r assms(1)
    by (auto simp: s1_def engine_end_def reject_if_pending_def split: boot_end.splits)
qed

text \<open>A build without updates over USB: an image that arrived by an update survives the next reset.\<close>

lemma self_accepted_image_stays:
  assumes "pending_verify (so_flash q)" "boot_slot (so_flash q) = running (so_flash q)"
  shows "running (snd (boot (so_flash (self_accept sim_ops (Some l) q)))) = running (so_flash q) \<and>
    \<not> fst (boot (so_flash (self_accept sim_ops (Some l) q)))"
  using assms boot_confirmed [OF assms(2)] by (simp add: self_accept_def sim_ops_def ota_mark_valid_def)

end
