(* ===== verification/Device_Xac.thy ===== *)
theory Device_Xac
  imports Device_Boot
begin

text \<open>
  The device in the mode of the Xbox Adaptive Controller, the second branch of \<open>run_omega_stick\<close> in
  \<open>main/main.cpp\<close>: its polling loop on the state the boot leaves, beside the console links and the
  loop's head, which it shares with the mouse. The mouse state of the device is not used in this mode.
\<close>

inductive xac_device_step ::
  "('o, 'j, 'e) board \<Rightarrow> xac_state \<times> ('o, 'j, 'e) device \<Rightarrow> xac_state \<times> ('o, 'j, 'e) device \<Rightarrow> bool"
  for B :: "('o, 'j, 'e) board" where
  Xac_console: "xac_device_step B (x, d) (x, link_frame B l now f d)"
| Xac_head: "loop_head B t1 t2 t3 busy1 busy2 d = Some d' \<Longrightarrow> xac_device_step B (x, d) (x, d')"
| Xac_loop: "xac_poll B x (de_world d) = Some (x', w) \<Longrightarrow> xac_device_step B (x, d) (x', d\<lparr>de_world := w\<rparr>)"

inductive_cases xac_device_stepE: "xac_device_step B (x, d) (x', d')"

section \<open>The invariant of the device in this mode\<close>

text \<open>What the mouse loop would work with, were its state the common part of this one.\<close>

definition as_mouse :: "common_state \<Rightarrow> ('o, 'j, 'e) device \<Rightarrow> ('o, 'j, 'e) device" where
  "as_mouse cm d = d\<lparr>de_mouse := (de_mouse d)\<lparr>ms_common := cm\<rparr>\<rparr>"

definition xac_device_ok :: "xac_state \<Rightarrow> (sim_ota, 'j, 'e) device \<Rightarrow> bool" where
  "xac_device_ok x d \<longleftrightarrow> device_ok (as_mouse (xs_common x) d)"

lemma link_frame_as_mouse: "as_mouse cm (link_frame B l now f d) = link_frame B l now f (as_mouse cm d)"
  by (cases l) (simp_all add: as_mouse_def link_frame_def split: prod.split)

lemma loop_head_as_mouse:
  "loop_head B t1 t2 t3 busy1 busy2 d = Some d' \<Longrightarrow>
   loop_head B t1 t2 t3 busy1 busy2 (as_mouse cm d) = Some (as_mouse cm d')"
  by (auto simp: as_mouse_def loop_head_def split: prod.splits bool.splits)

lemma xac_poll_ok:
  assumes "xac_device_ok x d" "xac_poll B x (de_world d) = Some (x', w')"
  shows "xac_device_ok x' (d\<lparr>de_world := w'\<rparr>)"
proof -
  obtain i w where g: "gather_input B (de_world d) = (i, w)" by fastforce
  obtain w1 where t: "xac_tick (b_hypot B) (esp_ports B) x i w = Some (x', w1)"
    and w': "w' = finish_gate (recalibration_requested i) w1"
    using assms(2) g by (auto simp: xac_poll_def)
  note k = esp_keeps.xac_tick_keeps [OF t, simplified prod.inject] and gf = gather_input_frame [OF g]
  have "esp_store.in_step (xs_common x) w"
    using assms(1) gf by (simp add: esp_store.in_step_def xac_device_ok_def as_mouse_def device_ok_def link_ok_def)
  from esp_store.xac_tick_in_step [OF t this] show ?thesis
    using assms(1) k gf
    by (simp add: w' xac_device_ok_def as_mouse_def esp_store.in_step_def device_ok_def link_ok_def store_ok_def)
qed

lemma xac_step_ok:
  assumes "xac_device_step B p p'" "b_ops B = sim_ops" "xac_device_ok (fst p) (snd p)"
  shows "xac_device_ok (fst p') (snd p')"
  using assms
proof (induction rule: xac_device_step.induct)
  case (Xac_console x d l now f)
  then show ?case using link_frame_ok by (simp add: xac_device_ok_def link_frame_as_mouse)
next
  case (Xac_head t1 t2 t3 busy1 busy2 d d' x)
  then show ?case using loop_head_ok [OF _ _ loop_head_as_mouse] by (simp add: xac_device_ok_def)
next
  case (Xac_loop x d x' w)
  then show ?case using xac_poll_ok by simp
qed

lemma xac_steps_ok:
  assumes "(xac_device_step B)\<^sup>*\<^sup>* p p'" "b_ops B = sim_ops" "xac_device_ok (fst p) (snd p)"
  shows "xac_device_ok (fst p') (snd p')"
  using assms by (induction rule: rtranclp_induct) (auto intro: xac_step_ok)

text \<open>A boot hands the engine on without a session.\<close>

lemma handover_keeps_session:
  assumes "boot_handover sim_ops boots slot power_on m q = (h, m', q')"
  shows "op_active sim_ops q' = op_active sim_ops q"
proof -
  have r: "op_active sim_ops (snd (revert_if_crash_looping sim_ops cs k q)) = op_active sim_ops q" for cs k
    by (auto simp: revert_if_crash_looping_def Let_def dest: sim.boot_other_keeps split: option.split prod.split)
  have a: "op_active sim_ops (snd (accept_after_handover sim_ops b p)) = op_active sim_ops p" for b p
    by (auto simp: accept_after_handover_def dest: sim.valid_keeps split: option.split prod.split)
  show ?thesis using assms r a
    by (auto simp: boot_handover_def split: prod.splits bool.splits if_splits) (metis a r snd_conv)+
qed

lemma booted_xac_ok:
  assumes "device_boot B U reason s = Runs mode usb x m d" "b_ops B = sim_ops" "\<not> op_active sim_ops (bs_ota s)"
  shows "xac_device_ok x d"
proof -
  obtain cal settings now d0 q where b: "boot_device B cal settings now q d0 = Some d" "op_active sim_ops q = op_active sim_ops (bs_ota s)"
    "xs_common x = (xs_common init_xac_state)\<lparr>cm_center := st_center (wd_store (de_world d)),
      cm_range := st_range (wd_store (de_world d))\<rparr>"
    using boot_runs [OF assms(1)] handover_keeps_session unfolding assms(2) by (metis prod.collapse)
  have "device_ok d" using boot_device_ok [OF b(1)] b(2) assms(3) by simp
  then show ?thesis by (simp add: xac_device_ok_def as_mouse_def device_ok_def link_ok_def b(3))
qed

lemma held_xac_poll:
  assumes "0 < dv_holds (wd_env (de_world d))"
  shows "\<exists>x' w'. xac_poll B x (de_world d) = Some (x', w') \<and>
    xac_log w' = xac_log (de_world d) @ [xac_hid_of neutral_xac] \<and> mouse_log w' = mouse_log (de_world d)"
proof -
  obtain i w where g: "gather_input B (de_world d) = (i, w)" by fastforce
  note gf = gather_input_frame [OF g]
  have h: "holds_output i" using gf(6) assms by (simp add: holds_output_def)
  then obtain x' w1 where t: "xac_tick (b_hypot B) (esp_ports B) x i w = Some (x', w1)"
    by (cases "sensor_fault_update (esp_ports B) (xs_common x) i w") (auto simp: xac_tick_def Let_def)
  show ?thesis using t g h gf(4,5) esp_log.xac_tick_reports [OF t] by (simp add: xac_poll_def)
qed

section \<open>Properties\<close>

text \<open>C5: In the mode of the Xbox Adaptive Controller too an upload holds the output: from a boot on, over any console
  frames and iterations, an iteration of the loop during an upload completes and sends one neutral report and nothing
  else.\<close>

theorem uploads_hold_the_controller:
  fixes d :: "(sim_ota, 'j, 'e) device"
  assumes "device_boot B U reason s = Runs XAC usb x0 m d0" "b_ops B = sim_ops" "\<not> op_active sim_ops (bs_ota s)"
    "(xac_device_step B)\<^sup>*\<^sup>* (x0, d0) (x, d)" "op_active sim_ops (wd_ota (de_world d))"
  shows "\<exists>x' w'. xac_poll B x (de_world d) = Some (x', w') \<and>
    xac_log w' = xac_log (de_world d) @ [xac_hid_of neutral_xac] \<and> mouse_log w' = mouse_log (de_world d)"
proof (rule held_xac_poll)
  have "xac_device_ok x d"
    using xac_steps_ok [OF assms(4,2)] booted_xac_ok [OF assms(1-3)] by simp
  then show "0 < dv_holds (wd_env (de_world d))"
    using assms(5) by (auto simp: xac_device_ok_def as_mouse_def device_ok_def link_ok_def)
qed

text \<open>A board whose sensor answers every register with the same byte, with settings that ask for this mode.\<close>

definition xac_board :: "(sim_ota, unit, unit) board" where
  "xac_board = (demo_board True)\<lparr>b_bus := \<lparr>bus_read = (\<lambda>a n w. (Some (replicate n 1), w)), bus_write = (\<lambda>a v w. (True, w))\<rparr>\<rparr>"

definition xac_start :: "(sim_ota, unit) boot_state" where
  "xac_start = \<lparr>bs_ota = init_ota (format_flash ''1''), bs_files = [''set'' \<mapsto> ''input_mode=1''], bs_marker = 0, bs_ext = ()\<rparr>"

lemma xac_opens: "open_store None (Some ''input_mode=1'') =
   Inr \<lparr>st_center = init_center, st_range = init_range, st_settings = init_settings\<lparr>nudge_enabled := True, input_mode := XAC\<rparr>\<rparr>"
proof -
  have "getlines ''input_mode=1'' = [''input_mode=1'']" by (simp add: getlines_def newline_def)
  then have p: "parse_file (Some ''input_mode=1'') = Inr [''input_mode'' \<mapsto> f_1]"
    by (simp add: parse_file_def strtof_digit)
  have "\<not> fnan f_1" "ffin f_1" "sval f_1 = one_units" by (simp_all add: f_1_def f32_eval)
  then have "f32_to_int 0 255 f_1 = Some 1" by (simp add: f32_to_int_def tdiv_nonneg one_units_def)
  then have "load_settings (Some ''input_mode=1'') = Inr (init_settings\<lparr>nudge_enabled := True, input_mode := XAC\<rparr>)"
    unfolding load_settings_def p
    by (simp add: check_schema_def settings_of_values_def hold_time_of_def mode_of_value_def mode_of_code_def value_or_def init_settings_def)
  then show ?thesis
    by (simp add: open_store_def load_calibration_def parse_file_def init_settings_def drop_out_of_range_override_def)
qed


lemma xac_boots:
  "\<exists>usb x m d. device_boot xac_board demo_bringup RST_POWERON xac_start = Runs XAC usb x m d \<and>
     de_vendor d = init_service \<and> wd_ota (de_world d) = init_ota (format_flash ''1'') \<and> dv_holds (wd_env (de_world d)) = 0"
proof -
  have i: "\<exists>t. initialize (b_bus xac_board) device_tmag () = (True, t, ())"
    by (simp add: xac_board_def initialize_def is_connected_def read_u8_def detect_variant_def Let_def case_prod_beta
        set_magnetic_channels_def set_xy_range_def set_z_range_def set_conversion_average_def set_low_noise_def
        set_operating_mode_def set_field_def)
  obtain l fs where l: "log_boot (up_reset_code demo_bringup) (up_rename_ok demo_bringup) (up_open_ok demo_bringup)
      (up_log_saved demo_bringup) (up_log_path demo_bringup) RST_POWERON (running_slot_label (up_slot demo_bringup))
      (bs_files xac_start) = (l, fs)" by fastforce
  have "load_log True True ''log'' RESET_LOG_ENTRIES (bs_files xac_start) = (True, init_log RESET_LOG_ENTRIES, bs_files xac_start)"
    by (simp add: load_log_def xac_start_def temp_path_def Let_def)
  then have fs: "fs = bs_files xac_start" and "length (log_entries l) \<le> 1"
    using l by (auto simp: log_boot_def demo_bringup_def save_log_def record_reset_def trim_def init_log_def Let_def)
  then have one: "length (boot_records f l) \<le> 1" for f by (simp add: boot_records_def)
  have h: "boot_handover (b_ops xac_board) (boot_records f l) slot True 0 (init_ota (format_flash ''1'')) =
      (False, 0, init_ota (format_flash ''1''))" for f slot
    using one [of f]
    by (cases "boot_records f l") (simp_all add: boot_handover_def take_handover_marker_def revert_if_crash_looping_def
        accept_after_handover_def CRASH_LOOP_RESETS_def)
  have x: "bs_marker xac_start = 0" "bs_ota xac_start = init_ota (format_flash ''1'')" "bs_ext xac_start = ()"
    "bs_files xac_start ''cal'' = None" "bs_files xac_start ''set'' = Some ''input_mode=1''"
    "xac_start\<lparr>bs_marker := 0, bs_ota := init_ota (format_flash ''1'')\<rparr> = xac_start"
    by (simp_all add: xac_start_def)
  have d: "device_boot xac_board demo_bringup RST_POWERON xac_start = boot_sensor xac_board demo_bringup l xac_start"
    using h by (simp add: device_boot_def l fs x)
  have b: "b_calibration_path xac_board = ''cal''" "b_settings_path xac_board = ''set''" "b_sleep xac_board t e = ()"
    "up_flash_window_s demo_bringup = 0" "up_usb_init demo_bringup c e = (True, e)" for t e c
    by (simp_all add: xac_board_def demo_board_def demo_bringup_def)
  show ?thesis
    unfolding d using i
    by (auto simp: boot_sensor_def x b boot_console_def xac_opens boot_calibration_def load_calibration_def parse_file_def
        bring_up_usb_def start_loop_def boot_device_def set_calibration_def Let_def case_prod_beta)
qed

theorem uploads_hold_the_controller_witness:
  "\<exists>x (d :: (sim_ota, unit, unit) device) x' w'. op_active sim_ops (wd_ota (de_world d)) \<and> xac_poll xac_board x (de_world d) = Some (x', w') \<and>
     xac_log w' = xac_log (de_world d) @ [xac_hid_of neutral_xac]"
proof -
  obtain usb x m d where b: "device_boot xac_board demo_bringup RST_POWERON xac_start = Runs XAC usb x m d"
    and d: "de_vendor d = init_service" "wd_ota (de_world d) = init_ota (format_flash ''1'')" "dv_holds (wd_env (de_world d)) = 0"
    using xac_boots by blast
  have o: "b_ops xac_board = sim_ops" "\<not> op_active sim_ops (bs_ota xac_start)"
    by (simp_all add: xac_board_def demo_board_def xac_start_def sim_ops_def init_ota_def)
  define d1 where "d1 = link_frame xac_board Vendor 0 begin_frame d"
  have s: "(xac_device_step xac_board)\<^sup>*\<^sup>* (x, d) (x, d1)" unfolding d1_def by (intro r_into_rtranclp xac_device_step.Xac_console)
  have a: "op_active sim_ops (wd_ota (de_world d1))"
  proof -
    have r: "request_of (msg_code OtaBegin) = Some OtaBegin" "kModule = fr_module begin_frame" "\<not> fr_reply begin_frame"
      "fr_type begin_frame = msg_code OtaBegin" "length (fr_payload begin_frame) = 4"
      by (simp_all add: begin_frame_def, code_simp)
    have p: "\<not> pending_verify (format_flash ''1'')" by (simp add: pending_verify_def format_flash_def)
    have s: "wd_ota (snd (send (device_wiring xac_board Vendor) fr w)) = wd_ota w" for fr w
      using device_send_frame [OF prod.collapse [symmetric]] unfolding quiet_def by blast
    let ?W = "device_wiring xac_board Vendor"
    obtain s1 w1 where g: "begin_session sim_ops ?W 0 (unat (get_u32 (b_codec xac_board) (fr_payload begin_frame)))
        (de_vendor d, de_world d) = (None, s1, w1)" "after_reply s1 = None" "op_active sim_ops (wd_ota w1)"
      using d p by (simp add: begin_session_def try_ota_def hold_output_def init_service_def device_wiring_simps o(1)
          sim_ops_def ota_begin_def init_ota_def count_hold_def)
    have q: "\<not> op_pending sim_ops (wd_ota (de_world d))" using d(2) p by (simp add: sim_ops_def init_ota_def)
    have m: "ota_begin_msg (b_codec xac_board) ?W 0 (fr_payload begin_frame) (de_vendor d, de_world d) =
        (build_ok (b_codec xac_board) ?W 0, s1, w1)"
      unfolding ota_begin_msg_def device_wiring_simps(1) o(1) using g(1) q by (simp add: r(5))
    have "wd_ota (de_world d1) = wd_ota w1"
      using s g(2) by (simp add: d1_def link_frame_def handle_routed_def device_wiring_simps(6) r handle_frame_def
          handle_frame_locked_def handle_request_def m run_after_reply_def case_prod_beta)
    then show ?thesis using g(3) by simp
  qed
  obtain x' w' where "xac_poll xac_board x (de_world d1) = Some (x', w')"
    "xac_log w' = xac_log (de_world d1) @ [xac_hid_of neutral_xac]"
    using uploads_hold_the_controller [OF b o s a] by blast
  with a show ?thesis by blast
qed

end
