(* ===== verification/Ws_Frames.thy ===== *)
theory Ws_Frames
  imports Omega_Prelude
begin

text \<open>
  The frame codec of \<open>sim/src/ws_protocol.hpp\<close>: \<open>encode_frame\<close> and the incremental \<open>Decoder\<close>. The loop
  of \<open>feed\<close> is an option-valued partial function, so that its returning is something to prove; the
  decoder does not depend on how the bytes are cut into pieces, and reads back what a masked
  client frame encodes.
\<close>

section \<open>Frames\<close>

datatype ws_op = Continuation | Text_op | Binary | Close | Ping | Pong

definition op_code :: "ws_op \<Rightarrow> u8" where
  "op_code p = (case p of Continuation \<Rightarrow> 0 | Text_op \<Rightarrow> 1 | Binary \<Rightarrow> 2 | Close \<Rightarrow> 8 | Ping \<Rightarrow> 9 | Pong \<Rightarrow> 10)"

text \<open>\<open>static_cast<Op>\<close> of a known code.\<close>

definition op_of :: "u8 \<Rightarrow> ws_op" where
  "op_of c = (if c = 0 then Continuation else if c = 1 then Text_op else if c = 2 then Binary
     else if c = 8 then Close else if c = 9 then Ping else Pong)"

definition kMaxMessageSize :: nat where "kMaxMessageSize = 1024 * 1024"

text \<open>The bytes of a size, most significant first.\<close>

fun be_bytes :: "nat \<Rightarrow> nat \<Rightarrow> bytes" where
  "be_bytes 0 n = []"
| "be_bytes (Suc k) n = word_of_nat (n div 256 ^ k) # be_bytes k n"

definition mask_payload :: "bytes \<Rightarrow> bytes \<Rightarrow> bytes" where
  "mask_payload key p = map (\<lambda>i. (p ! i) XOR (key ! (i mod 4))) [0..<length p]"

definition length_bytes :: "u8 \<Rightarrow> nat \<Rightarrow> bytes" where
  "length_bytes mask_bit n =
     (if n < 126 then [mask_bit OR word_of_nat n]
      else if n \<le> 0xFFFF then (mask_bit OR 126) # be_bytes 2 n
      else (mask_bit OR 127) # be_bytes 8 n)"

definition encode_frame :: "ws_op \<Rightarrow> bytes \<Rightarrow> bool \<Rightarrow> bytes option \<Rightarrow> bytes" where
  "encode_frame p payload fin mask_key =
     ((if fin then 0x80 else 0) OR op_code p)
     # length_bytes (if mask_key = None then 0 else 0x80) (length payload)
     @ (case mask_key of None \<Rightarrow> payload | Some key \<Rightarrow> key @ mask_payload key payload)"

section \<open>The decoder\<close>

record message =
  msg_op :: ws_op
  msg_data :: bytes

datatype ws_status = Ws_ok | Protocol_error | Too_big

record decoder =
  d_buf :: bytes
  d_msg :: bytes
  d_op :: ws_op
  in_message :: bool
  d_status :: ws_status

definition init_decoder :: decoder where
  "init_decoder = \<lparr>d_buf = [], d_msg = [], d_op = Text_op, in_message = False, d_status = Ws_ok\<rparr>"

definition close_code :: "decoder \<Rightarrow> u16" where
  "close_code d = (if d_status d = Too_big then 1009 else 1002)"

definition be_value :: "nat \<Rightarrow> bytes \<Rightarrow> nat" where
  "be_value acc bs = foldl (\<lambda>l b. l * 256 + unat b) acc bs"

text \<open>Header size and payload length of the frame at the start of \<open>rest\<close>; \<open>None\<close>: more input is needed.\<close>

definition frame_length :: "bytes \<Rightarrow> (nat \<times> nat) option" where
  "frame_length rest =
     (let n = unat ((rest ! 1) AND 0x7F) in
      if n = 126 then (if length rest < 4 then None else Some (4, be_value 0 (take 2 (drop 2 rest))))
      else if n = 127 then (if length rest < 10 then None else Some (10, be_value 0 (take 8 (drop 2 rest))))
      else Some (2, n))"

text \<open>What a complete data frame does to the message being assembled.\<close>

definition data_frame ::
  "u8 \<Rightarrow> bool \<Rightarrow> bytes \<Rightarrow> nat \<Rightarrow> message list \<Rightarrow> decoder \<Rightarrow> nat \<times> message list \<times> decoder" where
  "data_frame opcode fin payload used out d =
     (if (opcode = 0) \<noteq> in_message d then (0, out, d\<lparr>d_status := Protocol_error\<rparr>)
      else
        let d1 = (if opcode = 0 then d\<lparr>d_msg := d_msg d @ payload\<rparr>
                  else d\<lparr>d_msg := payload, d_op := op_of opcode, in_message := True\<rparr>) in
        if fin then (used, out @ [\<lparr>msg_op = d_op d1, msg_data = d_msg d1\<rparr>],
                     d1\<lparr>d_msg := [], in_message := False\<rparr>)
        else (used, out, d1))"

text \<open>A header the server refuses: reserved bits set, not masked, an unknown opcode, or a control frame that is
  fragmented or too long.\<close>

definition bad_header :: "u8 \<Rightarrow> u8 \<Rightarrow> bool" where
  "bad_header b0 b1 \<longleftrightarrow>
     (let fin = (b0 AND 0x80 \<noteq> 0); opcode = b0 AND 0x0F; masked = (b1 AND 0x80 \<noteq> 0);
          control = (opcode AND 0x08 \<noteq> 0); known = (opcode \<le> 2 \<or> 8 \<le> opcode \<and> opcode \<le> 10) in
      b0 AND 0x70 \<noteq> 0 \<or> \<not> masked \<or> \<not> known \<or> (control \<and> (\<not> fin \<or> 125 < unat (b1 AND 0x7F))))"

text \<open>The rest of a frame once its length is known.\<close>

definition frame_body ::
  "bytes \<Rightarrow> nat \<Rightarrow> nat \<Rightarrow> message list \<Rightarrow> decoder \<Rightarrow> nat \<times> message list \<times> decoder" where
  "frame_body rest header len out d =
     (if kMaxMessageSize < len \<or> kMaxMessageSize < length (d_msg d) + len
      then (0, out, d\<lparr>d_status := Too_big\<rparr>)
      else if length rest < header + 4 + len then (0, out, d)
      else
        let opcode = (rest ! 0) AND 0x0F; fin = ((rest ! 0) AND 0x80 \<noteq> 0);
            payload = mask_payload (take 4 (drop header rest)) (take len (drop (header + 4) rest));
            used = header + 4 + len in
        if opcode AND 0x08 \<noteq> 0 then (used, out @ [\<lparr>msg_op = op_of opcode, msg_data = payload\<rparr>], d)
        else data_frame opcode fin payload used out d)"

definition parse_one :: "nat \<Rightarrow> message list \<Rightarrow> decoder \<Rightarrow> nat \<times> message list \<times> decoder" where
  "parse_one start out d =
     (let rest = drop start (d_buf d) in
      if length rest < 2 then (0, out, d)
      else if bad_header (rest ! 0) (rest ! 1) then (0, out, d\<lparr>d_status := Protocol_error\<rparr>)
      else case frame_length rest of None \<Rightarrow> (0, out, d)
        | Some (header, len) \<Rightarrow> frame_body rest header len out d)"

partial_function (option) feed_loop ::
  "nat \<Rightarrow> message list \<Rightarrow> decoder \<Rightarrow> (nat \<times> message list \<times> decoder) option" where
  "feed_loop consumed out d =
     (case parse_one consumed out d of (used, out1, d1) \<Rightarrow>
        if d_status d1 \<noteq> Ws_ok \<or> used = 0 then Some (consumed, out1, d1)
        else feed_loop (consumed + used) out1 d1)"

definition feed :: "bytes \<Rightarrow> decoder \<Rightarrow> (message list \<times> decoder) option" where
  "feed bs d =
     (if d_status d \<noteq> Ws_ok then Some ([], d)
      else case feed_loop 0 [] (d\<lparr>d_buf := d_buf d @ bs\<rparr>) of None \<Rightarrow> None
      | Some (consumed, out, d1) \<Rightarrow>
          Some (out, if d_status d1 \<noteq> Ws_ok then d1 else d1\<lparr>d_buf := drop consumed (d_buf d1)\<rparr>))"

section \<open>Every frame advances\<close>

lemma frame_length_header: "frame_length rest = Some (h, n) \<Longrightarrow> 2 \<le> h"
  by (auto simp: frame_length_def Let_def split: if_splits)

lemma data_frame_used:
  "data_frame c fin p used out d = (u, out', d') \<Longrightarrow> d_buf d' = d_buf d \<and> (u = 0 \<or> u = used)"
  by (auto simp: data_frame_def Let_def split: if_splits)

lemma frame_body_used:
  "frame_body rest h n out d = (u, o1, d1) \<Longrightarrow>
   d_buf d1 = d_buf d \<and> (u \<noteq> 0 \<longrightarrow> u = h + 4 + n \<and> u \<le> length rest)"
  by (auto simp: frame_body_def Let_def dest!: data_frame_used split: if_splits)

lemma parse_one_used:
  assumes "parse_one start out d = (used, out', d')"
  shows "d_buf d' = d_buf d \<and> (used \<noteq> 0 \<longrightarrow> 6 \<le> used \<and> start + used \<le> length (d_buf d))"
  using assms
  by (auto simp: parse_one_def Let_def dest!: frame_body_used frame_length_header
      split: if_splits option.splits)

lemma feed_total: "\<exists>out d'. feed bs d = Some (out, d')"
proof -
  have "\<exists>r. feed_loop c out d1 = Some r" for c out d1
  proof (induction "length (d_buf d1) - c" arbitrary: c out d1 rule: less_induct)
    case less
    obtain u o1 d2 where p: "parse_one c out d1 = (u, o1, d2)" by (metis prod.collapse)
    show ?case
    proof (cases "d_status d2 \<noteq> Ws_ok \<or> u = 0")
      case True
      then show ?thesis by (simp add: feed_loop.simps [of c] p)
    next
      case False
      then have "length (d_buf d2) - (c + u) < length (d_buf d1) - c"
        using parse_one_used [OF p] by auto
      from less [OF this] False show ?thesis by (simp add: feed_loop.simps [of c] p)
    qed
  qed
  then obtain r where "feed_loop 0 [] (d\<lparr>d_buf := d_buf d @ bs\<rparr>) = Some r" by blast
  then show ?thesis by (cases r) (simp add: feed_def)
qed

text \<open>C26: The loop of the decoder returns on every input: each turn of it takes a whole frame off the buffer.\<close>

theorem feed_returns: "\<exists>out d'. feed bs d = Some (out, d')"
  by (rule feed_total)

section \<open>Cutting the input into pieces\<close>

text \<open>Induction along the loop.\<close>

lemma feed_loop_induct [case_names stop turn]:
  assumes "\<And>c out d u o1 d1. parse_one c out d = (u, o1, d1) \<Longrightarrow> d_status d1 \<noteq> Ws_ok \<or> u = 0 \<Longrightarrow>
      feed_loop c out d = Some (c, o1, d1) \<Longrightarrow> P c out d"
    and "\<And>c out d u o1 d1. parse_one c out d = (u, o1, d1) \<Longrightarrow> d_status d1 = Ws_ok \<Longrightarrow> u \<noteq> 0 \<Longrightarrow>
      feed_loop c out d = feed_loop (c + u) o1 d1 \<Longrightarrow> P (c + u) o1 d1 \<Longrightarrow> P c out d"
  shows "P c out d"
proof (induction "length (d_buf d) - c" arbitrary: c out d rule: less_induct)
  case less
  obtain u o1 d1 where p: "parse_one c out d = (u, o1, d1)" by (metis prod.collapse)
  show ?case
  proof (cases "d_status d1 \<noteq> Ws_ok \<or> u = 0")
    case True
    then show ?thesis by (intro assms(1) [OF p]) (simp_all add: feed_loop.simps [of c] p)
  next
    case False
    then have "P (c + u) o1 d1" using parse_one_used [OF p] by (intro less) auto
    with False show ?thesis by (intro assms(2) [OF p]) (simp_all add: feed_loop.simps [of c] p)
  qed
qed

lemma frame_length_append:
  "frame_length rest = Some r \<Longrightarrow> 2 \<le> length rest \<Longrightarrow> frame_length (rest @ ext) = Some r"
  by (auto simp: frame_length_def Let_def nth_append split: if_splits)

lemma data_frame_buf:
  "data_frame c fin p used out d = (u, o1, d1) \<Longrightarrow>
   data_frame c fin p used out (d\<lparr>d_buf := b\<rparr>) = (u, o1, d1\<lparr>d_buf := b\<rparr>)"
  by (auto simp: data_frame_def Let_def split: if_splits)

lemma frame_body_more:
  assumes "frame_body rest h n out d = (u, o1, d1)" "d_status d = Ws_ok" "u \<noteq> 0 \<or> d_status d1 \<noteq> Ws_ok"
    "2 \<le> length rest"
  shows "frame_body (rest @ ext) h n out (d\<lparr>d_buf := b\<rparr>) = (u, o1, d1\<lparr>d_buf := b\<rparr>)"
proof (cases "length rest < h + 4 + n")
  case True
  then show ?thesis using assms by (auto simp: frame_body_def split: if_splits)
next
  case False
  then have "take 4 (drop h (rest @ ext)) = take 4 (drop h rest)"
    "take n (drop (h + 4) (rest @ ext)) = take n (drop (h + 4) rest)" "(rest @ ext) ! 0 = rest ! 0"
    using assms(4) by (auto simp: nth_append)
  then show ?thesis using assms(1) False
    by (auto simp del: drop_append take_append simp: frame_body_def Let_def dest: data_frame_buf
        split: if_splits)
qed

text \<open>More input does not change what a frame that was decided means.\<close>

lemma parse_one_more:
  assumes "parse_one c out d = (u, o1, d1)" "d_status d = Ws_ok" "u \<noteq> 0 \<or> d_status d1 \<noteq> Ws_ok"
  shows "parse_one c out (d\<lparr>d_buf := d_buf d @ ext\<rparr>) = (u, o1, d1\<lparr>d_buf := d_buf d @ ext\<rparr>)"
proof -
  define rest where "rest = drop c (d_buf d)"
  have two: "2 \<le> length rest"
    using assms by (auto simp: parse_one_def rest_def Let_def split: if_splits)
  then have dr: "drop c (d_buf d @ ext) = rest @ ext"
    and n0: "(rest @ ext) ! 0 = rest ! 0" "(rest @ ext) ! Suc 0 = rest ! Suc 0"
    by (auto simp: rest_def nth_append)
  show ?thesis
  proof (cases "bad_header (rest ! 0) (rest ! 1) \<or> frame_length rest = None")
    case True
    then show ?thesis using assms two
      by (auto simp del: drop_append simp: parse_one_def rest_def [symmetric] dr n0 Let_def split: if_splits)
  next
    case False
    then obtain h n where hn: "frame_length rest = Some (h, n)" by auto
    have "frame_body rest h n out d = (u, o1, d1)"
      using assms(1) False hn two by (simp add: parse_one_def rest_def [symmetric] Let_def split: if_splits)
    from frame_body_more [OF this assms(2,3) two] frame_length_append [OF hn two] False two show ?thesis
      by (simp del: drop_append add: parse_one_def dr n0 Let_def)
  qed
qed

lemma feed_loop_more:
  assumes "d_status d = Ws_ok" "feed_loop c out d = Some (c', o1, d1)"
  shows "feed_loop c out (d\<lparr>d_buf := d_buf d @ ext\<rparr>) =
    (if d_status d1 = Ws_ok then feed_loop c' o1 (d1\<lparr>d_buf := d_buf d1 @ ext\<rparr>)
     else Some (c', o1, d1\<lparr>d_buf := d_buf d1 @ ext\<rparr>))"
  using assms
proof (induction c out d rule: feed_loop_induct)
  case (stop c out d u o2 d2)
  then have e: "c' = c" "o1 = o2" "d1 = d2" by simp_all
  show ?case
  proof (cases "d_status d2 = Ws_ok")
    case True
    then have "u = 0" using stop(2) by simp
    with stop(1) True have "o2 = out \<and> d2 = d"
      by (auto simp: parse_one_def frame_body_def data_frame_def Let_def split: if_splits option.splits)
    with True e show ?thesis by simp
  next
    case False
    with parse_one_more [OF stop(1) stop(4), of ext] parse_one_used [OF stop(1)] e show ?thesis
      by (simp add: feed_loop.simps [of c])
  qed
next
  case (turn c out d u o2 d2)
  from parse_one_more [OF turn(1) turn(6), of ext] turn parse_one_used [OF turn(1)]
  have "feed_loop c out (d\<lparr>d_buf := d_buf d @ ext\<rparr>) = feed_loop (c + u) o2 (d2\<lparr>d_buf := d_buf d2 @ ext\<rparr>)"
    by (simp add: feed_loop.simps [of c])
  with turn show ?case by simp
qed

lemma parse_one_shift:
  "parse_one (k + c) (pre @ out) d =
   (case parse_one c out (d\<lparr>d_buf := drop k (d_buf d)\<rparr>) of (u, o1, d1) \<Rightarrow> (u, pre @ o1, d1\<lparr>d_buf := d_buf d\<rparr>))"
proof -
  have "data_frame x fin p used (pre @ out) d =
      (case data_frame x fin p used out (d\<lparr>d_buf := b\<rparr>) of (u, o1, d1) \<Rightarrow> (u, pre @ o1, d1\<lparr>d_buf := d_buf d\<rparr>))"
    for x fin p used b
    by (auto simp: data_frame_def Let_def)
  then have "frame_body rest h n (pre @ out) d =
      (case frame_body rest h n out (d\<lparr>d_buf := b\<rparr>) of (u, o1, d1) \<Rightarrow> (u, pre @ o1, d1\<lparr>d_buf := d_buf d\<rparr>))"
    for rest h n b
    by (auto simp: frame_body_def Let_def)
  then show ?thesis
    by (simp add: parse_one_def Let_def add.commute split: option.split)
qed

lemma feed_loop_shift:
  "feed_loop (k + c) (pre @ out) d =
   map_option (\<lambda>(c', o1, d1). (k + c', pre @ o1, d1\<lparr>d_buf := d_buf d\<rparr>))
     (feed_loop c out (d\<lparr>d_buf := drop k (d_buf d)\<rparr>))"
proof (induction "length (d_buf d) - (k + c)" arbitrary: c out d rule: less_induct)
  case less
  let ?d = "d\<lparr>d_buf := drop k (d_buf d)\<rparr>"
  obtain u o1 d1 where p: "parse_one c out ?d = (u, o1, d1)" by (metis prod.collapse)
  note s = parse_one_shift [of k c pre out d, unfolded p] and us = parse_one_used [OF p]
  show ?case
  proof (cases "d_status d1 \<noteq> Ws_ok \<or> u = 0")
    case True
    then show ?thesis by (simp add: feed_loop.simps [of c] feed_loop.simps [of "k + c"] p s)
  next
    case False
    let ?e = "d1\<lparr>d_buf := d_buf d\<rparr>"
    have e: "?e\<lparr>d_buf := drop k (d_buf ?e)\<rparr> = d1" using us by simp
    have "feed_loop (k + (c + u)) (pre @ o1) ?e =
        map_option (\<lambda>(c', o1, d2). (k + c', pre @ o1, d2\<lparr>d_buf := d_buf ?e\<rparr>)) (feed_loop (c + u) o1 d1)"
      using less [of ?e "c + u" o1] us False unfolding e by fastforce
    with False show ?thesis
      by (simp add: feed_loop.simps [of c] feed_loop.simps [of "k + c"] p s add.assoc)
  qed
qed

lemma feed_loop_buf: "feed_loop c out d = Some (c', o1, d1) \<Longrightarrow> d_buf d1 = d_buf d"
proof (induction c out d rule: feed_loop_induct)
  case (stop c out d u o2 d2)
  then show ?case using parse_one_used [OF stop(1)] by simp
next
  case (turn c out d u o2 d2)
  then show ?case using parse_one_used [OF turn(1)] by simp
qed

lemma feed_loop_bound:
  "feed_loop c out d = Some (c', o1, d1) \<Longrightarrow> c \<le> length (d_buf d) \<Longrightarrow> c' \<le> length (d_buf d1)"
proof (induction c out d rule: feed_loop_induct)
  case (stop c out d u o2 d2)
  then show ?case using parse_one_used [OF stop(1)] by simp
next
  case (turn c out d u o2 d2)
  then show ?case using parse_one_used [OF turn(1)] by simp
qed

lemma feed_append:
  assumes "feed xs d = Some (o1, d1)" "feed ys d1 = Some (o2, d2)"
  shows "\<exists>d3. feed (xs @ ys) d = Some (o1 @ o2, d3) \<and> d_status d3 = d_status d2 \<and>
    (d_status d2 = Ws_ok \<longrightarrow> d3 = d2)"
proof (cases "d_status d = Ws_ok")
  case False
  then show ?thesis using assms by (auto simp: feed_def)
next
  case True
  let ?d = "d\<lparr>d_buf := d_buf d @ xs\<rparr>"
  obtain c e where l: "feed_loop 0 [] ?d = Some (c, o1, e)"
    and d1: "d1 = (if d_status e \<noteq> Ws_ok then e else e\<lparr>d_buf := drop c (d_buf e)\<rparr>)"
    using assms(1) True by (auto simp: feed_def split: option.splits)
  have m: "feed_loop 0 [] (d\<lparr>d_buf := d_buf d @ xs @ ys\<rparr>) =
      (if d_status e = Ws_ok then feed_loop c o1 (e\<lparr>d_buf := d_buf e @ ys\<rparr>)
       else Some (c, o1, e\<lparr>d_buf := d_buf e @ ys\<rparr>))"
    using feed_loop_more [OF _ l, of ys] True by simp
  show ?thesis
  proof (cases "d_status e = Ws_ok")
    case False
    then show ?thesis using m d1 assms(2) True by (auto simp: feed_def)
  next
    case ok: True
    have le: "c \<le> length (d_buf e)" using feed_loop_bound [OF l] by simp
    have b: "d1\<lparr>d_buf := d_buf d1 @ ys\<rparr> = e\<lparr>d_buf := drop c (d_buf e @ ys)\<rparr>" using d1 ok le by simp
    obtain c2 e2 where l2: "feed_loop 0 [] (d1\<lparr>d_buf := d_buf d1 @ ys\<rparr>) = Some (c2, o2, e2)"
      and d2: "d2 = (if d_status e2 \<noteq> Ws_ok then e2 else e2\<lparr>d_buf := drop c2 (d_buf e2)\<rparr>)"
      using assms(2) d1 ok by (auto simp: feed_def split: option.splits)
    have be: "d_buf e2 = drop c (d_buf e @ ys)" using feed_loop_buf [OF l2] unfolding b by simp
    have "feed_loop c o1 (e\<lparr>d_buf := d_buf e @ ys\<rparr>) = Some (c + c2, o1 @ o2, e2\<lparr>d_buf := d_buf e @ ys\<rparr>)"
      using feed_loop_shift [of c 0 o1 "[]" "e\<lparr>d_buf := d_buf e @ ys\<rparr>"] l2 unfolding b by simp
    moreover have "drop (c + c2) (d_buf e @ ys) = drop c2 (d_buf e2)"
      using be by (simp del: drop_append add: add.commute)
    ultimately show ?thesis using m ok d2 True by (simp del: drop_append add: feed_def)
  qed
qed

text \<open>C25: How the transport cuts the byte stream does not matter: feeding two pieces one after the other gives the
  messages, the status and, unless an error was found, the state of feeding them at once.\<close>

theorem pieces_do_not_matter:
  assumes "feed xs d = Some (o1, d1)" "feed ys d1 = Some (o2, d2)"
  shows "\<exists>d3. feed (xs @ ys) d = Some (o1 @ o2, d3) \<and> d_status d3 = d_status d2 \<and>
    (d_status d2 = Ws_ok \<longrightarrow> d3 = d2)"
  using feed_append [OF assms] .

definition close_frame :: bytes where
  "close_frame = encode_frame Close [3, 232] True (Some [1, 2, 3, 4])"

theorem pieces_do_not_matter_witness:
  "\<exists>d3. feed close_frame init_decoder = Some ([\<lparr>msg_op = Close, msg_data = [3, 232]\<rparr>], d3)"
proof -
  have "feed (take 3 close_frame) init_decoder = Some ([], init_decoder\<lparr>d_buf := take 3 close_frame\<rparr>)"
    "feed (drop 3 close_frame) (init_decoder\<lparr>d_buf := take 3 close_frame\<rparr>) =
     Some ([\<lparr>msg_op = Close, msg_data = [3, 232]\<rparr>], init_decoder)"
    by (simp_all add: feed_def feed_loop.simps parse_one_def frame_length_def bad_header_def frame_body_def
        init_decoder_def close_frame_def encode_frame_def length_bytes_def op_code_def op_of_def
        mask_payload_def kMaxMessageSize_def upt_rec Let_def)
  from pieces_do_not_matter [OF this] show ?thesis by auto
qed

section \<open>What a client sends is what the server reads\<close>

lemma be_value_bytes: "be_value acc (be_bytes k n) = acc * 256 ^ k + n mod 256 ^ k"
proof (induction k arbitrary: acc)
  case (Suc k)
  have "be_value acc (be_bytes (Suc k) n) = be_value (acc * 256 + n div 256 ^ k mod 256) (be_bytes k n)"
    by (simp add: be_value_def unat_of_nat)
  also have "\<dots> = acc * 256 ^ Suc k + n mod (256 ^ k * 256)"
    unfolding Suc mod_mult2_eq by (simp add: algebra_simps)
  finally show ?case by (simp add: mult.commute)
qed (simp add: be_value_def)

lemma length_be_bytes [simp, wire_simps]: "length (be_bytes k n) = k"
  by (induction k) simp_all

lemma length_mask [simp, wire_simps]: "length (mask_payload key p) = length p"
  by (simp add: mask_payload_def)

lemma mask_twice: "mask_payload key (mask_payload key p) = p"
  by (rule nth_equalityI) (simp_all add: mask_payload_def xor.assoc)

lemma first_byte:
  "((if fin then 0x80 else 0) OR op_code p) AND 0x0F = op_code p"
  "((if fin then 0x80 else 0) OR op_code p) AND 0x70 = (0 :: u8)"
  "((if fin then 0x80 else 0) OR op_code p) AND 0x80 \<noteq> (0 :: u8) \<longleftrightarrow> fin"
  by (cases p; simp add: op_code_def)+

lemma op_of_code [simp]: "op_of (op_code p) = p"
  by (cases p) (simp_all add: op_code_def op_of_def)

lemma second_byte:
  assumes "n < 128"
  shows "unat ((0x80 OR word_of_nat n) AND (0x7F :: u8)) = n" "(0x80 OR w) AND (0x80 :: u8) = 0x80"
proof -
  have "(0x80 OR word_of_nat n) AND (0x7F :: u8) = take_bit 7 (word_of_nat n)"
    by (simp add: bit.conj_disj_distrib2 take_bit_eq_mask mask_eq_exp_minus_1)
  then show "unat ((0x80 OR word_of_nat n) AND (0x7F :: u8)) = n"
    using assms by (simp only: unsigned_take_bit_eq unat_of_nat) (simp add: take_bit_eq_mod)
  show "(0x80 OR w) AND (0x80 :: u8) = 0x80" by (simp add: bit.conj_disj_distrib2)
qed

lemma frame_length_encoded:
  assumes "n \<le> kMaxMessageSize"
  obtains h where "h = length (length_bytes 0x80 n) + 1"
    "frame_length (b0 # length_bytes 0x80 n @ rest) = Some (h, n)"
    "(length_bytes 0x80 n @ rest) ! 0 AND 0x80 \<noteq> 0" "2 \<le> h"
    "125 < unat ((length_bytes 0x80 n @ rest) ! 0 AND 0x7F) \<longleftrightarrow> 125 < n"
proof -
  have m: "n < 256 ^ 8" using assms by (simp add: kMaxMessageSize_def)
  consider "n < 126" | "126 \<le> n" "n \<le> 0xFFFF" | "0xFFFF < n" by linarith
  then show ?thesis
  proof cases
    case 1
    then show ?thesis
      by (intro that [of 2]) (simp_all add: length_bytes_def frame_length_def second_byte Let_def)
  next
    case 2
    then have "be_value 0 (be_bytes 2 n) = n" by (simp add: be_value_bytes)
    with 2 show ?thesis
      by (intro that [of 4]) (simp_all add: length_bytes_def frame_length_def Let_def)
  next
    case 3
    then have "be_value 0 (be_bytes 8 n) = n" using m by (simp add: be_value_bytes)
    with 3 show ?thesis
      by (intro that [of 10]) (simp_all add: length_bytes_def frame_length_def Let_def)
  qed
qed

text \<open>One frame, fed to a decoder that is between frames.\<close>

lemma feed_frame:
  assumes "d_buf d = []" "d_status d = Ws_ok" "length key = 4" "op_code p AND 0x08 = 0"
    "(p = Continuation) = in_message d" "length (d_msg d) + length payload \<le> kMaxMessageSize"
    "d1 = (if p = Continuation then d\<lparr>d_msg := d_msg d @ payload\<rparr>
           else d\<lparr>d_msg := payload, d_op := p, in_message := True\<rparr>)"
  shows "feed (encode_frame p payload fin (Some key)) d =
    Some (if fin then ([\<lparr>msg_op = d_op d1, msg_data = d_msg d1\<rparr>], d1\<lparr>d_msg := [], in_message := False\<rparr>)
          else ([], d1))"
proof -
  define fr where "fr = encode_frame p payload fin (Some key)"
  define b0 where "b0 = ((if fin then 0x80 else 0) OR op_code p)"
  define r where "r = key @ mask_payload key payload"
  have fr: "fr = b0 # length_bytes 0x80 (length payload) @ r"
    by (simp add: fr_def encode_frame_def b0_def r_def)
  obtain h where h: "h = length (length_bytes 0x80 (length payload)) + 1" "2 \<le> h"
    "frame_length fr = Some (h, length payload)" "fr ! 1 AND 0x80 \<noteq> 0"
    using frame_length_encoded [of "length payload" b0 r] assms(6) fr by auto
  have len: "length fr = h + 4 + length payload" by (simp add: fr h(1) r_def assms(3))
  have dh: "drop h fr = r" by (simp add: fr h(1))
  have pl: "mask_payload (take 4 (drop h fr)) (take (length payload) (drop (h + 4) fr)) = payload"
    using dh assms(3) mask_twice by (simp add: r_def flip: drop_drop add.commute [of 4])
  have b: "fr ! 0 = b0" "b0 AND 0x0F = op_code p" "b0 AND 0x70 = 0" "b0 AND 0x80 \<noteq> 0 \<longleftrightarrow> fin"
    using first_byte [where p = p and fin = fin] by (simp_all add: fr b0_def)
  have op: "op_code p \<le> 2" "op_code p = 0 \<longleftrightarrow> p = Continuation"
    using assms(4) by (cases p; simp add: op_code_def)+
  define e where "e = d\<lparr>d_buf := fr\<rparr>"
  have "parse_one 0 [] e = data_frame (op_code p) fin payload (length fr) [] e"
    using h(2-4) len pl b op assms(4,6)
    by (simp add: parse_one_def e_def bad_header_def frame_body_def Let_def)
  also have "\<dots> = (length fr, if fin then [\<lparr>msg_op = d_op d1, msg_data = d_msg d1\<rparr>] else [],
      (if fin then d1\<lparr>d_msg := [], in_message := False\<rparr> else d1)\<lparr>d_buf := fr\<rparr>)"
    using assms(5,7) op by (auto simp: data_frame_def e_def Let_def)
  finally have one: "parse_one 0 [] e = \<dots>" .
  have stop: "parse_one (length fr) out x = (0, out, x)" if "d_buf x = fr" for out x
    using that by (simp add: parse_one_def)
  have "d_status d1 = Ws_ok" "d_buf d1 = []" "length fr \<noteq> 0" using assms(1,2,7) len by simp_all
  then show ?thesis
    using one stop assms(1,2) unfolding fr_def [symmetric]
    by (simp add: feed_def feed_loop.simps [of 0] feed_loop.simps [of "length fr"] e_def)
qed

text \<open>A message as a client sends it: one data frame and its continuations, each masked.\<close>

fun client_frames :: "ws_op \<Rightarrow> (bytes \<times> bytes) list \<Rightarrow> bytes" where
  "client_frames p [] = []"
| "client_frames p ((key, piece) # ps) =
     encode_frame p piece (ps = []) (Some key) @ client_frames Continuation ps"

lemma feed_pieces:
  assumes "ps \<noteq> []" "\<forall>x \<in> set ps. length (fst x) = 4" "d_buf d = []" "d_status d = Ws_ok"
    "op_code p AND 0x08 = 0" "(p = Continuation) = in_message d"
    "length (if p = Continuation then d_msg d else []) + length (concat (map snd ps)) \<le> kMaxMessageSize"
    "p \<noteq> Continuation \<longrightarrow> d_msg d = []"
  shows "feed (client_frames p ps) d =
    Some ([\<lparr>msg_op = (if p = Continuation then d_op d else p),
            msg_data = (if p = Continuation then d_msg d else []) @ concat (map snd ps)\<rparr>],
          d\<lparr>d_msg := [], d_op := (if p = Continuation then d_op d else p), in_message := False\<rparr>)"
  using assms
proof (induction ps arbitrary: p d)
  case (Cons x ps)
  obtain key piece where x: "x = (key, piece)" by (cases x)
  define d1 where "d1 = (if p = Continuation then d\<lparr>d_msg := d_msg d @ piece\<rparr>
           else d\<lparr>d_msg := piece, d_op := p, in_message := True\<rparr>)"
  have f: "feed (encode_frame p piece fin (Some key)) d =
    Some (if fin then ([\<lparr>msg_op = d_op d1, msg_data = d_msg d1\<rparr>], d1\<lparr>d_msg := [], in_message := False\<rparr>)
          else ([], d1))" for fin
    by (rule feed_frame [OF Cons.prems(3,4) _ Cons.prems(5,6) _ d1_def])
      (use Cons.prems x in \<open>auto split: if_splits\<close>)
  show ?case
  proof (cases "ps = []")
    case True
    then show ?thesis using f [of True] by (simp add: x d1_def)
  next
    case False
    have "feed (client_frames Continuation ps) d1 =
      Some ([\<lparr>msg_op = d_op d1, msg_data = d_msg d1 @ concat (map snd ps)\<rparr>],
            d1\<lparr>d_msg := [], d_op := d_op d1, in_message := False\<rparr>)"
      using Cons.IH [of d1 Continuation] False Cons.prems x by (auto simp: d1_def op_code_def)
    from feed_append [OF f [of False, unfolded if_False] this] show ?thesis
      using False Cons.prems(4) x by (auto simp: d1_def)
  qed
qed simp

text \<open>C27: A text or binary message of up to a mebibyte, masked as a client must and fragmented in any way, is read back
  as it was sent, and the decoder is ready for the next one.\<close>

theorem client_message_round_trip:
  assumes "ps \<noteq> []" "\<forall>x \<in> set ps. length (fst x) = 4" "p = Text_op \<or> p = Binary"
    "length (concat (map snd ps)) \<le> kMaxMessageSize"
  shows "feed (client_frames p ps) init_decoder =
    Some ([\<lparr>msg_op = p, msg_data = concat (map snd ps)\<rparr>], init_decoder\<lparr>d_op := p\<rparr>)"
proof -
  have "op_code p AND 0x08 = 0" "p \<noteq> Continuation" using assms(3) by (auto simp: op_code_def)
  then show ?thesis
    using feed_pieces [OF assms(1,2), of init_decoder p] assms(4) by (simp add: init_decoder_def)
qed

theorem client_message_round_trip_witness:
  "feed (client_frames Text_op [([1, 2, 3, 4], [104, 101]), ([5, 6, 7, 8], [121])]) init_decoder =
   Some ([\<lparr>msg_op = Text_op, msg_data = [104, 101, 121]\<rparr>], init_decoder)"
  using client_message_round_trip [of "[([1, 2, 3, 4], [104, 101]), ([5, 6, 7, 8], [121])]" Text_op]
  by (simp add: kMaxMessageSize_def init_decoder_def)

end
