(* ===== verification/Ws_Handshake.thy ===== *)
theory Ws_Handshake
  imports Ws_Frames
begin

text \<open>
  The handshake of \<open>sim/src/ws_protocol.hpp\<close>: SHA-1, base64, the Origin policy and the validation of
  the upgrade request.
\<close>

section \<open>SHA-1\<close>

definition rol :: "u32 \<Rightarrow> nat \<Rightarrow> u32" where
  "rol v n = push_bit n v OR drop_bit (32 - n) v"

text \<open>The loop that appends zeros until 8 bytes are left of a block; \<open>gap n\<close> is how many a message of \<open>n\<close>
  bytes takes.\<close>

definition gap :: "nat \<Rightarrow> nat" where
  "gap n = (if n mod 64 \<le> 56 then 56 - n mod 64 else 120 - n mod 64)"

lemma gap_Suc: "n mod 64 \<noteq> 56 \<Longrightarrow> gap n = Suc (gap (Suc n))"
proof -
  assume n: "n mod 64 \<noteq> 56"
  have "n mod 64 < 64" by simp
  with n show ?thesis unfolding gap_def mod_Suc by (cases "Suc (n mod 64) = 64") auto
qed

lemma gap_le: "gap n \<le> 63"
  by (auto simp: gap_def)

function pad_zeros :: "bytes \<Rightarrow> bytes" where
  "pad_zeros m = (if length m mod 64 = 56 then m else pad_zeros (m @ [0]))"
  by pat_completeness auto
termination
  by (relation "measure (\<lambda>m. gap (length m))") (simp_all add: gap_Suc)

declare pad_zeros.simps [simp del]

definition sha1_pad :: "bytes \<Rightarrow> bytes" where
  "sha1_pad d = pad_zeros (d @ [0x80]) @ be_bytes 8 (length d * 8)"

definition word_at :: "bytes \<Rightarrow> nat \<Rightarrow> u32" where
  "word_at m j = push_bit 24 (ucast (m ! j)) OR push_bit 16 (ucast (m ! (j + 1)))
     OR push_bit 8 (ucast (m ! (j + 2))) OR ucast (m ! (j + 3))"

definition schedule :: "bytes \<Rightarrow> nat \<Rightarrow> u32 list" where
  "schedule m off =
     fold (\<lambda>i w. w @ [rol (w ! (i - 3) XOR w ! (i - 8) XOR w ! (i - 14) XOR w ! (i - 16)) 1])
       [16..<80] (map (\<lambda>i. word_at m (off + i * 4)) [0..<16])"

type_synonym sha_state = "u32 \<times> u32 \<times> u32 \<times> u32 \<times> u32"

definition sha_round :: "u32 list \<Rightarrow> nat \<Rightarrow> sha_state \<Rightarrow> sha_state" where
  "sha_round w i s =
     (case s of (a, b, c, d, e) \<Rightarrow>
        let (f, k) = (if i < 20 then ((b AND c) OR (NOT b AND d), 0x5A827999)
              else if i < 40 then (b XOR c XOR d, 0x6ED9EBA1)
              else if i < 60 then ((b AND c) OR (b AND d) OR (c AND d), 0x8F1BBCDC)
              else (b XOR c XOR d, 0xCA62C1D6)) in
        (rol a 5 + f + e + k + w ! i, a, rol b 30, c, d))"

definition sha_block :: "bytes \<Rightarrow> nat \<Rightarrow> sha_state \<Rightarrow> sha_state" where
  "sha_block m off h =
     (case fold (sha_round (schedule m off)) [0..<80] h of (a, b, c, d, e) \<Rightarrow>
        case h of (h0, h1, h2, h3, h4) \<Rightarrow> (h0 + a, h1 + b, h2 + c, h3 + d, h4 + e))"

definition u32_be :: "u32 \<Rightarrow> bytes" where
  "u32_be v = [ucast (drop_bit 24 v), ucast (drop_bit 16 v), ucast (drop_bit 8 v), ucast v]"

definition sha1 :: "bytes \<Rightarrow> bytes" where
  "sha1 d =
     (let m = sha1_pad d in
      case fold (\<lambda>i. sha_block m (i * 64)) [0..<(length m + 63) div 64]
             (0x67452301, 0xEFCDAB89, 0x98BADCFE, 0x10325476, 0xC3D2E1F0) of
        (a, b, c, d, e) \<Rightarrow> u32_be a @ u32_be b @ u32_be c @ u32_be d @ u32_be e)"

text \<open>Padding a message for SHA-1 ends, whatever its length: the message stays in front, at most 72 bytes are
  added, and the result is a whole number of blocks.\<close>

theorem sha1_pad_blocks:
  "take (length d) (sha1_pad d) = d \<and> length (sha1_pad d) mod 64 = 0 \<and> length (sha1_pad d) \<le> length d + 72"
proof -
  have all: "pad_zeros m = m @ replicate (gap (length m)) 0 \<and> length (pad_zeros m) mod 64 = 56" for m
  proof (induction m rule: pad_zeros.induct)
    case (1 m)
    show ?case
    proof (cases "length m mod 64 = 56")
      case True
      then show ?thesis by (simp add: pad_zeros.simps [of m] gap_def)
    next
      case False
      note ih = 1 [OF False]
      have e: "pad_zeros m = pad_zeros (m @ [0])" using False by (simp add: pad_zeros.simps [of m])
      have "pad_zeros m = m @ replicate (gap (length m)) 0" using e ih gap_Suc [OF False] by simp
      moreover have "length (pad_zeros m) mod 64 = 56" unfolding e using ih by blast
      ultimately show ?thesis by blast
    qed
  qed
  have k: "pad_zeros (d @ [0x80]) = (d @ [0x80]) @ replicate (gap (length d + 1)) 0"
    using all [of "d @ [0x80]"] by simp
  have k2: "length (pad_zeros (d @ [0x80])) mod 64 = 56" using all by blast
  have ar: "(n + 8) mod 64 = 0" if "n mod 64 = 56" for n :: nat using that by presburger
  have "length (sha1_pad d) = length (pad_zeros (d @ [0x80])) + 8" by (simp add: sha1_pad_def)
  then have "length (sha1_pad d) mod 64 = 0" using ar [OF k2] by presburger
  moreover have "take (length d) (sha1_pad d) = d" by (simp add: sha1_pad_def k)
  ultimately show ?thesis using gap_le [of "length d + 1"] by (simp add: sha1_pad_def k)
qed

section \<open>Base64\<close>

definition base64_table :: string where
  "base64_table = ''ABCDEFGHIJKLMNOPQRSTUVWXYZabcdefghijklmnopqrstuvwxyz0123456789+/''"

definition sextet :: "u32 \<Rightarrow> nat \<Rightarrow> char" where
  "sextet v n = base64_table ! unat (drop_bit n v AND 63)"

fun base64_encode :: "bytes \<Rightarrow> string" where
  "base64_encode (a # b # c # rest) =
     (let v = push_bit 16 (ucast a) OR push_bit 8 (ucast b) OR ucast c in
      [sextet v 18, sextet v 12, sextet v 6, sextet v 0] @ base64_encode rest)"
| "base64_encode [a, b] =
     (let v = push_bit 16 (ucast a) OR push_bit 8 (ucast b) in
      [sextet v 18, sextet v 12, sextet v 6, CHR ''='']) "
| "base64_encode [a] =
     (let v = push_bit 16 (ucast a) in [sextet v 18, sextet v 12, CHR ''='', CHR ''='']) "
| "base64_encode [] = []"

text \<open>The decoder of RFC 4648, as a reference for what the text means.\<close>

definition sextet_val :: "char \<Rightarrow> u32" where
  "sextet_val c = word_of_nat (length (takeWhile (\<lambda>x. x \<noteq> c) base64_table))"

definition group_val :: "char \<Rightarrow> char \<Rightarrow> char \<Rightarrow> char \<Rightarrow> u32" where
  "group_val a b c d = push_bit 18 (sextet_val a) OR push_bit 12 (sextet_val b)
     OR push_bit 6 (sextet_val c) OR sextet_val d"

fun base64_decode :: "string \<Rightarrow> bytes" where
  "base64_decode (a # b # c # d # rest) =
     (if c = CHR ''='' then [ucast (drop_bit 16 (group_val a b CHR ''A'' CHR ''A''))]
      else if d = CHR ''='' then
        (let v = group_val a b c CHR ''A'' in [ucast (drop_bit 16 v), ucast (drop_bit 8 v)])
      else (let v = group_val a b c d in [ucast (drop_bit 16 v), ucast (drop_bit 8 v), ucast v])
        @ base64_decode rest)"
| "base64_decode _ = []"

lemma all_sextets:
  "\<forall>k \<in> set [0..<64]. length (takeWhile (\<lambda>x. x \<noteq> base64_table ! k) base64_table) = k \<and>
     base64_table ! k \<noteq> CHR ''=''"
  by code_simp

lemma sextet_simps:
  "sextet v n \<noteq> CHR ''=''" "sextet_val (sextet v n) = drop_bit n v AND 63" "sextet_val CHR ''A'' = 0"
proof -
  have "unat (drop_bit n v AND 63) < 64"
    by (rule order_le_less_trans [OF word_and_le1 [THEN iffD1 [OF word_le_nat_alt]]]) simp
  then have "unat (drop_bit n v AND 63) \<in> set [0..<64]" by simp
  from all_sextets [rule_format, OF this]
  show "sextet v n \<noteq> CHR ''=''" "sextet_val (sextet v n) = drop_bit n v AND 63"
    by (simp_all add: sextet_def sextet_val_def)
  show "sextet_val CHR ''A'' = 0" by (simp add: sextet_val_def base64_table_def)
qed

lemma mask_63: "(x :: u32) AND 63 = take_bit 6 x"
  by (simp add: take_bit_eq_mask mask_eq_exp_minus_1)

lemma group_sextets:
  "group_val (sextet v 18) (sextet v 12) (sextet v 6) (sextet v 0) = take_bit 24 v"
  unfolding group_val_def sextet_simps mask_63
proof (rule bit_word_eqI)
  fix n assume "n < LENGTH(32)"
  then consider "n < 6" | "6 \<le> n" "n < 12" | "12 \<le> n" "n < 18" | "18 \<le> n" "n < 24" | "24 \<le> n" by linarith
  then show "bit (push_bit 18 (take_bit 6 (drop_bit 18 v)) OR push_bit 12 (take_bit 6 (drop_bit 12 v)) OR
      push_bit 6 (take_bit 6 (drop_bit 6 v)) OR take_bit 6 (drop_bit 0 v)) n = bit (take_bit 24 v) n"
    by cases (auto simp: bit_simps)
qed

lemma three_bytes:
  fixes a b c :: u8
  defines "v \<equiv> push_bit 16 (ucast a) OR push_bit 8 (ucast b) OR (ucast c :: u32)"
  shows "take_bit 24 v = v" "ucast (drop_bit 16 v) = a" "ucast (drop_bit 8 v) = b" "ucast v = c"
  unfolding v_def by (rule bit_word_eqI, auto simp: bit_simps dest: bit_imp_le_length)+

lemma padded_groups:
  "take_bit 6 v = 0 \<Longrightarrow> sextet v 0 = CHR ''A''" "take_bit 6 (drop_bit 6 v) = 0 \<Longrightarrow> sextet v 6 = CHR ''A''"
  by (simp_all add: sextet_def mask_63 base64_table_def)

text \<open>Base64 text decodes to exactly the bytes it was made from.\<close>

theorem base64_round_trip: "base64_decode (base64_encode d) = d"
proof (induction d rule: base64_encode.induct)
  case (1 a b c rest)
  then show ?case
    using three_bytes [of a b c] by (simp add: sextet_simps group_sextets Let_def)
next
  case (2 a b)
  define v where "v = push_bit 16 (ucast a) OR push_bit 8 (ucast b :: u32)"
  have "sextet v 0 = CHR ''A''"
    by (rule padded_groups, rule bit_word_eqI) (auto simp: v_def bit_simps)
  with group_sextets [of v] have "group_val (sextet v 18) (sextet v 12) (sextet v 6) CHR ''A'' = take_bit 24 v" by simp
  then show ?case using three_bytes [of a b 0] by (simp add: v_def [symmetric] sextet_simps Let_def)
next
  case (3 a)
  define v where "v = push_bit 16 (ucast a :: u32)"
  have "sextet v 0 = CHR ''A''" "sextet v 6 = CHR ''A''"
    by (rule padded_groups, rule bit_word_eqI, auto simp: v_def bit_simps)+
  with group_sextets [of v] have "group_val (sextet v 18) (sextet v 12) CHR ''A'' CHR ''A'' = take_bit 24 v" by simp
  then show ?case using three_bytes [of a 0 0] by (simp add: v_def [symmetric] sextet_simps Let_def)
qed simp

section \<open>The handshake\<close>

definition WS_GUID :: string where
  "WS_GUID = ''258EAFA5-E914-47DA-95CA-C5AB0DC85B11''"

definition accept_key :: "string \<Rightarrow> string" where
  "accept_key client_key = base64_encode (sha1 (map of_char (client_key @ WS_GUID)))"

definition starts_with :: "string \<Rightarrow> string \<Rightarrow> bool" where
  "starts_with p s \<longleftrightarrow> take (length p) s = p"

definition local_origin :: "string \<Rightarrow> string \<Rightarrow> bool" where
  "local_origin p s \<longleftrightarrow>
     (let rest = drop (length p) s in
      starts_with p s \<and>
      (rest = [] \<or> (2 \<le> length rest \<and> rest ! 0 = CHR '':'' \<and> list_all is_digit (drop 1 rest))))"

definition origin_allowed :: "string option \<Rightarrow> bool" where
  "origin_allowed origin =
     (case origin of None \<Rightarrow> True
      | Some s \<Rightarrow>
          s = ''null'' \<or> s = ''file://'' \<or> s = ''https://atdev-inc.github.io'' \<or>
          list_ex (\<lambda>p. local_origin p s) [''http://localhost'', ''http://127.0.0.1''])"

definition blank :: "char \<Rightarrow> bool" where
  "blank c \<longleftrightarrow> c = CHR '' '' \<or> c = CHR 0x09"

definition ws_trim :: "string \<Rightarrow> string" where
  "ws_trim s = rev (dropWhile (\<lambda>c. blank c \<or> c = CHR 0x0D) (rev (dropWhile blank s)))"

definition lower_char :: "char \<Rightarrow> char" where
  "lower_char c =
     (let n = of_char c :: nat in if 65 \<le> n \<and> n \<le> 90 then char_of (n + 32) else c)"

definition ws_lower :: "string \<Rightarrow> string" where
  "ws_lower s = map lower_char s"

fun contains :: "string \<Rightarrow> string \<Rightarrow> bool" where
  "contains p [] = (p = [])"
| "contains p (c # s) = (starts_with p (c # s) \<or> contains p s)"

record headers =
  hd_key :: "string option"
  hd_origin :: "string option"
  hd_version :: "string option"
  hd_upgrade :: bool
  hd_connection :: bool

definition header_line :: "string \<Rightarrow> headers \<Rightarrow> headers" where
  "header_line line h =
     (case split_at CHR '':'' line of None \<Rightarrow> h
      | Some (name, value) \<Rightarrow>
          let n = ws_lower (ws_trim name); v = ws_trim value in
          if n = ''upgrade'' then h\<lparr>hd_upgrade := (ws_lower v = ''websocket'')\<rparr>
          else if n = ''connection'' then h\<lparr>hd_connection := contains ''upgrade'' (ws_lower v)\<rparr>
          else if n = ''sec-websocket-key'' then h\<lparr>hd_key := Some v\<rparr>
          else if n = ''sec-websocket-version'' then h\<lparr>hd_version := Some v\<rparr>
          else if n = ''origin'' then h\<lparr>hd_origin := Some v\<rparr>
          else h)"

definition read_headers :: "string \<Rightarrow> headers" where
  "read_headers s = fold header_line (getlines s)
     \<lparr>hd_key = None, hd_origin = None, hd_version = None, hd_upgrade = False, hd_connection = False\<rparr>"

record handshake =
  hs_status :: int
  hs_reason :: string
  hs_accept :: string

definition reject :: "int \<Rightarrow> string \<Rightarrow> handshake" where
  "reject n r = \<lparr>hs_status = n, hs_reason = r, hs_accept = []\<rparr>"

definition parse_handshake :: "string \<Rightarrow> handshake" where
  "parse_handshake request =
     (case split_at newline request of None \<Rightarrow> reject 400 ''Bad Request''
      | Some (request_line, rest) \<Rightarrow>
          if \<not> starts_with ''GET '' (ws_trim request_line) then reject 405 ''Method Not Allowed''
          else
            let h = read_headers rest in
            if \<not> origin_allowed (hd_origin h) then reject 403 ''Forbidden''
            else if \<not> hd_upgrade h \<or> \<not> hd_connection h \<or> (case hd_key h of None \<Rightarrow> True | Some k \<Rightarrow> k = [])
            then reject 400 ''Bad Request''
            else if hd_version h \<noteq> Some ''13'' then reject 426 ''Upgrade Required''
            else \<lparr>hs_status = 101, hs_reason = [], hs_accept = accept_key (the (hd_key h))\<rparr>)"

lemma local_origin_iff:
  "local_origin p s \<longleftrightarrow> s = p \<or> (\<exists>ds. ds \<noteq> [] \<and> list_all is_digit ds \<and> s = p @ CHR '':'' # ds)"
proof
  assume l: "local_origin p s"
  then have s: "s = p @ drop (length p) s"
    by (auto simp: local_origin_def starts_with_def) (metis append_take_drop_id)
  show "s = p \<or> (\<exists>ds. ds \<noteq> [] \<and> list_all is_digit ds \<and> s = p @ CHR '':'' # ds)"
  proof (cases "drop (length p) s")
    case Nil
    then show ?thesis using s by simp
  next
    case (Cons c ds)
    then show ?thesis using l s by (auto simp: local_origin_def intro!: exI [of _ ds])
  qed
qed (auto simp: local_origin_def starts_with_def Suc_le_eq)

text \<open>A handshake is accepted only without an Origin header, or from one of three fixed origins, or from the local
  host with at most a decimal port; its answer is computed from the client's non-empty key.\<close>

theorem accepted_origins:
  assumes "hs_status (parse_handshake r) = 101"
  shows "\<exists>line rest k. r = line @ newline # rest \<and> hd_key (read_headers rest) = Some k \<and> k \<noteq> [] \<and>
    hs_accept (parse_handshake r) = accept_key k \<and>
    (case hd_origin (read_headers rest) of None \<Rightarrow> True
     | Some s \<Rightarrow> s \<in> {''null'', ''file://'', ''https://atdev-inc.github.io''} \<or>
         (\<exists>p \<in> {''http://localhost'', ''http://127.0.0.1''}. s = p \<or>
            (\<exists>ds. ds \<noteq> [] \<and> list_all is_digit ds \<and> s = p @ CHR '':'' # ds)))"
proof -
  obtain line rest where sp: "split_at newline r = Some (line, rest)"
    and a: "origin_allowed (hd_origin (read_headers rest))"
    and h: "hs_accept (parse_handshake r) = accept_key (the (hd_key (read_headers rest)))"
      "case hd_key (read_headers rest) of None \<Rightarrow> False | Some k \<Rightarrow> k \<noteq> []"
    using assms
    by (auto simp: parse_handshake_def reject_def Let_def split: option.splits prod.splits if_splits)
  have "case hd_origin (read_headers rest) of None \<Rightarrow> True
     | Some s \<Rightarrow> s \<in> {''null'', ''file://'', ''https://atdev-inc.github.io''} \<or>
         (\<exists>p \<in> {''http://localhost'', ''http://127.0.0.1''}. local_origin p s)"
    using a by (simp add: origin_allowed_def split: option.splits)
  note oo = this [unfolded local_origin_iff]
  obtain k where k: "hd_key (read_headers rest) = Some k" "k \<noteq> []" using h(2) by (auto split: option.splits)
  have "r = line @ newline # rest" using split_at_some [OF sp] by blast
  moreover have "hs_accept (parse_handshake r) = accept_key k" using h(1) k(1) by simp
  ultimately show ?thesis
    by (intro exI [of _ line] exI [of _ rest] exI [of _ k] conjI k oo)
qed

definition demo_request :: string where
  "demo_request = unlines [''GET / HTTP/1.1'', ''Upgrade: websocket'', ''Connection: Upgrade'',
     ''Origin: http://localhost:8080'', ''Sec-WebSocket-Key: abc'', ''Sec-WebSocket-Version: 13'']"

theorem accepted_origins_witness: "\<exists>k. hs_accept (parse_handshake demo_request) = accept_key k \<and> k \<noteq> []"
proof -
  define h where "h = \<lparr>hd_key = Some ''abc'', hd_origin = Some ''http://localhost:8080'',
    hd_version = Some ''13'', hd_upgrade = True, hd_connection = True\<rparr>"
  have "(case split_at newline demo_request of None \<Rightarrow> False
      | Some (l, rest) \<Rightarrow> starts_with ''GET '' (ws_trim l) \<and> read_headers rest = h)"
    unfolding h_def by code_simp
  moreover have "origin_allowed (hd_origin h)" unfolding h_def by code_simp
  ultimately have "hs_status (parse_handshake demo_request) = 101"
    by (auto simp: parse_handshake_def h_def Let_def split: option.splits)
  from accepted_origins [OF this] show ?thesis by blast
qed

end
