(* ===== verification/Ws_Server.thy ===== *)
theory Ws_Server
  imports Ws_Handshake
begin

text \<open>
  \<open>sim/src/ws_server.cpp\<close>: one client at a time. Connections are numbered in the order in which they become the
  current one. The accept thread, the reader thread of each connection, the threads that send and the one that stops
  the server are interleaved: a step is one action of one thread on what they share (the current connection under its
  mutex, the flag and the socket of a connection, a call of a handler), and each thread carries where it is in its
  code. What a thread does on its own, such as reading the head of a request from a socket only it knows or decoding a
  buffer, belongs to the step that follows or precedes it. The results of the socket calls (chunks received, bytes
  taken by a send) are arguments of the steps.
\<close>

section \<open>The HTTP head\<close>

definition blank_line :: bytes where "blank_line = [13, 10, 13, 10]"
definition kMaxHead :: nat where "kMaxHead = 16 * 1024"

fun find_mark :: "bytes \<Rightarrow> nat option" where
  "find_mark [] = None"
| "find_mark (b # bs) =
     (if take 4 (b # bs) = blank_line then Some 0 else map_option Suc (find_mark bs))"

text \<open>\<open>chunks\<close>: what the calls of \<open>recv\<close> return; an empty chunk is an error or the end. The result is the
  head, up to the chunk that completes it, and the chunks not yet read.\<close>

fun read_head :: "bytes \<Rightarrow> bytes list \<Rightarrow> (bytes \<times> bytes list) option" where
  "read_head head [] = None"
| "read_head head (c # cs) =
     (if kMaxHead \<le> length head \<or> c = [] then None
      else if find_mark (head @ c) \<noteq> None then Some (head @ c, cs)
      else read_head (head @ c) cs)"

definition bytes_text :: "bytes \<Rightarrow> string" where
  "bytes_text bs = map (\<lambda>b. char_of (unat b)) bs"

definition text_bytes :: "string \<Rightarrow> bytes" where
  "text_bytes s = map of_char s"

definition crlf :: string where "crlf = [CHR 0x0D, CHR 0x0A]"

definition http_reply :: "handshake \<Rightarrow> string" where
  "http_reply hs =
     (if hs_status hs = 101 then
        ''HTTP/1.1 101 Switching Protocols'' @ crlf @ ''Upgrade: websocket'' @ crlf @ ''Connection: Upgrade'' @ crlf
        @ ''Sec-WebSocket-Accept: '' @ hs_accept hs @ crlf @ crlf
      else ''HTTP/1.1 '' @ nat_digits (nat (hs_status hs)) @ '' '' @ hs_reason hs @ crlf @ ''Content-Length: 0'' @ crlf
        @ ''Connection: close'' @ crlf
        @ (if hs_status hs = 426 then ''Sec-WebSocket-Version: 13'' @ crlf else []) @ crlf)"

section \<open>Connections\<close>

datatype ws_event = Connected nat | Got_text nat bytes | Got_binary nat bytes | Disconnected nat

text \<open>Where the reader thread of a connection is in \<open>serve\<close>: not started by the accept thread yet; at the head of the
  loop; about to call \<open>recv\<close>; among the messages of one read; with a message that passed the test for the current
  connection, about to call its handler; with its answer to a close frame sent, about to shut the connection; behind the
  loop, about to shut the connection, to give up being the current one, or to report the disconnection; returned.\<close>

datatype reader =
    Not_started | Looping | Receiving | Handling "message list" | Delivering message "message list"
  | Closing "message list" | Leaving | Resetting | Disconnecting | Returned

text \<open>\<open>co_received\<close> is the history of the socket's input, \<open>co_wire\<close> that of its output: what \<open>recv\<close> has returned since the
  client was accepted, request head included, and what \<open>send\<close> has taken.\<close>

record conn =
  co_open :: bool
  co_received :: bytes
  co_wire :: bytes
  co_dec :: decoder
  co_have :: bytes
  co_reader :: reader
  co_close_sent :: bool

text \<open>Where the accept thread is: at the head of its loop; in \<open>accept\<close>; with a client whose request it reads; with the
  new connection the current one, about to shut the one before; about to call \<open>on_connect\<close>; about to start the reader;
  returned.\<close>

datatype acceptor = Testing | Accepting | Reading | Swapped "nat option" | Announcing | Starting | Ended

record server =
  sv_conns :: "conn list"
  sv_current :: "nat option"
  sv_events :: "ws_event list"
  sv_stopping :: bool
  sv_acceptor :: acceptor

definition init_server :: server where
  "init_server = \<lparr>sv_conns = [], sv_current = None, sv_events = [], sv_stopping = False, sv_acceptor = Testing\<rparr>"

definition on_conn :: "nat \<Rightarrow> (conn \<Rightarrow> conn) \<Rightarrow> server \<Rightarrow> server" where
  "on_conn i f s = s\<lparr>sv_conns := (sv_conns s)[i := f (sv_conns s ! i)]\<rparr>"

definition at_reader :: "nat \<Rightarrow> reader \<Rightarrow> server \<Rightarrow> server" where
  "at_reader i r = on_conn i (\<lambda>c. c\<lparr>co_reader := r\<rparr>)"

definition shut :: "nat \<Rightarrow> server \<Rightarrow> server" where
  "shut i = on_conn i (\<lambda>c. c\<lparr>co_open := False\<rparr>)"

definition add_events :: "ws_event list \<Rightarrow> server \<Rightarrow> server" where
  "add_events es s = s\<lparr>sv_events := sv_events s @ es\<rparr>"

definition connected :: "server \<Rightarrow> bool" where
  "connected s = (case sv_current s of None \<Rightarrow> False | Some i \<Rightarrow> co_open (sv_conns s ! i))"

text \<open>\<open>taken\<close>: how many bytes the socket takes before it fails. A connection that is shut between the test of its flag
  and the send takes none, which is as if the test had failed.\<close>

definition send_frame :: "nat \<Rightarrow> nat \<Rightarrow> bytes \<Rightarrow> server \<Rightarrow> bool \<times> server" where
  "send_frame taken i frame s =
     (if \<not> co_open (sv_conns s ! i) then (False, s)
      else
        let s1 = on_conn i (\<lambda>c. c\<lparr>co_wire := co_wire c @ take taken frame\<rparr>) s in
        if length frame \<le> taken then (True, s1) else (False, shut i s1))"

text \<open>The calls of the application, when no other thread gets in between.\<close>

definition send_current :: "nat \<Rightarrow> bytes \<Rightarrow> server \<Rightarrow> bool \<times> server" where
  "send_current taken frame s =
     (case sv_current s of None \<Rightarrow> (False, s) | Some i \<Rightarrow> send_frame taken i frame s)"

definition send_text :: "nat \<Rightarrow> string \<Rightarrow> server \<Rightarrow> bool \<times> server" where
  "send_text taken t = send_current taken (encode_frame Text_op (text_bytes t) True None)"

definition send_binary :: "nat \<Rightarrow> bytes \<Rightarrow> server \<Rightarrow> bool \<times> server" where
  "send_binary taken d = send_current taken (encode_frame Binary d True None)"

definition close_payload :: "u16 \<Rightarrow> bytes" where
  "close_payload code = [ucast (drop_bit 8 code), ucast code]"

definition close_client :: "nat \<Rightarrow> u16 \<Rightarrow> server \<Rightarrow> server" where
  "close_client taken code s =
     (case sv_current s of None \<Rightarrow> s
      | Some i \<Rightarrow> shut i (snd (send_frame taken i (encode_frame Close (close_payload code) True None) s)))"

text \<open>\<open>stop\<close>: the flag; then, when the accept thread has returned, the current connection.\<close>

definition stop_begin :: "server \<Rightarrow> server" where
  "stop_begin s = s\<lparr>sv_stopping := True\<rparr>"

definition stop_end :: "server \<Rightarrow> server" where
  "stop_end s =
     (if \<not> sv_stopping s \<or> sv_acceptor s \<noteq> Ended then s
      else case sv_current s of None \<Rightarrow> s | Some i \<Rightarrow> shut i s)"

section \<open>Accepting\<close>

text \<open>\<open>received\<close>: the head with what came behind it. \<open>serve\<close> decodes the bytes behind the head first when they fit into its
  buffer.\<close>

definition kServeBuffer :: nat where "kServeBuffer = 8192"

definition new_conn :: "bytes \<Rightarrow> bytes \<Rightarrow> bytes \<Rightarrow> conn" where
  "new_conn received reply leftover =
     \<lparr>co_open = True, co_received = received, co_wire = reply, co_dec = init_decoder,
      co_have = (if length leftover \<le> kServeBuffer then leftover else []), co_reader = Not_started, co_close_sent = False\<rparr>"

text \<open>Under the mutex: the new connection becomes the current one; the old one is remembered.\<close>

definition install :: "conn \<Rightarrow> server \<Rightarrow> server" where
  "install c s = s\<lparr>sv_conns := sv_conns s @ [c], sv_current := Some (length (sv_conns s)),
     sv_acceptor := Swapped (sv_current s)\<rparr>"

text \<open>The client's request, up to the swap: the reply, if the head was complete; what the socket takes of it is not
  checked.\<close>

definition accept_client :: "nat \<Rightarrow> bytes list \<Rightarrow> server \<Rightarrow> string option \<times> server" where
  "accept_client taken chunks s =
     (let again = s\<lparr>sv_acceptor := Testing\<rparr> in
      case read_head [] chunks of None \<Rightarrow> (None, again)
      | Some (head, rest) \<Rightarrow>
          (case find_mark head of None \<Rightarrow> (None, again)
           | Some k \<Rightarrow>
               let hs = parse_handshake (bytes_text (take (k + 4) head)); reply = http_reply hs in
               (Some reply, if hs_status hs \<noteq> 101 then again
                  else install (new_conn head (take taken (text_bytes reply)) (drop (k + 4) head)) s)))"

text \<open>One action of \<open>accept_loop\<close>; \<open>arrived\<close> says whether \<open>accept\<close> returns a client.\<close>

definition accept_step :: "bool \<Rightarrow> nat \<Rightarrow> bytes list \<Rightarrow> server \<Rightarrow> server" where
  "accept_step arrived taken chunks s =
     (let newest = length (sv_conns s) - 1 in
      case sv_acceptor s of
        Testing \<Rightarrow> s\<lparr>sv_acceptor := (if sv_stopping s then Ended else Accepting)\<rparr>
      | Accepting \<Rightarrow> s\<lparr>sv_acceptor := (if arrived then Reading else Testing)\<rparr>
      | Reading \<Rightarrow> snd (accept_client taken chunks s)
      | Swapped old \<Rightarrow> (case old of None \<Rightarrow> s | Some j \<Rightarrow> shut j s)\<lparr>sv_acceptor := Announcing\<rparr>
      | Announcing \<Rightarrow> (add_events [Connected newest] s)\<lparr>sv_acceptor := Starting\<rparr>
      | Starting \<Rightarrow> (at_reader newest Looping s)\<lparr>sv_acceptor := Testing\<rparr>
      | Ended \<Rightarrow> s)"

section \<open>Serving\<close>

definition decode_chunk :: "nat \<Rightarrow> bytes \<Rightarrow> server \<Rightarrow> server" where
  "decode_chunk i bs s =
     (case feed bs (co_dec (sv_conns s ! i)) of None \<Rightarrow> s
      | Some (msgs, d) \<Rightarrow> on_conn i (\<lambda>c. c\<lparr>co_dec := d, co_have := [], co_reader := Handling msgs\<rparr>) s)"

text \<open>The head of the loop, and \<open>recv\<close>, which returns \<open>received\<close>.\<close>

definition read_step :: "nat \<Rightarrow> server \<Rightarrow> server" where
  "read_step i s =
     (let c = sv_conns s ! i in
      if \<not> co_open c then at_reader i Leaving s
      else if co_have c \<noteq> [] then decode_chunk i (co_have c) s
      else at_reader i Receiving s)"

definition receive_step :: "bytes \<Rightarrow> nat \<Rightarrow> server \<Rightarrow> server" where
  "receive_step received i s =
     (if received = [] then at_reader i Leaving s
      else decode_chunk i received (on_conn i (\<lambda>c. c\<lparr>co_received := co_received c @ received\<rparr>) s))"

text \<open>One message, with \<open>ms\<close> the ones behind it: a message is for its handler if its connection is the current one now;
  the call itself is another action.\<close>

definition handle_message :: "nat \<Rightarrow> nat \<Rightarrow> message \<Rightarrow> message list \<Rightarrow> server \<Rightarrow> server" where
  "handle_message taken i m ms s =
     (if msg_op m = Text_op \<or> msg_op m = Binary then
        at_reader i (if sv_current s = Some i then Delivering m ms else Handling ms) s
      else if msg_op m = Ping then
        at_reader i (Handling ms) (snd (send_frame taken i (encode_frame Pong (msg_data m) True None) s))
      else if msg_op m = Close then
        at_reader i (Closing ms) (snd (send_frame taken i (encode_frame Close (msg_data m) True None) s))
      else at_reader i (Handling ms) s)"

definition call_of :: "nat \<Rightarrow> message \<Rightarrow> ws_event list" where
  "call_of i m = (case msg_op m of Text_op \<Rightarrow> [Got_text i (msg_data m)] | Binary \<Rightarrow> [Got_binary i (msg_data m)] | _ \<Rightarrow> [])"

text \<open>The end of a round: with the decoder failed, a close frame unless the client has been sent one.\<close>

definition round_end :: "nat \<Rightarrow> nat \<Rightarrow> server \<Rightarrow> server" where
  "round_end taken i s =
     (let c = sv_conns s ! i in
      if d_status (co_dec c) = Ws_ok then at_reader i Looping s
      else at_reader i Leaving (if co_close_sent c then s
        else snd (send_frame taken i (encode_frame Close (close_payload (close_code (co_dec c))) True None) s)))"

text \<open>Behind the loop, under the mutex: the connection gives up being the current one, if it is.\<close>

definition end_reader :: "nat \<Rightarrow> server \<Rightarrow> server" where
  "end_reader i s =
     (if sv_current s = Some i then at_reader i Disconnecting (s\<lparr>sv_current := None\<rparr>) else at_reader i Returned s)"

definition serve_step :: "nat \<Rightarrow> bytes \<Rightarrow> nat \<Rightarrow> server \<Rightarrow> server" where
  "serve_step taken received i s =
     (case co_reader (sv_conns s ! i) of
        Not_started \<Rightarrow> s
      | Looping \<Rightarrow> read_step i s
      | Receiving \<Rightarrow> receive_step received i s
      | Handling [] \<Rightarrow> round_end taken i s
      | Handling (m # ms) \<Rightarrow> handle_message taken i m ms s
      | Delivering m ms \<Rightarrow> at_reader i (Handling ms) (add_events (call_of i m) s)
      | Closing ms \<Rightarrow> at_reader i (Handling ms) (on_conn i (\<lambda>c. c\<lparr>co_close_sent := True\<rparr>) (shut i s))
      | Leaving \<Rightarrow> at_reader i Resetting (shut i s)
      | Resetting \<Rightarrow> end_reader i s
      | Disconnecting \<Rightarrow> at_reader i Returned (add_events [Disconnected i] s)
      | Returned \<Rightarrow> s)"

section \<open>All threads\<close>

text \<open>A sender, or \<open>close_client\<close>, works on the connection that was the current one when it looked, with the flag as it was
  when it looked; by now both may have changed. So its actions are that the socket of a connection takes some bytes and
  that a connection is shut. \<open>recv\<close> returns at most what the buffers hold.\<close>

inductive ws_step :: "server \<Rightarrow> server \<Rightarrow> bool" where
  Accept: "\<forall>c \<in> set chunks. length c \<le> 1024 \<Longrightarrow> ws_step s (accept_step arrived taken chunks s)"
| Serve: "i < length (sv_conns s) \<Longrightarrow> length received \<le> kServeBuffer \<Longrightarrow> ws_step s (serve_step taken received i s)"
| Write: "i < length (sv_conns s) \<Longrightarrow> ws_step s (on_conn i (\<lambda>c. c\<lparr>co_wire := co_wire c @ bs\<rparr>) s)"
| Drop: "i < length (sv_conns s) \<Longrightarrow> ws_step s (shut i s)"
| Stop_begin: "ws_step s (stop_begin s)"
| Stop_end: "ws_step s (stop_end s)"

inductive_cases ws_stepE: "ws_step s s'"

lemma on_conn_simps [simp]:
  "length (sv_conns (on_conn i f s)) = length (sv_conns s)" "sv_current (on_conn i f s) = sv_current s"
  "sv_events (on_conn i f s) = sv_events s" "sv_acceptor (on_conn i f s) = sv_acceptor s"
  "sv_conns (on_conn i f s) = [] \<longleftrightarrow> sv_conns s = []"
  by (simp_all add: on_conn_def)

lemma on_conn_nth:
  "j < length (sv_conns s) \<Longrightarrow> sv_conns (on_conn i f s) ! j = (if j = i then f (sv_conns s ! i) else sv_conns s ! j)"
  by (simp add: on_conn_def)

lemma send_is_steps:
  assumes "i < length (sv_conns s)"
  shows "ws_step\<^sup>*\<^sup>* s (snd (send_frame taken i frame s))"
proof -
  define s1 where "s1 = on_conn i (\<lambda>c. c\<lparr>co_wire := co_wire c @ take taken frame\<rparr>) s"
  have "ws_step s s1" unfolding s1_def by (rule ws_step.Write [OF assms])
  moreover have "ws_step s1 (shut i s1)" by (rule ws_step.Drop) (simp add: s1_def assms)
  ultimately show ?thesis unfolding send_frame_def s1_def [symmetric] Let_def
    by (auto intro: r_into_rtranclp converse_rtranclp_into_rtranclp)
qed

section \<open>One client at a time\<close>

text \<open>The calls of the handlers as an automaton: how many clients have been announced, and for each one whether it is
  being served, was replaced by a later one and may still make the call its reader was about to make, or is gone.\<close>

datatype phase = Absent | Serving | Replaced | Gone

definition log_step :: "ws_event \<Rightarrow> nat \<times> (nat \<Rightarrow> phase) \<Rightarrow> (nat \<times> (nat \<Rightarrow> phase)) option" where
  "log_step e q =
     (case q of (n, p) \<Rightarrow>
        let last_call = (\<lambda>i. case p i of Serving \<Rightarrow> Some (n, p) | Replaced \<Rightarrow> Some (n, p(i := Gone)) | _ \<Rightarrow> None) in
        case e of
          Connected i \<Rightarrow>
            if i = n then Some (Suc n, (\<lambda>j. if p j = Serving then Replaced else p j)(n := Serving)) else None
        | Got_text i d \<Rightarrow> last_call i
        | Got_binary i d \<Rightarrow> last_call i
        | Disconnected i \<Rightarrow> if p i = Serving \<or> p i = Replaced then Some (n, p(i := Gone)) else None)"

fun log_run :: "nat \<times> (nat \<Rightarrow> phase) \<Rightarrow> ws_event list \<Rightarrow> (nat \<times> (nat \<Rightarrow> phase)) option" where
  "log_run q [] = Some q"
| "log_run q (e # es) = (case log_step e q of None \<Rightarrow> None | Some q' \<Rightarrow> log_run q' es)"

abbreviation no_clients :: "nat \<times> (nat \<Rightarrow> phase)" where
  "no_clients \<equiv> (0, \<lambda>i. Absent)"

lemma log_run_append:
  "log_run q (es @ fs) = (case log_run q es of None \<Rightarrow> None | Some q' \<Rightarrow> log_run q' fs)"
  by (induction es arbitrary: q) (auto split: option.splits)

lemma log_call:
  assumes "p i = Serving \<or> p i = Replaced"
  shows "log_run (n, p) (call_of i m) = Some (n, p) \<or>
    p i = Replaced \<and> log_run (n, p) (call_of i m) = Some (n, p(i := Gone))"
  using assms by (auto simp: call_of_def log_step_def split: ws_op.splits)

text \<open>The connections announced so far, and whether the reader of a connection is still to be started.\<close>

definition announced :: "server \<Rightarrow> nat" where
  "announced s = (case sv_acceptor s of Swapped old \<Rightarrow> length (sv_conns s) - 1 | Announcing \<Rightarrow> length (sv_conns s) - 1
     | _ \<Rightarrow> length (sv_conns s))"

definition installing :: "acceptor \<Rightarrow> bool" where
  "installing a = (case a of Swapped old \<Rightarrow> True | Announcing \<Rightarrow> True | Starting \<Rightarrow> True | _ \<Rightarrow> False)"

definition in_call :: "reader \<Rightarrow> bool" where
  "in_call r = (case r of Delivering m ms \<Rightarrow> True | Disconnecting \<Rightarrow> True | _ \<Rightarrow> False)"

lemma in_call_simps [simp]:
  "in_call (Delivering m ms)" "in_call Disconnecting" "\<not> in_call Looping" "\<not> in_call Receiving"
  "\<not> in_call (Handling ms)" "\<not> in_call (Closing ms)" "\<not> in_call Leaving" "\<not> in_call Resetting"
  "\<not> in_call Returned" "\<not> in_call Not_started"
  by (simp_all add: in_call_def)

definition log_ok :: "server \<Rightarrow> (nat \<Rightarrow> phase) \<Rightarrow> bool" where
  "log_ok s p \<longleftrightarrow> log_run no_clients (sv_events s) = Some (announced s, p) \<and>
     (\<forall>i. p i = Serving \<longrightarrow> Suc i = announced s) \<and>
     (\<forall>i < length (sv_conns s). in_call (co_reader (sv_conns s ! i)) \<longrightarrow> p i = Serving \<or> p i = Replaced) \<and>
     (\<forall>i < announced s. sv_current s = Some i \<longrightarrow> p i = Serving)"

definition server_ok :: "server \<Rightarrow> bool" where
  "server_ok s \<longleftrightarrow>
     (\<forall>i. sv_current s = Some i \<longrightarrow> Suc i = length (sv_conns s)) \<and>
     (installing (sv_acceptor s) \<longrightarrow> sv_conns s \<noteq> []) \<and>
     (\<forall>i < length (sv_conns s). co_reader (sv_conns s ! i) = Not_started \<longleftrightarrow>
        installing (sv_acceptor s) \<and> Suc i = length (sv_conns s)) \<and>
     (\<forall>i < length (sv_conns s). co_open (sv_conns s ! i) \<longrightarrow>
        sv_current s = Some i \<or> sv_acceptor s = Swapped (Some i)) \<and>
     (\<forall>i < length (sv_conns s). co_reader (sv_conns s ! i) = Disconnecting \<longrightarrow> sv_current s \<noteq> Some i) \<and>
     (\<forall>i < length (sv_conns s). co_reader (sv_conns s ! i) = Resetting \<longrightarrow> \<not> co_open (sv_conns s ! i)) \<and>
     (\<exists>p. log_ok s p)"

lemma announced_simps [simp]:
  "announced (on_conn i f s) = announced s" "announced (add_events es s) = announced s"
  "announced (s\<lparr>sv_current := cur\<rparr>) = announced s" "announced (s\<lparr>sv_stopping := b\<rparr>) = announced s"
  by (simp_all add: announced_def add_events_def split: acceptor.split)

text \<open>What one thread does to one connection, with no handler called and the current connection kept.\<close>

lemma on_conn_ok:
  assumes "server_ok s" "co_open (f (sv_conns s ! i)) \<Longrightarrow> co_open (sv_conns s ! i)"
    "co_reader (f (sv_conns s ! i)) = Not_started \<longleftrightarrow> co_reader (sv_conns s ! i) = Not_started"
    "co_reader (f (sv_conns s ! i)) = Disconnecting \<Longrightarrow> co_reader (sv_conns s ! i) = Disconnecting"
    "co_reader (f (sv_conns s ! i)) = Resetting \<Longrightarrow> co_reader (sv_conns s ! i) = Resetting \<or> \<not> co_open (sv_conns s ! i)"
    "i < length (sv_conns s) \<Longrightarrow> in_call (co_reader (f (sv_conns s ! i))) \<Longrightarrow> in_call (co_reader (sv_conns s ! i)) \<or>
      i < announced s \<and> sv_current s = Some i"
  shows "server_ok (on_conn i f s)"
proof -
  obtain p where p: "log_ok s p" using assms(1) unfolding server_ok_def by blast
  have "log_ok (on_conn i f s) p"
    using p assms(6) by (auto simp: log_ok_def on_conn_nth split: if_splits)
  with assms(1-5) show ?thesis
    unfolding server_ok_def by (auto simp: on_conn_nth split: if_splits)
qed

lemma shut_ok: "server_ok s \<Longrightarrow> server_ok (shut i s)"
  unfolding shut_def by (rule on_conn_ok) simp_all

lemma send_frame_ok: "server_ok s \<Longrightarrow> server_ok (snd (send_frame n i fr s))"
proof -
  assume ok: "server_ok s"
  define s1 where "s1 = on_conn i (\<lambda>c. c\<lparr>co_wire := co_wire c @ take n fr\<rparr>) s"
  have "server_ok s1" unfolding s1_def using ok by (rule on_conn_ok) simp_all
  then show ?thesis using ok shut_ok unfolding send_frame_def s1_def [symmetric] Let_def by simp
qed

lemma send_frame_frame [simp]:
  "length (sv_conns (snd (send_frame n i fr s))) = length (sv_conns s)" "sv_current (snd (send_frame n i fr s)) = sv_current s"
  "sv_events (snd (send_frame n i fr s)) = sv_events s" "sv_acceptor (snd (send_frame n i fr s)) = sv_acceptor s"
  by (simp_all add: send_frame_def shut_def Let_def)

definition core :: "conn \<Rightarrow> bytes \<times> decoder \<times> bytes \<times> reader \<times> bool" where
  "core c = (co_received c, co_dec c, co_have c, co_reader c, co_close_sent c)"

lemma send_frame_core:
  assumes "j < length (sv_conns s)"
  shows "core (sv_conns (snd (send_frame n i fr s)) ! j) = core (sv_conns s ! j)"
  using assms by (auto simp: send_frame_def shut_def Let_def on_conn_nth core_def)

lemma send_frame_reader:
  "j < length (sv_conns s) \<Longrightarrow> co_reader (sv_conns (snd (send_frame n i fr s)) ! j) = co_reader (sv_conns s ! j)"
  using send_frame_core [of j s n i fr] by (simp add: core_def)

text \<open>A reader that goes on to another place of its code without a call pending.\<close>

lemma at_reader_ok:
  assumes "server_ok s" "i < length (sv_conns s)" "co_reader (sv_conns s ! i) \<noteq> Not_started" "r \<noteq> Not_started" "\<not> in_call r"
    "r = Resetting \<longrightarrow> \<not> co_open (sv_conns s ! i)"
  shows "server_ok (at_reader i r s)"
  unfolding at_reader_def using assms by (intro on_conn_ok) auto

lemma decode_chunk_ok:
  assumes "server_ok s" "i < length (sv_conns s)" "co_reader (sv_conns s ! i) \<noteq> Not_started"
  shows "server_ok (decode_chunk i bs s)"
proof -
  have "server_ok (on_conn i (\<lambda>c. c\<lparr>co_dec := d, co_have := [], co_reader := Handling msgs\<rparr>) s)" for d msgs
    using assms by (intro on_conn_ok) auto
  with assms(1) show ?thesis by (simp add: decode_chunk_def split: option.splits)
qed

text \<open>A started reader was announced.\<close>

lemma started_announced:
  assumes "server_ok s" "i < length (sv_conns s)" "co_reader (sv_conns s ! i) \<noteq> Not_started"
  shows "i < announced s"
proof -
  have "\<not> (installing (sv_acceptor s) \<and> Suc i = length (sv_conns s))" using assms unfolding server_ok_def by blast
  then show ?thesis using assms(2) by (auto simp: announced_def installing_def split: acceptor.splits)
qed

lemma handle_message_ok:
  assumes "server_ok s" "i < length (sv_conns s)" "co_reader (sv_conns s ! i) \<noteq> Not_started"
  shows "server_ok (handle_message n i m ms s)"
proof -
  have sent: "server_ok (at_reader i r (snd (send_frame n i fr s)))" if "r \<noteq> Not_started" "\<not> in_call r" "r \<noteq> Resetting" for r fr
    using that assms by (intro at_reader_ok) (simp_all add: send_frame_ok send_frame_reader)
  have "server_ok (at_reader i (Delivering m ms) s)" if "sv_current s = Some i"
    unfolding at_reader_def using assms that started_announced [OF assms] by (intro on_conn_ok) auto
  then show ?thesis
    using assms sent by (simp add: handle_message_def at_reader_ok)
qed

lemma deliver_ok:
  assumes "server_ok s" "i < length (sv_conns s)" "co_reader (sv_conns s ! i) = Delivering m ms"
  shows "server_ok (at_reader i (Handling ms) (add_events (call_of i m) s))"
proof -
  let ?s = "at_reader i (Handling ms) (add_events (call_of i m) s)"
  obtain p where p: "log_ok s p" using assms(1) unfolding server_ok_def by blast
  have a: "announced ?s = announced s" by (simp add: at_reader_def)
  have "in_call (co_reader (sv_conns s ! i))" by (simp add: assms(3))
  then have pi: "p i = Serving \<or> p i = Replaced" using p assms(2) unfolding log_ok_def by blast
  have others: "in_call (co_reader (sv_conns ?s ! j)) \<Longrightarrow> j \<noteq> i \<and> in_call (co_reader (sv_conns s ! j))"
    if "j < length (sv_conns s)" for j
    using that by (auto simp: at_reader_def on_conn_nth add_events_def split: if_splits)
  have run: "log_run no_clients (sv_events ?s) = log_run (announced s, p) (call_of i m)"
    using p by (simp add: log_ok_def at_reader_def add_events_def log_run_append)
  have cur: "sv_current ?s = sv_current s" "length (sv_conns ?s) = length (sv_conns s)"
    by (simp_all add: at_reader_def add_events_def)
  from log_call [of p i, OF pi] have "\<exists>p'. log_ok ?s p'"
  proof
    assume "log_run (announced s, p) (call_of i m) = Some (announced s, p)"
    then have "log_ok ?s p" using p others unfolding log_ok_def a run cur by blast
    then show ?thesis by blast
  next
    assume r: "p i = Replaced \<and> log_run (announced s, p) (call_of i m) = Some (announced s, p(i := Gone))"
    have c: "sv_current s \<noteq> Some i" if "i < announced s" using p r that unfolding log_ok_def by force
    have "log_ok ?s (p(i := Gone))" using p others r c unfolding log_ok_def a run cur by auto
    then show ?thesis by blast
  qed
  moreover have "co_reader (sv_conns ?s ! j) = (if j = i then Handling ms else co_reader (sv_conns s ! j))"
    "co_open (sv_conns ?s ! j) = co_open (sv_conns s ! j)" if "j < length (sv_conns s)" for j
    using that by (simp_all add: at_reader_def on_conn_nth add_events_def)
  moreover have "sv_acceptor ?s = sv_acceptor s" "sv_conns ?s = [] \<longleftrightarrow> sv_conns s = []"
    by (simp_all add: at_reader_def add_events_def)
  ultimately show ?thesis using assms unfolding server_ok_def cur by auto
qed

lemma end_reader_ok:
  assumes "server_ok s" "i < length (sv_conns s)" "co_reader (sv_conns s ! i) \<noteq> Not_started" "co_reader (sv_conns s ! i) = Resetting"
  shows "server_ok (end_reader i s)"
proof (cases "sv_current s = Some i")
  case False
  then show ?thesis using assms by (simp add: end_reader_def at_reader_ok)
next
  case True
  let ?s = "at_reader i Disconnecting (s\<lparr>sv_current := None\<rparr>)"
  obtain p where p: "log_ok s p" using assms(1) unfolding server_ok_def by blast
  have a: "announced ?s = announced s" by (simp add: at_reader_def)
  have "p i = Serving" using p True started_announced [OF assms(1-3)] unfolding log_ok_def by blast
  then have "log_ok ?s p" using p
    by (auto simp: log_ok_def a) (auto simp: at_reader_def on_conn_nth split: if_splits)
  moreover have "co_reader (sv_conns ?s ! j) = (if j = i then Disconnecting else co_reader (sv_conns s ! j))"
    "co_open (sv_conns ?s ! j) = co_open (sv_conns s ! j)" if "j < length (sv_conns s)" for j
    using that by (simp_all add: at_reader_def on_conn_nth)
  moreover have "sv_acceptor ?s = sv_acceptor s" "sv_current ?s = None" "length (sv_conns ?s) = length (sv_conns s)"
    "sv_conns ?s = [] \<longleftrightarrow> sv_conns s = []" by (simp_all add: at_reader_def on_conn_def)
  moreover have "\<not> (installing (sv_acceptor s) \<and> Suc i = length (sv_conns s))"
    using assms(1-3) unfolding server_ok_def by blast
  ultimately have "server_ok ?s" using assms True unfolding server_ok_def by auto
  then show ?thesis using True by (simp add: end_reader_def)
qed

lemma disconnect_ok:
  assumes "server_ok s" "i < length (sv_conns s)" "co_reader (sv_conns s ! i) = Disconnecting"
  shows "server_ok (at_reader i Returned (add_events [Disconnected i] s))"
proof -
  let ?s = "at_reader i Returned (add_events [Disconnected i] s)"
  obtain p where p: "log_ok s p" using assms(1) unfolding server_ok_def by blast
  have a: "announced ?s = announced s" by (simp add: at_reader_def)
  have "in_call (co_reader (sv_conns s ! i))" by (simp add: assms(3))
  then have pi: "p i = Serving \<or> p i = Replaced" using p assms(2) unfolding log_ok_def by blast
  have n: "sv_current s \<noteq> Some i" using assms unfolding server_ok_def by blast
  have r: "log_run no_clients (sv_events ?s) = Some (announced s, p(i := Gone))"
    using p pi by (simp add: log_ok_def at_reader_def add_events_def log_run_append log_step_def)
  have g: "co_reader (sv_conns ?s ! j) = (if j = i then Returned else co_reader (sv_conns s ! j))"
    "co_open (sv_conns ?s ! j) = co_open (sv_conns s ! j)" if "j < length (sv_conns s)" for j
    using that by (simp_all add: at_reader_def on_conn_nth add_events_def)
  have c: "sv_acceptor ?s = sv_acceptor s" "sv_current ?s = sv_current s" "length (sv_conns ?s) = length (sv_conns s)"
    "sv_conns ?s = [] \<longleftrightarrow> sv_conns s = []" by (simp_all add: at_reader_def add_events_def on_conn_def)
  have "log_ok ?s (p(i := Gone))"
    using p n g unfolding log_ok_def a r c by (auto split: if_splits)
  then show ?thesis using assms g c unfolding server_ok_def by auto
qed

lemma serve_step_ok:
  assumes "server_ok s" "i < length (sv_conns s)"
  shows "server_ok (serve_step n received i s)"
proof (cases "co_reader (sv_conns s ! i) = Not_started")
  case True
  then show ?thesis using assms by (simp add: serve_step_def)
next
  case False
  note st = assms False
  have recv: "server_ok (on_conn i (\<lambda>c. c\<lparr>co_received := co_received c @ received\<rparr>) s)"
    using assms(1) by (rule on_conn_ok) simp_all
  have round: "server_ok (round_end n i s)"
    using st by (simp add: round_end_def Let_def at_reader_ok send_frame_ok send_frame_reader)
  have close: "server_ok (on_conn i (\<lambda>c. c\<lparr>co_close_sent := True\<rparr>) (shut i s))"
    by (rule on_conn_ok [OF shut_ok [OF assms(1)]]) simp_all
  have shuts: "length (sv_conns (shut i s)) = length (sv_conns s)"
    "co_reader (sv_conns (shut i s) ! i) = co_reader (sv_conns s ! i)" "\<not> co_open (sv_conns (shut i s) ! i)"
    using assms(2) by (simp_all add: shut_def on_conn_nth)
  show ?thesis
  proof (cases "co_reader (sv_conns s ! i)")
    case Looping
    then show ?thesis using st
      by (simp add: serve_step_def read_step_def Let_def at_reader_ok decode_chunk_ok)
  next
    case Receiving
    then show ?thesis using st recv
      by (simp add: serve_step_def receive_step_def at_reader_ok decode_chunk_ok on_conn_nth)
  next
    case (Handling ms)
    then show ?thesis using st round
      by (cases ms) (simp_all add: serve_step_def handle_message_ok)
  next
    case (Delivering m ms)
    then show ?thesis using deliver_ok [OF assms] by (simp add: serve_step_def)
  next
    case (Closing ms)
    then show ?thesis using st close shuts
      by (simp add: serve_step_def at_reader_ok on_conn_nth)
  next
    case Leaving
    then show ?thesis using st shut_ok [OF assms(1)] shuts by (simp add: serve_step_def at_reader_ok)
  next
    case Resetting
    then show ?thesis using end_reader_ok [OF st] by (simp add: serve_step_def)
  next
    case Disconnecting
    then show ?thesis using disconnect_ok [OF assms] by (simp add: serve_step_def)
  qed (use False assms(1) in \<open>simp_all add: serve_step_def\<close>)
qed

lemma install_ok:
  assumes "server_ok s" "sv_acceptor s = Reading" "co_reader c = Not_started"
  shows "server_ok (install c s)"
proof -
  let ?n = "length (sv_conns s)"
  obtain p where p: "log_ok s p" using assms(1) unfolding server_ok_def by blast
  have a: "announced (install c s) = ?n" "announced s = ?n" by (simp_all add: announced_def install_def assms(2))
  have nth: "sv_conns (install c s) ! i = (if i = ?n then c else sv_conns s ! i)" if "i < Suc ?n" for i
    using that by (cases "i = ?n") (simp_all add: install_def nth_append)
  have i: "sv_current (install c s) = Some ?n" "length (sv_conns (install c s)) = Suc ?n"
    "sv_events (install c s) = sv_events s" "sv_acceptor (install c s) = Swapped (sv_current s)"
    by (simp_all add: install_def)
  have ne: "sv_conns (install c s) \<noteq> []" by (simp add: install_def)
  have "log_ok (install c s) p"
    using p assms(3) unfolding log_ok_def a i by (auto simp: nth less_Suc_eq)
  moreover have "\<not> installing (sv_acceptor s)" by (simp add: assms(2) installing_def)
  ultimately show ?thesis
    using assms ne unfolding server_ok_def i by (auto simp: nth less_Suc_eq installing_def)
qed

lemma announce_ok:
  assumes "server_ok s" "sv_acceptor s = Announcing" "length (sv_conns s) = Suc n"
  shows "server_ok ((add_events [Connected n] s)\<lparr>sv_acceptor := Starting\<rparr>)" (is "server_ok ?s")
proof -
  obtain p where p: "log_ok s p" using assms(1) unfolding server_ok_def by blast
  have a: "announced s = n" "announced ?s = Suc n"
    by (simp_all add: announced_def assms(2,3) add_events_def)
  have e: "sv_events ?s = sv_events s @ [Connected n]" "sv_conns ?s = sv_conns s" "sv_current ?s = sv_current s"
    "sv_acceptor ?s = Starting" by (simp_all add: add_events_def)
  define p' where "p' = (\<lambda>j. if p j = Serving then Replaced else p j)(n := Serving)"
  have r: "log_run no_clients (sv_events s) = Some (n, p)" "\<And>i. p i = Serving \<Longrightarrow> Suc i = n"
    "\<And>i. i < Suc n \<Longrightarrow> in_call (co_reader (sv_conns s ! i)) \<Longrightarrow> p i = Serving \<or> p i = Replaced"
    using p unfolding log_ok_def a(1) assms(3) by blast+
  have c: "sv_current s = Some i \<Longrightarrow> i = n" for i
    using assms(1,3) unfolding server_ok_def by auto
  have "log_run no_clients (sv_events ?s) = Some (announced ?s, p')"
    by (simp add: a(2) e log_run_append r(1) log_step_def p'_def)
  moreover have "p' i = Serving \<longleftrightarrow> i = n" for i by (simp add: p'_def)
  moreover have "p' i = Serving \<or> p' i = Replaced" if "i < Suc n" "in_call (co_reader (sv_conns s ! i))" for i
    using r(3) [OF that] by (auto simp: p'_def)
  ultimately have "log_ok ?s p'" using c unfolding log_ok_def a(2) e assms(3) by auto
  moreover have "installing Announcing" "installing Starting" by (simp_all add: installing_def)
  ultimately show ?thesis using assms(1,2) unfolding server_ok_def e by auto
qed

lemma acceptor_ok:
  assumes "server_ok s" "installing a \<longleftrightarrow> installing (sv_acceptor s)" "announced (s\<lparr>sv_acceptor := a\<rparr>) = announced s"
    "\<And>i. i < length (sv_conns s) \<Longrightarrow> co_open (sv_conns s ! i) \<Longrightarrow> sv_current s = Some i \<or> a = Swapped (Some i)"
  shows "server_ok (s\<lparr>sv_acceptor := a\<rparr>)"
proof -
  have "log_ok (s\<lparr>sv_acceptor := a\<rparr>) p" if "log_ok s p" for p
    using that unfolding log_ok_def assms(3) by simp
  then show ?thesis using assms(1,2,4) unfolding server_ok_def by auto
qed

lemma start_ok:
  assumes "server_ok s" "sv_acceptor s = Starting" "length (sv_conns s) = Suc n"
  shows "server_ok ((at_reader n Looping s)\<lparr>sv_acceptor := Testing\<rparr>)"
proof -
  define t where "t = (at_reader n Looping s)\<lparr>sv_acceptor := Testing\<rparr>"
  obtain p where p: "log_ok s p" using assms(1) unfolding server_ok_def by blast
  have a: "announced t = announced s" by (simp add: announced_def assms(2) at_reader_def t_def)
  have g: "co_reader (sv_conns t ! j) = (if j = n then Looping else co_reader (sv_conns s ! j))"
    "co_open (sv_conns t ! j) = co_open (sv_conns s ! j)" if "j < length (sv_conns s)" for j
    using that by (simp_all add: at_reader_def on_conn_nth t_def)
  have c: "sv_current t = sv_current s" "length (sv_conns t) = length (sv_conns s)" "sv_events t = sv_events s"
    "sv_acceptor t = Testing" by (simp_all add: at_reader_def t_def)
  have i: "\<not> installing Testing" "installing Starting" by (simp_all add: installing_def)
  have "log_ok t p" using p unfolding log_ok_def a c by (auto simp: g)
  moreover have "co_reader (sv_conns t ! j) \<noteq> Not_started" if "j < length (sv_conns s)" for j
  proof -
    have "co_reader (sv_conns s ! j) = Not_started \<Longrightarrow> Suc j = length (sv_conns s)"
      using assms(1) that unfolding server_ok_def by blast
    then show ?thesis using g(1) [OF that] assms(3) by auto
  qed
  moreover have "co_open (sv_conns t ! j) \<longrightarrow> sv_current s = Some j" if "j < length (sv_conns s)" for j
  proof -
    have "co_open (sv_conns s ! j) \<longrightarrow> sv_current s = Some j \<or> sv_acceptor s = Swapped (Some j)"
      using assms(1) that unfolding server_ok_def by blast
    then show ?thesis using g(2) [OF that] assms(2) by simp
  qed
  moreover have "co_reader (sv_conns t ! j) = Disconnecting \<longrightarrow> sv_current s \<noteq> Some j"
    "co_reader (sv_conns t ! j) = Resetting \<longrightarrow> \<not> co_open (sv_conns t ! j)" if "j < length (sv_conns s)" for j
  proof -
    have "co_reader (sv_conns s ! j) = Disconnecting \<longrightarrow> sv_current s \<noteq> Some j"
      "co_reader (sv_conns s ! j) = Resetting \<longrightarrow> \<not> co_open (sv_conns s ! j)"
      using assms(1) that unfolding server_ok_def by blast+
    then show "co_reader (sv_conns t ! j) = Disconnecting \<longrightarrow> sv_current s \<noteq> Some j"
      "co_reader (sv_conns t ! j) = Resetting \<longrightarrow> \<not> co_open (sv_conns t ! j)"
      using g [OF that] by simp_all
  qed
  moreover have "sv_current s = Some j \<longrightarrow> Suc j = length (sv_conns s)" for j
    using assms(1) unfolding server_ok_def by blast
  ultimately have "server_ok t" using i(1) unfolding server_ok_def c by blast
  then show ?thesis by (simp add: t_def)
qed

lemma accept_client_ok:
  assumes "server_ok s" "sv_acceptor s = Reading"
  shows "server_ok (snd (accept_client taken chunks s))"
proof -
  have "server_ok (s\<lparr>sv_acceptor := Testing\<rparr>)"
  proof (rule acceptor_ok [OF assms(1)])
    show "installing Testing \<longleftrightarrow> installing (sv_acceptor s)" by (simp add: assms(2) installing_def)
    show "announced (s\<lparr>sv_acceptor := Testing\<rparr>) = announced s" by (simp add: announced_def assms(2))
    show "sv_current s = Some i \<or> Testing = Swapped (Some i)"
      if "i < length (sv_conns s)" "co_open (sv_conns s ! i)" for i
      using assms that unfolding server_ok_def by fastforce
  qed
  moreover have "server_ok (install (new_conn h r l) s)" for h r l
    by (rule install_ok [OF assms]) (simp add: new_conn_def)
  ultimately show ?thesis by (simp add: accept_client_def Let_def split: option.splits)
qed

lemma accept_step_ok:
  assumes "server_ok s"
  shows "server_ok (accept_step arrived taken chunks s)"
proof -
  have move: "server_ok (s\<lparr>sv_acceptor := a\<rparr>)"
    if "sv_acceptor s = Testing \<or> sv_acceptor s = Accepting" "\<not> installing a" for a
  proof (rule acceptor_ok [OF assms])
    show "installing a \<longleftrightarrow> installing (sv_acceptor s)" using that by (auto simp: installing_def)
    show "announced (s\<lparr>sv_acceptor := a\<rparr>) = announced s"
      using that by (auto simp: announced_def installing_def split: acceptor.splits)
    show "sv_current s = Some i \<or> a = Swapped (Some i)"
      if "i < length (sv_conns s)" "co_open (sv_conns s ! i)" for i
      using assms that \<open>sv_acceptor s = Testing \<or> sv_acceptor s = Accepting\<close> unfolding server_ok_def by fastforce
  qed
  have swapped: "server_ok ((case old of None \<Rightarrow> s | Some j \<Rightarrow> shut j s)\<lparr>sv_acceptor := Announcing\<rparr>)"
    if "sv_acceptor s = Swapped old" for old
  proof (rule acceptor_ok)
    let ?s = "case old of None \<Rightarrow> s | Some j \<Rightarrow> shut j s"
    show "server_ok ?s" using assms by (simp add: shut_ok split: option.split)
    have f: "sv_acceptor ?s = Swapped old" "length (sv_conns ?s) = length (sv_conns s)" "sv_current ?s = sv_current s"
      using that by (simp_all add: shut_def split: option.split)
    show "installing Announcing \<longleftrightarrow> installing (sv_acceptor ?s)" by (simp add: f installing_def)
    show "announced (?s\<lparr>sv_acceptor := Announcing\<rparr>) = announced ?s" by (simp add: announced_def f)
    show "sv_current ?s = Some i \<or> Announcing = Swapped (Some i)"
      if "i < length (sv_conns ?s)" "co_open (sv_conns ?s ! i)" for i
      using that assms \<open>sv_acceptor s = Swapped old\<close> unfolding f server_ok_def
      by (cases old) (auto simp: shut_def on_conn_nth split: if_splits)
  qed
  have newest: "length (sv_conns s) = Suc (length (sv_conns s) - 1)" if "installing (sv_acceptor s)"
    using assms that unfolding server_ok_def by (cases "sv_conns s") simp_all
  show ?thesis
  proof (cases "sv_acceptor s")
    case Announcing
    then show ?thesis using announce_ok [OF assms _ newest] by (simp add: accept_step_def installing_def)
  next
    case Starting
    then show ?thesis using start_ok [OF assms _ newest] by (simp add: accept_step_def installing_def)
  qed (use move swapped assms accept_client_ok [OF assms] in \<open>simp_all add: accept_step_def installing_def\<close>)
qed

lemma ws_step_ok: "ws_step s s' \<Longrightarrow> server_ok s \<Longrightarrow> server_ok s'"
proof (induction rule: ws_step.induct)
  case (Write i s bs)
  show ?case by (rule on_conn_ok [OF Write(2)]) simp_all
next
  case (Stop_begin s)
  have "log_ok (stop_begin s) p \<longleftrightarrow> log_ok s p" for p
    by (simp add: log_ok_def stop_begin_def)
  with Stop_begin show ?case by (simp add: server_ok_def) (simp add: stop_begin_def)
qed (auto simp: accept_step_ok serve_step_ok shut_ok stop_end_def split: option.split)

lemma server_reachable_ok:
  assumes "ws_step\<^sup>*\<^sup>* init_server s"
  shows "server_ok s"
  using assms
proof (induction rule: rtranclp_induct)
  case base
  have "log_ok init_server (\<lambda>i. Absent)" by (simp add: log_ok_def init_server_def announced_def)
  then show ?case by (auto simp: server_ok_def init_server_def installing_def)
qed (rule ws_step_ok)

text \<open>C35: However the threads are interleaved, one client is served at a time. Only the connection accepted last can be
  the current one, and at most one other is open: the one it replaces, until the accept thread has shut it. The handlers
  are told of the clients in order; a message is of the client announced last and not yet gone, and so is a
  disconnection, except for the one call that the reader of a client replaced meanwhile was about to make; of a client
  that is gone there is nothing more.\<close>

theorem one_client_at_a_time:
  assumes "ws_step\<^sup>*\<^sup>* init_server s"
  shows "(\<forall>i. sv_current s = Some i \<longrightarrow> Suc i = length (sv_conns s)) \<and>
    (\<forall>i < length (sv_conns s). co_open (sv_conns s ! i) \<longrightarrow> sv_current s = Some i \<or> sv_acceptor s = Swapped (Some i)) \<and>
    (\<exists>n phases. log_run no_clients (sv_events s) = Some (n, phases))"
  using server_reachable_ok [OF assms] unfolding server_ok_def log_ok_def by blast

section \<open>A run\<close>

text \<open>A client of the local console: its request, and the first byte of a ping behind it.\<close>

lemma bytes_text_inverse: "bytes_text (text_bytes s) = s"
  by (induction s) (simp_all add: bytes_text_def text_bytes_def unat_of_char_byte)

definition demo_head :: string where
  "demo_head = ''GET / HTTP/1.1'' @ crlf @ ''Upgrade: websocket'' @ crlf @ ''Connection: Upgrade'' @ crlf
     @ ''Sec-WebSocket-Key: abc'' @ crlf @ ''Sec-WebSocket-Version: 13'' @ crlf @ crlf"

definition demo_chunks :: "bytes list" where
  "demo_chunks = [text_bytes demo_head @ [0x89], [0x80, 1, 2, 3, 4]]"

lemma demo_mark: "find_mark (text_bytes demo_head @ [0x89]) = Some 106"
  by code_simp

lemma demo_length: "length demo_head = 110"
  by code_simp

lemma demo_read: "read_head [] demo_chunks = Some (text_bytes demo_head @ [0x89], [[0x80, 1, 2, 3, 4]])"
  by (simp add: demo_chunks_def demo_mark kMaxHead_def)

lemma demo_handshake: "hs_status (parse_handshake demo_head) = 101"
proof -
  define h where "h = \<lparr>hd_key = Some ''abc'', hd_origin = None, hd_version = Some ''13'', hd_upgrade = True,
    hd_connection = True\<rparr>"
  have "(case split_at newline demo_head of None \<Rightarrow> False
      | Some (l, rest) \<Rightarrow> starts_with ''GET '' (ws_trim l) \<and> read_headers rest = h)"
    unfolding h_def by code_simp
  then show ?thesis
    by (auto simp: parse_handshake_def h_def Let_def origin_allowed_def split: option.splits)
qed

definition demo_conn :: conn where
  "demo_conn = new_conn (text_bytes demo_head @ [0x89])
     (take 4096 (text_bytes (http_reply (parse_handshake demo_head)))) [0x89]"

lemma demo_accept: "snd (accept_client 4096 demo_chunks s) = install demo_conn s"
proof -
  have "take (106 + 4) (text_bytes demo_head @ [0x89]) = text_bytes demo_head"
    "drop (106 + 4) (text_bytes demo_head @ [0x89]) = [0x89]"
    using demo_length by (simp_all add: text_bytes_def)
  then show ?thesis
    by (simp add: accept_client_def demo_read demo_mark Let_def bytes_text_inverse demo_handshake demo_conn_def)
qed

lemma demo_small: "\<forall>c \<in> set demo_chunks. length c \<le> 1024"
  using demo_length by (simp add: demo_chunks_def text_bytes_def)

text \<open>The accept thread takes that client, with no other thread in between.\<close>

definition demo_arrival :: "server \<Rightarrow> server" where
  "demo_arrival s = (let act = accept_step True 4096 demo_chunks in act (act (act (act (act (act s))))))"

lemma demo_arrives: "ws_step\<^sup>*\<^sup>* s (demo_arrival s)"
  unfolding demo_arrival_def Let_def
  by (meson rtranclp.rtrancl_refl rtranclp.rtrancl_into_rtrancl ws_step.Accept [OF demo_small])

lemma demo_arrival_eq:
  assumes "sv_acceptor s = Testing" "\<not> sv_stopping s"
  shows "demo_arrival s = (at_reader (length (sv_conns s)) Looping (add_events [Connected (length (sv_conns s))]
    ((case sv_current s of None \<Rightarrow> install demo_conn s | Some j \<Rightarrow> shut j (install demo_conn s)))))\<lparr>sv_acceptor := Testing\<rparr>"
  using assms
  by (simp add: demo_arrival_def accept_step_def demo_accept Let_def)
    (simp add: install_def shut_def on_conn_def at_reader_def add_events_def split: option.split)

definition demo_serve :: "bytes \<Rightarrow> nat \<Rightarrow> server \<Rightarrow> server" where
  "demo_serve received = serve_step 4096 received"

lemma demo_serves:
  "i < length (sv_conns s) \<Longrightarrow> length received \<le> kServeBuffer \<Longrightarrow> ws_step\<^sup>*\<^sup>* s (demo_serve received i s)"
  unfolding demo_serve_def by (intro r_into_rtranclp ws_step.Serve)

text \<open>The reader of a client that was replaced returns without a call of \<open>on_disconnect\<close>.\<close>

lemma replaced_client_is_not_reported:
  assumes "co_reader (sv_conns s ! i) = Resetting" "sv_current s \<noteq> Some i" "i < length (sv_conns s)"
  shows "sv_events (serve_step taken received i s) = sv_events s"
    "co_reader (sv_conns (serve_step taken received i s) ! i) = Returned"
  using assms by (simp_all add: serve_step_def end_reader_def at_reader_def on_conn_nth)

text \<open>The application closes the connection of a client; its reader gives it up; the next client is announced before the
  reader reports the disconnection.\<close>

definition late_disconnect :: server where
  "late_disconnect = demo_serve [] 0 (demo_arrival (demo_serve [] 0 (demo_serve [] 0 (demo_serve [] 0
     (shut 0 (demo_arrival init_server))))))"

lemma late_disconnect_state:
  "sv_events late_disconnect = [Connected 0, Connected 1, Disconnected 0]" "sv_current late_disconnect = Some 1"
  by (simp_all add: late_disconnect_def demo_arrival_eq demo_serve_def serve_step_def read_step_def end_reader_def
      init_server_def install_def shut_def on_conn_def at_reader_def add_events_def demo_conn_def new_conn_def Let_def)

lemma late_disconnect_reachable: "ws_step\<^sup>*\<^sup>* init_server late_disconnect"
proof -
  define s1 where "s1 = shut 0 (demo_arrival init_server)"
  define s2 where "s2 = demo_serve [] 0 (demo_serve [] 0 (demo_serve [] 0 s1))"
  have l: "length (sv_conns (serve_step a b i s)) = length (sv_conns s)" for a b i s
    by (simp add: serve_step_def read_step_def receive_step_def round_end_def end_reader_def handle_message_def
        decode_chunk_def at_reader_def shut_def add_events_def Let_def split: reader.split list.split option.split)
  have n: "length (sv_conns (demo_arrival init_server)) = 1"
    by (simp add: demo_arrival_eq init_server_def install_def at_reader_def add_events_def)
  have n2: "length (sv_conns s2) = 1" by (simp add: s2_def s1_def demo_serve_def l shut_def n)
  have n3: "length (sv_conns (demo_arrival s2)) = 2"
    by (simp add: s2_def s1_def demo_arrival_eq demo_serve_def serve_step_def read_step_def end_reader_def
        init_server_def install_def shut_def on_conn_def at_reader_def add_events_def demo_conn_def new_conn_def Let_def)
  have "ws_step\<^sup>*\<^sup>* init_server s1" unfolding s1_def
    by (rule rtranclp.rtrancl_into_rtrancl [OF demo_arrives ws_step.Drop]) (simp add: n)
  moreover have "ws_step\<^sup>*\<^sup>* s1 s2" unfolding s2_def
    by (intro rtranclp_trans [OF demo_serves rtranclp_trans [OF demo_serves demo_serves]])
      (simp_all add: s1_def demo_serve_def l shut_def n)
  moreover have "ws_step\<^sup>*\<^sup>* s2 (demo_serve [] 0 (demo_arrival s2))"
    by (rule rtranclp_trans [OF demo_arrives demo_serves]) (simp_all add: n3)
  ultimately show ?thesis unfolding late_disconnect_def s1_def [symmetric] s2_def [symmetric] by (meson rtranclp_trans)
qed

theorem one_client_at_a_time_witness:
  "\<exists>n phases. log_run no_clients [Connected 0, Connected 1, Disconnected 0] = Some (n, phases)"
  using one_client_at_a_time [OF late_disconnect_reachable] by (simp add: late_disconnect_state)

section \<open>Nothing is lost after the handshake\<close>

lemma find_mark_at: "find_mark bs = Some k \<Longrightarrow> k + 4 \<le> length bs \<and> take 4 (drop k bs) = blank_line"
proof (induction bs arbitrary: k rule: find_mark.induct)
  case (2 b bs)
  have l: "length (take 4 (b # bs)) = 4 \<Longrightarrow> 4 \<le> length (b # bs)" by simp
  show ?case
  proof (cases "take 4 (b # bs) = blank_line")
    case True
    then have "length (take 4 (b # bs)) = 4" unfolding True by (simp add: blank_line_def)
    from l [OF this] show ?thesis using True 2(2) by auto
  next
    case False
    with 2 show ?thesis by auto
  qed
qed simp

lemma find_mark_none: "find_mark bs = None \<Longrightarrow> take 4 (drop k bs) \<noteq> blank_line"
proof (induction bs arbitrary: k rule: find_mark.induct)
  case (2 b bs)
  then show ?case by (cases k) (auto split: if_splits)
qed (simp add: blank_line_def)

lemma mark_is_new:
  assumes "find_mark xs = None" "find_mark (xs @ ys) = Some k"
  shows "length xs < k + 4"
proof (rule ccontr)
  assume "\<not> length xs < k + 4"
  then have "take 4 (drop k (xs @ ys)) = take 4 (drop k xs)" "k \<le> length xs" by simp_all
  then show False using find_mark_at [OF assms(2)] find_mark_none [OF assms(1), of k] by metis
qed

lemma read_head_spec:
  assumes "read_head head chunks = Some (h, rest)" "find_mark head = None" "\<forall>c \<in> set chunks. length c \<le> n"
  shows "\<exists>k. find_mark h = Some k \<and> length (drop (k + 4) h) < n \<and> head @ concat chunks = h @ concat rest"
  using assms
proof (induction head chunks rule: read_head.induct)
  case (2 head c cs)
  show ?case
  proof (cases "find_mark (head @ c) = None")
    case True
    then show ?thesis using 2 by (auto split: if_splits)
  next
    case False
    then have h: "h = head @ c" "rest = cs" using 2(2) by (auto split: if_splits)
    obtain k where k: "find_mark h = Some k" using False h by auto
    then have "length head < k + 4" "length c \<le> n" using mark_is_new 2(3,4) h by auto
    then show ?thesis using k h find_mark_at [OF k] by auto
  qed
qed simp

lemma find_mark_append: "find_mark xs = Some k \<Longrightarrow> find_mark (xs @ ys) = Some k"
proof (induction xs arbitrary: k rule: find_mark.induct)
  case (2 b bs)
  show ?case
  proof (cases "take 4 (b # bs) = blank_line")
    case True
    then have "length (take 4 (b # bs)) = 4" unfolding True by (simp add: blank_line_def)
    then have "3 \<le> length bs" by simp
    then show ?thesis using True 2(2) by simp
  next
    case False
    have m: "\<exists>j. find_mark bs = Some j \<and> k = Suc j" using 2(2) False by auto
    then obtain j where j: "find_mark bs = Some j" "k = Suc j" by blast
    have "j + 4 \<le> length bs" using find_mark_at [OF j(1)] by simp
    then have "3 \<le> length bs" by simp
    then show ?thesis using False 2(1) [OF False j(1)] j(2) by simp
  qed
qed simp

text \<open>The calls that the messages of a client ask for, and those made for it.\<close>

definition calls :: "nat \<Rightarrow> message list \<Rightarrow> ws_event list" where
  "calls i ms = concat (map (call_of i) ms)"

definition from_client :: "nat \<Rightarrow> ws_event \<Rightarrow> bool" where
  "from_client i e = (case e of Got_text j d \<Rightarrow> j = i | Got_binary j d \<Rightarrow> j = i | _ \<Rightarrow> False)"

definition delivered :: "nat \<Rightarrow> ws_event list \<Rightarrow> ws_event list" where
  "delivered i es = filter (from_client i) es"

text \<open>The messages of the last read that the reader has not handled yet; the one it is about to hand over is among them.\<close>

definition unhandled :: "reader \<Rightarrow> message list" where
  "unhandled r = (case r of Handling ms \<Rightarrow> ms | Delivering m ms \<Rightarrow> m # ms | Closing ms \<Rightarrow> ms | _ \<Rightarrow> [])"

definition at_read :: "reader \<Rightarrow> bool" where
  "at_read r = (case r of Not_started \<Rightarrow> True | Looping \<Rightarrow> True | Receiving \<Rightarrow> True | _ \<Rightarrow> False)"

definition is_delivering :: "reader \<Rightarrow> bool" where
  "is_delivering r = (case r of Delivering m ms \<Rightarrow> True | _ \<Rightarrow> False)"

lemma reader_simps [simp]:
  "unhandled Not_started = []" "unhandled Looping = []" "unhandled Receiving = []" "unhandled (Handling ms) = ms"
  "unhandled (Delivering m ms) = m # ms" "unhandled (Closing ms) = ms" "unhandled Leaving = []"
  "unhandled Resetting = []" "unhandled Disconnecting = []" "unhandled Returned = []"
  "at_read Not_started" "at_read Looping" "at_read Receiving" "\<not> at_read (Handling ms)" "\<not> at_read (Delivering m ms)"
  "\<not> at_read (Closing ms)" "\<not> at_read Leaving" "\<not> at_read Resetting" "\<not> at_read Disconnecting" "\<not> at_read Returned"
  "\<not> is_delivering Not_started" "\<not> is_delivering Looping" "\<not> is_delivering Receiving" "\<not> is_delivering (Handling ms)"
  "is_delivering (Delivering m ms)" "\<not> is_delivering (Closing ms)" "\<not> is_delivering Leaving"
  "\<not> is_delivering Resetting" "\<not> is_delivering Disconnecting" "\<not> is_delivering Returned"
  by (simp_all add: unhandled_def at_read_def is_delivering_def)

lemma calls_simps [simp]: "calls i [] = []" "calls i (ms @ ns) = calls i ms @ calls i ns" "calls i [m] = call_of i m"
  by (simp_all add: calls_def)

lemma delivered_simps [simp]:
  "delivered i (es @ fs) = delivered i es @ delivered i fs" "delivered i [] = []"
  "delivered i (call_of j m) = (if i = j then call_of j m else [])"
  "delivered i [Connected j] = []" "delivered i [Disconnected j] = []"
  by (auto simp: delivered_def from_client_def call_of_def split: ws_op.split)

text \<open>\<open>read_ok stream sent current i c\<close>: the reader of connection \<open>i\<close> has decoded all of \<open>stream\<close>, or it has not started to
  and still has all of it; \<open>sent\<close> are the calls made for its messages so far.\<close>

definition read_ok :: "bytes \<Rightarrow> ws_event list \<Rightarrow> bool \<Rightarrow> nat \<Rightarrow> conn \<Rightarrow> bool" where
  "read_ok stream sent current i c \<longleftrightarrow>
     (if co_have c \<noteq> [] then
        co_have c = stream \<and> co_dec c = init_decoder \<and> sent = [] \<and>
        (co_reader c = Not_started \<or> co_reader c = Looping \<or>
         \<not> co_open c \<and> co_reader c \<in> {Leaving, Resetting, Disconnecting, Returned})
      else \<exists>msgs d handled. feed stream init_decoder = Some (msgs, d) \<and> d_status d = d_status (co_dec c) \<and>
        (d_status d = Ws_ok \<longrightarrow> d = co_dec c) \<and> (at_read (co_reader c) \<longrightarrow> d_status d = Ws_ok) \<and>
        msgs = handled @ unhandled (co_reader c) \<and> (\<exists>later. calls i handled = sent @ later) \<and>
        (current \<or> is_delivering (co_reader c) \<longrightarrow> calls i handled = sent))"

definition stream_ok :: "server \<Rightarrow> nat \<Rightarrow> bool" where
  "stream_ok s i \<longleftrightarrow> (\<exists>k. find_mark (co_received (sv_conns s ! i)) = Some k \<and>
     read_ok (drop (k + 4) (co_received (sv_conns s ! i))) (delivered i (sv_events s)) (sv_current s = Some i) i
       (sv_conns s ! i))"

lemma read_ok_mono:
  assumes "read_ok stream sent cur i c" "core c' = core c" "co_open c' \<Longrightarrow> co_open c" "cur' \<Longrightarrow> cur"
  shows "read_ok stream sent cur' i c'"
proof -
  have "co_received c' = co_received c" "co_dec c' = co_dec c" "co_have c' = co_have c" "co_reader c' = co_reader c"
    using assms(2) by (simp_all add: core_def)
  then show ?thesis using assms(1,3,4) unfolding read_ok_def by (cases "co_have c = []") auto
qed

text \<open>What the reader does between two reads.\<close>

lemma read_ok_move:
  assumes "read_ok stream sent cur i c" "co_reader c \<noteq> Not_started"
    "co_dec c' = co_dec c" "co_have c' = co_have c" "co_open c' \<Longrightarrow> co_open c" "cur' \<Longrightarrow> cur"
    "unhandled (co_reader c') = unhandled (co_reader c)" "is_delivering (co_reader c') \<Longrightarrow> cur"
    "at_read (co_reader c') \<Longrightarrow> d_status (co_dec c) = Ws_ok"
    "co_have c \<noteq> [] \<Longrightarrow> \<not> co_open c' \<and> co_reader c' \<in> {Leaving, Resetting, Disconnecting, Returned}"
  shows "read_ok stream sent cur' i c'"
proof (cases "co_have c = []")
  case False
  then show ?thesis using assms unfolding read_ok_def by simp
next
  case True
  then show ?thesis using assms unfolding read_ok_def by auto
qed

lemma read_ok_leftover:
  assumes "read_ok stream sent cur i c" "co_have c \<noteq> []" "feed (co_have c) (co_dec c) = Some (msgs, d)"
  shows "read_ok stream sent cur i (c\<lparr>co_dec := d, co_have := [], co_reader := Handling msgs\<rparr>)"
  using assms by (simp add: read_ok_def)

lemma read_ok_received:
  assumes "read_ok stream sent cur i c" "co_reader c = Receiving" "feed bs (co_dec c) = Some (msgs, d)"
  shows "read_ok (stream @ bs) sent cur i (c\<lparr>co_received := r, co_dec := d, co_have := [], co_reader := Handling msgs\<rparr>)"
proof -
  have h: "co_have c = []" using assms(1,2) by (auto simp: read_ok_def split: if_splits)
  obtain ms where m: "feed stream init_decoder = Some (ms, co_dec c)" "d_status (co_dec c) = Ws_ok"
    "\<exists>later. calls i ms = sent @ later" "cur \<longrightarrow> calls i ms = sent"
    using assms(1,2) h by (auto simp: read_ok_def)
  from feed_append [OF m(1) assms(3)] obtain d3 where
    "feed (stream @ bs) init_decoder = Some (ms @ msgs, d3)" "d_status d3 = d_status d" "d_status d = Ws_ok \<longrightarrow> d3 = d" by blast
  with m(3,4) show ?thesis by (auto simp: read_ok_def)
qed

text \<open>A message is handled: it asks for no call, its connection is not the current one any more, or its call is made.\<close>

lemma read_ok_handled:
  assumes "read_ok stream sent cur i c" "unhandled (co_reader c) = m # ms" "sent' = sent \<and> call_of i m = [] \<or>
      sent' = sent \<and> \<not> cur' \<and> \<not> is_delivering (co_reader c) \<or> is_delivering (co_reader c) \<and> sent' = sent @ call_of i m"
    "cur' \<Longrightarrow> cur" "co_dec c' = co_dec c" "co_have c' = co_have c" "unhandled (co_reader c') = ms"
    "\<not> at_read (co_reader c')" "\<not> is_delivering (co_reader c')"
  shows "read_ok stream sent' cur' i c'"
proof -
  have h: "co_have c = []" using assms(1,2) by (auto simp: read_ok_def split: if_splits)
  obtain d handled where m: "feed stream init_decoder = Some (handled @ m # ms, d)" "d_status d = d_status (co_dec c)"
    "d_status d = Ws_ok \<longrightarrow> d = co_dec c" "\<exists>later. calls i handled = sent @ later"
    "cur \<or> is_delivering (co_reader c) \<longrightarrow> calls i handled = sent"
    using assms(1,2) h by (auto simp: read_ok_def)
  have "feed stream init_decoder = Some ((handled @ [m]) @ ms, d)" using m(1) by simp
  moreover have "(\<exists>later. calls i (handled @ [m]) = sent' @ later) \<and> (cur' \<longrightarrow> calls i (handled @ [m]) = sent')"
    using m(4,5) assms(3,4) by auto
  ultimately show ?thesis using m(2,3) assms(5-9) h unfolding read_ok_def by auto
qed

lemma stream_keep:
  assumes "stream_ok s j" "core (sv_conns s' ! j) = core (sv_conns s ! j)"
    "co_open (sv_conns s' ! j) \<Longrightarrow> co_open (sv_conns s ! j)" "delivered j (sv_events s') = delivered j (sv_events s)"
    "sv_current s' = Some j \<Longrightarrow> sv_current s = Some j"
  shows "stream_ok s' j"
proof -
  have r: "co_received (sv_conns s' ! j) = co_received (sv_conns s ! j)" using assms(2) by (simp add: core_def)
  have "read_ok stream (delivered j (sv_events s')) (sv_current s' = Some j) j (sv_conns s' ! j)"
    if "read_ok stream (delivered j (sv_events s)) (sv_current s = Some j) j (sv_conns s ! j)" for stream
    unfolding assms(4) by (rule read_ok_mono [OF that assms(2,3,5)])
  then show ?thesis using assms(1) unfolding stream_ok_def r by blast
qed

lemma stream_own:
  assumes "stream_ok s i" "co_received (sv_conns s' ! i) = co_received (sv_conns s ! i)"
    "\<And>stream. read_ok stream (delivered i (sv_events s)) (sv_current s = Some i) i (sv_conns s ! i) \<Longrightarrow>
      read_ok stream (delivered i (sv_events s')) (sv_current s' = Some i) i (sv_conns s' ! i)"
  shows "stream_ok s' i"
  using assms unfolding stream_ok_def by auto

text \<open>A step of another reader.\<close>

definition apart :: "nat \<Rightarrow> server \<Rightarrow> server \<Rightarrow> bool" where
  "apart i s s' \<longleftrightarrow> length (sv_conns s') = length (sv_conns s) \<and>
     (\<forall>j < length (sv_conns s). j \<noteq> i \<longrightarrow> sv_conns s' ! j = sv_conns s ! j \<and>
        delivered j (sv_events s') = delivered j (sv_events s) \<and> (sv_current s' = Some j \<longrightarrow> sv_current s = Some j))"

lemma apart_refl [simp]: "apart i s s"
  by (simp add: apart_def)

lemma apart_trans: "apart i s s' \<Longrightarrow> apart i s' s'' \<Longrightarrow> apart i s s''"
  by (auto simp: apart_def)

lemma apart_simps [simp]:
  "apart i s (on_conn i f s)" "apart i s (at_reader i r s)" "apart i s (shut i s)"
  "apart i s (add_events (call_of i m) s)" "apart i s (add_events [Disconnected i] s)"
  "apart i s (s\<lparr>sv_current := None\<rparr>)"
  by (auto simp: apart_def on_conn_nth at_reader_def shut_def add_events_def)

lemma apart_then:
  "apart i s s' \<Longrightarrow> apart i s (on_conn i f s')" "apart i s s' \<Longrightarrow> apart i s (at_reader i r s')"
  "apart i s s' \<Longrightarrow> apart i s (shut i s')"
  using apart_trans apart_simps(1-3) by blast+

lemma apart_more [simp]:
  "apart i s (snd (send_frame n i fr s))" "apart i s (decode_chunk i bs s)"
  by (simp_all add: send_frame_def decode_chunk_def Let_def apart_then split: option.split)

lemma serve_step_apart: "apart i s (serve_step n received i s)"
proof -
  have r: "apart i s (decode_chunk i received (on_conn i f s))" for f
    using apart_trans [OF apart_simps(1) apart_more(2)] .
  show ?thesis
    by (simp add: serve_step_def read_step_def receive_step_def round_end_def end_reader_def handle_message_def Let_def r
        apart_then split: reader.split list.split)
qed

lemma at_reader_nth:
  "i < length (sv_conns s) \<Longrightarrow> sv_conns (at_reader i r s) ! i = (sv_conns s ! i)\<lparr>co_reader := r\<rparr>"
  by (simp add: at_reader_def on_conn_nth)

lemma at_reader_parts [simp]:
  "sv_current (at_reader i r s) = sv_current s" "sv_events (at_reader i r s) = sv_events s"
  "length (sv_conns (at_reader i r s)) = length (sv_conns s)"
  by (simp_all add: at_reader_def)

lemma shut_parts [simp]:
  "sv_current (shut i s) = sv_current s" "sv_events (shut i s) = sv_events s"
  "length (sv_conns (shut i s)) = length (sv_conns s)"
  by (simp_all add: shut_def)

text \<open>The reader goes on after a send, whatever became of the send.\<close>

lemma sent_stream:
  assumes "i < length (sv_conns s)" "s' = s \<or> s' = snd (send_frame n i fr s)"
  shows "co_dec (sv_conns (at_reader i r s') ! i) = co_dec (sv_conns s ! i)"
    "co_have (sv_conns (at_reader i r s') ! i) = co_have (sv_conns s ! i)"
    "co_received (sv_conns (at_reader i r s') ! i) = co_received (sv_conns s ! i)"
    "co_open (sv_conns (at_reader i r s') ! i) \<Longrightarrow> co_open (sv_conns s ! i)"
    "co_reader (sv_conns (at_reader i r s') ! i) = r" "sv_events (at_reader i r s') = sv_events s"
    "sv_current (at_reader i r s') = sv_current s"
  using assms
  by (auto simp: at_reader_nth send_frame_def shut_def Let_def on_conn_nth split: if_splits)

lemma stream_message:
  assumes "stream_ok s i" "i < length (sv_conns s)" "co_reader (sv_conns s ! i) = Handling (m # ms)"
  shows "stream_ok (handle_message n i m ms s) i"
proof -
  have quiet: "stream_ok (at_reader i r s') i"
    if "s' = s \<or> s' = snd (send_frame n i fr s)" "unhandled r = ms" "\<not> at_read r" "\<not> is_delivering r"
      "call_of i m = [] \<or> sv_current s \<noteq> Some i" for r s' fr
  proof (rule stream_own [OF assms(1) sent_stream(3) [OF assms(2) that(1)]])
    fix stream
    note t = sent_stream [OF assms(2) that(1), of r]
    assume "read_ok stream (delivered i (sv_events s)) (sv_current s = Some i) i (sv_conns s ! i)"
    from this show "read_ok stream (delivered i (sv_events (at_reader i r s'))) (sv_current (at_reader i r s') = Some i) i
        (sv_conns (at_reader i r s') ! i)"
      by (rule read_ok_handled [where m = m and ms = ms]) (use t that assms(3) in auto)
  qed
  have "stream_ok (at_reader i (Delivering m ms) s) i" if c: "sv_current s = Some i"
  proof (rule stream_own [OF assms(1)])
    show "co_received (sv_conns (at_reader i (Delivering m ms) s) ! i) = co_received (sv_conns s ! i)"
      using assms(2) by (simp add: at_reader_nth)
    fix stream
    assume h: "read_ok stream (delivered i (sv_events s)) (sv_current s = Some i) i (sv_conns s ! i)"
    then have "co_have (sv_conns s ! i) = []" using assms(3) by (auto simp: read_ok_def split: if_splits)
    then show "read_ok stream (delivered i (sv_events (at_reader i (Delivering m ms) s)))
        (sv_current (at_reader i (Delivering m ms) s) = Some i) i (sv_conns (at_reader i (Delivering m ms) s) ! i)"
      unfolding at_reader_parts by (intro read_ok_move [OF h]) (use assms(2,3) c in \<open>auto simp: at_reader_nth\<close>)
  qed
  moreover have "call_of i m = []" if "\<not> (msg_op m = Text_op \<or> msg_op m = Binary)"
    using that by (auto simp: call_of_def split: ws_op.split)
  moreover have "stream_ok (at_reader i (Handling ms) s) i" if "call_of i m = [] \<or> sv_current s \<noteq> Some i"
    using that by (intro quiet [OF disjI1]) simp_all
  moreover have "stream_ok (at_reader i r (snd (send_frame n i fr s))) i"
    if "r = Handling ms \<or> r = Closing ms" "call_of i m = []" for r fr
    using that by (intro quiet [OF disjI2]) auto
  ultimately show ?thesis by (simp add: handle_message_def)
qed

lemma stream_round:
  assumes "stream_ok s i" "i < length (sv_conns s)" "co_reader (sv_conns s ! i) = Handling []"
  shows "stream_ok (round_end n i s) i"
proof -
  have move: "stream_ok (at_reader i r s') i"
    if "s' = s \<or> s' = snd (send_frame n i fr s)" "r = Looping \<and> d_status (co_dec (sv_conns s ! i)) = Ws_ok \<or> r = Leaving" for r s' fr
  proof (rule stream_own [OF assms(1) sent_stream(3) [OF assms(2) that(1)]])
    fix stream
    note t = sent_stream [OF assms(2) that(1), of r]
    assume h: "read_ok stream (delivered i (sv_events s)) (sv_current s = Some i) i (sv_conns s ! i)"
    then have "co_have (sv_conns s ! i) = []" using assms(3) by (auto simp: read_ok_def split: if_splits)
    then show "read_ok stream (delivered i (sv_events (at_reader i r s'))) (sv_current (at_reader i r s') = Some i) i
        (sv_conns (at_reader i r s') ! i)"
      unfolding t(6) by (intro read_ok_move [OF h]) (use t that(2) assms(3) in auto)
  qed
  have "stream_ok (at_reader i Looping s) i" if "d_status (co_dec (sv_conns s ! i)) = Ws_ok"
    using that by (intro move [OF disjI1]) simp_all
  moreover have "stream_ok (at_reader i Leaving s) i" "stream_ok (at_reader i Leaving (snd (send_frame n i fr s))) i" for fr
    by (intro move [OF disjI1] move [OF disjI2]; simp)+
  ultimately show ?thesis by (simp add: round_end_def Let_def)
qed

lemma stream_decode:
  assumes "stream_ok s i" "i < length (sv_conns s)" "co_reader (sv_conns s ! i) = Receiving"
  shows "stream_ok (decode_chunk i bs (on_conn i (\<lambda>c. c\<lparr>co_received := co_received c @ bs\<rparr>) s)) i"
proof -
  let ?c = "sv_conns s ! i"
  obtain msgs d where f: "feed bs (co_dec ?c) = Some (msgs, d)" using feed_total by blast
  obtain k where k: "find_mark (co_received ?c) = Some k"
    "read_ok (drop (k + 4) (co_received ?c)) (delivered i (sv_events s)) (sv_current s = Some i) i ?c"
    using assms(1) unfolding stream_ok_def by blast
  have d: "drop (k + 4) (co_received ?c @ bs) = drop (k + 4) (co_received ?c) @ bs"
    using find_mark_at [OF k(1)] by simp
  show ?thesis
    using find_mark_append [OF k(1)] find_mark_at [OF k(1)] read_ok_received [OF k(2) assms(3) f] f assms(2)
    by (auto simp: stream_ok_def decode_chunk_def on_conn_nth d)
qed

lemma stream_leftover:
  assumes "stream_ok s i" "i < length (sv_conns s)" "co_have (sv_conns s ! i) \<noteq> []"
  shows "stream_ok (decode_chunk i (co_have (sv_conns s ! i)) s) i"
proof -
  let ?c = "sv_conns s ! i"
  obtain msgs d where f: "feed (co_have ?c) (co_dec ?c) = Some (msgs, d)" using feed_total by blast
  show ?thesis
    by (rule stream_own [OF assms(1)])
      (use f assms(2) read_ok_leftover [OF _ assms(3) f] in \<open>simp_all add: decode_chunk_def on_conn_nth\<close>)
qed

text \<open>The steps behind the loop, and the ones at the head of it that read nothing.\<close>

lemma stream_move:
  assumes "stream_ok s i" "co_reader (sv_conns s ! i) \<noteq> Not_started" "co_received (sv_conns s' ! i) = co_received (sv_conns s ! i)"
    "co_dec (sv_conns s' ! i) = co_dec (sv_conns s ! i)" "co_have (sv_conns s' ! i) = co_have (sv_conns s ! i)"
    "co_open (sv_conns s' ! i) \<Longrightarrow> co_open (sv_conns s ! i)" "sv_current s' = Some i \<Longrightarrow> sv_current s = Some i"
    "delivered i (sv_events s') = delivered i (sv_events s)"
    "unhandled (co_reader (sv_conns s' ! i)) = unhandled (co_reader (sv_conns s ! i))"
    "\<not> is_delivering (co_reader (sv_conns s' ! i))"
    "at_read (co_reader (sv_conns s' ! i)) \<Longrightarrow> at_read (co_reader (sv_conns s ! i))"
    "co_have (sv_conns s ! i) \<noteq> [] \<Longrightarrow>
      \<not> co_open (sv_conns s' ! i) \<and> co_reader (sv_conns s' ! i) \<in> {Leaving, Resetting, Disconnecting, Returned}"
  shows "stream_ok s' i"
proof (rule stream_own [OF assms(1,3)])
  fix stream
  assume h: "read_ok stream (delivered i (sv_events s)) (sv_current s = Some i) i (sv_conns s ! i)"
  then have "d_status (co_dec (sv_conns s ! i)) = Ws_ok" if "at_read (co_reader (sv_conns s' ! i))"
    using that assms(11,12) by (auto simp: read_ok_def split: if_splits)
  then show "read_ok stream (delivered i (sv_events s')) (sv_current s' = Some i) i (sv_conns s' ! i)"
    unfolding assms(8) using assms by (intro read_ok_move [OF h]) auto
qed

lemma stream_behind:
  assumes "stream_ok s i" "co_have (sv_conns s ! i) \<noteq> []" "co_reader (sv_conns s ! i) \<notin> {Not_started, Looping}"
  shows "\<not> co_open (sv_conns s ! i) \<and> co_reader (sv_conns s ! i) \<in> {Leaving, Resetting, Disconnecting, Returned}"
  using assms unfolding stream_ok_def read_ok_def by auto

lemma serve_step_stream:
  assumes "stream_ok s i" "i < length (sv_conns s)"
  shows "stream_ok (serve_step n received i s) i"
proof -
  let ?c = "sv_conns s ! i"
  note behind = stream_behind [OF assms(1)]
  show ?thesis
  proof (cases "co_reader ?c")
    case Not_started
    then show ?thesis using assms by (simp add: serve_step_def)
  next
    case Looping
    have "stream_ok (at_reader i Leaving s) i" if "\<not> co_open ?c"
      by (rule stream_move [OF assms(1)]) (use assms(2) Looping that in \<open>simp_all add: at_reader_nth\<close>)
    moreover have "stream_ok (at_reader i Receiving s) i" if "co_have ?c = []"
      by (rule stream_move [OF assms(1)]) (use assms(2) Looping that in \<open>simp_all add: at_reader_nth\<close>)
    ultimately show ?thesis using stream_leftover [OF assms] Looping
      by (simp add: serve_step_def read_step_def Let_def)
  next
    case Receiving
    have "stream_ok (at_reader i Leaving s) i"
      by (rule stream_move [OF assms(1)]) (use assms(2) Receiving behind in \<open>simp_all add: at_reader_nth\<close>)
    then show ?thesis using stream_decode [OF assms Receiving] Receiving
      by (simp add: serve_step_def receive_step_def)
  next
    case (Handling ms)
    then show ?thesis using stream_message [OF assms] stream_round [OF assms]
      by (cases ms) (simp_all add: serve_step_def)
  next
    case (Delivering m ms)
    let ?s = "at_reader i (Handling ms) (add_events (call_of i m) s)"
    have "stream_ok ?s i"
    proof (rule stream_own [OF assms(1)])
      show "co_received (sv_conns ?s ! i) = co_received ?c"
        using assms(2) by (simp add: at_reader_def on_conn_def add_events_def)
      fix stream
      assume "read_ok stream (delivered i (sv_events s)) (sv_current s = Some i) i ?c"
      from this show "read_ok stream (delivered i (sv_events ?s)) (sv_current ?s = Some i) i (sv_conns ?s ! i)"
        by (rule read_ok_handled [where m = m and ms = ms])
          (use assms(2) Delivering in \<open>simp_all add: at_reader_def on_conn_def add_events_def\<close>)
    qed
    then show ?thesis using Delivering by (simp add: serve_step_def)
  next
    case (Closing ms)
    have "stream_ok (at_reader i (Handling ms) (on_conn i (\<lambda>c. c\<lparr>co_close_sent := True\<rparr>) (shut i s))) i"
      by (rule stream_move [OF assms(1)])
        (use assms(2) Closing behind in \<open>simp_all add: at_reader_def on_conn_nth shut_def\<close>)
    then show ?thesis using Closing by (simp add: serve_step_def)
  next
    case Leaving
    have "stream_ok (at_reader i Resetting (shut i s)) i"
      by (rule stream_move [OF assms(1)])
        (use assms(2) Leaving behind in \<open>simp_all add: at_reader_def on_conn_nth shut_def\<close>)
    then show ?thesis using Leaving by (simp add: serve_step_def)
  next
    case Resetting
    have "stream_ok (at_reader i r s') i"
      if "r = Disconnecting \<or> r = Returned" "s' = s \<or> s' = s\<lparr>sv_current := None\<rparr>" for r s'
      by (rule stream_move [OF assms(1)])
        (use that assms(2) Resetting behind in \<open>auto simp: at_reader_def on_conn_def\<close>)
    then show ?thesis using Resetting by (simp add: serve_step_def end_reader_def)
  next
    case Disconnecting
    have "stream_ok (at_reader i Returned (add_events [Disconnected i] s)) i"
      by (rule stream_move [OF assms(1)])
        (use assms(2) Disconnecting behind in \<open>simp_all add: at_reader_def on_conn_def add_events_def\<close>)
    then show ?thesis using Disconnecting by (simp add: serve_step_def)
  next
    case Returned
    then show ?thesis using assms by (simp add: serve_step_def)
  qed
qed

lemma serve_step_streams:
  assumes "\<forall>j < length (sv_conns s). stream_ok s j" "i < length (sv_conns s)"
  shows "\<forall>j < length (sv_conns (serve_step n received i s)). stream_ok (serve_step n received i s) j"
proof (intro allI impI)
  fix j
  assume "j < length (sv_conns (serve_step n received i s))"
  then have j: "j < length (sv_conns s)" using serve_step_apart [of i s n received] by (simp add: apart_def)
  show "stream_ok (serve_step n received i s) j"
  proof (cases "j = i")
    case True
    then show ?thesis using serve_step_stream assms by blast
  next
    case False
    then have "sv_conns (serve_step n received i s) ! j = sv_conns s ! j"
      "delivered j (sv_events (serve_step n received i s)) = delivered j (sv_events s)"
      "sv_current (serve_step n received i s) = Some j \<Longrightarrow> sv_current s = Some j"
      using serve_step_apart [of i s n received] j unfolding apart_def by blast+
    then show ?thesis by (intro stream_keep [OF assms(1) [rule_format, OF j]]) simp_all
  qed
qed

text \<open>A new connection, the reader of which has all of what came behind the head.\<close>

lemma new_stream:
  assumes "read_head [] chunks = Some (head, rest)" "\<forall>c \<in> set chunks. length c \<le> 1024" "find_mark head = Some k"
  shows "read_ok (drop (k + 4) head) [] cur i (new_conn head reply (drop (k + 4) head))"
proof -
  obtain k' where "find_mark head = Some k'" "length (drop (k' + 4) head) < 1024"
    using read_head_spec [OF assms(1) _ assms(2)] by auto
  then have "length (drop (k + 4) head) \<le> kServeBuffer" using assms(3) by (simp add: kServeBuffer_def)
  moreover have "feed [] init_decoder = Some ([], init_decoder)"
    by (simp add: feed_def init_decoder_def feed_loop.simps parse_one_def frame_length_def bad_header_def Let_def)
  ultimately show ?thesis by (simp add: read_ok_def new_conn_def init_decoder_def)
qed

lemma install_streams:
  assumes "server_ok s" "\<forall>j < length (sv_conns s). stream_ok s j"
    "find_mark (co_received c) = Some k" "read_ok (drop (k + 4) (co_received c)) [] True (length (sv_conns s)) c"
    "delivered (length (sv_conns s)) (sv_events s) = []"
  shows "\<forall>j < length (sv_conns (install c s)). stream_ok (install c s) j"
proof (intro allI impI)
  fix j
  assume "j < length (sv_conns (install c s))"
  then consider "j = length (sv_conns s)" | "j < length (sv_conns s)" by (auto simp: install_def less_Suc_eq)
  then show "stream_ok (install c s) j"
  proof cases
    case 1
    then show ?thesis using assms(3-5) by (simp add: stream_ok_def install_def)
  next
    case 2
    then show ?thesis
      by (intro stream_keep [OF assms(2) [rule_format, OF 2]]) (simp_all add: install_def nth_append)
  qed
qed

text \<open>No handler was called for a connection that is still to come.\<close>

lemma log_run_absent:
  "log_run (n, p) es = Some (n', p') \<Longrightarrow> \<forall>i. n \<le> i \<longrightarrow> p i = Absent \<Longrightarrow>
   n \<le> n' \<and> (\<forall>i. n' \<le> i \<longrightarrow> p' i = Absent) \<and> (\<forall>i. n' \<le> i \<longrightarrow> delivered i es = [])"
proof (induction es arbitrary: n p)
  case (Cons e es)
  obtain m q where s: "log_step e (n, p) = Some (m, q)" "log_run (m, q) es = Some (n', p')"
    using Cons.prems(1) by (auto split: option.splits)
  have q: "n \<le> m" "\<forall>i. m \<le> i \<longrightarrow> q i = Absent" "\<forall>i. m \<le> i \<longrightarrow> \<not> from_client i e"
    using s(1) Cons.prems(2)
    by (auto simp: log_step_def from_client_def Let_def split: ws_event.splits if_splits phase.splits)
  from Cons.IH [OF s(2) q(2)] q(1,3) show ?case by (auto simp: delivered_def)
qed (simp add: delivered_def)

lemma accept_step_streams:
  assumes "server_ok s" "\<forall>j < length (sv_conns s). stream_ok s j" "\<forall>c \<in> set chunks. length c \<le> 1024"
  shows "\<forall>j < length (sv_conns (accept_step arrived taken chunks s)). stream_ok (accept_step arrived taken chunks s) j"
proof -
  have keep: "\<forall>j < length (sv_conns s'). stream_ok s' j"
    if "length (sv_conns s') = length (sv_conns s)" "sv_current s' = sv_current s"
      "\<And>j. delivered j (sv_events s') = delivered j (sv_events s)"
      "\<And>j. j < length (sv_conns s) \<Longrightarrow> core (sv_conns s' ! j) = core (sv_conns s ! j)"
      "\<And>j. j < length (sv_conns s) \<Longrightarrow> co_open (sv_conns s' ! j) \<Longrightarrow> co_open (sv_conns s ! j)" for s'
    using assms(2) that by (auto intro: stream_keep)
  have idle: "\<forall>j < length (sv_conns s). stream_ok (s\<lparr>sv_acceptor := a\<rparr>) j" for a
    using keep [of "s\<lparr>sv_acceptor := a\<rparr>"] by simp
  show ?thesis
  proof (cases "sv_acceptor s")
    case Reading
    obtain p where "log_run no_clients (sv_events s) = Some (announced s, p)"
      using assms(1) unfolding server_ok_def log_ok_def by blast
    moreover have "announced s = length (sv_conns s)" by (simp add: announced_def Reading)
    ultimately have none: "delivered (length (sv_conns s)) (sv_events s) = []" using log_run_absent by fastforce
    have "\<forall>j < length (sv_conns (install (new_conn h r (drop (k + 4) h)) s)). stream_ok (install (new_conn h r (drop (k + 4) h)) s) j"
      if "read_head [] chunks = Some (h, rest)" "find_mark h = Some k" for h rest k r
    proof -
      have "co_received (new_conn h r (drop (k + 4) h)) = h" by (simp add: new_conn_def)
      with that(2) new_stream [OF that(1) assms(3) that(2)] none show ?thesis
        by (intro install_streams [OF assms(1,2), where k = k]) simp_all
    qed
    then show ?thesis using idle [of Testing]
      by (auto simp: accept_step_def Reading accept_client_def Let_def split: option.splits)
  next
    case Starting
    define n where "n = length (sv_conns s) - 1"
    have n: "n < length (sv_conns s)" "co_reader (sv_conns s ! n) = Not_started"
    proof -
      have "installing (sv_acceptor s)" by (simp add: Starting installing_def)
      then show "n < length (sv_conns s)" using assms(1) unfolding server_ok_def by (simp add: n_def)
      then show "co_reader (sv_conns s ! n) = Not_started"
        using assms(1) \<open>installing (sv_acceptor s)\<close> unfolding server_ok_def by (simp add: n_def)
    qed
    let ?s = "(at_reader n Looping s)\<lparr>sv_acceptor := Testing\<rparr>"
    have "stream_ok ?s j" if j: "j < length (sv_conns s)" for j
    proof (cases "j = n")
      case True
      have "co_received (sv_conns ?s ! n) = co_received (sv_conns s ! n)" using n(1) by (simp add: at_reader_nth)
      then show ?thesis unfolding True
        by (rule stream_own [OF assms(2) [rule_format, OF n(1)]])
          (use n in \<open>auto simp: at_reader_nth read_ok_def split: if_splits\<close>)
    next
      case False
      then show ?thesis
        by (intro stream_keep [OF assms(2) [rule_format, OF j]]) (use j in \<open>simp_all add: at_reader_def on_conn_nth\<close>)
    qed
    then show ?thesis by (simp add: accept_step_def Starting n_def)
  next
    case Announcing
    then show ?thesis unfolding accept_step_def Let_def Announcing acceptor.case
      by (intro keep) (simp_all add: add_events_def)
  next
    case (Swapped old)
    then show ?thesis unfolding accept_step_def Let_def Swapped acceptor.case
      by (intro keep) (auto simp: shut_def on_conn_nth core_def split: option.splits if_splits)
  qed (use idle assms(2) in \<open>simp_all add: accept_step_def\<close>)
qed

lemma ws_step_streams:
  "ws_step s s' \<Longrightarrow> server_ok s \<Longrightarrow> \<forall>j < length (sv_conns s). stream_ok s j \<Longrightarrow> \<forall>j < length (sv_conns s'). stream_ok s' j"
proof (induction rule: ws_step.induct)
  case (Accept chunks s arrived taken)
  then show ?case using accept_step_streams by blast
next
  case (Serve i s received taken)
  then show ?case using serve_step_streams by blast
next
  case (Write i s bs)
  show ?case
    by (intro allI impI, rule stream_keep [OF Write(3) [rule_format]]) (auto simp: on_conn_nth core_def split: if_splits)
next
  case (Drop i s)
  show ?case
    by (intro allI impI, rule stream_keep [OF Drop(3) [rule_format]])
      (auto simp: shut_def on_conn_nth core_def split: if_splits)
next
  case (Stop_begin s)
  then show ?case by (simp add: stream_ok_def stop_begin_def)
next
  case (Stop_end s)
  have "stream_ok (shut i s) j" if "j < length (sv_conns s)" for i j
    by (rule stream_keep [OF Stop_end(2) [rule_format, OF that]])
      (use that in \<open>auto simp: shut_def on_conn_nth core_def split: if_splits\<close>)
  then show ?case using Stop_end(2) by (simp add: stop_end_def split: option.split)
qed

lemma reachable_streams: "ws_step\<^sup>*\<^sup>* init_server s \<Longrightarrow> \<forall>j < length (sv_conns s). stream_ok s j"
proof (induction rule: rtranclp_induct)
  case base
  then show ?case by (simp add: init_server_def)
next
  case (step s s')
  then show ?case using ws_step_streams server_reachable_ok by blast
qed

text \<open>C36: What a client sends right behind its request is neither lost nor cut. Take everything a socket has delivered so
  far: the request, up to the first blank line, and the stream behind it. At any moment of any run the reader either
  still has all of that stream to decode, and has handed over nothing (it has not come to it, or the connection was
  closed before it did), or the messages it has handled and those it has yet to handle are, in this order, the messages
  of the whole stream, however it was cut; and the calls made for the client are those its handled messages ask for, up
  to the moment another client replaced it.\<close>

theorem nothing_is_lost_behind_the_head:
  assumes "ws_step\<^sup>*\<^sup>* init_server s" "i < length (sv_conns s)" "c = sv_conns s ! i"
  shows "\<exists>k. find_mark (co_received c) = Some k \<and>
    (let stream = drop (k + 4) (co_received c) in
     if co_have c \<noteq> [] then
       co_have c = stream \<and> delivered i (sv_events s) = [] \<and>
       (co_reader c = Not_started \<or> co_reader c = Looping \<or> \<not> co_open c)
     else \<exists>handled d. feed stream init_decoder = Some (handled @ unhandled (co_reader c), d) \<and>
       (\<exists>later. calls i handled = delivered i (sv_events s) @ later) \<and>
       (sv_current s = Some i \<longrightarrow> delivered i (sv_events s) = calls i handled))"
proof -
  obtain k where k: "find_mark (co_received c) = Some k"
    "read_ok (drop (k + 4) (co_received c)) (delivered i (sv_events s)) (sv_current s = Some i) i c"
    using reachable_streams [OF assms(1)] assms(2) unfolding stream_ok_def assms(3) by blast
  have "if co_have c \<noteq> [] then
       co_have c = drop (k + 4) (co_received c) \<and> delivered i (sv_events s) = [] \<and>
       (co_reader c = Not_started \<or> co_reader c = Looping \<or> \<not> co_open c)
     else \<exists>handled d. feed (drop (k + 4) (co_received c)) init_decoder = Some (handled @ unhandled (co_reader c), d) \<and>
       (\<exists>later. calls i handled = delivered i (sv_events s) @ later) \<and>
       (sv_current s = Some i \<longrightarrow> delivered i (sv_events s) = calls i handled)"
    using k(2) unfolding read_ok_def by (auto split: if_splits)
  then show ?thesis using k(1) unfolding Let_def by blast
qed

text \<open>The demo client's ping, cut behind its first byte, and an empty text message. The reader answers the ping and is about
  to hand the text over.\<close>

definition demo_bytes :: bytes where
  "demo_bytes = [0x80, 1, 2, 3, 4, 0x81, 0x80, 1, 2, 3, 4]"

lemma demo_decoded:
  "feed [0x89] init_decoder = Some ([], init_decoder\<lparr>d_buf := [0x89]\<rparr>)"
  "feed demo_bytes (init_decoder\<lparr>d_buf := [0x89]\<rparr>) =
     Some ([\<lparr>msg_op = Ping, msg_data = []\<rparr>, \<lparr>msg_op = Text_op, msg_data = []\<rparr>], init_decoder)"
  by (simp_all add: feed_def feed_loop.simps parse_one_def frame_length_def bad_header_def frame_body_def demo_bytes_def
      data_frame_def init_decoder_def op_of_def mask_payload_def kMaxMessageSize_def upt_rec Let_def)

definition demo_handling :: server where
  "demo_handling = demo_serve demo_bytes 0 (demo_serve [] 0 (demo_serve [] 0 (demo_serve [] 0 (demo_arrival init_server))))"

lemma demo_handling_state:
  "demo_handling = \<lparr>sv_conns = [demo_conn\<lparr>co_received := text_bytes demo_head @ 0x89 # demo_bytes, co_have := [],
     co_reader := Handling [\<lparr>msg_op = Ping, msg_data = []\<rparr>, \<lparr>msg_op = Text_op, msg_data = []\<rparr>]\<rparr>], sv_current = Some 0,
     sv_events = [Connected 0], sv_stopping = False, sv_acceptor = Testing\<rparr>"
proof -
  have dec: "co_dec demo_conn = init_decoder" by (simp add: demo_conn_def new_conn_def)
  have ok: "d_status (init_decoder\<lparr>d_buf := [0x89]\<rparr>) = Ws_ok" by (simp add: init_decoder_def)
  have d: "co_open demo_conn" "co_have demo_conn = [0x89]" "co_received demo_conn = text_bytes demo_head @ [0x89]"
    by (simp_all add: demo_conn_def new_conn_def kServeBuffer_def)
  have more: "demo_bytes \<noteq> []" by (simp add: demo_bytes_def)
  show ?thesis
    by (simp add: demo_handling_def demo_arrival_eq demo_serve_def serve_step_def read_step_def receive_step_def
        round_end_def decode_chunk_def init_server_def install_def on_conn_def at_reader_def add_events_def Let_def d
        dec more demo_decoded ok)
qed

text \<open>The text, and what happens when a second client arrives first: its message is handed over behind the announcement
  of its successor.\<close>

definition demo_delivering :: server where
  "demo_delivering = demo_serve [] 0 (demo_serve [] 0 demo_handling)"

definition late_message :: server where
  "late_message = demo_serve [] 0 (demo_arrival demo_delivering)"

lemma demo_pong: "co_open demo_conn" "encode_frame Pong [] True None = [0x8A, 0]"
  by (simp_all add: demo_conn_def new_conn_def encode_frame_def length_bytes_def op_code_def Let_def)

lemma demo_delivering_state:
  "demo_delivering = \<lparr>sv_conns = [demo_conn\<lparr>co_received := text_bytes demo_head @ 0x89 # demo_bytes, co_have := [],
     co_wire := co_wire demo_conn @ [0x8A, 0], co_reader := Delivering \<lparr>msg_op = Text_op, msg_data = []\<rparr> []\<rparr>],
     sv_current = Some 0, sv_events = [Connected 0], sv_stopping = False, sv_acceptor = Testing\<rparr>"
  by (simp add: demo_delivering_def demo_handling_state demo_serve_def serve_step_def handle_message_def send_frame_def
      on_conn_def at_reader_def Let_def demo_pong)

lemma late_message_state:
  "sv_events (demo_serve [] 0 demo_delivering) = [Connected 0, Got_text 0 []]"
  "sv_events late_message = [Connected 0, Connected 1, Got_text 0 []]" "sv_current late_message = Some 1"
  "length (sv_conns (demo_arrival demo_delivering)) = 2"
  by (simp_all add: late_message_def demo_delivering_state demo_arrival_eq demo_serve_def serve_step_def call_of_def
      install_def shut_def on_conn_def at_reader_def add_events_def)

lemma demo_serve_length [simp]: "length (sv_conns (demo_serve received i s)) = length (sv_conns s)"
  using serve_step_apart [of i s 4096 received] by (simp add: demo_serve_def apart_def)

lemma late_message_reachable:
  "ws_step\<^sup>*\<^sup>* init_server (demo_serve [] 0 demo_delivering)" "ws_step\<^sup>*\<^sup>* init_server late_message"
proof -
  define s1 where "s1 = demo_arrival init_server"
  have n: "length (sv_conns s1) = 1"
    by (simp add: s1_def demo_arrival_eq init_server_def install_def at_reader_def add_events_def)
  have go: "ws_step\<^sup>*\<^sup>* init_server (demo_serve bs 0 s) \<and> length (sv_conns (demo_serve bs 0 s)) = 1"
    if "ws_step\<^sup>*\<^sup>* init_server s \<and> length (sv_conns s) = 1" "length bs \<le> kServeBuffer" for s bs
    using that demo_serves [of 0 s bs] by (auto intro: rtranclp_trans)
  have "ws_step\<^sup>*\<^sup>* init_server s1 \<and> length (sv_conns s1) = 1" unfolding s1_def [symmetric] using demo_arrives n s1_def by simp
  then have d: "ws_step\<^sup>*\<^sup>* init_server demo_delivering \<and> length (sv_conns demo_delivering) = 1"
    unfolding demo_delivering_def demo_handling_def s1_def [symmetric]
    by (intro go) (simp_all add: kServeBuffer_def demo_bytes_def)
  then show "ws_step\<^sup>*\<^sup>* init_server (demo_serve [] 0 demo_delivering)" using go [OF d] by simp
  have "ws_step\<^sup>*\<^sup>* init_server (demo_arrival demo_delivering)" using d demo_arrives by (blast intro: rtranclp_trans)
  then show "ws_step\<^sup>*\<^sup>* init_server late_message" unfolding late_message_def
    by (rule rtranclp_trans) (rule demo_serves, simp_all add: late_message_state)
qed

theorem nothing_is_lost_behind_the_head_witness:
  "\<exists>handled d. feed (0x89 # demo_bytes) init_decoder = Some (handled, d) \<and> calls 0 handled = [Got_text 0 []]"
proof -
  define s where "s = demo_serve [] 0 demo_delivering"
  define c where "c = sv_conns s ! 0"
  have state: "co_received c = text_bytes demo_head @ 0x89 # demo_bytes" "co_have c = []" "unhandled (co_reader c) = []"
    "sv_current s = Some 0" "0 < length (sv_conns s)" "delivered 0 (sv_events s) = [Got_text 0 []]"
    by (simp_all add: s_def c_def demo_delivering_state demo_serve_def serve_step_def on_conn_def at_reader_def
        add_events_def delivered_def from_client_def call_of_def)
  have mark: "find_mark (co_received c) = Some 106" using find_mark_append [OF demo_mark, of demo_bytes] state(1) by simp
  have stream: "drop (106 + 4) (co_received c) = 0x89 # demo_bytes"
    using demo_length state(1) by (simp add: text_bytes_def)
  from nothing_is_lost_behind_the_head [OF late_message_reachable(1) state(5) [unfolded s_def] c_def [unfolded s_def]]
  show ?thesis unfolding s_def [symmetric] mark option.inject Let_def using state stream by auto
qed

end
