(* ===== verification/Double.thy ===== *)
theory Double
  imports Float_Text
begin

text \<open>
  The \<open>double\<close> numbers of the simulator's messages, as far as they are read and printed: a sign and a
  rational magnitude, an infinity or a NaN; \<open>strtod\<close> rounds to 53 bits, \<open>%.0f\<close> and \<open>%.10g\<close> print.
\<close>

section \<open>Values and rounding\<close>

datatype double = D_fin bool rat | D_inf bool | D_nan

fun bit_length :: "nat \<Rightarrow> nat" where
  "bit_length n = (if n = 0 then 0 else Suc (bit_length (n div 2)))"

declare bit_length.simps [simp del]

definition pow2 :: "int \<Rightarrow> rat" where
  "pow2 e = (if 0 \<le> e then 2 ^ nat e else 1 / 2 ^ nat (- e))"

text \<open>The largest \<open>e\<close> with \<open>2^e \<le> q\<close>.\<close>

definition exp2_of :: "rat \<Rightarrow> int" where
  "exp2_of q =
     (case quotient_of q of (n, d) \<Rightarrow>
        let e = int (bit_length (nat n)) - int (bit_length (nat d)) in
        if q < pow2 e then e - 1 else e)"

definition round53 :: "rat \<Rightarrow> rat" where
  "round53 q =
     (if q = 0 then 0
      else let u = pow2 (max (- 1074) (exp2_of q - 52)) in rat_of_int (round_half_even (q / u)) * u)"

definition double_of :: "bool \<Rightarrow> rat \<Rightarrow> double" where
  "double_of neg q = (let r = round53 q in if 2 ^ 1024 \<le> r then D_inf neg else D_fin neg r)"

section \<open>Text\<close>

text \<open>\<open>strtod\<close> of a decimal number without leading blanks.\<close>

definition strtod :: "string \<Rightarrow> double" where
  "strtod t =
     (let neg = (t \<noteq> [] \<and> hd t = CHR ''-''); s = (if neg then tl t else t) in
      case read_magnitude_in 10 is_digit digit_val 10 (CHR ''e'') s of
        None \<Rightarrow> D_fin False 0 | Some q \<Rightarrow> double_of neg q)"

definition dec_exp_double :: "rat \<Rightarrow> int" where
  "dec_exp_double q = (case find (\<lambda>e. pow10 e \<le> q) (rev [- 324 .. 308]) of None \<Rightarrow> - 324 | Some e \<Rightarrow> e)"

definition ten_digits :: "rat \<Rightarrow> nat \<times> int" where
  "ten_digits q =
     (let e = dec_exp_double q; d = nat (round_half_even (q * pow10 (9 - e))) in
      if d = 10 ^ 10 then (10 ^ 9, e + 1) else (d, e))"

text \<open>\<open>%.10g\<close> of a magnitude.\<close>

definition general_text :: "rat \<Rightarrow> string" where
  "general_text q =
     (if q = 0 then nat_digits 0
      else case ten_digits q of (d, e) \<Rightarrow>
        if - 4 \<le> e \<and> e < 10 then decimal_text d (nat (9 - e))
        else decimal_text d 9 @ exponent_text e)"

section \<open>Small integers are exact\<close>

lemma bit_length_bracket: "0 < n \<Longrightarrow> 2 ^ (bit_length n - 1) \<le> n \<and> n < 2 ^ bit_length n \<and> 0 < bit_length n"
proof (induction n rule: bit_length.induct)
  case (1 n)
  show ?case
  proof (cases "n = 1")
    case True
    then show ?thesis by (simp add: bit_length.simps)
  next
    case False
    define m where "m = n div 2"
    have m: "0 < m" "n = 2 * m \<or> n = 2 * m + 1" using False 1(2) by (auto simp: m_def)
    have b: "bit_length n = Suc (bit_length m)" using 1(2) by (subst bit_length.simps) (simp add: m_def)
    obtain k where k: "bit_length m = Suc k"
      using 1(1) 1(2) m(1) by (cases "bit_length m") (auto simp: m_def)
    have "2 ^ k \<le> m" "m < 2 ^ Suc k" using 1(1) 1(2) m(1) k by (auto simp: m_def)
    then show ?thesis using m(2) by (auto simp: b k)
  qed
qed

lemma exp2_of_nat:
  assumes "0 < n" "n < 2 ^ k"
  shows "exp2_of (of_nat n) < int k"
proof -
  obtain j where j: "bit_length n = Suc j" using bit_length_bracket [OF assms(1)] by (cases "bit_length n") auto
  have "2 ^ j \<le> n" using bit_length_bracket [OF assms(1)] by (simp add: j)
  with assms(2) have "(2 :: nat) ^ j < 2 ^ k" by linarith
  then have "j < k" by simp
  moreover have "quotient_of (of_nat n) = (int n, 1)" using quotient_of_int [of "int n"] by simp
  moreover have "bit_length 1 = 1" by (simp add: bit_length.simps)
  ultimately show ?thesis by (simp add: exp2_of_def j Let_def)
qed

lemma round53_nat:
  assumes "n < 2 ^ 53"
  shows "round53 (of_nat n) = of_nat n"
proof (cases "n = 0")
  case False
  define e where "e = max (- 1074) (exp2_of (of_nat n) - 52)"
  have "e \<le> 0" using exp2_of_nat [of n 53] False assms by (simp add: e_def)
  then obtain m where m: "e = - int m" by (metis minus_minus zero_le_imp_eq_int neg_0_le_iff_le)
  have u: "pow2 e = 1 / 2 ^ m" by (simp add: pow2_def m)
  have "rat_of_nat n / pow2 e = rat_of_int (int (n * 2 ^ m))" by (simp add: u)
  then have "round_half_even (rat_of_nat n / pow2 e) = int (n * 2 ^ m)"
    using round_half_even_int by metis
  then show ?thesis using False by (simp add: round53_def Let_def e_def [symmetric] u)
qed (simp add: round53_def)

lemma strtod_nat_digits:
  assumes "n < 2 ^ 53"
  shows "strtod ((if neg then ''-'' else []) @ nat_digits n) = D_fin neg (of_nat n)"
proof -
  obtain c cs where d: "nat_digits n = c # cs" "is_digit c" using hd_nat_digits by blast
  then have c: "c \<noteq> CHR ''-''" using not_digit_chars by metis
  have "read_magnitude_in 10 is_digit digit_val 10 (CHR ''e'') (nat_digits n) = Some (of_nat n)"
    using read_decimal_text [of "[]" n 0] by (simp add: decimal_text_def strip_zeros_def read_exponent_def rat_power_def)
  moreover have "\<not> (2 :: rat) ^ 1024 \<le> of_nat n"
  proof -
    have "(of_nat n :: rat) < of_nat (2 ^ 53)" using assms by (simp only: of_nat_less_iff)
    also have "\<dots> \<le> 2 ^ 1024" by simp
    finally show ?thesis by simp
  qed
  ultimately show ?thesis using d c
    by (simp add: strtod_def double_of_def round53_nat [OF assms] Let_def)
qed

end
