(* ===== verification/Double_Ops.thy ===== *)
theory Double_Ops
  imports Double
begin

text \<open>
  The arithmetic of \<open>double\<close> in the simulator: the operations of C++ on the values of theory Double,
  each the exact rational result rounded to 53 bits, and what rounding to nearest keeps.
\<close>

section \<open>Values\<close>

definition double_int :: "int \<Rightarrow> double" where
  "double_int n = D_fin (n < 0) (rat_of_int \<bar>n\<bar>)"

definition double_val :: "double \<Rightarrow> rat" where
  "double_val n = (case n of D_fin neg q \<Rightarrow> (if neg then - q else q) | _ \<Rightarrow> 0)"

definition finite_double :: "double \<Rightarrow> bool" where
  "finite_double n = (case n of D_fin neg q \<Rightarrow> True | _ \<Rightarrow> False)"

text \<open>A rounded value; \<open>z\<close> is the sign of an exact zero.\<close>

definition d_round :: "bool \<Rightarrow> rat \<Rightarrow> double" where
  "d_round z v = (if v = 0 then D_fin z 0 else double_of (v < 0) \<bar>v\<bar>)"

definition d_lit :: "rat \<Rightarrow> double" where
  "d_lit v = d_round False v"

definition d_of_int :: "int \<Rightarrow> double" where
  "d_of_int n = d_round False (rat_of_int n)"

section \<open>Operations\<close>

definition dneg :: "double \<Rightarrow> double" where
  "dneg a = (case a of D_fin s p \<Rightarrow> D_fin (\<not> s) p | D_inf s \<Rightarrow> D_inf (\<not> s) | D_nan \<Rightarrow> D_nan)"

definition dabs :: "double \<Rightarrow> double" where
  "dabs a = (case a of D_fin s p \<Rightarrow> D_fin False p | D_inf s \<Rightarrow> D_inf False | D_nan \<Rightarrow> D_nan)"

definition dadd :: "double \<Rightarrow> double \<Rightarrow> double" where
  "dadd a b =
     (case a of
        D_nan \<Rightarrow> D_nan
      | D_inf s \<Rightarrow> (case b of D_nan \<Rightarrow> D_nan | D_inf t \<Rightarrow> if s = t then D_inf s else D_nan | D_fin t q \<Rightarrow> D_inf s)
      | D_fin s p \<Rightarrow> (case b of D_nan \<Rightarrow> D_nan | D_inf t \<Rightarrow> D_inf t
          | D_fin t q \<Rightarrow> d_round (s \<and> t) (double_val a + double_val b)))"

definition dsub :: "double \<Rightarrow> double \<Rightarrow> double" where
  "dsub a b = dadd a (dneg b)"

definition dmul :: "double \<Rightarrow> double \<Rightarrow> double" where
  "dmul a b =
     (case a of
        D_nan \<Rightarrow> D_nan
      | D_inf s \<Rightarrow> (case b of D_nan \<Rightarrow> D_nan | D_inf t \<Rightarrow> D_inf (s \<noteq> t)
          | D_fin t q \<Rightarrow> if q = 0 then D_nan else D_inf (s \<noteq> t))
      | D_fin s p \<Rightarrow> (case b of D_nan \<Rightarrow> D_nan | D_inf t \<Rightarrow> if p = 0 then D_nan else D_inf (s \<noteq> t)
          | D_fin t q \<Rightarrow> double_of (s \<noteq> t) (p * q)))"

definition ddiv :: "double \<Rightarrow> double \<Rightarrow> double" where
  "ddiv a b =
     (case a of
        D_nan \<Rightarrow> D_nan
      | D_inf s \<Rightarrow> (case b of D_nan \<Rightarrow> D_nan | D_inf t \<Rightarrow> D_nan | D_fin t q \<Rightarrow> D_inf (s \<noteq> t))
      | D_fin s p \<Rightarrow> (case b of D_nan \<Rightarrow> D_nan | D_inf t \<Rightarrow> D_fin (s \<noteq> t) 0
          | D_fin t q \<Rightarrow> if q = 0 then (if p = 0 then D_nan else D_inf (s \<noteq> t))
              else double_of (s \<noteq> t) (p / q)))"

definition dlt :: "double \<Rightarrow> double \<Rightarrow> bool" where
  "dlt a b =
     (case a of
        D_nan \<Rightarrow> False
      | D_inf s \<Rightarrow> (case b of D_nan \<Rightarrow> False | D_inf t \<Rightarrow> s \<and> \<not> t | D_fin t q \<Rightarrow> s)
      | D_fin s p \<Rightarrow> (case b of D_nan \<Rightarrow> False | D_inf t \<Rightarrow> \<not> t | D_fin t q \<Rightarrow> double_val a < double_val b))"

definition dle :: "double \<Rightarrow> double \<Rightarrow> bool" where
  "dle a b = (a \<noteq> D_nan \<and> b \<noteq> D_nan \<and> \<not> dlt b a)"

text \<open>\<open>std::max\<close> and \<open>std::clamp\<close>.\<close>

definition dmax :: "double \<Rightarrow> double \<Rightarrow> double" where
  "dmax a b = (if dlt a b then b else a)"

definition dclamp :: "double \<Rightarrow> double \<Rightarrow> double \<Rightarrow> double" where
  "dclamp v lo hi = (if dlt v lo then lo else if dlt hi v then hi else v)"

section \<open>Rounding\<close>

lemma pow2_pos [simp]: "0 < pow2 e"
  by (simp add: pow2_def)

lemma pow2_nonneg [simp]: "0 \<le> pow2 e" "pow2 e \<noteq> 0"
  by (simp_all add: pow2_def)

lemma pow2_nat [simp]: "pow2 (int n) = 2 ^ n"
  by (simp add: pow2_def)

lemma pow2_neg: "pow2 (- int n) = 1 / 2 ^ n"
  by (simp add: pow2_def)

lemma pow2_powi: "pow2 e = 2 powi e"
  by (simp add: pow2_def power_int_def inverse_eq_divide power_one_over)

lemma pow2_add: "pow2 (a + b) = pow2 a * pow2 b"
  by (simp add: pow2_powi power_int_add)

lemma pow2_mono: "a \<le> b \<Longrightarrow> pow2 a \<le> pow2 b"
  by (simp add: pow2_powi power_int_increasing)

lemma pow2_less_iff [simp]: "pow2 a < pow2 b \<longleftrightarrow> a < b"
  using pow2_mono [of b a] by (metis (no_types, lifting) linorder_not_le one_less_numeral_iff
      pow2_powi power_int_strict_increasing semiring_norm(76))

lemma pow2_diff_int: "a \<le> b \<Longrightarrow> \<exists>k. pow2 b / pow2 a = rat_of_int k"
proof -
  assume "a \<le> b"
  then have "b = a + int (nat (b - a))" by simp
  then have "pow2 b = pow2 a * 2 ^ nat (b - a)" by (metis pow2_add pow2_nat)
  then have "pow2 b / pow2 a = rat_of_int (2 ^ nat (b - a))" by (simp add: less_imp_neq [OF pow2_pos, symmetric])
  then show ?thesis ..
qed

text \<open>\<open>exp2_of\<close> is the exponent.\<close>

lemma exp2_of_bracket:
  assumes "0 < q"
  shows "pow2 (exp2_of q) \<le> q \<and> q < pow2 (exp2_of q + 1)"
proof -
  obtain n d where nd: "quotient_of q = (n, d)" by fastforce
  have d: "0 < d" using quotient_of_denom_pos [OF nd] .
  have q: "q = rat_of_int n / rat_of_int d" using quotient_of_div [OF nd] .
  have n: "0 < n" using assms d unfolding q by (simp add: zero_less_divide_iff)
  obtain i where i: "bit_length (nat n) = Suc i" "2 ^ i \<le> nat n" "nat n < 2 ^ Suc i"
    using bit_length_bracket [of "nat n"] n by (cases "bit_length (nat n)") auto
  obtain j where j: "bit_length (nat d) = Suc j" "2 ^ j \<le> nat d" "nat d < 2 ^ Suc j"
    using bit_length_bracket [of "nat d"] d by (cases "bit_length (nat d)") auto
  have nat_rat: "2 ^ k \<le> rat_of_int m" "rat_of_int m < 2 ^ l"
    if "2 ^ k \<le> nat m" "nat m < 2 ^ l" "0 < m" for k l m
  proof -
    have "2 ^ k \<le> m" "m < 2 ^ l" using that by (simp_all add: le_nat_iff nat_less_iff)
    then show "2 ^ k \<le> rat_of_int m" "rat_of_int m < 2 ^ l"
      by (metis of_int_le_iff of_int_power of_int_numeral, metis of_int_less_iff of_int_power of_int_numeral)
  qed
  note rn = nat_rat [OF i(2,3) n] and rd = nat_rat [OF j(2,3) d]
  define e where "e = int i - int j"
  have "pow2 (e + 1) * 2 ^ j = 2 ^ Suc i" "pow2 (e - 1) * 2 ^ Suc j = 2 ^ i"
    unfolding pow2_nat [symmetric] pow2_add [symmetric] by (auto simp: e_def intro!: arg_cong [where f = pow2])
  note pw = this
  have "pow2 (e + 1) * 2 ^ j \<le> pow2 (e + 1) * rat_of_int d" by (rule mult_left_mono [OF rd(1) pow2_nonneg(1)])
  then have up: "rat_of_int n < pow2 (e + 1) * rat_of_int d" using rn(2) pw(1) by linarith
  have "pow2 (e - 1) * rat_of_int d < pow2 (e - 1) * 2 ^ Suc j" by (rule mult_strict_left_mono [OF rd(2) pow2_pos])
  then have "pow2 (e - 1) * rat_of_int d < rat_of_int n" using rn(1) pw(2) by linarith
  with up have "q < pow2 (e + 1)" "pow2 (e - 1) < q"
    using d by (simp_all add: q pos_divide_less_eq pos_less_divide_eq)
  moreover have "exp2_of q = (if q < pow2 e then e - 1 else e)"
    by (simp add: exp2_of_def nd i(1) j(1) e_def Let_def)
  ultimately show ?thesis by auto
qed

lemma exp2_of_le: "0 < q \<Longrightarrow> q < pow2 e \<Longrightarrow> exp2_of q < e"
  using exp2_of_bracket [of q] by (meson order_le_less_trans pow2_less_iff)

lemma exp2_of_mono: "0 < q \<Longrightarrow> q \<le> r \<Longrightarrow> exp2_of q \<le> exp2_of r"
  using exp2_of_le [of q "exp2_of r + 1"] exp2_of_bracket [of r] by fastforce

lemma round_half_even_le: "x \<le> rat_of_int k \<Longrightarrow> round_half_even x \<le> k"
proof -
  assume x: "x \<le> rat_of_int k"
  show ?thesis
  proof (cases "x = rat_of_int k")
    case False
    then have "\<lfloor>x\<rfloor> < k" using x by (simp add: floor_less_iff)
    then show ?thesis by (auto simp: round_half_even_def Let_def)
  qed (simp add: round_half_even_int)
qed

lemma round_half_even_nonneg: "0 \<le> x \<Longrightarrow> 0 \<le> round_half_even x"
  by (auto simp: round_half_even_def Let_def)

text \<open>The unit in the last place of a value, and when a value is representable.\<close>

definition ulp_exp :: "rat \<Rightarrow> int" where
  "ulp_exp q = max (- 1074) (exp2_of q - 52)"

lemma round53_ulp: "q \<noteq> 0 \<Longrightarrow> round53 q = rat_of_int (round_half_even (q / pow2 (ulp_exp q))) * pow2 (ulp_exp q)"
  by (simp add: round53_def ulp_exp_def Let_def)

lemma round53_0 [simp]: "round53 0 = 0"
  by (simp add: round53_def)

lemma round53_nonneg: "0 \<le> q \<Longrightarrow> 0 \<le> round53 q"
  by (cases "q = 0") (simp_all add: round53_ulp round_half_even_nonneg less_imp_le)

lemma round53_multiple:
  assumes "ulp_exp q \<le> e" "q = rat_of_int k * pow2 e"
  shows "round53 q = q"
proof (cases "q = 0")
  case False
  obtain m where "pow2 e / pow2 (ulp_exp q) = rat_of_int m" using pow2_diff_int [OF assms(1)] ..
  then have m: "q / pow2 (ulp_exp q) = rat_of_int (k * m)" by (metis assms(2) of_int_mult times_divide_eq_right)
  then have "q = rat_of_int (k * m) * pow2 (ulp_exp q)" by (metis nonzero_divide_eq_eq pow2_nonneg(2))
  with False show ?thesis by (simp add: round53_ulp m round_half_even_int [of "k * m", simplified])
qed simp

lemma round53_exact:
  assumes "0 \<le> k" "k \<le> 2 ^ 53" "- 1074 \<le> e"
  shows "round53 (rat_of_int k * pow2 e) = rat_of_int k * pow2 e"
proof -
  define q where "q = rat_of_int k * pow2 e"
  consider "k = 0" | "0 < k" "k < 2 ^ 53" | "k = 2 ^ 53" using assms by linarith
  then have "round53 q = q"
  proof cases
    case 2
    have "rat_of_int k < rat_of_int (2 ^ 53)" using 2 by (simp only: of_int_less_iff)
    then have "rat_of_int k < pow2 (int 53)" unfolding pow2_nat by simp
    then have "q < pow2 (53 + e)" unfolding q_def pow2_add by (simp add: mult_strict_right_mono)
    then have "exp2_of q < 53 + e" using exp2_of_le [of q] 2 by (simp add: q_def)
    then show ?thesis using round53_multiple [OF _ q_def] assms(3) by (simp add: ulp_exp_def)
  next
    case 3
    have "rat_of_int k = pow2 (int 53)" unfolding pow2_nat by (simp add: 3)
    then have q: "q = pow2 (53 + e)" unfolding q_def pow2_add by simp
    have "q < pow2 (54 + e)" by (simp add: q)
    then have "exp2_of q < 54 + e" using exp2_of_le [of q] q by simp
    moreover have "q = rat_of_int (2 ^ 52) * pow2 (1 + e)" unfolding q_def 3 pow2_add by (simp add: pow2_def)
    ultimately show ?thesis using round53_multiple [of q "1 + e" "2 ^ 52"] assms(3) by (simp only: ulp_exp_def)
  qed (simp add: q_def)
  then show ?thesis by (simp add: q_def)
qed

lemma round53_significand:
  assumes "0 < q"
  shows "\<exists>k. 0 \<le> k \<and> k \<le> 2 ^ 53 \<and> round53 q = rat_of_int k * pow2 (ulp_exp q)"
proof -
  define k where "k = round_half_even (q / pow2 (ulp_exp q))"
  have "q < pow2 (exp2_of q + 1)" using exp2_of_bracket [OF assms] ..
  also have "\<dots> \<le> pow2 (53 + ulp_exp q)" by (rule pow2_mono) (simp add: ulp_exp_def)
  also have "\<dots> = rat_of_int (2 ^ 53) * pow2 (ulp_exp q)" unfolding pow2_add by (simp add: pow2_def)
  finally have "q / pow2 (ulp_exp q) \<le> rat_of_int (2 ^ 53)" by (simp add: pos_divide_le_eq)
  then have "k \<le> 2 ^ 53" unfolding k_def by (rule round_half_even_le)
  moreover have "0 \<le> k" using assms by (simp add: k_def round_half_even_nonneg)
  ultimately show ?thesis using assms by (auto simp: round53_ulp k_def)
qed

lemma round53_idem [simp]: "0 \<le> q \<Longrightarrow> round53 (round53 q) = round53 q"
proof (cases "q = 0")
  case False
  assume "0 \<le> q"
  then obtain k where "0 \<le> k" "k \<le> 2 ^ 53" "round53 q = rat_of_int k * pow2 (ulp_exp q)"
    using round53_significand [of q] False by auto
  then show ?thesis using round53_exact [of k "ulp_exp q"] by (simp add: ulp_exp_def)
qed simp

text \<open>Rounding does not cross a representable value.\<close>

lemma round53_le:
  assumes "0 \<le> q" "q \<le> r" "round53 r = r"
  shows "round53 q \<le> r"
proof (cases "q = 0")
  case False
  then have q: "0 < q" "0 < r" using assms by auto
  obtain k where k: "r = rat_of_int k * pow2 (ulp_exp r)" using round53_significand [OF q(2)] assms(3) by auto
  have e: "ulp_exp q \<le> ulp_exp r" using exp2_of_mono [OF q(1) assms(2)] by (simp add: ulp_exp_def)
  obtain m where "pow2 (ulp_exp r) / pow2 (ulp_exp q) = rat_of_int m" using pow2_diff_int [OF e] ..
  then have m: "r / pow2 (ulp_exp q) = rat_of_int (k * m)" by (metis k of_int_mult times_divide_eq_right)
  have "q / pow2 (ulp_exp q) \<le> r / pow2 (ulp_exp q)" using assms(2) by (simp add: divide_right_mono less_imp_le)
  then have "round_half_even (q / pow2 (ulp_exp q)) \<le> k * m" unfolding m by (rule round_half_even_le)
  then have "rat_of_int (round_half_even (q / pow2 (ulp_exp q))) \<le> r / pow2 (ulp_exp q)"
    unfolding m of_int_le_iff .
  then show ?thesis using q(1) by (simp add: round53_ulp pos_le_divide_eq)
qed (use assms in simp)

section \<open>Bounds on results\<close>

text \<open>A value of the type: the magnitude of a finite one is representable.\<close>

definition is_double :: "double \<Rightarrow> bool" where
  "is_double x = (case x of D_fin s q \<Rightarrow> 0 \<le> q \<and> round53 q = q \<and> q < 2 ^ 1024 | _ \<Rightarrow> True)"

definition within_abs :: "rat \<Rightarrow> double \<Rightarrow> bool" where
  "within_abs b x \<longleftrightarrow> is_double x \<and> finite_double x \<and> \<bar>double_val x\<bar> \<le> b"

text \<open>A bound that is itself a value.\<close>

definition bound_ok :: "rat \<Rightarrow> bool" where
  "bound_ok b \<longleftrightarrow> 0 \<le> b \<and> round53 b = b \<and> b < 2 ^ 1024"

lemma within_abs_iff:
  "within_abs b x \<longleftrightarrow> (\<exists>s q. x = D_fin s q \<and> 0 \<le> q \<and> round53 q = q \<and> q < 2 ^ 1024 \<and> q \<le> b)"
  by (cases x) (auto simp: within_abs_def is_double_def finite_double_def double_val_def)

lemma within_abs_mono: "within_abs a x \<Longrightarrow> a \<le> b \<Longrightarrow> within_abs b x"
  by (auto simp: within_abs_def)

lemma bound_ok_pow2: "k < 1024 \<Longrightarrow> bound_ok (2 ^ k)"
  using round53_exact [of 1 "int k"] power_strict_increasing [of k 1024 "2 :: rat"]
  unfolding pow2_nat by (simp add: bound_ok_def)

lemma bound_ok_1 [simp]: "bound_ok 1"
  using bound_ok_pow2 [of 0] by simp

lemma double_of_within:
  assumes "0 \<le> q" "q \<le> b" "bound_ok b"
  shows "within_abs b (double_of s q)"
proof -
  have le: "round53 q \<le> b" using round53_le assms by (simp add: bound_ok_def)
  with assms(3) have "round53 q < 2 ^ 1024" by (simp add: bound_ok_def)
  then show ?thesis using le assms(1) by (simp add: double_of_def Let_def within_abs_iff round53_nonneg)
qed

lemma d_round_within: "\<bar>v\<bar> \<le> b \<Longrightarrow> bound_ok b \<Longrightarrow> within_abs b (d_round z v)"
  using double_of_within [of "\<bar>v\<bar>" b] by (auto simp: d_round_def within_abs_iff)

lemma dadd_within:
  assumes "within_abs a x" "within_abs b y" "a + b \<le> c" "bound_ok c"
  shows "within_abs c (dadd x y)"
proof -
  have "\<bar>double_val x + double_val y\<bar> \<le> c" using assms by (auto simp: within_abs_def)
  then show ?thesis using assms d_round_within by (auto simp: within_abs_iff dadd_def)
qed

lemma dneg_within [simp]: "within_abs b (dneg x) = within_abs b x"
  by (cases x) (auto simp: within_abs_iff dneg_def)

lemma dsub_within:
  "within_abs a x \<Longrightarrow> within_abs b y \<Longrightarrow> a + b \<le> c \<Longrightarrow> bound_ok c \<Longrightarrow> within_abs c (dsub x y)"
  using dadd_within [of a x b "dneg y" c] by (simp add: dsub_def)

lemma dmul_within:
  assumes "within_abs a x" "within_abs b y" "a * b \<le> c" "bound_ok c"
  shows "within_abs c (dmul x y)"
proof -
  obtain s p t q where x: "x = D_fin s p" "0 \<le> p" "p \<le> a" and y: "y = D_fin t q" "0 \<le> q" "q \<le> b"
    using assms(1,2) by (auto simp: within_abs_iff)
  have "p * q \<le> a * b" using x y by (simp add: mult_mono)
  then show ?thesis using double_of_within [of "p * q" c] assms x y by (simp add: dmul_def)
qed

lemma ddiv_within:
  assumes "within_abs a x" "y = D_fin t q" "l \<le> q" "0 < l" "a / l \<le> c" "bound_ok c"
  shows "within_abs c (ddiv x y)"
proof -
  obtain s p where x: "x = D_fin s p" "0 \<le> p" "p \<le> a" using assms(1) by (auto simp: within_abs_iff)
  have "p / q \<le> a / l" using x assms by (intro frac_le) auto
  then show ?thesis using double_of_within [of "p / q" c] assms x by (auto simp: ddiv_def)
qed

lemma d_of_int_within: "\<bar>n\<bar> \<le> 2 ^ k \<Longrightarrow> k < 1024 \<Longrightarrow> within_abs (2 ^ k) (d_of_int n)"
proof -
  assume "\<bar>n\<bar> \<le> 2 ^ k" "k < 1024"
  then have "\<bar>rat_of_int n\<bar> \<le> rat_of_int (2 ^ k)" unfolding of_int_abs [symmetric] of_int_le_iff by simp
  then show ?thesis using d_round_within [of "rat_of_int n" "2 ^ k"] bound_ok_pow2 [OF \<open>k < 1024\<close>]
    by (simp add: d_of_int_def)
qed

lemma dclamp_within:
  assumes "is_double v" "finite_double v"
  shows "within_abs 1 (dclamp v (d_of_int (- 1)) (d_of_int 1))"
proof -
  have r: "round53 1 = 1" using bound_ok_1 by (simp add: bound_ok_def)
  have d: "d_of_int 1 = D_fin False 1" "d_of_int (- 1) = D_fin True 1"
    by (simp_all add: d_of_int_def d_round_def double_of_def r)
  show ?thesis using assms r
    by (cases v) (auto simp: within_abs_iff dclamp_def d dlt_def double_val_def is_double_def finite_double_def)
qed

text \<open>Integers below \<open>2^53\<close> are exact.\<close>

lemma d_of_int_small: "\<bar>n\<bar> \<le> 2 ^ 53 \<Longrightarrow> d_of_int n = D_fin (n < 0) (rat_of_int \<bar>n\<bar>)"
proof -
  assume n: "\<bar>n\<bar> \<le> 2 ^ 53"
  have "round53 (rat_of_int \<bar>n\<bar>) = rat_of_int \<bar>n\<bar>"
    using round53_exact [of "\<bar>n\<bar>" "int 0"] n unfolding pow2_nat by simp
  moreover have "rat_of_int \<bar>n\<bar> < 2 ^ 1024"
  proof -
    have "rat_of_int \<bar>n\<bar> \<le> rat_of_int (2 ^ 53)" using n by (simp only: of_int_le_iff)
    also have "\<dots> < 2 ^ 1024" by simp
    finally show ?thesis .
  qed
  ultimately show ?thesis by (auto simp: d_of_int_def d_round_def double_of_def)
qed

section \<open>Interpolation\<close>

definition rnd :: "rat \<Rightarrow> rat" where
  "rnd v = (if v < 0 then - round53 (- v) else round53 v)"

lemma rnd_nonneg: "0 \<le> r \<Longrightarrow> rnd r = round53 r"
  by (simp add: rnd_def)

lemma rnd_minus: "0 \<le> r \<Longrightarrow> rnd (- r) = - round53 r"
  by (cases "r = 0") (simp_all add: rnd_def)

lemma double_val_d_round:
  assumes "\<bar>v\<bar> \<le> b" "bound_ok b"
  shows "double_val (d_round z v) = rnd v"
proof -
  have "round53 \<bar>v\<bar> \<le> b" using assms round53_le by (auto simp: bound_ok_def)
  then have "round53 \<bar>v\<bar> < 2 ^ 1024" using assms(2) by (simp add: bound_ok_def)
  then show ?thesis by (auto simp: d_round_def double_of_def rnd_def double_val_def Let_def)
qed

lemma double_val_dadd:
  assumes "within_abs a x" "within_abs b y" "a + b \<le> c" "bound_ok c"
  shows "double_val (dadd x y) = rnd (double_val x + double_val y)"
proof -
  have "\<bar>double_val x + double_val y\<bar> \<le> c" using assms by (auto simp: within_abs_def)
  then show ?thesis using assms double_val_d_round by (auto simp: within_abs_iff dadd_def)
qed

lemma double_val_dsub:
  assumes "within_abs a x" "within_abs b y" "a + b \<le> c" "bound_ok c"
  shows "double_val (dsub x y) = rnd (double_val x - double_val y)"
proof -
  have "double_val (dneg y) = - double_val y" using assms(2) by (auto simp: within_abs_iff dneg_def double_val_def)
  then show ?thesis using double_val_dadd [of a x b "dneg y" c] assms by (simp add: dsub_def)
qed

lemma double_val_dmul:
  assumes "within_abs a x" "within_abs b y" "a * b \<le> c" "bound_ok c"
  shows "double_val (dmul x y) = rnd (double_val x * double_val y)"
proof -
  obtain s p t q where x: "x = D_fin s p" "0 \<le> p" "p \<le> a" and y: "y = D_fin t q" "0 \<le> q" "q \<le> b"
    using assms(1,2) by (auto simp: within_abs_iff)
  have pq: "0 \<le> p * q" "p * q \<le> c" using x y mult_mono [of p a q b] assms(3) by auto
  then have "round53 (p * q) \<le> c" using assms(4) round53_le by (auto simp: bound_ok_def)
  then have "round53 (p * q) < 2 ^ 1024" using assms(4) by (simp add: bound_ok_def)
  then have "double_val (dmul x y) = (if s \<noteq> t then - round53 (p * q) else round53 (p * q))"
    by (simp add: x y dmul_def double_of_def Let_def double_val_def)
  moreover have "double_val x * double_val y = (if s \<noteq> t then - (p * q) else p * q)"
    by (simp add: x y double_val_def)
  ultimately show ?thesis using pq(1) by (simp add: rnd_nonneg rnd_minus)
qed

lemma rnd_near_2:
  assumes "\<bar>v\<bar> \<le> 2"
  shows "\<bar>rnd v - v\<bar> \<le> 1 / 2 ^ 53"
proof -
  have near: "\<bar>round53 q - q\<bar> \<le> 1 / 2 ^ 53" if "0 \<le> q" "q \<le> 2" for q
  proof (cases "q = 0 \<or> q = 2")
    case True
    then show ?thesis using round53_exact [of 2 "int 0"] unfolding pow2_nat by auto
  next
    case False
    then have q: "0 < q" "q < pow2 (int 1)" using that unfolding pow2_nat by auto
    have e: "ulp_exp q \<le> - int 52" using exp2_of_le [OF q] by (simp add: ulp_exp_def)
    define u where "u = pow2 (ulp_exp q)"
    have u: "0 < u" "u \<le> 1 / 2 ^ 52" using pow2_mono [OF e] unfolding u_def pow2_neg by auto
    have "\<bar>rat_of_int (round_half_even (q / u)) - q / u\<bar> * u \<le> 1 / 2 * u"
      by (rule mult_right_mono [OF round_half_even_near]) (use u in simp)
    moreover have "\<bar>rat_of_int (round_half_even (q / u)) - q / u\<bar> * u = \<bar>round53 q - q\<bar>"
    proof -
      have "\<bar>rat_of_int (round_half_even (q / u)) - q / u\<bar> * u
          = \<bar>(rat_of_int (round_half_even (q / u)) - q / u) * u\<bar>" using u by (simp add: abs_mult)
      also have "\<dots> = \<bar>round53 q - q\<bar>" using q u by (simp add: round53_ulp u_def left_diff_distrib)
      finally show ?thesis .
    qed
    ultimately show ?thesis using u(2) by simp
  qed
  show ?thesis
  proof (cases "v < 0")
    case True
    then have "\<bar>round53 (- v) - - v\<bar> \<le> 1 / 2 ^ 53" using near [of "- v"] assms by simp
    moreover have "rnd v - v = - (round53 (- v) - - v)" using True by (simp add: rnd_def)
    ultimately show ?thesis by (simp only: abs_minus)
  next
    case False
    then show ?thesis using near [of v] assms by (simp only: rnd_def if_False)
  qed
qed

lemma round53_above_1:
  assumes "0 \<le> s" "s \<le> 1 + 1 / 2 ^ 53"
  shows "round53 s \<le> 1"
proof (cases "s \<le> 1")
  case True
  then show ?thesis using round53_le [of s 1] assms(1) bound_ok_1 by (simp add: bound_ok_def)
next
  case False
  have "pow2 0 \<le> s" "s < pow2 (int 1)" using False assms unfolding pow2_nat by (simp_all add: pow2_def)
  then have "exp2_of s = 0"
    using exp2_of_le [of s 1] exp2_of_mono [of "pow2 0" s] exp2_of_bracket [of "pow2 0"] exp2_of_le [of "pow2 0"]
    by (smt (verit, best) exp2_of_bracket of_nat_1 order_less_le_trans order_le_less_trans pow2_less_iff pow2_pos)
  then have e: "ulp_exp s = - int 52" by (simp add: ulp_exp_def)
  define x where "x = s * 2 ^ 52"
  have x: "2 ^ 52 < x" "x \<le> 2 ^ 52 + 1 / 2" using False assms(2) by (auto simp: x_def field_simps)
  then have fl: "\<lfloor>x\<rfloor> = 2 ^ 52" by (simp add: floor_unique)
  have "round_half_even x = 2 ^ 52"
    using x by (auto simp: round_half_even_def Let_def fl)
  moreover have "s / pow2 (ulp_exp s) = x" unfolding e pow2_neg by (simp add: x_def)
  ultimately have "round53 s = 1" using False by (simp add: round53_ulp e pow2_def)
  then show ?thesis by simp
qed

text \<open>The interpolation \<open>c + (n - c) * f\<close> of two positions in range stays in range, in spite of the three
  roundings.\<close>

lemma interpolation_within:
  assumes c: "within_abs 1 c" and n: "within_abs 1 n" and f: "within_abs 1 f" "0 \<le> double_val f"
  shows "within_abs 1 (dadd c (dmul (dsub n c) f))"
proof -
  have b2: "bound_ok 2" using bound_ok_pow2 [of 1] by simp
  have b4: "bound_ok 4" using bound_ok_pow2 [of 2] by simp
  define v where "v = double_val n - double_val c"
  have v: "\<bar>v\<bar> \<le> 2" using c n by (auto simp: within_abs_def v_def)
  have d: "within_abs 2 (dsub n c)" "double_val (dsub n c) = rnd v"
    using dsub_within [OF n c _ b2] double_val_dsub [OF n c _ b2] by (simp_all add: v_def)
  have p: "within_abs 2 (dmul (dsub n c) f)" "double_val (dmul (dsub n c) f) = rnd (rnd v * double_val f)"
    using dmul_within [OF d(1) f(1) _ b2] double_val_dmul [OF d(1) f(1) _ b2] d(2) by simp_all
  define s where "s = double_val c + double_val (dmul (dsub n c) f)"
  have f1: "double_val f \<le> 1" using f by (simp add: within_abs_def)
  have near: "rnd v - v \<le> 1 / 2 ^ 53" "v - rnd v \<le> 1 / 2 ^ 53" using rnd_near_2 [OF v] by linarith+
  have bounds: "double_val c \<le> 1" "- 1 \<le> double_val c" "double_val n \<le> 1" "- 1 \<le> double_val n"
    using c n by (auto simp: within_abs_def)
  have s: "\<bar>s\<bar> \<le> 1 + 1 / 2 ^ 53"
  proof (cases "0 \<le> v")
    case True
    then have r: "0 \<le> rnd v" "round53 (rnd v) = rnd v" by (simp_all add: rnd_nonneg round53_nonneg)
    have m: "0 \<le> rnd v * double_val f" "rnd v * double_val f \<le> rnd v"
      using r(1) f(2) f1 by (simp_all add: mult_left_le)
    have "0 \<le> rnd (rnd v * double_val f)" "rnd (rnd v * double_val f) \<le> rnd v"
      using round53_nonneg [OF m(1)] round53_le [OF m r(2)] by (simp_all add: rnd_nonneg m(1))
    then show ?thesis using near bounds unfolding s_def p(2) abs_le_iff v_def by linarith
  next
    case False
    define w where "w = round53 (- v)"
    have w: "rnd v = - w" "0 \<le> w" "round53 w = w" using False by (simp_all add: rnd_def w_def round53_nonneg)
    have m: "0 \<le> w * double_val f" "w * double_val f \<le> w"
      using w(2) f(2) f1 by (simp_all add: mult_left_le)
    have "rnd (rnd v * double_val f) = - round53 (w * double_val f)"
      using rnd_minus [OF m(1)] by (simp add: w(1))
    moreover have "0 \<le> round53 (w * double_val f)" "round53 (w * double_val f) \<le> w"
      using round53_nonneg [OF m(1)] round53_le [OF m w(3)] by simp_all
    ultimately show ?thesis using near [unfolded w(1)] bounds w(1) unfolding s_def p(2) abs_le_iff v_def by linarith
  qed
  have "within_abs 4 (dadd c (dmul (dsub n c) f))" by (rule dadd_within [OF c p(1) _ b4]) simp
  moreover have "double_val (dadd c (dmul (dsub n c) f)) = rnd s"
    unfolding s_def by (rule double_val_dadd [OF c p(1) _ b4]) simp
  moreover have "\<bar>rnd s\<bar> \<le> 1"
    using round53_above_1 [of s] round53_above_1 [of "- s"] s round53_nonneg [of s] round53_nonneg [of "- s"]
    by (auto simp: rnd_def abs_le_iff)
  ultimately show ?thesis by (simp add: within_abs_def)
qed

end
