(* ===== verification/Sim_Sensor.thy ===== *)
theory Sim_Sensor
  imports Double_Ops Sensor_Facts
begin

text \<open>
  The field model of the simulator, \<open>SensorModel\<close> in \<open>sim/src/sensor.hpp\<close> and \<open>sim/src/sensor.cpp\<close>: drift,
  dither and noise in \<open>double\<close>, and the counts it hands the fake bus of theory Sensor_Facts. The
  functions of \<open><cmath>\<close> whose accuracy C++ leaves open are the fields of \<open>libm\<close>.
\<close>

record libm =
  lm_sin :: "double \<Rightarrow> double"
  lm_cos :: "double \<Rightarrow> double"
  lm_log :: "double \<Rightarrow> double"
  lm_sqrt :: "double \<Rightarrow> double"
  lm_hypot :: "double \<Rightarrow> double \<Rightarrow> double"

section \<open>State\<close>

record stick_pos =
  sx :: double
  sy :: double

definition d_0 :: double where "d_0 = D_fin False 0"
definition d_1 :: double where "d_1 = D_fin False 1"

definition rest_pos :: stick_pos where
  "rest_pos = \<lparr>sx = d_0, sy = d_0\<rparr>"

record field =
  fd_bx :: double
  fd_by :: double
  fd_bz :: double

record sensor_model =
  sm_fault :: sim_fault
  sm_drift_rate :: double
  sm_drift_base :: double
  sm_drift_t0 :: int
  sm_sigma :: double
  sm_rng :: "64 word"

definition init_sensor_model :: sensor_model where
  "init_sensor_model = \<lparr>sm_fault = Ok, sm_drift_rate = d_0, sm_drift_base = d_0, sm_drift_t0 = 0,
     sm_sigma = d_lit (2 / 1000), sm_rng = 0x9E3779B97F4A7C15\<rparr>"

definition kMagnetMT :: double where "kMagnetMT = d_lit 40"
definition kCenterXmT :: double where "kCenterXmT = d_lit (24 / 10)"
definition kCenterYmT :: double where "kCenterYmT = d_lit (- 19 / 10)"
definition kZmT :: double where "kZmT = d_lit 20"
definition kGainX :: double where "kGainX = d_1"
definition kGainY :: double where "kGainY = d_lit (92 / 100)"
definition kWeakFactor :: double where "kWeakFactor = d_lit (15 / 100)"
definition kDriftDirX :: double where "kDriftDirX = d_lit (8 / 10)"
definition kDriftDirY :: double where "kDriftDirY = d_lit (6 / 10)"
definition kLsbMT :: double where "kLsbMT = ddiv (d_lit 266) (d_lit 32768)"

definition mT_per_unit_x :: double where "mT_per_unit_x = dmul kMagnetMT kGainX"
definition mT_per_unit_y :: double where "mT_per_unit_y = dmul kMagnetMT kGainY"

section \<open>Operations\<close>

definition set_fault :: "sim_fault \<Rightarrow> sensor_model \<Rightarrow> sensor_model" where
  "set_fault f m = m\<lparr>sm_fault := f\<rparr>"

definition drift_units :: "sensor_model \<Rightarrow> int \<Rightarrow> double" where
  "drift_units m t =
     dadd (sm_drift_base m) (dmul (sm_drift_rate m) (ddiv (d_of_int (t - sm_drift_t0 m)) (d_lit 60000000000)))"

definition set_drift :: "double \<Rightarrow> int \<Rightarrow> sensor_model \<Rightarrow> sensor_model" where
  "set_drift rate t m = m\<lparr>sm_drift_base := drift_units m t, sm_drift_rate := rate, sm_drift_t0 := t\<rparr>"

definition set_noise :: "double \<Rightarrow> sensor_model \<Rightarrow> sensor_model" where
  "set_noise sigma m = m\<lparr>sm_sigma := sigma\<rparr>"

text \<open>xorshift64*, and the number in \<open>[0, 1)\<close> made of the top 53 bits of its output.\<close>

definition rng_next :: "64 word \<Rightarrow> 64 word" where
  "rng_next r =
     (let a = r XOR drop_bit 12 r; b = a XOR push_bit 25 a in b XOR drop_bit 27 b)"

definition uniform :: "sensor_model \<Rightarrow> double \<times> sensor_model" where
  "uniform m =
     (let r = rng_next (sm_rng m); v = r * 0x2545F4914F6CDD1D in
      (ddiv (d_of_int (uint (drop_bit 11 v))) (d_lit 9007199254740992), m\<lparr>sm_rng := r\<rparr>))"

definition gaussian :: "libm \<Rightarrow> sensor_model \<Rightarrow> double \<times> sensor_model" where
  "gaussian L m =
     (case uniform m of (v1, m1) \<Rightarrow>
        case uniform m1 of (u2, m2) \<Rightarrow>
          let u1 = dmax v1 (d_lit (1 / 1000000000000)) in
          (dmul (lm_sqrt L (dmul (d_lit (- 2)) (lm_log L u1)))
             (lm_cos L (dmul (d_lit (2 * 314159265358979323846 / 100000000000000000000)) u2)), m2))"

definition dither :: "sensor_model \<Rightarrow> double \<times> sensor_model" where
  "dither m =
     (case uniform m of (u, m1) \<Rightarrow> (dmul (dmul (dsub u (d_lit (1 / 2))) (d_lit 2)) kLsbMT, m1))"

definition noise_mT :: "libm \<Rightarrow> sensor_model \<Rightarrow> double \<times> sensor_model" where
  "noise_mT L m =
     (if dlt d_0 (sm_sigma m)
      then (case gaussian L m of (g, m1) \<Rightarrow> (dmul (dmul g (sm_sigma m)) kMagnetMT, m1))
      else (d_0, m))"

definition sense_field :: "libm \<Rightarrow> stick_pos \<Rightarrow> int \<Rightarrow> sensor_model \<Rightarrow> field \<times> sensor_model" where
  "sense_field L pos t m =
     (let strength = (if sm_fault m = WeakMagnet then kWeakFactor else d_1);
          drift = drift_units m t;
          (dither_x, m1) = dither m;
          (dither_y, m2) = dither m1;
          (nx, m3) = noise_mT L m2;
          (ny, m4) = noise_mT L m3 in
      (\<lparr>fd_bx = dadd (dadd (dadd (dadd kCenterXmT (dmul (dmul (dmul strength kGainX) kMagnetMT) (sx pos)))
                   (dmul (dmul drift kDriftDirX) kMagnetMT)) nx) dither_x,
        fd_by = dadd (dadd (dadd (dsub kCenterYmT (dmul (dmul (dmul strength kGainY) kMagnetMT) (sy pos)))
                   (dmul (dmul drift kDriftDirY) kMagnetMT)) ny) dither_y,
        fd_bz = kZmT\<rparr>, m4))"

definition true_center_mT :: "int \<Rightarrow> sensor_model \<Rightarrow> double \<times> double" where
  "true_center_mT t m =
     (let drift = drift_units m t in
      (dadd kCenterXmT (dmul (dmul drift kDriftDirX) kMagnetMT),
       dadd kCenterYmT (dmul (dmul drift kDriftDirY) kMagnetMT)))"

text \<open>\<open>std::round\<close> (halves away from zero) to counts, as \<open>fake_convert\<close> clamps them. A NaN would make
  the cast undefined and has the value 0 here.\<close>

definition round_away :: "rat \<Rightarrow> int" where
  "round_away q = (if q < 0 then - \<lfloor>- q + 1 / 2\<rfloor> else \<lfloor>q + 1 / 2\<rfloor>)"

definition raw_counts :: "double \<Rightarrow> int" where
  "raw_counts mT =
     (case dmul (ddiv mT (d_lit 266)) (d_lit 32768) of
        D_fin s q \<Rightarrow> round_away (if s then - q else q)
      | D_inf s \<Rightarrow> if s then - 32768 else 32767
      | D_nan \<Rightarrow> 0)"

text \<open>What the fake bus asks of the model: the counts of one conversion at the position and time the
  provider gives.\<close>

definition model_counts ::
  "libm \<Rightarrow> (stick_pos \<times> int) \<times> sensor_model \<Rightarrow> (int \<times> int \<times> int) \<times> (stick_pos \<times> int) \<times> sensor_model" where
  "model_counts L e =
     (case e of ((pos, t), m) \<Rightarrow>
        case sense_field L pos t m of (f, m1) \<Rightarrow>
          ((raw_counts (fd_bx f), raw_counts (fd_by f), raw_counts (fd_bz f)), (pos, t), m1))"

section \<open>The noise generator\<close>

lemma xor_drop_bit_zero:
  fixes r :: "64 word"
  assumes "r XOR drop_bit n r = 0" "0 < n"
  shows "r = 0"
proof -
  have e: "bit r (n + k) = bit r k" for k
    using arg_cong [OF assms(1), of "\<lambda>w. bit w k"] by (simp add: bit_simps)
  have far: "bit r (n * j + k) = bit r k" for j k
  proof (induction j)
    case (Suc j)
    have "n * Suc j + k = n + (n * j + k)" by simp
    then show ?case using e [of "n * j + k"] Suc by (simp only:)
  qed simp
  show ?thesis
  proof (rule bit_word_eqI)
    fix k
    have "64 \<le> n * 64 + k" using assms(2) by (cases n) auto
    then have "\<not> bit r (n * 64 + k)" by (auto dest: bit_imp_le_length)
    then show "bit r k = bit 0 k" using far [of 64 k] by simp
  qed
qed

lemma xor_push_bit_zero:
  fixes r :: "64 word"
  assumes "r XOR push_bit n r = 0" "0 < n"
  shows "r = 0"
proof -
  have e: "bit r k = (n \<le> k \<and> bit r (k - n))" if "k < 64" for k
    using arg_cong [OF assms(1), of "\<lambda>w. bit w k"] that by (auto simp: bit_simps)
  have "k < 64 \<Longrightarrow> \<not> bit r k" for k
  proof (induction k rule: less_induct)
    case (less k)
    then show ?case using e [of k] assms(2) by (cases "n \<le> k") auto
  qed
  then show ?thesis by (intro bit_word_eqI) auto
qed

lemma rng_next_nonzero: "r \<noteq> 0 \<Longrightarrow> rng_next r \<noteq> 0"
  using xor_drop_bit_zero [of r 12] xor_push_bit_zero [of "r XOR drop_bit 12 r" 25]
    xor_drop_bit_zero [of "(r XOR drop_bit 12 r) XOR push_bit 25 (r XOR drop_bit 12 r)" 27]
  by (auto simp: rng_next_def Let_def)

lemma uniform_range: "\<exists>q. fst (uniform m) = D_fin False q \<and> 0 \<le> q \<and> q < 1"
proof -
  define n where "n = uint (drop_bit 11 (rng_next (sm_rng m) * 0x2545F4914F6CDD1D))"
  have n: "0 \<le> n" "n < 2 ^ 53"
  proof -
    have "uint (drop_bit 11 (w :: 64 word)) < 2 ^ 53" for w
      using uint_lt2p [of w] by (simp add: drop_bit_eq_div uint_div zdiv_numeral_Bit0 div_less_iff_less_mult)
    then show "n < 2 ^ 53" by (simp add: n_def)
  qed (simp add: n_def)
  have den: "d_lit 9007199254740992 = D_fin False 9007199254740992"
    using d_of_int_small [of "2 ^ 53"] by (simp add: d_lit_def d_of_int_def)
  have num: "d_of_int n = D_fin False (rat_of_int n)" using d_of_int_small [of n] n by simp
  have q: "round53 (rat_of_int n / 9007199254740992) = rat_of_int n / 9007199254740992"
    using round53_exact [of n "- int 53"] n unfolding pow2_neg by simp
  have lt: "rat_of_int n < rat_of_int (2 ^ 53)" using n by (simp only: of_int_less_iff)
  then have l1: "rat_of_int n / 9007199254740992 < 1" by simp
  then have "rat_of_int n / 9007199254740992 < 2 ^ 1024" by (rule order_less_trans) simp
  then have "fst (uniform m) = D_fin False (rat_of_int n / 9007199254740992)"
    using n by (simp add: uniform_def Let_def n_def [symmetric] num den ddiv_def double_of_def q)
  moreover have "0 \<le> rat_of_int n / 9007199254740992" using n by simp
  ultimately show ?thesis using l1 by blast
qed

section \<open>A run of the model\<close>

datatype sensor_op =
    Fault_to sim_fault | Drift_to double int | Noise_to double | Convert_at stick_pos int

definition sensor_step :: "libm \<Rightarrow> sensor_op \<Rightarrow> sensor_model \<Rightarrow> sensor_model" where
  "sensor_step L p m =
     (case p of Fault_to f \<Rightarrow> set_fault f m | Drift_to r t \<Rightarrow> set_drift r t m | Noise_to v \<Rightarrow> set_noise v m
      | Convert_at pos t \<Rightarrow> snd (sense_field L pos t m))"

lemma uniform_rng: "sm_rng m \<noteq> 0 \<Longrightarrow> sm_rng (snd (uniform m)) \<noteq> 0"
  by (simp add: uniform_def Let_def rng_next_nonzero)

lemma sense_field_rng: "sm_rng m \<noteq> 0 \<Longrightarrow> sm_rng (snd (sense_field L pos t m)) \<noteq> 0"
  by (simp add: sense_field_def dither_def noise_mT_def gaussian_def Let_def case_prod_beta uniform_rng)

lemma sensor_run_rng:
  "sm_rng m \<noteq> 0 \<Longrightarrow> sm_rng (fold (sensor_step L) ops m) \<noteq> 0"
  by (induction ops arbitrary: m)
    (auto simp: sensor_step_def set_fault_def set_drift_def set_noise_def sense_field_rng split: sensor_op.splits)

text \<open>The dither never dries up: whatever is done to the simulated sensor, the state of its generator
  is never zero (where xorshift would stay), and a draw is a number in [0, 1).\<close>

theorem noise_generator_never_stalls:
  "sm_rng (fold (sensor_step L) ops init_sensor_model) \<noteq> 0 \<and>
   (\<exists>q. fst (uniform (fold (sensor_step L) ops init_sensor_model)) = D_fin False q \<and> 0 \<le> q \<and> q < 1)"
  using sensor_run_rng [of init_sensor_model L ops] uniform_range by (simp add: init_sensor_model_def)

text \<open>Changing the drift rate does not move the center at that instant.\<close>

lemma drift_rate_change_is_continuous:
  assumes "is_double (drift_units m t)" "finite_double (drift_units m t)" "finite_double rate"
  shows "double_val (drift_units (set_drift rate t m) t) = double_val (drift_units m t)"
proof -
  obtain s p where b: "drift_units m t = D_fin s p" "0 \<le> p" "round53 p = p" "p < 2 ^ 1024"
    using assms(1,2) by (cases "drift_units m t") (auto simp: is_double_def finite_double_def)
  obtain a q where r: "rate = D_fin a q" using assms(3) by (cases rate) (auto simp: finite_double_def)
  have z: "d_of_int 0 = D_fin False 0" by (simp add: d_of_int_def d_round_def)
  obtain d where d: "d_lit 60000000000 = D_fin False d" "d \<noteq> 0"
    using d_of_int_small [of 60000000000] by (simp add: d_lit_def d_of_int_def)
  have "ddiv (d_of_int 0) (d_lit 60000000000) = D_fin False 0" using d by (simp add: z ddiv_def double_of_def)
  then have "drift_units (set_drift rate t m) t = dadd (D_fin s p) (D_fin a 0)"
    unfolding drift_units_def [of "set_drift rate t m"] by (simp add: set_drift_def b(1) r dmul_def double_of_def)
  then show ?thesis using b by (auto simp: b(1) dadd_def d_round_def double_val_def double_of_def Let_def)
qed

end
