(* ===== verification/Json.thy ===== *)
theory Json
  imports Double "HOL-Library.AList"
begin

text \<open>
  The JSON values of the simulator's messages: \<open>sim/src/json.hpp\<close> and \<open>sim/src/json.cpp\<close>. The
  parser's position is the text that is left. A failed parse carries its message and the text left at
  the failure. The loops over array items and object members are option-valued partial functions, so
  that the parser's returning is a theorem.
\<close>

section \<open>Values\<close>

datatype json = Null | Bool bool | Num double | Str string | Arr "json list" | Obj "(string \<times> json) list"

definition as_bool :: "json \<Rightarrow> bool \<Rightarrow> bool" where
  "as_bool v d = (case v of Bool b \<Rightarrow> b | _ \<Rightarrow> d)"

definition as_number :: "json \<Rightarrow> double \<Rightarrow> double" where
  "as_number v d = (case v of Num n \<Rightarrow> n | _ \<Rightarrow> d)"

definition as_string :: "json \<Rightarrow> string" where
  "as_string v = (case v of Str s \<Rightarrow> s | _ \<Rightarrow> [])"

definition items :: "json \<Rightarrow> json list" where
  "items v = (case v of Arr vs \<Rightarrow> vs | _ \<Rightarrow> [])"

definition json_size :: "json \<Rightarrow> nat" where
  "json_size v = (case v of Arr vs \<Rightarrow> length vs | Obj ms \<Rightarrow> length ms | _ \<Rightarrow> 0)"

definition json_keys :: "json \<Rightarrow> string list" where
  "json_keys v = (case v of Obj ms \<Rightarrow> map fst ms | _ \<Rightarrow> [])"

definition json_find :: "string \<Rightarrow> json \<Rightarrow> json option" where
  "json_find k v = (case v of Obj ms \<Rightarrow> map_of ms k | _ \<Rightarrow> None)"

definition number_or :: "string \<Rightarrow> double \<Rightarrow> json \<Rightarrow> double" where
  "number_or k d v = (case json_find k v of Some (Num n) \<Rightarrow> n | _ \<Rightarrow> d)"

definition string_or :: "string \<Rightarrow> string \<Rightarrow> json \<Rightarrow> string" where
  "string_or k d v = (case json_find k v of Some (Str s) \<Rightarrow> s | _ \<Rightarrow> d)"

definition bool_or :: "string \<Rightarrow> bool \<Rightarrow> json \<Rightarrow> bool" where
  "bool_or k d v = (case json_find k v of Some (Bool b) \<Rightarrow> b | _ \<Rightarrow> d)"

text \<open>\<open>set\<close> and \<open>push\<close> turn a null value into an object or an array. \<open>None\<close>: the class would be left with
  members and a type that do not go together.\<close>

definition json_set :: "string \<Rightarrow> json \<Rightarrow> json \<Rightarrow> json option" where
  "json_set k x v = (case v of Null \<Rightarrow> Some (Obj [(k, x)]) | Obj ms \<Rightarrow> Some (Obj (AList.update k x ms)) | _ \<Rightarrow> None)"

definition json_push :: "json \<Rightarrow> json \<Rightarrow> json option" where
  "json_push x v = (case v of Null \<Rightarrow> Some (Arr [x]) | Arr vs \<Rightarrow> Some (Arr (vs @ [x])) | _ \<Rightarrow> None)"

section \<open>Printing\<close>

definition quote_char :: char where "quote_char = CHR 0x22"
definition backslash :: char where "backslash = CHR 0x5C"

definition escape_hex :: "nat \<Rightarrow> char" where
  "escape_hex n = (if n < 10 then digit_char n else char_of (87 + n))"

definition escaped_char :: "char \<Rightarrow> string" where
  "escaped_char c =
     (if c = quote_char then [backslash, quote_char]
      else if c = backslash then [backslash, backslash]
      else if c = CHR 0x0A then [backslash, CHR ''n'']
      else if c = CHR 0x0D then [backslash, CHR ''r'']
      else if c = CHR 0x09 then [backslash, CHR ''t'']
      else if of_char c < (0x20 :: nat)
      then backslash # ''u00'' @ [escape_hex (of_char c div 16), escape_hex (of_char c mod 16)]
      else [c])"

definition escaped :: "string \<Rightarrow> string" where
  "escaped s = quote_char # concat (map escaped_char s) @ [quote_char]"

definition number_text :: "double \<Rightarrow> string" where
  "number_text n =
     (case n of
        D_fin neg q \<Rightarrow> (if neg then ''-'' else []) @
          (if q = rat_of_int \<lfloor>q\<rfloor> \<and> q < 10 ^ 15 then nat_digits (nat \<lfloor>q\<rfloor>) else general_text q)
      | _ \<Rightarrow> ''null'')"

fun commas :: "string list \<Rightarrow> string" where
  "commas [] = []"
| "commas [t] = t"
| "commas (t # u # ts) = t @ CHR '','' # commas (u # ts)"

primrec dump :: "json \<Rightarrow> string" where
  "dump Null = ''null''"
| "dump (Bool b) = (if b then ''true'' else ''false'')"
| "dump (Num n) = number_text n"
| "dump (Str s) = escaped s"
| "dump (Arr vs) = CHR ''['' # commas (map dump vs) @ '']''"
| "dump (Obj ms) =
     CHR ''{'' # commas (map (\<lambda>(k, t). escaped k @ CHR '':'' # t) (map (map_prod id dump) ms)) @ ''}''"

section \<open>Parsing\<close>

type_synonym 'a parsed = "string \<times> string + 'a \<times> string"

definition kMaxDepth :: nat where "kMaxDepth = 32"

definition is_ws :: "char \<Rightarrow> bool" where
  "is_ws c \<longleftrightarrow> c \<in> {CHR '' '', CHR 0x09, CHR 0x0A, CHR 0x0D}"

definition skip_ws :: "string \<Rightarrow> string" where
  "skip_ws r = dropWhile is_ws r"

definition consume_word :: "string \<Rightarrow> string \<Rightarrow> string option" where
  "consume_word w r = (if take (length w) r = w then Some (drop (length w) r) else None)"

text \<open>The three parts of a number.\<close>

definition scan_int :: "string \<Rightarrow> string + string" where
  "scan_int r =
     (case r of [] \<Rightarrow> Inl r
      | c # t \<Rightarrow> if \<not> is_digit c then Inl r else if c = CHR ''0'' then Inr t else Inr (dropWhile is_digit r))"

definition scan_digits :: "string \<Rightarrow> string + string" where
  "scan_digits r = (case r of [] \<Rightarrow> Inl r | c # t \<Rightarrow> if \<not> is_digit c then Inl r else Inr (dropWhile is_digit r))"

definition scan_fraction :: "string \<Rightarrow> string + string" where
  "scan_fraction r =
     (case r of [] \<Rightarrow> Inr r | c # t \<Rightarrow> if c = CHR ''.'' then scan_digits t else Inr r)"

definition scan_exponent :: "string \<Rightarrow> string + string" where
  "scan_exponent r =
     (case r of [] \<Rightarrow> Inr r
      | c # t \<Rightarrow>
          if c = CHR ''e'' \<or> c = CHR ''E'' then
            scan_digits (if t \<noteq> [] \<and> (hd t = CHR ''+'' \<or> hd t = CHR ''-'') then tl t else t)
          else Inr r)"

definition parse_number :: "string \<Rightarrow> json parsed" where
  "parse_number start =
     (case scan_int (if start \<noteq> [] \<and> hd start = CHR ''-'' then tl start else start) of
        Inl r \<Rightarrow> Inl (''bad number'', r)
      | Inr r1 \<Rightarrow>
          (case scan_fraction r1 of
             Inl r \<Rightarrow> Inl (''bad number'', r)
           | Inr r2 \<Rightarrow>
               (case scan_exponent r2 of
                  Inl r \<Rightarrow> Inl (''bad number'', r)
                | Inr r3 \<Rightarrow> Inr (Num (strtod (take (length start - length r3) start)), r3))))"

definition BAD_ESCAPE :: string where "BAD_ESCAPE = backslash # ''u escape''"

fun hex_loop :: "nat \<Rightarrow> nat \<Rightarrow> string \<Rightarrow> nat parsed" where
  "hex_loop 0 v r = Inr (v, r)"
| "hex_loop (Suc n) v [] = Inl (''bad '' @ BAD_ESCAPE, [])"
| "hex_loop (Suc n) v (c # t) =
     (if is_hex c then hex_loop n (v * 16 + hex_val c) t else Inl (''bad '' @ BAD_ESCAPE, t))"

definition parse_hex4 :: "string \<Rightarrow> nat parsed" where
  "parse_hex4 r = (if length r < 4 then Inl (''bad '' @ BAD_ESCAPE, r) else hex_loop 4 0 r)"

definition utf8_of :: "nat \<Rightarrow> string" where
  "utf8_of cp =
     (if cp < 0x80 then [char_of cp]
      else if cp < 0x800 then [char_of (0xC0 + cp div 64), char_of (0x80 + cp mod 64)]
      else if cp < 0x10000 then
        [char_of (0xE0 + cp div 4096), char_of (0x80 + cp div 64 mod 64), char_of (0x80 + cp mod 64)]
      else
        [char_of (0xF0 + cp div 262144), char_of (0x80 + cp div 4096 mod 64),
         char_of (0x80 + cp div 64 mod 64), char_of (0x80 + cp mod 64)])"

text \<open>What follows a high surrogate.\<close>

definition parse_low :: "nat \<Rightarrow> string \<Rightarrow> string parsed" where
  "parse_low cp r =
     (case consume_word [backslash] r of
        None \<Rightarrow> Inl (''bad surrogate pair'', r)
      | Some r1 \<Rightarrow>
          (case consume_word ''u'' r1 of
             None \<Rightarrow> Inl (''bad surrogate pair'', r1)
           | Some r2 \<Rightarrow>
               (case parse_hex4 r2 of
                  Inl e \<Rightarrow> Inl e
                | Inr (low, r3) \<Rightarrow>
                    if low < 0xDC00 \<or> 0xDFFF < low then Inl (''bad surrogate pair'', r3)
                    else Inr (utf8_of (0x10000 + (cp - 0xD800) * 1024 + (low - 0xDC00)), r3))))"

definition parse_unicode :: "string \<Rightarrow> string parsed" where
  "parse_unicode r =
     (case parse_hex4 r of
        Inl e \<Rightarrow> Inl e
      | Inr (cp, r1) \<Rightarrow>
          if 0xD800 \<le> cp \<and> cp \<le> 0xDBFF then parse_low cp r1
          else if 0xDC00 \<le> cp \<and> cp \<le> 0xDFFF then Inl (''lone surrogate'', r1)
          else Inr (utf8_of cp, r1))"

definition parse_escape :: "string \<Rightarrow> string parsed" where
  "parse_escape r =
     (case r of [] \<Rightarrow> Inl (''unterminated string'', [])
      | e # t \<Rightarrow>
          if e = quote_char \<or> e = backslash \<or> e = CHR ''/'' then Inr ([e], t)
          else if e = CHR ''b'' then Inr ([CHR 0x08], t)
          else if e = CHR ''f'' then Inr ([CHR 0x0C], t)
          else if e = CHR ''n'' then Inr ([CHR 0x0A], t)
          else if e = CHR ''r'' then Inr ([CHR 0x0D], t)
          else if e = CHR ''t'' then Inr ([CHR 0x09], t)
          else if e = CHR ''u'' then parse_unicode t
          else Inl (''bad escape'', t))"

lemma hex_loop_length: "hex_loop n v r = Inr (w, r') \<Longrightarrow> length r' + n = length r"
  by (induction n v r rule: hex_loop.induct) (auto split: if_splits)

lemma parse_hex4_length: "parse_hex4 r = Inr (w, r') \<Longrightarrow> length r' < length r"
  by (auto simp: parse_hex4_def dest!: hex_loop_length split: if_splits)

lemma consume_word_length: "consume_word w r = Some r' \<Longrightarrow> length r' \<le> length r"
  by (auto simp: consume_word_def split: if_splits)

lemma parse_escape_length: "parse_escape r = Inr (bs, r') \<Longrightarrow> length r' < length r"
  by (auto simp: parse_escape_def parse_unicode_def parse_low_def
      dest!: parse_hex4_length consume_word_length split: list.splits if_splits sum.splits prod.splits option.splits)

function parse_chars :: "string \<Rightarrow> string \<Rightarrow> string parsed" where
  "parse_chars out [] = Inl (''unterminated string'', [])"
| "parse_chars out (c # r) =
     (if c = quote_char then Inr (out, r)
      else if of_char c < (0x20 :: nat) then Inl (''control character in string'', r)
      else if c \<noteq> backslash then parse_chars (out @ [c]) r
      else case parse_escape r of Inl e \<Rightarrow> Inl e | Inr (bs, r') \<Rightarrow> parse_chars (out @ bs) r')"
  by pat_completeness auto
termination
  by (relation "measure (\<lambda>(out, r). length r)") (auto dest: parse_escape_length)

definition parse_string :: "string \<Rightarrow> string parsed" where
  "parse_string r =
     (case consume_word [quote_char] r of None \<Rightarrow> Inl (''expected string'', r) | Some t \<Rightarrow> parse_chars [] t)"

text \<open>After an item: a comma, the closing bracket, or an error.\<close>

partial_function (option) array_loop ::
  "(string \<Rightarrow> json parsed option) \<Rightarrow> json list \<Rightarrow> string \<Rightarrow> json parsed option" where
  "array_loop pv acc r =
     (case pv (skip_ws r) of
        None \<Rightarrow> None
      | Some (Inl e) \<Rightarrow> Some (Inl e)
      | Some (Inr (v, r1)) \<Rightarrow>
          (case consume_word '','' (skip_ws r1) of
             Some r2 \<Rightarrow> array_loop pv (acc @ [v]) r2
           | None \<Rightarrow>
               (case consume_word '']'' (skip_ws r1) of
                  Some r2 \<Rightarrow> Some (Inr (Arr (acc @ [v]), r2))
                | None \<Rightarrow> Some (Inl (''expected , or ]'', skip_ws r1)))))"

definition parse_array :: "(string \<Rightarrow> json parsed option) \<Rightarrow> string \<Rightarrow> json parsed option" where
  "parse_array pv r =
     (case consume_word '']'' (skip_ws r) of
        Some r1 \<Rightarrow> Some (Inr (Arr [], r1))
      | None \<Rightarrow> array_loop pv [] (skip_ws r))"

text \<open>A key, the colon, and where the value starts.\<close>

definition parse_key :: "string \<Rightarrow> string parsed" where
  "parse_key r =
     (case parse_string (skip_ws r) of
        Inl e \<Rightarrow> Inl e
      | Inr (k, r1) \<Rightarrow>
          (case consume_word '':'' (skip_ws r1) of
             None \<Rightarrow> Inl (''expected :'', skip_ws r1)
           | Some r2 \<Rightarrow> Inr (k, skip_ws r2)))"

partial_function (option) object_loop ::
  "(string \<Rightarrow> json parsed option) \<Rightarrow> (string \<times> json) list \<Rightarrow> string \<Rightarrow> json parsed option" where
  "object_loop pv acc r =
     (case parse_key r of
        Inl e \<Rightarrow> Some (Inl e)
      | Inr (k, r1) \<Rightarrow>
          (case pv r1 of
             None \<Rightarrow> None
           | Some (Inl e) \<Rightarrow> Some (Inl e)
           | Some (Inr (v, r2)) \<Rightarrow>
               (case consume_word '','' (skip_ws r2) of
                  Some r3 \<Rightarrow> object_loop pv (AList.update k v acc) r3
                | None \<Rightarrow>
                    (case consume_word ''}'' (skip_ws r2) of
                       Some r3 \<Rightarrow> Some (Inr (Obj (AList.update k v acc), r3))
                     | None \<Rightarrow> Some (Inl (''expected , or }'', skip_ws r2))))))"

definition parse_object :: "(string \<Rightarrow> json parsed option) \<Rightarrow> string \<Rightarrow> json parsed option" where
  "parse_object pv r =
     (case consume_word ''}'' (skip_ws r) of
        Some r1 \<Rightarrow> Some (Inr (Obj [], r1))
      | None \<Rightarrow> object_loop pv [] (skip_ws r))"

text \<open>A value that starts with none of the brackets nor a quote.\<close>

definition parse_scalar :: "string \<Rightarrow> json parsed" where
  "parse_scalar r =
     (case consume_word ''true'' r of Some t \<Rightarrow> Inr (Bool True, t)
      | None \<Rightarrow>
          (case consume_word ''false'' r of Some t \<Rightarrow> Inr (Bool False, t)
           | None \<Rightarrow>
               (case consume_word ''null'' r of Some t \<Rightarrow> Inr (Null, t)
                | None \<Rightarrow>
                    if hd r = CHR ''-'' \<or> is_digit (hd r) then parse_number r
                    else Inl (''unexpected character'', r))))"

text \<open>\<open>parse_value k\<close> is \<open>parse_value(depth)\<close> with \<open>k + depth = kMaxDepth + 1\<close>.\<close>

primrec parse_value :: "nat \<Rightarrow> string \<Rightarrow> json parsed option" where
  "parse_value 0 r = Some (Inl (''nested too deeply'', r))"
| "parse_value (Suc k) r =
     (case r of [] \<Rightarrow> Some (Inl (''unexpected end of input'', r))
      | c # t \<Rightarrow>
          if c = CHR ''{'' then parse_object (parse_value k) t
          else if c = CHR ''['' then parse_array (parse_value k) t
          else if c = quote_char then
            Some (case parse_string r of Inl e \<Rightarrow> Inl e | Inr (s, r1) \<Rightarrow> Inr (Str s, r1))
          else Some (parse_scalar r))"

text \<open>\<open>parse\<close>: the value, or the message and the byte where parsing stopped.\<close>

definition error_at :: "string \<Rightarrow> string \<times> string \<Rightarrow> string" where
  "error_at whole e = fst e @ '' at byte '' @ nat_digits (length whole - length (snd e))"

definition parse :: "string \<Rightarrow> (string + json) option" where
  "parse s =
     (case parse_value (Suc kMaxDepth) (skip_ws s) of
        None \<Rightarrow> None
      | Some (Inl e) \<Rightarrow> Some (Inl (error_at s e))
      | Some (Inr (v, r)) \<Rightarrow>
          if skip_ws r \<noteq> [] then Some (Inl (error_at s (''unexpected trailing characters'', skip_ws r)))
          else Some (Inr v))"

end
