(* ===== verification/Json_Facts.thy ===== *)
theory Json_Facts
  imports Json
begin

text \<open>
  The JSON parser returns on every input, and it reads back what \<open>dump\<close> prints.
\<close>

section \<open>The parser returns\<close>

definition advances :: "(string \<Rightarrow> 'a parsed option) \<Rightarrow> bool" where
  "advances p \<longleftrightarrow> (\<forall>r. \<exists>x. p r = Some x \<and> (\<forall>v r'. x = Inr (v, r') \<longrightarrow> length r' < length r))"

lemma advancesE:
  assumes "advances p"
  obtains e where "p r = Some (Inl e)" | v r' where "p r = Some (Inr (v, r'))" "length r' < length r"
proof -
  obtain x where x: "p r = Some x" "\<forall>v r'. x = Inr (v, r') \<longrightarrow> length r' < length r"
    using assms unfolding advances_def by blast
  show ?thesis
  proof (cases x)
    case (Inl e)
    then show ?thesis using x(1) that(1) by blast
  next
    case (Inr y)
    then show ?thesis using x that(2) by (cases y) blast
  qed
qed

lemma advancesI:
  assumes "\<And>r. (\<exists>e. p r = Some (Inl e)) \<or> (\<exists>v r'. p r = Some (Inr (v, r')) \<and> length r' < length r)"
  shows "advances p"
  unfolding advances_def
proof
  fix r
  show "\<exists>x. p r = Some x \<and> (\<forall>v r'. x = Inr (v, r') \<longrightarrow> length r' < length r)"
    using assms [of r] by auto
qed

lemma skip_ws_length [simp]: "length (skip_ws r) \<le> length r"
  by (simp add: skip_ws_def length_dropWhile_le)

lemma consume_char_length: "consume_word [c] r = Some r' \<Longrightarrow> length r' < length r"
  by (cases r) (auto simp: consume_word_def split: if_splits)

lemma parse_chars_length: "parse_chars out r = Inr (s, r') \<Longrightarrow> length r' < length r"
proof (induction out r rule: parse_chars.induct)
  case (2 out c r)
  show ?case
  proof (cases "c \<noteq> quote_char \<and> \<not> of_char c < (32 :: nat) \<and> c = backslash")
    case True
    then obtain bs t where e: "parse_escape r = Inr (bs, t)" "parse_chars (out @ bs) t = Inr (s, r')"
      using 2(3) by (cases "parse_escape r") auto
    then have "length r' < length t" using 2(2) True by blast
    with parse_escape_length [OF e(1)] show ?thesis by simp
  next
    case False
    then show ?thesis using 2(1,3) by (auto split: if_splits)
  qed
qed simp

lemma parse_string_length: "parse_string r = Inr (s, r') \<Longrightarrow> length r' < length r"
  by (auto simp: parse_string_def dest!: parse_chars_length consume_char_length split: option.splits)

lemma parse_key_length: "parse_key r = Inr (k, r') \<Longrightarrow> length r' < length r"
  by (auto simp: parse_key_def dest!: parse_string_length consume_char_length split: sum.splits option.splits)
    (meson le_less_trans less_le_trans less_imp_le skip_ws_length)+

lemma array_loop_advances:
  assumes "advances pv"
  shows "(\<exists>e. array_loop pv acc r = Some (Inl e)) \<or>
    (\<exists>v r'. array_loop pv acc r = Some (Inr (v, r')) \<and> length r' < length r)"
proof (induction "length r" arbitrary: acc r rule: less_induct)
  case less
  from assms show ?case
  proof (cases rule: advancesE [where r = "skip_ws r"])
    case 1
    then show ?thesis by (subst (1 2) array_loop.simps) simp
  next
    case (2 v r1)
    have l: "length (skip_ws r1) < length r"
      using 2(2) skip_ws_length [of r] skip_ws_length [of r1] by linarith
    show ?thesis
    proof (cases "consume_word '','' (skip_ws r1)")
      case None
      then show ?thesis using 2(1) l consume_char_length [of "CHR '']''" "skip_ws r1"]
        by (subst (1 2) array_loop.simps) (auto split: option.splits)
    next
      case (Some r2)
      then have s: "length r2 < length r" using l consume_char_length by fastforce
      from less [OF this, of "acc @ [v]"] have
        "(\<exists>e. array_loop pv acc r = Some (Inl e)) \<or>
         (\<exists>v r'. array_loop pv acc r = Some (Inr (v, r')) \<and> length r' < length r2)"
        using 2(1) Some by (subst (1 2) array_loop.simps) simp
      with s show ?thesis using less_trans by blast
    qed
  qed
qed

lemma object_loop_advances:
  assumes "advances pv"
  shows "(\<exists>e. object_loop pv acc r = Some (Inl e)) \<or>
    (\<exists>v r'. object_loop pv acc r = Some (Inr (v, r')) \<and> length r' < length r)"
proof (induction "length r" arbitrary: acc r rule: less_induct)
  case less
  show ?case
  proof (cases "parse_key r")
    case (Inl e)
    then show ?thesis by (subst (1 2) object_loop.simps) simp
  next
    case (Inr kr)
    obtain k r1 where kr: "kr = (k, r1)" by fastforce
    have k: "length r1 < length r" using parse_key_length Inr kr by blast
    from assms show ?thesis
    proof (cases rule: advancesE [where r = r1])
      case 1
      then show ?thesis using Inr kr by (subst (1 2) object_loop.simps) simp
    next
      case (2 v r2)
      have l: "length (skip_ws r2) < length r" using 2(2) k skip_ws_length [of r2] by linarith
      show ?thesis
      proof (cases "consume_word '','' (skip_ws r2)")
        case None
        then show ?thesis using 2(1) l Inr kr consume_char_length [of "CHR ''}''" "skip_ws r2"]
          by (subst (1 2) object_loop.simps) (auto split: option.splits)
      next
        case (Some r3)
        then have s: "length r3 < length r" using l consume_char_length by fastforce
        from less [OF this, of "AList.update k v acc"] have
          "(\<exists>e. object_loop pv acc r = Some (Inl e)) \<or>
           (\<exists>v r'. object_loop pv acc r = Some (Inr (v, r')) \<and> length r' < length r3)"
          using 2(1) Some Inr kr by (subst (1 2) object_loop.simps) simp
        with s show ?thesis using less_trans by blast
      qed
    qed
  qed
qed

lemma scan_int_length: "scan_int r = Inr r' \<Longrightarrow> length r' < length r"
  using length_dropWhile_le [of is_digit]
  by (auto simp: scan_int_def le_imp_less_Suc split: list.splits if_splits)

lemma scan_digits_length: "scan_digits r = Inr r' \<Longrightarrow> length r' \<le> length r"
  using length_dropWhile_le [of is_digit]
  by (auto simp: scan_digits_def le_SucI split: list.splits if_splits)

lemma scan_fraction_length: "scan_fraction r = Inr r' \<Longrightarrow> length r' \<le> length r"
  by (auto simp: scan_fraction_def dest!: scan_digits_length split: list.splits if_splits)

lemma scan_exponent_length: "scan_exponent r = Inr r' \<Longrightarrow> length r' \<le> length r"
  by (auto simp: scan_exponent_def dest!: scan_digits_length split: list.splits if_splits)

lemma parse_number_length: "parse_number r = Inr (v, r') \<Longrightarrow> length r' < length r"
proof -
  assume p: "parse_number r = Inr (v, r')"
  define s where "s = (if r \<noteq> [] \<and> hd r = CHR ''-'' then tl r else r)"
  have "length s \<le> length r" by (simp add: s_def)
  moreover obtain r1 r2 where "scan_int s = Inr r1" "scan_fraction r1 = Inr r2" "scan_exponent r2 = Inr r'"
    using p by (auto simp: parse_number_def s_def [symmetric] split: sum.splits)
  ultimately show ?thesis
    using scan_int_length [of s r1] scan_fraction_length [of r1 r2] scan_exponent_length [of r2 r'] by linarith
qed

lemma parse_scalar_length:
  assumes "parse_scalar r = Inr (v, r')" "r \<noteq> []"
  shows "length r' < length r"
proof -
  have w: "length t < length r" if "consume_word w r = Some t" "w \<noteq> []" for w t
    using that assms(2) by (auto simp: consume_word_def split: if_splits)
  show ?thesis using assms(1) parse_number_length w
    by (auto simp: parse_scalar_def split: option.splits if_splits)
qed

lemma parse_value_advances: "advances (parse_value k)"
proof (induction k)
  case (Suc k)
  show ?case
  proof (rule advancesI)
    fix r
    show "(\<exists>e. parse_value (Suc k) r = Some (Inl e)) \<or>
      (\<exists>v r'. parse_value (Suc k) r = Some (Inr (v, r')) \<and> length r' < length r)"
    proof (cases r)
      case (Cons c t)
      have shorter: "length r' < Suc (length t)" if "length r' < length (skip_ws t)" for r' :: string
        using that skip_ws_length [of t] by linarith
      have arr: "(\<exists>e. parse_array (parse_value k) t = Some (Inl e)) \<or>
          (\<exists>v r'. parse_array (parse_value k) t = Some (Inr (v, r')) \<and> length r' < Suc (length t))"
        using array_loop_advances [OF Suc, of "[]" "skip_ws t"] shorter
          consume_char_length [of "CHR '']''" "skip_ws t"]
        by (cases "consume_word '']'' (skip_ws t)") (auto simp: parse_array_def)
      have obj: "(\<exists>e. parse_object (parse_value k) t = Some (Inl e)) \<or>
          (\<exists>v r'. parse_object (parse_value k) t = Some (Inr (v, r')) \<and> length r' < Suc (length t))"
        using object_loop_advances [OF Suc, of "[]" "skip_ws t"] shorter
          consume_char_length [of "CHR ''}''" "skip_ws t"]
        by (cases "consume_word ''}'' (skip_ws t)") (auto simp: parse_object_def)
      have str: "parse_string r = Inr (s, r') \<Longrightarrow> length r' < Suc (length t)" for s r'
        using parse_string_length [of r s r'] Cons by simp
      have sc: "parse_scalar r = Inr (v, r') \<Longrightarrow> length r' < Suc (length t)" for v r'
        using parse_scalar_length [of r v r'] Cons by simp
      show ?thesis
      proof (cases "c = CHR ''{'' \<or> c = CHR ''[''")
        case True
        then show ?thesis using arr obj Cons by auto
      next
        case False
        then show ?thesis using str sc
          by (cases "c = quote_char"; cases "parse_string r"; cases "parse_scalar r") (auto simp: Cons)
      qed
    qed simp
  qed
qed (simp add: advances_def)

section \<open>Strings are read back\<close>

lemma digit_zero: "digit_char 0 = CHR ''0''"
  by code_simp

lemma escape_hex_val:
  assumes "n < 16"
  shows "is_hex (escape_hex n)" "hex_val (escape_hex n) = n"
proof -
  have d: "n < 10 \<Longrightarrow> (of_char (digit_char n) :: nat) = 48 + n" by (rule of_char_digit)
  show "is_hex (escape_hex n)" using assms d
    by (cases "n < 10") (simp_all add: escape_hex_def is_hex_def is_digit_def)
  show "hex_val (escape_hex n) = n" using assms d
    by (cases "n < 10") (simp_all add: escape_hex_def hex_val_def is_digit_def digit_val_def)
qed

lemma parse_chars_escaped:
  "parse_chars out (escaped_char c @ r) = parse_chars (out @ [c]) r"
proof -
  have plain: "\<not> of_char quote_char < (32 :: nat)" "\<not> of_char backslash < (32 :: nat)" "backslash \<noteq> quote_char"
    by (simp_all add: quote_char_def backslash_def)
  show ?thesis
  proof (cases "of_char c < (32 :: nat) \<and> c \<noteq> CHR 0x0A \<and> c \<noteq> CHR 0x0D \<and> c \<noteq> CHR 0x09")
    case True
    define n where "n = (of_char c :: nat)"
    have "n < 32" "char_of n = c" using True by (simp_all add: n_def)
    then have n: "n div 16 < 16" "n mod 16 < 16" "n < 32" "char_of n = c" by linarith+
    have z: "is_hex (CHR ''0'')" "hex_val (CHR ''0'') = 0" using escape_hex_val [of 0] by (simp_all add: escape_hex_def digit_zero)
    have four: "(4 :: nat) = Suc (Suc (Suc (Suc 0)))" by simp
    define h where "h = ''00'' @ [escape_hex (n div 16), escape_hex (n mod 16)]"
    have "n div 16 * 16 + n mod 16 = n" by simp
    then have "hex_loop 4 0 (h @ r) = Inr (n, r)"
      unfolding four h_def using z escape_hex_val [OF n(1)] escape_hex_val [OF n(2)] by simp
    then have "parse_hex4 (h @ r) = Inr (n, r)"
      by (simp add: parse_hex4_def) (simp add: h_def)
    then have u: "parse_unicode (h @ r) = Inr ([c], r)"
      using n(3,4) by (simp add: parse_unicode_def utf8_of_def)
    have "parse_escape (CHR ''u'' # h @ r) = Inr ([c], r)"
      unfolding parse_escape_def list.case u by (simp add: quote_char_def backslash_def)
    moreover have "escaped_char c = backslash # CHR ''u'' # h"
    proof -
      have "c \<noteq> quote_char" "c \<noteq> backslash" using True plain by metis+
      then show ?thesis using True unfolding escaped_char_def h_def n_def by (simp only: if_False if_True append.simps)
    qed
    ultimately show ?thesis using plain by simp
  next
    case False
    then consider "c = quote_char" | "c = backslash" | "c = CHR 0x0A" | "c = CHR 0x0D" | "c = CHR 0x09"
      | "c \<noteq> quote_char" "c \<noteq> backslash" "c \<noteq> CHR 0x0A" "c \<noteq> CHR 0x0D" "c \<noteq> CHR 0x09"
        "\<not> of_char c < (32 :: nat)" by blast
    then show ?thesis
    proof cases
      case 6
      then have "escaped_char c = [c]" unfolding escaped_char_def by (simp only: if_False)
      with 6 show ?thesis by simp
    qed ((use plain in \<open>simp add: escaped_char_def parse_escape_def\<close>;
      simp add: quote_char_def backslash_def)+)
  qed
qed

lemma parse_chars_all:
  "parse_chars out (concat (map escaped_char s) @ quote_char # r) = Inr (out @ s, r)"
  by (induction s arbitrary: out) (simp_all add: parse_chars_escaped)

lemma parse_string_escaped: "parse_string (escaped s @ r) = Inr (s, r)"
  using parse_chars_all [of "[]" s r] by (simp add: parse_string_def escaped_def consume_word_def)

section \<open>Numbers are read back\<close>

text \<open>What may follow a value in a printed document.\<close>

definition ends :: "string \<Rightarrow> bool" where
  "ends r \<longleftrightarrow> r = [] \<or> hd r \<in> {CHR '','', CHR '']'', CHR ''}''}"

lemma scan_digits_all:
  assumes "ds \<noteq> []" "\<forall>c \<in> set ds. is_digit c" "r = [] \<or> \<not> is_digit (hd r)"
  shows "scan_digits (ds @ r) = Inr r"
  using assms takeWhile_digits(2) [OF assms(2,3)] by (cases ds) (simp_all add: scan_digits_def)

lemma nat_digits_zero: "nat_digits n = CHR ''0'' # t \<Longrightarrow> n = 0 \<and> t = []"
proof (induction n arbitrary: t rule: nat_digits.induct)
  case (1 n)
  have z: "digit_char d = CHR ''0'' \<longleftrightarrow> d = 0" if "d < 10" for d
    using that of_char_digit [of d] digit_zero by auto
  show ?case
  proof (cases "n < 10")
    case True
    then show ?thesis using 1(2) z by (subst (asm) nat_digits.simps) auto
  next
    case False
    obtain c u where u: "nat_digits (n div 10) = c # u" using hd_nat_digits by blast
    then have "c = CHR ''0''" using 1(2) False by (subst (asm) (2) nat_digits.simps) simp
    then have "n div 10 = 0" using 1(1) [OF False] u by blast
    with False show ?thesis by simp
  qed
qed

lemma scan_int_digits:
  assumes "r = [] \<or> \<not> is_digit (hd r)"
  shows "scan_int (nat_digits n @ r) = Inr r"
proof -
  obtain c t where c: "nat_digits n = c # t" "is_digit c" using hd_nat_digits by blast
  show ?thesis
  proof (cases "c = CHR ''0''")
    case True
    then show ?thesis using c nat_digits_zero [of n t] by (simp add: scan_int_def)
  next
    case False
    have "dropWhile is_digit (nat_digits n @ r) = r"
      using takeWhile_digits(2) [OF _ assms] nat_digits_digits by blast
    with False c show ?thesis by (simp add: scan_int_def)
  qed
qed

text \<open>The shape of every printed number.\<close>

definition fraction_part :: "string \<Rightarrow> bool" where
  "fraction_part f \<longleftrightarrow> f = [] \<or> (\<exists>ds. f = CHR ''.'' # ds \<and> ds \<noteq> [] \<and> (\<forall>c \<in> set ds. is_digit c))"

definition exponent_part :: "string \<Rightarrow> bool" where
  "exponent_part x \<longleftrightarrow> x = [] \<or> (\<exists>sg ds. x = CHR ''e'' # sg # ds \<and> (sg = CHR ''+'' \<or> sg = CHR ''-'') \<and>
     ds \<noteq> [] \<and> (\<forall>c \<in> set ds. is_digit c))"

lemma parse_number_parts:
  assumes "fraction_part f" "exponent_part x" "ends r"
  shows "parse_number (((if neg then ''-'' else []) @ nat_digits n @ f @ x) @ r) =
    Inr (Num (strtod ((if neg then ''-'' else []) @ nat_digits n @ f @ x)), r)"
proof -
  let ?t = "(if neg then ''-'' else []) @ nat_digits n @ f @ x"
  have nd: "\<not> is_digit (CHR '','')" "\<not> is_digit (CHR '']'')" "\<not> is_digit (CHR ''}'')" "\<not> is_digit (CHR ''.'')"
    "\<not> is_digit (CHR ''e'')" "\<not> is_digit (CHR ''-'')"
    by (simp_all add: is_digit_def)
  have r: "r = [] \<or> \<not> is_digit (hd r) \<and> hd r \<noteq> CHR ''.'' \<and> hd r \<noteq> CHR ''e'' \<and> hd r \<noteq> CHR ''E''"
    using assms(3) nd by (auto simp: ends_def)
  obtain c cs where d: "nat_digits n = c # cs" "c \<noteq> CHR ''-''" using hd_nat_digits nd(6) by metis
  have x: "scan_exponent (x @ r) = Inr r"
  proof (cases "x = []")
    case True
    then show ?thesis using r by (cases r) (auto simp: scan_exponent_def)
  next
    case False
    then obtain sg ds where "x = CHR ''e'' # sg # ds" "sg = CHR ''+'' \<or> sg = CHR ''-''" "ds \<noteq> []" "\<forall>c \<in> set ds. is_digit c"
      using assms(2) by (auto simp: exponent_part_def)
    then show ?thesis using scan_digits_all [of ds r] r by (auto simp: scan_exponent_def)
  qed
  have xr: "x @ r = [] \<or> \<not> is_digit (hd (x @ r)) \<and> hd (x @ r) \<noteq> CHR ''.''"
    using assms(2) r nd by (auto simp: exponent_part_def)
  have f: "scan_fraction (f @ x @ r) = Inr (x @ r)"
  proof (cases "f = []")
    case True
    then show ?thesis using xr by (cases "x @ r") (auto simp: scan_fraction_def)
  next
    case False
    then obtain ds where "f = CHR ''.'' # ds" "ds \<noteq> []" "\<forall>c \<in> set ds. is_digit c"
      using assms(1) by (auto simp: fraction_part_def)
    then show ?thesis using scan_digits_all [of ds "x @ r"] xr by (auto simp: scan_fraction_def)
  qed
  have "f @ x @ r = [] \<or> \<not> is_digit (hd (f @ x @ r))"
    using assms(1) xr nd by (auto simp: fraction_part_def)
  then have i: "scan_int (nat_digits n @ f @ x @ r) = Inr (f @ x @ r)" by (rule scan_int_digits)
  have "(if ?t @ r \<noteq> [] \<and> hd (?t @ r) = CHR ''-'' then tl (?t @ r) else ?t @ r) = nat_digits n @ f @ x @ r"
    using d by auto
  moreover have "take (length (?t @ r) - length r) (?t @ r) = ?t" by simp
  ultimately show ?thesis using i f x unfolding parse_number_def by (simp del: append_assoc take_append)
qed

lemma number_text_parts:
  assumes "n = D_fin neg q"
  shows "\<exists>m f x. number_text n = (if neg then ''-'' else []) @ nat_digits m @ f @ x \<and>
    fraction_part f \<and> exponent_part x"
proof -
  have dec: "\<exists>m f. decimal_text d k = nat_digits m @ f \<and> fraction_part f" for d k
    using fraction_digits [of k "d mod 10 ^ k"] unfolding decimal_text_def Let_def fraction_part_def
    by (intro exI [of _ "d div 10 ^ k"]) auto
  have ex: "exponent_part (exponent_text e)" for e
    using zero_pad_digits [of "nat_digits (nat \<bar>e\<bar>)" 2] nat_digits_digits [of _ "nat \<bar>e\<bar>"]
      nat_digits_nonempty [of "nat \<bar>e\<bar>"]
    by (auto simp: exponent_text_def exponent_part_def zero_pad_def)
  have nil: "fraction_part []" "exponent_part []" by (simp_all add: fraction_part_def exponent_part_def)
  have put: "\<exists>m' f' x'. nat_digits m @ f @ x = nat_digits m' @ f' @ x' \<and> fraction_part f' \<and> exponent_part x'"
    if "fraction_part f" "exponent_part x" for m f x
    using that by blast
  have "\<exists>m f x. general_text q = nat_digits m @ f @ x \<and> fraction_part f \<and> exponent_part x"
  proof (cases "q = 0")
    case True
    then show ?thesis using put [OF nil, of 0] by (simp add: general_text_def)
  next
    case False
    obtain d e where t: "ten_digits q = (d, e)" by fastforce
    obtain m f m' f' where "decimal_text d (nat (9 - e)) = nat_digits m @ f" "fraction_part f"
      "decimal_text d 9 = nat_digits m' @ f'" "fraction_part f'" using dec by meson
    then show ?thesis using t False put [OF _ nil(2), of f m] put [OF _ ex [of e], of f' m']
      by (simp add: general_text_def)
  qed
  then show ?thesis using assms put [OF nil, of "nat \<lfloor>q\<rfloor>"] by (simp add: number_text_def)
qed

section \<open>Documents are read back\<close>

text \<open>What a printed value is read back as: a number as its text says, an infinity or a NaN as null.\<close>

definition reread_number :: "double \<Rightarrow> json" where
  "reread_number n = (case n of D_fin neg q \<Rightarrow> Num (strtod (number_text n)) | _ \<Rightarrow> Null)"

primrec reread :: "json \<Rightarrow> json" where
  "reread Null = Null"
| "reread (Bool b) = Bool b"
| "reread (Num n) = reread_number n"
| "reread (Str s) = Str s"
| "reread (Arr vs) = Arr (map reread vs)"
| "reread (Obj ms) = Obj (map (map_prod id reread) ms)"

primrec depth :: "json \<Rightarrow> nat" where
  "depth Null = 0"
| "depth (Bool b) = 0"
| "depth (Num n) = 0"
| "depth (Str s) = 0"
| "depth (Arr vs) = foldr max (map Suc (map depth vs)) 0"
| "depth (Obj ms) = foldr max (map (Suc \<circ> snd) (map (map_prod id depth) ms)) 0"

text \<open>No object repeats a key.\<close>

primrec keys_distinct :: "json \<Rightarrow> bool" where
  "keys_distinct Null = True"
| "keys_distinct (Bool b) = True"
| "keys_distinct (Num n) = True"
| "keys_distinct (Str s) = True"
| "keys_distinct (Arr vs) = list_all id (map keys_distinct vs)"
| "keys_distinct (Obj ms) = (distinct (map fst ms) \<and> list_all snd (map (map_prod id keys_distinct) ms))"

text \<open>Every number is whole and below \<open>10^15\<close>.\<close>

primrec whole_numbers :: "json \<Rightarrow> bool" where
  "whole_numbers Null = True"
| "whole_numbers (Bool b) = True"
| "whole_numbers (Num n) = (case n of D_fin neg q \<Rightarrow> q = rat_of_nat (nat \<lfloor>q\<rfloor>) \<and> q < 10 ^ 15 | _ \<Rightarrow> False)"
| "whole_numbers (Str s) = True"
| "whole_numbers (Arr vs) = list_all id (map whole_numbers vs)"
| "whole_numbers (Obj ms) = list_all snd (map (map_prod id whole_numbers) ms)"

lemma foldr_max_le: "foldr max xs 0 < k \<Longrightarrow> x \<in> set xs \<Longrightarrow> x < (k :: nat)"
  by (induction xs) auto

lemma reread_whole: "whole_numbers v \<Longrightarrow> reread v = v"
proof (induction v)
  case (Num n)
  then obtain neg q where n: "n = D_fin neg q" "q = rat_of_nat (nat \<lfloor>q\<rfloor>)" "q < 10 ^ 15"
    by (cases n) auto
  define m where "m = nat \<lfloor>q\<rfloor>"
  have q: "q = rat_of_nat m" using n(2) by (simp add: m_def)
  have "rat_of_nat m < rat_of_nat (10 ^ 15)" using n(3) q by simp
  then have "m < 10 ^ 15" by (simp only: of_nat_less_iff)
  then have "m < 2 ^ 53" by simp
  moreover have "number_text n = (if neg then ''-'' else []) @ nat_digits m"
    using n(1,3) q by (simp add: number_text_def)
  ultimately show ?case using n(1) q strtod_nat_digits [of m neg] by (simp add: reread_number_def)
next
  case (Arr vs)
  then show ?case by (auto simp: list_all_iff intro!: map_idI)
next
  case (Obj ms)
  have "reread (snd p) = snd p" if "p \<in> set ms" for p
  proof (rule Obj.IH [OF that])
    show "snd p \<in> Basic_BNFs.snds p" by (cases p) simp
    show "whole_numbers (snd p)" using Obj.prems that by (auto simp: list_all_iff)
  qed
  then show ?case by (auto intro!: map_idI simp: map_prod_def split: prod.splits)
qed simp_all

text \<open>The first character of a printed value.\<close>

lemma number_text_hd:
  assumes "n = D_fin neg q"
  shows "\<exists>c t. number_text n = c # t \<and> (c = CHR ''-'' \<or> is_digit c)"
proof -
  obtain m f x where n: "number_text n = (if neg then ''-'' else []) @ nat_digits m @ f @ x"
    using number_text_parts [OF assms] by blast
  obtain c t where "nat_digits m = c # t" "is_digit c" using hd_nat_digits by blast
  with n show ?thesis by auto
qed

lemma dump_hd: "\<exists>c t. dump v = c # t \<and> \<not> is_ws c \<and> c \<noteq> CHR '']''"
proof -
  have d: "is_digit c \<Longrightarrow> \<not> is_ws c \<and> c \<noteq> CHR '']''" for c
    by (auto simp: is_digit_def is_ws_def)
  show ?thesis
  proof (cases v)
    case (Num n)
    then show ?thesis
    proof (cases n)
      case (D_fin neg q)
      then obtain c t where "number_text n = c # t" "c = CHR ''-'' \<or> is_digit c" using number_text_hd by blast
      then show ?thesis using d [of c] Num by (auto simp: is_ws_def)
    qed (simp_all add: number_text_def is_ws_def)
  qed (simp_all add: is_ws_def escaped_def quote_char_def)
qed

lemma skip_ws_dump: "skip_ws (dump v @ r) = dump v @ r"
  using dump_hd [of v] by (auto simp: skip_ws_def)

lemma skip_ws_char: "\<not> is_ws c \<Longrightarrow> skip_ws (c # r) = c # r"
  by (simp add: skip_ws_def)

lemma not_ws: "\<not> is_ws (CHR '','')" "\<not> is_ws (CHR '']'')" "\<not> is_ws (CHR ''}'')" "\<not> is_ws (CHR '':'')"
  "\<not> is_ws quote_char"
  by (simp_all add: is_ws_def quote_char_def)

lemma skip_ws_escaped: "skip_ws (escaped k @ r) = escaped k @ r"
  by (simp add: escaped_def skip_ws_char not_ws)

lemma ends_simps [simp]:
  "ends []" "ends (CHR '','' # r)" "ends (CHR '']'' # r)" "ends (CHR ''}'' # r)"
  by (simp_all add: ends_def)

lemma skip_ws_end: "ends r \<Longrightarrow> skip_ws r = r"
  by (cases r) (auto simp: ends_def skip_ws_def is_ws_def)

lemma consume_simps [simp]:
  "consume_word [c] (c # r) = Some r" "d \<noteq> c \<Longrightarrow> consume_word [c] (d # r) = None"
  by (simp_all add: consume_word_def)

text \<open>\<open>pv\<close> reads back the values of \<open>vs\<close>.\<close>

definition reads :: "(string \<Rightarrow> json parsed option) \<Rightarrow> json \<Rightarrow> bool" where
  "reads pv v \<longleftrightarrow> (\<forall>r. ends r \<longrightarrow> pv (dump v @ r) = Some (Inr (reread v, r)))"

lemma readsD: "reads pv v \<Longrightarrow> ends r \<Longrightarrow> pv (dump v @ r) = Some (Inr (reread v, r))"
  by (simp add: reads_def)

lemma array_loop_reads:
  assumes "vs \<noteq> []" "\<forall>v \<in> set vs. reads pv v"
  shows "array_loop pv acc (commas (map dump vs) @ CHR '']'' # r) = Some (Inr (Arr (acc @ map reread vs), r))"
  using assms
proof (induction vs arbitrary: acc)
  case (Cons v vs)
  have v: "reads pv v" using Cons.prems by simp
  show ?case
  proof (cases vs)
    case Nil
    then show ?thesis using readsD [OF v, of "CHR '']'' # r"]
      by (subst array_loop.simps) (simp add: skip_ws_dump skip_ws_char not_ws)
  next
    case (Cons u us)
    have "array_loop pv acc (commas (map dump (v # vs)) @ CHR '']'' # r) =
        array_loop pv (acc @ [reread v]) (commas (map dump vs) @ CHR '']'' # r)"
      using readsD [OF v, of "CHR '','' # commas (map dump vs) @ CHR '']'' # r"] Cons
      by (subst array_loop.simps) (simp add: skip_ws_dump skip_ws_char not_ws)
    with Cons.IH Cons.prems Cons show ?thesis by simp
  qed
qed simp

lemma update_fresh: "k \<notin> fst ` set acc \<Longrightarrow> AList.update k v acc = acc @ [(k, v)]"
  by (induction acc) auto

lemma parse_key_dump:
  "parse_key (escaped k @ CHR '':'' # dump v @ r) = Inr (k, dump v @ r)"
  by (simp add: parse_key_def skip_ws_escaped parse_string_escaped skip_ws_char not_ws skip_ws_dump)

lemma object_loop_reads:
  assumes "ms \<noteq> []" "\<forall>m \<in> set ms. reads pv (snd m)" "distinct (map fst acc @ map fst ms)"
  shows "object_loop pv acc (commas (map (\<lambda>(k, t). escaped k @ CHR '':'' # t) (map (map_prod id dump) ms)) @ CHR ''}'' # r) =
    Some (Inr (Obj (acc @ map (map_prod id reread) ms), r))"
  using assms
proof (induction ms arbitrary: acc)
  case (Cons m ms)
  obtain k v where m: "m = (k, v)" by fastforce
  have v: "reads pv v" using Cons.prems by (simp add: m)
  have fresh: "AList.update k (reread v) acc = acc @ [(k, reread v)]"
    using Cons.prems(3) by (intro update_fresh) (auto simp: m)
  let ?text = "\<lambda>ms. commas (map (\<lambda>(k, t). escaped k @ CHR '':'' # t) (map (map_prod id dump) ms))"
  show ?case
  proof (cases ms)
    case Nil
    then show ?thesis using readsD [OF v, of "CHR ''}'' # r"] fresh
      by (subst object_loop.simps) (simp add: m parse_key_dump skip_ws_char not_ws)
  next
    case (Cons u us)
    define body where "body = ?text ms @ CHR ''}'' # r"
    have t: "?text (m # ms) @ CHR ''}'' # r = escaped k @ CHR '':'' # dump v @ CHR '','' # body"
      using Cons by (simp add: m body_def)
    have "object_loop pv acc (?text (m # ms) @ CHR ''}'' # r) = object_loop pv (acc @ [(k, reread v)]) body"
      using readsD [OF v, of "CHR '','' # body"] fresh unfolding t
      by (subst object_loop.simps) (simp add: parse_key_dump skip_ws_char not_ws)
    moreover have dist: "distinct (map fst (acc @ [(k, reread v)]) @ map fst ms)"
      using Cons.prems(3) by (auto simp: m)
    have "object_loop pv (acc @ [(k, reread v)]) body =
        Some (Inr (Obj ((acc @ [(k, reread v)]) @ map (map_prod id reread) ms), r))"
      unfolding body_def by (rule Cons.IH [OF _ _ dist]) (use Cons.prems(2) Cons in simp_all)
    moreover have "(acc @ [(k, reread v)]) @ map (map_prod id reread) ms = acc @ map (map_prod id reread) (m # ms)"
      by (simp add: m)
    ultimately show ?thesis by (simp only:)
  qed
qed simp

lemma scalar_reads:
  assumes "v \<in> {Null, Bool b, Num n}" "ends r"
  shows "parse_value (Suc k) (dump v @ r) = Some (Inr (reread v, r))"
proof (cases "\<exists>neg q. v = Num (D_fin neg q)")
  case True
  then obtain neg q where v: "v = Num (D_fin neg q)" by blast
  obtain m f x where t: "number_text (D_fin neg q) = (if neg then ''-'' else []) @ nat_digits m @ f @ x"
    "fraction_part f" "exponent_part x" using number_text_parts [OF refl, of neg q] by blast
  obtain c u where c: "number_text (D_fin neg q) = c # u" "c = CHR ''-'' \<or> is_digit c"
    using number_text_hd [OF refl, of neg q] by blast
  have "c \<noteq> CHR ''{''" "c \<noteq> CHR ''[''" "c \<noteq> quote_char" "c \<noteq> CHR ''t''" "c \<noteq> CHR ''f''" "c \<noteq> CHR ''n''"
    using c(2) by (auto simp: is_digit_def quote_char_def)
  with c have "parse_value (Suc k) (number_text (D_fin neg q) @ r) = Some (parse_number (number_text (D_fin neg q) @ r))"
    by (simp add: parse_scalar_def consume_word_def)
  with parse_number_parts [OF t(2,3) assms(2), of neg m] t(1) show ?thesis
    by (simp add: v reread_number_def)
next
  case False
  then have "v = Null \<or> (\<exists>b. v = Bool b) \<or> v = Num D_nan \<or> (\<exists>b. v = Num (D_inf b))"
    using assms(1) by (cases n) auto
  then show ?thesis
    by (auto simp: parse_scalar_def consume_word_def quote_char_def number_text_def reread_number_def)
qed

lemma parse_dump: "depth v < k \<Longrightarrow> keys_distinct v \<Longrightarrow> reads (parse_value k) v"
proof (induction v arbitrary: k)
  case (Str s)
  then obtain j where "k = Suc j" by (cases k) auto
  then show ?case using parse_string_escaped [of s]
    by (auto simp: reads_def escaped_def quote_char_def)
next
  case (Arr vs)
  then obtain j where k: "k = Suc j" by (cases k) auto
  have vs: "reads (parse_value j) v" if "v \<in> set vs" for v
  proof (rule Arr.IH [OF that])
    show "depth v < j" using foldr_max_le [OF Arr.prems(1) [simplified], of "Suc (depth v)"] that by (simp add: k)
    show "keys_distinct v" using Arr.prems(2) that by (simp add: list_all_iff)
  qed
  show ?case unfolding reads_def
  proof (intro allI impI)
    fix r assume "ends r"
    show "parse_value k (dump (Arr vs) @ r) = Some (Inr (reread (Arr vs), r))"
    proof (cases vs)
      case Nil
      then show ?thesis by (simp add: k parse_array_def skip_ws_char not_ws)
    next
      case (Cons v us)
      define body where "body = commas (map dump vs) @ CHR '']'' # r"
      obtain c t where c: "dump v = c # t" "\<not> is_ws c" "c \<noteq> CHR '']''" using dump_hd by blast
      obtain u where "commas (map dump vs) = c # u" using Cons c by (cases us) auto
      then have "skip_ws body = body" "consume_word '']'' body = None"
        using c by (simp_all add: body_def skip_ws_char)
      moreover have "array_loop (parse_value j) [] body = Some (Inr (Arr (map reread vs), r))"
        unfolding body_def using array_loop_reads [of vs "parse_value j" "[]" r] vs Cons by simp
      ultimately show ?thesis by (simp add: k parse_array_def body_def)
    qed
  qed
next
  case (Obj ms)
  then obtain j where k: "k = Suc j" by (cases k) auto
  have ms: "reads (parse_value j) (snd m)" if "m \<in> set ms" for m
  proof (rule Obj.IH [OF that])
    show "snd m \<in> Basic_BNFs.snds m" by (cases m) simp
    have "Suc (depth (snd m)) \<in> set (map (Suc \<circ> snd) (map (map_prod id depth) ms))" using that by force
    then show "depth (snd m) < j" using foldr_max_le [OF Obj.prems(1) [unfolded depth.simps]] by (auto simp: k)
    show "keys_distinct (snd m)" using Obj.prems(2) that by (auto simp: list_all_iff)
  qed
  show ?case unfolding reads_def
  proof (intro allI impI)
    fix r assume "ends r"
    show "parse_value k (dump (Obj ms) @ r) = Some (Inr (reread (Obj ms), r))"
    proof (cases ms)
      case Nil
      then show ?thesis by (simp add: k parse_object_def skip_ws_char not_ws)
    next
      case (Cons m us)
      let ?f = "\<lambda>(k, t). escaped k @ CHR '':'' # t"
      define body where "body = commas (map ?f (map (map_prod id dump) ms)) @ CHR ''}'' # r"
      obtain u where "commas (map ?f (map (map_prod id dump) ms)) = quote_char # u"
        using Cons by (cases us; cases m) (auto simp: escaped_def)
      then have "skip_ws body = body" "consume_word ''}'' body = None"
        by (simp_all add: body_def skip_ws_char not_ws) (simp add: quote_char_def)
      moreover have "object_loop (parse_value j) [] body = Some (Inr (Obj (map (map_prod id reread) ms), r))"
        unfolding body_def using object_loop_reads [of ms "parse_value j" "[]" r] ms Cons Obj.prems(2) by simp
      ultimately show ?thesis by (simp add: k parse_object_def body_def)
    qed
  qed
next
  case Null
  then show ?case using scalar_reads [of Null] by (cases k) (simp, unfold reads_def, blast)
next
  case (Bool b)
  then show ?case using scalar_reads [of "Bool b"] by (cases k) (simp, unfold reads_def, blast)
next
  case (Num n)
  then show ?case using scalar_reads [of "Num n"] by (cases k) (simp, unfold reads_def, blast)
qed

lemma parse_document:
  assumes "depth v \<le> kMaxDepth" "keys_distinct v"
  shows "parse (dump v) = Some (Inr (reread v)) \<and> (whole_numbers v \<longrightarrow> reread v = v)"
proof -
  have "parse_value (Suc kMaxDepth) (dump v @ []) = Some (Inr (reread v, []))"
    by (rule readsD [OF parse_dump]) (use assms in simp_all)
  then show ?thesis
    using skip_ws_dump [of v "[]"] skip_ws_end [of "[]"] reread_whole by (simp add: parse_def)
qed

text \<open>C31: A document nested at most 32 levels deep, in which no object repeats a key, is read back from its printed
  text: the same structure, the same strings byte for byte, every whole number below \<open>10^15\<close> exactly,
  any other number as the ten digits printed say, and an infinity or a NaN as null.\<close>

theorem json_round_trip:
  assumes "depth v \<le> kMaxDepth" "keys_distinct v"
  shows "parse (dump v) = Some (Inr (reread v)) \<and> (whole_numbers v \<longrightarrow> reread v = v)"
  by (rule parse_document [OF assms])

theorem json_round_trip_witness:
  "parse (dump (Obj [(''a'', Arr [Num (D_fin True 7), Str [CHR 0x22, CHR 0x01]]), ([], Null)])) =
   Some (Inr (Obj [(''a'', Arr [Num (D_fin True 7), Str [CHR 0x22, CHR 0x01]]), ([], Null)]))"
  using json_round_trip [of "Obj [(''a'', Arr [Num (D_fin True 7), Str [CHR 0x22, CHR 0x01]]), ([], Null)]"]
  by (simp add: kMaxDepth_def)

lemma parse_total: "\<exists>x. parse s = Some x"
proof -
  obtain x where "parse_value (Suc kMaxDepth) (skip_ws s) = Some x"
    using parse_value_advances [of "Suc kMaxDepth"] unfolding advances_def by blast
  then show ?thesis by (auto simp: parse_def split: sum.splits)
qed

text \<open>The parser returns on every input: it never loops, and its answer is a value or a message with the byte
  where it stopped.\<close>

theorem parse_returns: "\<exists>x. parse s = Some x"
  by (rule parse_total)

end
