(* ===== verification/Script.thy ===== *)
theory Script
  imports Json_Facts Double_Ops Sensor_Facts Ota_Slots
begin

text \<open>
  Simulator scripts, \<open>sim/src/script.hpp\<close> and \<open>sim/src/script.cpp\<close>: the check and conversion of a
  JSON timeline. A thrown \<open>Fail\<close> is \<open>Inl\<close> with its message. What a script that passes may contain is
  stated at the end.
\<close>

section \<open>Limits and names\<close>

definition kMaxScriptMs :: int where "kMaxScriptMs = 86400000"
definition kMaxScriptSteps :: nat where "kMaxScriptSteps = 5000"
definition kMaxScriptBytes :: nat where "kMaxScriptBytes = 256 * 1024"

definition kMaxDriftRate :: double where "kMaxDriftRate = double_int 10"
definition kMaxNoiseSigma :: double where "kMaxNoiseSigma = double_int 1"
definition kMaxCenterDeadzone :: double where "kMaxCenterDeadzone = D_fin False (1 / 2)"
definition kMaxRangeDeadzone :: double where "kMaxRangeDeadzone = double_of False (1 / 10)"

definition kPatterns :: "string list" where
  "kPatterns = [''rest'', ''circle'', ''calibrate'', ''nudge_right'', ''nudge_left'', ''nudge_up'',
     ''nudge_down'', ''wander'']"

definition kActions :: "string list" where
  "kActions = [''recalibrate'', ''save'', ''restart'', ''set_mode'', ''set_deadzone'', ''flash'',
     ''revert'', ''mark_valid'', ''fw_info'', ''plant_unusable_calibration'', ''set_nudge_enabled'']"

definition kReplies :: "string list" where
  "kReplies = [''ok'', ''busy'', ''invalid'', ''unsupported'', ''error'']"

definition kKinds :: "string list" where
  "kKinds = [''stick'', ''pattern'', ''fault'', ''drift'', ''noise'', ''next_image'', ''action'', ''expect'']"

definition is_known_pattern :: "string \<Rightarrow> bool" where
  "is_known_pattern name = List.member kPatterns name"

section \<open>Scripts\<close>

record expect =
  ex_calibrated :: "bool option"
  ex_center_max :: "double option"
  ex_mouse_moved :: "string option"
  ex_clicked :: "string option"
  ex_mode :: "string option"
  ex_sensor_fault :: "bool option"
  ex_sensor_observed :: "bool option"
  ex_neutral :: "bool option"
  ex_needs_calibration :: "bool option"
  ex_fw_slot :: "string option"
  ex_fw_pending :: "bool option"
  ex_fw_version :: "string option"
  ex_xac_x :: "double option"
  ex_xac_y :: "double option"

definition no_expect :: expect where
  "no_expect = \<lparr>ex_calibrated = None, ex_center_max = None, ex_mouse_moved = None, ex_clicked = None,
     ex_mode = None, ex_sensor_fault = None, ex_sensor_observed = None, ex_neutral = None,
     ex_needs_calibration = None, ex_fw_slot = None, ex_fw_pending = None, ex_fw_version = None,
     ex_xac_x = None, ex_xac_y = None\<rparr>"

datatype step_kind =
    K_stick | K_pattern | K_fault | K_drift | K_noise | K_next_image | K_action | K_expect

record script_step =
  sp_at :: int
  sp_kind :: step_kind
  sp_x :: double
  sp_y :: double
  sp_name :: string
  sp_duration :: int
  sp_number :: double
  sp_text :: string
  sp_center :: "double option"
  sp_range :: "double option"
  sp_reply :: "string option"
  sp_expect :: expect

definition init_step :: script_step where
  "init_step = \<lparr>sp_at = 0, sp_kind = K_stick, sp_x = double_int 0, sp_y = double_int 0, sp_name = [],
     sp_duration = - 1, sp_number = double_int 0, sp_text = [], sp_center = None, sp_range = None,
     sp_reply = None, sp_expect = no_expect\<rparr>"

record script =
  sc_name :: string
  sc_steps :: "script_step list"

section \<open>Checks\<close>

definition fail :: "nat \<Rightarrow> string \<Rightarrow> string + 'a" where
  "fail i what = Inl (''step '' @ nat_digits i @ '': '' @ what)"

definition and_then :: "string + 'a \<Rightarrow> ('a \<Rightarrow> string + 'b) \<Rightarrow> string + 'b" where
  "and_then m f = (case m of Inl e \<Rightarrow> Inl e | Inr x \<Rightarrow> f x)"

definition quoted :: "string \<Rightarrow> string" where
  "quoted s = quote_char # s @ [quote_char]"

definition ticked :: "string \<Rightarrow> string" where
  "ticked s = CHR 0x27 # s @ [CHR 0x27]"

definition in_limits :: "double \<Rightarrow> double \<Rightarrow> double \<Rightarrow> bool" where
  "in_limits lo hi n \<longleftrightarrow> finite_double n \<and> double_val lo \<le> double_val n \<and> double_val n \<le> double_val hi"

text \<open>\<open>static_cast<int64_t>\<close> of a value in range.\<close>

definition int_of_double :: "double \<Rightarrow> int" where
  "int_of_double n = (case n of D_fin neg q \<Rightarrow> (if neg then - \<lfloor>q\<rfloor> else \<lfloor>q\<rfloor>) | _ \<Rightarrow> 0)"

definition number_in :: "json \<Rightarrow> nat \<Rightarrow> string \<Rightarrow> double \<Rightarrow> double \<Rightarrow> string + double" where
  "number_in v i what lo hi =
     (case v of
        Num n \<Rightarrow> if in_limits lo hi n then Inr n
          else fail i (what @ '' must be a number from '' @ number_text lo @ '' to '' @ number_text hi)
      | _ \<Rightarrow> fail i (what @ '' must be a number from '' @ number_text lo @ '' to '' @ number_text hi))"

definition want_bool :: "nat \<Rightarrow> json \<Rightarrow> string \<Rightarrow> string + bool" where
  "want_bool i v key =
     (case v of Bool b \<Rightarrow> Inr b | _ \<Rightarrow> fail i (''expect.'' @ key @ '' must be true or false''))"

definition want_choice :: "nat \<Rightarrow> json \<Rightarrow> string \<Rightarrow> string list \<Rightarrow> string + string" where
  "want_choice i v key choices =
     (case v of Str s \<Rightarrow> if List.member choices s then Inr s
         else fail i (''expect.'' @ key @ '' has an unsupported value'')
      | _ \<Rightarrow> fail i (''expect.'' @ key @ '' has an unsupported value''))"

section \<open>Expectations\<close>

definition expect_key :: "nat \<Rightarrow> string \<Rightarrow> json \<Rightarrow> expect \<Rightarrow> string + expect" where
  "expect_key i key v x =
     (if key = ''calibrated'' then
        and_then (want_bool i v key) (\<lambda>b. Inr (x\<lparr>ex_calibrated := Some b\<rparr>))
      else if key = ''center_max'' then
        and_then (number_in v i ''expect.center_max'' (double_int 0) (double_int 10))
          (\<lambda>n. Inr (x\<lparr>ex_center_max := Some n\<rparr>))
      else if key = ''mouse_moved'' then
        and_then (want_choice i v key [''right'', ''left'', ''up'', ''down'', ''none''])
          (\<lambda>s. Inr (x\<lparr>ex_mouse_moved := Some s\<rparr>))
      else if key = ''clicked'' then
        and_then (want_choice i v key [''left'', ''right'', ''none'']) (\<lambda>s. Inr (x\<lparr>ex_clicked := Some s\<rparr>))
      else if key = ''mode'' then
        and_then (want_choice i v key [''mouse'', ''xac'']) (\<lambda>s. Inr (x\<lparr>ex_mode := Some s\<rparr>))
      else if key = ''sensor_fault'' then
        and_then (want_bool i v key) (\<lambda>b. Inr (x\<lparr>ex_sensor_fault := Some b\<rparr>))
      else if key = ''sensor_observed'' then
        and_then (want_bool i v key) (\<lambda>b. Inr (x\<lparr>ex_sensor_observed := Some b\<rparr>))
      else if key = ''neutral'' then
        and_then (want_bool i v key) (\<lambda>b. Inr (x\<lparr>ex_neutral := Some b\<rparr>))
      else if key = ''needs_calibration'' then
        and_then (want_bool i v key) (\<lambda>b. Inr (x\<lparr>ex_needs_calibration := Some b\<rparr>))
      else if key = ''fw_slot'' then
        and_then (want_choice i v key [''ota_0'', ''ota_1'']) (\<lambda>s. Inr (x\<lparr>ex_fw_slot := Some s\<rparr>))
      else if key = ''fw_pending'' then
        and_then (want_bool i v key) (\<lambda>b. Inr (x\<lparr>ex_fw_pending := Some b\<rparr>))
      else if key = ''fw_version'' then
        (case v of Str s \<Rightarrow> Inr (x\<lparr>ex_fw_version := Some s\<rparr>)
         | _ \<Rightarrow> fail i ''expect.fw_version must be a string'')
      else if key = ''xac_x'' then
        and_then (number_in v i ''expect.xac_x'' (double_int (- 1)) (double_int 1))
          (\<lambda>n. Inr (x\<lparr>ex_xac_x := Some n\<rparr>))
      else if key = ''xac_y'' then
        and_then (number_in v i ''expect.xac_y'' (double_int (- 1)) (double_int 1))
          (\<lambda>n. Inr (x\<lparr>ex_xac_y := Some n\<rparr>))
      else fail i (''unknown expect key '' @ ticked key))"

fun expect_members :: "nat \<Rightarrow> (string \<times> json) list \<Rightarrow> expect \<Rightarrow> string + expect" where
  "expect_members i [] x = Inr x"
| "expect_members i ((k, v) # ms) x = and_then (expect_key i k v x) (expect_members i ms)"

definition parse_expect :: "json \<Rightarrow> nat \<Rightarrow> string + expect" where
  "parse_expect e i =
     (case e of Obj ms \<Rightarrow> expect_members i ms no_expect | _ \<Rightarrow> fail i ''expect must be an object'')"

section \<open>Steps\<close>

definition SIDE_KEYS :: "string list" where
  "SIDE_KEYS = [''at_ms'', ''duration_ms'', ''expect_reply'', ''value'', ''version'']"

fun pick_body ::
  "nat \<Rightarrow> (string \<times> json) list \<Rightarrow> (string \<times> json) option \<Rightarrow> string + string \<times> json" where
  "pick_body i [] b =
     (case b of None \<Rightarrow>
        fail i ''needs one of stick, pattern, fault, drift, noise, next_image, action, expect''
      | Some kv \<Rightarrow> Inr kv)"
| "pick_body i ((k, v) # ms) b =
     (if List.member SIDE_KEYS k then pick_body i ms b
      else if \<not> List.member kKinds k then fail i (''unknown key '' @ ticked k)
      else if b \<noteq> None then
        fail i ''needs exactly one of stick, pattern, fault, drift, noise, next_image, action, expect''
      else pick_body i ms (Some (k, v)))"

definition stick_step :: "nat \<Rightarrow> json \<Rightarrow> script_step \<Rightarrow> string + script_step" where
  "stick_step i body st =
     (case body of
        Arr [a, b] \<Rightarrow>
          and_then (number_in a i ''stick x'' (double_int (- 1)) (double_int 1)) (\<lambda>x.
          and_then (number_in b i ''stick y'' (double_int (- 1)) (double_int 1)) (\<lambda>y.
          Inr (st\<lparr>sp_kind := K_stick, sp_x := x, sp_y := y\<rparr>)))
      | _ \<Rightarrow> fail i ''stick must be [x, y]'')"

definition pattern_step :: "nat \<Rightarrow> json \<Rightarrow> json \<Rightarrow> script_step \<Rightarrow> string + script_step" where
  "pattern_step i s body st =
     (case body of
        Str p \<Rightarrow>
          if \<not> is_known_pattern p then fail i ''unknown pattern''
          else
            let st1 = st\<lparr>sp_kind := K_pattern, sp_name := p\<rparr> in
            (case json_find ''duration_ms'' s of None \<Rightarrow> Inr st1
             | Some d \<Rightarrow>
                 and_then (number_in d i ''duration_ms'' (double_int 0) (double_int kMaxScriptMs))
                   (\<lambda>n. Inr (st1\<lparr>sp_duration := int_of_double n\<rparr>)))
      | _ \<Rightarrow> fail i ''unknown pattern'')"

definition fault_step :: "nat \<Rightarrow> json \<Rightarrow> script_step \<Rightarrow> string + script_step" where
  "fault_step i body st =
     (case body of
        Str f \<Rightarrow> if parse_fault f = None then fail i ''fault must be ok, no_response, stuck_counter or weak_magnet''
          else Inr (st\<lparr>sp_kind := K_fault, sp_name := f\<rparr>)
      | _ \<Rightarrow> fail i ''fault must be ok, no_response, stuck_counter or weak_magnet'')"

definition next_image_step :: "nat \<Rightarrow> json \<Rightarrow> script_step \<Rightarrow> string + script_step" where
  "next_image_step i body st =
     (let bad = fail i (''next_image must be ok, fail_self_test, crash_loop, slow_sensor_start, ''
         @ ''slow_sensor_fail or crash_when_confirmed'') in
      case body of
        Str b \<Rightarrow> if parse_next_image b = None then bad
          else Inr (st\<lparr>sp_kind := K_next_image, sp_name := b\<rparr>)
      | _ \<Rightarrow> bad)"

section \<open>Actions\<close>

definition limited :: "nat \<Rightarrow> bool \<Rightarrow> json \<Rightarrow> string \<Rightarrow> double \<Rightarrow> string + double option" where
  "limited i on_purpose value key hi =
     (case json_find key value of
        None \<Rightarrow> Inr None
      | Some v \<Rightarrow>
          if on_purpose then
            (case v of
               Num n \<Rightarrow> if finite_double n then Inr (Some n)
                 else fail i (''set_deadzone '' @ key @ '' must be a number'')
             | _ \<Rightarrow> fail i (''set_deadzone '' @ key @ '' must be a number''))
          else and_then (number_in v i (''set_deadzone '' @ key) (double_int 0) hi) (\<lambda>n. Inr (Some n)))"

definition deadzone_value :: "nat \<Rightarrow> json option \<Rightarrow> script_step \<Rightarrow> string + script_step" where
  "deadzone_value i value st =
     (let needs = fail i (''set_deadzone needs value {'' @ quoted ''center'' @ '': n, '' @ quoted ''range'' @ '': n}'') in
      case value of
        Some (Obj ms) \<Rightarrow>
          if ms = [] then needs
          else
            (case find (\<lambda>k. k \<noteq> ''center'' \<and> k \<noteq> ''range'') (map fst ms) of
               Some k \<Rightarrow> fail i (''set_deadzone value has an unknown key '' @ ticked k)
             | None \<Rightarrow>
                 let on_purpose = (sp_reply st = Some ''invalid'') in
                 and_then (limited i on_purpose (Obj ms) ''center'' kMaxCenterDeadzone) (\<lambda>c.
                 and_then (limited i on_purpose (Obj ms) ''range'' kMaxRangeDeadzone) (\<lambda>r.
                 Inr (st\<lparr>sp_center := c, sp_range := r\<rparr>))))
      | _ \<Rightarrow> needs)"

definition action_value :: "nat \<Rightarrow> json \<Rightarrow> script_step \<Rightarrow> string + script_step" where
  "action_value i s st =
     (let value = json_find ''value'' s in
      if sp_name st = ''set_mode'' then
        (let bad = fail i (''set_mode needs value '' @ quoted ''mouse'' @ '' or '' @ quoted ''xac'') in
         case value of
           Some (Str m) \<Rightarrow> if m \<noteq> ''mouse'' \<and> m \<noteq> ''xac'' then bad else Inr (st\<lparr>sp_text := m\<rparr>)
         | _ \<Rightarrow> bad)
      else if sp_name st = ''set_nudge_enabled'' then
        (case value of
           Some (Bool b) \<Rightarrow> Inr (st\<lparr>sp_text := (if b then ''on'' else ''off'')\<rparr>)
         | _ \<Rightarrow> fail i ''set_nudge_enabled needs value true or false'')
      else if sp_name st = ''set_deadzone'' then deadzone_value i value st
      else if sp_name st = ''flash'' then
        (let t = string_or ''version'' ''9.9.9-sim'' s in
         if t = [] \<or> 31 < length t then fail i ''flash version must be 1 to 31 characters''
         else Inr (st\<lparr>sp_text := t\<rparr>))
      else Inr st)"

definition action_step :: "nat \<Rightarrow> json \<Rightarrow> json \<Rightarrow> script_step \<Rightarrow> string + script_step" where
  "action_step i s body st =
     (case body of
        Str a \<Rightarrow>
          if \<not> List.member kActions a then fail i ''unknown action''
          else
            let st1 = st\<lparr>sp_kind := K_action, sp_name := a\<rparr>;
                bad = fail i ''expect_reply must be ok, busy, invalid, unsupported or error'' in
            (case json_find ''expect_reply'' s of
               None \<Rightarrow> action_value i s st1
             | Some (Str r) \<Rightarrow>
                 if \<not> List.member kReplies r then bad else action_value i s (st1\<lparr>sp_reply := Some r\<rparr>)
             | _ \<Rightarrow> bad)
      | _ \<Rightarrow> fail i ''unknown action'')"

section \<open>Whole scripts\<close>

definition body_step :: "nat \<Rightarrow> json \<Rightarrow> string \<Rightarrow> json \<Rightarrow> script_step \<Rightarrow> string + script_step" where
  "body_step i s key body st =
     (if key = ''stick'' then stick_step i body st
      else if key = ''pattern'' then pattern_step i s body st
      else if key = ''fault'' then fault_step i body st
      else if key = ''drift'' then
        and_then (number_in body i ''drift'' (double_int 0) kMaxDriftRate)
          (\<lambda>n. Inr (st\<lparr>sp_kind := K_drift, sp_number := n\<rparr>))
      else if key = ''noise'' then
        and_then (number_in body i ''noise'' (double_int 0) kMaxNoiseSigma)
          (\<lambda>n. Inr (st\<lparr>sp_kind := K_noise, sp_number := n\<rparr>))
      else if key = ''next_image'' then next_image_step i body st
      else if key = ''expect'' then
        and_then (parse_expect body i) (\<lambda>x. Inr (st\<lparr>sp_kind := K_expect, sp_expect := x\<rparr>))
      else action_step i s body st)"

definition parse_step :: "json \<Rightarrow> nat \<Rightarrow> string + script_step" where
  "parse_step s i =
     (case s of
        Obj ms \<Rightarrow>
          (case json_find ''at_ms'' s of
             None \<Rightarrow> fail i ''missing at_ms''
           | Some a \<Rightarrow>
               and_then (number_in a i ''at_ms'' (double_int 0) (double_int kMaxScriptMs)) (\<lambda>n.
               and_then (pick_body i ms None) (\<lambda>(key, body).
               body_step i s key body (init_step\<lparr>sp_at := int_of_double n\<rparr>))))
      | _ \<Rightarrow> fail i ''must be an object'')"

fun parse_steps :: "nat \<Rightarrow> int \<Rightarrow> json list \<Rightarrow> string + script_step list" where
  "parse_steps i prev [] = Inr []"
| "parse_steps i prev (v # vs) =
     and_then (parse_step v i) (\<lambda>st.
       if sp_at st < prev then fail i ''at_ms is not sorted (steps must be in time order)''
       else and_then (parse_steps (i + 1) (sp_at st) vs) (\<lambda>sts. Inr (st # sts)))"

definition parse_script :: "json \<Rightarrow> string + script" where
  "parse_script doc =
     (case doc of
        Obj ms \<Rightarrow>
          if (case json_find ''version'' doc of None \<Rightarrow> False
              | Some (Num n) \<Rightarrow> \<not> (finite_double n \<and> double_val n = 1) | Some v \<Rightarrow> True)
          then Inl ''unsupported script version''
          else
            (case json_find ''steps'' doc of
               Some (Arr vs) \<Rightarrow>
                 if kMaxScriptSteps < length vs
                 then Inl (''too many steps (limit '' @ nat_digits kMaxScriptSteps @ '')'')
                 else and_then (parse_steps 0 0 vs)
                   (\<lambda>sts. Inr \<lparr>sc_name = string_or ''name'' ''script'' doc, sc_steps = sts\<rparr>)
             | _ \<Rightarrow> Inl ''a script needs a steps array'')
      | _ \<Rightarrow> Inl ''a script must be a JSON object'')"

text \<open>\<open>None\<close> when the JSON parser would not return.\<close>

definition parse_script_text :: "string \<Rightarrow> (string + script) option" where
  "parse_script_text t =
     (if kMaxScriptBytes < length t then Some (Inl ''script is larger than 256 KiB'')
      else case parse t of None \<Rightarrow> None
        | Some (Inl e) \<Rightarrow> Some (Inl (''script is not valid JSON: '' @ e))
        | Some (Inr doc) \<Rightarrow> Some (parse_script doc))"

section \<open>What a script that passes contains\<close>

lemma and_then_Inr: "and_then m f = Inr y \<longleftrightarrow> (\<exists>x. m = Inr x \<and> f x = Inr y)"
  by (auto simp: and_then_def split: sum.splits)

lemma fail_Inr [simp]: "fail i w \<noteq> Inr x" "(fail i w = Inl e) = (e = ''step '' @ nat_digits i @ '': '' @ w)"
  by (auto simp: fail_def)

lemma number_in_ok: "number_in v i w lo hi = Inr n \<Longrightarrow> in_limits lo hi n"
  by (auto simp: number_in_def split: json.splits if_splits)

definition time_ok :: "int \<Rightarrow> bool" where
  "time_ok t \<longleftrightarrow> 0 \<le> t \<and> t \<le> kMaxScriptMs"

definition deadzone_ok :: "double \<Rightarrow> double option \<Rightarrow> bool" where
  "deadzone_ok hi v = (case v of None \<Rightarrow> True | Some n \<Rightarrow> in_limits (double_int 0) hi n)"

definition action_ok :: "script_step \<Rightarrow> bool" where
  "action_ok st \<longleftrightarrow> List.member kActions (sp_name st) \<and>
     (case sp_reply st of None \<Rightarrow> True | Some r \<Rightarrow> List.member kReplies r) \<and>
     (sp_name st = ''set_mode'' \<longrightarrow> sp_text st = ''mouse'' \<or> sp_text st = ''xac'') \<and>
     (sp_name st = ''set_nudge_enabled'' \<longrightarrow> sp_text st = ''on'' \<or> sp_text st = ''off'') \<and>
     (sp_name st = ''flash'' \<longrightarrow> sp_text st \<noteq> [] \<and> length (sp_text st) \<le> 31) \<and>
     (sp_name st = ''set_deadzone'' \<and> sp_reply st \<noteq> Some ''invalid'' \<longrightarrow>
        deadzone_ok kMaxCenterDeadzone (sp_center st) \<and> deadzone_ok kMaxRangeDeadzone (sp_range st))"

definition step_ok :: "script_step \<Rightarrow> bool" where
  "step_ok st \<longleftrightarrow> time_ok (sp_at st) \<and>
     (case sp_kind st of
        K_stick \<Rightarrow> in_limits (double_int (- 1)) (double_int 1) (sp_x st) \<and>
          in_limits (double_int (- 1)) (double_int 1) (sp_y st)
      | K_pattern \<Rightarrow> is_known_pattern (sp_name st) \<and> (sp_duration st = - 1 \<or> time_ok (sp_duration st))
      | K_fault \<Rightarrow> parse_fault (sp_name st) \<noteq> None
      | K_drift \<Rightarrow> in_limits (double_int 0) kMaxDriftRate (sp_number st)
      | K_noise \<Rightarrow> in_limits (double_int 0) kMaxNoiseSigma (sp_number st)
      | K_next_image \<Rightarrow> parse_next_image (sp_name st) \<noteq> None
      | K_action \<Rightarrow> action_ok st
      | K_expect \<Rightarrow> True)"

lemma int_of_double_ok:
  assumes "in_limits (double_int 0) (double_int kMaxScriptMs) n"
  shows "time_ok (int_of_double n)"
proof -
  obtain neg q where n: "n = D_fin neg q" using assms by (cases n) (auto simp: in_limits_def finite_double_def)
  show ?thesis
  proof (cases neg)
    case True
    then have q: "q \<le> 0" "- q \<le> rat_of_int kMaxScriptMs"
      using assms by (simp_all add: n in_limits_def double_val_def double_int_def kMaxScriptMs_def)
    then have "\<lfloor>q\<rfloor> \<le> 0" by (simp add: floor_le_iff)
    moreover have "- kMaxScriptMs \<le> \<lfloor>q\<rfloor>" using q(2) by (simp add: le_floor_iff)
    ultimately show ?thesis using True by (simp add: n time_ok_def int_of_double_def)
  next
    case False
    then have q: "0 \<le> q" "q \<le> rat_of_int kMaxScriptMs"
      using assms by (simp_all add: n in_limits_def double_val_def double_int_def kMaxScriptMs_def)
    then have "0 \<le> \<lfloor>q\<rfloor>" "\<lfloor>q\<rfloor> \<le> kMaxScriptMs" by (simp_all add: floor_le_iff)
    then show ?thesis using False by (simp add: n time_ok_def int_of_double_def)
  qed
qed

lemma limited_ok:
  "limited i False value key hi = Inr v \<Longrightarrow> deadzone_ok hi v"
  by (auto simp: limited_def deadzone_ok_def and_then_Inr dest: number_in_ok split: option.splits)

lemma deadzone_value_ok:
  assumes "deadzone_value i value st = Inr st'"
  shows "\<exists>c r. st' = st\<lparr>sp_center := c, sp_range := r\<rparr> \<and>
    (sp_reply st \<noteq> Some ''invalid'' \<longrightarrow> deadzone_ok kMaxCenterDeadzone c \<and> deadzone_ok kMaxRangeDeadzone r)"
proof -
  obtain ms where "value = Some (Obj ms)" "ms \<noteq> []"
    using assms by (auto simp: deadzone_value_def Let_def split: option.splits json.splits if_splits)
  then obtain c r where
    "limited i (sp_reply st = Some ''invalid'') (Obj ms) ''center'' kMaxCenterDeadzone = Inr c"
    "limited i (sp_reply st = Some ''invalid'') (Obj ms) ''range'' kMaxRangeDeadzone = Inr r"
    "st' = st\<lparr>sp_center := c, sp_range := r\<rparr>"
    using assms by (auto simp: deadzone_value_def Let_def and_then_Inr split: option.splits)
  then show ?thesis
    using limited_ok [of i "Obj ms" "''center''" kMaxCenterDeadzone c] limited_ok [of i "Obj ms" "''range''" kMaxRangeDeadzone r]
    by (intro exI [of _ c] exI [of _ r]) auto
qed

lemma action_value_ok:
  assumes "action_value i s st = Inr st'" "List.member kActions (sp_name st)"
    "case sp_reply st of None \<Rightarrow> True | Some r \<Rightarrow> List.member kReplies r"
  shows "action_ok st' \<and> sp_at st' = sp_at st \<and> sp_kind st' = sp_kind st"
proof (cases "sp_name st = ''set_deadzone''")
  case True
  then have "deadzone_value i (json_find ''value'' s) st = Inr st'"
    using assms(1) by (simp add: action_value_def)
  from deadzone_value_ok [OF this] assms(2,3) True show ?thesis by (auto simp: action_ok_def)
next
  case False
  then show ?thesis using assms
    by (auto simp: action_value_def action_ok_def Let_def split: if_splits option.splits json.splits)
qed

lemma action_step_ok:
  assumes "action_step i s body st = Inr st'" "sp_reply st = None"
  shows "action_ok st' \<and> sp_at st' = sp_at st \<and> sp_kind st' = K_action"
proof -
  obtain a where a: "body = Str a" "List.member kActions a"
    using assms by (auto simp: action_step_def split: json.splits if_splits)
  let ?st = "st\<lparr>sp_kind := K_action, sp_name := a\<rparr>"
  consider "action_value i s ?st = Inr st'"
    | r where "action_value i s (?st\<lparr>sp_reply := Some r\<rparr>) = Inr st'" "List.member kReplies r"
    using assms(1) a by (auto simp: action_step_def Let_def split: option.splits json.splits if_splits)
  then show ?thesis
  proof cases
    case 1
    from action_value_ok [OF this] a assms(2) show ?thesis by simp
  next
    case 2
    from action_value_ok [OF 2(1)] a 2(2) show ?thesis by simp
  qed
qed

lemma body_step_ok:
  assumes "body_step i s key body st = Inr st'" "time_ok (sp_at st)" "sp_reply st = None" "sp_duration st = - 1"
  shows "step_ok st' \<and> sp_at st' = sp_at st"
proof -
  have stick: "stick_step i body st = Inr st' \<Longrightarrow> ?thesis"
    using assms(2) by (auto simp: stick_step_def step_ok_def and_then_Inr dest: number_in_ok split: json.splits list.splits)
  have pattern: "pattern_step i s body st = Inr st' \<Longrightarrow> ?thesis"
    using assms(2,4) by (auto simp: pattern_step_def step_ok_def and_then_Inr Let_def
        dest!: number_in_ok int_of_double_ok split: json.splits option.splits if_splits)
  have others: "fault_step i body st = Inr st' \<Longrightarrow> ?thesis" "next_image_step i body st = Inr st' \<Longrightarrow> ?thesis"
    using assms(2) by (auto simp: fault_step_def next_image_step_def step_ok_def Let_def split: json.splits if_splits)
  have action: "action_step i s body st = Inr st' \<Longrightarrow> ?thesis"
    using action_step_ok [of i s body st st'] assms(2,3) by (simp add: step_ok_def)
  consider "stick_step i body st = Inr st'" | "pattern_step i s body st = Inr st'"
    | "fault_step i body st = Inr st'" | "next_image_step i body st = Inr st'" | "action_step i s body st = Inr st'"
    | n where "number_in body i ''drift'' (double_int 0) kMaxDriftRate = Inr n" "st' = st\<lparr>sp_kind := K_drift, sp_number := n\<rparr>"
    | n where "number_in body i ''noise'' (double_int 0) kMaxNoiseSigma = Inr n" "st' = st\<lparr>sp_kind := K_noise, sp_number := n\<rparr>"
    | x where "st' = st\<lparr>sp_kind := K_expect, sp_expect := x\<rparr>"
    using assms(1) by (auto simp: body_step_def and_then_Inr split: if_splits)
  then show ?thesis
    using stick pattern others action assms(2) by cases (auto simp: step_ok_def dest: number_in_ok)
qed

lemma parse_step_ok: "parse_step v i = Inr st \<Longrightarrow> step_ok st"
  by (auto simp: parse_step_def and_then_Inr init_step_def
      dest!: body_step_ok number_in_ok int_of_double_ok split: json.splits option.splits)

lemma parse_steps_ok:
  "parse_steps i prev vs = Inr sts \<Longrightarrow> list_all step_ok sts \<and> length sts = length vs \<and>
     sorted (map sp_at sts) \<and> (\<forall>st \<in> set sts. prev \<le> sp_at st)"
proof (induction i prev vs arbitrary: sts rule: parse_steps.induct)
  case (2 i prev v vs)
  then obtain st sts1 where h: "parse_step v i = Inr st" "\<not> sp_at st < prev"
    "parse_steps (i + 1) (sp_at st) vs = Inr sts1" "sts = st # sts1"
    by (auto simp: and_then_Inr split: if_splits)
  from 2(1) [OF h(2,3)] h parse_step_ok [OF h(1)] show ?case by fastforce
qed simp

text \<open>C38: A script that is accepted is well formed: at most 5000 steps in time order, each within a day, every name
  one the simulator knows and every number within its limits; only a deadzone the script itself
  expects to be refused may be out of range.\<close>

theorem accepted_script_is_well_formed:
  assumes "parse_script_text t = Some (Inr sc)"
  shows "length (sc_steps sc) \<le> kMaxScriptSteps \<and> sorted (map sp_at (sc_steps sc)) \<and>
    list_all step_ok (sc_steps sc)"
proof -
  obtain doc where "parse_script doc = Inr sc"
    using assms by (auto simp: parse_script_text_def split: if_splits option.splits sum.splits)
  then obtain vs where "length vs \<le> kMaxScriptSteps" "parse_steps 0 0 vs = Inr (sc_steps sc)"
    by (auto simp: parse_script_def and_then_Inr linorder_not_less split: json.splits option.splits if_splits)
  with parse_steps_ok [OF this(2)] show ?thesis by simp
qed

definition demo_doc :: json where
  "demo_doc = Obj [(''steps'', Arr [Obj [(''at_ms'', Num (double_int 5)), (''pattern'', Str ''circle'')]])]"

theorem accepted_script_is_well_formed_witness:
  "\<exists>sc. parse_script_text (dump demo_doc) = Some (Inr sc) \<and> length (sc_steps sc) = 1 \<and>
     list_all step_ok (sc_steps sc)"
proof -
  have "parse (dump demo_doc) = Some (Inr demo_doc)"
    using parse_document [of demo_doc] by (simp add: demo_doc_def kMaxDepth_def double_int_def)
  moreover have "length (dump demo_doc) \<le> kMaxScriptBytes"
    by (simp add: demo_doc_def escaped_def escaped_char_def number_text_def double_int_def kMaxScriptBytes_def
        nat_digits.simps quote_char_def backslash_def)
  ultimately have p: "parse_script_text (dump demo_doc) = Some (parse_script demo_doc)"
    by (simp add: parse_script_text_def)
  have "case parse_script demo_doc of Inr sc \<Rightarrow> length (sc_steps sc) = 1 | Inl e \<Rightarrow> False"
    by (simp add: parse_script_def demo_doc_def json_find_def kMaxScriptSteps_def and_then_def parse_step_def
        number_in_def in_limits_def finite_double_def double_val_def double_int_def kMaxScriptMs_def
        SIDE_KEYS_def kKinds_def body_step_def pattern_step_def is_known_pattern_def
        kPatterns_def int_of_double_def)
  then obtain sc where "parse_script_text (dump demo_doc) = Some (Inr sc)" "length (sc_steps sc) = 1"
    using p by (auto split: sum.splits)
  with accepted_script_is_well_formed [OF this(1)] show ?thesis by blast
qed

end
