(* ===== verification/Json_Doubles.thy ===== *)
theory Json_Doubles
  imports Json_Facts Double_Ops
begin

text \<open>
  The numbers of a parsed JSON document are values of \<open>double\<close>: what \<open>strtod\<close> returns is representable,
  and the parser of \<open>sim/src/json.cpp\<close> makes no other number.
\<close>

primrec json_doubles :: "json \<Rightarrow> bool" where
  "json_doubles Null \<longleftrightarrow> True"
| "json_doubles (Bool b) \<longleftrightarrow> True"
| "json_doubles (Num n) \<longleftrightarrow> is_double n"
| "json_doubles (Str s) \<longleftrightarrow> True"
| "json_doubles (Arr vs) \<longleftrightarrow> list_all id (map json_doubles vs)"
| "json_doubles (Obj ms) \<longleftrightarrow> list_all (\<lambda>kv. snd kv) (map (map_prod id json_doubles) ms)"

lemma json_doubles_Arr: "json_doubles (Arr vs) \<longleftrightarrow> (\<forall>v \<in> set vs. json_doubles v)"
  by (auto simp: list_all_iff)

lemma json_doubles_Obj: "json_doubles (Obj ms) \<longleftrightarrow> (\<forall>kv \<in> set ms. json_doubles (snd kv))"
  by (auto simp: list_all_iff)

declare json_doubles.simps(5,6) [simp del] json_doubles_Arr [simp] json_doubles_Obj [simp]

lemma json_find_doubles: "json_find k v = Some x \<Longrightarrow> json_doubles v \<Longrightarrow> json_doubles x"
  by (cases v) (simp_all add: json_find_def, metis map_of_SomeD snd_conv)

lemma double_of_is_double: "0 \<le> q \<Longrightarrow> is_double (double_of s q)"
  by (simp add: double_of_def is_double_def Let_def round53_nonneg)

lemma read_magnitude_nonneg: "read_magnitude_in b isd dv eb el s = Some q \<Longrightarrow> 0 \<le> q"
  by (auto simp: read_magnitude_in_def Let_def rat_power_def split: if_splits)

lemma strtod_is_double: "is_double (strtod t)"
proof -
  have "is_double (D_fin False 0)" by (simp add: is_double_def)
  then show ?thesis
    by (auto simp: strtod_def Let_def double_of_is_double split: option.splits dest: read_magnitude_nonneg)
qed

text \<open>A parser that yields only such documents.\<close>

definition yields_doubles :: "(string \<Rightarrow> json parsed option) \<Rightarrow> bool" where
  "yields_doubles pv \<longleftrightarrow> (\<forall>r v r'. pv r = Some (Inr (v, r')) \<longrightarrow> json_doubles v)"

lemma array_loop_doubles:
  assumes "array_loop pv acc r = Some x" "yields_doubles pv" "\<forall>v \<in> set acc. json_doubles v" "x = Inr (v, r')"
  shows "json_doubles v"
proof -
  have "yields_doubles pv \<longrightarrow> (\<forall>v \<in> set acc. json_doubles v) \<longrightarrow> (\<forall>v r'. x = Inr (v, r') \<longrightarrow> json_doubles v)"
    using assms(1)
  proof (rule array_loop.raw_induct [rotated])
    fix loop pv acc r x
    assume IH: "\<And>pv acc r x. loop pv acc r = Some x \<Longrightarrow>
        yields_doubles pv \<longrightarrow> (\<forall>v \<in> set acc. json_doubles v) \<longrightarrow> (\<forall>v r'. x = Inr (v, r') \<longrightarrow> json_doubles v)"
      and step: "(case pv (skip_ws r) of None \<Rightarrow> None | Some (Inl e) \<Rightarrow> Some (Inl e)
        | Some (Inr (v, r1)) \<Rightarrow>
            (case consume_word '','' (skip_ws r1) of
               Some r2 \<Rightarrow> loop pv (acc @ [v]) r2
             | None \<Rightarrow>
                 (case consume_word '']'' (skip_ws r1) of
                    Some r2 \<Rightarrow> Some (Inr (Arr (acc @ [v]), r2))
                  | None \<Rightarrow> Some (Inl (''expected , or ]'', skip_ws r1))))) = Some x"
    show "yields_doubles pv \<longrightarrow> (\<forall>v \<in> set acc. json_doubles v) \<longrightarrow> (\<forall>v r'. x = Inr (v, r') \<longrightarrow> json_doubles v)"
    proof (intro impI allI)
      fix v r' assume pv: "yields_doubles pv" and acc: "\<forall>v \<in> set acc. json_doubles v" and x: "x = Inr (v, r')"
      obtain w r1 where w: "pv (skip_ws r) = Some (Inr (w, r1))"
        using step x by (auto split: option.splits sum.splits)
      have acc': "\<forall>v \<in> set (acc @ [w]). json_doubles v" using acc pv w by (auto simp: yields_doubles_def)
      show "json_doubles v"
      proof (cases "consume_word '','' (skip_ws r1)")
        case None
        then show ?thesis using step x w acc' by (auto split: option.splits)
      next
        case (Some r2)
        then have "loop pv (acc @ [w]) r2 = Some x" using step w by simp
        from IH [OF this] show ?thesis using pv acc' x by blast
      qed
    qed
  qed
  then show ?thesis using assms by blast
qed

lemma update_doubles:
  "\<forall>kv \<in> set ms. json_doubles (snd kv) \<Longrightarrow> json_doubles v \<Longrightarrow> \<forall>kv \<in> set (AList.update k v ms). json_doubles (snd kv)"
  by (induction ms) auto

lemma object_loop_doubles:
  assumes "object_loop pv acc r = Some x" "yields_doubles pv" "\<forall>kv \<in> set acc. json_doubles (snd kv)" "x = Inr (v, r')"
  shows "json_doubles v"
proof -
  have "yields_doubles pv \<longrightarrow> (\<forall>kv \<in> set acc. json_doubles (snd kv)) \<longrightarrow> (\<forall>v r'. x = Inr (v, r') \<longrightarrow> json_doubles v)"
    using assms(1)
  proof (rule object_loop.raw_induct [rotated])
    fix loop pv acc r x
    assume IH: "\<And>pv acc r x. loop pv acc r = Some x \<Longrightarrow>
        yields_doubles pv \<longrightarrow> (\<forall>kv \<in> set acc. json_doubles (snd kv)) \<longrightarrow> (\<forall>v r'. x = Inr (v, r') \<longrightarrow> json_doubles v)"
      and step: "(case parse_key r of Inl e \<Rightarrow> Some (Inl e)
        | Inr (k, r1) \<Rightarrow>
            (case pv r1 of None \<Rightarrow> None | Some (Inl e) \<Rightarrow> Some (Inl e)
             | Some (Inr (v, r2)) \<Rightarrow>
                 (case consume_word '','' (skip_ws r2) of
                    Some r3 \<Rightarrow> loop pv (AList.update k v acc) r3
                  | None \<Rightarrow>
                      (case consume_word ''}'' (skip_ws r2) of
                         Some r3 \<Rightarrow> Some (Inr (Obj (AList.update k v acc), r3))
                       | None \<Rightarrow> Some (Inl (''expected , or }'', skip_ws r2)))))) = Some x"
    show "yields_doubles pv \<longrightarrow> (\<forall>kv \<in> set acc. json_doubles (snd kv)) \<longrightarrow> (\<forall>v r'. x = Inr (v, r') \<longrightarrow> json_doubles v)"
    proof (intro impI allI)
      fix v r' assume pv: "yields_doubles pv" and acc: "\<forall>kv \<in> set acc. json_doubles (snd kv)" and x: "x = Inr (v, r')"
      obtain k r1 w r2 where k: "parse_key r = Inr (k, r1)" "pv r1 = Some (Inr (w, r2))"
        using step x by (auto split: option.splits sum.splits)
      then have "json_doubles w" using pv by (auto simp: yields_doubles_def)
      then have acc': "\<forall>kv \<in> set (AList.update k w acc). json_doubles (snd kv)" by (rule update_doubles [OF acc])
      show "json_doubles v"
      proof (cases "consume_word '','' (skip_ws r2)")
        case None
        then show ?thesis using step x k acc' by (auto split: option.splits)
      next
        case (Some r3)
        then have "loop pv (AList.update k w acc) r3 = Some x" using step k by simp
        from IH [OF this] show ?thesis using pv acc' x by blast
      qed
    qed
  qed
  then show ?thesis using assms by blast
qed

lemma parse_scalar_doubles: "parse_scalar r = Inr (v, r') \<Longrightarrow> json_doubles v"
  by (auto simp: parse_scalar_def parse_number_def strtod_is_double split: option.splits if_splits sum.splits)

lemma parse_value_doubles: "yields_doubles (parse_value k)"
proof (induction k)
  case (Suc k)
  show ?case unfolding yields_doubles_def
  proof (intro allI impI)
    fix r v r' assume p: "parse_value (Suc k) r = Some (Inr (v, r'))"
    then obtain c t where r: "r = c # t" by (cases r) auto
    consider "c = CHR ''{''" | "c = CHR ''[''" | "c \<noteq> CHR ''{''" "c \<noteq> CHR ''[''" by blast
    then show "json_doubles v"
    proof cases
      case 1
      then show ?thesis using p r object_loop_doubles [OF _ Suc, of "[]"]
        by (auto simp: parse_object_def split: option.splits)
    next
      case 2
      then show ?thesis using p r array_loop_doubles [OF _ Suc, of "[]"]
        by (auto simp: parse_array_def split: option.splits)
    next
      case 3
      then show ?thesis using p r parse_scalar_doubles
        by (auto split: if_splits sum.splits)
    qed
  qed
qed (simp add: yields_doubles_def)

lemma parse_doubles: "parse t = Some (Inr v) \<Longrightarrow> json_doubles v"
  using parse_value_doubles [of "Suc kMaxDepth"]
  by (auto simp: parse_def yields_doubles_def split: option.splits sum.splits prod.splits if_splits simp del: parse_value.simps)

end
