(* ===== verification/Sim_Stick.thy ===== *)
theory Sim_Stick
  imports Sim_Sensor Script Json_Doubles
begin

text \<open>
  What moves the simulated stick, \<open>sim/src/stick.hpp\<close> and \<open>sim/src/stick.cpp\<close>: a hand, a built-in pattern
  or the stick and pattern steps of a script. The position never leaves the unit square.
\<close>

section \<open>Patterns\<close>

definition kPi :: double where "kPi = d_lit (314159265358979323846 / 100000000000000000000)"
definition kCircleMs :: double where "kCircleMs = d_lit 8000"
definition kCalibrateCircleMs :: double where "kCalibrateCircleMs = d_lit 1800"
definition kNudgeStartMs :: double where "kNudgeStartMs = d_lit 50"
definition kNudgeHoldMs :: double where "kNudgeHoldMs = d_lit 400"
definition kNudgeLengthMs :: double where "kNudgeLengthMs = d_lit 600"

definition nudge_pos :: "double \<Rightarrow> double \<Rightarrow> double \<Rightarrow> stick_pos" where
  "nudge_pos dx dy t =
     (if dle kNudgeStartMs t \<and> dlt t (dadd kNudgeStartMs kNudgeHoldMs) then \<lparr>sx = dx, sy = dy\<rparr> else rest_pos)"

definition pattern_length_ms :: "string \<Rightarrow> double" where
  "pattern_length_ms name = (if take 6 name = ''nudge_'' then kNudgeLengthMs else d_lit (- 1))"

definition circle_pos :: "libm \<Rightarrow> double \<Rightarrow> double \<Rightarrow> stick_pos" where
  "circle_pos L t period =
     (let a = ddiv (dmul (dmul (d_lit 2) kPi) t) period in \<lparr>sx = lm_cos L a, sy = lm_sin L a\<rparr>)"

definition wander_pos :: "libm \<Rightarrow> double \<Rightarrow> stick_pos" where
  "wander_pos L t =
     (let s = ddiv t (d_lit 1000);
          x = dadd (dmul (d_lit (7 / 10)) (lm_sin L (dmul (d_lit (9 / 10)) s)))
                (dmul (d_lit (25 / 100)) (lm_sin L (dadd (dmul (d_lit (23 / 10)) s) (d_lit 1))));
          y = dadd (dmul (d_lit (7 / 10)) (lm_sin L (dadd (dmul (d_lit (6 / 10)) s) (d_lit 2))))
                (dmul (d_lit (25 / 100)) (lm_sin L (dmul (d_lit (17 / 10)) s)));
          m = lm_hypot L x y in
      if dlt d_1 m then \<lparr>sx = ddiv x m, sy = ddiv y m\<rparr> else \<lparr>sx = x, sy = y\<rparr>)"

definition pattern_position :: "libm \<Rightarrow> string \<Rightarrow> double \<Rightarrow> double \<Rightarrow> stick_pos" where
  "pattern_position L name t range_t =
     (if name = ''circle'' then circle_pos L t kCircleMs
      else if name = ''calibrate'' then
        if dlt range_t d_0 \<or> dle kCalibrateCircleMs range_t then rest_pos else circle_pos L range_t kCalibrateCircleMs
      else if name = ''nudge_right'' then nudge_pos d_1 d_0 t
      else if name = ''nudge_left'' then nudge_pos (d_lit (- 1)) d_0 t
      else if name = ''nudge_up'' then nudge_pos d_0 d_1 t
      else if name = ''nudge_down'' then nudge_pos d_0 (d_lit (- 1)) t
      else if name = ''wander'' then wander_pos L t
      else rest_pos)"

section \<open>The source\<close>

datatype source_kind = Manual | Pattern | Script_run

record stick_source =
  sk_kind :: source_kind
  sk_manual :: stick_pos
  sk_pattern :: string
  sk_start :: int
  sk_duration :: int
  sk_script :: script
  sk_track :: "nat list"
  sk_range_start :: double

definition init_source :: stick_source where
  "init_source = \<lparr>sk_kind = Manual, sk_manual = rest_pos, sk_pattern = [], sk_start = 0, sk_duration = - 1,
     sk_script = \<lparr>sc_name = [], sc_steps = []\<rparr>, sk_track = [], sk_range_start = d_lit (- 1)\<rparr>"

definition set_manual :: "double \<Rightarrow> double \<Rightarrow> stick_source \<Rightarrow> stick_source" where
  "set_manual x y s =
     s\<lparr>sk_kind := Manual, sk_manual := \<lparr>sx = dclamp x (d_of_int (- 1)) (d_of_int 1),
                                          sy = dclamp y (d_of_int (- 1)) (d_of_int 1)\<rparr>\<rparr>"

definition play_pattern :: "string \<Rightarrow> int \<Rightarrow> int \<Rightarrow> stick_source \<Rightarrow> bool \<times> stick_source" where
  "play_pattern name now duration s =
     (if \<not> is_known_pattern name then (False, s)
      else (True, s\<lparr>sk_kind := Pattern, sk_pattern := name, sk_start := now, sk_duration := duration\<rparr>))"

definition play_script :: "script \<Rightarrow> int \<Rightarrow> stick_source \<Rightarrow> stick_source" where
  "play_script sc now s =
     s\<lparr>sk_kind := Script_run, sk_script := sc, sk_start := now,
       sk_track := filter (\<lambda>i. sp_kind (sc_steps sc ! i) = K_stick \<or> sp_kind (sc_steps sc ! i) = K_pattern)
                     [0 ..< length (sc_steps sc)]\<rparr>"

definition stop_source :: "stick_source \<Rightarrow> stick_source" where
  "stop_source s = s\<lparr>sk_kind := Manual, sk_manual := rest_pos\<rparr>"

definition note_prompt :: "string \<Rightarrow> int \<Rightarrow> stick_source \<Rightarrow> stick_source" where
  "note_prompt t now s =
     (if take 20 t = ''Release the joystick'' then s\<lparr>sk_range_start := d_lit (- 1)\<rparr>
      else if t = ''START!'' then s\<lparr>sk_range_start := d_of_int now\<rparr>
      else s)"

text \<open>The loop of \<open>script_position\<close>: the last step of the track that has begun, and the one after it.\<close>

fun seek :: "int \<Rightarrow> (script_step \<times> script_step option) option \<Rightarrow> script_step list
    \<Rightarrow> (script_step \<times> script_step option) option" where
  "seek t acc [] = acc"
| "seek t acc (s # ss) =
     (if t < sp_at s then acc else seek t (Some (s, case ss of [] \<Rightarrow> None | n # _ \<Rightarrow> Some n)) ss)"

definition pattern_done :: "int \<Rightarrow> string \<Rightarrow> double \<Rightarrow> bool" where
  "pattern_done duration name t =
     (let len = (if 0 \<le> duration then d_of_int duration else pattern_length_ms name) in
      dle d_0 len \<and> dle len t)"

definition script_position :: "libm \<Rightarrow> stick_source \<Rightarrow> int \<Rightarrow> double \<Rightarrow> stick_pos" where
  "script_position L s t range_start =
     (case seek t None (map (\<lambda>i. sc_steps (sk_script s) ! i) (sk_track s)) of
        None \<Rightarrow> rest_pos
      | Some (cur, nxt) \<Rightarrow>
          if sp_kind cur = K_pattern then
            let lt = d_of_int (t - sp_at cur);
                range_t = (if dlt range_start d_0 then d_lit (- 1) else dsub (d_of_int t) range_start) in
            if pattern_done (sp_duration cur) (sp_name cur) lt then rest_pos
            else pattern_position L (sp_name cur) lt range_t
          else
            (case nxt of
               Some n \<Rightarrow>
                 if sp_kind n = K_stick \<and> sp_at cur < sp_at n then
                   let f = ddiv (d_of_int (t - sp_at cur)) (d_of_int (sp_at n - sp_at cur)) in
                   \<lparr>sx = dadd (sp_x cur) (dmul (dsub (sp_x n) (sp_x cur)) f),
                    sy = dadd (sp_y cur) (dmul (dsub (sp_y n) (sp_y cur)) f)\<rparr>
                 else \<lparr>sx = sp_x cur, sy = sp_y cur\<rparr>
             | None \<Rightarrow> \<lparr>sx = sp_x cur, sy = sp_y cur\<rparr>))"

definition source_position :: "libm \<Rightarrow> stick_source \<Rightarrow> int \<Rightarrow> stick_pos" where
  "source_position L s now =
     (case sk_kind s of
        Manual \<Rightarrow> sk_manual s
      | Pattern \<Rightarrow>
          (let t = d_of_int (now - sk_start s);
               range_t = (if dlt (sk_range_start s) d_0 then d_lit (- 1) else dsub (d_of_int now) (sk_range_start s)) in
           if pattern_done (sk_duration s) (sk_pattern s) t then rest_pos
           else pattern_position L (sk_pattern s) t range_t)
      | Script_run \<Rightarrow>
          script_position L s (now - sk_start s)
            (if dlt (sk_range_start s) d_0 then d_lit (- 1) else dsub (sk_range_start s) (d_of_int (sk_start s))))"

record source_info =
  si_kind :: source_kind
  si_name :: string
  si_t_ms :: int
  si_done :: bool

definition source_info_at :: "stick_source \<Rightarrow> int \<Rightarrow> source_info" where
  "source_info_at s now =
     (let t = (if sk_kind s = Manual then 0 else now - sk_start s) in
      case sk_kind s of
        Manual \<Rightarrow> \<lparr>si_kind = Manual, si_name = [], si_t_ms = t, si_done = False\<rparr>
      | Pattern \<Rightarrow> \<lparr>si_kind = Pattern, si_name = sk_pattern s, si_t_ms = t,
          si_done = pattern_done (sk_duration s) (sk_pattern s) (d_of_int t)\<rparr>
      | Script_run \<Rightarrow> \<lparr>si_kind = Script_run, si_name = sc_name (sk_script s), si_t_ms = t,
          si_done = (if sc_steps (sk_script s) \<noteq> [] then sp_at (last (sc_steps (sk_script s))) < t else True)\<rparr>)"

section \<open>The position stays in range\<close>

text \<open>What is used of the mathematical functions: sine and cosine of a finite number are at most 1.\<close>

definition libm_ok :: "libm \<Rightarrow> bool" where
  "libm_ok L \<longleftrightarrow>
     (\<forall>x. is_double x \<and> finite_double x \<longrightarrow> within_abs 1 (lm_sin L x) \<and> within_abs 1 (lm_cos L x)) \<and>
     (\<forall>x y. is_double (lm_hypot L x y))"

definition pos_ok :: "stick_pos \<Rightarrow> bool" where
  "pos_ok p \<longleftrightarrow> within_abs 1 (sx p) \<and> within_abs 1 (sy p)"

definition playable :: "script \<Rightarrow> bool" where
  "playable sc \<longleftrightarrow> list_all (\<lambda>st. time_ok (sp_at st) \<and> within_abs 1 (sp_x st) \<and> within_abs 1 (sp_y st)) (sc_steps sc)"

text \<open>A reading of \<open>now_ms\<close>: nanoseconds in 64 bits, divided by a million.\<close>

definition clock_ms :: "int \<Rightarrow> bool" where
  "clock_ms n \<longleftrightarrow> \<bar>n\<bar> \<le> 2 ^ 44"

definition source_ok :: "stick_source \<Rightarrow> bool" where
  "source_ok s \<longleftrightarrow> pos_ok (sk_manual s) \<and> playable (sk_script s) \<and>
     (\<forall>i \<in> set (sk_track s). i < length (sc_steps (sk_script s))) \<and> within_abs (2 ^ 44) (sk_range_start s) \<and>
     clock_ms (sk_start s)"

lemma d_lit_within: "\<bar>v\<bar> \<le> b \<Longrightarrow> bound_ok b \<Longrightarrow> within_abs b (d_lit v)"
  by (simp add: d_lit_def d_round_within)

lemma d_lit_int: "\<bar>n\<bar> \<le> 2 ^ 53 \<Longrightarrow> d_lit (rat_of_int n) = D_fin (n < 0) (rat_of_int \<bar>n\<bar>)"
  using d_of_int_small [of n] by (simp add: d_lit_def d_of_int_def)

lemma within_0_1 [simp]: "within_abs 1 d_0" "within_abs 1 d_1" "within_abs 1 (d_lit (- 1))" "within_abs 1 (double_int 0)"
proof -
  have "round53 1 = 1" using bound_ok_1 by (simp add: bound_ok_def)
  then show "within_abs 1 d_0" "within_abs 1 d_1" "within_abs 1 (double_int 0)"
    by (auto simp: within_abs_iff d_0_def d_1_def double_int_def)
  show "within_abs 1 (d_lit (- 1))" by (rule d_lit_within) simp_all
qed

lemma pos_ok_rest [simp]: "pos_ok rest_pos"
  by (simp add: pos_ok_def rest_pos_def)

lemma libm_within:
  "libm_ok L \<Longrightarrow> within_abs b x \<Longrightarrow> within_abs 1 (lm_sin L x) \<and> within_abs 1 (lm_cos L x)"
  by (auto simp: libm_ok_def within_abs_def)

lemma bound_ok_quarters [simp]: "bound_ok (3 / 4)" "bound_ok (1 / 4)"
  using round53_exact [of 3 "- int 2"] round53_exact [of 1 "- int 2"]
  unfolding pow2_neg by (simp_all add: bound_ok_def)

lemmas bound_ok_big [simp] =
  bound_ok_pow2 [of 83, simplified] bound_ok_pow2 [of 82, simplified] bound_ok_pow2 [of 80, simplified]
  bound_ok_pow2 [of 64, simplified] bound_ok_pow2 [of 2, simplified] bound_ok_pow2 [of 3, simplified]

lemma circle_pos_ok:
  assumes "libm_ok L" "within_abs (2 ^ 80) t" "period = D_fin s q" "1 \<le> q"
  shows "pos_ok (circle_pos L t period)"
proof -
  have "within_abs 8 (dmul (d_lit 2) kPi)"
    by (rule dmul_within [where a = 2 and b = 4]) (auto simp: kPi_def intro!: d_lit_within bound_ok_pow2 [of 1, simplified])
  then have "within_abs (2 ^ 83) (dmul (dmul (d_lit 2) kPi) t)" by (rule dmul_within [OF _ assms(2)]) simp_all
  then have "within_abs (2 ^ 83) (ddiv (dmul (dmul (d_lit 2) kPi) t) period)"
    by (rule ddiv_within [OF _ assms(3,4)]) simp_all
  from libm_within [OF assms(1) this] show ?thesis by (simp add: circle_pos_def pos_ok_def Let_def)
qed

lemma ddiv_above_1: "within_abs 1 x \<Longrightarrow> is_double m \<Longrightarrow> dlt d_1 m \<Longrightarrow> within_abs 1 (ddiv x m)"
proof (cases m)
  case (D_fin t q)
  assume "within_abs 1 x" "is_double m" "dlt d_1 m"
  then show ?thesis using ddiv_within [of 1 x m t q 1 1] D_fin
    by (auto simp: dlt_def d_1_def double_val_def is_double_def split: if_splits)
qed (auto simp: within_abs_iff ddiv_def dlt_def d_1_def)

lemma wander_pos_ok:
  assumes L: "libm_ok L" and t: "within_abs (2 ^ 80) t"
  shows "pos_ok (wander_pos L t)"
proof -
  have k: "d_lit 1000 = D_fin False 1000" using d_lit_int [of 1000] by simp
  define s where "s = ddiv t (d_lit 1000)"
  have s: "within_abs (2 ^ 80) s" unfolding s_def by (rule ddiv_within [OF t k, of 1]) simp_all
  have arg: "within_abs (2 ^ 83) (dmul (d_lit v) s)" if "\<bar>v\<bar> \<le> 4" for v
    by (rule dmul_within [OF d_lit_within [OF that] s]) simp_all
  have arg4: "within_abs (2 ^ 82) (dmul (d_lit v) s)" if "\<bar>v\<bar> \<le> 4" for v
    by (rule dmul_within [OF d_lit_within [OF that] s]) (simp_all add: bound_ok_pow2)
  have arg2: "within_abs (2 ^ 83) (dadd (dmul (d_lit v) s) (d_lit u))" if "\<bar>v\<bar> \<le> 4" "\<bar>u\<bar> \<le> 4" for v u
    by (rule dadd_within [OF arg4 [OF that(1)] d_lit_within [OF that(2)]]) simp_all
  have amp: "within_abs (3 / 4) (dmul (d_lit (7 / 10)) w)" "within_abs (1 / 4) (dmul (d_lit (25 / 100)) w)"
    if "within_abs 1 w" for w
    by (rule dmul_within [OF d_lit_within [of _ "3 / 4"] that]; simp)
      (rule dmul_within [OF d_lit_within [of _ "1 / 4"] that]; simp)
  have sum: "within_abs 1 (dadd (dmul (d_lit (7 / 10)) (lm_sin L a)) (dmul (d_lit (25 / 100)) (lm_sin L b)))"
    if "within_abs (2 ^ 83) a" "within_abs (2 ^ 83) b" for a b
    by (rule dadd_within [OF amp(1) amp(2)]) (use libm_within [OF L that(1)] libm_within [OF L that(2)] in simp_all)
  note xy = sum [OF arg arg2, of "9 / 10" "23 / 10" 1] sum [OF arg2 arg, of "6 / 10" 2 "17 / 10"]
  then show ?thesis using ddiv_above_1 L
    by (simp add: wander_pos_def Let_def s_def [symmetric] pos_ok_def libm_ok_def)
qed

lemma pattern_position_ok:
  assumes "libm_ok L" "within_abs (2 ^ 80) t" "within_abs (2 ^ 80) range_t"
  shows "pos_ok (pattern_position L name t range_t)"
  using circle_pos_ok [OF assms(1,2), of kCircleMs] circle_pos_ok [OF assms(1,3), of kCalibrateCircleMs]
    wander_pos_ok [OF assms(1,2)] d_lit_int [of 8000] d_lit_int [of 1800]
  by (auto simp: pattern_position_def nudge_pos_def pos_ok_def [of "\<lparr>sx = _, sy = _\<rparr>"] kCircleMs_def kCalibrateCircleMs_def)

lemma seek_begun:
  assumes "sp_at s \<le> t"
  shows "\<exists>c nxt. seek t acc (s # ss) = Some (c, nxt) \<and> c \<in> set (s # ss) \<and> sp_at c \<le> t \<and>
    (\<forall>n. nxt = Some n \<longrightarrow> n \<in> set ss \<and> t < sp_at n)"
  using assms
proof (induction ss arbitrary: s acc)
  case (Cons n ss)
  show ?case
  proof (cases "t < sp_at n")
    case True
    then show ?thesis using Cons.prems by simp
  next
    case False
    define acc1 where "acc1 = Some (s, Some n)"
    have "seek t acc (s # n # ss) = seek t acc1 (n # ss)" using Cons.prems by (simp add: acc1_def)
    then show ?thesis using Cons.IH [of n acc1] False by auto
  qed
qed simp

lemma seek_from_none:
  assumes "seek t None ss = Some (c, nxt)"
  shows "c \<in> set ss \<and> sp_at c \<le> t \<and> (\<forall>n. nxt = Some n \<longrightarrow> n \<in> set ss \<and> t < sp_at n)"
proof (cases ss)
  case (Cons s ss1)
  then have "sp_at s \<le> t" using assms by (auto split: if_splits)
  from seek_begun [OF this, of None ss1] show ?thesis using assms Cons by auto
qed (use assms in simp)

lemma fraction_within:
  assumes "0 \<le> a" "a \<le> b" "0 < b" "b \<le> 2 ^ 53"
  shows "within_abs 1 (ddiv (d_of_int a) (d_of_int b)) \<and> 0 \<le> double_val (ddiv (d_of_int a) (d_of_int b))"
proof -
  have "d_of_int a = D_fin False (rat_of_int a)" "d_of_int b = D_fin False (rat_of_int b)"
    using d_of_int_small [of a] d_of_int_small [of b] assms by simp_all
  moreover have q: "0 \<le> rat_of_int a / rat_of_int b" "rat_of_int a / rat_of_int b \<le> 1"
    using assms by (simp_all add: divide_le_eq_1)
  ultimately have e: "ddiv (d_of_int a) (d_of_int b) = double_of False (rat_of_int a / rat_of_int b)"
    using assms by (simp add: ddiv_def)
  have w: "within_abs 1 (ddiv (d_of_int a) (d_of_int b))" unfolding e by (rule double_of_within [OF q bound_ok_1])
  moreover have "0 \<le> double_val (double_of False (rat_of_int a / rat_of_int b))"
    using round53_nonneg [OF q(1)] by (simp add: double_of_def Let_def double_val_def)
  ultimately show ?thesis unfolding e by simp
qed

lemmas bound_ok_clock [simp] =
  bound_ok_pow2 [of 44, simplified] bound_ok_pow2 [of 45, simplified] bound_ok_pow2 [of 46, simplified]

lemma within_80: "within_abs b x \<Longrightarrow> b \<le> 2 ^ 46 \<Longrightarrow> within_abs (2 ^ 80) x"
  by (rule within_abs_mono, assumption, rule order_trans, assumption) simp

lemma interval_within:
  assumes "clock_ms a" "clock_ms b"
  shows "within_abs (2 ^ 45) (d_of_int (a - b))" "within_abs (2 ^ 80) (d_of_int (a - b))"
proof -
  have "\<bar>a - b\<bar> \<le> 2 ^ 45" using assms by (simp add: clock_ms_def)
  then show "within_abs (2 ^ 45) (d_of_int (a - b))" by (rule d_of_int_within) simp
  then show "within_abs (2 ^ 80) (d_of_int (a - b))" by (rule within_80) simp
qed

lemma range_time_within:
  assumes "within_abs (2 ^ 45) x" "within_abs (2 ^ 45) y"
  shows "within_abs (2 ^ 80) (if dlt y d_0 then d_lit (- 1) else dsub x y)"
proof -
  have "within_abs (2 ^ 46) (dsub x y)" by (rule dsub_within [OF assms]) simp_all
  moreover have "within_abs (2 ^ 80) (d_lit (- 1))" by (rule within_80 [of 1]) simp_all
  ultimately show ?thesis using within_80 by auto
qed

lemma script_position_ok:
  assumes L: "libm_ok L" and s: "source_ok s" and now: "clock_ms now" "clock_ms start"
    and r: "within_abs (2 ^ 45) range_start"
  shows "pos_ok (script_position L s (now - start) range_start)"
proof -
  define ss where "ss = map (\<lambda>i. sc_steps (sk_script s) ! i) (sk_track s)"
  have ok: "time_ok (sp_at c) \<and> within_abs 1 (sp_x c) \<and> within_abs 1 (sp_y c)" if "c \<in> set ss" for c
    using that s by (auto simp: ss_def source_ok_def playable_def list_all_iff)
  show ?thesis
  proof (cases "seek (now - start) None ss")
    case None
    then show ?thesis by (simp add: script_position_def ss_def [symmetric])
  next
    case (Some p)
    obtain c nxt where p: "p = (c, nxt)" by fastforce
    note f = seek_from_none [OF Some [unfolded p]]
    have c: "c \<in> set ss" "sp_at c \<le> now - start" using f by auto
    note cok = ok [OF c(1)]
    show ?thesis
    proof (cases "sp_kind c = K_pattern")
      case True
      have d: "\<bar>now - start - sp_at c\<bar> \<le> 2 ^ 46"
        using now cok by (auto simp: clock_ms_def time_ok_def kMaxScriptMs_def)
      have lt: "within_abs (2 ^ 80) (d_of_int (now - start - sp_at c))"
        using d_of_int_within [OF d] by (intro within_80 [of "2 ^ 46"]) simp_all
      show ?thesis using pattern_position_ok [OF L lt range_time_within [OF interval_within(1) [OF now] r]] True
        by (simp add: script_position_def ss_def [symmetric] Some p Let_def)
    next
      case False
      have mid: "pos_ok \<lparr>sx = dadd (sp_x c) (dmul (dsub (sp_x n) (sp_x c)) f),
          sy = dadd (sp_y c) (dmul (dsub (sp_y n) (sp_y c)) f)\<rparr>"
        if n: "nxt = Some n" "sp_at c < sp_at n"
          and fd: "f = ddiv (d_of_int (now - start - sp_at c)) (d_of_int (sp_at n - sp_at c))" for n f
      proof -
        have nn: "n \<in> set ss" "now - start < sp_at n" using f n(1) by auto
        have "sp_at n - sp_at c \<le> 2 ^ 53" using ok [OF nn(1)] cok by (auto simp: time_ok_def kMaxScriptMs_def)
        then have "within_abs 1 f \<and> 0 \<le> double_val f"
          unfolding fd using nn(2) c(2) n(2) by (intro fraction_within) auto
        then show ?thesis using interpolation_within cok ok [OF nn(1)] by (simp add: pos_ok_def)
      qed
      have "pos_ok \<lparr>sx = sp_x c, sy = sp_y c\<rparr>" using cok by (simp add: pos_ok_def)
      then show ?thesis using mid False
        by (auto simp: script_position_def ss_def [symmetric] Some p Let_def split: option.splits)
    qed
  qed
qed

lemma source_position_ok:
  assumes L: "libm_ok L" and s: "source_ok s" and now: "clock_ms now"
  shows "pos_ok (source_position L s now)"
proof -
  have st: "clock_ms (sk_start s)" and rs: "within_abs (2 ^ 44) (sk_range_start s)" and m: "pos_ok (sk_manual s)"
    using s by (auto simp: source_ok_def)
  have rs45: "within_abs (2 ^ 45) (sk_range_start s)" using rs by (rule within_abs_mono) simp
  have n45: "within_abs (2 ^ 45) (d_of_int now)" using interval_within(1) [OF now, of 0] by (simp add: clock_ms_def)
  have "within_abs (2 ^ 44) (d_of_int (sk_start s))" using st by (intro d_of_int_within) (simp_all add: clock_ms_def)
  with rs have "within_abs (2 ^ 45) (dsub (sk_range_start s) (d_of_int (sk_start s)))"
    by (rule dsub_within) simp_all
  moreover have "within_abs (2 ^ 45) (d_lit (- 1))" by (rule within_abs_mono [of 1]) simp_all
  ultimately have "within_abs (2 ^ 45) (if dlt (sk_range_start s) d_0 then d_lit (- 1)
      else dsub (sk_range_start s) (d_of_int (sk_start s)))" by simp
  note sp = script_position_ok [OF L s now st this]
  note pp = pattern_position_ok [OF L interval_within(2) [OF now st] range_time_within [OF n45 rs45]]
  show ?thesis using sp pp m by (cases "sk_kind s") (simp_all add: source_position_def Let_def)
qed

section \<open>A run of the source\<close>

datatype stick_op = Hand double double | Play string int int | Run script int | Stop_it | Prompted string int

definition source_step :: "stick_op \<Rightarrow> stick_source \<Rightarrow> stick_source" where
  "source_step p s =
     (case p of Hand x y \<Rightarrow> set_manual x y s | Play name now d \<Rightarrow> snd (play_pattern name now d s)
      | Run sc now \<Rightarrow> play_script sc now s | Stop_it \<Rightarrow> stop_source s | Prompted t now \<Rightarrow> note_prompt t now s)"

definition stick_op_ok :: "stick_op \<Rightarrow> bool" where
  "stick_op_ok p =
     (case p of Hand x y \<Rightarrow> is_double x \<and> finite_double x \<and> is_double y \<and> finite_double y
      | Play name now d \<Rightarrow> clock_ms now | Run sc now \<Rightarrow> playable sc \<and> clock_ms now
      | Stop_it \<Rightarrow> True | Prompted t now \<Rightarrow> clock_ms now)"

lemma source_step_ok: "source_ok s \<Longrightarrow> stick_op_ok p \<Longrightarrow> source_ok (source_step p s)"
proof (cases p)
  case (Prompted t now)
  assume s: "source_ok s" "stick_op_ok p"
  then have "within_abs (2 ^ 44) (d_of_int now)" using Prompted
    by (intro d_of_int_within) (simp_all add: stick_op_ok_def clock_ms_def)
  moreover have "within_abs (2 ^ 44) (d_lit (- 1))" by (rule within_abs_mono [of 1]) simp_all
  ultimately show ?thesis using s Prompted by (simp add: source_step_def note_prompt_def source_ok_def)
qed (auto simp: source_step_def stick_op_ok_def set_manual_def play_pattern_def play_script_def stop_source_def
    source_ok_def pos_ok_def dclamp_within rest_pos_def)

lemma init_source_ok: "source_ok init_source"
proof -
  have "within_abs (2 ^ 44) (d_lit (- 1))" by (rule within_abs_mono [of 1]) simp_all
  then show ?thesis by (simp add: init_source_def source_ok_def playable_def clock_ms_def)
qed

lemma source_run_ok:
  "source_ok s \<Longrightarrow> list_all stick_op_ok ops \<Longrightarrow> source_ok (fold source_step ops s)"
  by (induction ops arbitrary: s) (simp_all add: source_step_ok)

text \<open>C40: Whatever drives the simulated stick - the page, a pattern or a script - and whatever was asked of
  it before, its position is a pair of numbers between -1 and 1, in spite of the rounding of the
  interpolation between two keyframes.\<close>

theorem stick_stays_in_range:
  assumes "libm_ok L" "list_all stick_op_ok ops" "clock_ms now"
  shows "within_abs 1 (sx (source_position L (fold source_step ops init_source) now)) \<and>
    within_abs 1 (sy (source_position L (fold source_step ops init_source) now))"
  using source_position_ok [OF assms(1) source_run_ok [OF init_source_ok assms(2)] assms(3)]
  by (simp add: pos_ok_def)

definition demo_libm :: libm where
  "demo_libm = \<lparr>lm_sin = (\<lambda>x. d_0), lm_cos = (\<lambda>x. d_1), lm_log = (\<lambda>x. d_0), lm_sqrt = (\<lambda>x. d_0),
     lm_hypot = (\<lambda>x y. d_1)\<rparr>"

definition demo_script :: script where
  "demo_script = \<lparr>sc_name = ''demo'', sc_steps =
     [init_step\<lparr>sp_at := 100, sp_x := d_lit (- 1)\<rparr>, init_step\<lparr>sp_at := 400, sp_x := d_1, sp_y := d_1\<rparr>]\<rparr>"

theorem stick_stays_in_range_witness:
  "within_abs 1 (sx (source_position demo_libm
     (fold source_step [Hand (d_lit 1) d_0, Run demo_script 1000] init_source) 1200))"
proof -
  have "libm_ok demo_libm"
    using within_0_1 by (simp add: libm_ok_def demo_libm_def within_abs_def)
  moreover have "list_all stick_op_ok [Hand (d_lit 1) d_0, Run demo_script 1000]"
  proof -
    have "is_double d_0" "finite_double d_0" "is_double (d_lit 1)" "finite_double (d_lit 1)"
      using within_0_1(1) d_lit_within [of 1 1] by (simp_all add: within_abs_def)
    then show ?thesis
      by (simp add: stick_op_ok_def playable_def demo_script_def init_step_def time_ok_def kMaxScriptMs_def clock_ms_def)
  qed
  moreover have "clock_ms 1200" by (simp add: clock_ms_def)
  ultimately show ?thesis using stick_stays_in_range by blast
qed

section \<open>Accepted scripts are playable\<close>

lemma number_in_unit:
  "number_in v i w (double_int (- 1)) (double_int 1) = Inr x \<Longrightarrow> json_doubles v \<Longrightarrow> within_abs 1 x"
  by (auto simp: number_in_def in_limits_def within_abs_def double_int_def double_val_def abs_le_iff
      split: json.splits if_splits)

lemma pick_body_member:
  "pick_body i ms b = Inr kv \<Longrightarrow> kv \<in> set ms \<or> b = Some kv"
  by (induction i ms b rule: pick_body.induct) (auto split: option.splits if_splits)

text \<open>Only a stick step sets the position.\<close>

definition same_pos :: "script_step \<Rightarrow> script_step \<Rightarrow> bool" where
  "same_pos a b \<longleftrightarrow> sp_x a = sp_x b \<and> sp_y a = sp_y b"

lemma action_value_pos: "action_value i s st = Inr st' \<Longrightarrow> same_pos st' st"
  by (auto simp: action_value_def deadzone_value_def and_then_Inr same_pos_def Let_def
      split: if_splits option.splits json.splits)

lemma body_step_pos:
  assumes "body_step i s key body st = Inr st'" "json_doubles body" "within_abs 1 (sp_x st)" "within_abs 1 (sp_y st)"
  shows "within_abs 1 (sp_x st') \<and> within_abs 1 (sp_y st')"
proof (cases "key = ''stick''")
  case True
  then have b: "stick_step i body st = Inr st'" using assms(1) by (simp add: body_step_def)
  then obtain a c where ac: "body = Arr [a, c]"
    by (auto simp: stick_step_def split: json.splits list.splits)
  then obtain x y where "number_in a i ''stick x'' (double_int (- 1)) (double_int 1) = Inr x"
    "number_in c i ''stick y'' (double_int (- 1)) (double_int 1) = Inr y" "st' = st\<lparr>sp_kind := K_stick, sp_x := x, sp_y := y\<rparr>"
    using b by (auto simp: stick_step_def and_then_Inr)
  then show ?thesis using number_in_unit assms(2) ac by auto
next
  case False
  have "same_pos st' st"
  proof -
    have "same_pos st' (st\<lparr>sp_kind := K_action, sp_name := n\<rparr>)"
      if "action_value i s (st\<lparr>sp_kind := K_action, sp_name := n\<rparr>) = Inr st'" for n
      using action_value_pos [OF that] .
    moreover have "same_pos st' (st\<lparr>sp_kind := K_action, sp_name := n, sp_reply := Some r\<rparr>)"
      if "action_value i s (st\<lparr>sp_kind := K_action, sp_name := n, sp_reply := Some r\<rparr>) = Inr st'" for n r
      using action_value_pos [OF that] .
    ultimately show ?thesis using assms(1) False
      by (auto simp: body_step_def pattern_step_def fault_step_def next_image_step_def action_step_def
          and_then_Inr same_pos_def Let_def split: if_splits json.splits option.splits)
  qed
  then show ?thesis using assms by (simp add: same_pos_def)
qed

lemma parse_step_playable:
  assumes "parse_step s i = Inr st" "json_doubles s"
  shows "within_abs 1 (sp_x st) \<and> within_abs 1 (sp_y st)"
proof -
  obtain ms where ms: "s = Obj ms" using assms(1) by (auto simp: parse_step_def split: json.splits)
  then obtain n key body where b: "pick_body i ms None = Inr (key, body)"
    "body_step i s key body (init_step\<lparr>sp_at := int_of_double n\<rparr>) = Inr st"
    using assms(1) by (auto simp: parse_step_def and_then_Inr split: option.splits)
  have "json_doubles body" using pick_body_member [OF b(1)] assms(2) ms by auto
  from body_step_pos [OF b(2) this] show ?thesis by (simp add: init_step_def)
qed

lemma parse_steps_playable:
  "parse_steps i prev vs = Inr sts \<Longrightarrow> \<forall>v \<in> set vs. json_doubles v \<Longrightarrow>
   \<forall>st \<in> set sts. within_abs 1 (sp_x st) \<and> within_abs 1 (sp_y st)"
proof (induction i prev vs arbitrary: sts rule: parse_steps.induct)
  case (2 i prev v vs)
  then obtain st sts1 where h: "parse_step v i = Inr st" "\<not> sp_at st < prev"
    "parse_steps (i + 1) (sp_at st) vs = Inr sts1" "sts = st # sts1"
    by (auto simp: and_then_Inr split: if_splits)
  from 2(1) [OF h(2,3)] parse_step_playable [OF h(1)] 2(3) h(4) show ?case by auto
qed simp

lemma accepted_script_is_playable:
  assumes "parse_script doc = Inr sc" "json_doubles doc"
  shows "playable sc"
proof -
  obtain ms vs where d: "doc = Obj ms" "json_find ''steps'' doc = Some (Arr vs)"
    "parse_steps 0 0 vs = Inr (sc_steps sc)"
    using assms(1) by (auto simp: parse_script_def and_then_Inr split: json.splits option.splits if_splits)
  have vs: "\<forall>v \<in> set vs. json_doubles v" using json_find_doubles [OF d(2) assms(2)] by simp
  show ?thesis
    using parse_steps_playable [OF d(3) vs] parse_steps_ok [OF d(3)]
    by (auto simp: playable_def list_all_iff step_ok_def)
qed

end
