(* ===== verification/Flash_File.thy ===== *)
theory Flash_File
  imports Ota_Slots Float_Text
begin

text \<open>
  The saved state of the simulated flash, \<open>save_locked\<close> and \<open>load_locked\<close> of
  \<open>sim/stubs/sim_flash.hpp\<close>: a line per field. A board comes back from its file with the same slots,
  provided no text in a descriptor holds a newline; one that does rewrites the fields after it.
\<close>

section \<open>Writing\<close>

text \<open>A field of the descriptor as C text: the bytes up to the first zero.\<close>

definition c_string :: "bytes \<Rightarrow> string" where
  "c_string bs = map (\<lambda>b. char_of (unat b)) (takeWhile (\<lambda>b. b \<noteq> 0) bs)"

definition desc_field :: "nat \<Rightarrow> nat \<Rightarrow> app_desc \<Rightarrow> string" where
  "desc_field off n d = c_string (take n (drop off d))"

definition state_text :: "img_state \<Rightarrow> string" where
  "state_text s = (case s of IMG_NEW \<Rightarrow> ''0'' | IMG_PENDING_VERIFY \<Rightarrow> ''1'' | IMG_VALID \<Rightarrow> ''2''
     | IMG_INVALID \<Rightarrow> ''3'' | IMG_ABORTED \<Rightarrow> ''4'' | IMG_UNDEFINED \<Rightarrow> ''-1'')"

definition flag_text :: "bool \<Rightarrow> string" where
  "flag_text b = (if b then ''1'' else ''0'')"

definition slot_name :: "nat \<Rightarrow> string" where
  "slot_name i = (if i = 0 then ''slot0.'' else ''slot1.'')"

definition slot_entries :: "nat \<Rightarrow> slot \<Rightarrow> (string \<times> string) list" where
  "slot_entries i s =
     [(slot_name i @ ''has'', flag_text (has_image s)),
      (slot_name i @ ''native'', flag_text (native s)),
      (slot_name i @ ''partial'', flag_text (partial s)),
      (slot_name i @ ''state'', state_text (sl_state s)),
      (slot_name i @ ''behavior'', next_image_name (behavior s)),
      (slot_name i @ ''version'', desc_field 16 32 (sl_desc s)),
      (slot_name i @ ''project'', desc_field 48 32 (sl_desc s)),
      (slot_name i @ ''date'', desc_field 96 16 (sl_desc s)),
      (slot_name i @ ''time'', desc_field 80 16 (sl_desc s)),
      (slot_name i @ ''desc'', desc_to_hex (sl_desc s))]"

definition flash_entries :: "flash \<Rightarrow> (string \<times> string) list" where
  "flash_entries f =
     [(''running'', nat_digits (running f)), (''boot'', nat_digits (boot_slot f)),
      (''next_image'', next_image_name (fl_next_image f))]
     @ slot_entries 0 (slots f 0) @ slot_entries 1 (slots f 1)"

definition saved_text :: "flash \<Rightarrow> string" where
  "saved_text f = unlines (map (\<lambda>(k, t). k @ ''='' @ t) (flash_entries f))"

section \<open>Reading\<close>

fun kv_lines :: "string list \<Rightarrow> (string \<Rightarrow> string option) \<Rightarrow> string \<Rightarrow> string option" where
  "kv_lines [] m = m"
| "kv_lines (l # ls) m =
     (case split_at (CHR ''='') l of None \<Rightarrow> kv_lines ls m | Some (k, v) \<Rightarrow> kv_lines ls (m(k \<mapsto> v)))"

text \<open>\<open>std::stoi\<close>; \<open>None\<close>: it throws.\<close>

definition stoi :: "string \<Rightarrow> int option" where
  "stoi t =
     (let s = dropWhile is_space t;
          neg = (s \<noteq> [] \<and> hd s = CHR ''-'');
          u = (if s \<noteq> [] \<and> (hd s = CHR ''-'' \<or> hd s = CHR ''+'') then tl s else s);
          ds = takeWhile is_digit u;
          n = (if neg then - int (digits_val ds) else int (digits_val ds)) in
      if ds = [] \<or> n < - int_max - 1 \<or> int_max < n then None else Some n)"

definition geti :: "(string \<Rightarrow> string option) \<Rightarrow> string \<Rightarrow> int \<Rightarrow> int" where
  "geti m k d = (case m k of None \<Rightarrow> d | Some t \<Rightarrow> (case stoi t of None \<Rightarrow> d | Some n \<Rightarrow> n))"

definition state_of_code :: "int \<Rightarrow> img_state option" where
  "state_of_code n = map_of [(0, IMG_NEW), (1, IMG_PENDING_VERIFY), (2, IMG_VALID), (3, IMG_INVALID),
     (4, IMG_ABORTED), (-1, IMG_UNDEFINED)] n"

definition put_field :: "nat \<Rightarrow> nat \<Rightarrow> string option \<Rightarrow> app_desc \<Rightarrow> app_desc" where
  "put_field off n t d =
     (case t of None \<Rightarrow> d | Some s \<Rightarrow> take off d @ copy_str n s @ drop (off + n) d)"

definition load_desc :: "(string \<Rightarrow> string option) \<Rightarrow> string \<Rightarrow> app_desc" where
  "load_desc m p =
     (let d = put_field 80 16 (m (p @ ''time'')) (put_field 96 16 (m (p @ ''date''))
           (make_desc (case m (p @ ''version'') of None \<Rightarrow> [] | Some v \<Rightarrow> v)
              (case m (p @ ''project'') of None \<Rightarrow> [] | Some v \<Rightarrow> v))) in
      case m (p @ ''desc'') of None \<Rightarrow> d
      | Some h \<Rightarrow> (case desc_from_hex h of None \<Rightarrow> d | Some full \<Rightarrow> full))"

definition load_next_image :: "string option \<Rightarrow> next_image \<Rightarrow> next_image" where
  "load_next_image t b = (case t of None \<Rightarrow> b | Some s \<Rightarrow> (case parse_next_image s of None \<Rightarrow> b | Some c \<Rightarrow> c))"

text \<open>\<open>None\<close>: a state that is none of the enumeration's.\<close>

definition load_slot :: "(string \<Rightarrow> string option) \<Rightarrow> nat \<Rightarrow> slot \<Rightarrow> slot option" where
  "load_slot m i s =
     map_option (\<lambda>st. s\<lparr>has_image := (geti m (slot_name i @ ''has'') 0 \<noteq> 0),
         native := (geti m (slot_name i @ ''native'') 0 \<noteq> 0),
         partial := (geti m (slot_name i @ ''partial'') 0 \<noteq> 0), sl_state := st,
         behavior := load_next_image (m (slot_name i @ ''behavior'')) (behavior s),
         sl_desc := load_desc m (slot_name i)\<rparr>)
       (state_of_code (geti m (slot_name i @ ''state'') (- 1)))"

datatype load_outcome = No_saved_state | Loaded flash | Unnamed_state

text \<open>What the fields of the file make of the flash as it is.\<close>

definition load_fields :: "(string \<Rightarrow> string option) \<Rightarrow> flash \<Rightarrow> load_outcome" where
  "load_fields m f =
     (let run = (if geti m ''running'' 0 = 1 then 1 else 0);
          bt = (if geti m ''boot'' (int run) = 1 then 1 else 0) in
      case (load_slot m 0 (slots f 0), load_slot m 1 (slots f 1)) of
        (Some s0, Some s1) \<Rightarrow>
          Loaded (f\<lparr>running := run, boot_slot := bt,
            fl_next_image := load_next_image (m ''next_image'') (fl_next_image f),
            slots := (slots f)(0 := s0, 1 := s1)\<rparr>)
      | _ \<Rightarrow> Unnamed_state)"

definition load_flash :: "string option \<Rightarrow> flash \<Rightarrow> load_outcome" where
  "load_flash content f =
     (case content of None \<Rightarrow> No_saved_state
      | Some t \<Rightarrow>
          let m = kv_lines (getlines t) Map.empty in
          if m ''running'' = None then No_saved_state else load_fields m f)"

definition refresh_native :: "flash \<Rightarrow> flash" where
  "refresh_native f =
     f\<lparr>slots := (\<lambda>i. let s = slots f i in
         if i < 2 \<and> native s \<and> has_image s
         then s\<lparr>sl_desc := make_desc (native_version f) ''omega_stick''\<rparr> else s)\<rparr>"

text \<open>\<open>load_or_format\<close>; no content when the path is empty or the file cannot be opened.\<close>

definition load_or_format :: "string option \<Rightarrow> flash \<Rightarrow> flash option" where
  "load_or_format content f =
     (case load_flash content f of
        No_saved_state \<Rightarrow> Some (refresh_native (format_flash (native_version f)))
      | Loaded g \<Rightarrow> Some (refresh_native g)
      | Unnamed_state \<Rightarrow> None)"

definition set_next_image :: "next_image \<Rightarrow> flash \<Rightarrow> flash" where
  "set_next_image b f = f\<lparr>fl_next_image := b\<rparr>"

section \<open>A board comes back from its file\<close>

lemma kv_lines_entries:
  assumes "\<forall>(k, t) \<in> set es. CHR ''='' \<notin> set k"
  shows "kv_lines (map (\<lambda>(k, t). k @ ''='' @ t) es) m = m ++ map_of (rev es)"
  using assms
proof (induction es arbitrary: m)
  case (Cons e es)
  obtain k t where e: "e = (k, t)" by fastforce
  have "split_at (CHR ''='') (k @ ''='' @ t) = Some (k, t)"
    using Cons.prems by (simp add: e split_at_append)
  then have "kv_lines (map (\<lambda>(k, t). k @ ''='' @ t) (e # es)) m =
      kv_lines (map (\<lambda>(k, t). k @ ''='' @ t) es) (m(k \<mapsto> t))" by (simp add: e)
  with Cons show ?case by (simp add: e map_add_assoc [symmetric])
qed simp

text \<open>Texts that stay on their line.\<close>

definition one_line :: "slot \<Rightarrow> bool" where
  "one_line s \<longleftrightarrow> list_all (\<lambda>(off, n). newline \<notin> set (desc_field off n (sl_desc s))) [(16, 32), (48, 32), (96, 16), (80, 16)]"

lemma hex_digit_line: "n < 16 \<Longrightarrow> hex_digit n \<noteq> newline"
proof
  assume "n < 16" "hex_digit n = newline"
  moreover have "nibble newline = None" by (simp add: nibble_def newline_def)
  ultimately show False using nibble_hex [of n] by simp
qed

lemma desc_to_hex_line: "newline \<notin> set (desc_to_hex d)"
  using hex_digit_line [OF high_nibble, THEN not_sym] hex_digit_line [OF low_nibble, THEN not_sym]
  by (induction d) (simp_all add: desc_to_hex_def)

lemma nat_digits_line: "newline \<notin> set (nat_digits n)"
  using nat_digits_digits not_digit_chars by blast

lemma next_image_line: "newline \<notin> set (next_image_name b)"
  by (cases b) (simp_all add: next_image_name_def newline_def)

lemma state_line: "newline \<notin> set (state_text s)"
  by (cases s) (simp_all add: state_text_def newline_def)

lemma flag_lines: "newline \<notin> set (flag_text c)" "newline \<notin> set (slot_name i)"
  by (simp_all add: flag_text_def slot_name_def newline_def)

lemma entries_lines:
  assumes "one_line (slots f 0)" "one_line (slots f 1)" "(k, t) \<in> set (flash_entries f)"
  shows "CHR ''='' \<notin> set k" "newline \<notin> set (k @ ''='' @ t)"
proof -
  have "CHR ''='' \<notin> set k \<and> newline \<notin> set k"
    using assms(3) by (auto simp: flash_entries_def slot_entries_def newline_def slot_name_def)
  moreover have "newline \<notin> set t"
    using assms nat_digits_line next_image_line state_line flag_lines(1) desc_to_hex_line
    by (auto simp: flash_entries_def slot_entries_def one_line_def)
  ultimately show "CHR ''='' \<notin> set k" "newline \<notin> set (k @ ''='' @ t)" by (simp_all add: newline_def)
qed

lemma saved_fields:
  assumes "one_line (slots f 0)" "one_line (slots f 1)"
  shows "kv_lines (getlines (saved_text f)) Map.empty = map_of (rev (flash_entries f))"
proof -
  have "newline \<notin> set l" if l: "l \<in> set (map (\<lambda>(k, t). k @ ''='' @ t) (flash_entries f))" for l
  proof -
    obtain k t where "(k, t) \<in> set (flash_entries f)" "l = k @ ''='' @ t" using l by auto
    then show ?thesis using entries_lines(2) [OF assms] by blast
  qed
  then have "getlines (saved_text f) = map (\<lambda>(k, t). k @ ''='' @ t) (flash_entries f)"
    unfolding saved_text_def by (intro getlines_unlines) blast
  moreover have "\<forall>(k, t) \<in> set (flash_entries f). CHR ''='' \<notin> set k"
    using entries_lines(1) [OF assms] by blast
  from kv_lines_entries [OF this, of Map.empty]
  have "kv_lines (map (\<lambda>(k, t). k @ ''='' @ t) (flash_entries f)) Map.empty = map_of (rev (flash_entries f))"
    by (simp only: empty_map_add)
  ultimately show ?thesis by (simp only:)
qed

lemma stoi_texts:
  "stoi ''0'' = Some 0" "stoi ''1'' = Some 1" "stoi ''2'' = Some 2" "stoi ''3'' = Some 3"
  "stoi ''4'' = Some 4" "stoi ''-1'' = Some (- 1)"
  by code_simp+

lemma geti_flag: "m k = Some (flag_text b) \<Longrightarrow> (geti m k 0 \<noteq> 0) = b"
  by (simp add: geti_def flag_text_def stoi_texts)

lemma geti_state: "m k = Some (state_text s) \<Longrightarrow> state_of_code (geti m k d) = Some s"
  by (cases s) (simp_all add: geti_def state_text_def stoi_texts state_of_code_def)

lemma small_digits: "nat_digits 0 = ''0''" "nat_digits 1 = ''1''"
  by code_simp+

lemma geti_slot: "m k = Some (nat_digits i) \<Longrightarrow> i < 2 \<Longrightarrow> (if geti m k d = 1 then 1 else 0) = i"
  using less_2 [of i] by (auto simp: geti_def small_digits small_digits(2) [simplified One_nat_def] stoi_texts)

lemma parse_next_image_name: "parse_next_image (next_image_name b) = Some b"
  by (cases b) (simp_all add: parse_next_image_def next_image_name_def)

text \<open>A descriptor an image can have: 256 bytes, the magic word, texts that end.\<close>

definition desc_ok :: "app_desc \<Rightarrow> bool" where
  "desc_ok d \<longleftrightarrow> length d = 256 \<and> le32 d = kAppDescMagic \<and> terminate_strings d = d"

lemma load_desc_saved: "m (p @ ''desc'') = Some (desc_to_hex d) \<Longrightarrow> desc_ok d \<Longrightarrow> load_desc m p = d"
  by (simp add: load_desc_def Let_def desc_ok_def desc_from_hex_def desc_to_hex_length bytes_from_to_hex)

text \<open>Two slots a client cannot tell apart.\<close>

definition same_slot :: "slot \<Rightarrow> slot \<Rightarrow> bool" where
  "same_slot s t \<longleftrightarrow> has_image s = has_image t \<and> native s = native t \<and> partial s = partial t \<and>
     sl_state s = sl_state t \<and> behavior s = behavior t \<and> (has_image s \<longrightarrow> sl_desc s = sl_desc t)"

lemma load_slot_saved:
  assumes "map_of (slot_entries i s) \<subseteq>\<^sub>m m" "has_image s \<longrightarrow> desc_ok (sl_desc s)"
  shows "\<exists>t. load_slot m i s0 = Some t \<and> same_slot s t \<and> sl_label t = sl_label s0"
proof -
  have m: "m k = Some t" if "map_of (slot_entries i s) k = Some t" for k t
    using assms(1) that by (metis domI map_le_def)
  have "m (slot_name i @ ''has'') = Some (flag_text (has_image s))"
    "m (slot_name i @ ''native'') = Some (flag_text (native s))"
    "m (slot_name i @ ''partial'') = Some (flag_text (partial s))"
    "m (slot_name i @ ''state'') = Some (state_text (sl_state s))"
    "m (slot_name i @ ''behavior'') = Some (next_image_name (behavior s))"
    "m (slot_name i @ ''desc'') = Some (desc_to_hex (sl_desc s))"
    by (rule m, simp add: slot_entries_def)+
  then show ?thesis
    using assms(2)
    by (simp add: load_slot_def geti_flag geti_state load_next_image_def parse_next_image_name
        same_slot_def load_desc_saved)
qed

lemma entries_maps:
  "map_of (slot_entries 0 (slots f 0)) \<subseteq>\<^sub>m map_of (rev (flash_entries f))"
  "map_of (slot_entries 1 (slots f 1)) \<subseteq>\<^sub>m map_of (rev (flash_entries f))"
  "map_of (rev (flash_entries f)) ''running'' = Some (nat_digits (running f))"
  "map_of (rev (flash_entries f)) ''boot'' = Some (nat_digits (boot_slot f))"
  "map_of (rev (flash_entries f)) ''next_image'' = Some (next_image_name (fl_next_image f))"
  by (auto simp: flash_entries_def slot_entries_def slot_name_def map_le_def)

text \<open>C39: A board comes back from its saved state: if no text in a descriptor holds a newline and the descriptor of
  each slot with an image is well formed (\<open>desc_ok\<close>), loading the file gives the same running slot, boot slot, next image and slots, down to every byte of the descriptor
  of an image.\<close>

theorem flash_file_round_trip:
  assumes "running f < 2" "boot_slot f < 2" "one_line (slots f 0)" "one_line (slots f 1)"
    "has_image (slots f 0) \<longrightarrow> desc_ok (sl_desc (slots f 0))"
    "has_image (slots f 1) \<longrightarrow> desc_ok (sl_desc (slots f 1))"
  shows "\<exists>g. load_flash (Some (saved_text f)) f0 = Loaded g \<and> running g = running f \<and>
    boot_slot g = boot_slot f \<and> fl_next_image g = fl_next_image f \<and>
    same_slot (slots f 0) (slots g 0) \<and> same_slot (slots f 1) (slots g 1)"
proof -
  define m where "m = map_of (rev (flash_entries f))"
  have m: "kv_lines (getlines (saved_text f)) Map.empty = m"
    unfolding m_def by (rule saved_fields [OF assms(3,4)])
  note e = entries_maps [of f, folded m_def]
  obtain s0 where s0: "load_slot m 0 (slots f0 0) = Some s0" "same_slot (slots f 0) s0"
    using load_slot_saved [OF e(1) assms(5)] by blast
  obtain s1 where s1: "load_slot m 1 (slots f0 1) = Some s1" "same_slot (slots f 1) s1"
    using load_slot_saved [OF e(2) assms(6)] by blast
  have "(if geti m ''running'' d = 1 then 1 else 0) = running f"
    "(if geti m ''boot'' d = 1 then 1 else 0) = boot_slot f" for d
    by (rule geti_slot, fact e(3), fact assms(1), rule geti_slot, fact e(4), fact assms(2))
  then show ?thesis
    using s0 s1 e(3,5)
    by (simp add: load_flash_def m Let_def load_fields_def load_next_image_def parse_next_image_name)
qed

definition two_images :: flash where
  "two_images = commit_image (make_desc ''2'' ''omega_stick'') (format_flash ''1'')"

theorem flash_file_round_trip_witness:
  "\<exists>g. load_flash (Some (saved_text two_images)) (format_flash ''1'') = Loaded g \<and> boot_slot g = 1 \<and>
     sl_desc (slots g 1) = make_desc ''2'' ''omega_stick''"
proof -
  have d: "desc_ok (make_desc v p)" for v p
    by (simp add: desc_ok_def make_desc_length make_desc_magic make_desc_terminated)
  have l: "one_line (slots two_images 0)" "one_line (slots two_images 1)" by code_simp+
  have i: "running two_images < 2" "boot_slot two_images < 2" "boot_slot two_images = 1"
    "has_image (slots two_images 1)" "sl_desc (slots two_images 1) = make_desc ''2'' ''omega_stick''"
    "sl_desc (slots two_images 0) = make_desc ''1'' ''omega_stick''"
    by (simp_all add: two_images_def commit_image_def format_flash_def other_of_def)
  show ?thesis
    using flash_file_round_trip [OF i(1,2) l, of "format_flash ''1''"] d i by (auto simp: same_slot_def)
qed

section \<open>Newlines in a descriptor\<close>

lemma c_string_copy: "length v < n \<Longrightarrow> CHR 0x00 \<notin> set v \<Longrightarrow> c_string (copy_str n v) = v"
proof -
  assume h: "length v < n" "CHR 0x00 \<notin> set v"
  have z: "\<forall>b \<in> set (string_bytes v). b \<noteq> 0"
  proof
    fix b assume "b \<in> set (string_bytes v)"
    then obtain c where c: "c \<in> set v" "b = of_char c" by (auto simp: string_bytes_def)
    show "b \<noteq> 0"
    proof
      assume "b = 0"
      then have "(of_char c :: nat) = 0" using c(2) unat_of_char_byte [of c] by simp
      then have "(of_char c :: nat) = of_char (CHR 0x00)" by simp
      then have "c = CHR 0x00" by (rule of_char_eqI)
      with c(1) h(2) show False by simp
    qed
  qed
  have "copy_str n v = string_bytes v @ replicate (n - length v) 0"
    using h(1) by (simp add: copy_str_def string_bytes_def)
  moreover have "takeWhile (\<lambda>b. b \<noteq> 0) (string_bytes v @ replicate (n - length v) 0) = string_bytes v"
    using z by (simp add: takeWhile_append2 takeWhile_replicate)
  ultimately show "c_string (copy_str n v) = v"
    by (simp add: c_string_def string_bytes_def map_idI unat_of_char_byte)
qed

lemma version_field: "length v < 32 \<Longrightarrow> CHR 0x00 \<notin> set v \<Longrightarrow> desc_field 16 32 (make_desc v p) = v"
proof -
  have "take 32 (drop 16 (make_desc v p)) = copy_str 32 v"
    by (simp add: make_desc_def copy_str_length)
  then show "length v < 32 \<Longrightarrow> CHR 0x00 \<notin> set v \<Longrightarrow> desc_field 16 32 (make_desc v p) = v"
    by (simp add: desc_field_def c_string_copy)
qed

text \<open>A newline in a value starts a line of its own.\<close>

lemma broken_line:
  "unlines (map (\<lambda>(k, t). k @ ''='' @ t) (es1 @ (k, a @ newline # j @ ''='' @ b) # es2)) =
   unlines (map (\<lambda>(k, t). k @ ''='' @ t) (es1 @ (k, a) # (j, b) # es2))"
  by (simp add: unlines_def)

definition odd_version :: string where
  "odd_version = ''2'' @ newline # ''boot=0''"

abbreviation odd_board :: flash where
  "odd_board \<equiv> commit_image (make_desc odd_version ''omega_stick'') (format_flash ''1'')"

text \<open>An image whose version text holds a newline rewrites the saved state: the engine accepts the image and the
  board is to boot it, but a board loaded from the file boots the other slot.\<close>

theorem newline_in_version_rewrites_state:
  "parse_image_desc (make_image odd_version ''omega_stick'' 8192) = Some (make_desc odd_version ''omega_stick'') \<and>
   boot_slot odd_board = 1 \<and>
   (\<exists>g. load_flash (Some (saved_text odd_board)) (format_flash ''1'') = Loaded g \<and> boot_slot g = 0)"
proof -
  let ?s1 = "slots odd_board 1"
  have v: "desc_field 16 32 (sl_desc ?s1) = odd_version"
    using version_field [of odd_version "''omega_stick''"]
    by (simp add: odd_version_def newline_def commit_image_def format_flash_def other_of_def)
  define es1 where "es1 = [(''running'', nat_digits (running odd_board)), (''boot'', nat_digits (boot_slot odd_board)),
      (''next_image'', next_image_name (fl_next_image odd_board))]
    @ slot_entries 0 (slots odd_board 0) @ take 5 (slot_entries 1 ?s1)"
  define es2 where "es2 = drop 6 (slot_entries 1 ?s1)"
  define es where "es = es1 @ (''slot1.version'', ''2'') # (''boot'', ''0'') # es2"
  have "flash_entries odd_board = es1 @ (''slot1.version'', ''2'' @ newline # ''boot'' @ ''='' @ ''0'') # es2"
    using v by (simp add: flash_entries_def es1_def es2_def slot_entries_def slot_name_def odd_version_def)
  then have saved: "saved_text odd_board = unlines (map (\<lambda>(k, t). k @ ''='' @ t) es)"
    unfolding saved_text_def es_def using broken_line by metis
  have lines: "one_line (slots odd_board 0)" "newline \<notin> set (desc_field 48 32 (sl_desc ?s1))"
    "newline \<notin> set (desc_field 96 16 (sl_desc ?s1))" "newline \<notin> set (desc_field 80 16 (sl_desc ?s1))"
    by code_simp+
  have keys: "CHR ''='' \<notin> set k" if "(k, t) \<in> set es" for k t
    using that by (auto simp: es_def es1_def es2_def slot_entries_def slot_name_def)
  have "newline \<notin> set (k @ ''='' @ t)" if "(k, t) \<in> set es" for k t
    using that lines nat_digits_line next_image_line state_line flag_lines(1) desc_to_hex_line
    by (auto simp: es_def es1_def es2_def slot_entries_def one_line_def slot_name_def newline_def)
  then have "getlines (saved_text odd_board) = map (\<lambda>(k, t). k @ ''='' @ t) es"
    unfolding saved by (intro getlines_unlines) auto
  then have m: "kv_lines (getlines (saved_text odd_board)) Map.empty = map_of (rev es)"
    using kv_lines_entries [of es Map.empty] keys by auto
  define m where "m = map_of (rev es)"
  have f: "m ''running'' \<noteq> None" "m ''boot'' = Some ''0''"
    "m (slot_name 0 @ ''state'') = Some (state_text (sl_state (slots odd_board 0)))"
    "m (slot_name 1 @ ''state'') = Some (state_text (sl_state ?s1))"
    by (simp_all add: m_def es_def es1_def es2_def slot_entries_def slot_name_def)
  have "geti m ''boot'' d = 0" for d using f(2) by (simp add: geti_def stoi_texts)
  moreover have "state_of_code (geti m (slot_name 0 @ ''state'') d) = Some (sl_state (slots odd_board 0))"
    "state_of_code (geti m (slot_name 1 @ ''state'') d) = Some (sl_state ?s1)" for d
    by (rule geti_state, fact f(3), rule geti_state, fact f(4))
  ultimately have "\<exists>g. load_flash (Some (saved_text odd_board)) (format_flash ''1'') = Loaded g \<and> boot_slot g = 0"
    using f(1)
    by (simp add: load_flash_def m [folded m_def] load_fields_def load_slot_def)
  moreover have "boot_slot odd_board = 1" by (simp add: commit_image_def format_flash_def other_of_def Let_def)
  ultimately show ?thesis using parse_make_image by simp
qed

end
