(* ===== verification/Sim_Host.thy ===== *)
theory Sim_Host
  imports Sim_Stick Flash_File Service Control
begin

text \<open>
  The simulator's host, \<open>sim/src/sim_host.hpp\<close> and \<open>sim/src/sim_host.cpp\<close>: restart hand-off, the link to
  the firmware, the windows of output a script looks at, the page's control messages, telemetry and
  the script runner. Each operation is atomic (the code holds a mutex or runs on one thread). The
  firmware behind the link, the frame codec and the reboot thread are fields of \<open>host_env\<close>; what the
  process prints on its console is not modelled.
\<close>

section \<open>State\<close>

record live =
  lv_mode :: int
  lv_sensor_fault :: bool
  lv_sensor_observed :: bool
  lv_have_calibration :: bool
  lv_last_sweep :: int
  lv_center_x :: double
  lv_center_y :: double
  lv_bx :: double
  lv_by :: double

text \<open>What survives a restart of the simulated firmware, and the firmware's own memory.\<close>

record 'w chip =
  ch_flash :: flash
  ch_files :: files
  ch_mem :: 'w

record 'w host =
  ho_headless :: bool
  ho_now :: nanos
  ho_page :: bool
  ho_messages :: "json list"
  ho_wire :: "bytes list"
  ho_reason :: string
  ho_pending :: bool
  ho_exit :: bool
  ho_wipe :: bool
  ho_linked :: bool
  ho_capturing :: bool
  ho_capture :: bytes
  ho_chip :: "'w chip"
  ho_live :: live
  ho_sensor :: sensor_model
  ho_stick :: stick_source
  ho_script :: script
  ho_active :: bool
  ho_started :: bool
  ho_script_start :: int
  ho_next :: nat
  ho_pumping :: bool
  ho_report :: "string list"
  ho_failures :: int
  ho_checks :: int
  win_dx :: int
  win_dy :: int
  win_left :: bool
  win_right :: bool
  win_neutral :: bool
  prev_buttons :: u8
  host_xac_x :: double
  host_xac_y :: double
  agg_dx :: int
  agg_dy :: int
  agg_wheel :: int
  agg_buttons :: u8
  agg_dirty :: bool
  sent_buttons :: u8
  last_was_xac :: bool
  sent_xac_x :: double
  sent_xac_y :: double
  last_hid_ns :: nanos
  last_sensor_ns :: nanos
  last_source_ns :: nanos
  last_source_key :: string

definition init_live :: live where
  "init_live = \<lparr>lv_mode = 0, lv_sensor_fault = False, lv_sensor_observed = False, lv_have_calibration = False,
     lv_last_sweep = - 1, lv_center_x = d_0, lv_center_y = d_0, lv_bx = d_0, lv_by = d_0\<rparr>"

definition init_host :: "bool \<Rightarrow> nanos \<Rightarrow> 'w chip \<Rightarrow> 'w host" where
  "init_host headless now c =
     \<lparr>ho_headless = headless, ho_now = now, ho_page = False, ho_messages = [], ho_wire = [], ho_reason = [],
      ho_pending = False, ho_exit = False, ho_wipe = False, ho_linked = False, ho_capturing = False,
      ho_capture = [], ho_chip = c, ho_live = init_live, ho_sensor = init_sensor_model,
      ho_stick = init_source, ho_script = \<lparr>sc_name = [], sc_steps = []\<rparr>, ho_active = False,
      ho_started = False, ho_script_start = 0, ho_next = 0, ho_pumping = False, ho_report = [],
      ho_failures = 0, ho_checks = 0, win_dx = 0, win_dy = 0, win_left = False, win_right = False,
      win_neutral = True, prev_buttons = 0, host_xac_x = d_0, host_xac_y = d_0, agg_dx = 0, agg_dy = 0,
      agg_wheel = 0, agg_buttons = 0, agg_dirty = False, sent_buttons = 0, last_was_xac = False,
      sent_xac_x = d_of_int 1000000000, sent_xac_y = d_of_int 1000000000, last_hid_ns = 0,
      last_sensor_ns = 0, last_source_ns = 0, last_source_key = []\<rparr>"

text \<open>The environment: \<open>he_link\<close> is the registered feed, with the frames it sends and the restarts it
  requests while it runs; \<open>he_parse\<close> is a fresh stream parser; \<open>he_reboot\<close> what the service's reboot
  thread asks for within the wait.\<close>

record 'w host_env =
  he_libm :: libm
  he_codec :: codec
  he_parse :: "bytes \<Rightarrow> frame list"
  he_link :: "bytes \<Rightarrow> 'w chip \<Rightarrow> bytes list \<times> string list \<times> 'w chip"
  he_reboot :: "'w chip \<Rightarrow> string option"
  he_write :: "'w chip \<Rightarrow> write_outcome"
  he_calibration_path :: string

definition now_ms :: "'w host \<Rightarrow> int" where
  "now_ms h = tdiv (ho_now h) 1000000"

section \<open>Restart\<close>

definition request_restart :: "string \<Rightarrow> 'w host \<Rightarrow> 'w host" where
  "request_restart reason h = (if ho_pending h then h else h\<lparr>ho_reason := reason, ho_pending := True\<rparr>)"

definition take_reason :: "'w host \<Rightarrow> string \<times> 'w host" where
  "take_reason h = (if ho_reason h = [] then ''restart'' else ho_reason h, h\<lparr>ho_reason := [], ho_pending := False\<rparr>)"

definition wait_for_restart :: "'w host_env \<Rightarrow> 'w host \<Rightarrow> 'w host" where
  "wait_for_restart E h =
     (if ho_pending h then h
      else case he_reboot E (ho_chip h) of None \<Rightarrow> h | Some r \<Rightarrow> request_restart r h)"

definition take_wipe :: "'w host \<Rightarrow> bool \<times> 'w host" where
  "take_wipe h = (ho_wipe h, h\<lparr>ho_wipe := False\<rparr>)"

section \<open>Link and output\<close>

definition send_json :: "json \<Rightarrow> 'w host \<Rightarrow> 'w host" where
  "send_json v h = (if ho_page h then h\<lparr>ho_messages := ho_messages h @ [v]\<rparr> else h)"

definition transmit :: "bytes \<Rightarrow> 'w host \<Rightarrow> bool \<times> 'w host" where
  "transmit frame h =
     (if ho_capturing h then (True, h\<lparr>ho_capture := ho_capture h @ frame\<rparr>)
      else if ho_headless h then (True, h)
      else if ho_page h then (True, h\<lparr>ho_wire := ho_wire h @ [frame]\<rparr>) else (False, h))"

definition console_text :: "string \<Rightarrow> 'w host \<Rightarrow> 'w host" where
  "console_text t h =
     (if ho_page h then h\<lparr>ho_wire := ho_wire h @ [string_bytes (t @ [newline])]\<rparr> else h)"

definition calibration_prompt :: "string \<Rightarrow> 'w host \<Rightarrow> 'w host" where
  "calibration_prompt t h = console_text t (h\<lparr>ho_stick := note_prompt t (now_ms h) (ho_stick h)\<rparr>)"

definition on_mouse :: "mouse_report \<Rightarrow> 'w host \<Rightarrow> 'w host" where
  "on_mouse r h =
     h\<lparr>win_dx := win_dx h + sint (dx r), win_dy := win_dy h + sint (dy r),
       win_left := win_left h \<or> (buttons r AND 1 \<noteq> 0 \<and> prev_buttons h AND 1 = 0),
       win_right := win_right h \<or> (buttons r AND 2 \<noteq> 0 \<and> prev_buttons h AND 2 = 0),
       prev_buttons := buttons r,
       win_neutral := win_neutral h \<and> \<not> (dx r \<noteq> 0 \<or> dy r \<noteq> 0 \<or> wheel r \<noteq> 0 \<or> buttons r \<noteq> 0),
       agg_dx := agg_dx h + sint (dx r), agg_dy := agg_dy h + sint (dy r),
       agg_wheel := agg_wheel h + sint (wheel r), agg_buttons := buttons r, agg_dirty := True,
       last_was_xac := False\<rparr>"

definition double_of_f32 :: "f32 \<Rightarrow> double" where
  "double_of_f32 x =
     (if fnan x then D_nan else if finf x then D_inf (fsgn x)
      else D_fin (fsgn x) (rat_of_int \<bar>sval x\<bar> / 2 ^ 149))"

definition on_xac :: "xac_report \<Rightarrow> 'w host \<Rightarrow> 'w host" where
  "on_xac r h =
     h\<lparr>host_xac_x := double_of_f32 (xac_x r), host_xac_y := double_of_f32 (fneg (xac_y r)),
       win_neutral := win_neutral h \<and>
         \<not> (dlt (d_lit (1 / 1000000)) (double_of_f32 (fabs (xac_x r))) \<or>
            dlt (d_lit (1 / 1000000)) (double_of_f32 (fabs (xac_y r)))),
       last_was_xac := True\<rparr>"

definition stick_now :: "'w host_env \<Rightarrow> 'w host \<Rightarrow> stick_pos \<times> int" where
  "stick_now E h = (source_position (he_libm E) (ho_stick h) (now_ms h), ho_now h)"

text \<open>Bytes to the firmware, and what comes back while it handles them.\<close>

definition feed_link :: "'w host_env \<Rightarrow> bytes \<Rightarrow> 'w host \<Rightarrow> 'w host" where
  "feed_link E data h =
     (case he_link E data (ho_chip h) of (frames, restarts, c) \<Rightarrow>
        fold request_restart restarts (fold (\<lambda>f g. snd (transmit f g)) frames (h\<lparr>ho_chip := c\<rparr>)))"

definition on_binary :: "'w host_env \<Rightarrow> bytes \<Rightarrow> 'w host \<Rightarrow> 'w host" where
  "on_binary E data h = (if ho_linked h then feed_link E data h else h)"

section \<open>Page messages\<close>

definition running_version :: "flash \<Rightarrow> string" where
  "running_version f = desc_field 16 32 (sl_desc (slots f (running f)))"

definition running_label :: "flash \<Rightarrow> string" where
  "running_label f = sl_label (slots f (running f))"

definition mode_text :: "live \<Rightarrow> string" where
  "mode_text l = (if lv_mode l = 1 then ''xac'' else ''mouse'')"

definition num :: "int \<Rightarrow> json" where
  "num n = Num (d_of_int n)"

definition hello_message :: "'w host \<Rightarrow> json" where
  "hello_message h =
     Obj [(''type'', Str ''hello''), (''sim'', Str ''omega_sim''), (''version'', num 1),
          (''fw'', Str (running_version (ch_flash (ho_chip h)))), (''mode'', Str (mode_text (ho_live h))),
          (''slot'', Str (running_label (ch_flash (ho_chip h))))]"

definition on_connect :: "'w host \<Rightarrow> 'w host" where
  "on_connect h =
     send_json (hello_message h)
       (h\<lparr>sent_xac_x := d_of_int 1000000000, sent_xac_y := d_of_int 1000000000, sent_buttons := 0,
          last_source_key := []\<rparr>)"

definition reject_control :: "string \<Rightarrow> 'w host \<Rightarrow> 'w host" where
  "reject_control why = send_json (Obj [(''type'', Str ''error''), (''message'', Str why)])"

definition start_script :: "script \<Rightarrow> 'w host \<Rightarrow> 'w host" where
  "start_script sc h =
     h\<lparr>ho_script := sc, ho_active := True, ho_started := True, ho_script_start := now_ms h, ho_next := 0,
       ho_stick := play_script sc (now_ms h) (ho_stick h),
       win_dx := 0, win_dy := 0, win_left := False, win_right := False, win_neutral := True\<rparr>"

text \<open>A number of a control message within its limits, or the message that rejects it.\<close>

definition control_number :: "string \<Rightarrow> json \<Rightarrow> string \<Rightarrow> double \<Rightarrow> double \<Rightarrow> string + double" where
  "control_number type msg key lo hi =
     (let bad = Inl (type @ '': '' @ ticked key @ '' must be a number from '' @ number_text lo @ '' to '' @ number_text hi) in
      case json_find key msg of Some (Num n) \<Rightarrow> if in_limits lo hi n then Inr n else bad | _ \<Rightarrow> bad)"

definition is_finite_number :: "json option \<Rightarrow> bool" where
  "is_finite_number v = (case v of Some (Num n) \<Rightarrow> finite_double n | _ \<Rightarrow> False)"

definition on_flash :: "(flash \<Rightarrow> flash) \<Rightarrow> 'w host \<Rightarrow> 'w host" where
  "on_flash f h = h\<lparr>ho_chip := (ho_chip h)\<lparr>ch_flash := f (ch_flash (ho_chip h))\<rparr>\<rparr>"

definition control_script :: "json \<Rightarrow> 'w host \<Rightarrow> 'w host" where
  "control_script msg h =
     (case json_find ''script'' msg of
        None \<Rightarrow> reject_control (''script: missing '' @ ticked ''script'') h
      | Some doc \<Rightarrow>
          if kMaxScriptBytes < length (dump doc) then reject_control ''script: larger than 256 KiB'' h
          else (case parse_script doc of Inl why \<Rightarrow> reject_control (''script: '' @ why) h | Inr sc \<Rightarrow> start_script sc h))"

definition handle_control :: "json \<Rightarrow> 'w host \<Rightarrow> 'w host" where
  "handle_control msg h =
     (let type = string_or ''type'' [] msg in
      if type = ''stick'' then
        (if \<not> is_finite_number (json_find ''x'' msg) \<or> \<not> is_finite_number (json_find ''y'' msg)
         then reject_control ''stick: x and y must be numbers'' h
         else h\<lparr>ho_stick := set_manual (number_or ''x'' d_0 msg) (number_or ''y'' d_0 msg) (ho_stick h)\<rparr>)
      else if type = ''pattern'' then
        (case play_pattern (string_or ''name'' [] msg) (now_ms h) (- 1) (ho_stick h) of
           (False, _) \<Rightarrow> reject_control (''pattern: unknown pattern '' @ ticked (string_or ''name'' [] msg)) h
         | (True, s) \<Rightarrow> h\<lparr>ho_stick := s\<rparr>)
      else if type = ''script'' then control_script msg h
      else if type = ''stop'' then h\<lparr>ho_stick := stop_source (ho_stick h), ho_active := False\<rparr>
      else if type = ''fault'' then
        (case parse_fault (string_or ''sensor'' [] msg) of
           None \<Rightarrow> reject_control ''fault: sensor must be ok, no_response, stuck_counter or weak_magnet'' h
         | Some f \<Rightarrow> h\<lparr>ho_sensor := set_fault f (ho_sensor h)\<rparr>)
      else if type = ''drift'' then
        (case control_number type msg ''rate'' (double_int 0) kMaxDriftRate of
           Inl why \<Rightarrow> reject_control why h | Inr rate \<Rightarrow> h\<lparr>ho_sensor := set_drift rate (ho_now h) (ho_sensor h)\<rparr>)
      else if type = ''noise'' then
        (case control_number type msg ''sigma'' (double_int 0) kMaxNoiseSigma of
           Inl why \<Rightarrow> reject_control why h | Inr sigma \<Rightarrow> h\<lparr>ho_sensor := set_noise sigma (ho_sensor h)\<rparr>)
      else if type = ''next_image'' then
        (case parse_next_image (string_or ''behavior'' [] msg) of
           None \<Rightarrow> reject_control (''next_image: behavior must be ok, fail_self_test, crash_loop, slow_sensor_start, ''
               @ ''slow_sensor_fail or crash_when_confirmed'') h
         | Some b \<Rightarrow> on_flash (set_next_image b) h)
      else if type = ''reset'' then request_restart ''reset'' h
      else if type = ''wipe'' then request_restart ''wipe'' (h\<lparr>ho_wipe := True\<rparr>)
      else h)"

text \<open>The JSON parser always returns (theory Json_Facts); the case \<open>None\<close> does not arise.\<close>

definition on_text :: "string \<Rightarrow> 'w host \<Rightarrow> 'w host" where
  "on_text t h =
     (case parse t of
        None \<Rightarrow> h
      | Some (Inl err) \<Rightarrow> reject_control (''control message is not a JSON object: '' @ err) h
      | Some (Inr msg) \<Rightarrow>
          (case msg of Obj ms \<Rightarrow> handle_control msg h
           | _ \<Rightarrow> reject_control ''control message is not a JSON object: '' h))"

section \<open>Telemetry\<close>

definition kHidNs :: nanos where "kHidNs = 33000000"
definition kSensorNs :: nanos where "kSensorNs = 100000000"
definition kSourceNs :: nanos where "kSourceNs = 250000000"

definition hid_message :: "'w host \<Rightarrow> json option \<times> 'w host" where
  "hid_message h =
     (if last_was_xac h then
        if dlt (d_lit (1 / 10000)) (dabs (dsub (host_xac_x h) (sent_xac_x h))) \<or>
           dlt (d_lit (1 / 10000)) (dabs (dsub (host_xac_y h) (sent_xac_y h)))
        then (Some (Obj [(''type'', Str ''hid''), (''mode'', Str ''xac''), (''x'', Num (host_xac_x h)),
                (''y'', Num (host_xac_y h))]),
              h\<lparr>sent_xac_x := host_xac_x h, sent_xac_y := host_xac_y h\<rparr>)
        else (None, h)
      else if agg_dirty h \<and> (agg_dx h \<noteq> 0 \<or> agg_dy h \<noteq> 0 \<or> agg_wheel h \<noteq> 0 \<or> agg_buttons h \<noteq> sent_buttons h)
      then (Some (Obj [(''type'', Str ''hid''), (''mode'', Str ''mouse''), (''dx'', num (agg_dx h)),
              (''dy'', num (agg_dy h)), (''wheel'', num (agg_wheel h)), (''buttons'', num (uint (agg_buttons h)))]),
            h\<lparr>sent_buttons := agg_buttons h\<rparr>)
      else (None, h))"

definition flush_hid :: "'w host \<Rightarrow> 'w host" where
  "flush_hid h =
     (if kHidNs \<le> ho_now h - last_hid_ns h then
        (case hid_message h of (m, h1) \<Rightarrow>
           let h2 = h1\<lparr>agg_dx := 0, agg_dy := 0, agg_wheel := 0, agg_dirty := False, last_hid_ns := ho_now h\<rparr> in
           (case m of None \<Rightarrow> h2 | Some v \<Rightarrow> send_json v h2))
      else h)"

definition flush_sensor :: "'w host_env \<Rightarrow> 'w host \<Rightarrow> 'w host" where
  "flush_sensor E h =
     (if kSensorNs \<le> ho_now h - last_sensor_ns h then
        let p = source_position (he_libm E) (ho_stick h) (now_ms h) in
        send_json (Obj [(''type'', Str ''sensor''), (''x'', Num (sx p)), (''y'', Num (sy p)),
            (''bx'', Num (lv_bx (ho_live h))), (''by'', Num (lv_by (ho_live h))),
            (''ok'', Bool (\<not> lv_sensor_fault (ho_live h))), (''fault'', Str (fault_name (sm_fault (ho_sensor h))))])
          (h\<lparr>last_sensor_ns := ho_now h\<rparr>)
      else h)"

definition kind_name :: "source_kind \<Rightarrow> string" where
  "kind_name k = (case k of Manual \<Rightarrow> ''manual'' | Pattern \<Rightarrow> ''pattern'' | Script_run \<Rightarrow> ''script'')"

definition flush_source :: "'w host \<Rightarrow> 'w host" where
  "flush_source h =
     (let i = source_info_at (ho_stick h) (now_ms h);
          key = kind_name (si_kind i) @ ''/'' @ si_name i @ (if si_done i then ''/done'' else []) in
      if key \<noteq> last_source_key h \<or>
         (si_kind i \<noteq> Manual \<and> \<not> si_done i \<and> kSourceNs \<le> ho_now h - last_source_ns h)
      then send_json (Obj ([(''type'', Str ''source''), (''kind'', Str (kind_name (si_kind i)))] @
             (if si_kind i = Manual then [] else [(''name'', Str (si_name i)), (''t_ms'', num (si_t_ms i)),
                (''done'', Bool (si_done i))])))
             (h\<lparr>last_source_key := key, last_source_ns := ho_now h\<rparr>)
      else h)"

definition flush_telemetry :: "'w host_env \<Rightarrow> 'w host \<Rightarrow> 'w host" where
  "flush_telemetry E h = (if ho_page h then flush_source (flush_sensor E (flush_hid h)) else h)"

section \<open>The windows of a script\<close>

text \<open>Between two looks the windows hold the sums, the presses and the neutrality of the reports.\<close>

fun presses :: "u8 \<Rightarrow> u8 \<Rightarrow> mouse_report list \<Rightarrow> bool" where
  "presses b prev [] \<longleftrightarrow> False"
| "presses b prev (r # rs) \<longleftrightarrow> (buttons r AND b \<noteq> 0 \<and> prev AND b = 0) \<or> presses b (buttons r) rs"

lemma mouse_windows:
  "win_dx (fold on_mouse rs h) = win_dx h + sum_list (map (\<lambda>r. sint (dx r)) rs) \<and>
   win_dy (fold on_mouse rs h) = win_dy h + sum_list (map (\<lambda>r. sint (dy r)) rs) \<and>
   win_left (fold on_mouse rs h) = (win_left h \<or> presses 1 (prev_buttons h) rs) \<and>
   win_right (fold on_mouse rs h) = (win_right h \<or> presses 2 (prev_buttons h) rs) \<and>
   win_neutral (fold on_mouse rs h) = (win_neutral h \<and> list_all (\<lambda>r. r = neutral_mouse) rs)"
proof (induction rs arbitrary: h)
  case (Cons r rs)
  have n: "(r = neutral_mouse) = (\<not> (dx r \<noteq> 0 \<or> dy r \<noteq> 0 \<or> wheel r \<noteq> 0 \<or> buttons r \<noteq> 0))"
    by (cases r) (auto simp: neutral_mouse_def)
  show ?case using Cons [of "on_mouse r h"] by (auto simp: on_mouse_def n add.assoc)
qed simp

section \<open>Restart hand-off\<close>

lemma request_restart_first:
  "ho_pending h \<Longrightarrow> request_restart r h = h" "\<not> ho_pending h \<Longrightarrow> ho_reason (request_restart r h) = r"
  "ho_pending (request_restart r h)"
  by (simp_all add: request_restart_def)

section \<open>What the page can do\<close>

definition model_ok :: "'w host \<Rightarrow> bool" where
  "model_ok h \<longleftrightarrow> source_ok (ho_stick h) \<and> in_limits (double_int 0) kMaxNoiseSigma (sm_sigma (ho_sensor h)) \<and>
     in_limits (double_int 0) kMaxDriftRate (sm_drift_rate (ho_sensor h))"

text \<open>The firmware's side of the host is untouched, except the behaviour chosen for the next image.\<close>

definition chip_kept :: "'w host \<Rightarrow> 'w host \<Rightarrow> bool" where
  "chip_kept h h' \<longleftrightarrow> ch_files (ho_chip h') = ch_files (ho_chip h) \<and> ch_mem (ho_chip h') = ch_mem (ho_chip h) \<and>
     (\<exists>b. ch_flash (ho_chip h') = (ch_flash (ho_chip h))\<lparr>fl_next_image := b\<rparr>) \<and>
     ho_live h' = ho_live h \<and> ho_now h' = ho_now h"

lemma chip_kept_same: "ho_chip h' = ho_chip h \<Longrightarrow> ho_live h' = ho_live h \<Longrightarrow> ho_now h' = ho_now h \<Longrightarrow> chip_kept h h'"
  unfolding chip_kept_def by (auto intro: exI [of _ "fl_next_image (ch_flash (ho_chip h))"])

lemma reject_simps [simp]:
  "ho_stick (reject_control why h) = ho_stick h" "ho_sensor (reject_control why h) = ho_sensor h"
  "ho_chip (reject_control why h) = ho_chip h" "ho_live (reject_control why h) = ho_live h" "ho_now (reject_control why h) = ho_now h"
  by (simp_all add: reject_control_def send_json_def)

lemma reject_keeps: "model_ok (reject_control why h) = model_ok h" "chip_kept h (reject_control why h)"
  by (simp_all add: model_ok_def chip_kept_same)

lemma control_number_ok:
  "control_number type msg key lo hi = Inr n \<Longrightarrow> in_limits lo hi n"
  by (auto simp: control_number_def Let_def split: option.splits json.splits if_splits)

lemma number_or_double: "json_doubles msg \<Longrightarrow> is_finite_number (json_find k msg) \<Longrightarrow>
   is_double (number_or k d msg) \<and> finite_double (number_or k d msg)"
  by (auto simp: is_finite_number_def number_or_def dest: json_find_doubles split: option.splits json.splits)

lemma source_step_keeps:
  "source_ok s \<Longrightarrow> stick_op_ok p \<Longrightarrow> s' = source_step p s \<Longrightarrow> source_ok s'"
  by (simp add: source_step_ok)

lemma control_script_ok:
  assumes "model_ok h" "json_doubles msg" "clock_ms (now_ms h)"
  shows "model_ok (control_script msg h) \<and> chip_kept h (control_script msg h)"
proof (cases "\<exists>doc sc. json_find ''script'' msg = Some doc \<and> length (dump doc) \<le> kMaxScriptBytes \<and> parse_script doc = Inr sc")
  case True
  then obtain doc sc where d: "json_find ''script'' msg = Some doc" "length (dump doc) \<le> kMaxScriptBytes"
    "parse_script doc = Inr sc" by blast
  have "playable sc" using accepted_script_is_playable [OF d(3)] json_find_doubles [OF d(1) assms(2)] .
  then have "source_ok (play_script sc (now_ms h) (ho_stick h))"
    using source_step_keeps [of "ho_stick h" "Run sc (now_ms h)"] assms
    by (simp add: source_step_def stick_op_ok_def model_ok_def)
  then show ?thesis using d assms(1)
    by (auto simp: control_script_def start_script_def model_ok_def intro!: chip_kept_same)
next
  case False
  then have "\<exists>why. control_script msg h = reject_control why h"
    by (auto simp: control_script_def not_less split: option.splits sum.splits)
  then show ?thesis using assms(1) by (auto simp: reject_keeps)
qed

lemma handle_control_ok:
  assumes h: "model_ok h" and msg: "json_doubles msg" and now: "clock_ms (now_ms h)"
  shows "model_ok (handle_control msg h) \<and> chip_kept h (handle_control msg h)"
proof -
  define type where "type = string_or ''type'' [] msg"
  note defs = handle_control_def type_def [symmetric] Let_def
  have s: "source_ok (ho_stick h)" using h by (simp add: model_ok_def)
  have stick: "source_ok (set_manual (number_or ''x'' d_0 msg) (number_or ''y'' d_0 msg) (ho_stick h))"
    if "is_finite_number (json_find ''x'' msg)" "is_finite_number (json_find ''y'' msg)"
    using source_step_keeps [OF s, of "Hand (number_or ''x'' d_0 msg) (number_or ''y'' d_0 msg)"]
      number_or_double [OF msg that(1)] number_or_double [OF msg that(2)]
    by (simp add: source_step_def stick_op_ok_def)
  have pat: "source_ok (snd (play_pattern n (now_ms h) (- 1) (ho_stick h)))" for n
    using source_step_keeps [OF s, of "Play n (now_ms h) (- 1)"] now by (simp add: source_step_def stick_op_ok_def)
  have stop: "source_ok (stop_source (ho_stick h))"
    using source_step_keeps [OF s, of Stop_it] by (simp add: source_step_def stick_op_ok_def)
  have img: "chip_kept h (on_flash (set_next_image b) h)" "model_ok (on_flash (set_next_image b) h)" for b
    using h by (auto simp: chip_kept_def on_flash_def set_next_image_def model_ok_def)
  consider "type = ''stick''" | "type = ''pattern''" | "type = ''script''" | "type = ''drift''" | "type = ''noise''"
    | "type = ''fault''" | "type = ''next_image''" | "type = ''stop''"
    | "type \<noteq> ''stick''" "type \<noteq> ''pattern''" "type \<noteq> ''script''" "type \<noteq> ''drift''" "type \<noteq> ''noise''"
      "type \<noteq> ''fault''" "type \<noteq> ''next_image''" "type \<noteq> ''stop''" by argo
  then show ?thesis
  proof cases
    case 1
    then show ?thesis using stick h by (auto simp: defs reject_keeps model_ok_def intro!: chip_kept_same)
  next
    case 2
    obtain ok st where p: "play_pattern (string_or ''name'' [] msg) (now_ms h) (- 1) (ho_stick h) = (ok, st)" by fastforce
    have "source_ok st" using pat [of "string_or ''name'' [] msg"] p by simp
    then show ?thesis using 2 h p
      by (cases ok) (auto simp: defs reject_keeps model_ok_def intro!: chip_kept_same)
  next
    case 3
    then show ?thesis using control_script_ok [OF h msg now] by (simp add: defs)
  next
    case 4
    then show ?thesis using h
      by (auto simp: defs reject_keeps set_drift_def model_ok_def dest: control_number_ok
          intro!: chip_kept_same split: sum.splits)
  next
    case 5
    then show ?thesis using h
      by (auto simp: defs reject_keeps set_noise_def model_ok_def dest: control_number_ok
          intro!: chip_kept_same split: sum.splits)
  next
    case 6
    then show ?thesis using h
      by (auto simp: defs reject_keeps set_fault_def model_ok_def intro!: chip_kept_same split: option.splits)
  next
    case 7
    then show ?thesis using h img by (auto simp: defs reject_keeps split: option.splits)
  next
    case 8
    then show ?thesis using h stop by (simp add: defs model_ok_def chip_kept_same)
  next
    case 9
    then have "handle_control msg h = (if type = ''reset'' then request_restart ''reset'' h
        else if type = ''wipe'' then request_restart ''wipe'' (h\<lparr>ho_wipe := True\<rparr>) else h)"
      by (simp add: defs)
    then show ?thesis using h by (simp add: request_restart_def model_ok_def chip_kept_same)
  qed
qed

definition page_step :: "nanos \<times> string \<Rightarrow> 'w host \<Rightarrow> 'w host" where
  "page_step e h = on_text (snd e) (h\<lparr>ho_now := fst e\<rparr>)"

lemma on_text_ok:
  assumes "model_ok h" "clock_ms (now_ms h)"
  shows "model_ok (on_text t h) \<and> chip_kept h (on_text t h)"
  using handle_control_ok [OF assms(1) parse_doubles assms(2)] assms(1)
  by (auto simp: on_text_def reject_keeps chip_kept_same split: option.splits sum.splits json.splits)

lemma page_run_ok:
  assumes "model_ok h" "list_all (\<lambda>e. clock_ms (tdiv (fst e) 1000000)) es"
  shows "model_ok (fold page_step es h) \<and> ch_files (ho_chip (fold page_step es h)) = ch_files (ho_chip h) \<and>
    ch_mem (ho_chip (fold page_step es h)) = ch_mem (ho_chip h) \<and>
    (\<exists>b. ch_flash (ho_chip (fold page_step es h)) = (ch_flash (ho_chip h))\<lparr>fl_next_image := b\<rparr>)"
  using assms
proof (induction es arbitrary: h)
  case Nil
  then show ?case by (auto intro: exI [of _ "fl_next_image (ch_flash (ho_chip h))"])
next
  case (Cons e es)
  have "model_ok (h\<lparr>ho_now := fst e\<rparr>)" using Cons.prems(1) by (simp add: model_ok_def)
  moreover have "clock_ms (now_ms (h\<lparr>ho_now := fst e\<rparr>))" using Cons.prems(2) by (simp add: now_ms_def)
  ultimately have "model_ok (page_step e h) \<and> chip_kept (h\<lparr>ho_now := fst e\<rparr>) (page_step e h)"
    unfolding page_step_def by (rule on_text_ok)
  with Cons.IH [of "page_step e h"] Cons.prems show ?case by (auto simp: chip_kept_def)
qed

text \<open>C32: Whatever text the page sends, and whenever, the simulated world stays within its limits: the
  stick's source is well formed (so its position stays in range), noise and drift are within the
  documented bounds, and the firmware's memory, its files and the images in its flash are untouched.\<close>

theorem page_cannot_break_the_model:
  assumes "model_ok h" "list_all (\<lambda>e. clock_ms (tdiv (fst e) 1000000)) es"
  shows "model_ok (fold page_step es h) \<and> ch_files (ho_chip (fold page_step es h)) = ch_files (ho_chip h) \<and>
    ch_mem (ho_chip (fold page_step es h)) = ch_mem (ho_chip h) \<and>
    (\<exists>b. ch_flash (ho_chip (fold page_step es h)) = (ch_flash (ho_chip h))\<lparr>fl_next_image := b\<rparr>)"
  by (rule page_run_ok [OF assms])

lemma init_host_ok: "model_ok (init_host headless now c)"
proof -
  have "\<bar>2 / 1000\<bar> \<le> (1 :: rat)" by simp
  from d_lit_within [OF this bound_ok_1] have "within_abs 1 (d_lit (2 / 1000))" .
  moreover have "0 \<le> double_val (d_lit (2 / 1000))"
    using round53_nonneg [of "2 / 1000"] by (simp add: d_lit_def d_round_def double_of_def Let_def double_val_def)
  ultimately show ?thesis
    by (simp add: model_ok_def init_host_def init_source_ok init_sensor_model_def in_limits_def kMaxNoiseSigma_def
        kMaxDriftRate_def double_int_def d_0_def within_abs_def finite_double_def double_val_def abs_le_iff)
qed

theorem page_cannot_break_the_model_witness:
  "model_ok (fold page_step [(2000000000, dump (Obj [(''type'', Str ''stick''), (''x'', num 3), (''y'', num 0)])),
      (2500000000, ''{'')]
     (init_host False 1000000000 \<lparr>ch_flash = format_flash ''1.0'', ch_files = (\<lambda>p. None), ch_mem = ()\<rparr>))"
proof -
  have "list_all (\<lambda>e. clock_ms (tdiv (fst e) 1000000))
      [(2000000000, dump (Obj [(''type'', Str ''stick''), (''x'', num 3), (''y'', num 0)])), (2500000000, ''{'')]"
    by (simp add: clock_ms_def tdiv_def)
  from page_cannot_break_the_model [OF init_host_ok this] show ?thesis by blast
qed

end
