(* ===== verification/Sim_Runner.thy ===== *)
theory Sim_Runner
  imports Sim_Host Reset_Log
begin

text \<open>
  The script runner of \<open>sim/src/sim_host.cpp\<close>: requests over the calibration link with their captured
  replies, the actions and expectations of a script, the report, and the clock a headless run moves.
\<close>

section \<open>Requests\<close>

text \<open>How a reply frame is classified; \<open>None\<close> for a frame that is not a reply.\<close>

definition classify :: "codec \<Rightarrow> frame \<Rightarrow> (string \<times> bytes option) option" where
  "classify C f =
     (if \<not> fr_reply f then None
      else if fr_type f = msg_code Error_reply then
        let code = (if 4 \<le> length (fr_payload f) then get_u32 C (fr_payload f) else 0);
            is = (\<lambda>e. code = word_of_int (ec_value (errc_code C e))) in
        Some (if is Device_or_resource_busy then ''busy'' else if is Invalid_argument then ''invalid''
              else if is Function_not_supported then ''unsupported'' else ''error'', None)
      else Some (''ok'', Some (fr_payload f)))"

fun first_reply :: "codec \<Rightarrow> frame list \<Rightarrow> string \<times> bytes option" where
  "first_reply C [] = (''none'', None)"
| "first_reply C (f # fs) = (case classify C f of None \<Rightarrow> first_reply C fs | Some r \<Rightarrow> r)"

definition request :: "'w host_env \<Rightarrow> msg \<Rightarrow> bytes \<Rightarrow> 'w host \<Rightarrow> (string \<times> bytes option) \<times> 'w host" where
  "request E m payload h =
     (let frame = build_frame (he_codec E) False kModule (msg_code m) payload;
          h1 = h\<lparr>ho_capture := [], ho_capturing := True\<rparr>;
          h2 = (if ho_linked h then feed_link E frame h1 else h1);
          got = ho_capture h2;
          h3 = h2\<lparr>ho_capturing := False, ho_capture := []\<rparr> in
      (if \<not> ho_linked h then (''none'', None) else first_reply (he_codec E) (he_parse E got), h3))"

section \<open>Actions\<close>

text \<open>The calibration the maintainer's board saved after a sweep with the stick untouched.\<close>

definition planted_center :: center_result where
  "planted_center = init_center\<lparr>noise_radius := f32_lit (86 / 1000), center_deadzone := MAX_CENTER_DEADZONE\<rparr>"

definition planted_range :: range_result where
  "planted_range = init_range\<lparr>min_x := f32_lit (- 58 / 1000), max_x := f32_lit (60 / 1000),
     min_y := f32_lit (- 49 / 1000), max_y := f32_lit (55 / 1000), usable_radius := f32_lit (49 / 1000),
     range_deadzone := MAX_RANGE_DEADZONE\<rparr>"

definition plant_unusable_calibration :: "'w host_env \<Rightarrow> 'w host \<Rightarrow> bool \<times> 'w host" where
  "plant_unusable_calibration E h =
     (case save_calibration_file (he_write E (ho_chip h)) planted_center planted_range (he_calibration_path E)
             (ch_files (ho_chip h)) of
        (e, fs) \<Rightarrow> (e = None, h\<lparr>ho_chip := (ho_chip h)\<lparr>ch_files := fs\<rparr>\<rparr>))"

text \<open>\<open>static_cast<float>\<close> of a value in a float's range, and its four bytes.\<close>

definition f32_of_double :: "double \<Rightarrow> f32" where
  "f32_of_double d =
     (case d of D_fin s q \<Rightarrow> fof s ((if s then - q else q) * rat_of_int one_units)
      | D_inf s \<Rightarrow> fmk s inf_idx | D_nan \<Rightarrow> qnan)"

definition deadzone_payload :: "script_step \<Rightarrow> bytes" where
  "deadzone_payload st =
     ((if sp_center st \<noteq> None then 1 else 0) OR (if sp_range st \<noteq> None then 2 else 0))
     # put_f32 (f32_of_double (case sp_center st of None \<Rightarrow> d_0 | Some c \<Rightarrow> c))
     @ put_f32 (f32_of_double (case sp_range st of None \<Rightarrow> d_0 | Some r \<Rightarrow> r))"

definition kChunk :: nat where "kChunk = 1024"

text \<open>The data messages of an upload from offset \<open>off\<close> on, then the finish.\<close>

function send_image :: "'w host_env \<Rightarrow> nat \<Rightarrow> bytes \<Rightarrow> 'w host \<Rightarrow> string \<times> 'w host" where
  "send_image E off img h =
     (if img = [] then (case request E OtaFinish [] h of ((r, _), h1) \<Rightarrow> (r, h1))
      else
        case request E OtaData (put_u32 (he_codec E) (word_of_nat off) @ take kChunk img) h of
          ((r, _), h1) \<Rightarrow>
            if r \<noteq> ''ok'' then (case request E OtaAbort [] h1 of (_, h2) \<Rightarrow> (r, h2))
            else send_image E (off + kChunk) (drop kChunk img) h1)"
  by pat_completeness auto
termination
  by (relation "measure (\<lambda>(E, off, img, h). length img)") (auto simp: kChunk_def)

declare send_image.simps [simp del]

definition flash_action :: "'w host_env \<Rightarrow> string \<Rightarrow> 'w host \<Rightarrow> string \<times> 'w host" where
  "flash_action E version h =
     (let img = make_image version ''omega_stick'' 8192 in
      case request E OtaBegin (put_u32 (he_codec E) (word_of_nat (length img))) h of
        ((r, _), h1) \<Rightarrow> if r \<noteq> ''ok'' then (r, h1) else send_image E 0 img h1)"

definition ask :: "'w host_env \<Rightarrow> msg \<Rightarrow> bytes \<Rightarrow> 'w host \<Rightarrow> string \<times> 'w host" where
  "ask E m p h = (case request E m p h of ((r, _), h1) \<Rightarrow> (r, h1))"

definition action_reply :: "'w host_env \<Rightarrow> script_step \<Rightarrow> 'w host \<Rightarrow> string \<times> 'w host" where
  "action_reply E st h =
     (let a = sp_name st in
      if a = ''recalibrate'' then ask E StartCalibration [] h
      else if a = ''save'' then ask E SaveToFlash [] h
      else if a = ''restart'' then ask E Restart_device [] h
      else if a = ''revert'' then ask E Revert [] h
      else if a = ''mark_valid'' then ask E MarkValid [] h
      else if a = ''fw_info'' then ask E GetFwInfo [] h
      else if a = ''plant_unusable_calibration'' then
        (case plant_unusable_calibration E h of (ok, h1) \<Rightarrow> (if ok then ''ok'' else ''error'', h1))
      else if a = ''set_mode'' then ask E SetInputMode [if sp_text st = ''xac'' then 1 else 0] h
      else if a = ''set_nudge_enabled'' then ask E SetNudgeEnabled [if sp_text st = ''on'' then 1 else 0] h
      else if a = ''set_deadzone'' then ask E SetDeadzoneOverride (deadzone_payload st) h
      else if a = ''flash'' then flash_action E (sp_text st) h
      else (''error'', h))"

section \<open>The report\<close>

definition record_check :: "bool \<Rightarrow> int \<Rightarrow> string \<Rightarrow> 'w host \<Rightarrow> 'w host" where
  "record_check pass at_ms what h =
     h\<lparr>ho_checks := ho_checks h + 1, ho_failures := (if pass then ho_failures h else ho_failures h + 1),
       ho_report := ho_report h @ [(if pass then ''PASS'' else ''FAIL'') @ '' t='' @ int_text at_ms @ ''ms '' @ what]\<rparr>"

definition note_error :: "string \<Rightarrow> 'w host \<Rightarrow> 'w host" where
  "note_error m h = h\<lparr>ho_failures := ho_failures h + 1, ho_report := ho_report h @ [''FAIL '' @ m]\<rparr>"

definition finish_report :: "'w host \<Rightarrow> int" where
  "finish_report h = (if ho_failures h = 0 \<and> 0 < ho_checks h then 0 else 1)"

section \<open>Expectations\<close>

text \<open>The calibration state after the reset list of a DIAGNOSTICS payload, or -1.\<close>

fun skip_resets :: "nat \<Rightarrow> nat \<Rightarrow> bytes \<Rightarrow> nat option" where
  "skip_resets 0 off p = Some off"
| "skip_resets (Suc n) off p =
     (if length p < off + 7 then None else skip_resets n (off + 7 + unat (p ! (off + 6))) p)"

definition diagnostics_calibration_state :: "bytes \<Rightarrow> int" where
  "diagnostics_calibration_state p =
     (if length p < 11 then - 1
      else case skip_resets (unat (p ! 10)) 11 p of
        None \<Rightarrow> - 1 | Some off \<Rightarrow> if off < length p then uint (p ! off) else - 1)"

definition yes_no :: "bool \<Rightarrow> string" where
  "yes_no b = (if b then ''true'' else ''false'')"

definition check_flag :: "string \<Rightarrow> bool option \<Rightarrow> bool \<Rightarrow> (bool \<times> string) list" where
  "check_flag name want got =
     (case want of None \<Rightarrow> []
      | Some w \<Rightarrow> [(got = w, name @ '' '' @ yes_no got @ '' (expected '' @ yes_no w @ '')'')])"

definition check_text :: "string \<Rightarrow> string option \<Rightarrow> string \<Rightarrow> (bool \<times> string) list" where
  "check_text name want got =
     (case want of None \<Rightarrow> [] | Some w \<Rightarrow> [(got = w, name @ '' '' @ got @ '' (expected '' @ w @ '')'')])"

definition moved_text :: "int \<Rightarrow> int \<Rightarrow> string" where
  "moved_text mx my =
     (if 3 \<le> \<bar>mx\<bar> \<or> 3 \<le> \<bar>my\<bar> then
        if \<bar>my\<bar> \<le> \<bar>mx\<bar> then (if 0 < mx then ''right'' else ''left'')
        else (if my < 0 then ''up'' else ''down'')
      else ''none'')"

definition check_moved :: "string option \<Rightarrow> int \<Rightarrow> int \<Rightarrow> (bool \<times> string) list" where
  "check_moved want mx my =
     (case want of None \<Rightarrow> []
      | Some w \<Rightarrow> [(moved_text mx my = w, ''mouse moved '' @ moved_text mx my @ '' (dx='' @ int_text mx @ '' dy='' @
          int_text my @ ''; expected '' @ w @ '')'')])"

definition clicked_text :: "bool \<Rightarrow> bool \<Rightarrow> string" where
  "clicked_text l r = (if l then ''left'' else if r then ''right'' else ''none'')"

text \<open>\<open>%.4f\<close>, and the buffer of 96 characters.\<close>

definition fixed4 :: "double \<Rightarrow> string" where
  "fixed4 d =
     (case d of
        D_fin s q \<Rightarrow> (let n = nat (round_half_even (q * 10000)) in
          (if s then ''-'' else []) @ nat_digits (n div 10000) @ CHR ''.'' # zero_pad 4 (nat_digits (n mod 10000)))
      | D_inf s \<Rightarrow> (if s then ''-'' else []) @ ''inf''
      | D_nan \<Rightarrow> ''nan'')"

definition check_center :: "double option \<Rightarrow> 'w host \<Rightarrow> (bool \<times> string) list" where
  "check_center want h =
     (case want of None \<Rightarrow> []
      | Some most \<Rightarrow>
          (case true_center_mT (ho_now h) (ho_sensor h) of (tx, ty) \<Rightarrow>
             let err_x = ddiv (dabs (dsub (lv_center_x (ho_live h)) tx)) mT_per_unit_x;
                 err_y = ddiv (dabs (dsub (lv_center_y (ho_live h)) ty)) mT_per_unit_y in
             [(lv_have_calibration (ho_live h) \<and> dle err_x most \<and> dle err_y most,
               take 95 (''center error x='' @ fixed4 err_x @ '' y='' @ fixed4 err_y @ '' (limit '' @ fixed4 most @ '')''))]))"

definition check_axis :: "string \<Rightarrow> double option \<Rightarrow> double \<Rightarrow> (bool \<times> string) list" where
  "check_axis name want got =
     (case want of None \<Rightarrow> []
      | Some w \<Rightarrow> [(dle (dabs (dsub got w)) (d_lit (1 / 10)),
          name @ '' '' @ number_text got @ '' (expected '' @ number_text w @ '')'')])"

definition record_all :: "script_step \<Rightarrow> nat \<Rightarrow> (bool \<times> string) list \<Rightarrow> 'w host \<Rightarrow> 'w host" where
  "record_all st i cs h =
     fold (\<lambda>(pass, what). record_check pass (sp_at st) (''expect #'' @ nat_digits i @ '': '' @ what)) cs h"

text \<open>The checks before the one that asks the firmware, and those after it.\<close>

definition checks_before :: "expect \<Rightarrow> 'w host \<Rightarrow> (bool \<times> string) list" where
  "checks_before e h =
     check_flag ''calibrated'' (ex_calibrated e) (lv_have_calibration (ho_live h) \<and> lv_last_sweep (ho_live h) \<noteq> 0)
     @ check_center (ex_center_max e) h
     @ check_moved (ex_mouse_moved e) (win_dx h) (win_dy h)
     @ check_text ''clicked'' (ex_clicked e) (clicked_text (win_left h) (win_right h))
     @ check_text ''mode'' (ex_mode e) (mode_text (ho_live h))
     @ check_flag ''sensor_observed'' (ex_sensor_observed e) (lv_sensor_observed (ho_live h))
     @ check_flag ''sensor_fault'' (ex_sensor_fault e) (lv_sensor_fault (ho_live h))
     @ check_flag ''neutral'' (ex_neutral e) (win_neutral h)"

definition check_needs_calibration ::
  "'w host_env \<Rightarrow> bool option \<Rightarrow> 'w host \<Rightarrow> (bool \<times> string) list \<times> 'w host" where
  "check_needs_calibration E want h =
     (case want of None \<Rightarrow> ([], h)
      | Some w \<Rightarrow>
          (case request E GetDiagnostics [] h of ((r, p), h1) \<Rightarrow>
             let state = (if r = ''ok'' then diagnostics_calibration_state (case p of None \<Rightarrow> [] | Some b \<Rightarrow> b) else - 1) in
             (if state < 0
              then [(False, ''needs_calibration: GET_DIAGNOSTICS replied '' @ r @ '' without a calibration state'')]
              else check_flag ''needs_calibration'' (Some w) (state \<noteq> 0), h1)))"

definition checks_after :: "expect \<Rightarrow> double \<Rightarrow> double \<Rightarrow> 'w host \<Rightarrow> (bool \<times> string) list" where
  "checks_after e ux uy h =
     (let f = ch_flash (ho_chip h) in
      check_text ''fw_slot'' (ex_fw_slot e) (running_label f)
      @ check_flag ''fw_pending'' (ex_fw_pending e) (pending_verify f)
      @ check_text ''fw_version'' (ex_fw_version e) (running_version f)
      @ check_axis ''xac_x'' (ex_xac_x e) ux @ check_axis ''xac_y'' (ex_xac_y e) uy)"

definition reset_windows :: "'w host \<Rightarrow> 'w host" where
  "reset_windows h = h\<lparr>win_dx := 0, win_dy := 0, win_left := False, win_right := False, win_neutral := True\<rparr>"

definition evaluate :: "'w host_env \<Rightarrow> script_step \<Rightarrow> nat \<Rightarrow> 'w host \<Rightarrow> 'w host" where
  "evaluate E st i h =
     (let e = sp_expect st;
          h1 = record_all st i (checks_before e h) (reset_windows h);
          (cs, h2) = check_needs_calibration E (ex_needs_calibration e) h1;
          h3 = record_all st i cs h2 in
      record_all st i (checks_after e (host_xac_x h) (host_xac_y h) h3) h3)"

section \<open>Steps\<close>

definition execute :: "'w host_env \<Rightarrow> script_step \<Rightarrow> 'w host \<Rightarrow> 'w host" where
  "execute E st h =
     (case sp_kind st of
        K_fault \<Rightarrow> (case parse_fault (sp_name st) of None \<Rightarrow> h | Some f \<Rightarrow> h\<lparr>ho_sensor := set_fault f (ho_sensor h)\<rparr>)
      | K_drift \<Rightarrow> h\<lparr>ho_sensor := set_drift (sp_number st) (ho_now h) (ho_sensor h)\<rparr>
      | K_noise \<Rightarrow> h\<lparr>ho_sensor := set_noise (sp_number st) (ho_sensor h)\<rparr>
      | K_next_image \<Rightarrow>
          on_flash (set_next_image (case parse_next_image (sp_name st) of None \<Rightarrow> NI_OK | Some b \<Rightarrow> b)) h
      | K_action \<Rightarrow>
          (case action_reply E st h of (got, h1) \<Rightarrow>
             let want = (case sp_reply st of None \<Rightarrow> ''ok'' | Some r \<Rightarrow> r);
                 h2 = record_check (got = want) (sp_at st) (''action '' @ sp_name st @ '' replied '' @ got @
                        (if got = want then [] else '' (expected '' @ want @ '')'')) h1 in
             if ho_headless h \<and> got = ''ok'' \<and> sp_name st \<in> {''restart'', ''flash'', ''revert''}
             then wait_for_restart E h2 else h2)
      | _ \<Rightarrow> h)"

definition perform :: "'w host_env \<Rightarrow> nat \<Rightarrow> script_step \<Rightarrow> 'w host \<Rightarrow> 'w host" where
  "perform E i st h = (if sp_kind st = K_expect then evaluate E st i h else execute E st h)"

definition step_due :: "'w host \<Rightarrow> bool" where
  "step_due h \<longleftrightarrow> ho_active h \<and> ho_next h < length (sc_steps (ho_script h)) \<and>
     sp_at (sc_steps (ho_script h) ! ho_next h) \<le> now_ms h - ho_script_start h"

section \<open>What a step leaves alone\<close>

text \<open>The runner's own fields, which no step touches.\<close>

definition runner :: "'w host \<Rightarrow> (script \<times> nat \<times> bool \<times> bool) \<times> int \<times> nanos \<times> bool \<times> bool \<times> bool" where
  "runner h = ((ho_script h, ho_next h, ho_active h, ho_started h), ho_script_start h, ho_now h, ho_headless h,
     ho_exit h, ho_pumping h)"

definition tally :: "'w host \<Rightarrow> int \<times> int \<times> string list" where
  "tally h = (ho_checks h, ho_failures h, ho_report h)"

lemma restart_keeps [simp]:
  "runner (request_restart r h) = runner h" "tally (request_restart r h) = tally h"
  by (simp_all add: request_restart_def runner_def tally_def)

lemma transmit_keeps [simp]:
  "runner (snd (transmit f h)) = runner h" "tally (snd (transmit f h)) = tally h"
  by (simp_all add: transmit_def runner_def tally_def)

lemma fold_keeps:
  assumes "\<And>x h. p (f x h) = p h"
  shows "p (fold f xs h) = p h"
  using assms by (induction xs arbitrary: h) auto

lemma feed_link_keeps [simp]:
  "runner (feed_link E d h) = runner h" "tally (feed_link E d h) = tally h"
proof -
  obtain fs rs c where l: "he_link E d (ho_chip h) = (fs, rs, c)" by (cases "he_link E d (ho_chip h)") auto
  have "runner (h\<lparr>ho_chip := c\<rparr>) = runner h" "tally (h\<lparr>ho_chip := c\<rparr>) = tally h"
    by (simp_all add: runner_def tally_def)
  then show "runner (feed_link E d h) = runner h" "tally (feed_link E d h) = tally h"
    by (simp_all add: feed_link_def l fold_keeps [of runner] fold_keeps [of tally])
qed

lemma capture_keeps [simp]:
  "runner (h\<lparr>ho_capturing := a, ho_capture := b\<rparr>) = runner h" "tally (h\<lparr>ho_capturing := a, ho_capture := b\<rparr>) = tally h"
  "runner (h\<lparr>ho_capture := b, ho_capturing := a\<rparr>) = runner h" "tally (h\<lparr>ho_capture := b, ho_capturing := a\<rparr>) = tally h"
  by (simp_all add: runner_def tally_def)

lemma request_keeps [simp]:
  "runner (snd (request E m p h)) = runner h" "tally (snd (request E m p h)) = tally h"
  by (simp_all add: request_def Let_def)

lemma send_image_keeps [simp]:
  "runner (snd (send_image E n img h)) = runner h \<and> tally (snd (send_image E n img h)) = tally h"
proof (induction E n img h rule: send_image.induct)
  case (1 E n img h)
  show ?case
  proof (cases "img = []")
    case True
    then show ?thesis using request_keeps [of E OtaFinish "[]" h]
      by (subst (1 2) send_image.simps) (simp add: case_prod_beta)
  next
    case False
    obtain r q h1 where d: "request E OtaData (put_u32 (he_codec E) (word_of_nat n) @ take kChunk img) h = ((r, q), h1)"
      by (metis prod.collapse)
    have k: "runner h1 = runner h" "tally h1 = tally h"
      using request_keeps [of E OtaData "put_u32 (he_codec E) (word_of_nat n) @ take kChunk img" h] d by simp_all
    show ?thesis
    proof (cases "r = ''ok''")
      case True
      then show ?thesis using 1 [OF False d [symmetric] refl] k False
        by (subst (1 2) send_image.simps) (simp add: d)
    next
      case bad: False
      then show ?thesis using request_keeps [of E OtaAbort "[]" h1] k False
        by (subst (1 2) send_image.simps) (simp add: d case_prod_beta)
    qed
  qed
qed

lemma action_reply_keeps [simp]:
  "runner (snd (action_reply E st h)) = runner h" "tally (snd (action_reply E st h)) = tally h"
proof -
  have ask: "runner (snd (ask E m p h)) = runner h" "tally (snd (ask E m p h)) = tally h" for m p
    by (simp_all add: ask_def case_prod_beta)
  have fl: "runner (snd (flash_action E v h)) = runner h" "tally (snd (flash_action E v h)) = tally h" for v
    by (simp_all add: flash_action_def Let_def case_prod_beta)
  have pl: "runner (snd (plant_unusable_calibration E h)) = runner h" "tally (snd (plant_unusable_calibration E h)) = tally h"
    by (simp_all add: plant_unusable_calibration_def case_prod_beta runner_def tally_def)
  show "runner (snd (action_reply E st h)) = runner h" "tally (snd (action_reply E st h)) = tally h"
    by (simp_all add: action_reply_def Let_def ask fl pl case_prod_beta)
qed

lemma record_check_runner [simp]: "runner (record_check p t w h) = runner h"
  by (simp add: record_check_def runner_def)

lemma record_all_runner [simp]: "runner (record_all st i cs h) = runner h"
  unfolding record_all_def by (rule fold_keeps) (simp add: case_prod_beta)

lemma wait_keeps [simp]: "runner (wait_for_restart E h) = runner h" "tally (wait_for_restart E h) = tally h"
  by (simp_all add: wait_for_restart_def split: option.splits)

lemma needs_keeps [simp]:
  "runner (snd (check_needs_calibration E w h)) = runner h" "tally (snd (check_needs_calibration E w h)) = tally h"
  by (simp_all add: check_needs_calibration_def case_prod_beta Let_def split: option.splits)

lemma evaluate_runner [simp]: "runner (evaluate E st i h) = runner h"
proof -
  have "runner (reset_windows h) = runner h" by (simp add: reset_windows_def runner_def)
  then show ?thesis by (simp add: evaluate_def Let_def case_prod_beta)
qed

lemma execute_runner [simp]: "runner (execute E st h) = runner h"
proof (cases "sp_kind st")
  case K_action
  then show ?thesis by (simp add: execute_def case_prod_beta Let_def)
qed (simp_all add: execute_def on_flash_def runner_def split: option.splits)

lemma perform_runner [simp]: "runner (perform E i st h) = runner h"
  by (simp add: perform_def)

section \<open>The runner\<close>

text \<open>\<open>run_script_steps\<close>: the steps that are due, each once; the guard refuses a nested call.\<close>

definition take_step :: "'w host_env \<Rightarrow> 'w host \<Rightarrow> 'w host" where
  "take_step E h = perform E (ho_next h) (sc_steps (ho_script h) ! ho_next h) (h\<lparr>ho_next := ho_next h + 1\<rparr>)"

lemma take_step_runner:
  "runner (take_step E h) = runner (h\<lparr>ho_next := ho_next h + 1\<rparr>)"
  by (simp add: take_step_def)

lemma take_step_fields [simp]:
  "ho_script (take_step E h) = ho_script h" "ho_next (take_step E h) = ho_next h + 1"
  "ho_active (take_step E h) = ho_active h" "ho_started (take_step E h) = ho_started h"
  "ho_script_start (take_step E h) = ho_script_start h" "ho_now (take_step E h) = ho_now h"
  "ho_headless (take_step E h) = ho_headless h" "ho_exit (take_step E h) = ho_exit h"
  "ho_pumping (take_step E h) = ho_pumping h"
  using take_step_runner [of E h] by (simp_all add: runner_def)

function run_due :: "'w host_env \<Rightarrow> 'w host \<Rightarrow> 'w host" where
  "run_due E h = (if step_due h then run_due E (take_step E h) else h)"
  by pat_completeness auto
termination
  by (relation "measure (\<lambda>(E, h). length (sc_steps (ho_script h)) - ho_next h)") (auto simp: step_due_def)

declare run_due.simps [simp del]

definition run_script_steps :: "'w host_env \<Rightarrow> 'w host \<Rightarrow> 'w host" where
  "run_script_steps E h =
     (if ho_pumping h then h
      else (run_due E (h\<lparr>ho_pumping := True\<rparr>))\<lparr>ho_pumping := False\<rparr>)"

definition script_finished :: "'w host \<Rightarrow> bool" where
  "script_finished h \<longleftrightarrow> \<not> ho_active h \<or> length (sc_steps (ho_script h)) \<le> ho_next h"

definition pump :: "'w host_env \<Rightarrow> 'w host \<Rightarrow> 'w host" where
  "pump E h =
     (let h1 = flush_telemetry E (run_script_steps E h) in
      if ho_headless h1 \<and> ho_started h1 \<and> script_finished h1 then h1\<lparr>ho_exit := True\<rparr> else h1)"

text \<open>\<open>VirtualClock::sleep_for\<close>, and \<open>Host::sleep\<close>: the reason when it throws a restart.\<close>

definition clock_sleep :: "millis \<Rightarrow> 'w host \<Rightarrow> 'w host" where
  "clock_sleep d h = h\<lparr>ho_now := ho_now h + of_millis d\<rparr>"

definition host_sleep :: "'w host_env \<Rightarrow> millis \<Rightarrow> 'w host \<Rightarrow> string option \<times> 'w host" where
  "host_sleep E d h =
     (let h1 = pump E (clock_sleep d h) in
      if ho_pending h1 then (case take_reason h1 of (r, h2) \<Rightarrow> (Some r, h2)) else (None, h1))"

end
