(* ===== verification/Runner_Facts.thy ===== *)
theory Runner_Facts
  imports Sim_Runner Service_Payloads
begin

text \<open>
  What a scripted run promises: the steps run once each, in order, when they are due; the exit status
  is zero exactly when every line of the report says PASS; a headless run ends; and the script reads
  from a diagnostics reply the state the firmware put in.
\<close>

section \<open>The steps that are due\<close>

definition due_steps :: "'w host \<Rightarrow> nat list" where
  "due_steps h =
     (if ho_active h
      then takeWhile (\<lambda>i. sp_at (sc_steps (ho_script h) ! i) \<le> now_ms h - ho_script_start h)
             [ho_next h ..< length (sc_steps (ho_script h))]
      else [])"

definition run_step :: "'w host_env \<Rightarrow> script_step list \<Rightarrow> nat \<Rightarrow> 'w host \<Rightarrow> 'w host" where
  "run_step E steps i h = perform E i (steps ! i) (h\<lparr>ho_next := i + 1\<rparr>)"

lemma due_steps_unfold:
  "due_steps h = (if step_due h then ho_next h # due_steps (take_step E h) else [])"
proof (cases "ho_active h \<and> ho_next h < length (sc_steps (ho_script h))")
  case True
  then have "[ho_next h ..< length (sc_steps (ho_script h))] =
      ho_next h # [ho_next h + 1 ..< length (sc_steps (ho_script h))]"
    by (simp add: upt_conv_Cons)
  then show ?thesis using True by (simp add: due_steps_def step_due_def now_ms_def)
qed (auto simp: due_steps_def step_due_def)

lemma run_due_is_fold:
  "run_due E h = fold (run_step E (sc_steps (ho_script h))) (due_steps h) h"
proof (induction E h rule: run_due.induct)
  case (1 E h)
  show ?case
  proof (cases "step_due h")
    case True
    have "run_step E (sc_steps (ho_script h)) (ho_next h) h = take_step E h"
      by (simp add: run_step_def take_step_def)
    then show ?thesis using 1 [OF True] True
      by (subst run_due.simps, subst due_steps_unfold [of h E]) simp
  next
    case False
    then show ?thesis by (subst run_due.simps, subst due_steps_unfold [of h E]) simp
  qed
qed

lemma run_due_runner:
  "runner (run_due E h) = runner (h\<lparr>ho_next := ho_next (run_due E h)\<rparr>) \<and>
   ho_next (run_due E h) = ho_next h + length (due_steps h)"
proof (induction E h rule: run_due.induct)
  case (1 E h)
  show ?case
  proof (cases "step_due h")
    case True
    then have r: "run_due E h = run_due E (take_step E h)" by (subst run_due.simps) simp
    show ?thesis using 1 [OF True] True
      by (simp add: r due_steps_unfold [of h E] runner_def)
  next
    case False
    then show ?thesis by (subst (1 2 3) run_due.simps, subst due_steps_unfold [of h E]) (simp add: runner_def)
  qed
qed

lemma run_due_fields [simp]:
  "ho_script (run_due E h) = ho_script h" "ho_active (run_due E h) = ho_active h"
  "ho_started (run_due E h) = ho_started h" "ho_script_start (run_due E h) = ho_script_start h"
  "ho_now (run_due E h) = ho_now h" "ho_headless (run_due E h) = ho_headless h"
  "ho_exit (run_due E h) = ho_exit h" "ho_pumping (run_due E h) = ho_pumping h"
  "ho_next (run_due E h) = ho_next h + length (due_steps h)"
  using run_due_runner [of E h] by (simp_all add: runner_def)

lemma due_steps_of [simp]:
  "due_steps (h\<lparr>ho_pumping := b\<rparr>) = due_steps h"
  by (simp add: due_steps_def now_ms_def)

text \<open>A host whose firmware is silent, at the start of a script of two steps.\<close>

definition silent_env :: "unit host_env" where
  "silent_env = \<lparr>he_libm = demo_libm, he_codec = plain_codec, he_parse = (\<lambda>bs. []), he_link = (\<lambda>bs c. ([], [], c)),
     he_reboot = (\<lambda>c. None), he_write = (\<lambda>c. Written), he_calibration_path = ''calibration.bin''\<rparr>"

definition demo_host :: "nanos \<Rightarrow> unit host" where
  "demo_host now = start_script demo_script
     (init_host True now \<lparr>ch_flash = format_flash ''1.0'', ch_files = (\<lambda>p. None), ch_mem = ()\<rparr>)"

lemma demo_host_fields:
  "ho_headless (demo_host t)" "ho_started (demo_host t)" "ho_active (demo_host t)" "\<not> ho_pumping (demo_host t)"
  "ho_script (demo_host t) = demo_script" "ho_next (demo_host t) = 0" "ho_now (demo_host t) = t"
  "ho_script_start (demo_host t) = tdiv t 1000000"
  by (simp_all add: demo_host_def start_script_def init_host_def now_ms_def)

text \<open>A call of \<open>run_script_steps\<close> carries out the steps that are due, each once and in the order of the
  script, starting where the last call stopped; none that is due is left for later and none is taken early.\<close>

theorem script_steps_run_in_order:
  assumes "\<not> ho_pumping h" "steps = sc_steps (ho_script h)" "h' = run_script_steps E h"
  shows "h' = (fold (run_step E steps) (due_steps h) (h\<lparr>ho_pumping := True\<rparr>))\<lparr>ho_pumping := False\<rparr> \<and>
    ho_next h' = ho_next h + length (due_steps h) \<and> \<not> step_due h'"
proof -
  have r: "h' = (run_due E (h\<lparr>ho_pumping := True\<rparr>))\<lparr>ho_pumping := False\<rparr>"
    using assms(1,3) by (simp add: run_script_steps_def)
  have stop: "\<not> step_due (run_due E g)" for g
    by (induction E g rule: run_due.induct) (subst run_due.simps, auto)
  have "step_due h' = step_due (run_due E (h\<lparr>ho_pumping := True\<rparr>))"
    by (simp add: r step_due_def now_ms_def)
  moreover have "ho_next h' = ho_next h + length (due_steps h)" by (simp add: r)
  moreover have "run_due E (h\<lparr>ho_pumping := True\<rparr>) = fold (run_step E steps) (due_steps h) (h\<lparr>ho_pumping := True\<rparr>)"
    using run_due_is_fold [of E "h\<lparr>ho_pumping := True\<rparr>"] assms(2) by simp
  ultimately show ?thesis using stop r by metis
qed

theorem script_steps_run_in_order_witness:
  "ho_next (run_script_steps silent_env ((demo_host 0)\<lparr>ho_now := 250000000\<rparr>)) = 1"
proof -
  have "due_steps ((demo_host 0)\<lparr>ho_now := 250000000\<rparr>) = [0]"
    by (simp add: due_steps_def demo_host_fields demo_script_def now_ms_def tdiv_def upt_rec)
  then have "length (due_steps ((demo_host 0)\<lparr>ho_now := 250000000\<rparr>)) = 1" by simp
  moreover have "\<not> ho_pumping ((demo_host 0)\<lparr>ho_now := 250000000\<rparr>)" by (simp add: demo_host_fields)
  from script_steps_run_in_order [OF this refl refl, of silent_env]
  have "ho_next (run_script_steps silent_env ((demo_host 0)\<lparr>ho_now := 250000000\<rparr>)) =
      ho_next ((demo_host 0)\<lparr>ho_now := 250000000\<rparr>) + length (due_steps ((demo_host 0)\<lparr>ho_now := 250000000\<rparr>))"
    by blast
  moreover have "ho_next ((demo_host 0)\<lparr>ho_now := 250000000\<rparr>) = 0" by (simp add: demo_host_fields)
  ultimately show ?thesis by linarith
qed

section \<open>The report\<close>

definition is_pass :: "string \<Rightarrow> bool" where
  "is_pass l \<longleftrightarrow> take 4 l = ''PASS''"

definition tally_ok :: "'w host \<Rightarrow> bool" where
  "tally_ok h \<longleftrightarrow> ho_failures h = int (length (filter (\<lambda>l. \<not> is_pass l) (ho_report h))) \<and>
     ho_checks h \<le> int (length (ho_report h)) \<and> int (length (ho_report h)) \<le> ho_checks h + ho_failures h"

lemma tally_ok_cong: "tally h' = tally h \<Longrightarrow> tally_ok h' = tally_ok h"
  by (simp add: tally_ok_def tally_def)

lemma record_check_ok: "tally_ok h \<Longrightarrow> tally_ok (record_check p t w h)"
  by (auto simp: tally_ok_def record_check_def is_pass_def)

lemma fold_ok: "(\<And>x h. tally_ok h \<Longrightarrow> tally_ok (f x h)) \<Longrightarrow> tally_ok h \<Longrightarrow> tally_ok (fold f xs h)"
  by (induction xs arbitrary: h) auto

lemma record_all_ok: "tally_ok h \<Longrightarrow> tally_ok (record_all st i cs h)"
  unfolding record_all_def by (rule fold_ok) (auto intro: record_check_ok)

lemma perform_ok: "tally_ok h \<Longrightarrow> tally_ok (perform E i st h)"
proof -
  assume h: "tally_ok h"
  have w: "tally_ok (reset_windows h)" using h by (simp add: tally_ok_def reset_windows_def)
  have n: "tally_ok (snd (check_needs_calibration E v g))" if "tally_ok g" for v and g :: "'a host"
    using that tally_ok_cong [OF needs_keeps(2)] by blast
  have e: "tally_ok (evaluate E st i h)"
    by (auto simp: evaluate_def Let_def case_prod_beta intro!: record_all_ok n w)
  have a: "tally_ok (snd (action_reply E st h))" using h tally_ok_cong [OF action_reply_keeps(2)] by blast
  have v: "tally_ok (wait_for_restart E g) = tally_ok g" for g by (rule tally_ok_cong) simp
  have f: "tally_ok (on_flash u h)" "tally_ok (h\<lparr>ho_sensor := m\<rparr>)" for u m
    using h by (simp_all add: tally_ok_def on_flash_def)
  show ?thesis
  proof (cases "sp_kind st")
    case K_action
    then show ?thesis
      by (auto simp: perform_def execute_def case_prod_beta Let_def v intro!: record_check_ok a)
  qed (use h e f in \<open>auto simp: perform_def execute_def split: option.splits\<close>)
qed

lemma flush_keeps [simp]: "runner (flush_telemetry E h) = runner h" "tally (flush_telemetry E h) = tally h"
proof -
  have j: "runner (send_json v g) = runner g" "tally (send_json v g) = tally g" for v and g :: "'a host"
    by (simp_all add: send_json_def runner_def tally_def)
  have m: "runner (snd (hid_message g)) = runner g" "tally (snd (hid_message g)) = tally g" for g :: "'a host"
    by (simp_all add: hid_message_def runner_def tally_def)
  have w: "runner (g\<lparr>agg_dx := 0, agg_dy := 0, agg_wheel := 0, agg_dirty := False, last_hid_ns := n\<rparr>) = runner g"
    "tally (g\<lparr>agg_dx := 0, agg_dy := 0, agg_wheel := 0, agg_dirty := False, last_hid_ns := n\<rparr>) = tally g"
    "runner (g\<lparr>last_sensor_ns := n\<rparr>) = runner g" "tally (g\<lparr>last_sensor_ns := n\<rparr>) = tally g"
    "runner (g\<lparr>last_source_key := k, last_source_ns := n\<rparr>) = runner g"
    "tally (g\<lparr>last_source_key := k, last_source_ns := n\<rparr>) = tally g"
    for g :: "'a host" and n k by (simp_all add: runner_def tally_def)
  have a: "runner (flush_hid g) = runner g" "tally (flush_hid g) = tally g" for g :: "'a host"
    using m [of g] by (simp_all add: flush_hid_def case_prod_beta Let_def j w split: option.splits)
  have b: "runner (flush_sensor E g) = runner g" "tally (flush_sensor E g) = tally g" for g :: "'a host"
    by (simp_all add: flush_sensor_def Let_def j w)
  have c: "runner (flush_source g) = runner g" "tally (flush_source g) = tally g" for g :: "'a host"
    by (simp_all add: flush_source_def Let_def j w)
  show "runner (flush_telemetry E h) = runner h" "tally (flush_telemetry E h) = tally h"
    by (simp_all add: flush_telemetry_def a b c)
qed

lemma run_due_ok: "tally_ok h \<Longrightarrow> tally_ok (run_due E h)"
  unfolding run_due_is_fold
proof (rule fold_ok)
  fix i and g :: "'a host" assume "tally_ok g"
  then have "tally_ok (g\<lparr>ho_next := i + 1\<rparr>)" by (simp add: tally_ok_def)
  then show "tally_ok (run_step E (sc_steps (ho_script h)) i g)" unfolding run_step_def by (rule perform_ok)
qed

lemma pump_ok: "tally_ok h \<Longrightarrow> tally_ok (pump E h)"
proof -
  assume h: "tally_ok h"
  have "tally_ok (run_script_steps E h)"
    using h run_due_ok [of "h\<lparr>ho_pumping := True\<rparr>" E] by (auto simp: run_script_steps_def tally_ok_def)
  then have "tally_ok (flush_telemetry E (run_script_steps E h))" using tally_ok_cong [OF flush_keeps(2)] by blast
  then show ?thesis by (simp add: pump_def Let_def tally_ok_def)
qed

text \<open>What can happen to the host: simulated time, the page, the link, the firmware's calls.\<close>

datatype host_op = Sleep_for millis | Page_text string | Page_bytes bytes | Page_connects | Firmware_prompt string
  | Firmware_mouse mouse_report | Firmware_xac xac_report | Firmware_frame bytes | Restart_asked string
  | Note string | Play_from_start script

definition host_step :: "'w host_env \<Rightarrow> host_op \<Rightarrow> 'w host \<Rightarrow> 'w host" where
  "host_step E p h =
     (case p of Sleep_for d \<Rightarrow> snd (host_sleep E d h) | Page_text t \<Rightarrow> on_text t h | Page_bytes bs \<Rightarrow> on_binary E bs h
      | Page_connects \<Rightarrow> on_connect h | Firmware_prompt t \<Rightarrow> calibration_prompt t h
      | Firmware_mouse r \<Rightarrow> on_mouse r h | Firmware_xac r \<Rightarrow> on_xac r h
      | Firmware_frame f \<Rightarrow> snd (transmit f h) | Restart_asked r \<Rightarrow> request_restart r h
      | Note m \<Rightarrow> note_error m h | Play_from_start sc \<Rightarrow> start_script sc h)"

lemma send_json_tally [simp]: "tally (send_json v h) = tally h"
  by (simp add: send_json_def tally_def)

lemma reject_tally [simp]: "tally (reject_control w h) = tally h"
  by (simp add: reject_control_def)

lemma handle_control_tally: "tally (handle_control msg h) = tally h"
proof -
  have u: "tally (h\<lparr>ho_stick := s\<rparr>) = tally h" "tally (h\<lparr>ho_stick := s, ho_active := b\<rparr>) = tally h"
    "tally (h\<lparr>ho_sensor := m\<rparr>) = tally h" "tally (on_flash f h) = tally h" "tally (start_script sc h) = tally h"
    "tally (h\<lparr>ho_wipe := b\<rparr>) = tally h"
    for s b m f sc by (simp_all add: tally_def on_flash_def start_script_def)
  have sc: "tally (control_script msg h) = tally h"
    by (simp add: control_script_def u split: option.splits sum.splits)
  have st: "tally (if b1 then reject_control w h else h\<lparr>ho_stick := s\<rparr>) = tally h" for b1 w s by (simp add: u)
  have p: "tally (case q of (False, y) \<Rightarrow> reject_control w h | (True, s) \<Rightarrow> h\<lparr>ho_stick := s\<rparr>) = tally h" for q w
    by (simp add: u split: prod.splits bool.splits)
  have f: "tally (case q of None \<Rightarrow> reject_control w h | Some x \<Rightarrow> h\<lparr>ho_sensor := k x\<rparr>) = tally h"
    for q :: "sim_fault option" and w k by (simp add: u split: option.splits)
  have d: "tally (case q of Inl x \<Rightarrow> reject_control x h | Inr x \<Rightarrow> h\<lparr>ho_sensor := k x\<rparr>) = tally h"
    for q :: "string + double" and k by (simp add: u split: sum.splits)
  have n: "tally (case q of None \<Rightarrow> reject_control w h | Some x \<Rightarrow> on_flash (k x) h) = tally h"
    for q :: "next_image option" and w k by (simp add: u split: option.splits)
  show ?thesis unfolding handle_control_def Let_def
    by (simp only: if_distrib [of tally] st p sc u f d n restart_keeps reject_tally if_cancel)
qed

lemma host_step_ok: "tally_ok h \<Longrightarrow> tally_ok (host_step E p h)"
proof -
  assume h: "tally_ok h"
  note keep = h [THEN tally_ok_cong [THEN iffD2, rotated]]
  show ?thesis
  proof (cases p)
    case (Sleep_for d)
    have "tally_ok (pump E (clock_sleep d h))"
      using h by (intro pump_ok) (simp add: clock_sleep_def tally_ok_def)
    then show ?thesis
      by (simp add: host_step_def Sleep_for host_sleep_def Let_def take_reason_def) (simp add: tally_ok_def)
  next
    case (Page_text t)
    show ?thesis unfolding host_step_def Page_text host_op.case on_text_def
      by (rule keep) (simp add: handle_control_tally split: option.splits sum.splits json.splits)
  next
    case (Note m)
    then show ?thesis using h by (auto simp: host_step_def note_error_def tally_ok_def is_pass_def)
  next
    case (Play_from_start sc)
    show ?thesis unfolding host_step_def Play_from_start host_op.case
      by (rule keep) (simp add: start_script_def tally_def)
  next
    case (Page_bytes bs)
    show ?thesis unfolding host_step_def Page_bytes host_op.case by (rule keep) (simp add: on_binary_def)
  next
    case Page_connects
    show ?thesis unfolding host_step_def Page_connects host_op.case on_connect_def
      by (rule keep) (simp, simp add: tally_def)
  next
    case (Firmware_prompt t)
    show ?thesis unfolding host_step_def Firmware_prompt host_op.case
      by (rule keep) (simp add: calibration_prompt_def console_text_def tally_def)
  next
    case (Firmware_mouse r)
    show ?thesis unfolding host_step_def Firmware_mouse host_op.case
      by (rule keep) (simp add: on_mouse_def tally_def)
  next
    case (Firmware_xac r)
    show ?thesis unfolding host_step_def Firmware_xac host_op.case
      by (rule keep) (simp add: on_xac_def tally_def)
  next
    case (Firmware_frame f)
    show ?thesis unfolding host_step_def Firmware_frame host_op.case by (rule keep) simp
  next
    case (Restart_asked r)
    show ?thesis unfolding host_step_def Restart_asked host_op.case by (rule keep) simp
  qed
qed

definition host_run :: "'w host_env \<Rightarrow> host_op list \<Rightarrow> 'w host \<Rightarrow> 'w host" where
  "host_run E ops = fold (host_step E) ops"

text \<open>C33: Whatever happens during a run, the exit status of \<open>finish_report\<close> is 0 exactly when the report has
  lines and every one of them says PASS: no failed check or error is lost, and a run without checks fails.\<close>

theorem exit_status_is_the_report:
  "finish_report (host_run E ops (init_host hl now c)) = 0 \<longleftrightarrow>
    ho_report (host_run E ops (init_host hl now c)) \<noteq> [] \<and>
    list_all is_pass (ho_report (host_run E ops (init_host hl now c)))"
proof -
  let ?h = "host_run E ops (init_host hl now c)"
  have "tally_ok (init_host hl now c)" by (simp add: tally_ok_def init_host_def)
  with host_step_ok have "tally_ok (fold (host_step E) ops (init_host hl now c))" by (rule fold_ok)
  then have t: "ho_failures ?h = int (length (filter (\<lambda>l. \<not> is_pass l) (ho_report ?h)))"
    "ho_checks ?h \<le> int (length (ho_report ?h))" "int (length (ho_report ?h)) \<le> ho_checks ?h + ho_failures ?h"
    by (simp_all add: tally_ok_def host_run_def)
  have "list_all is_pass (ho_report ?h) \<longleftrightarrow> ho_failures ?h = 0"
    by (auto simp: t(1) filter_empty_conv list_all_iff)
  then show ?thesis using t(2,3) by (cases "ho_report ?h") (auto simp: finish_report_def)
qed

section \<open>The end of a headless run\<close>

lemma due_all:
  assumes "\<forall>st \<in> set (sc_steps (ho_script h)). sp_at st \<le> now_ms h - ho_script_start h" "ho_active h"
  shows "due_steps h = [ho_next h ..< length (sc_steps (ho_script h))]"
  using assms by (simp add: due_steps_def takeWhile_eq_all_conv)

lemma pump_runner:
  "ho_script (pump E h) = ho_script h" "ho_active (pump E h) = ho_active h" "ho_started (pump E h) = ho_started h"
  "ho_script_start (pump E h) = ho_script_start h" "ho_now (pump E h) = ho_now h"
  "ho_headless (pump E h) = ho_headless h" "\<not> ho_pumping h \<Longrightarrow> \<not> ho_pumping (pump E h)"
  "\<not> ho_pumping h \<Longrightarrow> ho_next (pump E h) = ho_next h + length (due_steps h)"
  using flush_keeps(1) [of E "run_script_steps E h"]
  by (simp_all add: pump_def Let_def run_script_steps_def runner_def split: if_splits)

text \<open>What happens in a headless run: time passes and the firmware acts; there is no page.\<close>

fun slept :: "host_op list \<Rightarrow> millis" where
  "slept [] = 0"
| "slept (Sleep_for d # ops) = d + slept ops"
| "slept (p # ops) = slept ops"

definition firmware_op :: "host_op \<Rightarrow> bool" where
  "firmware_op p \<longleftrightarrow> (case p of Page_text t \<Rightarrow> False | Page_bytes b \<Rightarrow> False | Page_connects \<Rightarrow> False
     | Play_from_start sc \<Rightarrow> False | _ \<Rightarrow> True)"

definition on_course :: "script \<Rightarrow> int \<Rightarrow> nanos \<Rightarrow> 'w host \<Rightarrow> bool" where
  "on_course sc start now h \<longleftrightarrow> ho_headless h \<and> ho_started h \<and> ho_active h \<and> \<not> ho_pumping h \<and> ho_script h = sc \<and>
     ho_script_start h = start \<and> ho_now h = now"

definition finished :: "'w host \<Rightarrow> bool" where
  "finished h \<longleftrightarrow> ho_exit h \<and> length (sc_steps (ho_script h)) \<le> ho_next h"

lemma quiet_op:
  assumes "firmware_op p" "\<nexists>d. p = Sleep_for d"
  shows "on_course sc start now (host_step E p h) = on_course sc start now h" "finished (host_step E p h) = finished h"
  using assms
  by (auto simp: host_step_def firmware_op_def on_course_def finished_def calibration_prompt_def console_text_def
      on_mouse_def on_xac_def transmit_def request_restart_def note_error_def split: host_op.splits)

lemma sleep_op:
  assumes "on_course sc start now h"
  shows "on_course sc start (now + of_millis d) (host_step E (Sleep_for d) h)"
    "finished h \<Longrightarrow> finished (host_step E (Sleep_for d) h)"
    "\<forall>st \<in> set (sc_steps sc). sp_at st \<le> tdiv (now + of_millis d) 1000000 - start \<Longrightarrow>
     finished (host_step E (Sleep_for d) h)"
proof -
  define g where "g = clock_sleep d h"
  have g: "on_course sc start (now + of_millis d) g" "ho_next g = ho_next h" "ho_exit g = ho_exit h"
    using assms by (simp_all add: g_def clock_sleep_def on_course_def)
  have s: "host_step E (Sleep_for d) h = (if ho_pending (pump E g) then snd (take_reason (pump E g)) else pump E g)"
    by (simp add: host_step_def host_sleep_def Let_def g_def case_prod_beta)
  have k: "on_course sc start t (host_step E (Sleep_for d) h) = on_course sc start t (pump E g)"
    "finished (host_step E (Sleep_for d) h) = finished (pump E g)" for t
    by (simp_all add: s take_reason_def on_course_def finished_def)
  have p: "on_course sc start (now + of_millis d) (pump E g)"
    using g(1) by (simp add: on_course_def pump_runner)
  have x: "ho_exit (pump E g) = (ho_exit g \<or> script_finished (flush_telemetry E (run_script_steps E g)))"
    using g(1) flush_keeps(1) [of E "run_script_steps E g"]
    by (auto simp: pump_def Let_def on_course_def run_script_steps_def runner_def)
  have n: "ho_next (pump E g) = ho_next g + length (due_steps g)"
    using g(1) by (intro pump_runner) (simp add: on_course_def)
  show "on_course sc start (now + of_millis d) (host_step E (Sleep_for d) h)" using p k by simp
  have "finished h \<Longrightarrow> finished (pump E g)"
    using assms p g x n by (auto simp: finished_def on_course_def)
  then show "finished h \<Longrightarrow> finished (host_step E (Sleep_for d) h)" by (simp only: k)
  assume "\<forall>st \<in> set (sc_steps sc). sp_at st \<le> tdiv (now + of_millis d) 1000000 - start"
  then have "due_steps g = [ho_next g ..< length (sc_steps (ho_script g))]"
    using g(1) by (intro due_all) (auto simp: on_course_def now_ms_def)
  then have m: "length (sc_steps sc) \<le> ho_next (pump E g)" using n g(1) by (auto simp: on_course_def)
  have "script_finished (pump E g)" using m p by (simp add: script_finished_def on_course_def)
  then have "script_finished (flush_telemetry E (run_script_steps E g))"
    by (auto simp: pump_def Let_def script_finished_def split: if_splits)
  then have "finished (pump E g)" using m p x by (simp add: finished_def on_course_def)
  then show "finished (host_step E (Sleep_for d) h)" by (simp only: k)
qed

lemma run_ends:
  assumes "on_course sc start now h" "list_all firmware_op ops" "slept ops \<noteq> 0"
    "\<forall>st \<in> set (sc_steps sc). sp_at st \<le> tdiv (now + of_millis (slept ops)) 1000000 - start"
  shows "finished (host_run E ops h)"
proof -
  have keep: "finished (host_run E ops h) \<and> on_course sc start (now + of_millis (slept ops)) (host_run E ops h)"
    if "finished h" "on_course sc start now h" "list_all firmware_op ops" for h :: "'a host" and now ops
    using that
  proof (induction ops arbitrary: h now)
    case (Cons p ops)
    show ?case
    proof (cases "\<exists>d. p = Sleep_for d")
      case True
      then obtain d where d: "p = Sleep_for d" by blast
      show ?thesis using Cons.IH [OF sleep_op(2) [OF Cons.prems(2,1)] sleep_op(1) [OF Cons.prems(2)]] Cons.prems(3)
        by (simp add: d host_run_def of_millis_def algebra_simps)
    next
      case False
      then have "slept (p # ops) = slept ops" by (cases p) auto
      moreover have f: "firmware_op p" using Cons.prems by simp
      ultimately show ?thesis using Cons by (simp add: host_run_def quiet_op [OF f False])
    qed
  qed (simp add: host_run_def of_millis_def)
  show ?thesis using assms
  proof (induction ops arbitrary: h now)
    case (Cons p ops)
    show ?case
    proof (cases "\<exists>d. p = Sleep_for d")
      case True
      then obtain d where d: "p = Sleep_for d" by blast
      have f: "list_all firmware_op ops" using Cons.prems(2) by simp
      show ?thesis
      proof (cases "slept ops = 0")
        case True
        then have "finished (host_step E p h)"
          using sleep_op(3) [OF Cons.prems(1)] Cons.prems(4) by (simp add: d)
        then show ?thesis using keep [OF _ sleep_op(1) [OF Cons.prems(1)] f] by (simp add: d host_run_def)
      next
        case False
        have e: "now + of_millis d + of_millis (slept ops) = now + of_millis (slept (p # ops))"
          by (simp add: d of_millis_def algebra_simps)
        show ?thesis
          using Cons.IH [OF sleep_op(1) [OF Cons.prems(1), of d E] f False] Cons.prems(4)
          by (simp add: e d [symmetric] host_run_def)
      qed
    next
      case False
      then have "slept (p # ops) = slept ops" by (cases p) auto
      moreover have f: "firmware_op p" using Cons.prems by simp
      ultimately show ?thesis using Cons by (simp add: host_run_def quiet_op [OF f False])
    qed
  qed simp
qed

text \<open>C34: A headless run with a script ends: once the simulated time that has passed reaches the time of the last
  step, every step has been taken and the run is told to exit, whatever the firmware sent, printed or crashed with
  in between.\<close>

theorem headless_run_ends:
  assumes "ho_headless h" "ho_started h" "ho_active h" "\<not> ho_pumping h" "list_all firmware_op ops" "slept ops \<noteq> 0"
    "\<forall>st \<in> set (sc_steps (ho_script h)).
       sp_at st \<le> tdiv (ho_now h + of_millis (slept ops)) 1000000 - ho_script_start h"
    "h' = host_run E ops h"
  shows "ho_exit h' \<and> length (sc_steps (ho_script h')) \<le> ho_next h'"
  using run_ends [of "ho_script h" "ho_script_start h" "ho_now h" h ops E] assms
  by (simp add: on_course_def finished_def)

theorem headless_run_ends_witness:
  "ho_exit (host_run silent_env [Sleep_for 150, Restart_asked ''crash'', Sleep_for 250] (demo_host 0))"
  using headless_run_ends [OF _ _ _ _ _ _ _ refl, of "demo_host 0"
      "[Sleep_for 150, Restart_asked ''crash'', Sleep_for 250]" silent_env]
  by (simp add: demo_host_fields demo_script_def firmware_op_def of_millis_def tdiv_def)

section \<open>The state in a diagnostics reply\<close>

lemma reset_bytes_shape:
  assumes "\<And>v. length (put_u32 C v) = 4"
  shows "length (reset_bytes C r) = 7 + length (name_bytes r)" "unat (reset_bytes C r ! 6) = length (name_bytes r)"
proof -
  have l: "length (name_bytes r) \<le> 255" by (simp add: name_bytes_def)
  show "length (reset_bytes C r) = 7 + length (name_bytes r)" by (simp add: reset_bytes_def assms)
  have "reset_bytes C r ! 6 = word_of_nat (length (name_bytes r))"
    by (simp add: reset_bytes_def nth_append assms)
  then show "unat (reset_bytes C r ! 6) = length (name_bytes r)"
    using l by (simp add: unat_of_nat take_bit_eq_mod)
qed

lemma skip_resets_over:
  assumes "\<And>v. length (put_u32 C v) = 4"
  shows "skip_resets (length rs) (length pre) (pre @ concat (map (reset_bytes C) rs) @ rest) =
    Some (length pre + length (concat (map (reset_bytes C) rs)))"
proof (induction rs arbitrary: pre)
  case (Cons r rs)
  note s = reset_bytes_shape [OF assms, of r]
  have n: "unat ((reset_bytes C r @ tl) ! 6) = length (name_bytes r)" for tl
    using s by (simp add: nth_append)
  have g: "\<not> length pre + length (reset_bytes C r) + rest' < length pre + 7" for rest' by (simp add: s)
  show ?case using Cons.IH [of "pre @ reset_bytes C r"] g by (simp add: n s(1) algebra_simps)
qed simp

text \<open>The script's reader of a diagnostics reply finds the calibration state the firmware wrote at its end,
  however many resets of whatever names stand before it.\<close>

theorem calibration_state_is_read_back:
  assumes "\<And>v. length (put_u32 C v) = 4" "12 \<le> kMaxPayloadSize C"
  shows "diagnostics_calibration_state (build_diagnostics_payload C d) = uint (dg_calibration_state d)"
proof -
  let ?m = "length (dg_resets d)"
  obtain k where k: "fitting (kMaxPayloadSize C) 12 0 (rev (dg_resets d)) = k" "k \<le> ?m" "k \<le> 255"
    using fitting_spec [of 12 "kMaxPayloadSize C" 0 "rev (dg_resets d)"] assms(2) by auto
  define kept where "kept = drop (?m - k) (dg_resets d)"
  define h where "h = [dg_fault d, dg_first_fault d] @ put_u32 C (dg_fault_count d) @ put_u32 C (dg_boot_count d)"
  have l: "length h = 10" "length kept = k" using k(2) by (simp_all add: h_def kept_def assms(1))
  have "fitting (kMaxPayloadSize C) (length h + 1 + 1) 0 (rev (dg_resets d)) = k" using k(1) l(1) by simp
  then have p: "build_diagnostics_payload C d =
      (h @ [word_of_nat k]) @ concat (map (reset_bytes C) kept) @ [dg_calibration_state d]"
    unfolding build_diagnostics_payload_def Let_def h_def [symmetric] using l(2) by (simp add: kept_def [symmetric])
  have n: "unat (build_diagnostics_payload C d ! 10) = k"
    using k(3) l(1) by (simp add: p nth_append unat_of_nat take_bit_eq_mod)
  have "skip_resets k 11 (build_diagnostics_payload C d) = Some (11 + length (concat (map (reset_bytes C) kept)))"
    using skip_resets_over [OF assms(1), of kept "h @ [word_of_nat k]" "[dg_calibration_state d]"] l
    by (simp add: p)
  moreover have "length (build_diagnostics_payload C d) = 12 + length (concat (map (reset_bytes C) kept))"
    using l by (simp add: p)
  moreover have "build_diagnostics_payload C d ! (11 + length (concat (map (reset_bytes C) kept))) = dg_calibration_state d"
    using l by (simp add: p nth_append)
  ultimately show ?thesis by (simp add: diagnostics_calibration_state_def n)
qed

theorem calibration_state_is_read_back_witness:
  "diagnostics_calibration_state (build_diagnostics_payload plain_codec \<lparr>dg_fault = 3, dg_first_fault = 0,
     dg_fault_count = 0, dg_boot_count = 2, dg_resets = [\<lparr>ri_boot = 1, ri_reason = 1, ri_abnormal = False,
       ri_name = ''power-on''\<rparr>, \<lparr>ri_boot = 2, ri_reason = 4, ri_abnormal = True, ri_name = ''panic''\<rparr>],
     dg_calibration_state = CALIBRATION_NEEDED\<rparr>) = 1"
  using calibration_state_is_read_back [OF plain_codec_sizes(1)] by (simp add: plain_codec_sizes CALIBRATION_NEEDED_def)

end
