(* ===== verification/Sim_Firmware.thy ===== *)
theory Sim_Firmware
  imports Sim_Host Device_Runs
begin

text \<open>
  \<open>sim/src/firmware.cpp\<close>: what the simulator repeats of \<open>main/main.cpp\<close> (reset reasons by number, the
  sensor status, the diagnostics), and the head of its boot: the reset log, the crash-loop handover and
  the images that crash on purpose. What an image does once it runs is the subject of the device
  theories.
\<close>

section \<open>The helpers repeated from the firmware\<close>

definition kRstPoweron :: int where "kRstPoweron = 1"
definition kRstSw :: int where "kRstSw = 3"
definition kRstPanic :: int where "kRstPanic = 4"

definition sim_reason_name :: "int \<Rightarrow> string" where
  "sim_reason_name r =
     (if r = 1 then ''power-on'' else if r = 2 then ''external pin'' else if r = 3 then ''software''
      else if r = 4 then ''panic'' else if r = 5 then ''interrupt watchdog'' else if r = 6 then ''task watchdog''
      else if r = 7 then ''watchdog'' else if r = 8 then ''deep sleep'' else if r = 9 then ''brownout''
      else if r = 10 then ''sdio'' else if r = 11 then ''usb'' else if r = 12 then ''jtag''
      else if r = 13 then ''efuse error'' else if r = 14 then ''power glitch'' else if r = 15 then ''cpu lockup''
      else ''unknown'')"

definition sim_is_crash :: "int \<Rightarrow> bool" where
  "sim_is_crash r \<longleftrightarrow> r = 4 \<or> r = 5 \<or> r = 6 \<or> r = 7 \<or> r = 15"

definition sim_is_abnormal :: "int \<Rightarrow> bool" where
  "sim_is_abnormal r \<longleftrightarrow> sim_is_crash r \<or> r = 9 \<or> r = 13 \<or> r = 14"

definition sim_display_name :: "entry \<Rightarrow> string" where
  "sim_display_name e = (if e_slot e = [] then e_name e else e_name e @ '' ('' @ e_slot e @ '')'')"

definition sim_publish :: "bool \<Rightarrow> sensor_fault \<Rightarrow> u32 \<Rightarrow> sensor_status \<Rightarrow> sensor_status" where
  "sim_publish is_faulted kind n s =
     (let s1 = s\<lparr>ss_fault := (if is_faulted then fault_code kind else fault_code NO_FAULT)\<rparr>;
          s2 = (if is_faulted \<and> ss_first_fault s1 = 0 then s1\<lparr>ss_first_fault := fault_code kind\<rparr> else s1) in
      s2\<lparr>ss_count := n\<rparr>)"

definition sim_observed_healthy :: "sensor_status \<Rightarrow> sensor_status" where
  "sim_observed_healthy s = (if ss_fault s = SENSOR_NOT_OBSERVED then s\<lparr>ss_fault := 0\<rparr> else s)"

definition sim_diagnostics :: "reset_log \<Rightarrow> sensor_status \<Rightarrow> bool \<Rightarrow> diagnostics" where
  "sim_diagnostics l s needs =
     \<lparr>dg_fault = ss_fault s, dg_first_fault = ss_first_fault s, dg_fault_count = ss_count s,
      dg_boot_count = boot_count l,
      dg_resets = map (\<lambda>e. \<lparr>ri_boot = e_boot e, ri_reason = word_of_int (max 0 (min (e_reason e) 255)),
                           ri_abnormal = e_abnormal e, ri_name = sim_display_name e\<rparr>) (log_entries l),
      dg_calibration_state = (if needs then CALIBRATION_NEEDED else CALIBRATION_USABLE)\<rparr>"

text \<open>The reset reasons in the order of their documented codes, which start at 1.\<close>

definition coded_reasons :: "reset_reason list" where
  "coded_reasons = [RST_POWERON, RST_EXT, RST_SW, RST_PANIC, RST_INT_WDT, RST_TASK_WDT, RST_WDT, RST_DEEPSLEEP,
     RST_BROWNOUT, RST_SDIO, RST_USB, RST_JTAG, RST_EFUSE, RST_PWR_GLITCH, RST_CPU_LOCKUP]"

definition esp_codes :: "(reset_reason \<Rightarrow> int) \<Rightarrow> bool" where
  "esp_codes code \<longleftrightarrow> map code coded_reasons = [1 .. 15] \<and> code RST_UNKNOWN = 0"

lemma coded_cases:
  assumes "esp_codes code"
  shows "code RST_POWERON = 1" "code RST_EXT = 2" "code RST_SW = 3" "code RST_PANIC = 4" "code RST_INT_WDT = 5"
    "code RST_TASK_WDT = 6" "code RST_WDT = 7" "code RST_DEEPSLEEP = 8" "code RST_BROWNOUT = 9" "code RST_SDIO = 10"
    "code RST_USB = 11" "code RST_JTAG = 12" "code RST_EFUSE = 13" "code RST_PWR_GLITCH = 14"
    "code RST_CPU_LOCKUP = 15" "code RST_UNKNOWN = 0"
  using assms by (simp_all add: esp_codes_def coded_reasons_def upto_rec1)

text \<open>The simulator's copies agree with the firmware: with the documented codes of the reset reasons they give the
  same names and the same crashes, the sensor status behaves the same, and the diagnostics a console asks for are
  those of the firmware.\<close>

theorem mirror_agrees_with_the_firmware:
  assumes "esp_codes code"
  shows "sim_reason_name (code r) = reset_reason_name r \<and> sim_is_crash (code r) = reset_reason_is_crash r \<and>
    sim_is_abnormal (code r) = reset_reason_is_abnormal r \<and> sim_publish b k n s = publish b k n s \<and>
    sim_observed_healthy s = observed_healthy s \<and>
    sim_diagnostics (dv_log d) (dv_status d) (dv_needs_calibration d) = make_diagnostics d"
proof -
  note defs = sim_reason_name_def reset_reason_name_def sim_is_crash_def reset_reason_is_crash_def
    sim_is_abnormal_def reset_reason_is_abnormal_def
  have "sim_reason_name (code r) = reset_reason_name r \<and> sim_is_crash (code r) = reset_reason_is_crash r \<and>
      sim_is_abnormal (code r) = reset_reason_is_abnormal r"
    using coded_cases [OF assms] by (cases r) (simp_all add: defs)
  moreover have "sim_publish b k n s = publish b k n s" by (simp add: sim_publish_def publish_def Let_def)
  moreover have "sim_observed_healthy s = observed_healthy s"
    by (simp add: sim_observed_healthy_def observed_healthy_def)
  moreover have "sim_display_name = reset_log_display_name"
    by (rule ext) (simp add: sim_display_name_def reset_log_display_name_def)
  ultimately show ?thesis by (simp add: sim_diagnostics_def make_diagnostics_def)
qed

definition documented_code :: "reset_reason \<Rightarrow> int" where
  "documented_code r = (case r of RST_POWERON \<Rightarrow> 1 | RST_EXT \<Rightarrow> 2 | RST_SW \<Rightarrow> 3 | RST_PANIC \<Rightarrow> 4 | RST_INT_WDT \<Rightarrow> 5
     | RST_TASK_WDT \<Rightarrow> 6 | RST_WDT \<Rightarrow> 7 | RST_DEEPSLEEP \<Rightarrow> 8 | RST_BROWNOUT \<Rightarrow> 9 | RST_SDIO \<Rightarrow> 10 | RST_USB \<Rightarrow> 11
     | RST_JTAG \<Rightarrow> 12 | RST_EFUSE \<Rightarrow> 13 | RST_PWR_GLITCH \<Rightarrow> 14 | RST_CPU_LOCKUP \<Rightarrow> 15 | RST_UNKNOWN \<Rightarrow> 0)"

theorem mirror_agrees_with_the_firmware_witness:
  "sim_is_crash (documented_code RST_TASK_WDT) \<and> reset_reason_is_crash RST_TASK_WDT \<and>
   sim_reason_name (documented_code RST_TASK_WDT) = reset_reason_name RST_TASK_WDT"
proof -
  have "esp_codes documented_code"
    by (simp add: esp_codes_def coded_reasons_def documented_code_def upto_rec1)
  from mirror_agrees_with_the_firmware [OF this, of RST_TASK_WDT]
  have "sim_is_crash (documented_code RST_TASK_WDT) = reset_reason_is_crash RST_TASK_WDT"
    "sim_reason_name (documented_code RST_TASK_WDT) = reset_reason_name RST_TASK_WDT" by blast+
  then show ?thesis by (simp add: reset_reason_is_crash_def)
qed

section \<open>The head of the boot\<close>

text \<open>What the disk does during a boot.\<close>

record sim_disk =
  dk_rename_ok :: bool
  dk_open_ok :: bool
  dk_saved :: save_outcome
  dk_log_path :: string

record sim_board =
  bd_files :: files
  bd_flash :: flash
  bd_marker :: u32

definition sim_log_boot :: "sim_disk \<Rightarrow> int \<Rightarrow> string \<Rightarrow> files \<Rightarrow> reset_log \<times> files" where
  "sim_log_boot D reason slot_label fs =
     (case load_log (dk_rename_ok D) (dk_open_ok D) (dk_log_path D) RESET_LOG_ENTRIES fs of (ok, l, fs1) \<Rightarrow>
        let l1 = record_reset reason (sim_reason_name reason) (sim_is_abnormal reason) slot_label l in
        (l1, snd (save_log (dk_saved D) (dk_log_path D) l1 fs1)))"

definition sim_boot_records :: "reset_log \<Rightarrow> boot_record list" where
  "sim_boot_records l = map (\<lambda>e. \<lparr>br_slot = e_slot e, br_crash = sim_is_crash (e_reason e)\<rparr>) (log_entries l)"

text \<open>From the start of a boot to the images that crash on purpose: why the boot ended there, if it did.\<close>

definition sim_boot_head :: "sim_disk \<Rightarrow> bool \<Rightarrow> int \<Rightarrow> sim_board \<Rightarrow> string option \<times> sim_board" where
  "sim_boot_head D no_ota reason b =
     (let slot_label = running_label (bd_flash b);
          (l, fs) = sim_log_boot D reason slot_label (bd_files b);
          f1 = (if no_ota \<and> pending_verify (bd_flash b) then mark_valid (bd_flash b) else bd_flash b);
          (m, marker1) = take_handover_marker (bd_marker b) (reason = kRstPoweron);
          (revert, q1) = (if \<not> no_ota \<and> \<not> handed_over_since_power_on m
            then revert_if_crash_looping sim_ops (crashes_while_running (sim_boot_records l) slot_label)
                   CRASH_LOOP_RESETS (init_ota f1)
            else (False, init_ota f1)) in
      if revert
      then (Some ''revert'', \<lparr>bd_files = fs, bd_flash = snd (take_restart_reason (so_flash q1)),
              bd_marker = HANDOVER_REQUESTED\<rparr>)
      else
        let q2 = (if no_ota then q1 else snd (accept_after_handover sim_ops (booted_by_handover m) q1));
            f2 = so_flash q2; b2 = \<lparr>bd_files = fs, bd_flash = f2, bd_marker = marker1\<rparr>;
            acts = behavior (slots f2 (running f2)) in
        if acts = CRASH_LOOP then (Some ''crash'', b2)
        else if acts = CRASH_WHEN_CONFIRMED \<and> \<not> pending_verify f2 then (Some ''crash'', b2)
        else (None, b2))"

end
