(* ===== verification/Sim_Main.thy ===== *)
theory Sim_Main
  imports Sim_Firmware
begin

text \<open>
  \<open>sim/src/main.cpp\<close>: the command line, and the loop that boots the simulated board again and again. What an
  image does between the head of its boot and the restart it ends with is a parameter of the loop.
\<close>

section \<open>The command line\<close>

record options =
  opt_port :: u16
  opt_data :: string
  opt_fresh :: bool
  opt_mode :: "string option"
  opt_script :: string
  opt_headless :: bool
  opt_speed :: double
  opt_no_ota :: bool

definition init_options :: options where
  "init_options = \<lparr>opt_port = 8765, opt_data = ''omega_sim_data'', opt_fresh = False, opt_mode = None,
     opt_script = [], opt_headless = False, opt_speed = d_1, opt_no_ota = False\<rparr>"

definition space_char :: "char \<Rightarrow> bool" where
  "space_char c \<longleftrightarrow> c \<in> {CHR '' '', CHR 0x09, newline, CHR 0x0B, CHR 0x0C, CHR 0x0D}"

text \<open>\<open>strtol\<close> in base 10: the number, and what follows it; all of the text follows when there is no digit. Values
  beyond \<open>long\<close>, which the code refuses in any case, are not cut to its range.\<close>

definition strtol :: "string \<Rightarrow> int \<times> string" where
  "strtol t =
     (let s = dropWhile space_char t;
          neg = (s \<noteq> [] \<and> hd s = CHR ''-'');
          u = (if s \<noteq> [] \<and> (hd s = CHR ''-'' \<or> hd s = CHR ''+'') then tl s else s);
          ds = takeWhile is_digit u in
      if ds = [] then (0, t)
      else ((if neg then - int (digits_val ds) else int (digits_val ds)), drop (length ds) u))"

datatype parsed_args = Accepted options | Help | Refused string

definition flag_option :: "string \<Rightarrow> options \<Rightarrow> options option" where
  "flag_option a opts =
     (if a = ''--fresh'' then Some (opts\<lparr>opt_fresh := True\<rparr>)
      else if a = ''--headless'' then Some (opts\<lparr>opt_headless := True\<rparr>)
      else if a = ''--no-ota'' then Some (opts\<lparr>opt_no_ota := True\<rparr>)
      else None)"

text \<open>An option with its value. \<open>str_to_d\<close> is \<open>strtod\<close>: the number, and what follows it.\<close>

definition valued_options :: "string list" where
  "valued_options = [''--port'', ''--data'', ''--mode'', ''--script'', ''--speed'']"

definition valued_option :: "(string \<Rightarrow> double \<times> string) \<Rightarrow> string \<Rightarrow> string \<Rightarrow> options \<Rightarrow> string + options" where
  "valued_option str_to_d a v opts =
     (if a = ''--port'' then
        (case strtol v of (n, after) \<Rightarrow>
           if after \<noteq> [] \<or> n < 0 \<or> 65535 < n then Inl ''--port must be 0..65535''
           else Inr (opts\<lparr>opt_port := word_of_int n\<rparr>))
      else if a = ''--data'' then Inr (opts\<lparr>opt_data := v\<rparr>)
      else if a = ''--mode'' then
        if v \<noteq> ''mouse'' \<and> v \<noteq> ''xac'' then Inl ''--mode must be mouse or xac'' else Inr (opts\<lparr>opt_mode := Some v\<rparr>)
      else if a = ''--script'' then Inr (opts\<lparr>opt_script := v\<rparr>)
      else
        (case str_to_d v of (n, after) \<Rightarrow>
           if after \<noteq> [] \<or> \<not> dlt d_0 n \<or> dlt (d_lit 1000) n
           then Inl ''--speed must be a number from above 0 to 1000'' else Inr (opts\<lparr>opt_speed := n\<rparr>)))"

fun parse_args :: "(string \<Rightarrow> double \<times> string) \<Rightarrow> string list \<Rightarrow> options \<Rightarrow> parsed_args" where
  "parse_args str_to_d [] opts =
     (if opt_headless opts \<and> opt_script opts = [] then Refused ''--headless needs --script'' else Accepted opts)"
| "parse_args str_to_d (a # rest) opts =
     (if a = ''--help'' \<or> a = ''-h'' then Help
      else case flag_option a opts of
        Some opts1 \<Rightarrow> parse_args str_to_d rest opts1
      | None \<Rightarrow>
          if a \<notin> set valued_options then Refused (''unknown option '' @ a)
          else (case rest of
             [] \<Rightarrow> Refused (a @ '' needs a value'')
           | v # remaining \<Rightarrow>
               (case valued_option str_to_d a v opts of
                  Inl why \<Rightarrow> Refused why | Inr opts1 \<Rightarrow> parse_args str_to_d remaining opts1)))"

section \<open>Boot after boot\<close>

definition reset_reason_for :: "string \<Rightarrow> int" where
  "reset_reason_for reason =
     (if reason = ''crash'' then kRstPanic
      else if reason = ''reset'' \<or> reason = ''wipe'' then kRstPoweron else kRstSw)"

record sim_run =
  rn_reset :: int
  rn_board :: sim_board
  rn_wipe :: bool

text \<open>\<open>erase_directory_contents\<close>, and the flash formatted again: its own state was one of the files.\<close>

definition erase_board :: "sim_board \<Rightarrow> sim_board" where
  "erase_board b =
     b\<lparr>bd_files := (\<lambda>p. None),
       bd_flash := (case load_or_format None (bd_flash b) of None \<Rightarrow> bd_flash b | Some f \<Rightarrow> f)\<rparr>"

text \<open>One turn of the loop: why the image stopped, and the state in which the next one boots (\<open>None\<close> when the
  process ends). \<open>app\<close> is what the image, the page and a script do once it runs, on the board and the wipe flag.\<close>

definition sim_turn ::
  "sim_disk \<Rightarrow> bool \<Rightarrow> (sim_board \<Rightarrow> bool \<Rightarrow> string \<times> sim_board \<times> bool) \<Rightarrow> sim_run \<Rightarrow> string \<times> sim_run option" where
  "sim_turn D no_ota app r =
     (let b = (rn_board r)\<lparr>bd_flash := snd (boot (bd_flash (rn_board r)))\<rparr>;
          (reason, b1, wipe) = (case sim_boot_head D no_ota (rn_reset r) b of
             (Some reason, b1) \<Rightarrow> (reason, b1, rn_wipe r)
           | (None, b1) \<Rightarrow> app b1 (rn_wipe r)) in
      if reason = [] then (reason, None)
      else
        let erase = (reason = ''wipe'' \<or> wipe);
            wipe_left = (if reason = ''wipe'' then wipe else False) in
        (reason, Some \<lparr>rn_reset = reset_reason_for reason, rn_board = (if erase then erase_board b1 else b1),
           rn_wipe = wipe_left\<rparr>))"

section \<open>Accepted options\<close>

definition options_ok :: "options \<Rightarrow> bool" where
  "options_ok opts \<longleftrightarrow> opt_mode opts \<in> {None, Some ''mouse'', Some ''xac''} \<and>
     dlt d_0 (opt_speed opts) \<and> \<not> dlt (d_lit 1000) (opt_speed opts)"

lemma option_keeps_ok:
  "options_ok opts \<Longrightarrow> flag_option a opts = Some opts1 \<Longrightarrow> options_ok opts1"
  "options_ok opts \<Longrightarrow> valued_option str_to_d a v opts = Inr opts1 \<Longrightarrow> options_ok opts1"
  by (auto simp: flag_option_def valued_option_def options_ok_def split: if_splits prod.splits)

lemma parse_args_ok:
  "options_ok opts \<Longrightarrow> parse_args str_to_d args opts = Accepted opts1 \<Longrightarrow>
   options_ok opts1 \<and> (opt_headless opts1 \<longrightarrow> opt_script opts1 \<noteq> [])"
proof (induction str_to_d args opts rule: parse_args.induct)
  case (2 str_to_d a rest opts)
  show ?case
  proof (cases "flag_option a opts")
    case None
    then obtain v remaining opts2 where o: "rest = v # remaining" "valued_option str_to_d a v opts = Inr opts2"
      "parse_args str_to_d remaining opts2 = Accepted opts1" "\<not> (a = ''--help'' \<or> a = ''-h'')" "a \<in> set valued_options"
      using 2(4) by (auto split: if_splits list.splits sum.splits)
    show ?thesis using 2(1) [OF o(4) None _ o(1,2) option_keeps_ok(2) [OF 2(3) o(2)] o(3)] o(5) by blast
  next
    case (Some opts2)
    then show ?thesis using 2(2) [OF _ Some option_keeps_ok(1) [OF 2(3) Some]] 2(4) by (auto split: if_splits)
  qed
qed (auto split: if_splits)

text \<open>The command line is accepted only with a mode that exists, a speed above 0 and up to 1000, and a script when
  there is no page.\<close>

lemma accepted_options_are_valid:
  assumes "parse_args str_to_d args init_options = Accepted opts"
  shows "opt_mode opts \<in> {None, Some ''mouse'', Some ''xac''} \<and> dlt d_0 (opt_speed opts) \<and>
    \<not> dlt (d_lit 1000) (opt_speed opts) \<and> (opt_headless opts \<longrightarrow> opt_script opts \<noteq> [])"
proof -
  have "options_ok init_options"
    using d_lit_int [of 1000] by (simp add: options_ok_def init_options_def dlt_def double_val_def d_0_def d_1_def)
  from parse_args_ok [OF this assms] show ?thesis by (simp add: options_ok_def)
qed

text \<open>An empty value is the port 0.\<close>

lemma empty_port_is_accepted: "parse_args str_to_d [''--port'', []] init_options = Accepted (init_options\<lparr>opt_port := 0\<rparr>)"
  by (simp add: flag_option_def valued_options_def valued_option_def strtol_def init_options_def)

section \<open>An image that crashes at every boot\<close>

lemma no_revert_while_pending:
  "op_pending ops q \<Longrightarrow> revert_if_crash_looping ops cs k q = (False, q)"
  by (simp add: revert_if_crash_looping_def Let_def)

lemma accept_nothing: "accept_after_handover ops False q = (False, q)"
  by (simp add: accept_after_handover_def)

lemma so_flash_init [simp]: "so_flash (init_ota f) = f"
  by (simp add: init_ota_def)

text \<open>An unconfirmed image that crashes on purpose, on a board that has not just handed over.\<close>

lemma pending_crash:
  assumes "pending_verify (bd_flash b)" "behavior (slots (bd_flash b) (running (bd_flash b))) = CRASH_LOOP"
    "bd_marker b \<noteq> HANDOVER_REQUESTED \<or> reason = kRstPoweron"
  shows "\<exists>fs m. sim_boot_head D False reason b =
    (Some ''crash'', \<lparr>bd_files = fs, bd_flash = bd_flash b, bd_marker = m\<rparr>)"
proof -
  obtain l fs where l: "sim_log_boot D reason (running_label (bd_flash b)) (bd_files b) = (l, fs)" by fastforce
  obtain m marker1 where m: "take_handover_marker (bd_marker b) (reason = kRstPoweron) = (m, marker1)" by fastforce
  have nb: "\<not> booted_by_handover m" using m assms(3) by (auto simp: take_handover_marker_def Let_def)
  have p: "op_pending sim_ops (init_ota (bd_flash b))" using assms(1) by (simp add: sim_ops_def)
  show ?thesis
    using assms(2) nb
    by (simp add: sim_boot_head_def l m no_revert_while_pending [OF p] accept_nothing Let_def)
qed

text \<open>C15: An update that crashes at every boot does not keep the board: the first boot runs it, unconfirmed, and
  ends in a crash; at the second one the bootloader rolls back to the image that installed it and marks the new one
  aborted.\<close>

theorem crash_loop_update_is_rolled_back:
  assumes "ota_ok q" "ota_finish q = (None, q1)" "fl_next_image (so_flash q) = CRASH_LOOP"
    "bd_flash (rn_board r) = so_flash q1" "bd_marker (rn_board r) \<noteq> HANDOVER_REQUESTED \<or> rn_reset r = kRstPoweron"
    "\<not> rn_wipe r" "sim_turn D False app r = (reason, after)"
  shows "reason = ''crash'' \<and>
    (\<exists>r1. after = Some r1 \<and> rn_reset r1 = kRstPanic \<and> \<not> rn_wipe r1 \<and>
      running (bd_flash (rn_board r1)) = other_of (so_flash q) \<and>
      fst (boot (bd_flash (rn_board r1))) \<and> running (snd (boot (bd_flash (rn_board r1)))) = running (so_flash q) \<and>
      sl_state (slots (snd (boot (bd_flash (rn_board r1)))) (other_of (so_flash q))) = IMG_ABORTED)"
proof -
  let ?f = "so_flash q"
  obtain d where d: "so_flash q1 = commit_image d ?f"
    using assms(2) by (auto simp: ota_finish_def Let_def split: if_splits option.splits)
  have ok: "flash_ok ?f" using assms(1) by (simp add: ota_ok_def)
  define f1 where "f1 = snd (boot (so_flash q1))"
  note b = boot_committed [OF ok, of d, folded d, folded f1_def]
  have f1_ok: "flash_ok f1" using boot_ok [OF commit_ok [OF ok, of d]] by (simp add: f1_def d)
  have other: "other_of f1 = running ?f"
    using b ok other_slot [of ?f] by (simp add: other_of_def flash_ok_def)
  have "behavior (slots f1 (other_of ?f)) = CRASH_LOOP"
    using assms(3) other_neq [of ?f] ok
    by (simp add: f1_def d boot_def commit_image_def Let_def set_state_def abort_pending_def)
  then obtain fs m where h: "sim_boot_head D False (rn_reset r) ((rn_board r)\<lparr>bd_flash := f1\<rparr>) =
      (Some ''crash'', \<lparr>bd_files = fs, bd_flash = f1, bd_marker = m\<rparr>)"
    using pending_crash [of "(rn_board r)\<lparr>bd_flash := f1\<rparr>" "rn_reset r" D] b assms(5) by auto
  have t: "sim_turn D False app r = (''crash'', Some \<lparr>rn_reset = kRstPanic,
      rn_board = \<lparr>bd_files = fs, bd_flash = f1, bd_marker = m\<rparr>, rn_wipe = False\<rparr>)"
    using h assms(4,6) by (simp add: sim_turn_def Let_def f1_def reset_reason_for_def)
  show ?thesis
    using t assms(7) b other boot_unconfirmed [of f1] f1_ok by (auto simp: flash_ok_def)
qed

definition stop_app :: "sim_board \<Rightarrow> bool \<Rightarrow> string \<times> sim_board \<times> bool" where
  "stop_app b w = ([], b, w)"

definition plain_disk :: sim_disk where
  "plain_disk = \<lparr>dk_rename_ok = True, dk_open_ok = True, dk_saved = Renamed, dk_log_path = ''reset_log.cfg''\<rparr>"

theorem crash_loop_update_is_rolled_back_witness:
  "\<exists>q1. ota_finish (uploaded\<lparr>so_flash := set_next_image CRASH_LOOP (so_flash uploaded)\<rparr>) = (None, q1) \<and>
     fst (sim_turn plain_disk False stop_app \<lparr>rn_reset = kRstSw, rn_board = \<lparr>bd_files = (\<lambda>p. None),
       bd_flash = so_flash q1, bd_marker = 0\<rparr>, rn_wipe = False\<rparr>) = ''crash''"
proof -
  define q where "q = uploaded\<lparr>so_flash := set_next_image CRASH_LOOP (so_flash uploaded)\<rparr>"
  have ok: "ota_ok q" using uploaded_ok by (simp add: q_def ota_ok_def flash_ok_def set_next_image_def other_of_def)
  have n: "fl_next_image (so_flash q) = CRASH_LOOP" by (simp add: q_def set_next_image_def)
  obtain q1 where q1: "ota_finish q = (None, q1)"
    by (simp add: q_def ota_finish_def uploaded_fields parse_make_image Let_def)
  define r where "r = \<lparr>rn_reset = kRstSw, rn_board = \<lparr>bd_files = (\<lambda>p. None :: string option),
       bd_flash = so_flash q1, bd_marker = 0\<rparr>, rn_wipe = False\<rparr>"
  have b: "bd_flash (rn_board r) = so_flash q1" "bd_marker (rn_board r) \<noteq> HANDOVER_REQUESTED \<or> rn_reset r = kRstPoweron"
    "\<not> rn_wipe r" by (simp_all add: r_def HANDOVER_REQUESTED_def)
  obtain reason after where t: "sim_turn plain_disk False stop_app r = (reason, after)" by fastforce
  from crash_loop_update_is_rolled_back [OF ok q1 n b t] t have "fst (sim_turn plain_disk False stop_app r) = ''crash''"
    by simp
  then show ?thesis using q1 by (auto simp: q_def r_def)
qed

section \<open>A confirmed image that crashes at every boot\<close>

text \<open>Both images are confirmed and complete; the running one crashes on purpose, the other does not.\<close>

definition confirmed_crasher :: "flash \<Rightarrow> bool" where
  "confirmed_crasher f \<longleftrightarrow> running f < 2 \<and> boot_slot f = running f \<and> complete (slots f (running f)) \<and>
     complete (slots f (other_of f)) \<and> sl_state (slots f (running f)) = IMG_VALID \<and>
     sl_state (slots f (other_of f)) = IMG_VALID \<and> behavior (slots f (running f)) = CRASH_WHEN_CONFIRMED \<and>
     behavior (slots f (other_of f)) \<notin> {CRASH_LOOP, CRASH_WHEN_CONFIRMED}"

definition good_disk :: "sim_disk \<Rightarrow> bool" where
  "good_disk D \<longleftrightarrow> dk_rename_ok D \<and> dk_open_ok D \<and> dk_saved D = Renamed"

definition log_ready :: "sim_disk \<Rightarrow> files \<Rightarrow> reset_log \<Rightarrow> bool" where
  "log_ready D fs l \<longleftrightarrow> fst (snd (load_log True True (dk_log_path D) RESET_LOG_ENTRIES fs)) = l \<and>
     (\<forall>e \<in> set (log_entries l). plain_entry e) \<and> max_entries l = RESET_LOG_ENTRIES \<and>
     length (log_entries l) \<le> RESET_LOG_ENTRIES"

definition plain_label :: "string \<Rightarrow> bool" where
  "plain_label s \<longleftrightarrow> set s \<inter> {CHR '','', newline, carriage_return} = {}"

lemma reason_name_plain: "set (sim_reason_name r) \<inter> {newline, carriage_return} = {}"
  by (simp add: sim_reason_name_def newline_def carriage_return_def)

text \<open>A boot's entry is in the log of the next boot.\<close>

lemma log_carries_over:
  assumes "good_disk D" "log_ready D fs l" "plain_label s" "reason \<in> {1, 3, 4}"
    "sim_log_boot D reason s fs = (l1, fs1)"
  shows "l1 = record_reset reason (sim_reason_name reason) (sim_is_abnormal reason) s l" "log_ready D fs1 l1"
proof -
  obtain ok fs0 where l: "load_log True True (dk_log_path D) RESET_LOG_ENTRIES fs = (ok, l, fs0)"
    using assms(2) by (cases "load_log True True (dk_log_path D) RESET_LOG_ENTRIES fs") (auto simp: log_ready_def)
  have l1: "l1 = record_reset reason (sim_reason_name reason) (sim_is_abnormal reason) s l"
    and fs1: "fs1 = snd (save_log Renamed (dk_log_path D) l1 fs0)"
    using assms(1,5) l by (auto simp: sim_log_boot_def good_disk_def Let_def)
  show "l1 = record_reset reason (sim_reason_name reason) (sim_is_abnormal reason) s l" by (rule l1)
  have m: "max_entries l1 = RESET_LOG_ENTRIES" "length (log_entries l1) \<le> RESET_LOG_ENTRIES"
    using assms(2) by (simp_all add: l1 record_reset_def Let_def trim_length log_ready_def)
  define x where "x = \<lparr>e_boot = boot_count l + 1, e_reason = reason, e_abnormal = sim_is_abnormal reason,
    e_name = sim_reason_name reason, e_slot = s\<rparr>"
  have "plain_entry x"
    using assms(3,4) reason_name_plain [of reason] by (auto simp: x_def plain_entry_def plain_label_def int_max_def)
  moreover have "\<forall>e \<in> set (log_entries l). plain_entry e" using assms(2) by (simp add: log_ready_def)
  moreover obtain k where "log_entries l1 = drop k (log_entries l @ [x])"
    using trim_suffix [of "l\<lparr>boot_count := boot_count l + 1, log_entries := log_entries l @ [x]\<rparr>"]
    by (auto simp: l1 record_reset_def Let_def x_def)
  then have "set (log_entries l1) \<subseteq> insert x (set (log_entries l))"
    using set_drop_subset [of k "log_entries l @ [x]"] by simp
  ultimately have p: "\<forall>e \<in> set (log_entries l1). plain_entry e" by blast
  have "save_log Renamed (dk_log_path D) l1 fs0 = (True, fs1)"
    by (simp add: fs1 save_log_def Let_def)
  from log_round_trip [OF p _ this] m p show "log_ready D fs1 l1" by (simp add: log_ready_def)
qed

text \<open>The last \<open>n\<close> entries are boots of one slot, and all but the first of them follow a crash.\<close>

definition crash_tail :: "string \<Rightarrow> nat \<Rightarrow> entry list \<Rightarrow> bool" where
  "crash_tail s n es \<longleftrightarrow> (\<exists>ys ts. es = ys @ ts \<and> length ts = n \<and> (\<forall>t \<in> set ts. e_slot t = s) \<and>
     (\<forall>t \<in> set (tl ts). sim_is_crash (e_reason t)))"

lemma crash_tail_record:
  assumes "log_ready D fs l" "crash_tail s n (log_entries l)" "n \<le> 3" "n = 0 \<or> sim_is_crash reason"
  shows "crash_tail s (Suc n) (log_entries (record_reset reason nm a s l))"
proof -
  obtain ys ts where e: "log_entries l = ys @ ts" "length ts = n" "\<forall>t \<in> set ts. e_slot t = s"
    "\<forall>t \<in> set (tl ts). sim_is_crash (e_reason t)" using assms(2) by (auto simp: crash_tail_def)
  have len: "length (ys @ ts) \<le> 16" "max_entries l = 16"
    using assms(1) e(1) by (simp_all add: log_ready_def RESET_LOG_ENTRIES_def)
  define x where "x = \<lparr>e_boot = boot_count l + 1, e_reason = reason, e_abnormal = a, e_name = nm, e_slot = s\<rparr>"
  define k where "k = length (ys @ ts @ [x]) - 16"
  have "log_entries (record_reset reason nm a s l) = drop k (ys @ ts @ [x])"
    using len by (simp add: record_reset_def Let_def trim_def e(1) k_def x_def)
  moreover have "k \<le> length ys" using len e(2) assms(3) by (simp add: k_def)
  ultimately have "log_entries (record_reset reason nm a s l) = drop k ys @ (ts @ [x])" by simp
  moreover have "\<forall>t \<in> set (tl (ts @ [x])). sim_is_crash (e_reason t)"
    using e(2,4) assms(4) by (cases ts) (auto simp: x_def)
  ultimately show ?thesis using e(2,3)
    unfolding crash_tail_def by (intro exI [of _ "drop k ys"] exI [of _ "ts @ [x]"]) (simp add: x_def)
qed

lemma crashes_append:
  "crashes_while_running (xs @ [a, b]) s =
   crashes_while_running (xs @ [a]) s @ (if br_slot a = s then [br_crash b] else [])"
  by (induction xs s rule: crashes_while_running.induct) auto

lemma crash_tail_charges:
  assumes "crash_tail s 4 (log_entries l)"
  shows "\<exists>cs. crashes_while_running (sim_boot_records l) s = cs @ [True, True, True]"
proof -
  obtain ys ts where e: "log_entries l = ys @ ts" "length ts = 4" "\<forall>t \<in> set ts. e_slot t = s"
    "\<forall>t \<in> set (tl ts). sim_is_crash (e_reason t)" using assms by (auto simp: crash_tail_def)
  then obtain a b c d where t: "ts = [a, b, c, d]" by (auto simp: length_Suc_conv numeral_eq_Suc)
  define g where "g = (\<lambda>e :: entry. \<lparr>br_slot = e_slot e, br_crash = sim_is_crash (e_reason e)\<rparr>)"
  have "sim_boot_records l = map g ys @ [g a, g b, g c, g d]" by (simp add: sim_boot_records_def e(1) t g_def)
  then show ?thesis
    using crashes_append [of "map g ys" "g a" "g b" s] crashes_append [of "map g ys @ [g a]" "g b" "g c" s]
      crashes_append [of "map g ys @ [g a, g b]" "g c" "g d" s] e(3,4) t
    by (simp add: g_def)
qed

lemma boot_confirmed_board: "confirmed_crasher f \<Longrightarrow> boot f = (False, f)"
proof -
  assume c: "confirmed_crasher f"
  have "sl_state (slots f i) \<noteq> IMG_PENDING_VERIFY" if "i < 2" for i
  proof -
    have "i = running f \<or> i = other_of f" using c that by (auto simp: confirmed_crasher_def other_of_def)
    then show ?thesis using c by (auto simp: confirmed_crasher_def)
  qed
  then have "abort_pending f = f" unfolding abort_pending_def by (intro flash.equality) auto
  then show ?thesis using c by (simp add: boot_def Let_def confirmed_crasher_def)
qed

lemma crasher_reverts:
  assumes "confirmed_crasher f"
  shows "revert_if_crash_looping sim_ops cs CRASH_LOOP_RESETS (init_ota f) =
    (if 3 \<le> length cs \<and> list_all id (drop (length cs - 3) cs)
     then (True, (init_ota f)\<lparr>so_flash := snd (set_boot (other_of f) f)\<rparr>) else (False, init_ota f))"
proof -
  have s: "fst (set_boot (other_of f) f) = None"
    using assms by (simp add: set_boot_def confirmed_crasher_def complete_def Let_def)
  have n: "\<not> pending_verify f" "describe (other_of f) f \<noteq> None" "state_of (other_of f) f = Some IMG_VALID"
    using assms by (auto simp: confirmed_crasher_def pending_verify_def describe_def state_of_def complete_def)
  show ?thesis using s n
    by (auto simp: revert_if_crash_looping_def sim_ops_def Let_def CRASH_LOOP_RESETS_def split: prod.splits)
qed

definition handed_over :: "flash \<Rightarrow> flash" where
  "handed_over f = snd (take_restart_reason (snd (set_boot (other_of f) f)))"

text \<open>The board before the \<open>n\<close>-th crash of its image.\<close>

definition crashing_run :: "sim_disk \<Rightarrow> flash \<Rightarrow> nat \<Rightarrow> sim_run \<Rightarrow> bool" where
  "crashing_run D f n r \<longleftrightarrow> bd_flash (rn_board r) = f \<and> \<not> rn_wipe r \<and> rn_reset r \<in> {1, 3, 4} \<and>
     (n = 0 \<or> rn_reset r = kRstPanic) \<and>
     (bd_marker (rn_board r) \<notin> {HANDOVER_REQUESTED, HANDOVER_DONE} \<or> rn_reset r = kRstPoweron) \<and>
     (\<exists>l. log_ready D (bd_files (rn_board r)) l \<and> crash_tail (running_label f) n (log_entries l))"

lemma crashing_turn:
  assumes c: "confirmed_crasher f" and D: "good_disk D" and lab: "plain_label (running_label f)"
    and r: "crashing_run D f n r" and n: "n \<le> 3"
  shows "(n < 3 \<and> (\<exists>r1. sim_turn D False app r = (''crash'', Some r1) \<and> crashing_run D f (Suc n) r1)) \<or>
    (\<exists>r1. sim_turn D False app r = (''revert'', Some r1) \<and> bd_flash (rn_board r1) = handed_over f \<and>
       bd_marker (rn_board r1) = HANDOVER_REQUESTED \<and> rn_reset r1 = kRstSw)"
proof -
  let ?s = "running_label f"
  obtain l where l: "log_ready D (bd_files (rn_board r)) l" "crash_tail ?s n (log_entries l)"
    using r by (auto simp: crashing_run_def)
  obtain l1 fs1 where b: "sim_log_boot D (rn_reset r) ?s (bd_files (rn_board r)) = (l1, fs1)" by fastforce
  have rr: "rn_reset r \<in> {1, 3, 4}" using r by (simp add: crashing_run_def)
  note ready = log_carries_over [OF D l(1) lab rr b]
  have "n = 0 \<or> sim_is_crash (rn_reset r)" using r by (auto simp: crashing_run_def kRstPanic_def sim_is_crash_def)
  with crash_tail_record [OF l n] ready(1) have tail: "crash_tail ?s (Suc n) (log_entries l1)" by simp
  define cs where "cs = crashes_while_running (sim_boot_records l1) ?s"
  define loops where "loops \<longleftrightarrow> 3 \<le> length cs \<and> list_all id (drop (length cs - 3) cs)"
  have m: "take_handover_marker (bd_marker (rn_board r)) (rn_reset r = kRstPoweron) =
      (\<lparr>booted_by_handover = False, handed_over_since_power_on = False\<rparr>, 0)"
    using r by (auto simp: crashing_run_def take_handover_marker_def Let_def)
  have bf: "snd (boot (bd_flash (rn_board r))) = f" "bd_flash (rn_board r) = f"
    using r boot_confirmed_board [OF c] by (simp_all add: crashing_run_def)
  have np: "\<not> pending_verify f" "behavior (slots f (running f)) = CRASH_WHEN_CONFIRMED"
    using c by (auto simp: confirmed_crasher_def pending_verify_def)
  have head: "sim_boot_head D False (rn_reset r) ((rn_board r)\<lparr>bd_flash := f\<rparr>) =
      (if loops then (Some ''revert'', \<lparr>bd_files = fs1, bd_flash = handed_over f, bd_marker = HANDOVER_REQUESTED\<rparr>)
       else (Some ''crash'', \<lparr>bd_files = fs1, bd_flash = f, bd_marker = 0\<rparr>))"
    using np
    by (simp add: sim_boot_head_def b m Let_def cs_def [symmetric] crasher_reverts [OF c] loops_def [symmetric]
        accept_nothing handed_over_def)
  have w: "\<not> rn_wipe r" using r by (simp add: crashing_run_def)
  show ?thesis
  proof (cases loops)
    case True
    then show ?thesis using head w bf by (simp add: sim_turn_def Let_def reset_reason_for_def)
  next
    case False
    have "n < 3"
    proof (rule ccontr)
      assume "\<not> n < 3"
      then have "crash_tail ?s 4 (log_entries l1)" using n tail by (simp add: numeral_eq_Suc le_antisym)
      then obtain ds where "cs = ds @ [True, True, True]" using crash_tail_charges unfolding cs_def by blast
      then have loops by (simp add: loops_def)
      then show False using False by simp
    qed
    moreover have "crashing_run D f (Suc n)
        \<lparr>rn_reset = kRstPanic, rn_board = \<lparr>bd_files = fs1, bd_flash = f, bd_marker = 0\<rparr>, rn_wipe = False\<rparr>"
      using ready(2) tail
      by (auto simp: crashing_run_def kRstPanic_def HANDOVER_REQUESTED_def HANDOVER_DONE_def)
    ultimately show ?thesis using head w bf False by (simp add: sim_turn_def Let_def reset_reason_for_def)
  qed
qed

primrec sim_turns ::
  "sim_disk \<Rightarrow> (sim_board \<Rightarrow> bool \<Rightarrow> string \<times> sim_board \<times> bool) \<Rightarrow> nat \<Rightarrow> sim_run \<Rightarrow> string list \<times> sim_run option" where
  "sim_turns D app 0 r = ([], Some r)"
| "sim_turns D app (Suc n) r =
     (case sim_turn D False app r of
        (reason, None) \<Rightarrow> ([reason], None)
      | (reason, Some r1) \<Rightarrow> (case sim_turns D app n r1 of (reasons, r2) \<Rightarrow> (reason # reasons, r2)))"

lemma crashing_turns:
  assumes "confirmed_crasher f" "good_disk D" "plain_label (running_label f)" "crashing_run D f n r" "n \<le> 3"
  shows "\<exists>k r1. n + k \<le> 3 \<and> sim_turns D app (Suc k) r = (replicate k ''crash'' @ [''revert''], Some r1) \<and>
    bd_flash (rn_board r1) = handed_over f \<and> bd_marker (rn_board r1) = HANDOVER_REQUESTED \<and> rn_reset r1 = kRstSw"
  using assms(4,5)
proof (induction "3 - n" arbitrary: n r)
  case 0
  with crashing_turn [OF assms(1-3) 0(2,3), of app] show ?case
    by (intro exI [of _ 0]) (auto)
next
  case (Suc d)
  from crashing_turn [OF assms(1-3) Suc(3,4), of app] show ?case
  proof
    assume "n < 3 \<and> (\<exists>r1. sim_turn D False app r = (''crash'', Some r1) \<and> crashing_run D f (Suc n) r1)"
    then obtain r1 where r1: "sim_turn D False app r = (''crash'', Some r1)" "crashing_run D f (Suc n) r1" "n < 3"
      by blast
    have "d = 3 - Suc n" "Suc n \<le> 3" using Suc(2) r1(3) by simp_all
    from Suc(1) [OF this(1) r1(2) this(2)] obtain k r2 where
      "Suc n + k \<le> 3" "sim_turns D app (Suc k) r1 = (replicate k ''crash'' @ [''revert''], Some r2)"
      "bd_flash (rn_board r2) = handed_over f" "bd_marker (rn_board r2) = HANDOVER_REQUESTED" "rn_reset r2 = kRstSw"
      by blast
    then show ?thesis using r1(1) by (intro exI [of _ "Suc k"] exI [of _ r2]) simp
  next
    assume "\<exists>r1. sim_turn D False app r = (''revert'', Some r1) \<and> bd_flash (rn_board r1) = handed_over f \<and>
       bd_marker (rn_board r1) = HANDOVER_REQUESTED \<and> rn_reset r1 = kRstSw"
    then show ?thesis using Suc(4) by (intro exI [of _ 0]) auto
  qed
qed

lemma handed_over_boot:
  assumes "confirmed_crasher f"
  defines "g \<equiv> snd (boot (handed_over f))"
  shows "running g = other_of f" "pending_verify g" "behavior (slots g (running g)) = behavior (slots f (other_of f))"
proof -
  have o: "other_of f \<noteq> running f" "other_of f < 2" using assms other_neq [of f] by (auto simp: confirmed_crasher_def)
  have h: "handed_over f = (set_state (other_of f) IMG_NEW f)\<lparr>boot_slot := other_of f, restart_reason := []\<rparr>"
    using assms o by (simp add: handed_over_def set_boot_def confirmed_crasher_def complete_def Let_def take_restart_reason_def)
  have ok: "flash_ok (handed_over f)" using assms o by (simp add: h flash_ok_def confirmed_crasher_def complete_def set_state_def)
  have new: "sl_state (slots (handed_over f) (boot_slot (handed_over f))) = IMG_NEW" by (simp add: h set_state_def)
  show "running g = other_of f" "pending_verify g" using boot_new_slot [OF ok new] by (simp_all add: g_def h)
  then show "behavior (slots g (running g)) = behavior (slots f (other_of f))"
    by (auto simp: g_def h boot_def Let_def set_state_def abort_pending_def)
qed

text \<open>C14: A confirmed image that crashes at every boot does not keep the board either: after at most three crashes
  the head of the boot hands the board to the other, confirmed image, which boots, accepts itself and goes on to run;
  the crashes are counted in the reset log, which is on the disk between the boots.\<close>

theorem crashing_image_hands_over:
  assumes "confirmed_crasher f" "good_disk D" "plain_label (running_label f)" "crashing_run D f 0 r"
  shows "\<exists>k r1. k \<le> 3 \<and> sim_turns D app (Suc k) r = (replicate k ''crash'' @ [''revert''], Some r1) \<and>
    (\<exists>b. sim_boot_head D False (rn_reset r1) ((rn_board r1)\<lparr>bd_flash := snd (boot (bd_flash (rn_board r1)))\<rparr>) =
        (None, b) \<and> running (bd_flash b) = other_of f \<and> sl_state (slots (bd_flash b) (other_of f)) = IMG_VALID)"
proof -
  obtain k r1 where t: "k \<le> 3" "sim_turns D app (Suc k) r = (replicate k ''crash'' @ [''revert''], Some r1)"
    "bd_flash (rn_board r1) = handed_over f" "bd_marker (rn_board r1) = HANDOVER_REQUESTED" "rn_reset r1 = kRstSw"
    using crashing_turns [OF assms, of app] by auto
  define g where "g = snd (boot (handed_over f))"
  note b = handed_over_boot [OF assms(1), folded g_def]
  obtain l fs where l: "sim_log_boot D kRstSw (running_label g) (bd_files (rn_board r1)) = (l, fs)" by fastforce
  have m: "take_handover_marker HANDOVER_REQUESTED (kRstSw = kRstPoweron) =
      (\<lparr>booted_by_handover = True, handed_over_since_power_on = True\<rparr>, HANDOVER_DONE)"
    by (simp add: take_handover_marker_def kRstSw_def kRstPoweron_def)
  have a: "accept_after_handover sim_ops True (init_ota g) = (True, (init_ota g)\<lparr>so_flash := mark_valid g\<rparr>)"
    using b(2) by (simp add: accept_after_handover_def sim_ops_def ota_mark_valid_def)
  have "behavior (slots (mark_valid g) (running g)) \<notin> {CRASH_LOOP, CRASH_WHEN_CONFIRMED}"
    using b assms(1) by (auto simp: mark_valid_def set_state_def confirmed_crasher_def)
  then have "sim_boot_head D False kRstSw ((rn_board r1)\<lparr>bd_flash := g\<rparr>) =
      (None, \<lparr>bd_files = fs, bd_flash = mark_valid g, bd_marker = HANDOVER_DONE\<rparr>)"
    by (simp add: sim_boot_head_def l t(4) m a Let_def mark_valid_def)
  then show ?thesis using t b by (intro exI [of _ k] exI [of _ r1]) (simp add: g_def mark_valid_def)
qed

definition crashing_flash :: flash where
  "crashing_flash = (format_flash ''1'')\<lparr>slots := (\<lambda>i.
     if i = 0 then (slots (format_flash ''1'') 0)\<lparr>behavior := CRASH_WHEN_CONFIRMED\<rparr>
     else (empty_slot ''ota_1'')\<lparr>has_image := True, sl_state := IMG_VALID\<rparr>)\<rparr>"

theorem crashing_image_hands_over_witness:
  "\<exists>k r1. k \<le> 3 \<and> sim_turns plain_disk stop_app (Suc k) \<lparr>rn_reset = kRstPoweron,
     rn_board = \<lparr>bd_files = (\<lambda>p. None), bd_flash = crashing_flash, bd_marker = 0\<rparr>, rn_wipe = False\<rparr> =
     (replicate k ''crash'' @ [''revert''], Some r1)"
proof -
  define r where "r = \<lparr>rn_reset = kRstPoweron,
     rn_board = \<lparr>bd_files = (\<lambda>p. None :: string option), bd_flash = crashing_flash, bd_marker = 0\<rparr>, rn_wipe = False\<rparr>"
  have c: "confirmed_crasher crashing_flash"
    by (simp add: confirmed_crasher_def crashing_flash_def format_flash_def other_of_def complete_def empty_slot_def)
  have d: "good_disk plain_disk" by (simp add: good_disk_def plain_disk_def)
  have l: "plain_label (running_label crashing_flash)"
    by (simp add: plain_label_def running_label_def crashing_flash_def format_flash_def empty_slot_def newline_def
        carriage_return_def)
  have "log_ready plain_disk (\<lambda>p. None) (init_log RESET_LOG_ENTRIES)"
    by (simp add: log_ready_def load_log_def init_log_def)
  moreover have "crash_tail s 0 []" for s by (simp add: crash_tail_def)
  ultimately have "crashing_run plain_disk crashing_flash 0 r"
    by (auto simp: crashing_run_def r_def HANDOVER_REQUESTED_def HANDOVER_DONE_def kRstPoweron_def init_log_def
        intro: exI [of _ "init_log RESET_LOG_ENTRIES"])
  from crashing_image_hands_over [OF c d l this, of stop_app] show ?thesis unfolding r_def by blast
qed

section \<open>A wipe\<close>

text \<open>A restart for a wipe leaves the flag of the wipe set, because \<open>take_wipe\<close> is not called when the reason says so
  already; the next restart, whatever it is for, then erases the files of the board once more.\<close>

lemma wipe_erases_twice:
  assumes "sim_boot_head D no_ota (rn_reset r) ((rn_board r)\<lparr>bd_flash := snd (boot (bd_flash (rn_board r)))\<rparr>) = (None, b)"
    "app b (rn_wipe r) = (''wipe'', b1, True)" "sim_turn D no_ota app r = (x, Some r1)"
    "sim_boot_head D no_ota (rn_reset r1) ((rn_board r1)\<lparr>bd_flash := snd (boot (bd_flash (rn_board r1)))\<rparr>) = (None, b2)"
    "app b2 True = (''restart'', b3, True)" "sim_turn D no_ota app r1 = (y, Some r2)"
  shows "y = ''restart'' \<and> bd_files (rn_board r2) = (\<lambda>p. None)"
proof -
  have "rn_wipe r1" using assms(1-3) by (auto simp: sim_turn_def Let_def)
  then show ?thesis using assms(4-6) by (auto simp: sim_turn_def Let_def erase_board_def)
qed

end
