(* ===== verification/Sim_Entry.thy ===== *)
theory Sim_Entry
  imports Sim_Main Sim_Runner
begin

text \<open>
  The entry of the simulator, \<open>main\<close> in \<open>sim/src/main.cpp\<close> up to its loop and after it, and the clocks
  of \<open>sim/src/sim_clock.hpp\<close> it chooses from. What the operating system answers is a record.
\<close>

section \<open>The clocks\<close>

definition kStartOffsetNs :: nanos where "kStartOffsetNs = 1000000000"

text \<open>\<open>static_cast<int64_t>\<close> of a double: truncated, and undefined when it does not fit.\<close>

definition int64_of_double :: "double \<Rightarrow> int option" where
  "int64_of_double a =
     (case a of
        D_fin neg q \<Rightarrow>
          (let n = (if neg then - \<lfloor>q\<rfloor> else \<lfloor>q\<rfloor>) in
           if - (2 ^ 63) \<le> n \<and> n < 2 ^ 63 then Some n else None)
      | _ \<Rightarrow> None)"

datatype sim_clock = Virtual_clock nanos | Real_clock double

definition real_clock :: "double \<Rightarrow> sim_clock" where
  "real_clock speed = Real_clock (if dlt d_0 speed then speed else d_1)"

definition virtual_clock :: sim_clock where
  "virtual_clock = Virtual_clock 1000000000"

text \<open>\<open>now_ns\<close>; \<open>elapsed\<close> is what \<open>steady_clock\<close> counted since the clock was made.\<close>

definition clock_now :: "sim_clock \<Rightarrow> nanos \<Rightarrow> nanos option" where
  "clock_now c elapsed =
     (case c of
        Virtual_clock t \<Rightarrow> Some t
      | Real_clock speed \<Rightarrow>
          map_option (\<lambda>n. kStartOffsetNs + n) (int64_of_double (dmul (d_of_int elapsed) speed)))"

text \<open>\<open>sleep_for\<close>: the virtual clock moves on; the real one waits until \<open>steady_clock\<close> has passed a deadline,
  asleep up to 2 ms before it. The result is the clock and how long the caller waits by \<open>steady_clock\<close>.\<close>

definition real_deadline :: "double \<Rightarrow> nanos \<Rightarrow> nanos option" where
  "real_deadline speed d = int64_of_double (ddiv (d_of_int d) speed)"

definition clock_sleep_for :: "nanos \<Rightarrow> sim_clock \<Rightarrow> (sim_clock \<times> nanos) option" where
  "clock_sleep_for d c =
     (case c of
        Virtual_clock t \<Rightarrow> Some (Virtual_clock (t + d), 0)
      | Real_clock speed \<Rightarrow> map_option (\<lambda>n. (c, max 0 n)) (real_deadline speed d))"

definition is_virtual :: "sim_clock \<Rightarrow> bool" where
  "is_virtual c = (case c of Virtual_clock t \<Rightarrow> True | Real_clock s \<Rightarrow> False)"

section \<open>From the command line to the loop\<close>

text \<open>What the operating system answers: the text of the script file, whether the data directory can be made and
  entered, what it holds, the saved flash state in it, whether the port can be listened on.\<close>

record sim_os =
  os_script :: "string option"
  os_directory_ok :: bool
  os_files :: files
  os_flash_state :: "string option"
  os_listens :: "u16 \<Rightarrow> bool"

datatype 'w sim_entry = Ends int | Begins options sim_clock sim_run "'w host" | Undefined_entry

definition read_script :: "sim_os \<Rightarrow> options \<Rightarrow> (string + script) option" where
  "read_script os opts =
     (if opt_script opts = [] then Some (Inr \<lparr>sc_name = [], sc_steps = []\<rparr>)
      else case os_script os of
        None \<Rightarrow> Some (Inl (''cannot read '' @ opt_script opts))
      | Some text \<Rightarrow> parse_script_text text)"

text \<open>The board the process starts with: the data directory, emptied when asked, and the flash from its file or
  formatted.\<close>

definition new_flash :: "string \<Rightarrow> flash" where
  "new_flash version = \<lparr>slots = (\<lambda>i. empty_slot (if i = 0 then ''ota_0'' else ''ota_1'')), running = 0, boot_slot = 0,
     fl_next_image = NI_OK, native_version = version, restart_reason = []\<rparr>"

definition open_board :: "string \<Rightarrow> sim_os \<Rightarrow> options \<Rightarrow> sim_board option" where
  "open_board version os opts =
     (let fresh = opt_fresh opts in
      map_option (\<lambda>f. \<lparr>bd_files = (if fresh then (\<lambda>p. None) else os_files os), bd_flash = f, bd_marker = 0\<rparr>)
        (load_or_format (if fresh then None else os_flash_state os) (new_flash version)))"

definition sim_main_start ::
  "(string \<Rightarrow> double \<times> string) \<Rightarrow> string \<Rightarrow> sim_os \<Rightarrow> 'w \<Rightarrow> nanos \<Rightarrow> string list \<Rightarrow> 'w sim_entry" where
  "sim_main_start str_to_d version os memory elapsed args =
     (case parse_args str_to_d args init_options of
        Help \<Rightarrow> Ends 0
      | Refused why \<Rightarrow> Ends 2
      | Accepted opts \<Rightarrow>
          (case read_script os opts of
             None \<Rightarrow> Undefined_entry
           | Some (Inl why) \<Rightarrow> Ends 2
           | Some (Inr sc) \<Rightarrow>
               if \<not> os_directory_ok os then Ends 2
               else
                 let clock = (if opt_headless opts then virtual_clock else real_clock (opt_speed opts)) in
                 case (open_board version os opts, clock_now clock elapsed) of
                   (Some b, Some now) \<Rightarrow>
                     let h = init_host (opt_headless opts) now
                               \<lparr>ch_flash = bd_flash b, ch_files = bd_files b, ch_mem = memory\<rparr> in
                     if \<not> opt_headless opts \<and> \<not> os_listens os (opt_port opts) then Ends 1
                     else Begins opts clock \<lparr>rn_reset = kRstPoweron, rn_board = b, rn_wipe = False\<rparr>
                            (if opt_script opts = [] then h else start_script sc h)
                 | _ \<Rightarrow> Undefined_entry))"

text \<open>The status of a process whose loop has ended.\<close>

definition sim_main_end :: "options \<Rightarrow> 'w host \<Rightarrow> int" where
  "sim_main_end opts h = (if opt_headless opts then finish_report h else 0)"

section \<open>Lemmas\<close>

lemma int64_of_small:
  assumes "\<bar>n\<bar> \<le> 2 ^ 53"
  shows "int64_of_double (D_fin (n < 0) (rat_of_int \<bar>n\<bar>)) = Some n"
    "int64_of_double (D_fin (n < 0) \<bar>rat_of_int n\<bar>) = Some n"
proof -
  have "(if n < 0 then - \<bar>n\<bar> else \<bar>n\<bar>) = n" by simp
  then show one: "int64_of_double (D_fin (n < 0) (rat_of_int \<bar>n\<bar>)) = Some n"
    using assms unfolding int64_of_double_def double.case floor_of_int Let_def by auto
  then show "int64_of_double (D_fin (n < 0) \<bar>rat_of_int n\<bar>) = Some n" by simp
qed

lemma double_of_small:
  assumes "\<bar>n\<bar> \<le> 2 ^ 53"
  shows "double_of (n < 0) (rat_of_int \<bar>n\<bar>) = D_fin (n < 0) (rat_of_int \<bar>n\<bar>)"
proof (cases "n = 0")
  case True
  then show ?thesis by (simp add: double_of_def)
next
  case False
  with d_of_int_small [OF assms] show ?thesis by (simp add: d_of_int_def d_round_def)
qed

text \<open>At speed 1 the real clock counts nanoseconds exactly for the first 104 days, and sleeps as long as it is told.\<close>

lemma real_clock_at_speed_1:
  assumes "\<bar>n\<bar> \<le> 2 ^ 53"
  shows "clock_now (real_clock d_1) n = Some (kStartOffsetNs + n)"
    "0 \<le> n \<Longrightarrow> clock_sleep_for n (real_clock d_1) = Some (real_clock d_1, n)"
proof -
  have one: "d_1 = D_fin False 1" "dlt d_0 d_1" by (simp_all add: d_1_def d_0_def dlt_def double_val_def)
  have m: "dmul (d_of_int n) d_1 = D_fin (n < 0) (rat_of_int \<bar>n\<bar>)" "ddiv (d_of_int n) d_1 = D_fin (n < 0) (rat_of_int \<bar>n\<bar>)"
    unfolding d_of_int_small [OF assms] one(1) dmul_def ddiv_def using double_of_small [OF assms] by simp_all
  show "clock_now (real_clock d_1) n = Some (kStartOffsetNs + n)"
    by (simp add: clock_now_def real_clock_def one(2) m int64_of_small [OF assms])
  show "0 \<le> n \<Longrightarrow> clock_sleep_for n (real_clock d_1) = Some (real_clock d_1, n)"
    using int64_of_small(1) [OF assms] by (simp add: clock_sleep_for_def real_clock_def one(2) real_deadline_def m)
qed

text \<open>How a process that does not reach its loop ends.\<close>

lemma entry_status:
  assumes "sim_main_start str_to_d version os memory elapsed args = Ends n"
  shows "(n = 0 \<longleftrightarrow> parse_args str_to_d args init_options = Help) \<and> n \<in> {0, 1, 2} \<and>
    (n = 1 \<longrightarrow> (\<exists>opts. parse_args str_to_d args init_options = Accepted opts \<and> \<not> opt_headless opts \<and>
       \<not> os_listens os (opt_port opts)))"
  using assms
  by (auto simp: sim_main_start_def Let_def split: parsed_args.splits option.splits sum.splits if_splits prod.splits)

text \<open>A process that reaches it has a script when nobody watches, the virtual clock exactly then, and its board on
  the chip of the host.\<close>

lemma entry_begins:
  assumes "sim_main_start str_to_d version os memory elapsed args = Begins opts clock r h"
  shows "is_virtual clock = opt_headless opts \<and> ho_headless h = opt_headless opts \<and>
    (opt_headless opts \<longrightarrow> opt_script opts \<noteq> [] \<and> ho_active h \<and> ho_now h = kStartOffsetNs) \<and>
    ch_flash (ho_chip h) = bd_flash (rn_board r) \<and> ch_files (ho_chip h) = bd_files (rn_board r) \<and>
    rn_reset r = kRstPoweron \<and> \<not> rn_wipe r"
proof -
  obtain opts' where a: "parse_args str_to_d args init_options = Accepted opts'"
    using assms by (auto simp: sim_main_start_def split: parsed_args.splits)
  have "opts' = opts"
    using assms a by (auto simp: sim_main_start_def Let_def split: option.splits sum.splits if_splits)
  moreover have "options_ok init_options"
    using d_lit_int [of 1000] by (simp add: options_ok_def init_options_def dlt_def double_val_def d_0_def d_1_def)
  ultimately have k: "opt_headless opts \<longrightarrow> opt_script opts \<noteq> []" using parse_args_ok a by blast
  show ?thesis
    using assms a k
    by (auto simp: sim_main_start_def Let_def is_virtual_def virtual_clock_def real_clock_def clock_now_def kStartOffsetNs_def
        init_host_def start_script_def split: option.splits sum.splits if_splits)
qed

text \<open>A fresh board runs the simulator's own image, confirmed, from its first slot.\<close>

lemma fresh_board:
  assumes "opt_fresh opts"
  shows "\<exists>b. open_board version os opts = Some b \<and> bd_files b = (\<lambda>p. None) \<and> flash_ok (bd_flash b) \<and>
    running (snd (boot (bd_flash b))) = 0 \<and> \<not> pending_verify (snd (boot (bd_flash b)))"
  using assms
  by (simp add: open_board_def load_or_format_def load_flash_def refresh_native_def format_flash_def flash_ok_def complete_def
      empty_slot_def boot_def abort_pending_def pending_verify_def Let_def)

end
