(* ===== verification/Sim_Loop.thy ===== *)
theory Sim_Loop
  imports Sim_Firmware Sim_Runner
begin

text \<open>
  The rest of \<open>sim/src/firmware.cpp\<close>: the wiring of the simulated device around the host, \<open>SimPorts\<close>, the
  boot after its head, and the polling loop. The firmware's memory is \<open>fw\<close>, the third part of the host's
  \<open>chip\<close>; the console service works on it through the same definitions as on the device. A restart thrown
  by \<open>Host::sleep\<close> is the value \<open>Thrown\<close>. The frame codec, the parser and the discovery of the frame library,
  the joystick library and the outcome of a file write are fields of \<open>app\<close>, together with the reading of the
  real clock the service takes (\<open>ap_now\<close>) and whether a frame finds a page (\<open>ap_up\<close>); the last three may differ
  from one turn to the next. Of the banners, those of
  the control loop are kept, those of the boot and of the mode switch left out.
\<close>

section \<open>The firmware's memory\<close>

record 'j fw =
  fw_store :: store
  fw_service :: service
  fw_engine :: sim_ota
  fw_holds :: int
  fw_gate :: gate
  fw_needs :: bool
  fw_status :: sensor_status
  fw_log :: reset_log
  fw_tmag :: tmag
  fw_regs :: bytes
  fw_counter :: u8
  fw_read_ok :: bool
  fw_conversions :: u8
  fw_joystick :: 'j
  fw_live :: bool
  fw_reboots :: "deferred list"
  fw_received :: bytes

record 'j app =
  ap_no_ota :: bool
  ap_libm :: libm
  ap_codec :: codec
  ap_parse :: "bytes \<Rightarrow> frame list"
  ap_feed :: "bytes \<Rightarrow> bytes \<Rightarrow> frame list"
  ap_discovery :: "string \<Rightarrow> frame \<Rightarrow> bytes list"
  ap_write :: "string \<Rightarrow> write_outcome"
  ap_atan2 :: "f32 \<Rightarrow> f32 \<Rightarrow> f32"
  ap_hypot :: "f32 \<Rightarrow> f32 \<Rightarrow> f32"
  ap_calibration_path :: string
  ap_settings_path :: string
  ap_new_joystick :: "stick_map \<Rightarrow> 'j"
  ap_update :: "(f32 \<times> f32) option \<Rightarrow> 'j \<Rightarrow> 'j"
  ap_position :: "'j \<Rightarrow> f32 \<times> f32"
  ap_raw :: "'j \<Rightarrow> f32 \<times> f32"
  ap_set_calibration :: "stick_map \<Rightarrow> 'j \<Rightarrow> 'j"
  ap_now :: nanos
  ap_up :: bool

type_synonym 'j sim_host = "'j fw host"

definition mem :: "'j sim_host \<Rightarrow> 'j fw" where
  "mem h = ch_mem (ho_chip h)"

definition on_mem :: "('j fw \<Rightarrow> 'j fw) \<Rightarrow> 'j sim_host \<Rightarrow> 'j sim_host" where
  "on_mem f h = h\<lparr>ho_chip := (ho_chip h)\<lparr>ch_mem := f (ch_mem (ho_chip h))\<rparr>\<rparr>"

definition on_live :: "(live \<Rightarrow> live) \<Rightarrow> 'w host \<Rightarrow> 'w host" where
  "on_live f h = h\<lparr>ho_live := f (ho_live h)\<rparr>"

section \<open>The console link\<close>

text \<open>What the service's callbacks act on: the chip, the frames handed to \<open>Host::transmit\<close> and the restarts
  asked of the host.\<close>

record 'j link_env =
  le_chip :: "'j fw chip"
  le_out :: "bytes list"
  le_restarts :: "string list"

type_synonym 'j fw_world = "(sim_ota, 'j link_env) world"

definition open_world :: "'j fw chip \<Rightarrow> 'j fw_world" where
  "open_world c =
     \<lparr>wd_store = fw_store (ch_mem c), wd_ota = (fw_engine (ch_mem c))\<lparr>so_flash := ch_flash c\<rparr>,
      wd_env = \<lparr>le_chip = c, le_out = [], le_restarts = []\<rparr>\<rparr>"

definition close_world :: "'j fw_world \<Rightarrow> 'j fw chip" where
  "close_world w =
     (let c = le_chip (wd_env w) in
      c\<lparr>ch_flash := so_flash (wd_ota w),
        ch_mem := (ch_mem c)\<lparr>fw_store := wd_store w, fw_engine := wd_ota w\<rparr>\<rparr>)"

definition on_env :: "('j link_env \<Rightarrow> 'j link_env) \<Rightarrow> 'j fw_world \<Rightarrow> 'j fw_world" where
  "on_env f w = w\<lparr>wd_env := f (wd_env w)\<rparr>"

definition env_mem :: "('j fw \<Rightarrow> 'j fw) \<Rightarrow> 'j fw_world \<Rightarrow> 'j fw_world" where
  "env_mem f = on_env (\<lambda>e. e\<lparr>le_chip := (le_chip e)\<lparr>ch_mem := f (ch_mem (le_chip e))\<rparr>\<rparr>)"

abbreviation world_mem :: "'j fw_world \<Rightarrow> 'j fw" where
  "world_mem w \<equiv> ch_mem (le_chip (wd_env w))"

definition app_save :: "'j app \<Rightarrow> 'j fw_world \<Rightarrow> error_code option \<times> 'j fw_world" where
  "app_save A w =
     (let fs = ch_files (le_chip (wd_env w));
          (e, fs1) = save_store (ap_write A (ap_calibration_path A)) (ap_write A (ap_settings_path A))
                       (ap_calibration_path A) (ap_settings_path A) (wd_store w) fs in
      (map_option cal_error_code e, on_env (\<lambda>v. v\<lparr>le_chip := (le_chip v)\<lparr>ch_files := fs1\<rparr>\<rparr>) w))"

definition app_set_joystick :: "'j app \<Rightarrow> stick_map \<Rightarrow> 'j fw_world \<Rightarrow> 'j fw_world" where
  "app_set_joystick A m = env_mem (\<lambda>f. f\<lparr>fw_joystick := ap_set_calibration A m (fw_joystick f)\<rparr>)"

text \<open>\<open>on_calibration_changed\<close> and \<open>on_mode_changed\<close>; the wait before the restart is of real time.\<close>

definition app_fire_one :: "'j app \<Rightarrow> store_event \<Rightarrow> 'j fw_world \<Rightarrow> 'j fw_world" where
  "app_fire_one A ev w =
     (case ev of
        Calibration_changed \<Rightarrow>
          (if fw_live (world_mem w)
           then app_set_joystick A
             (apply_calibration_with (st_center (wd_store w)) (st_range (wd_store w)) (st_settings (wd_store w))) w
           else w)
      | Mode_changed m \<Rightarrow>
          on_env (\<lambda>v. v\<lparr>le_restarts := le_restarts v @ [''mode switch'']\<rparr>) (snd (app_save A w)))"

definition app_fire :: "'j app \<Rightarrow> store_event list \<Rightarrow> 'j fw_world \<Rightarrow> 'j fw_world" where
  "app_fire A es w = fold (app_fire_one A) es w"

definition app_update_store ::
  "'j app \<Rightarrow> (store \<Rightarrow> store_event list \<times> store) \<Rightarrow> 'j fw_world \<Rightarrow> 'j fw_world" where
  "app_update_store A f w = (case f (wd_store w) of (es, st) \<Rightarrow> app_fire A es (w\<lparr>wd_store := st\<rparr>))"

definition app_hold :: "bool \<Rightarrow> 'j fw_world \<Rightarrow> 'j fw_world" where
  "app_hold b = env_mem (\<lambda>f. f\<lparr>fw_holds := fw_holds f + (if b then 1 else - 1)\<rparr>)"

definition app_start_calibration :: "'j app \<Rightarrow> 'j fw_world \<Rightarrow> error_code option \<times> 'j fw_world" where
  "app_start_calibration A w =
     (case gate_request (fw_gate (world_mem w)) of (ok, g) \<Rightarrow>
        (if ok then None else Some (errc_code (ap_codec A) Device_or_resource_busy),
         env_mem (\<lambda>f. f\<lparr>fw_gate := g\<rparr>) w))"

definition app_wiring :: "'j app \<Rightarrow> (sim_ota, 'j link_env) wiring" where
  "app_wiring A =
     \<lparr>w_module = kModule, w_ota = (if ap_no_ota A then None else Some sim_ops),
      w_send = Some (\<lambda>frame w. (ap_up A, on_env (\<lambda>v. v\<lparr>le_out := le_out v @ [frame]\<rparr>) w)),
      w_start_calibration = Some (app_start_calibration A), w_restart = True,
      w_diagnostics = Some (\<lambda>w. sim_diagnostics (fw_log (world_mem w)) (fw_status (world_mem w)) (fw_needs (world_mem w))),
      w_output_hold = Some app_hold, w_fired = app_fire A, w_saved = app_save A,
      w_reboot = (\<lambda>d. env_mem (\<lambda>f. f\<lparr>fw_reboots := fw_reboots f @ [d]\<rparr>))\<rparr>"

text \<open>\<open>Dispatcher::feed\<close>: discovery answers for itself, the rest goes to the service.\<close>

definition app_frame :: "'j app \<Rightarrow> frame \<Rightarrow> (sim_ota, 'j link_env) sw \<Rightarrow> (sim_ota, 'j link_env) sw" where
  "app_frame A f sw =
     (case sw of (s, w) \<Rightarrow>
        handle_routed (ap_codec A) (app_wiring A) (ap_now A) f
          (s, on_env (\<lambda>v. v\<lparr>le_out := le_out v @ ap_discovery A (running_version (so_flash (wd_ota w))) f\<rparr>) w))"

definition app_link :: "'j app \<Rightarrow> bytes \<Rightarrow> 'j fw chip \<Rightarrow> bytes list \<times> string list \<times> 'j fw chip" where
  "app_link A data c =
     (let frames = ap_feed A (fw_received (ch_mem c)) data;
          c1 = c\<lparr>ch_mem := (ch_mem c)\<lparr>fw_received := fw_received (ch_mem c) @ data\<rparr>\<rparr>;
          (s, w) = fold (app_frame A) frames (fw_service (ch_mem c), open_world c1);
          c2 = close_world w in
      (le_out (wd_env w), le_restarts (wd_env w), c2\<lparr>ch_mem := (ch_mem c2)\<lparr>fw_service := s\<rparr>\<rparr>))"

text \<open>The threads that reboot after a reply went out: what the oldest will ask for, and what it does. They
  outlive the boot that started them.\<close>

definition reboot_reason :: "'j fw chip \<Rightarrow> string option" where
  "reboot_reason c =
     (case fw_reboots (ch_mem c) of [] \<Rightarrow> None
      | d # ds \<Rightarrow> Some (if d = Reboot_ota then fst (take_restart_reason (ch_flash c)) else ''restart''))"

definition reboot_fires :: "'j sim_host \<Rightarrow> 'j sim_host" where
  "reboot_fires h =
     (case fw_reboots (mem h) of
        [] \<Rightarrow> h
      | d # ds \<Rightarrow>
          let h1 = on_mem (\<lambda>f. f\<lparr>fw_reboots := ds\<rparr>) h in
          if d = Reboot_ota then
            case take_restart_reason (ch_flash (ho_chip h1)) of
              (r, f) \<Rightarrow> request_restart r (on_flash (\<lambda>_. f) h1)
          else request_restart ''restart'' h1)"

definition app_env :: "'j app \<Rightarrow> 'j fw host_env" where
  "app_env A =
     \<lparr>he_libm = ap_libm A, he_codec = ap_codec A, he_parse = ap_parse A, he_link = app_link A,
      he_reboot = reboot_reason, he_write = (\<lambda>c. ap_write A (ap_calibration_path A)),
      he_calibration_path = ap_calibration_path A\<rparr>"

text \<open>An operation of the firmware's own thread on that world, and what it sends and asks for.\<close>

definition on_world :: "('j fw_world \<Rightarrow> 'a \<times> 'j fw_world) \<Rightarrow> 'j sim_host \<Rightarrow> 'a \<times> 'j sim_host" where
  "on_world f h =
     (case f (open_world (ho_chip h)) of (x, w) \<Rightarrow>
        (x, fold request_restart (le_restarts (wd_env w))
              (fold (\<lambda>f g. snd (transmit f g)) (le_out (wd_env w)) (h\<lparr>ho_chip := close_world w\<rparr>))))"

section \<open>The sensor\<close>

text \<open>One conversion of the field model at the stick's position, and the hook that shows it to the page.\<close>

definition host_counts :: "'j app \<Rightarrow> 'j sim_host \<Rightarrow> (int \<times> int \<times> int) \<times> 'j sim_host" where
  "host_counts A h =
     (case stick_now (app_env A) h of (pos, t) \<Rightarrow>
        case sense_field (ap_libm A) pos t (ho_sensor h) of (f, m) \<Rightarrow>
          ((raw_counts (fd_bx f), raw_counts (fd_by f), raw_counts (fd_bz f)),
           on_live (\<lambda>l. l\<lparr>lv_bx := fd_bx f, lv_by := fd_by f\<rparr>) (h\<lparr>ho_sensor := m\<rparr>)))"

definition with_bus :: "('j sim_host fake_bus \<Rightarrow> 'a \<times> 'j sim_host fake_bus) \<Rightarrow> 'j sim_host \<Rightarrow> 'a \<times> 'j sim_host" where
  "with_bus f h =
     (case f \<lparr>fb_regs = fw_regs (mem h), fb_counter = fw_counter (mem h), fb_fault = sm_fault (ho_sensor h), fb_env = h\<rparr> of
        (x, b) \<Rightarrow> (x, on_mem (\<lambda>m. m\<lparr>fw_regs := fb_regs b, fw_counter := fb_counter b\<rparr>) (fb_env b)))"

definition sim_bus :: "'j app \<Rightarrow> 'j sim_host bus" where
  "sim_bus A =
     \<lparr>bus_read = (\<lambda>reg n. with_bus (bus_read (fake_tmag_bus (host_counts A)) reg n)),
      bus_write = (\<lambda>a v. with_bus (bus_write (fake_tmag_bus (host_counts A)) a v))\<rparr>"

definition app_read_callback :: "'j app \<Rightarrow> 'j sim_host \<Rightarrow> (f32 \<times> f32) option \<times> 'j sim_host" where
  "app_read_callback A h =
     (case read_magnetic (sim_bus A) (fw_tmag (mem h)) h of
        (None, h1) \<Rightarrow> (None, on_mem (\<lambda>f. f\<lparr>fw_read_ok := False, fw_conversions := 0\<rparr>) h1)
      | (Some m, h1) \<Rightarrow>
          (Some (mag_x m, mag_y m), on_mem (\<lambda>f. f\<lparr>fw_read_ok := True, fw_conversions := mag_count m\<rparr>) h1))"

definition app_read_stick :: "'j app \<Rightarrow> 'j sim_host \<Rightarrow> stick_sample \<times> 'j sim_host" where
  "app_read_stick A h =
     (case app_read_callback A h of (v, h1) \<Rightarrow>
        let h2 = on_mem (\<lambda>f. f\<lparr>fw_joystick := ap_update A v (fw_joystick f)\<rparr>) h1; f = mem h2 in
        (\<lparr>st_x = fst (ap_position A (fw_joystick f)), st_y = snd (ap_position A (fw_joystick f)),
          raw_x = fst (ap_raw A (fw_joystick f)), raw_y = snd (ap_raw A (fw_joystick f)),
          read_ok = fw_read_ok f, conversion_count = Some (fw_conversions f)\<rparr>, h2))"

section \<open>SimPorts\<close>

text \<open>The host, or the host at the moment a restart was thrown, with its reason.\<close>

datatype 'h flow = Going 'h | Thrown string 'h

definition going :: "('h \<Rightarrow> 'h) \<Rightarrow> 'h flow \<Rightarrow> 'h flow" where
  "going f v = (case v of Going h \<Rightarrow> Going (f h) | Thrown r h \<Rightarrow> Thrown r h)"

definition sleep_flow :: "'j app \<Rightarrow> millis \<Rightarrow> 'j sim_host flow \<Rightarrow> 'j sim_host flow" where
  "sleep_flow A d v =
     (case v of Thrown r h \<Rightarrow> v
      | Going h \<Rightarrow> (case host_sleep (app_env A) d h of (None, h1) \<Rightarrow> Going h1 | (Some r, h1) \<Rightarrow> Thrown r h1))"

definition app_sweep_io :: "'j app \<Rightarrow> 'j sim_host flow cal_io" where
  "app_sweep_io A =
     \<lparr>cal_read = (\<lambda>v. case v of Thrown r h \<Rightarrow> (None, v)
        | Going h \<Rightarrow> (case read_magnetic (sim_bus A) (fw_tmag (mem h)) h of
            (m, h1) \<Rightarrow> (map_option (\<lambda>m. (mag_x m, mag_y m)) m, Going h1))),
      cal_message = (\<lambda>t. going (calibration_prompt t)),
      cal_sleep = sleep_flow A\<rparr>"

definition app_notify :: "'j app \<Rightarrow> error_code option \<Rightarrow> 'j sim_host \<Rightarrow> 'j sim_host" where
  "app_notify A failure h =
     snd (on_world (\<lambda>w. ((), notify_calibration_result (ap_codec A) (app_wiring A) failure w)) h)"

definition app_measure ::
  "'j app \<Rightarrow> 'j sim_host flow \<Rightarrow> (cal_error abort + center_result \<times> range_result) \<times> 'j sim_host flow" where
  "app_measure A v =
     (case center_calibration (app_sweep_io A) init_center v of
        (Inl e, v1) \<Rightarrow> (Inl e, v1)
      | (Inr c, v1) \<Rightarrow>
          (case range_calibration (app_sweep_io A) (ap_atan2 A) c init_range v1 of
             (Inl e, v2) \<Rightarrow> (Inl e, v2)
           | (Inr r, v2) \<Rightarrow> (Inr (c, r), v2)))"

definition warn :: "string \<Rightarrow> error_code option \<Rightarrow> 'w host \<Rightarrow> 'w host" where
  "warn t e h = (case e of None \<Rightarrow> h | Some ec \<Rightarrow> console_text (t @ ec_message ec) h)"

definition app_sweep_done ::
  "'j app \<Rightarrow> center_result \<Rightarrow> range_result \<Rightarrow> 'j sim_host \<Rightarrow> center_result \<times> 'j sim_host" where
  "app_sweep_done A c r h =
     (let h1 = snd (on_world (\<lambda>w. ((), app_update_store A
                 (set_measured_calibration (finalize_center_deadzone c r) r) w)) h);
          ctr = st_center (fw_store (mem h1));
          (e, h2) = on_world (app_save A) h1;
          h3 = console_text (''=== RE-CALIBRATION COMPLETE ==='' @ [newline])
                 (warn ''WARNING: recalibration succeeded but saving to flash failed: '' e h2);
          h4 = (if fw_needs (mem h3)
                then console_text ''Calibration is usable; output resumes.'' (on_mem (\<lambda>f. f\<lparr>fw_needs := False\<rparr>) h3)
                else h3);
          h5 = on_live (\<lambda>l. l\<lparr>lv_center_x := double_of_f32 (center_x ctr), lv_center_y := double_of_f32 (center_y ctr),
                 lv_have_calibration := True, lv_last_sweep := 1\<rparr>) h4 in
      (ctr, app_notify A None h5))"

definition app_sweep_failed :: "'j app \<Rightarrow> cal_error \<Rightarrow> 'j sim_host \<Rightarrow> 'j sim_host" where
  "app_sweep_failed A e h =
     (let h1 = console_text (''ERROR: re-calibration failed: '' @ cal_error_message e) h;
          h2 = (if fw_needs (mem h1) then console_text ''Output stays neutral until a calibration succeeds.'' h1 else h1) in
      app_notify A (Some (cal_error_code e)) (on_live (\<lambda>l. l\<lparr>lv_last_sweep := 0\<rparr>) h2))"

definition app_run_sweep ::
  "'j app \<Rightarrow> center_result \<Rightarrow> range_result \<Rightarrow> 'j sim_host flow
     \<Rightarrow> ((bool \<times> center_result \<times> range_result) \<times> 'j sim_host flow) option" where
  "app_run_sweep A ctr rng v =
     (case app_measure A (going (console_text
             (newline # ''=== RE-CALIBRATION REQUESTED (calibration console) ==='')) v) of
        (res, Thrown r h) \<Rightarrow> Some ((False, ctr, rng), Thrown r h)
      | (Inl Undefined_behaviour, Going h) \<Rightarrow> None
      | (Inl (Reported e), Going h) \<Rightarrow> Some ((False, ctr, rng), Going (app_sweep_failed A e h))
      | (Inr (c, r), Going h) \<Rightarrow>
          (case app_sweep_done A c r h of (c1, h1) \<Rightarrow> Some ((True, c1, r), Going h1)))"

definition app_save_to_flash :: "'j app \<Rightarrow> 'j sim_host \<Rightarrow> 'j sim_host" where
  "app_save_to_flash A h =
     (case on_world (app_save A) h of (e, h1) \<Rightarrow>
        warn ''WARNING: Failed to persist drift-corrected calibration: '' e h1)"

definition app_apply_drift ::
  "'j app \<Rightarrow> center_result \<Rightarrow> range_result \<Rightarrow> 'j sim_host \<Rightarrow> center_result \<times> 'j sim_host" where
  "app_apply_drift A c r h =
     on_world (\<lambda>w. let w1 = app_update_store A (set_measured_calibration c r) w; st = wd_store w1 in
        (st_center st, app_set_joystick A (apply_calibration_with (st_center st) r (st_settings st)) w1)) h"

definition app_fault_changed :: "bool \<Rightarrow> sensor_fault \<Rightarrow> u32 \<Rightarrow> 'j sim_host \<Rightarrow> 'j sim_host" where
  "app_fault_changed b k n h =
     (let h1 = on_live (\<lambda>l. l\<lparr>lv_sensor_fault := b\<rparr>) (on_mem (\<lambda>f. f\<lparr>fw_status := sim_publish b k n (fw_status f)\<rparr>) h) in
      if b then console_text (''WARNING: sensor fault ('' @ fault_to_string k @ ''); holding the stick centered'') h1
      else console_text (''Sensor recovered (fault '' @ nat_digits (unat n) @ '' since boot)'') h1)"

definition app_observed_healthy :: "'j sim_host \<Rightarrow> 'j sim_host" where
  "app_observed_healthy h =
     on_live (\<lambda>l. l\<lparr>lv_sensor_observed := True\<rparr>) (on_mem (\<lambda>f. f\<lparr>fw_status := sim_observed_healthy (fw_status f)\<rparr>) h)"

definition sim_ports :: "'j app \<Rightarrow> 'j sim_host flow ports" where
  "sim_ports A =
     \<lparr>send_mouse = (\<lambda>m. going (on_mouse m)),
      send_xac = (\<lambda>x. going (on_xac x)),
      run_sweep = app_run_sweep A,
      save_to_flash = going (app_save_to_flash A),
      apply_drift = (\<lambda>c r v. case v of Thrown s h \<Rightarrow> (c, v)
        | Going h \<Rightarrow> (case app_apply_drift A c r h of (c1, h1) \<Rightarrow> (c1, Going h1))),
      read_stick = (\<lambda>v. case v of Thrown s h \<Rightarrow> (init_sample, v)
        | Going h \<Rightarrow> (case app_read_stick A h of (s, h1) \<Rightarrow> (s, Going h1))),
      ports_now = (\<lambda>v. (case v of Thrown s h \<Rightarrow> 0 | Going h \<Rightarrow> ho_now h, v)),
      sensor_fault_changed = (\<lambda>b k n. going (app_fault_changed b k n)),
      sensor_observed_healthy = going app_observed_healthy\<rparr>"

section \<open>The polling loop\<close>

definition SLOW_SENSOR_START_NS :: nanos where "SLOW_SENSOR_START_NS = 3000000000"

datatype phase = Halted | Waiting_since nanos | Polling

text \<open>A boot that is running: \<open>im_fault\<close> is the fault a failing self-test replaced.\<close>

record 'j image =
  im_host :: "'j sim_host"
  im_phase :: phase
  im_xac_selected :: bool
  im_mouse :: mouse_state
  im_xac :: xac_state
  im_health :: "health option"
  im_fault :: "sim_fault option"

datatype 'j turn = Next "'j image" | Ended string "'j sim_host" | Undefined_turn

text \<open>Leaving \<open>boot\<close> runs its destructors; a thrown restart is then caught by \<open>run_firmware\<close>.\<close>

definition leave :: "sim_fault option \<Rightarrow> 'j sim_host \<Rightarrow> 'j sim_host" where
  "leave prev h =
     (let h1 = h\<lparr>ho_linked := False\<rparr> in
      case prev of None \<Rightarrow> h1 | Some f \<Rightarrow> h1\<lparr>ho_sensor := set_fault f (ho_sensor h1)\<rparr>)"

definition caught :: "sim_fault option \<Rightarrow> string \<Rightarrow> 'j sim_host \<Rightarrow> 'j turn" where
  "caught prev r h = (let h1 = leave prev h in Ended r (if ho_pending h1 then snd (take_reason h1) else h1))"

text \<open>What the health check does to the hold count; the reason when it restarts.\<close>

definition app_health :: "health option \<Rightarrow> 'j sim_host \<Rightarrow> string option \<times> health option \<times> 'j sim_host" where
  "app_health hl h =
     (case hl of None \<Rightarrow> (None, None, h)
      | Some x \<Rightarrow>
          (case health_tick (pending_verify (ch_flash (ho_chip h))) (ho_now h) x of
             (NO_ACTION, x1) \<Rightarrow> (None, Some x1, h)
           | (HOLD_OUTPUT, x1) \<Rightarrow> (None, Some x1, on_mem (\<lambda>f. f\<lparr>fw_holds := fw_holds f + 1\<rparr>) h)
           | (ROLL_BACK, x1) \<Rightarrow>
               (case on_world (\<lambda>w. case rollback_now sim_ops (wd_ota w) of (b, q) \<Rightarrow> (b, w\<lparr>wd_ota := q\<rparr>)) h of
                  (True, h1) \<Rightarrow> (Some ''rollback'', Some x1, h1)
                | (False, h1) \<Rightarrow> (None, Some x1, on_mem (\<lambda>f. f\<lparr>fw_holds := fw_holds f - 1\<rparr>) h1))))"

definition app_expire :: "'j app \<Rightarrow> bool \<Rightarrow> 'j sim_host \<Rightarrow> 'j sim_host" where
  "app_expire A busy h =
     (case on_world (\<lambda>w. case expire_stale_update (app_wiring A) OTA_IDLE_TIMEOUT (ap_now A) busy (fw_service (mem h), w) of
             (_, s, w1) \<Rightarrow> (s, w1)) h of
        (s, h1) \<Rightarrow> on_mem (\<lambda>f. f\<lparr>fw_service := s\<rparr>) h1)"

definition app_gather :: "'j app \<Rightarrow> 'j sim_host \<Rightarrow> step_input \<times> 'j sim_host" where
  "app_gather A h =
     (let hold = (0 < fw_holds (mem h));
          (recal, g) = (if hold then (False, fw_gate (mem h)) else gate_take (fw_gate (mem h)));
          (sample, h1) = app_read_stick A (on_mem (\<lambda>f. f\<lparr>fw_gate := g\<rparr>) h) in
      (\<lparr>stick = sample, step_now = ho_now h1, recalibration_requested = recal, output_hold = hold,
        needs_calibration = fw_needs (mem h1), step_settings = st_settings (fw_store (mem h1))\<rparr>, h1))"

definition app_tick :: "'j app \<Rightarrow> step_input \<Rightarrow> 'j image \<Rightarrow> 'j sim_host \<Rightarrow> ('j image \<times> 'j sim_host flow) option" where
  "app_tick A i im h =
     (if im_xac_selected im
      then map_option (\<lambda>(s, v). (im\<lparr>im_xac := s\<rparr>, v)) (xac_tick (ap_hypot A) (sim_ports A) (im_xac im) i (Going h))
      else map_option (\<lambda>(s, v). (im\<lparr>im_mouse := s\<rparr>, v)) (mouse_tick (ap_hypot A) (sim_ports A) (im_mouse im) i (Going h)))"

definition app_finish_gate :: "bool \<Rightarrow> 'j sim_host \<Rightarrow> 'j sim_host" where
  "app_finish_gate recal h = (if recal then on_mem (\<lambda>f. f\<lparr>fw_gate := gate_finish (fw_gate f)\<rparr>) h else h)"

text \<open>The iteration: the input, the tick, the end of a sweep.\<close>

definition app_iterate :: "'j app \<Rightarrow> 'j image \<Rightarrow> 'j sim_host \<Rightarrow> ('j image \<times> 'j sim_host flow) option" where
  "app_iterate A im h =
     (case app_gather A h of (i, h1) \<Rightarrow>
        map_option (\<lambda>(im1, v). (im1, going (app_finish_gate (recalibration_requested i)) v)) (app_tick A i im h1))"

definition after_sleep :: "'j image \<Rightarrow> 'j sim_host flow \<Rightarrow> 'j turn" where
  "after_sleep im v =
     (case v of Thrown r h \<Rightarrow> caught (im_fault im) r h | Going h \<Rightarrow> Next (im\<lparr>im_host := h\<rparr>))"

definition poll_turn :: "'j app \<Rightarrow> bool \<Rightarrow> 'j image \<Rightarrow> 'j turn" where
  "poll_turn A busy im =
     (case app_health (im_health im) (im_host im) of
        (Some r, hl, h) \<Rightarrow> caught (im_fault im) r h
      | (None, hl, h) \<Rightarrow>
          (case app_iterate A (im\<lparr>im_health := hl\<rparr>) (app_expire A busy h) of
             None \<Rightarrow> Undefined_turn
           | Some (im1, v) \<Rightarrow> after_sleep im1 (sleep_flow A (if im_xac_selected im then 5 else 10) v)))"

text \<open>One turn of whichever loop the boot is in.\<close>

definition app_turn :: "'j app \<Rightarrow> bool \<Rightarrow> 'j image \<Rightarrow> 'j turn" where
  "app_turn A busy im =
     (let h = im_host im in
      case im_phase im of
        Halted \<Rightarrow>
          (if ho_exit h then Ended [] (leave (im_fault im) h) else after_sleep im (sleep_flow A 1000 (Going h)))
      | Waiting_since t \<Rightarrow>
          (if ho_exit h \<or> ho_pending h \<or> \<not> ho_now h - t < SLOW_SENSOR_START_NS then Next (im\<lparr>im_phase := Polling\<rparr>)
           else after_sleep im (sleep_flow A 10 (Going h)))
      | Polling \<Rightarrow>
          (if ho_exit h then Ended [] (leave (im_fault im) h)
           else if ho_pending h then (case take_reason h of (r, h1) \<Rightarrow> Ended r (leave (im_fault im) h1))
           else poll_turn A busy im))"

section \<open>The boot after its head\<close>

text \<open>What \<open>load\<close> makes of the calibration: whether one is still needed, and what the loop starts from.\<close>

definition app_load :: "string option \<Rightarrow> bool \<times> center_result \<times> range_result" where
  "app_load content =
     (case load_calibration content init_center init_range of
        (None, c, r) \<Rightarrow> (False, c, r)
      | (Some e, c, r) \<Rightarrow>
          if e = Calibration_unusable then (True, c, r)
          else (True, Calibration.set_manual_offset init_center f_0 f_0, init_range))"

text \<open>A boot starts with fresh memory; reboot threads of the boot before are still there.\<close>

definition app_fresh :: "'j app \<Rightarrow> reset_log \<Rightarrow> flash \<Rightarrow> 'j fw \<Rightarrow> 'j fw" where
  "app_fresh A l f m =
     m\<lparr>fw_service := init_service, fw_engine := init_ota f, fw_holds := 0, fw_gate := Idle, fw_needs := False,
       fw_status := init_status, fw_log := l, fw_tmag := main_tmag, fw_regs := fb_regs (init_fake_bus ()),
       fw_counter := fb_counter (init_fake_bus ()), fw_read_ok := True, fw_conversions := 0, fw_live := False,
       fw_received := []\<rparr>"

definition app_open_store :: "'j app \<Rightarrow> input_mode option \<Rightarrow> files \<Rightarrow> store option" where
  "app_open_store A mode fs =
     (case open_store (fs (ap_calibration_path A)) (fs (ap_settings_path A)) of
        Inl e \<Rightarrow> None
      | Inr st \<Rightarrow>
          Some (case mode of None \<Rightarrow> st
                | Some m \<Rightarrow> if fs (ap_settings_path A) = None then snd (set_input_mode m st) else st))"

text \<open>The services, the joystick and the loop's state, once the sensor answers.\<close>

definition app_start :: "'j app \<Rightarrow> next_image \<Rightarrow> store \<Rightarrow> 'j sim_host \<Rightarrow> 'j image" where
  "app_start A acts st h =
     (case app_load (ch_files (ho_chip h) (ap_calibration_path A)) of (needs, c, r) \<Rightarrow>
        let st1 = snd (set_calibration c r st);
            is_xac = (input_mode (st_settings st1) = XAC);
            h1 = on_mem (\<lambda>f. f\<lparr>fw_store := st1, fw_needs := needs, fw_live := True,
                   fw_joystick := ap_new_joystick A (apply_calibration_with c r (st_settings st1))\<rparr>) h;
            h2 = on_live (\<lambda>l. l\<lparr>lv_have_calibration := \<not> needs, lv_center_x := double_of_f32 (center_x c),
                   lv_center_y := double_of_f32 (center_y c), lv_mode := (if is_xac then 1 else 0)\<rparr>)
                   (h1\<lparr>ho_linked := True\<rparr>);
            fails = (acts \<in> {FAIL_SELF_TEST, SLOW_SENSOR_FAIL});
            h3 = (if fails then h2\<lparr>ho_sensor := set_fault NoResponse (ho_sensor h2)\<rparr> else h2);
            start = (\<lambda>cm. cm\<lparr>cm_center := c, cm_range := r\<rparr>) in
        \<lparr>im_host = h3,
         im_phase = (if acts \<in> {SLOW_SENSOR_START, SLOW_SENSOR_FAIL} then Waiting_since (ho_now h3) else Polling),
         im_xac_selected = is_xac,
         im_mouse = init_mouse_state\<lparr>ms_common := start (ms_common init_mouse_state)\<rparr>,
         im_xac = init_xac_state\<lparr>xs_common := start (xs_common init_xac_state)\<rparr>,
         im_health = (if ap_no_ota A then None
                      else Some (init_health (pending_verify (ch_flash (ho_chip h3))) (ho_now h3))),
         im_fault = (if fails then Some (sm_fault (ho_sensor h2)) else None)\<rparr>)"

text \<open>A sensor that does not come up: the image is rejected when it is unconfirmed, or the board halts.\<close>

definition app_halt :: "'j app \<Rightarrow> 'j sim_host \<Rightarrow> 'j turn" where
  "app_halt A h =
     (case (if ap_no_ota A then (False, h)
            else on_world (\<lambda>w. case reject_if_pending sim_ops (wd_ota w) of (b, q) \<Rightarrow> (b, w\<lparr>wd_ota := q\<rparr>)) h) of
        (True, h1) \<Rightarrow> caught None ''rollback'' h1
      | (False, h1) \<Rightarrow>
          Next \<lparr>im_host = h1, im_phase = Halted, im_xac_selected = False, im_mouse = init_mouse_state,
                im_xac = init_xac_state, im_health = None, im_fault = None\<rparr>)"

definition app_boot ::
  "'j app \<Rightarrow> sim_disk \<Rightarrow> input_mode option \<Rightarrow> int \<Rightarrow> u32 \<Rightarrow> 'j sim_host \<Rightarrow> u32 \<times> 'j turn" where
  "app_boot A D mode reason marker h =
     (let h0 = on_live (\<lambda>l. l\<lparr>lv_have_calibration := False, lv_last_sweep := - 1\<rparr>) h;
          c = ho_chip h0;
          (why, b) = sim_boot_head D (ap_no_ota A) reason
            \<lparr>bd_files = ch_files c, bd_flash = ch_flash c, bd_marker = marker\<rparr>;
          h1 = h0\<lparr>ho_chip := c\<lparr>ch_files := bd_files b, ch_flash := bd_flash b\<rparr>\<rparr> in
      (bd_marker b,
       case why of Some r \<Rightarrow> Ended r h1
       | None \<Rightarrow>
           let l = fst (sim_log_boot D reason (running_label (ch_flash c)) (ch_files c));
               h2 = on_live (\<lambda>l. l\<lparr>lv_sensor_fault := False, lv_sensor_observed := False\<rparr>)
                      (on_mem (app_fresh A l (bd_flash b)) h1) in
           case initialize (sim_bus A) main_tmag h2 of
             (False, t, h3) \<Rightarrow> app_halt A h3
           | (True, t, h3) \<Rightarrow>
               let h4 = on_mem (\<lambda>f. f\<lparr>fw_tmag := t\<rparr>) h3 in
               case app_open_store A mode (ch_files (ho_chip h4)) of
                 None \<Rightarrow> Undefined_turn
               | Some st \<Rightarrow>
                   Next (app_start A (behavior (slots (bd_flash b) (running (bd_flash b)))) st h4)))"

end
