(* ===== verification/Sim_Loop_Facts.thy ===== *)
theory Sim_Loop_Facts
  imports Sim_Loop
begin

text \<open>
  An iteration of the simulator's polling loop that runs no sweep does what an iteration on the device does: it
  takes the same input, goes to the same state and reports the same. \<open>matching_ports\<close> is the contract two
  \<open>Ports\<close> meet for their ticks to agree; \<open>EspPorts\<close> and \<open>SimPorts\<close> interpret it on a device whose bus is the
  simulated one.
\<close>

section \<open>The driver\<close>

context register_bus
begin

text \<open>Initialising a driver that is already set up for the part it finds does not change it.\<close>

lemma initialize_keeps_driver:
  assumes "wf w" "initialize B t w = (ok, t', w')" "regs w DEVICE_ID AND 0x03 = 0x02" "t_variant t = V_A2"
  shows "t' = t \<and> wf w'"
proof -
  obtain d0 w0 where r0: "read_u8 B DEVICE_ID w = (d0, w0)" by fastforce
  obtain c w1 where c: "is_connected B w = (c, w1)" by fastforce
  have "w1 = w0" using c r0 by (auto simp: is_connected_def split: option.splits)
  then have 1: "wf w1" "regs w1 = regs w"
    using read_u8_config [OF assms(1) _ r0] by (simp_all add: DEVICE_ID_def)
  obtain t1 w2 where d: "(if t_detect t then detect_variant B t w1 else (t, w1)) = (t1, w2)" by fastforce
  obtain d1 w3 where r1: "read_u8 B DEVICE_ID w1 = (d1, w3)" by fastforce
  have w3: "wf w3" "d1 = None \<or> d1 = Some (regs w DEVICE_ID)"
    using read_u8_config [OF 1(1) _ r1] 1 by (auto simp: DEVICE_ID_def)
  have t1: "t1 = t" "wf w2"
    using d r1 w3 1 assms(3,4) by (auto simp: detect_variant_def Let_def split: if_splits)
  have set: "set_all fs t w2 = (ok, t', w') \<Longrightarrow>
      \<forall>f \<in> set fs. \<exists>a g upd. a < 0x10 \<and> f = set_field B a g upd \<and> upd t = t \<Longrightarrow> wf w2 \<Longrightarrow> t' = t \<and> wf w'" for fs w2
  proof (induction fs arbitrary: w2)
    case (Cons f fs)
    obtain ok1 ta wa where f: "f t w2 = (ok1, ta, wa)" by (metis prod_cases3)
    from Cons.prems(2) obtain a g upd where g: "a < 0x10" "f = set_field B a g upd" "upd t = t" by auto
    from set_field_effect [OF Cons.prems(3) g(1), of g upd t] f g have "ta = t" "wf wa" by auto
    with Cons f show ?case by (auto split: if_splits)
  qed simp
  show ?thesis
  proof (cases c)
    case True
    have k: "\<exists>b h u. b < 0x10 \<and> set_field B a g upd = set_field B b h u \<and> u t = t"
      if "a < 0x10" "upd t = t" for a g upd using that by blast
    have upd: "\<forall>f \<in> set [set_magnetic_channels B (t_channels t), set_xy_range B (t_xy_range t),
       set_z_range B (t_z_range t), set_conversion_average B (t_average t),
       set_low_noise B (t_low_noise t), set_operating_mode B (t_mode t)].
       \<exists>a g upd. a < 0x10 \<and> f = set_field B a g upd \<and> upd t = t"
      unfolding set_magnetic_channels_def set_xy_range_def set_z_range_def set_conversion_average_def
        set_low_noise_def set_operating_mode_def list.set ball_simps
      by (intro conjI k TrueI) (cases t; simp add: register_defs)+
    show ?thesis using assms(2) c d True t1 set [OF _ upd] by (simp add: initialize_def)
  next
    case False
    then show ?thesis using assms(2) c 1 by (simp add: initialize_def)
  qed
qed

end


lemma mem_simps [simp]:
  "mem (on_mem f h) = f (mem h)" "mem (on_live g h) = mem h" "mem (h\<lparr>ho_sensor := m\<rparr>) = mem h"
  "mem (h\<lparr>ho_linked := b\<rparr>) = mem h" "ho_live (on_mem f h) = ho_live h"
  "ho_sensor (on_mem f h) = ho_sensor h" "ho_stick (on_mem f h) = ho_stick h" "ho_now (on_mem f h) = ho_now h"
  "ho_sensor (on_live g h) = ho_sensor h" "ho_stick (on_live g h) = ho_stick h" "ho_now (on_live g h) = ho_now h"
  "ch_files (ho_chip (on_mem f h)) = ch_files (ho_chip h)" "ch_flash (ho_chip (on_mem f h)) = ch_flash (ho_chip h)"
  "ho_chip (on_live g h) = ho_chip h"
  by (simp_all add: mem_def on_mem_def on_live_def)

lemma host_counts_mem:
  "host_counts A h = (c, h1) \<Longrightarrow> mem h1 = mem h \<and> sm_fault (ho_sensor h1) = sm_fault (ho_sensor h)"
  by (auto simp: host_counts_def sense_field_def dither_def noise_mT_def gaussian_def uniform_def Let_def case_prod_beta
      split: prod.splits)

definition sim_regs :: "'j sim_host \<Rightarrow> u8 \<Rightarrow> u8" where
  "sim_regs h a = fw_regs (mem h) ! unat a"

definition regs_ok :: "'j sim_host \<Rightarrow> bool" where
  "regs_ok h \<longleftrightarrow> length (fw_regs (mem h)) = 256"

interpretation sim_reg: register_bus "sim_bus A" sim_regs regs_ok for A :: "'j app"
proof (unfold_locales, goal_cases)
  case (1 w a d w')
  define b where "b = \<lparr>fb_regs = fw_regs (mem w), fb_counter = fw_counter (mem w), fb_fault = sm_fault (ho_sensor w), fb_env = w\<rparr>"
  have ok: "fake_ok b" using 1(1) by (simp add: b_def fake_ok_def regs_ok_def)
  obtain b' where r: "bus_read (fake_tmag_bus (host_counts A)) a 1 b = (d, b')"
    "w' = on_mem (\<lambda>m. m\<lparr>fw_regs := fb_regs b', fw_counter := fb_counter b'\<rparr>) (fb_env b')"
    using 1(3) by (auto simp: sim_bus_def with_bus_def b_def split: prod.splits)
  from fake.read_config [OF ok 1(2) r(1)]
  have "length (fb_regs b') = 256" "fake_regs b' = fake_regs b" "d = None \<or> d = Some [fake_regs b a]"
    by (auto simp: fake_ok_def)
  then show ?case by (auto simp: r(2) regs_ok_def sim_regs_def fake_regs_def b_def fun_eq_iff)
next
  case (2 w a v ok w')
  define b where "b = \<lparr>fb_regs = fw_regs (mem w), fb_counter = fw_counter (mem w), fb_fault = sm_fault (ho_sensor w), fb_env = w\<rparr>"
  have fok: "fake_ok b" using 2(1) by (simp add: b_def fake_ok_def regs_ok_def)
  obtain b' where r: "bus_write (fake_tmag_bus (host_counts A)) a v b = (ok, b')"
    "w' = on_mem (\<lambda>m. m\<lparr>fw_regs := fb_regs b', fw_counter := fb_counter b'\<rparr>) (fb_env b')"
    using 2(2) by (auto simp: sim_bus_def with_bus_def b_def split: prod.splits)
  from fake.write_config [OF fok r(1)]
  have "length (fb_regs b') = 256" "fake_regs b' = (if ok then (fake_regs b)(a := v) else fake_regs b)"
    by (auto simp: fake_ok_def)
  then show ?case by (auto simp: r(2) regs_ok_def sim_regs_def fake_regs_def b_def fun_eq_iff)
qed

text \<open>The driver of a booted image is that of the device.\<close>

lemma booted_driver:
  assumes "initialize (sim_bus A) main_tmag (on_mem (app_fresh A l f) h) = (ok, t, h1)"
  shows "t = main_tmag \<and> regs_ok h1"
proof (rule sim_reg.initialize_keeps_driver [OF _ assms])
  show "regs_ok (on_mem (app_fresh A l f) h)" by (simp add: regs_ok_def app_fresh_def init_fake_bus_def)
  show "sim_regs (on_mem (app_fresh A l f) h) DEVICE_ID AND 0x03 = 0x02"
    by (simp add: sim_regs_def app_fresh_def init_fake_bus_def DEVICE_ID_def)
  show "t_variant main_tmag = V_A2" by (simp add: main_tmag_def tmag_of_config_def)
qed

section \<open>Two ports that do the same\<close>

text \<open>Ports whose operations keep a relation between their worlds, apart from the sweep: a tick that runs no
  sweep keeps it and goes to the same state.\<close>

locale matching_ports =
  fixes P :: "'w ports" and Q :: "'v ports" and R :: "'w \<Rightarrow> 'v \<Rightarrow> bool"
  assumes mouse_match: "R w v \<Longrightarrow> R (send_mouse P m w) (send_mouse Q m v)"
    and xac_match: "R w v \<Longrightarrow> R (send_xac P x w) (send_xac Q x v)"
    and save_match: "R w v \<Longrightarrow> R (save_to_flash P w) (save_to_flash Q v)"
    and drift_match: "R w v \<Longrightarrow> rel_prod (=) R (apply_drift P c r w) (apply_drift Q c r v)"
    and fault_match: "R w v \<Longrightarrow> R (sensor_fault_changed P b k n w) (sensor_fault_changed Q b k n v)"
    and healthy_match: "R w v \<Longrightarrow> R (sensor_observed_healthy P w) (sensor_observed_healthy Q v)"
begin

lemma update_match:
  assumes "R w v"
  shows "rel_prod (=) (rel_prod (=) R) (sensor_fault_update P cm i w) (sensor_fault_update Q cm i v)"
  using assms by (auto simp: sensor_fault_update_def Let_def fault_match healthy_match split: prod.splits)

lemma push_match:
  assumes "R w v"
  shows "rel_prod (=) R (push_drift P out cm w) (push_drift Q out cm v)"
  using drift_match [OF assms, of "cm_center cm" "cm_range cm"] assms
  by (auto simp: push_drift_def Let_def save_match split: prod.splits)

lemma mouse_match_tick:
  assumes "R w v" "\<not> recalibration_requested i"
  shows "rel_option (rel_prod (=) R) (mouse_tick hyp P s i w) (mouse_tick hyp Q s i v)"
proof -
  obtain e cm w1 where p: "sensor_fault_update P (ms_common s) i w = (e, cm, w1)" by (metis prod_cases3)
  obtain e' cm' v1 where q': "sensor_fault_update Q (ms_common s) i v = (e', cm', v1)" by (metis prod_cases3)
  have q: "sensor_fault_update Q (ms_common s) i v = (e, cm, v1)" and r: "R w1 v1"
    using update_match [OF assms(1), of "ms_common s" i] p q' by auto
  define s3 where "s3 = (if edge_recovered e then rebase i (if edge_tripped e then release_nudge (s\<lparr>ms_common := cm\<rparr>)
      else s\<lparr>ms_common := cm\<rparr>) else if edge_tripped e then release_nudge (s\<lparr>ms_common := cm\<rparr>) else s\<lparr>ms_common := cm\<rparr>)"
  consider "holds_output i" | "\<not> holds_output i" "edge_faulted e" | "\<not> holds_output i" "\<not> edge_faulted e" by blast
  then show ?thesis
  proof cases
    case 3
    show ?thesis
    proof (cases "mouse_step hyp s3 i")
      case None
      then show ?thesis using 3 by (simp add: mouse_tick_def p q Let_def assms(2) s3_def)
    next
      case (Some so)
      obtain s4 out where so: "so = (s4, out)" by fastforce
      have nr: "\<not> run_recalibration out" using mouse_step_parts [OF Some [unfolded so] assms(2)] by metis
      define w2 where "w2 = (if send_report out then send_mouse P (out_mouse out) w1 else w1)"
      define v2 where "v2 = (if send_report out then send_mouse Q (out_mouse out) v1 else v1)"
      have "R w2 v2" using r by (simp add: w2_def v2_def mouse_match)
      from push_match [OF this, of out "ms_common s4"] obtain cm2 w3 v3 where
        "push_drift P out (ms_common s4) w2 = (cm2, w3)" "push_drift Q out (ms_common s4) v2 = (cm2, v3)" "R w3 v3"
        by (metis rel_prod.cases)
      moreover have "mouse_tick hyp P s i w = (case push_drift P out (ms_common s4) w2 of (cm2, w3) \<Rightarrow> Some (s4\<lparr>ms_common := cm2\<rparr>, w3))"
        using 3 Some so nr by (simp add: mouse_tick_def p Let_def assms(2) s3_def w2_def)
      moreover have "mouse_tick hyp Q s i v = (case push_drift Q out (ms_common s4) v2 of (cm2, w3) \<Rightarrow> Some (s4\<lparr>ms_common := cm2\<rparr>, w3))"
        using 3 Some so nr by (simp add: mouse_tick_def q Let_def assms(2) s3_def v2_def)
      ultimately show ?thesis by simp
    qed
  qed (use r in \<open>simp_all add: mouse_tick_def p q Let_def assms(2) mouse_match\<close>)
qed

lemma xac_match_tick:
  assumes "R w v" "\<not> recalibration_requested i"
  shows "rel_option (rel_prod (=) R) (xac_tick hyp P s i w) (xac_tick hyp Q s i v)"
proof -
  obtain e cm w1 where p: "sensor_fault_update P (xs_common s) i w = (e, cm, w1)" by (metis prod_cases3)
  obtain e' cm' v1 where q': "sensor_fault_update Q (xs_common s) i v = (e', cm', v1)" by (metis prod_cases3)
  have q: "sensor_fault_update Q (xs_common s) i v = (e, cm, v1)" and r: "R w1 v1"
    using update_match [OF assms(1), of "xs_common s" i] p q' by auto
  consider "holds_output i" | "\<not> holds_output i" "edge_faulted e" | "\<not> holds_output i" "\<not> edge_faulted e" by blast
  then show ?thesis
  proof cases
    case 3
    obtain s2 out where st: "xac_step hyp (s\<lparr>xs_common := cm\<rparr>) i = (s2, out)" by fastforce
    have nr: "\<not> run_recalibration out"
      using st drift_step_frame assms(2) by (auto simp: xac_step_def Let_def init_output_def split: if_splits prod.splits)
    define w2 where "w2 = (if send_report out then send_xac P (out_xac out) w1 else w1)"
    define v2 where "v2 = (if send_report out then send_xac Q (out_xac out) v1 else v1)"
    have "R w2 v2" using r by (simp add: w2_def v2_def xac_match)
    from push_match [OF this, of out "xs_common s2"] obtain cm2 w3 v3 where
      "push_drift P out (xs_common s2) w2 = (cm2, w3)" "push_drift Q out (xs_common s2) v2 = (cm2, v3)" "R w3 v3"
      by (metis rel_prod.cases)
    then show ?thesis
      using 3 st nr by (simp add: xac_tick_def p q Let_def assms(2) w2_def v2_def)
  qed (use r in \<open>simp_all add: xac_tick_def p q Let_def assms(2) xac_match\<close>)
qed

end

section \<open>A device around the simulated sensor\<close>

text \<open>The firmware on the hardware the simulator stands for: its bus is the simulated one, its clock the host's.\<close>

definition board_of :: "'j app \<Rightarrow> (sim_ota, 'j, 'j sim_host) board" where
  "board_of A =
     \<lparr>b_ops = sim_ops, b_codec = ap_codec A, b_bus = sim_bus A,
      b_sleep = (\<lambda>t e. clock_sleep t e), b_now = (\<lambda>e. (ho_now e, e)), b_write = (\<lambda>p e. (ap_write A p, e)),
      b_vendor = (\<lambda>f e. (ap_up A, e)), b_cdc = (\<lambda>f e. (ap_up A, e)), b_atan2 = ap_atan2 A, b_hypot = ap_hypot A,
      b_calibration_path = ap_calibration_path A, b_settings_path = ap_settings_path A, js_update = ap_update A,
      js_position = ap_position A, js_raw = ap_raw A, js_set_calibration = ap_set_calibration A\<rparr>"

text \<open>What a conversion depends on.\<close>

definition sensing :: "'j sim_host \<Rightarrow> (nanos \<times> sensor_model \<times> stick_source) \<times> bytes \<times> u8" where
  "sensing h = ((ho_now h, ho_sensor h, ho_stick h), fw_regs (mem h), fw_counter (mem h))"

text \<open>The device's memory and the simulated firmware's are the same.\<close>

definition paired :: "(sim_ota, 'j, 'j sim_host) device_world \<Rightarrow> 'j sim_host \<Rightarrow> bool" where
  "paired w h \<longleftrightarrow>
     (let d = wd_env w; m = mem h in
      wd_store w = fw_store m \<and> so_flash (wd_ota w) = ch_flash (ho_chip h) \<and>
      dv_holds d = fw_holds m \<and> dv_gate d = fw_gate m \<and> dv_needs_calibration d = fw_needs m \<and>
      dv_status d = fw_status m \<and> dv_log d = fw_log m \<and> dv_files d = ch_files (ho_chip h) \<and>
      dv_read_ok d = fw_read_ok m \<and> dv_conversions d = fw_conversions m \<and> dv_joystick d = fw_joystick m \<and>
      dv_live d = fw_live m \<and> dv_tmag d = fw_tmag m \<and> sensing (dv_ext d) = sensing h)"

text \<open>The reports of a run, as the device sends them and as the host adds them up.\<close>

datatype report = Mouse_out mouse_report | Xac_out xac_report

definition sent_report :: "report \<Rightarrow> hid_report" where
  "sent_report r = (case r of Mouse_out m \<Rightarrow> Mouse_sent (mouse_hid_of m) | Xac_out x \<Rightarrow> Xac_sent (xac_hid_of x))"

definition show_report :: "report \<Rightarrow> 'w host \<Rightarrow> 'w host" where
  "show_report r = (case r of Mouse_out m \<Rightarrow> on_mouse m | Xac_out x \<Rightarrow> on_xac x)"

definition seen :: "'w host \<Rightarrow> (int \<times> int \<times> bool \<times> bool \<times> bool \<times> u8) \<times> (int \<times> int \<times> int \<times> u8 \<times> bool) \<times> double \<times> double \<times> bool" where
  "seen h = ((win_dx h, win_dy h, win_left h, win_right h, win_neutral h, prev_buttons h),
     (agg_dx h, agg_dy h, agg_wheel h, agg_buttons h, agg_dirty h), host_xac_x h, host_xac_y h, last_was_xac h)"

definition twin :: "hid_report list \<Rightarrow> 'j sim_host \<Rightarrow> (sim_ota, 'j, 'j sim_host) device_world \<Rightarrow> 'j sim_host flow \<Rightarrow> bool" where
  "twin sent h0 w v \<longleftrightarrow> (\<exists>h rs. v = Going h \<and> paired w h \<and>
     dv_hid (wd_env w) = sent @ map sent_report rs \<and> seen h = seen (fold show_report rs h0))"

lemma show_report_cong: "seen h = seen k \<Longrightarrow> seen (show_report r h) = seen (show_report r k)"
  by (cases r) (simp_all add: show_report_def seen_def on_mouse_def on_xac_def)

lemma twin_intro:
  "paired w h \<Longrightarrow> dv_hid (wd_env w) = sent @ map sent_report rs \<Longrightarrow> seen h = seen (fold show_report rs h0) \<Longrightarrow>
   twin sent h0 w (Going h)"
  by (auto simp: twin_def)

lemma twin_quiet:
  assumes "twin sent h0 w (Going h)" "paired w' h'" "dv_hid (wd_env w') = dv_hid (wd_env w)" "seen h' = seen h"
  shows "twin sent h0 w' (Going h')"
  using assms unfolding twin_def by auto

lemma twin_paired: "twin sent h0 w (Going h) \<Longrightarrow> paired w h"
  by (auto simp: twin_def)

subsection \<open>The sensor\<close>

lemma sensing_mem [simp]:
  "sensing (on_mem (\<lambda>m. m\<lparr>fw_regs := r, fw_counter := c\<rparr>) h) = (fst (sensing h), r, c)"
  by (simp add: sensing_def)

lemma host_counts_sensing:
  assumes "sensing e = sensing h" "host_counts A e = (c, e1)" "host_counts A h = (c', h1)"
  shows "c' = c \<and> sensing e1 = sensing h1 \<and> mem h1 = mem h \<and> ho_chip h1 = ho_chip h \<and> seen h1 = seen h"
  using assms
  by (auto simp: host_counts_def sensing_def stick_now_def now_ms_def seen_def on_live_def mem_def split: prod.splits)

lemma fake_read_lockstep:
  assumes "fake_read c reg n b = (d, b1)" "fake_read c reg n b' = (d', b1')"
    "fb_regs b' = fb_regs b" "fb_counter b' = fb_counter b" "fb_fault b' = fb_fault b"
    "fst (c (fb_env b')) = fst (c (fb_env b))"
  shows "d' = d \<and> fb_regs b1' = fb_regs b1 \<and> fb_counter b1' = fb_counter b1 \<and>
    (fb_env b1 = fb_env b \<and> fb_env b1' = fb_env b' \<or>
     fb_env b1 = snd (c (fb_env b)) \<and> fb_env b1' = snd (c (fb_env b')))"
  using assms
  by (auto simp: fake_read_def fake_convert_def Let_def split: prod.splits if_splits)

lemma sim_read_lockstep:
  assumes "sensing e = sensing h" "bus_read (sim_bus A) reg n e = (d, e1)" "bus_read (sim_bus A) reg n h = (d', h1)"
  shows "d' = d \<and> sensing e1 = sensing h1 \<and> (\<exists>r c. mem h1 = (mem h)\<lparr>fw_regs := r, fw_counter := c\<rparr>) \<and>
    ch_flash (ho_chip h1) = ch_flash (ho_chip h) \<and> ch_files (ho_chip h1) = ch_files (ho_chip h) \<and> seen h1 = seen h"
proof -
  define b where "b = \<lparr>fb_regs = fw_regs (mem e), fb_counter = fw_counter (mem e), fb_fault = sm_fault (ho_sensor e), fb_env = e\<rparr>"
  define b' where "b' = \<lparr>fb_regs = fw_regs (mem h), fb_counter = fw_counter (mem h), fb_fault = sm_fault (ho_sensor h), fb_env = h\<rparr>"
  obtain b1 where r: "fake_read (host_counts A) reg n b = (d, b1)"
    "e1 = on_mem (\<lambda>m. m\<lparr>fw_regs := fb_regs b1, fw_counter := fb_counter b1\<rparr>) (fb_env b1)"
    using assms(2) by (auto simp: sim_bus_def with_bus_def fake_tmag_bus_def b_def split: prod.splits)
  obtain b1' where r': "fake_read (host_counts A) reg n b' = (d', b1')"
    "h1 = on_mem (\<lambda>m. m\<lparr>fw_regs := fb_regs b1', fw_counter := fb_counter b1'\<rparr>) (fb_env b1')"
    using assms(3) by (auto simp: sim_bus_def with_bus_def fake_tmag_bus_def b'_def split: prod.splits)
  have s: "fb_regs b' = fb_regs b" "fb_counter b' = fb_counter b" "fb_fault b' = fb_fault b"
    using assms(1) by (simp_all add: b_def b'_def sensing_def)
  obtain c2 e2 where c: "host_counts A e = (c2, e2)" by fastforce
  obtain c3 h3 where c': "host_counts A h = (c3, h3)" by fastforce
  note l = host_counts_sensing [OF assms(1) c c']
  have k: "fst (host_counts A (fb_env b')) = fst (host_counts A (fb_env b))"
    using l c c' by (simp add: b_def b'_def)
  note f = fake_read_lockstep [OF r(1) r'(1) s k]
  have env: "sensing (fb_env b1) = sensing (fb_env b1') \<and> mem (fb_env b1') = mem h \<and>
      ho_chip (fb_env b1') = ho_chip h \<and> seen (fb_env b1') = seen h"
    using f l c c' assms(1) by (auto simp: b_def b'_def)
  have "seen (on_mem g x) = seen x" for g and x :: "'a sim_host" by (simp add: seen_def on_mem_def)
  then show ?thesis using f env by (auto simp: r(2) r'(2))
qed

lemma read_magnetic_lockstep:
  assumes "sensing e = sensing h" "read_magnetic (sim_bus A) t e = (d, e1)" "read_magnetic (sim_bus A) t h = (d', h1)"
  shows "d' = d \<and> sensing e1 = sensing h1 \<and> (\<exists>r c. mem h1 = (mem h)\<lparr>fw_regs := r, fw_counter := c\<rparr>) \<and>
    ch_flash (ho_chip h1) = ch_flash (ho_chip h) \<and> ch_files (ho_chip h1) = ch_files (ho_chip h) \<and> seen h1 = seen h"
proof -
  obtain x x1 where r: "bus_read (sim_bus A) X_MSB_RESULT 7 e = (x, x1)" by fastforce
  obtain y y1 where r': "bus_read (sim_bus A) X_MSB_RESULT 7 h = (y, y1)" by fastforce
  note l = sim_read_lockstep [OF assms(1) r r']
  show ?thesis
    using l assms(2,3) by (cases x) (auto simp: read_magnetic_def read_raw_def r r')
qed

lemma board_of_simps [simp]:
  "b_ops (board_of A) = sim_ops" "b_bus (board_of A) = sim_bus A" "b_now (board_of A) e = (ho_now e, e)"
  "b_write (board_of A) p e = (ap_write A p, e)" "js_update (board_of A) = ap_update A"
  "js_position (board_of A) = ap_position A" "js_raw (board_of A) = ap_raw A"
  "js_set_calibration (board_of A) = ap_set_calibration A" "b_hypot (board_of A) = ap_hypot A"
  "b_calibration_path (board_of A) = ap_calibration_path A" "b_settings_path (board_of A) = ap_settings_path A"
  by (simp_all add: board_of_def)

lemma seen_simps [simp]:
  "seen (on_mem f h) = seen h" "seen (on_live g h) = seen h" "seen (console_text t h) = seen h"
  "seen (h\<lparr>ho_chip := c\<rparr>) = seen h"
  by (simp_all add: seen_def on_mem_def on_live_def console_text_def)

lemma sensing_frame [simp]:
  "sensing (on_live g h) = sensing h" "sensing (console_text t h) = sensing h" "mem (console_text t h) = mem h"
  "ho_chip (console_text t h) = ho_chip h" "sensing (on_mouse m h) = sensing h" "sensing (on_xac x h) = sensing h"
  "mem (on_mouse m h) = mem h" "mem (on_xac x h) = mem h" "ho_chip (on_mouse m h) = ho_chip h" "ho_chip (on_xac x h) = ho_chip h"
  by (simp_all add: sensing_def on_live_def console_text_def mem_def on_mouse_def on_xac_def)

lemma sensing_on_mem: "fw_regs (f (mem h)) = fw_regs (mem h) \<Longrightarrow> fw_counter (f (mem h)) = fw_counter (mem h) \<Longrightarrow>
   sensing (on_mem f h) = sensing h"
  by (simp add: sensing_def)

lemma warn_simps [simp]:
  "seen (warn t e h) = seen h" "sensing (warn t e h) = sensing h" "mem (warn t e h) = mem h" "ho_chip (warn t e h) = ho_chip h"
  by (simp_all add: warn_def split: option.split)

subsection \<open>The operations\<close>

lemma read_stick_lockstep:
  assumes "paired w h" "esp_read_stick (board_of A) w = (s, w1)" "app_read_stick A h = (s', h1)"
  shows "s' = s \<and> paired w1 h1 \<and> dv_hid (wd_env w1) = dv_hid (wd_env w) \<and> seen h1 = seen h"
proof -
  have t: "dv_tmag (wd_env w) = fw_tmag (mem h)" "sensing (dv_ext (wd_env w)) = sensing h"
    using assms(1) by (simp_all add: paired_def Let_def)
  obtain d e1 where r: "read_magnetic (sim_bus A) (fw_tmag (mem h)) (dv_ext (wd_env w)) = (d, e1)" by fastforce
  obtain d' h2 where r': "read_magnetic (sim_bus A) (fw_tmag (mem h)) h = (d', h2)" by fastforce
  note l = read_magnetic_lockstep [OF t(2) r r']
  then obtain g c where m: "mem h2 = (mem h)\<lparr>fw_regs := g, fw_counter := c\<rparr>" by blast
  define v where "v = map_option (\<lambda>m. (mag_x m, mag_y m)) d"
  define c0 where "c0 = (case d of None \<Rightarrow> 0 | Some m \<Rightarrow> mag_count m)"
  define J where "J = ap_update A v (fw_joystick (mem h))"
  have j: "dv_joystick (wd_env w) = fw_joystick (mem h)" using assms(1) by (simp add: paired_def Let_def)
  have cb: "read_callback (board_of A) w =
      (v, w\<lparr>wd_env := (wd_env w)\<lparr>dv_ext := e1, dv_read_ok := d \<noteq> None, dv_conversions := c0\<rparr>\<rparr>)"
    by (cases d) (simp_all add: read_callback_def on_ext_def on_dev_def t(1) r v_def c0_def)
  have w1: "w1 = w\<lparr>wd_env := (wd_env w)\<lparr>dv_ext := e1, dv_read_ok := d \<noteq> None, dv_conversions := c0, dv_joystick := J\<rparr>\<rparr>"
    and s: "s = \<lparr>st_x = fst (ap_position A J), st_y = snd (ap_position A J), raw_x = fst (ap_raw A J),
      raw_y = snd (ap_raw A J), read_ok = (d \<noteq> None), conversion_count = Some c0\<rparr>"
    using assms(2) unfolding esp_read_stick_def cb by (simp_all add: on_dev_def Let_def J_def j)
  have cb': "app_read_callback A h = (v, on_mem (\<lambda>f. f\<lparr>fw_read_ok := d \<noteq> None, fw_conversions := c0\<rparr>) h2)"
    using l by (cases d) (simp_all add: app_read_callback_def r' v_def c0_def)
  have h1: "h1 = on_mem (\<lambda>f. f\<lparr>fw_read_ok := d \<noteq> None, fw_conversions := c0, fw_joystick := J\<rparr>) h2"
    and s': "s' = \<lparr>st_x = fst (ap_position A J), st_y = snd (ap_position A J), raw_x = fst (ap_raw A J),
      raw_y = snd (ap_raw A J), read_ok = (d \<noteq> None), conversion_count = Some c0\<rparr>"
    using assms(3) m unfolding app_read_stick_def cb' by (simp_all add: on_mem_def mem_def Let_def J_def)
  have k: "sensing h1 = sensing h2" by (simp add: h1 sensing_on_mem)
  show ?thesis
    using assms(1) l m k by (simp add: w1 s s' paired_def Let_def) (simp add: h1)
qed

lemma failed_write: "wc \<noteq> Written \<Longrightarrow> fst (save_store wc ws p q st fs) \<noteq> None \<and>
   save_store wc ws p q st fs = save_store wc ws' p q st fs"
  by (cases wc) (auto simp: save_store_def save_calibration_file_def write_file_def split: prod.splits option.splits)

text \<open>A save, on the device and in the simulator's world.\<close>

lemma device_save_board:
  "device_save (board_of A) w =
     (case save_store (ap_write A (ap_calibration_path A)) (ap_write A (ap_settings_path A)) (ap_calibration_path A)
             (ap_settings_path A) (wd_store w) (dv_files (wd_env w)) of
        (e, fs) \<Rightarrow> (map_option cal_error_code e, w\<lparr>wd_env := (wd_env w)\<lparr>dv_files := fs\<rparr>\<rparr>))"
proof (cases "ap_write A (ap_calibration_path A) = Written")
  case False
  show ?thesis
    using failed_write [OF False, of Written "ap_calibration_path A" "ap_settings_path A" "wd_store w" "dv_files (wd_env w)"
        "ap_write A (ap_settings_path A)"] False
    by (simp add: device_save_def on_ext_def on_dev_def Let_def split: prod.split)
qed (simp add: device_save_def on_ext_def on_dev_def Let_def split: prod.split)

lemma on_world_quiet:
  assumes "f (open_world (ho_chip h)) = (x, w)" "le_out (wd_env w) = []" "le_restarts (wd_env w) = []"
  shows "on_world f h = (x, h\<lparr>ho_chip := close_world w\<rparr>)"
  using assms by (simp add: on_world_def)

lemma open_world_simps [simp]:
  "wd_store (open_world c) = fw_store (ch_mem c)" "le_chip (wd_env (open_world c)) = c"
  "le_out (wd_env (open_world c)) = []" "le_restarts (wd_env (open_world c)) = []"
  "so_flash (wd_ota (open_world c)) = ch_flash c"
  by (simp_all add: open_world_def)

lemma app_save_frame:
  assumes "app_save A w = (e, w1)"
  shows "le_out (wd_env w1) = le_out (wd_env w) \<and> le_restarts (wd_env w1) = le_restarts (wd_env w) \<and>
    wd_store w1 = wd_store w \<and> wd_ota w1 = wd_ota w \<and> world_mem w1 = world_mem w \<and>
    ch_flash (le_chip (wd_env w1)) = ch_flash (le_chip (wd_env w)) \<and>
    (e, ch_files (le_chip (wd_env w1))) = (case save_store (ap_write A (ap_calibration_path A)) (ap_write A (ap_settings_path A))
       (ap_calibration_path A) (ap_settings_path A) (wd_store w) (ch_files (le_chip (wd_env w))) of
       (e, fs) \<Rightarrow> (map_option cal_error_code e, fs))"
  using assms by (auto simp: app_save_def on_env_def Let_def split: prod.splits)

lemma save_lockstep:
  assumes "paired w h" "device_save (board_of A) w = (e, w1)" "on_world (app_save A) h = (e', h1)"
  shows "e' = e \<and> paired w1 h1 \<and> dv_hid (wd_env w1) = dv_hid (wd_env w) \<and> seen h1 = seen h"
proof -
  obtain x y where a: "app_save A (open_world (ho_chip h)) = (x, y)" by fastforce
  note f = app_save_frame [OF a]
  have o: "on_world (app_save A) h = (x, h\<lparr>ho_chip := close_world y\<rparr>)"
    by (rule on_world_quiet [where f = "app_save A", OF a]) (use f in simp_all)
  obtain z fs where ss: "save_store (ap_write A (ap_calibration_path A)) (ap_write A (ap_settings_path A)) (ap_calibration_path A)
             (ap_settings_path A) (wd_store w) (dv_files (wd_env w)) = (z, fs)" by fastforce
  have s: "fw_store (ch_mem (ho_chip h)) = wd_store w" "ch_files (ho_chip h) = dv_files (wd_env w)"
    using assms(1) by (simp_all add: paired_def Let_def mem_def)
  have e: "e = map_option cal_error_code z" "w1 = w\<lparr>wd_env := (wd_env w)\<lparr>dv_files := fs\<rparr>\<rparr>"
    using assms(2) by (simp_all add: device_save_board ss)
  have c: "x = e" "ch_files (close_world y) = fs" "ch_flash (close_world y) = ch_flash (ho_chip h)"
    "ch_mem (close_world y) = (ch_mem (ho_chip h))\<lparr>fw_store := wd_store w, fw_engine := wd_ota y\<rparr>"
    using f s ss e by (auto simp: close_world_def Let_def open_world_def)
  have h1: "e' = x" "h1 = h\<lparr>ho_chip := close_world y\<rparr>" using assms(3) o by simp_all
  show ?thesis
    using assms(1) c by (simp add: h1 e(2) paired_def Let_def sensing_def mem_def)
qed

text \<open>A measured calibration into the store: the joystick follows when it is alive.\<close>

definition measured :: "'j app \<Rightarrow> center_result \<Rightarrow> range_result \<Rightarrow> bool \<Rightarrow> store \<Rightarrow> 'j \<Rightarrow> store \<times> 'j" where
  "measured A c r alive st j =
     (let st1 = snd (set_measured_calibration c r st) in
      (st1, if alive then ap_set_calibration A (apply_calibration_with (st_center st1) (st_range st1) (st_settings st1)) j else j))"

lemma device_measured:
  assumes "measured A c r (dv_live (wd_env w)) (wd_store w) (dv_joystick (wd_env w)) = (st, j)"
  shows "update_store (board_of A) (set_measured_calibration c r) w =
    w\<lparr>wd_store := st, wd_env := (wd_env w)\<lparr>dv_joystick := j\<rparr>\<rparr>"
  using assms
  by (auto simp: update_store_def fire_def fire_one_def reapply_def measured_def set_measured_calibration_def Let_def on_dev_def
      split: if_splits)

lemma app_measured:
  assumes "measured A c r (fw_live (world_mem w)) (wd_store w) (fw_joystick (world_mem w)) = (st, j)"
  shows "app_update_store A (set_measured_calibration c r) w = env_mem (\<lambda>f. f\<lparr>fw_joystick := j\<rparr>) (w\<lparr>wd_store := st\<rparr>)"
proof -
  define st1 where "st1 = snd (set_measured_calibration c r (wd_store w))"
  have st: "st = st1" using assms by (simp add: measured_def Let_def st1_def split: prod.splits)
  have e: "set_measured_calibration c r (wd_store w) = ([Calibration_changed], st1)"
    by (simp add: st1_def set_measured_calibration_def)
  show ?thesis
  proof (cases "fw_live (world_mem w)")
    case True
    then have "j = ap_set_calibration A (apply_calibration_with (st_center st1) (st_range st1) (st_settings st1)) (fw_joystick (world_mem w))"
      using assms by (auto simp add: measured_def Let_def st1_def)
    with True show ?thesis
      by (simp add: app_update_store_def e st app_fire_def app_fire_one_def app_set_joystick_def env_mem_def on_env_def)
  next
    case False
    then have j: "j = fw_joystick (world_mem w)" using assms by (simp add: measured_def Let_def)
    have "env_mem (\<lambda>f. f\<lparr>fw_joystick := fw_joystick f\<rparr>) x = x" for x :: "'a fw_world"
      by (simp add: env_mem_def on_env_def)
    then have "env_mem (\<lambda>f. f\<lparr>fw_joystick := j\<rparr>) (w\<lparr>wd_store := st1\<rparr>) = w\<lparr>wd_store := st1\<rparr>"
      by (simp add: env_mem_def on_env_def j)
    with False show ?thesis by (simp add: app_update_store_def e st app_fire_def app_fire_one_def)
  qed
qed

lemma drift_lockstep:
  assumes "paired w h" "esp_apply_drift (board_of A) c r w = (d, w1)" "app_apply_drift A c r h = (d', h1)"
  shows "d' = d \<and> paired w1 h1 \<and> dv_hid (wd_env w1) = dv_hid (wd_env w) \<and> seen h1 = seen h"
proof -
  have p: "fw_store (ch_mem (ho_chip h)) = wd_store w" "fw_live (ch_mem (ho_chip h)) = dv_live (wd_env w)"
    "fw_joystick (ch_mem (ho_chip h)) = dv_joystick (wd_env w)"
    using assms(1) by (simp_all add: paired_def Let_def mem_def)
  obtain st j where m: "measured A c r (dv_live (wd_env w)) (wd_store w) (dv_joystick (wd_env w)) = (st, j)" by fastforce
  define j1 where "j1 = ap_set_calibration A (apply_calibration_with (st_center st) r (st_settings st)) j"
  have w1: "d = st_center st" "w1 = w\<lparr>wd_store := st, wd_env := (wd_env w)\<lparr>dv_joystick := j1\<rparr>\<rparr>"
    using assms(2) by (auto simp add: esp_apply_drift_def device_measured [OF m] on_dev_def Let_def j1_def)
  have "app_update_store A (set_measured_calibration c r) (open_world (ho_chip h)) =
      env_mem (\<lambda>f. f\<lparr>fw_joystick := j\<rparr>) ((open_world (ho_chip h))\<lparr>wd_store := st\<rparr>)"
    by (rule app_measured) (simp add: p m)
  then have "app_apply_drift A c r h = (st_center st, h\<lparr>ho_chip := (ho_chip h)\<lparr>ch_mem := (ch_mem (ho_chip h))
      \<lparr>fw_joystick := j1, fw_store := st, fw_engine := (fw_engine (ch_mem (ho_chip h)))\<lparr>so_flash := ch_flash (ho_chip h)\<rparr>\<rparr>\<rparr>\<rparr>)"
    by (simp add: app_apply_drift_def on_world_def app_set_joystick_def env_mem_def on_env_def Let_def close_world_def
        open_world_def j1_def)
  then have h1: "d' = st_center st" "h1 = h\<lparr>ho_chip := (ho_chip h)\<lparr>ch_mem := (ch_mem (ho_chip h))
      \<lparr>fw_joystick := j1, fw_store := st, fw_engine := (fw_engine (ch_mem (ho_chip h)))\<lparr>so_flash := ch_flash (ho_chip h)\<rparr>\<rparr>\<rparr>\<rparr>"
    using assms(3) by simp_all
  show ?thesis using assms(1) by (simp add: w1 h1 paired_def Let_def sensing_def mem_def)
qed

lemma publish_same: "sim_publish b k n s = publish b k n s" "sim_observed_healthy s = observed_healthy s"
  by (simp_all add: sim_publish_def publish_def Let_def sim_observed_healthy_def observed_healthy_def)

interpretation sim_twin: matching_ports "esp_ports (board_of A)" "sim_ports A" "twin sent h0"
  for A :: "'j app" and sent :: "hid_report list" and h0 :: "'j sim_host"
proof (unfold_locales, goal_cases)
  case (1 w v m)
  then obtain h rs where h: "v = Going h" "paired w h" "dv_hid (wd_env w) = sent @ map sent_report rs"
    "seen h = seen (fold show_report rs h0)" by (auto simp: twin_def)
  have "seen (on_mouse m h) = seen (fold show_report (rs @ [Mouse_out m]) h0)"
    using show_report_cong [OF h(4), of "Mouse_out m"] by (simp add: show_report_def)
  then show ?case using h
    by (auto simp: esp_ports_def sim_ports_def going_def send_hid_def paired_def Let_def sent_report_def
        intro!: twin_intro [of _ _ _ "rs @ [Mouse_out m]"])
next
  case (2 w v x)
  then obtain h rs where h: "v = Going h" "paired w h" "dv_hid (wd_env w) = sent @ map sent_report rs"
    "seen h = seen (fold show_report rs h0)" by (auto simp: twin_def)
  have "seen (on_xac x h) = seen (fold show_report (rs @ [Xac_out x]) h0)"
    using show_report_cong [OF h(4), of "Xac_out x"] by (simp add: show_report_def)
  then show ?case using h
    by (auto simp: esp_ports_def sim_ports_def going_def send_hid_def paired_def Let_def sent_report_def
        intro!: twin_intro [of _ _ _ "rs @ [Xac_out x]"])
next
  case (3 w v)
  then obtain h where h: "v = Going h" by (auto simp: twin_def)
  obtain e w1 where e: "device_save (board_of A) w = (e, w1)" by fastforce
  obtain e' h1 where e': "on_world (app_save A) h = (e', h1)" by fastforce
  note l = save_lockstep [OF twin_paired [OF 3 [unfolded h]] e e']
  have "paired w1 (warn t e'' h1)" for t e'' using l by (simp add: paired_def Let_def)
  then show ?case using 3 l
    by (auto simp: esp_ports_def sim_ports_def going_def app_save_to_flash_def h e e' intro: twin_quiet)
next
  case (4 w v c r)
  then obtain h where h: "v = Going h" by (auto simp: twin_def)
  obtain e w1 where e: "esp_apply_drift (board_of A) c r w = (e, w1)" by fastforce
  obtain e' h1 where e': "app_apply_drift A c r h = (e', h1)" by fastforce
  show ?case using 4 drift_lockstep [OF twin_paired [OF 4 [unfolded h]] e e']
    by (auto simp: esp_ports_def sim_ports_def h e e' intro: twin_quiet)
next
  case (5 w v b k n)
  then obtain h where h: "v = Going h" by (auto simp: twin_def)
  have "paired w h" using 5 h by (auto dest: twin_paired)
  then have "paired (on_dev (\<lambda>d. d\<lparr>dv_status := publish b k n (dv_status d)\<rparr>) w) (app_fault_changed b k n h)"
    by (simp add: app_fault_changed_def Let_def paired_def publish_same sensing_on_mem)
  then show ?case using 5
    by (auto simp: esp_ports_def sim_ports_def going_def h app_fault_changed_def Let_def intro: twin_quiet split: if_splits)
next
  case (6 w v)
  then obtain h where h: "v = Going h" by (auto simp: twin_def)
  have "paired w h" using 6 h by (auto dest: twin_paired)
  then have "paired (on_dev (\<lambda>d. d\<lparr>dv_status := observed_healthy (dv_status d)\<rparr>) w) (app_observed_healthy h)"
    by (simp add: app_observed_healthy_def paired_def Let_def publish_same sensing_on_mem)
  then show ?case using 6
    by (auto simp: esp_ports_def sim_ports_def going_def h app_observed_healthy_def intro: twin_quiet)
qed

section \<open>One iteration\<close>

lemma gather_lockstep:
  assumes "paired w h" "gather_input (board_of A) w = (i, w1)" "app_gather A h = (i', h1)"
  shows "i' = i \<and> paired w1 h1 \<and> dv_hid (wd_env w1) = dv_hid (wd_env w) \<and> seen h1 = seen h"
proof -
  have p: "dv_holds (wd_env w) = fw_holds (mem h)" "dv_gate (wd_env w) = fw_gate (mem h)"
    using assms(1) by (simp_all add: paired_def Let_def)
  obtain recal g where g: "(if 0 < fw_holds (mem h) then (False, fw_gate (mem h)) else gate_take (fw_gate (mem h))) = (recal, g)"
    by fastforce
  have pg: "paired (on_dev (\<lambda>d. d\<lparr>dv_gate := g\<rparr>) w) (on_mem (\<lambda>f. f\<lparr>fw_gate := g\<rparr>) h)"
    using assms(1) by (simp add: paired_def Let_def sensing_on_mem)
  obtain s w2 where r: "esp_read_stick (board_of A) (on_dev (\<lambda>d. d\<lparr>dv_gate := g\<rparr>) w) = (s, w2)" by fastforce
  obtain s' h2 where r': "app_read_stick A (on_mem (\<lambda>f. f\<lparr>fw_gate := g\<rparr>) h) = (s', h2)" by fastforce
  note l = read_stick_lockstep [OF pg r r']
  have now: "on_ext (b_now (board_of A)) w2 = (ho_now h2, w2)"
    using l by (cases w2; cases "wd_env w2") (simp add: on_ext_def on_dev_def paired_def Let_def sensing_def)
  have "i = \<lparr>stick = s, step_now = ho_now h2, recalibration_requested = recal, output_hold = (0 < fw_holds (mem h)),
        needs_calibration = dv_needs_calibration (wd_env w2), step_settings = st_settings (wd_store w2)\<rparr>" "w1 = w2"
    using assms(2) unfolding gather_input_def Let_def p g by (auto simp: r now)
  moreover have "i' = \<lparr>stick = s', step_now = ho_now h2, recalibration_requested = recal, output_hold = (0 < fw_holds (mem h)),
        needs_calibration = fw_needs (mem h2), step_settings = st_settings (fw_store (mem h2))\<rparr>" "h1 = h2"
    using assms(3) unfolding app_gather_def Let_def g by (auto simp: r')
  ultimately show ?thesis using l by (simp add: paired_def Let_def)
qed

text \<open>No sweep runs in an iteration that holds the output or finds none requested.\<close>

definition no_sweep :: "('j, 'e) dev \<Rightarrow> bool" where
  "no_sweep d \<longleftrightarrow> 0 < dv_holds d \<or> dv_gate d \<noteq> Requested"

lemma no_sweep_input: "no_sweep (wd_env w) \<Longrightarrow> gather_input B w = (i, w1) \<Longrightarrow> \<not> recalibration_requested i"
  by (auto simp: no_sweep_def gather_input_def gate_take_def Let_def split: prod.splits if_splits)

lemma twin_start: "paired w h \<Longrightarrow> dv_hid (wd_env w) = sent \<Longrightarrow> seen h = seen h0 \<Longrightarrow> twin sent h0 w (Going h)"
  using twin_intro [of w h sent "[]" h0] by simp

lemma mouse_iteration:
  assumes "paired (de_world d) h" "no_sweep (wd_env (de_world d))" "de_mouse d = im_mouse im" "\<not> im_xac_selected im"
  shows "rel_option (\<lambda>d' (im', v). de_mouse d' = im_mouse im' \<and> twin (dv_hid (wd_env (de_world d))) h (de_world d') v)
    (mouse_poll (board_of A) d) (app_iterate A im h)"
proof -
  obtain i w1 where g: "gather_input (board_of A) (de_world d) = (i, w1)" by fastforce
  obtain i' h1 where g': "app_gather A h = (i', h1)" by fastforce
  note l = gather_lockstep [OF assms(1) g g']
  have nr: "\<not> recalibration_requested i" using no_sweep_input [OF assms(2) g] .
  have "twin (dv_hid (wd_env (de_world d))) h w1 (Going h1)" using l by (intro twin_start) auto
  then have "rel_option (rel_prod (=) (twin (dv_hid (wd_env (de_world d))) h))
     (mouse_tick (ap_hypot A) (esp_ports (board_of A)) (de_mouse d) i w1)
     (mouse_tick (ap_hypot A) (sim_ports A) (de_mouse d) i (Going h1))"
    by (rule sim_twin.mouse_match_tick [OF _ nr])
  then consider
    "mouse_tick (ap_hypot A) (esp_ports (board_of A)) (de_mouse d) i w1 = None"
    "mouse_tick (ap_hypot A) (sim_ports A) (de_mouse d) i (Going h1) = None"
  | s w2 v where "mouse_tick (ap_hypot A) (esp_ports (board_of A)) (de_mouse d) i w1 = Some (s, w2)"
    "mouse_tick (ap_hypot A) (sim_ports A) (de_mouse d) i (Going h1) = Some (s, v)"
    "twin (dv_hid (wd_env (de_world d))) h w2 v"
    by (auto elim!: option.rel_cases)
  then show ?thesis
  proof cases
    case 1
    then show ?thesis using l nr assms(3,4) by (simp add: mouse_poll_def app_iterate_def app_tick_def g g')
  next
    case 2
    then obtain h2 where "v = Going h2" by (auto simp: twin_def)
    with 2 show ?thesis using l nr assms(3,4)
      by (simp add: mouse_poll_def app_iterate_def app_tick_def g g' finish_gate_def app_finish_gate_def going_def)
  qed
qed

lemma xac_iteration:
  assumes "paired w h" "no_sweep (wd_env w)" "im_xac_selected im"
  shows "rel_option (\<lambda>(s, w') (im', v). s = im_xac im' \<and> twin (dv_hid (wd_env w)) h w' v)
    (xac_poll (board_of A) (im_xac im) w) (app_iterate A im h)"
proof -
  obtain i w1 where g: "gather_input (board_of A) w = (i, w1)" by fastforce
  obtain i' h1 where g': "app_gather A h = (i', h1)" by fastforce
  note l = gather_lockstep [OF assms(1) g g']
  have nr: "\<not> recalibration_requested i" using no_sweep_input [OF assms(2) g] .
  have "twin (dv_hid (wd_env w)) h w1 (Going h1)" using l by (intro twin_start) auto
  then have "rel_option (rel_prod (=) (twin (dv_hid (wd_env w)) h))
     (xac_tick (ap_hypot A) (esp_ports (board_of A)) (im_xac im) i w1)
     (xac_tick (ap_hypot A) (sim_ports A) (im_xac im) i (Going h1))"
    by (rule sim_twin.xac_match_tick [OF _ nr])
  then consider
    "xac_tick (ap_hypot A) (esp_ports (board_of A)) (im_xac im) i w1 = None"
    "xac_tick (ap_hypot A) (sim_ports A) (im_xac im) i (Going h1) = None"
  | s w2 v where "xac_tick (ap_hypot A) (esp_ports (board_of A)) (im_xac im) i w1 = Some (s, w2)"
    "xac_tick (ap_hypot A) (sim_ports A) (im_xac im) i (Going h1) = Some (s, v)"
    "twin (dv_hid (wd_env w)) h w2 v"
    by (auto elim!: option.rel_cases)
  then show ?thesis
  proof cases
    case 1
    then show ?thesis using l nr assms(3) by (simp add: xac_poll_def app_iterate_def app_tick_def g g')
  next
    case 2
    then obtain h2 where "v = Going h2" by (auto simp: twin_def)
    with 2 show ?thesis using l nr assms(3)
      by (simp add: xac_poll_def app_iterate_def app_tick_def g g' finish_gate_def app_finish_gate_def going_def)
  qed
qed

end
