(* ===== verification/Sim_Twin.thy ===== *)
theory Sim_Twin
  imports Sim_Loop_Facts Runner_Facts
begin

text \<open>
  The simulated firmware as a twin of the device: its sensor comes up, its boot starts the loop in the state
  the device's boot starts it in, and over any number of iterations both report the same.
\<close>

section \<open>A bus that answers\<close>




section \<open>The boot\<close>


text \<open>The host apart from the sensor and the registers of its bus.\<close>

definition off_bus :: "'j sim_host \<Rightarrow> 'j fw \<times> flash \<times> files \<times> nanos" where
  "off_bus h = ((mem h)\<lparr>fw_regs := [], fw_counter := 0\<rparr>, ch_flash (ho_chip h), ch_files (ho_chip h), ho_now h)"

lemma off_bus_on_mem [simp]: "off_bus (on_mem (\<lambda>m. m\<lparr>fw_regs := r, fw_counter := c\<rparr>) h) = off_bus h"
  by (simp add: off_bus_def)










section \<open>Many iterations\<close>



text \<open>What changes between two iterations: the time, the sensor and the stick.\<close>

type_synonym outside = "nanos \<times> sensor_model \<times> stick_source"

definition place :: "outside \<Rightarrow> 'w host \<Rightarrow> 'w host" where
  "place u h = (case u of (t, m, s) \<Rightarrow> h\<lparr>ho_now := t, ho_sensor := m, ho_stick := s\<rparr>)"




lemma place_simps [simp]:
  "mem (place u h) = mem h" "ho_chip (place u h) = ho_chip h" "sensing (place u h) = (u, snd (sensing h))"
  "seen (place u h) = seen h"
  by (cases u; simp add: place_def mem_def sensing_def seen_def)+





section \<open>The property\<close>








end
