(* ===== verification/Spec2Isabelle.thy ===== *)
theory Spec2Isabelle
  imports Calibration_Safety Monitor_Runs Device_Contract Device_Rollback Device_Xac Ws_Server Runner_Facts Sim_Entry Sim_Twin
begin

text \<open>
  Verification of the omega-stick firmware and of its simulator.

  \<^bold>\<open>The program.\<close> omega-stick is an adaptive joystick: a magnet over a TMAG5273 sensor, read by an ESP32
  that is a USB mouse or an Xbox Adaptive Controller gamepad (XAC). \<open>main/main.cpp\<close> wires the parts
  together: the sensor driver (\<open>components/tmag5273\<close>), the calibration of the stick and the monitors that
  watch the sensor (\<open>components/omega_calibration\<close>, \<open>omega_calibration.hpp\<close>), the control engines that turn a
  position into reports (\<open>components/omega_control\<close>), the live store of calibration and settings
  (\<open>omega_store.hpp\<close>), the console service that a web page talks to over two USB links
  (\<open>calibration_service.hpp\<close>), the health check of a freshly updated image (\<open>firmware_health_check.hpp\<close>) and
  the log of reset reasons (\<open>reset_log.hpp\<close>). \<open>sim/\<close> runs the same components on a computer, around a
  simulated stick, sensor and flash, with a WebSocket server for the page and a runner for scripted tests.

  \<^bold>\<open>How they interact.\<close> The polling loop reads the stick, runs a tick of the control core and sends a
  report. The tick calls back into \<open>Ports\<close>: it may run a calibration sweep, save, move the stored center. The
  console links run on tasks of their own: they edit the store, ask for a sweep through the recalibration gate
  and upload firmware; while an upload runs they hold the output through a counter the loop reads. The store
  fires callbacks that re-apply the calibration to the joystick or restart the device. The health check runs in
  the loop and can roll an unconfirmed image back; boot consults the reset log and hands a crash-looping image
  over to the other slot.

  \<^bold>\<open>Theories and sources.\<close> Omega_Prelude holds the shared types, rule collections and list lemmas;
  Float32 is the C++ \<open>float\<close>, Float_Text its conversion to and from text; Double and Double_Ops are the
  \<open>double\<close> of the simulator.

  \<^item> \<open>omega_calibration.hpp\<close>: Calibration (data, median filter, sweeps, usability, application; every function
    keeps its name), Monitors (\<open>DriftCompensator\<close>, \<open>SensorFaultMonitor\<close>), Persistence (\<open>save\<close>, \<open>load\<close>, the
    settings file). Facts: Calibration_Facts, Calibration_Safety, Monitor_Runs.
  \<^item> \<open>omega_control.hpp\<close>: Control (\<open>mouse_step\<close>, \<open>xac_step\<close>, \<open>mouse_tick\<close>, \<open>xac_tick\<close>,
    \<open>RecalibrationGate\<close>; \<open>Ports\<close> is the record \<open>ports\<close>). Facts and the contracts \<open>recording_ports\<close> and
    \<open>store_ports\<close>: Control_Facts.
  \<^item> \<open>tmag5273.hpp\<close>: Sensor_Driver; \<open>sim/src/sensor.cpp\<close>'s fake bus and the bus contract: Sensor_Facts.
  \<^item> \<open>omega_store.hpp\<close>: Store. \<open>calibration_service.hpp\<close>: Service (one definition per message, \<open><name>_msg\<close>),
    with its facts and the contract \<open>wired_service\<close> in Service_Facts and the payloads in Service_Payloads.
  \<^item> \<open>firmware_health_check.hpp\<close>: Health_Check. \<open>reset_log.hpp\<close>: Reset_Log.
  \<^item> \<open>sim/stubs/sim_flash.hpp\<close> and \<open>ota.hpp\<close>: Ota_Slots (slots, bootloader, the OTA engine and the contract
    \<open>ota_engine\<close>), Flash_File (the saved state of the flash).
  \<^item> \<open>hid-rp-mouse.hpp\<close>: Hid_Reports (the fields of a report), Hid_Descriptors (descriptors, serialised reports and
    the host's reading of them). \<open>xac.hpp\<close>: Hid_Reports (what the loop sends), Xac_Report (the class).
  \<^item> \<open>main/main.cpp\<close>: Device (wiring), Device_Loop (\<open>EspPorts\<close>), Device_Runs (the decisions of a boot, and the mouse
    loop with the console as steps \<open>device_step\<close>), Device_Boot (the whole boot, \<open>device_boot\<close>, with the ways it can
    fail), Device_Xac (the controller's loop, \<open>xac_device_step\<close>); Device_Invariants, Device_Safety, Device_Contract
    and Device_Rollback hold what every run keeps and what it means for the user.
  \<^item> \<open>sim/src/json.cpp\<close>: Json, Json_Facts, Json_Doubles. \<open>ws_protocol.hpp\<close>: Ws_Frames, Ws_Handshake.
    \<open>ws_server.cpp\<close>: Ws_Server, in which the accept thread, the readers, the senders and the stop are interleaved: a
    step is one action of one thread on what they share, and the swap of the current connection, the shutting of the
    old one, the test for the current connection and the calls of the handlers are steps of their own.
  \<^item> \<open>sim/src/sensor.cpp\<close>: Sim_Sensor; \<open>stick.cpp\<close>: Sim_Stick; \<open>script.cpp\<close>: Script; \<open>sim_host.cpp\<close>: Sim_Host
    (host, page messages, telemetry) and Sim_Runner (requests, actions, expectations, the headless clock), with
    Runner_Facts; \<open>firmware.cpp\<close>: Sim_Firmware (helpers, the head of a boot) and Sim_Loop (the wiring, \<open>SimPorts\<close>,
    the rest of the boot and the loop), with Sim_Loop_Facts and Sim_Twin; \<open>sim/src/main.cpp\<close>: Sim_Main (command line, the loop of
    boots), Sim_Entry (the start and the end of the process, with the clocks of \<open>sim_clock.hpp\<close>).

  \<^bold>\<open>Conventions.\<close> A class is a record and a method a function from its state to its state; an enumeration is a
  datatype; machine integers are words, counters of type \<open>int\<close> are integers whose overflow is undefined
  behaviour and is proved not to happen or is a finding. Floats are bit patterns with exact rounding to nearest,
  evaluated without excess precision and without contraction to fused operations. Undefined behaviour is the
  value \<open>None\<close> or \<open>Undefined_behaviour\<close>. What the code cannot see is an argument: the clock, the outcome of a
  write, the bytes of a socket, the frame codec, the joystick library, \<open>atan2\<close>, \<open>hypot\<close>, \<open>sin\<close>, \<open>cos\<close>. An
  operation that holds a mutex is one step (the WebSocket server, whose threads act on each other between their
  critical sections, is modelled action by action); so is an iteration of the polling loop and the handling of one frame,
  with console edits between iterations. Log and console output of the firmware is left out.

  \<^bold>\<open>What is proved.\<close>
  \<^item> Uploads: one owner at a time, the output neutral while one runs, and the whole session refines a small
    abstract machine (Device_Contract). Images: on the running device an update nobody confirms is rolled back once
    its deadline has passed (Device_Rollback), and otherwise at the next boot; a boot of an unconfirmed image whose
    sensor or USB does not come up goes to the other image and halts only where there is none to go back to
    (Device_Boot); a crash-loop handover is deliberate and sticks (Device_Safety); there is always an image to boot; a crash loop is handed over once per power-on, and the simulator's
    boots carry this through (Sim_Main).
  \<^item> Calibration: a sweep always answers, what it accepts is usable, its deadzones are within their limits and the center one
    covers the resting noise; a
    device without a calibration stays neutral until a sweep succeeds; the loop and the store agree.
  \<^item> Monitors: failed or frozen readings trip the fault, and what a fault does to the reports.
  \<^item> Reports: what a report may say, and that the host reads every mouse report back by the descriptor the device
    gave it, for any number of buttons (Hid_Descriptors). The fields are read as the HID class definition says; the
    layout of the library's button set is a hypothesis, and what its padding items leave behind is arbitrary.
  \<^item> Storage: settings and calibration are read back as written, an interrupted save of the log keeps a log, the
    flash file is read back.
  \<^item> Protocols: the WebSocket decoder does not depend on how its bytes are cut and always returns, JSON is read
    back as printed. Of the WebSocket server, however its threads are interleaved: at most one connection is the
    current one, and of a replaced client at most one more call is made, which its reader was about to make; the
    messages of a client are those of its whole stream, the bytes received with its request included.
  \<^item> Simulator: a page cannot take the model out of its limits, an accepted script is well formed, its steps run
    in order, the exit status is the report, a headless run ends. The simulated board is a twin of the device: it
    boots into the same state and its loop reports the same (Sim_Loop_Facts relates the two worlds through the
    contract \<open>matching_ports\<close>).

  \<^bold>\<open>Loops and bounds.\<close> Loops over a counter are structural; the decoder's and the JSON parser's loops are
  option-valued partial functions which are proved to return on every input (\<open>feed_returns\<close>, \<open>parse_returns\<close>).
  No theorem depends on fuel. The bounds in statements are the code's: 16 entries of the reset log, the message
  and frame sizes of the protocols, the sample counts of the sweeps.

  \<^bold>\<open>Not modelled.\<close> The I2C bus below the driver and the printed results in \<open>main.cpp\<close>, and the console's frames that
  arrive while a boot waits for the USB host, which the model handles after it; the byte-stream parser and the
  dispatcher of the frame library, the joystick, gamepad and USB libraries and the platform, which are not in the
  repository; the timers of the operating system; sockets, timeouts and the joining of threads;
  the blob files of the simulated flash; \<open>to_hex\<close>; the stand-in headers
  of the platform; web pages, tools and documents.
\<close>

end
